(* ===== verification/Speck_Prelude.thy ===== *)
theory Speck_Prelude
  imports Main "HOL-Library.Word"
begin

text \<open>
  Shared vocabulary of the development. Rust's \<open>Result\<close> is the sum type with the error on
  the left; \<open>String\<close> and \<open>str\<close> are the UTF-8 bytes of the text as a
  \<^typ>\<open>string\<close>; \<open>HashMap\<close> is an association list whose newest entry comes first;
  \<open>HashSet\<close> is a list used through membership only; \<open>usize\<close> is \<^typ>\<open>nat\<close>.
  The generic lemmas on decimal text and on UTF-8 that several components share stand here.
\<close>

named_theorems spans_simps \<open>projections and bounds of source spans\<close>
named_theorems step_simps \<open>unfolding of one step of a modelled loop\<close>

section \<open>Results\<close>

type_synonym ('e, 'a) result = "'e + 'a"

abbreviation Err :: "'e \<Rightarrow> ('e, 'a) result" where
  "Err \<equiv> Inl"

abbreviation Ok :: "'a \<Rightarrow> ('e, 'a) result" where
  "Ok \<equiv> Inr"

definition rbind :: "('e, 'a) result \<Rightarrow> ('a \<Rightarrow> ('e, 'b) result) \<Rightarrow> ('e, 'b) result" where
  "rbind r f = (case r of Inl e \<Rightarrow> Inl e | Inr a \<Rightarrow> f a)"

lemma rbind_simps [simp]:
  "rbind (Inl e) f = Inl e"
  "rbind (Inr a) f = f a"
  by (simp_all add: rbind_def)

lemma rbind_eq_Ok: "rbind r f = Inr b \<longleftrightarrow> (\<exists>a. r = Inr a \<and> f a = Inr b)"
  by (cases r) auto

lemma rbind_cong [fundef_cong]:
  "\<lbrakk>r = r'; \<And>a. r' = Inr a \<Longrightarrow> f a = f' a\<rbrakk> \<Longrightarrow> rbind r f = rbind r' f'"
  by (cases r') auto

definition ok_or :: "'e \<Rightarrow> 'a option \<Rightarrow> ('e, 'a) result" where
  "ok_or e x = (case x of None \<Rightarrow> Inl e | Some a \<Rightarrow> Inr a)"

lemma ok_or_simps [simp]:
  "ok_or e None = Inl e"
  "ok_or e (Some a) = Inr a"
  by (simp_all add: ok_or_def)

text \<open>The results of a function on a list, up to the first error.\<close>

fun rmap :: "('a \<Rightarrow> ('e, 'b) result) \<Rightarrow> 'a list \<Rightarrow> ('e, 'b list) result" where
  "rmap f [] = Inr []"
| "rmap f (x # xs) = rbind (f x) (\<lambda>y. rbind (rmap f xs) (\<lambda>ys. Inr (y # ys)))"

lemma rmap_cong [fundef_cong]:
  "\<lbrakk>xs = ys; \<And>x. x \<in> set ys \<Longrightarrow> f x = g x\<rbrakk> \<Longrightarrow> rmap f xs = rmap g ys"
  by (induction xs arbitrary: ys) (auto intro!: rbind_cong)

lemma rmap_Ok_length: "rmap f xs = Inr ys \<Longrightarrow> length ys = length xs"
  by (induction xs arbitrary: ys) (auto simp: rbind_eq_Ok)

lemma rmap_Ok_nth: "rmap f xs = Inr ys \<Longrightarrow> i < length xs \<Longrightarrow> f (xs ! i) = Inr (ys ! i)"
proof (induction xs arbitrary: ys i)
  case (Cons x xs)
  then show ?case by (cases i) (auto simp: rbind_eq_Ok)
qed simp

lemma rmap_Ok_set: "rmap f xs = Inr ys \<Longrightarrow> y \<in> set ys \<Longrightarrow> \<exists>x \<in> set xs. f x = Inr y"
  by (induction xs arbitrary: ys) (auto simp: rbind_eq_Ok)

section \<open>Hash maps as association lists\<close>

type_synonym ('k, 'v) hash_map = "('k \<times> 'v) list"

definition hm_get :: "('k, 'v) hash_map \<Rightarrow> 'k \<Rightarrow> 'v option" where
  "hm_get m k = map_of m k"

definition hm_insert :: "'k \<Rightarrow> 'v \<Rightarrow> ('k, 'v) hash_map \<Rightarrow> ('k, 'v) hash_map" where
  "hm_insert k v m = (k, v) # m"

definition hm_contains :: "('k, 'v) hash_map \<Rightarrow> 'k \<Rightarrow> bool" where
  "hm_contains m k = (hm_get m k \<noteq> None)"

text \<open>\<open>collect()\<close> into a map: a later entry replaces an earlier one with the same key.\<close>

definition hm_collect :: "('k \<times> 'v) list \<Rightarrow> ('k, 'v) hash_map" where
  "hm_collect kvs = rev kvs"

lemma hm_get_Nil [simp]: "hm_get [] k = None"
  by (simp add: hm_get_def)

lemma hm_get_insert [simp]: "hm_get (hm_insert k v m) k' = (if k' = k then Some v else hm_get m k')"
  by (simp add: hm_get_def hm_insert_def)

lemma hm_contains_insert [simp]: "hm_contains (hm_insert k v m) k' \<longleftrightarrow> k' = k \<or> hm_contains m k'"
  by (simp add: hm_contains_def)

lemma hm_get_collect_Nil [simp]: "hm_get (hm_collect []) k = None"
  by (simp add: hm_collect_def)

lemma hm_contains_keys: "hm_contains m k \<longleftrightarrow> k \<in> fst ` set m"
  by (simp add: hm_contains_def hm_get_def map_of_eq_None_iff)

section \<open>Bytes, digits and decimal text\<close>

definition byte :: "char \<Rightarrow> nat" where
  "byte c = of_char c"

lemma byte_less: "byte c < 256"
  using of_char_of [where 'a = nat, of "of_char c"] by (simp add: byte_def)

definition is_ascii_digit :: "char \<Rightarrow> bool" where
  "is_ascii_digit c \<longleftrightarrow> 48 \<le> byte c \<and> byte c \<le> 57"

definition is_ascii_upper :: "char \<Rightarrow> bool" where
  "is_ascii_upper c \<longleftrightarrow> 65 \<le> byte c \<and> byte c \<le> 90"

definition is_ascii_lower :: "char \<Rightarrow> bool" where
  "is_ascii_lower c \<longleftrightarrow> 97 \<le> byte c \<and> byte c \<le> 122"

definition is_ascii_alphabetic :: "char \<Rightarrow> bool" where
  "is_ascii_alphabetic c \<longleftrightarrow> is_ascii_upper c \<or> is_ascii_lower c"

definition is_ascii_alphanumeric :: "char \<Rightarrow> bool" where
  "is_ascii_alphanumeric c \<longleftrightarrow> is_ascii_alphabetic c \<or> is_ascii_digit c"

definition newline :: char where
  "newline = CHR 0x0A"

definition digit_char :: "nat \<Rightarrow> char" where
  "digit_char d = char_of (48 + d)"

lemma byte_digit_char: "d < 10 \<Longrightarrow> byte (digit_char d) = 48 + d"
  by (simp add: byte_def digit_char_def)

lemma is_ascii_digit_digit_char: "d < 10 \<Longrightarrow> is_ascii_digit (digit_char d)"
  by (simp add: is_ascii_digit_def byte_digit_char)

text \<open>Decimal text of an unsigned integer, as \<open>to_string\<close> prints it.\<close>

fun show_nat :: "nat \<Rightarrow> string" where
  "show_nat n = (if n < 10 then [digit_char n] else show_nat (n div 10) @ [digit_char (n mod 10)])"

declare show_nat.simps [simp del]

definition show_int :: "int \<Rightarrow> string" where
  "show_int i = (if i < 0 then ''-'' @ show_nat (nat (- i)) else show_nat (nat i))"

text \<open>The number a run of decimal digits denotes.\<close>

definition digits_value :: "string \<Rightarrow> nat" where
  "digits_value s = foldl (\<lambda>acc c. 10 * acc + (byte c - 48)) 0 s"

lemma digits_value_Nil [simp]: "digits_value [] = 0"
  by (simp add: digits_value_def)

lemma digits_value_snoc: "digits_value (s @ [c]) = 10 * digits_value s + (byte c - 48)"
  by (simp add: digits_value_def)

lemma show_nat_digits: "\<forall>c \<in> set (show_nat n). is_ascii_digit c"
proof (induction n rule: show_nat.induct)
  case (1 n)
  show ?case
    by (cases "n < 10") (use "1.IH" in \<open>auto simp: show_nat.simps [of n] is_ascii_digit_digit_char\<close>)
qed

lemma show_nat_nonempty: "show_nat n \<noteq> []"
  by (subst show_nat.simps) simp

lemma digits_value_show_nat: "digits_value (show_nat n) = n"
proof (induction n rule: show_nat.induct)
  case (1 n)
  show ?case
  proof (cases "n < 10")
    case True
    then show ?thesis
      using digits_value_snoc [of "[]" "digit_char n"]
      by (simp add: show_nat.simps [of n] byte_digit_char)
  next
    case False
    with 1 show ?thesis
      by (simp add: show_nat.simps [of n] digits_value_snoc byte_digit_char)
  qed
qed

lemma show_nat_inject [simp]: "show_nat m = show_nat n \<longleftrightarrow> m = n"
  by (metis digits_value_show_nat)

section \<open>UTF-8\<close>

text \<open>A continuation byte; \<open>str::is_char_boundary\<close> looks for its absence.\<close>

definition is_continuation :: "char \<Rightarrow> bool" where
  "is_continuation c \<longleftrightarrow> 128 \<le> byte c \<and> byte c < 192"

definition is_char_boundary :: "string \<Rightarrow> nat \<Rightarrow> bool" where
  "is_char_boundary s i \<longleftrightarrow>
     i = 0 \<or> i = length s \<or> (i < length s \<and> \<not> is_continuation (s ! i))"

text \<open>\<open>chars().count()\<close> of a slice: one character per byte that does not continue another.\<close>

definition chars_count :: "string \<Rightarrow> nat" where
  "chars_count s = length (filter (\<lambda>c. \<not> is_continuation c) s)"

definition byte_in :: "string \<Rightarrow> nat \<Rightarrow> nat \<Rightarrow> nat \<Rightarrow> bool" where
  "byte_in s i lo hi \<longleftrightarrow> i < length s \<and> lo \<le> byte (s ! i) \<and> byte (s ! i) \<le> hi"

text \<open>
  Width of the scalar value a byte sequence starts with, by the table of well-formed UTF-8
  sequences that \<open>str::from_utf8\<close> enforces; \<^const>\<open>None\<close> when there is none.
\<close>

definition utf8_width :: "string \<Rightarrow> nat option" where
  "utf8_width s =
     (if byte_in s 0 0 127 then Some 1
      else if byte_in s 0 194 223 \<and> byte_in s 1 128 191 then Some 2
      else if byte_in s 0 224 224 \<and> byte_in s 1 160 191 \<and> byte_in s 2 128 191 then Some 3
      else if byte_in s 0 225 236 \<and> byte_in s 1 128 191 \<and> byte_in s 2 128 191 then Some 3
      else if byte_in s 0 237 237 \<and> byte_in s 1 128 159 \<and> byte_in s 2 128 191 then Some 3
      else if byte_in s 0 238 239 \<and> byte_in s 1 128 191 \<and> byte_in s 2 128 191 then Some 3
      else if byte_in s 0 240 240 \<and> byte_in s 1 144 191 \<and> byte_in s 2 128 191 \<and> byte_in s 3 128 191 then Some 4
      else if byte_in s 0 241 243 \<and> byte_in s 1 128 191 \<and> byte_in s 2 128 191 \<and> byte_in s 3 128 191 then Some 4
      else if byte_in s 0 244 244 \<and> byte_in s 1 128 143 \<and> byte_in s 2 128 191 \<and> byte_in s 3 128 191 then Some 4
      else None)"

lemma utf8_width_pos: "utf8_width s = Some n \<Longrightarrow> 0 < n \<and> n \<le> length s"
  by (auto simp: utf8_width_def byte_in_def Suc_le_eq split: if_splits)

function utf8_valid :: "string \<Rightarrow> bool" where
  "utf8_valid s =
     (s = [] \<or> (case utf8_width s of None \<Rightarrow> False | Some n \<Rightarrow> utf8_valid (drop n s)))"
  by pat_completeness auto
termination
  by (relation "measure length") (auto dest!: utf8_width_pos)

declare utf8_valid.simps [simp del]

lemma utf8_width_head: "utf8_width s = Some n \<Longrightarrow> s \<noteq> [] \<and> \<not> is_continuation (s ! 0)"
  by (auto simp: utf8_width_def byte_in_def is_continuation_def split: if_splits)

lemma utf8_width_tail:
  assumes "utf8_width s = Some n" and "0 < i" and "i < n"
  shows "is_continuation (s ! i)"
proof -
  have "i = 1 \<or> i = 2 \<or> i = 3"
    using assms by (auto simp: utf8_width_def split: if_splits)
  then show ?thesis
    using assms
    by (elim disjE) (auto simp: utf8_width_def byte_in_def is_continuation_def split: if_splits)
qed

lemma utf8_width_ascii: "s \<noteq> [] \<Longrightarrow> byte (s ! 0) < 128 \<Longrightarrow> utf8_width s = Some 1"
  by (simp add: utf8_width_def byte_in_def)

text \<open>In valid text a boundary cuts it into two valid texts.\<close>

lemma utf8_valid_drop_boundary:
  "utf8_valid s \<Longrightarrow> is_char_boundary s i \<Longrightarrow> utf8_valid (drop i s)"
proof (induction s arbitrary: i rule: utf8_valid.induct)
  case (1 s)
  show ?case
  proof (cases "s = [] \<or> i = 0 \<or> i = length s")
    case True
    then show ?thesis using "1.prems" by (auto simp: utf8_valid.simps [of "[]"])
  next
    case False
    then obtain n where n: "utf8_width s = Some n" and v: "utf8_valid (drop n s)"
      using "1.prems"(1) by (auto simp: utf8_valid.simps [of s] split: option.splits)
    have i: "0 < i" "i < length s" "\<not> is_continuation (s ! i)"
      using False "1.prems"(2) by (auto simp: is_char_boundary_def)
    have "n \<le> i"
      using utf8_width_tail [OF n] i by (meson not_less)
    moreover have "is_char_boundary (drop n s) (i - n)"
      using i \<open>n \<le> i\<close> by (auto simp: is_char_boundary_def)
    ultimately have "utf8_valid (drop (i - n) (drop n s))"
      using False n v by (intro "1.IH") auto
    with \<open>n \<le> i\<close> show ?thesis by simp
  qed
qed

end
