(* ===== verification/Keyboard.thy ===== *)
theory Keyboard
  imports Speck_Prelude
begin

text \<open>
  Physical keys. The catalogue \<^verbatim>\<open>src/runtime/crumb/keys.def\<close> is read at build time
  by \<^verbatim>\<open>src/build.rs\<close>, which checks it and writes the table \<open>KEYS\<close> that
  \<^verbatim>\<open>src/src/keyboard.rs\<close> includes. The catalogue is a table of rows here;
  \<open>catalog_check\<close> states the assertions of \<open>parse_catalog\<close> on the rows in the order
  they are made, and \<open>KEYS\<close> is what \<open>rust_catalog\<close> writes for them. A key is its
  discriminant.
\<close>

type_synonym u8 = "8 word"

text \<open>C suffix, Rust variant, wire identifier, browser code, macOS code, modifier mask.\<close>

type_synonym catalog_row = "string \<times> string \<times> nat \<times> string \<times> nat \<times> nat"

definition catalog_letters :: "catalog_row list" where
  "catalog_letters =
    [(''W'', ''W'', 0, ''KeyW'', 13, 0),
     (''A'', ''A'', 1, ''KeyA'', 0, 0),
     (''S'', ''S'', 2, ''KeyS'', 1, 0),
     (''D'', ''D'', 3, ''KeyD'', 2, 0),
     (''UP'', ''Up'', 4, ''ArrowUp'', 126, 0),
     (''DOWN'', ''Down'', 5, ''ArrowDown'', 125, 0),
     (''LEFT'', ''Left'', 6, ''ArrowLeft'', 123, 0),
     (''RIGHT'', ''Right'', 7, ''ArrowRight'', 124, 0),
     (''SPACE'', ''Space'', 8, ''Space'', 49, 0),
     (''ENTER'', ''Enter'', 9, ''Enter'', 36, 0),
     (''ESCAPE'', ''Escape'', 10, ''Escape'', 53, 0),
     (''F'', ''F'', 11, ''KeyF'', 3, 0),
     (''B'', ''B'', 12, ''KeyB'', 11, 0),
     (''C'', ''C'', 13, ''KeyC'', 8, 0),
     (''E'', ''E'', 14, ''KeyE'', 14, 0),
     (''G'', ''G'', 15, ''KeyG'', 5, 0),
     (''H'', ''H'', 16, ''KeyH'', 4, 0),
     (''I'', ''I'', 17, ''KeyI'', 34, 0),
     (''J'', ''J'', 18, ''KeyJ'', 38, 0),
     (''K'', ''K'', 19, ''KeyK'', 40, 0),
     (''L'', ''L'', 20, ''KeyL'', 37, 0),
     (''M'', ''M'', 21, ''KeyM'', 46, 0),
     (''N'', ''N'', 22, ''KeyN'', 45, 0),
     (''O'', ''O'', 23, ''KeyO'', 31, 0),
     (''P'', ''P'', 24, ''KeyP'', 35, 0),
     (''Q'', ''Q'', 25, ''KeyQ'', 12, 0),
     (''R'', ''R'', 26, ''KeyR'', 15, 0),
     (''T'', ''T'', 27, ''KeyT'', 17, 0),
     (''U'', ''U'', 28, ''KeyU'', 32, 0),
     (''V'', ''V'', 29, ''KeyV'', 9, 0),
     (''X'', ''X'', 30, ''KeyX'', 7, 0),
     (''Y'', ''Y'', 31, ''KeyY'', 16, 0),
     (''Z'', ''Z'', 32, ''KeyZ'', 6, 0)]"

definition catalog_symbols :: "catalog_row list" where
  "catalog_symbols =
    [(''0'', ''Digit0'', 33, ''Digit0'', 29, 0),
     (''1'', ''Digit1'', 34, ''Digit1'', 18, 0),
     (''2'', ''Digit2'', 35, ''Digit2'', 19, 0),
     (''3'', ''Digit3'', 36, ''Digit3'', 20, 0),
     (''4'', ''Digit4'', 37, ''Digit4'', 21, 0),
     (''5'', ''Digit5'', 38, ''Digit5'', 23, 0),
     (''6'', ''Digit6'', 39, ''Digit6'', 22, 0),
     (''7'', ''Digit7'', 40, ''Digit7'', 26, 0),
     (''8'', ''Digit8'', 41, ''Digit8'', 28, 0),
     (''9'', ''Digit9'', 42, ''Digit9'', 25, 0),
     (''MINUS'', ''Minus'', 43, ''Minus'', 27, 0),
     (''EQUAL'', ''Equal'', 44, ''Equal'', 24, 0),
     (''BRACKET_LEFT'', ''BracketLeft'', 45, ''BracketLeft'', 33, 0),
     (''BRACKET_RIGHT'', ''BracketRight'', 46, ''BracketRight'', 30, 0),
     (''BACKSLASH'', ''Backslash'', 47, ''Backslash'', 42, 0),
     (''SEMICOLON'', ''Semicolon'', 48, ''Semicolon'', 41, 0),
     (''QUOTE'', ''Quote'', 49, ''Quote'', 39, 0),
     (''BACKQUOTE'', ''Backquote'', 50, ''Backquote'', 50, 0),
     (''COMMA'', ''Comma'', 51, ''Comma'', 43, 0),
     (''PERIOD'', ''Period'', 52, ''Period'', 47, 0),
     (''SLASH'', ''Slash'', 53, ''Slash'', 44, 0),
     (''TAB'', ''Tab'', 54, ''Tab'', 48, 0),
     (''BACKSPACE'', ''Backspace'', 55, ''Backspace'', 51, 0),
     (''DELETE'', ''Delete'', 56, ''Delete'', 117, 0),
     (''INSERT'', ''Insert'', 57, ''Insert'', 65535, 0),
     (''HOME'', ''Home'', 58, ''Home'', 115, 0),
     (''END'', ''End'', 59, ''End'', 119, 0),
     (''PAGE_UP'', ''PageUp'', 60, ''PageUp'', 116, 0),
     (''PAGE_DOWN'', ''PageDown'', 61, ''PageDown'', 121, 0)]"

definition catalog_function_and_numpad :: "catalog_row list" where
  "catalog_function_and_numpad =
    [(''F1'', ''F1'', 62, ''F1'', 122, 0),
     (''F2'', ''F2'', 63, ''F2'', 120, 0),
     (''F3'', ''F3'', 64, ''F3'', 99, 0),
     (''F4'', ''F4'', 65, ''F4'', 118, 0),
     (''F5'', ''F5'', 66, ''F5'', 96, 0),
     (''F6'', ''F6'', 67, ''F6'', 97, 0),
     (''F7'', ''F7'', 68, ''F7'', 98, 0),
     (''F8'', ''F8'', 69, ''F8'', 100, 0),
     (''F9'', ''F9'', 70, ''F9'', 101, 0),
     (''F10'', ''F10'', 71, ''F10'', 109, 0),
     (''F11'', ''F11'', 72, ''F11'', 103, 0),
     (''F12'', ''F12'', 73, ''F12'', 111, 0),
     (''F13'', ''F13'', 74, ''F13'', 105, 0),
     (''F14'', ''F14'', 75, ''F14'', 107, 0),
     (''F15'', ''F15'', 76, ''F15'', 113, 0),
     (''F16'', ''F16'', 77, ''F16'', 106, 0),
     (''F17'', ''F17'', 78, ''F17'', 64, 0),
     (''F18'', ''F18'', 79, ''F18'', 79, 0),
     (''F19'', ''F19'', 80, ''F19'', 80, 0),
     (''F20'', ''F20'', 81, ''F20'', 90, 0),
     (''F21'', ''F21'', 82, ''F21'', 65535, 0),
     (''F22'', ''F22'', 83, ''F22'', 65535, 0),
     (''F23'', ''F23'', 84, ''F23'', 65535, 0),
     (''F24'', ''F24'', 85, ''F24'', 65535, 0),
     (''NUMPAD_0'', ''Numpad0'', 86, ''Numpad0'', 82, 0),
     (''NUMPAD_1'', ''Numpad1'', 87, ''Numpad1'', 83, 0),
     (''NUMPAD_2'', ''Numpad2'', 88, ''Numpad2'', 84, 0),
     (''NUMPAD_3'', ''Numpad3'', 89, ''Numpad3'', 85, 0),
     (''NUMPAD_4'', ''Numpad4'', 90, ''Numpad4'', 86, 0),
     (''NUMPAD_5'', ''Numpad5'', 91, ''Numpad5'', 87, 0),
     (''NUMPAD_6'', ''Numpad6'', 92, ''Numpad6'', 88, 0),
     (''NUMPAD_7'', ''Numpad7'', 93, ''Numpad7'', 89, 0),
     (''NUMPAD_8'', ''Numpad8'', 94, ''Numpad8'', 91, 0),
     (''NUMPAD_9'', ''Numpad9'', 95, ''Numpad9'', 92, 0),
     (''NUMPAD_ADD'', ''NumpadAdd'', 96, ''NumpadAdd'', 69, 0),
     (''NUMPAD_SUBTRACT'', ''NumpadSubtract'', 97, ''NumpadSubtract'', 78, 0),
     (''NUMPAD_MULTIPLY'', ''NumpadMultiply'', 98, ''NumpadMultiply'', 67, 0),
     (''NUMPAD_DIVIDE'', ''NumpadDivide'', 99, ''NumpadDivide'', 75, 0),
     (''NUMPAD_DECIMAL'', ''NumpadDecimal'', 100, ''NumpadDecimal'', 65, 0),
     (''NUMPAD_EQUAL'', ''NumpadEqual'', 101, ''NumpadEqual'', 81, 0),
     (''NUMPAD_ENTER'', ''NumpadEnter'', 102, ''NumpadEnter'', 76, 0),
     (''SHIFT_LEFT'', ''ShiftLeft'', 103, ''ShiftLeft'', 56, 2),
     (''SHIFT_RIGHT'', ''ShiftRight'', 104, ''ShiftRight'', 60, 4),
     (''CONTROL_LEFT'', ''ControlLeft'', 105, ''ControlLeft'', 59, 1),
     (''CONTROL_RIGHT'', ''ControlRight'', 106, ''ControlRight'', 62, 8192),
     (''ALT_LEFT'', ''AltLeft'', 107, ''AltLeft'', 58, 32),
     (''ALT_RIGHT'', ''AltRight'', 108, ''AltRight'', 61, 64),
     (''META_LEFT'', ''MetaLeft'', 109, ''MetaLeft'', 55, 8),
     (''META_RIGHT'', ''MetaRight'', 110, ''MetaRight'', 54, 16)]"

definition key_catalog :: "catalog_row list" where
  "key_catalog = catalog_letters @ catalog_symbols @ catalog_function_and_numpad"

section \<open>The build-time check\<close>

definition catalog_identifier :: "string \<Rightarrow> bool" where
  "catalog_identifier s \<longleftrightarrow>
     (case s of [] \<Rightarrow> False | c # _ \<Rightarrow> is_ascii_upper c) \<and> list_all is_ascii_alphanumeric s"

text \<open>\<open>u32::is_power_of_two\<close>.\<close>

definition is_power_of_two :: "nat \<Rightarrow> bool" where
  "is_power_of_two n \<longleftrightarrow> n \<in> set (map (\<lambda>k. 2 ^ k) [0..<32])"

definition row_suffix :: "catalog_row \<Rightarrow> string" where
  "row_suffix row = (case row of (suffix, variant, key_number, code, macos, modifier) \<Rightarrow> suffix)"

definition row_variant :: "catalog_row \<Rightarrow> string" where
  "row_variant row = (case row of (suffix, variant, key_number, code, macos, modifier) \<Rightarrow> variant)"

definition row_number :: "catalog_row \<Rightarrow> nat" where
  "row_number row = (case row of (suffix, variant, key_number, code, macos, modifier) \<Rightarrow> key_number)"

definition row_code :: "catalog_row \<Rightarrow> string" where
  "row_code row = (case row of (suffix, variant, key_number, code, macos, modifier) \<Rightarrow> code)"

definition row_macos :: "catalog_row \<Rightarrow> nat" where
  "row_macos row = (case row of (suffix, variant, key_number, code, macos, modifier) \<Rightarrow> macos)"

definition row_modifier :: "catalog_row \<Rightarrow> nat" where
  "row_modifier row = (case row of (suffix, variant, key_number, code, macos, modifier) \<Rightarrow> modifier)"

lemmas row_defs = row_suffix_def row_variant_def row_number_def row_code_def row_macos_def row_modifier_def

definition row_wellformed :: "catalog_row \<Rightarrow> bool" where
  "row_wellformed row \<longleftrightarrow>
     row_suffix row \<noteq> []
     \<and> list_all (\<lambda>c. is_ascii_upper c \<or> is_ascii_digit c \<or> c = CHR ''_'') (row_suffix row)
     \<and> catalog_identifier (row_variant row) \<and> catalog_identifier (row_code row)
     \<and> row_number row < 256 \<and> row_macos row < 65536
     \<and> (row_modifier row = 0 \<or> (is_power_of_two (row_modifier row) \<and> row_macos row \<noteq> 65535))"

definition row_ok :: "catalog_row list \<Rightarrow> catalog_row \<Rightarrow> bool" where
  "row_ok seen row \<longleftrightarrow>
     row_wellformed row
     \<and> row_number row = length seen
     \<and> row_suffix row \<notin> set (map row_suffix seen)
     \<and> row_variant row \<notin> set (map row_variant seen)
     \<and> row_code row \<notin> set (map row_code seen)
     \<and> (row_macos row = 65535 \<or> row_macos row \<notin> set (map row_macos seen))
     \<and> (row_modifier row = 0 \<or> row_modifier row \<notin> set (map row_modifier seen))"

fun catalog_check_from :: "catalog_row list \<Rightarrow> catalog_row list \<Rightarrow> bool" where
  "catalog_check_from seen [] = True"
| "catalog_check_from seen (row # rows) = (row_ok seen row \<and> catalog_check_from (seen @ [row]) rows)"

definition catalog_check :: "catalog_row list \<Rightarrow> bool" where
  "catalog_check rows \<longleftrightarrow> rows \<noteq> [] \<and> catalog_check_from [] rows"

section \<open>The generated table and its lookups\<close>

datatype key = Key (key_id: u8)

record key_info =
  ki_key :: key
  ki_name :: string
  ki_browser_code :: string
  ki_macos_code :: "16 word option"
  ki_modifier_mask :: "32 word"

definition key_info_of :: "catalog_row \<Rightarrow> key_info" where
  "key_info_of row =
     (case row of (suffix, variant, key_number, code, macos, modifier) \<Rightarrow>
        \<lparr>ki_key = Key (of_nat key_number), ki_name = ''KEY_'' @ suffix, ki_browser_code = code,
         ki_macos_code = (if macos = 65535 then None else Some (of_nat macos)),
         ki_modifier_mask = of_nat modifier\<rparr>)"

definition KEYS :: "key_info list" where
  "KEYS = map key_info_of key_catalog"

definition key_from_id :: "u8 \<Rightarrow> key option" where
  "key_from_id i = (if unat i < length KEYS then Some (ki_key (KEYS ! unat i)) else None)"

definition key_from_browser_code :: "string \<Rightarrow> key option" where
  "key_from_browser_code code = map_option ki_key (find (\<lambda>info. ki_browser_code info = code) KEYS)"

definition is_key :: "key \<Rightarrow> bool" where
  "is_key k \<longleftrightarrow> unat (key_id k) < length KEYS"

section \<open>Lemmas\<close>

lemma catalog_check_numbers:
  "catalog_check_from seen rows \<Longrightarrow> i < length rows \<Longrightarrow>
   row_number (rows ! i) = length seen + i \<and> length seen + i < 256"
proof (induction seen rows arbitrary: i rule: catalog_check_from.induct)
  case (2 seen row rows)
  then show ?case by (cases i) (fastforce simp: row_ok_def row_wellformed_def)+
qed simp

lemma catalog_check_codes:
  "catalog_check_from seen rows \<Longrightarrow> distinct (map row_code seen) \<Longrightarrow>
   distinct (map row_code (seen @ rows))"
  by (induction seen rows rule: catalog_check_from.induct) (auto simp: row_ok_def)

text \<open>The check row by row follows from distinct columns and numbers in order.\<close>

lemma catalog_check_fromI:
  assumes "list_all row_wellformed rows"
    and "map row_number rows = [length seen..<length seen + length rows]"
    and "distinct (map row_suffix (seen @ rows))" and "distinct (map row_variant (seen @ rows))"
    and "distinct (map row_code (seen @ rows))"
    and "distinct (filter (\<lambda>m. m \<noteq> 65535) (map row_macos (seen @ rows)))"
    and "distinct (filter (\<lambda>m. 0 < m) (map row_modifier (seen @ rows)))"
  shows "catalog_check_from seen rows"
  using assms
proof (induction rows arbitrary: seen)
  case (Cons row rows)
  have "row_ok seen row"
    using Cons.prems by (auto simp: row_ok_def upt_rec split: if_splits)
  moreover have "catalog_check_from (seen @ [row]) rows"
    using Cons.prems by (intro Cons.IH) (auto simp: upt_rec split: if_splits)
  ultimately show ?case by simp
qed simp

lemmas key_catalog_eval =
  key_catalog_def catalog_letters_def catalog_symbols_def catalog_function_and_numpad_def

lemmas ascii_eval =
  is_ascii_upper_def is_ascii_lower_def is_ascii_digit_def is_ascii_alphabetic_def
  is_ascii_alphanumeric_def byte_def

lemma key_catalog_wellformed: "list_all row_wellformed key_catalog"
proof -
  have "list_all (\<lambda>row. row_suffix row \<noteq> [] \<and>
      list_all (\<lambda>c. is_ascii_upper c \<or> is_ascii_digit c \<or> c = CHR ''_'') (row_suffix row)) key_catalog"
    by (simp add: key_catalog_eval row_defs ascii_eval)
  moreover have "list_all (\<lambda>row. catalog_identifier (row_variant row)) key_catalog"
    by (simp add: key_catalog_eval row_defs catalog_identifier_def ascii_eval)
  moreover have "list_all (\<lambda>row. catalog_identifier (row_code row)) key_catalog"
    by (simp add: key_catalog_eval row_defs catalog_identifier_def ascii_eval)
  moreover have "list_all (\<lambda>row. row_number row < 256 \<and> row_macos row < 65536 \<and>
      (row_modifier row = 0 \<or> (is_power_of_two (row_modifier row) \<and> row_macos row \<noteq> 65535))) key_catalog"
    by (simp add: key_catalog_eval row_defs is_power_of_two_def upt_rec)
  ultimately show ?thesis
    by (simp add: list_all_iff row_wellformed_def)
qed

lemma key_catalog_numbers: "map row_number key_catalog = [0..<length key_catalog]"
  by (simp add: key_catalog_eval row_defs upt_rec)

lemma key_catalog_columns:
  "distinct (map row_suffix key_catalog)"
  "distinct (map row_variant key_catalog)"
  "distinct (map row_code key_catalog)"
  "distinct (filter (\<lambda>m. m \<noteq> 65535) (map row_macos key_catalog))"
  "distinct (filter (\<lambda>m. 0 < m) (map row_modifier key_catalog))"
  by (simp_all add: key_catalog_eval row_defs)

lemma key_catalog_checked: "catalog_check key_catalog"
  unfolding catalog_check_def
proof
  show "key_catalog \<noteq> []" by (simp add: key_catalog_eval)
  show "catalog_check_from [] key_catalog"
    by (rule catalog_check_fromI)
      (simp_all add: key_catalog_wellformed key_catalog_numbers key_catalog_columns)
qed

lemma length_KEYS: "length KEYS = 111"
  by (simp add: KEYS_def key_catalog_eval)

lemma KEYS_nth:
  assumes "i < length KEYS"
  shows "ki_key (KEYS ! i) = Key (of_nat i)"
proof -
  have "row_number (key_catalog ! i) = i"
    using key_catalog_checked catalog_check_numbers [of "[]" key_catalog i] assms
    by (simp add: catalog_check_def KEYS_def)
  with assms show ?thesis
    by (simp add: KEYS_def key_info_of_def row_number_def split: prod.splits)
qed

text \<open>A wire identifier is accepted exactly when it names a key, and names that key.\<close>

lemma key_from_id_eq: "key_from_id i = (if unat i < length KEYS then Some (Key i) else None)"
  by (simp add: key_from_id_def KEYS_nth)

lemma key_from_id_key_id: "is_key k \<Longrightarrow> key_from_id (key_id k) = Some k"
  by (simp add: key_from_id_eq is_key_def)

lemma key_from_id_Some: "key_from_id i = Some k \<longleftrightarrow> is_key k \<and> key_id k = i"
  by (cases k) (auto simp: key_from_id_eq is_key_def)

lemma browser_codes_distinct: "distinct (map ki_browser_code KEYS)"
proof -
  have "map ki_browser_code KEYS = map row_code key_catalog"
    by (auto simp: KEYS_def key_info_of_def row_code_def)
  then show ?thesis by (simp add: key_catalog_columns)
qed

text \<open>The browser code of every key leads back to that key.\<close>

lemma find_unique:
  "distinct (map f xs) \<Longrightarrow> x \<in> set xs \<Longrightarrow> find (\<lambda>y. f y = f x) xs = Some x"
  by (induction xs) (auto simp: rev_image_eqI)

lemma key_from_browser_code_KEYS:
  "i < length KEYS \<Longrightarrow> key_from_browser_code (ki_browser_code (KEYS ! i)) = Some (Key (of_nat i))"
  by (simp add: key_from_browser_code_def find_unique [OF browser_codes_distinct] KEYS_nth)

lemma key_from_browser_code_is_key: "key_from_browser_code c = Some k \<Longrightarrow> is_key k"
proof -
  assume "key_from_browser_code c = Some k"
  then obtain i where "i < length KEYS" "k = ki_key (KEYS ! i)"
    by (auto simp: key_from_browser_code_def find_Some_iff)
  then show ?thesis
    by (simp add: is_key_def length_KEYS unat_of_nat KEYS_nth)
qed

end
