(* ===== verification/Resolution.thy ===== *)
theory Resolution
  imports Speck_Prelude
begin

text \<open>
  The logical framebuffer size, \<^verbatim>\<open>src/src/resolution.rs\<close>: construction enforces
  the portable limits, so every value of the type that the program builds is within them.
\<close>

type_synonym u16 = "16 word"

record resolution =
  res_width :: u16
  res_height :: u16

definition MAX_DIMENSION :: u16 where
  "MAX_DIMENSION = 4096"

definition resolution_default :: resolution where
  "resolution_default = \<lparr>res_width = 320, res_height = 180\<rparr>"

definition err_resolution_range :: "string \<Rightarrow> u16 \<Rightarrow> string" where
  "err_resolution_range name dimension =
     ''resolution '' @ name @ '' must be between 1 and '' @ show_nat (unat MAX_DIMENSION)
     @ '', found '' @ show_nat (unat dimension)"

definition dimension_ok :: "u16 \<Rightarrow> bool" where
  "dimension_ok d \<longleftrightarrow> 1 \<le> d \<and> d \<le> MAX_DIMENSION"

definition resolution_new :: "u16 \<Rightarrow> u16 \<Rightarrow> (string, resolution) result" where
  "resolution_new width height =
     (if \<not> dimension_ok width then Err (err_resolution_range ''width'' width)
      else if \<not> dimension_ok height then Err (err_resolution_range ''height'' height)
      else Ok \<lparr>res_width = width, res_height = height\<rparr>)"

definition payload_bytes :: "resolution \<Rightarrow> nat" where
  "payload_bytes r = unat (res_width r) * unat (res_height r) * 3"

definition resolution_valid :: "resolution \<Rightarrow> bool" where
  "resolution_valid r \<longleftrightarrow> dimension_ok (res_width r) \<and> dimension_ok (res_height r)"

lemma dimension_ok_unat: "dimension_ok d \<longleftrightarrow> 1 \<le> unat d \<and> unat d \<le> 4096"
  by (simp add: dimension_ok_def MAX_DIMENSION_def word_le_nat_alt)

lemma resolution_new_Ok:
  "resolution_new w h = Ok r \<longleftrightarrow> r = \<lparr>res_width = w, res_height = h\<rparr> \<and> resolution_valid r"
  by (auto simp: resolution_new_def resolution_valid_def)

lemma resolution_new_valid: "resolution_valid r \<Longrightarrow> resolution_new (res_width r) (res_height r) = Ok r"
  by (simp add: resolution_new_Ok)

lemma resolution_default_valid: "resolution_valid resolution_default"
  by (simp add: resolution_valid_def resolution_default_def dimension_ok_unat)

text \<open>The payload of any constructible resolution fits the 32-bit length of the frame header.\<close>

lemma payload_bytes_bounds:
  assumes "resolution_valid r"
  shows "3 \<le> payload_bytes r" and "payload_bytes r \<le> 50331648"
proof -
  have w: "1 \<le> unat (res_width r)" "unat (res_width r) \<le> 4096"
    and h: "1 \<le> unat (res_height r)" "unat (res_height r) \<le> 4096"
    using assms by (simp_all add: resolution_valid_def dimension_ok_unat)
  have "1 * 1 \<le> unat (res_width r) * unat (res_height r)"
    using w h by (intro mult_le_mono) auto
  moreover have "unat (res_width r) * unat (res_height r) \<le> 4096 * 4096"
    using w h by (intro mult_le_mono) auto
  ultimately show "3 \<le> payload_bytes r" "payload_bytes r \<le> 50331648"
    by (simp_all add: payload_bytes_def mult.commute)
qed

end
