(* ===== verification/Protocol.thy ===== *)
theory Protocol
  imports Keyboard Resolution
begin

text \<open>
  The wire protocols of the development server, \<^verbatim>\<open>src/src/dev/protocol.rs\<close>:
  control messages to the game, frames from the game, and input messages from the browser. A
  \<open>ProtocolError\<close> is its text. A reader is the list of what its \<open>read\<close> calls will
  find: a chunk of bytes or an error, and end of file after the last one; an empty chunk is a read
  of zero bytes. An I/O error carries the text it displays as, which the operating system chooses.
\<close>

type_synonym bytes = "u8 list"
type_synonym u64 = "64 word"

section \<open>Big-endian integers\<close>

fun to_be_bytes :: "nat \<Rightarrow> nat \<Rightarrow> bytes" where
  "to_be_bytes 0 v = []"
| "to_be_bytes (Suc n) v = to_be_bytes n (v div 256) @ [of_nat (v mod 256)]"

definition from_be_bytes :: "bytes \<Rightarrow> nat" where
  "from_be_bytes bs = foldl (\<lambda>acc b. acc * 256 + unat b) 0 bs"

lemma length_to_be_bytes [simp]: "length (to_be_bytes n v) = n"
  by (induction n arbitrary: v) auto

lemma from_be_bytes_snoc: "from_be_bytes (bs @ [b]) = from_be_bytes bs * 256 + unat b"
  by (simp add: from_be_bytes_def)

lemma unat_u8_less: "unat (b :: u8) < 256"
  using unsigned_less [of b] by simp

lemma from_be_bytes_less: "from_be_bytes bs < 256 ^ length bs"
proof (induction bs rule: rev_induct)
  case (snoc b bs)
  have "from_be_bytes bs * 256 + unat b < (from_be_bytes bs + 1) * 256"
    using unat_u8_less [of b] by simp
  also have "\<dots> \<le> 256 ^ length bs * 256"
    using snoc.IH by (intro mult_le_mono1) simp
  finally show ?case by (simp add: from_be_bytes_snoc mult.commute)
qed (simp add: from_be_bytes_def)

lemma from_to_be_bytes: "v < 256 ^ n \<Longrightarrow> from_be_bytes (to_be_bytes n v) = v"
proof (induction n arbitrary: v)
  case (Suc n)
  then have "v div 256 < 256 ^ n" by (simp add: less_mult_imp_div_less mult.commute)
  with Suc.IH show ?case by (simp add: from_be_bytes_snoc unat_of_nat)
qed (simp add: from_be_bytes_def)

lemma to_from_be_bytes: "to_be_bytes (length bs) (from_be_bytes bs) = bs"
proof (induction bs rule: rev_induct)
  case (snoc b bs)
  then show ?case
    using unat_u8_less [of b] by (simp add: from_be_bytes_snoc)
qed simp

section \<open>Constants and messages\<close>

definition FRAME_HEADER_BYTES :: nat where
  "FRAME_HEADER_BYTES = 24"

definition CONTROL_MESSAGE_BYTES :: nat where
  "CONTROL_MESSAGE_BYTES = 8"

definition BROWSER_INPUT_MAX_BYTES :: nat where
  "BROWSER_INPUT_MAX_BYTES = 128"

definition MAGIC :: bytes where
  "MAGIC = [0x53, 0x50, 0x4B, 0x46]"

definition VERSION :: u8 where
  "VERSION = 1"

definition PIXEL_FORMAT_RGB8 :: u8 where
  "PIXEL_FORMAT_RGB8 = 1"

definition CONTROL_MAGIC :: bytes where
  "CONTROL_MAGIC = [0x53, 0x50, 0x4B, 0x49]"

definition CONTROL_VERSION :: u8 where
  "CONTROL_VERSION = 1"

definition CONTROL_KEY :: u8 where
  "CONTROL_KEY = 1"

definition CONTROL_RELEASE_ALL :: u8 where
  "CONTROL_RELEASE_ALL = 2"

datatype control_message =
    ControlKey key bool
  | ControlReleaseAll

datatype browser_input =
    BrowserKey string key bool
  | BrowserReleaseAll string
  | BrowserHeartbeat string
  | BrowserUnsupportedKey string

definition browser_client :: "browser_input \<Rightarrow> string" where
  "browser_client input =
     (case input of BrowserKey client _ _ \<Rightarrow> client | BrowserReleaseAll client \<Rightarrow> client
      | BrowserHeartbeat client \<Rightarrow> client | BrowserUnsupportedKey client \<Rightarrow> client)"

record frame =
  frame_sequence :: u64
  frame_resolution :: resolution
  frame_pixels :: bytes

section \<open>Control messages\<close>

definition encode_control :: "control_message \<Rightarrow> bytes" where
  "encode_control m =
     (case m of
        ControlKey k down \<Rightarrow> CONTROL_MAGIC @ [CONTROL_VERSION, CONTROL_KEY, key_id k, if down then 1 else 0]
      | ControlReleaseAll \<Rightarrow> CONTROL_MAGIC @ [CONTROL_VERSION, CONTROL_RELEASE_ALL, 0, 0])"

definition err_control_length :: "nat \<Rightarrow> string" where
  "err_control_length n =
     ''input control message must contain '' @ show_nat CONTROL_MESSAGE_BYTES @ '' bytes, found '' @ show_nat n"

definition err_control_version :: "u8 \<Rightarrow> string" where
  "err_control_version v =
     ''unsupported input protocol version '' @ show_nat (unat v) @ ''; expected '' @ show_nat (unat CONTROL_VERSION)"

definition decode_control :: "bytes \<Rightarrow> (string, control_message) result" where
  "decode_control bs =
     (if length bs \<noteq> CONTROL_MESSAGE_BYTES then Err (err_control_length (length bs))
      else if take 4 bs \<noteq> CONTROL_MAGIC then Err ''invalid input control magic; expected `SPKI`''
      else if bs ! 4 \<noteq> CONTROL_VERSION then Err (err_control_version (bs ! 4))
      else if bs ! 5 = CONTROL_KEY \<and> bs ! 7 \<le> 1 then
        rbind (ok_or ''unsupported input key identifier'' (key_from_id (bs ! 6)))
          (\<lambda>k. Ok (ControlKey k (bs ! 7 \<noteq> 0)))
      else if bs ! 5 = CONTROL_RELEASE_ALL \<and> bs ! 6 = 0 \<and> bs ! 7 = 0 then Ok ControlReleaseAll
      else if bs ! 5 = CONTROL_KEY then Err ''invalid key transition state''
      else if bs ! 5 = CONTROL_RELEASE_ALL then Err ''invalid release-all payload''
      else Err (''unsupported input control message kind '' @ show_nat (unat (bs ! 5))))"

section \<open>Browser input\<close>

definition is_ascii_whitespace :: "char \<Rightarrow> bool" where
  "is_ascii_whitespace c \<longleftrightarrow>
     c = CHR '' '' \<or> c = CHR 0x09 \<or> c = CHR 0x0A \<or> c = CHR 0x0C \<or> c = CHR 0x0D"

text \<open>The non-empty runs between separators, as \<open>split_ascii_whitespace\<close> yields them.\<close>

function split_fields :: "(char \<Rightarrow> bool) \<Rightarrow> string \<Rightarrow> string list" where
  "split_fields p s =
     (let rest = dropWhile p s
      in if rest = [] then []
         else takeWhile (\<lambda>c. \<not> p c) rest # split_fields p (dropWhile (\<lambda>c. \<not> p c) rest))"
  by pat_completeness auto
termination
proof (relation "measure (\<lambda>(p, s). length s)")
  fix p :: "char \<Rightarrow> bool" and s rest :: string
  assume r: "rest = dropWhile p s" and ne: "rest \<noteq> []"
  then have "\<not> p (hd rest)" using hd_dropWhile by blast
  then have "length (dropWhile (\<lambda>c. \<not> p c) rest) < length rest"
    using ne by (cases rest) (auto simp: le_imp_less_Suc length_dropWhile_le)
  also have "\<dots> \<le> length s" using r by (simp add: length_dropWhile_le)
  finally show "((p, dropWhile (\<lambda>c. \<not> p c) rest), p, s) \<in> measure (\<lambda>(p, s). length s)" by simp
qed simp

declare split_fields.simps [simp del]

definition client_char :: "char \<Rightarrow> bool" where
  "client_char c \<longleftrightarrow> is_ascii_alphanumeric c \<or> c = CHR ''-'' \<or> c = CHR ''_''"

definition client_ok :: "string \<Rightarrow> bool" where
  "client_ok client \<longleftrightarrow> client \<noteq> [] \<and> length client \<le> 64 \<and> list_all client_char client"

definition err_browser_length :: string where
  "err_browser_length = ''browser input message exceeded '' @ show_nat BROWSER_INPUT_MAX_BYTES @ '' bytes''"

definition err_browser_kind :: "string \<Rightarrow> string" where
  "err_browser_kind kind = ''unsupported browser input message kind `'' @ kind @ ''`''"

definition parse_browser_fields :: "string \<Rightarrow> string \<Rightarrow> string \<Rightarrow> (string, browser_input) result" where
  "parse_browser_fields client kind code =
     (if \<not> client_ok client then Err ''invalid browser input client identifier''
      else if kind = ''down'' \<or> kind = ''up'' then
        (case key_from_browser_code code of
           None \<Rightarrow> Ok (BrowserUnsupportedKey client)
         | Some k \<Rightarrow> Ok (BrowserKey client k (kind = ''down'')))
      else if kind = ''release'' \<and> code = ''-'' then Ok (BrowserReleaseAll client)
      else if kind = ''heartbeat'' \<and> code = ''-'' then Ok (BrowserHeartbeat client)
      else if kind = ''release'' \<or> kind = ''heartbeat'' then
        Err ''release and heartbeat messages must use `-` as their code''
      else Err (err_browser_kind kind))"

definition parse_browser_input :: "string \<Rightarrow> (string, browser_input) result" where
  "parse_browser_input body =
     (if length body > BROWSER_INPUT_MAX_BYTES then Err err_browser_length
      else if \<not> utf8_valid body then Err ''browser input message was not UTF-8''
      else case split_fields is_ascii_whitespace body of
             [client, kind, code] \<Rightarrow> parse_browser_fields client kind code
           | _ \<Rightarrow> Err ''browser input message must contain `client kind code`'')"

section \<open>Frames\<close>

definition err_payload :: "nat \<Rightarrow> nat \<Rightarrow> string" where
  "err_payload payload found =
     ''RGB8 payload must contain '' @ show_nat payload @ '' bytes, found '' @ show_nat found"

definition frame_header :: "u64 \<Rightarrow> resolution \<Rightarrow> bytes" where
  "frame_header sequence r =
     MAGIC @ [VERSION, PIXEL_FORMAT_RGB8] @ to_be_bytes 2 (FRAME_HEADER_BYTES mod 2 ^ 16)
     @ to_be_bytes 2 (unat (res_width r)) @ to_be_bytes 2 (unat (res_height r))
     @ to_be_bytes 4 (payload_bytes r mod 2 ^ 32) @ to_be_bytes 8 (unat sequence)"

definition encode_frame_at_resolution :: "u64 \<Rightarrow> resolution \<Rightarrow> bytes \<Rightarrow> (string, bytes) result" where
  "encode_frame_at_resolution sequence r pixels =
     (if length pixels \<noteq> payload_bytes r then Err (err_payload (payload_bytes r) (length pixels))
      else Ok (frame_header sequence r @ pixels))"

definition encode_frame :: "u64 \<Rightarrow> bytes \<Rightarrow> (string, bytes) result" where
  "encode_frame sequence pixels = encode_frame_at_resolution sequence resolution_default pixels"

definition err_frame_version :: "u8 \<Rightarrow> string" where
  "err_frame_version v =
     ''unsupported frame protocol version '' @ show_nat (unat v) @ ''; expected '' @ show_nat (unat VERSION)"

definition err_pixel_format :: "u8 \<Rightarrow> string" where
  "err_pixel_format v =
     ''unsupported pixel format '' @ show_nat (unat v) @ ''; expected RGB8 ('' @ show_nat (unat PIXEL_FORMAT_RGB8) @ '')''"

definition err_header_length :: "nat \<Rightarrow> string" where
  "err_header_length n =
     ''invalid frame header length '' @ show_nat n @ ''; expected '' @ show_nat FRAME_HEADER_BYTES"

definition err_payload_length :: "nat \<Rightarrow> nat \<Rightarrow> string" where
  "err_payload_length n expected =
     ''invalid frame payload length '' @ show_nat n @ ''; expected '' @ show_nat expected"

definition field_at :: "bytes \<Rightarrow> nat \<Rightarrow> nat \<Rightarrow> nat" where
  "field_at bs i n = from_be_bytes (take n (drop i bs))"

definition validate_header :: "bytes \<Rightarrow> (string, u64 \<times> resolution) result" where
  "validate_header header =
     (if take 4 header \<noteq> MAGIC then Err ''invalid frame magic; expected `SPKF`''
      else if header ! 4 \<noteq> VERSION then Err (err_frame_version (header ! 4))
      else if header ! 5 \<noteq> PIXEL_FORMAT_RGB8 then Err (err_pixel_format (header ! 5))
      else if field_at header 6 2 \<noteq> FRAME_HEADER_BYTES then Err (err_header_length (field_at header 6 2))
      else rbind (resolution_new (of_nat (field_at header 8 2)) (of_nat (field_at header 10 2)))
        (\<lambda>r. if field_at header 12 4 \<noteq> payload_bytes r
              then Err (err_payload_length (field_at header 12 4) (payload_bytes r))
              else Ok (of_nat (field_at header 16 8), r)))"

section \<open>Reading\<close>

datatype io_kind = IoInterrupted | IoConnectionReset | IoUnexpectedEof | IoOther

record io_error =
  io_kind :: io_kind
  io_text :: string

datatype read_event =
    RdData bytes
  | RdError io_error

type_synonym reader = "read_event list"

definition unread :: "bytes \<Rightarrow> reader \<Rightarrow> reader" where
  "unread bs es = (if bs = [] then es else RdData bs # es)"

definition eof_error :: io_error where
  "eof_error = \<lparr>io_kind = IoUnexpectedEof, io_text = ''failed to fill whole buffer''\<rparr>"

text \<open>\<open>Read::read_exact\<close>: reads until the buffer is full, retrying after an interruption.\<close>

fun read_exact :: "nat \<Rightarrow> reader \<Rightarrow> (io_error, bytes) result \<times> reader" where
  "read_exact n [] = (if n = 0 then Ok [] else Err eof_error, [])"
| "read_exact n (RdError e # es) =
     (if n = 0 then (Ok [], RdError e # es)
      else if io_kind e = IoInterrupted then read_exact n es
      else (Err e, es))"
| "read_exact n (RdData bs # es) =
     (if n = 0 then (Ok [], RdData bs # es)
      else if bs = [] then (Err eof_error, es)
      else if n \<le> length bs then (Ok (take n bs), unread (drop n bs) es)
      else (case read_exact (n - length bs) es of (r, es') \<Rightarrow> (rbind r (\<lambda>more. Ok (bs @ more)), es')))"

text \<open>The first byte: none when the stream ends or is reset between frames.\<close>

fun read_first_byte :: "reader \<Rightarrow> (string, u8 option) result \<times> reader" where
  "read_first_byte [] = (Ok None, [])"
| "read_first_byte (RdData [] # es) = (Ok None, es)"
| "read_first_byte (RdData (b # bs) # es) = (Ok (Some b), unread bs es)"
| "read_first_byte (RdError e # es) =
     (if io_kind e = IoInterrupted then read_first_byte es
      else if io_kind e = IoConnectionReset then (Ok None, es)
      else (Err (''could not read frame header: '' @ io_text e), es))"

definition truncated :: "string \<Rightarrow> io_error \<Rightarrow> string" where
  "truncated part e = ''truncated '' @ part @ '': '' @ io_text e"

definition read_frame :: "reader \<Rightarrow> (string, frame option) result \<times> reader" where
  "read_frame es =
     (case read_first_byte es of
        (Inl e, es) \<Rightarrow> (Err e, es)
      | (Inr None, es) \<Rightarrow> (Ok None, es)
      | (Inr (Some b), es) \<Rightarrow>
          (case read_exact (FRAME_HEADER_BYTES - 1) es of
             (Inl e, es) \<Rightarrow> (Err (truncated ''frame header'' e), es)
           | (Inr header, es) \<Rightarrow>
               (case validate_header (b # header) of
                  Inl e \<Rightarrow> (Err e, es)
                | Inr (sequence, r) \<Rightarrow>
                    (case read_exact (payload_bytes r) es of
                       (Inl e, es) \<Rightarrow> (Err (truncated ''frame payload'' e), es)
                     | (Inr pixels, es) \<Rightarrow>
                         (Ok (Some \<lparr>frame_sequence = sequence, frame_resolution = r, frame_pixels = pixels\<rparr>),
                          es)))))"

section \<open>Control messages round trip\<close>

definition control_valid :: "control_message \<Rightarrow> bool" where
  "control_valid m \<longleftrightarrow> (case m of ControlKey k _ \<Rightarrow> is_key k | ControlReleaseAll \<Rightarrow> True)"

lemmas control_defs =
  encode_control_def decode_control_def CONTROL_MAGIC_def CONTROL_VERSION_def CONTROL_KEY_def
  CONTROL_RELEASE_ALL_def CONTROL_MESSAGE_BYTES_def

lemma length_8_cases: "length bs = 8 \<longleftrightarrow> (\<exists>a b c d e f g h. bs = [a, b, c, d, e, f, g, h])"
  by (auto simp: length_Suc_conv numeral_eq_Suc)

lemma byte_le_1: "(b :: u8) \<le> 1 \<longleftrightarrow> b = 0 \<or> b = 1"
  by (metis le_Suc_eq One_nat_def le_zero_eq unat_eq_zero unsigned_1 word_le_nat_alt word_unat_eq_iff word_le_nat_alt
      order_refl)

lemma decode_encode_control: "control_valid m \<Longrightarrow> decode_control (encode_control m) = Ok m"
  by (auto simp: control_defs control_valid_def key_from_id_key_id numeral_eq_Suc split: control_message.splits)

lemma decode_control_Ok:
  assumes "decode_control bs = Ok m"
  shows "control_valid m \<and> bs = encode_control m"
proof -
  obtain a b c d e f g h where bs: "bs = [a, b, c, d, e, f, g, h]"
    using assms length_8_cases [of bs] by (auto simp: control_defs split: if_splits)
  show ?thesis
    using assms unfolding bs
    by (auto simp: control_defs control_valid_def rbind_eq_Ok ok_or_def key_from_id_Some byte_le_1
        numeral_eq_Suc split: if_splits option.splits)
qed

section \<open>Reading the bytes of a stream\<close>

text \<open>A stream without errors other than interruptions, and the bytes it carries.\<close>

fun calm :: "reader \<Rightarrow> bool" where
  "calm [] = True"
| "calm (RdData bs # es) = (bs \<noteq> [] \<and> calm es)"
| "calm (RdError e # es) = (io_kind e = IoInterrupted \<and> calm es)"

fun stream_bytes :: "reader \<Rightarrow> bytes" where
  "stream_bytes [] = []"
| "stream_bytes (RdData bs # es) = bs @ stream_bytes es"
| "stream_bytes (RdError e # es) = stream_bytes es"

lemma unread_calm [simp]: "calm (unread bs es) \<longleftrightarrow> calm es" "stream_bytes (unread bs es) = bs @ stream_bytes es"
  by (simp_all add: unread_def)

lemma read_exact_calm:
  "calm es \<Longrightarrow> n \<le> length (stream_bytes es) \<Longrightarrow>
   \<exists>es'. read_exact n es = (Ok (take n (stream_bytes es)), es') \<and> calm es' \<and> stream_bytes es' = drop n (stream_bytes es)"
proof (induction n es rule: read_exact.induct)
  case (3 n bs es)
  show ?case
  proof (cases "n = 0 \<or> n \<le> length bs")
    case True
    then show ?thesis using "3.prems" by auto
  next
    case False
    then have "n - length bs \<le> length (stream_bytes es)" using "3.prems" by simp
    then obtain es' where "read_exact (n - length bs) es = (Ok (take (n - length bs) (stream_bytes es)), es')"
      "calm es'" "stream_bytes es' = drop (n - length bs) (stream_bytes es)"
      using "3.IH" False "3.prems" by auto
    then show ?thesis using False "3.prems" by auto
  qed
qed auto

lemma read_exact_short:
  "calm es \<Longrightarrow> length (stream_bytes es) < n \<Longrightarrow> \<exists>es'. read_exact n es = (Err eof_error, es')"
proof (induction n es rule: read_exact.induct)
  case (3 n bs es)
  then have "length (stream_bytes es) < n - length bs" by simp
  then show ?case using 3 by auto
qed auto

lemma read_first_byte_calm:
  "calm es \<Longrightarrow>
   (case stream_bytes es of
      [] \<Rightarrow> \<exists>es'. read_first_byte es = (Ok None, es') \<and> calm es' \<and> stream_bytes es' = []
    | b # bs \<Rightarrow> \<exists>es'. read_first_byte es = (Ok (Some b), es') \<and> calm es' \<and> stream_bytes es' = bs)"
  by (induction es rule: read_first_byte.induct) (auto split: list.splits)

section \<open>Frame headers round trip\<close>

lemma length_frame_header [simp]: "length (frame_header sequence r) = FRAME_HEADER_BYTES"
  by (simp add: frame_header_def MAGIC_def FRAME_HEADER_BYTES_def)

lemma take_drop_append_at:
  "length as = i \<Longrightarrow> length bs = n \<Longrightarrow> take n (drop i (as @ bs @ cs)) = bs"
  by simp

lemma header_fields:
  fixes sequence :: u64 and r :: resolution
  defines "h \<equiv> frame_header sequence r"
  shows "take 4 h = MAGIC" and "h ! 4 = VERSION" and "h ! 5 = PIXEL_FORMAT_RGB8"
    and "field_at h 6 2 = FRAME_HEADER_BYTES" and "field_at h 8 2 = unat (res_width r)"
    and "field_at h 10 2 = unat (res_height r)" and "field_at h 12 4 = payload_bytes r mod 2 ^ 32"
    and "field_at h 16 8 = unat sequence"
proof -
  have w: "unat (res_width r) < 256 ^ 2" "unat (res_height r) < 256 ^ 2" "unat sequence < 256 ^ 8"
    using unsigned_less [of "res_width r"] unsigned_less [of "res_height r"] unsigned_less [of sequence] by simp_all
  show "take 4 h = MAGIC" "h ! 4 = VERSION" "h ! 5 = PIXEL_FORMAT_RGB8"
    by (simp_all add: h_def frame_header_def MAGIC_def nth_append)
  show "field_at h 6 2 = FRAME_HEADER_BYTES"
    by (simp add: h_def frame_header_def MAGIC_def field_at_def from_to_be_bytes FRAME_HEADER_BYTES_def)
  show "field_at h 8 2 = unat (res_width r)" "field_at h 10 2 = unat (res_height r)"
    using w by (simp_all add: h_def frame_header_def MAGIC_def field_at_def from_to_be_bytes)
  show "field_at h 12 4 = payload_bytes r mod 2 ^ 32"
    by (simp add: h_def frame_header_def MAGIC_def field_at_def from_to_be_bytes)
  show "field_at h 16 8 = unat sequence"
    using w by (simp add: h_def frame_header_def MAGIC_def field_at_def from_to_be_bytes)
qed

lemma validate_frame_header:
  assumes "resolution_valid r"
  shows "validate_header (frame_header sequence r) = Ok (sequence, r)"
  using payload_bytes_bounds [OF assms] resolution_new_valid [OF assms]
  by (simp add: validate_header_def header_fields)

lemma to_be_field:
  "i + n \<le> length h \<Longrightarrow> to_be_bytes n (field_at h i n) = take n (drop i h)"
  using to_from_be_bytes [of "take n (drop i h)"] by (simp add: field_at_def)

lemma field_at_less:
  assumes "i + n \<le> length h"
  shows "field_at h i n < 256 ^ n"
proof -
  have "length (take n (drop i h)) = n" using assms by simp
  then show ?thesis using from_be_bytes_less by (metis field_at_def)
qed

lemma header_pieces:
  assumes "length h = 24"
  shows "h = take 4 h @ [h ! 4, h ! 5] @ take 2 (drop 6 h) @ take 2 (drop 8 h) @ take 2 (drop 10 h)
             @ take 4 (drop 12 h) @ take 8 (drop 16 h)"
proof -
  have cut: "drop i h = take n (drop i h) @ drop (i + n) h" for i n
    by (metis add.commute append_take_drop_id drop_drop)
  have "drop 4 h = h ! 4 # h ! 5 # drop 6 h"
    using assms Cons_nth_drop_Suc [of 4 h] Cons_nth_drop_Suc [of 5 h] by simp
  moreover have "drop 16 h = take 8 (drop 16 h)" using assms by simp
  ultimately show ?thesis
    using cut [of 0 4] cut [of 6 2] cut [of 8 2] cut [of 10 2] cut [of 12 4]
    by (metis (no_types, lifting) append_Cons append_Nil drop0 numeral_plus_numeral add_0 semiring_norm(2-10))
qed

lemma validate_header_Ok:
  assumes "validate_header h = Ok (sequence, r)" and len: "length h = 24"
  shows "resolution_valid r \<and> h = frame_header sequence r"
proof -
  have f: "take 4 h = MAGIC" "h ! 4 = VERSION" "h ! 5 = PIXEL_FORMAT_RGB8" "field_at h 6 2 = FRAME_HEADER_BYTES"
    "resolution_new (of_nat (field_at h 8 2)) (of_nat (field_at h 10 2)) = Ok r"
    "field_at h 12 4 = payload_bytes r" "sequence = of_nat (field_at h 16 8)"
    using assms(1) by (auto simp: validate_header_def rbind_eq_Ok split: if_splits)
  have r: "resolution_valid r" "res_width r = of_nat (field_at h 8 2)" "res_height r = of_nat (field_at h 10 2)"
    using f(5) by (auto simp: resolution_new_Ok)
  have w: "unat (res_width r) = field_at h 8 2" "unat (res_height r) = field_at h 10 2"
    "unat sequence = field_at h 16 8"
    using r f(7) field_at_less [of 8 2 h] field_at_less [of 10 2 h] field_at_less [of 16 8 h] len
    by (simp_all add: unat_of_nat)
  have p: "payload_bytes r mod 2 ^ 32 = field_at h 12 4" "FRAME_HEADER_BYTES mod 2 ^ 16 = field_at h 6 2"
    using f payload_bytes_bounds [OF r(1)] by (simp_all add: FRAME_HEADER_BYTES_def)
  have "frame_header sequence r = MAGIC @ [VERSION, PIXEL_FORMAT_RGB8] @ take 2 (drop 6 h) @ take 2 (drop 8 h)
          @ take 2 (drop 10 h) @ take 4 (drop 12 h) @ take 8 (drop 16 h)"
    unfolding frame_header_def w p using len by (simp add: to_be_field)
  then show ?thesis
    using header_pieces [OF len] f(1-3) r(1) by metis
qed

section \<open>Properties\<close>

text \<open>
  C15 The control protocol is a bijection between messages and the byte strings the game accepts: a
  byte string decodes to a message exactly when the message names a key of the catalogue (or releases
  all keys) and the bytes are its encoding. Nothing else is accepted, and nothing is accepted twice.
\<close>

theorem decode_control_iff: "decode_control bs = Ok m \<longleftrightarrow> control_valid m \<and> bs = encode_control m"
  using decode_encode_control decode_control_Ok by blast

lemma read_encoded:
  assumes "encode_frame_at_resolution sequence r pixels = Ok bs" and "resolution_valid r"
    and "calm es" and "stream_bytes es = bs @ rest"
  shows "\<exists>es'. read_frame es =
           (Ok (Some \<lparr>frame_sequence = sequence, frame_resolution = r, frame_pixels = pixels\<rparr>), es')
         \<and> calm es' \<and> stream_bytes es' = rest"
proof -
  have px: "length pixels = payload_bytes r" and bs: "bs = frame_header sequence r @ pixels"
    using assms(1) by (auto simp: encode_frame_at_resolution_def split: if_splits)
  obtain b h where h: "frame_header sequence r = b # h" "length h = FRAME_HEADER_BYTES - 1"
    using length_frame_header [of sequence r] by (cases "frame_header sequence r") (auto simp: FRAME_HEADER_BYTES_def)
  then have s: "stream_bytes es = b # h @ pixels @ rest"
    using assms(4) bs by simp
  obtain es1 where 1: "read_first_byte es = (Ok (Some b), es1)" "calm es1" "stream_bytes es1 = h @ pixels @ rest"
    using read_first_byte_calm [OF assms(3)] s by auto
  obtain es2 where 2: "read_exact (FRAME_HEADER_BYTES - 1) es1 = (Ok h, es2)" "calm es2" "stream_bytes es2 = pixels @ rest"
    using read_exact_calm [OF 1(2), of "FRAME_HEADER_BYTES - 1"] 1(3) h(2) by auto
  obtain es3 where 3: "read_exact (payload_bytes r) es2 = (Ok pixels, es3)" "calm es3" "stream_bytes es3 = rest"
    using read_exact_calm [OF 2(2), of "payload_bytes r"] 2(3) px by auto
  show ?thesis
    using 1 2 3 validate_frame_header [OF assms(2), of sequence] h by (simp add: read_frame_def)
qed

text \<open>
  C16 However the network splits the bytes of an encoded frame, and however often a read is
  interrupted, \<open>read_frame\<close> returns the frame and leaves the stream at the byte after it.
\<close>

theorem read_encoded_frame:
  assumes "encode_frame_at_resolution sequence r pixels = Ok bs" and "resolution_valid r"
    and "calm es" and "stream_bytes es = bs @ rest"
  shows "\<exists>es'. read_frame es =
           (Ok (Some \<lparr>frame_sequence = sequence, frame_resolution = r, frame_pixels = pixels\<rparr>), es')
         \<and> calm es' \<and> stream_bytes es' = rest"
  using assms by (rule read_encoded)

text \<open>
  C17 What a stream without errors yields is what its bytes encode: a frame is accepted only when the
  bytes begin with the encoding of that very frame, at a resolution within the limits, and the reader
  is left at the byte after it; the clean end is reported only when there are no bytes left.
\<close>

theorem read_frame_accepts_encodings_only:
  assumes "calm es" and "read_frame es = (Ok result, es')"
  shows "case result of
           None \<Rightarrow> stream_bytes es = []
         | Some f \<Rightarrow> resolution_valid (frame_resolution f) \<and>
             (\<exists>bs. encode_frame_at_resolution (frame_sequence f) (frame_resolution f) (frame_pixels f) = Ok bs
                   \<and> stream_bytes es = bs @ stream_bytes es')"
proof (cases "stream_bytes es")
  case Nil
  then show ?thesis
    using read_first_byte_calm [OF assms(1)] assms(2) by (auto simp: read_frame_def)
next
  case (Cons b B)
  then obtain es1 where 1: "read_first_byte es = (Ok (Some b), es1)" "calm es1" "stream_bytes es1 = B"
    using read_first_byte_calm [OF assms(1)] by auto
  have "FRAME_HEADER_BYTES - 1 \<le> length B"
    using read_exact_short [OF 1(2), of "FRAME_HEADER_BYTES - 1"] 1 assms(2) by (fastforce simp: read_frame_def not_le)
  then obtain es2 where 2: "read_exact (FRAME_HEADER_BYTES - 1) es1 = (Ok (take (FRAME_HEADER_BYTES - 1) B), es2)"
    "calm es2" "stream_bytes es2 = drop (FRAME_HEADER_BYTES - 1) B"
    using read_exact_calm [OF 1(2), of "FRAME_HEADER_BYTES - 1"] 1(3) by auto
  define h where "h = b # take (FRAME_HEADER_BYTES - 1) B"
  have h: "length h = 24"
    using \<open>FRAME_HEADER_BYTES - 1 \<le> length B\<close> by (simp add: h_def FRAME_HEADER_BYTES_def)
  obtain sequence r where v: "validate_header h = Ok (sequence, r)"
    using 1 2 assms(2) by (auto simp: read_frame_def h_def split: sum.splits)
  then have rv: "resolution_valid r" "h = frame_header sequence r"
    using validate_header_Ok [OF v h] by auto
  have "payload_bytes r \<le> length (stream_bytes es2)"
    using read_exact_short [OF 2(2), of "payload_bytes r"] 1 2 v assms(2)
    by (fastforce simp: read_frame_def h_def not_le)
  then obtain es3 where 3: "read_exact (payload_bytes r) es2 = (Ok (take (payload_bytes r) (stream_bytes es2)), es3)"
    "stream_bytes es3 = drop (payload_bytes r) (stream_bytes es2)"
    using read_exact_calm [OF 2(2)] by blast
  have res: "result = Some \<lparr>frame_sequence = sequence, frame_resolution = r,
                      frame_pixels = take (payload_bytes r) (stream_bytes es2)\<rparr>" "es' = es3"
    using assms(2) 1 2 3 v by (auto simp: read_frame_def h_def)
  have "stream_bytes es = h @ take (payload_bytes r) (stream_bytes es2) @ stream_bytes es3"
    using Cons 2(3) 3(2) append_take_drop_id [of "payload_bytes r" "stream_bytes es2"]
      append_take_drop_id [of "FRAME_HEADER_BYTES - 1" B] by (metis append_Cons h_def)
  then show ?thesis
    using res rv \<open>payload_bytes r \<le> length (stream_bytes es2)\<close> by (simp add: encode_frame_at_resolution_def)
qed

section \<open>Browser input round trip\<close>

lemma split_fields_word:
  assumes "w \<noteq> []" and "list_all (\<lambda>c. \<not> p c) w" and "p sep"
  shows "split_fields p (w @ sep # rest) = w # split_fields p (sep # rest)" and "split_fields p w = [w]"
proof -
  obtain c w' where w: "w = c # w'" "\<not> p c" using assms(1,2) by (cases w) auto
  have "takeWhile (\<lambda>c. \<not> p c) (w @ sep # rest) = w" "dropWhile (\<lambda>c. \<not> p c) (w @ sep # rest) = sep # rest"
    using assms(2,3) by (auto simp: takeWhile_append dropWhile_append list_all_iff)
  then show "split_fields p (w @ sep # rest) = w # split_fields p (sep # rest)"
    using w by (subst split_fields.simps) (simp add: Let_def)
  have d: "dropWhile p w = w" using w by simp
  have t: "takeWhile (\<lambda>c. \<not> p c) w = w" and e: "dropWhile (\<lambda>c. \<not> p c) w = []"
    using assms(2) by (auto simp: list_all_iff takeWhile_eq_all_conv dropWhile_eq_Nil_conv)
  show "split_fields p w = [w]"
    using assms(1) unfolding split_fields.simps [of p w] Let_def d t e by (simp add: split_fields.simps [of p "[]"])
qed

lemma split_fields_sep: "p sep \<Longrightarrow> split_fields p (sep # s) = split_fields p s"
  by (simp add: split_fields.simps [of p "sep # s"] split_fields.simps [of p s])

lemma split_three:
  assumes "list_all (\<lambda>w. w \<noteq> [] \<and> list_all (\<lambda>c. \<not> p c) w) [a, b, c]" and "p sep"
  shows "split_fields p (a @ sep # b @ sep # c) = [a, b, c]"
  using assms by (simp add: split_fields_word split_fields_sep)

lemma utf8_valid_ascii: "list_all (\<lambda>c. byte c < 128) s \<Longrightarrow> utf8_valid s"
proof (induction s)
  case (Cons c s)
  then show ?case using utf8_width_ascii [of "c # s"] by (simp add: utf8_valid.simps [of "c # s"])
qed (simp add: utf8_valid.simps [of "[]"])

lemma field_char:
  assumes "is_ascii_alphanumeric c \<or> c = CHR ''-'' \<or> c = CHR ''_''"
  shows "byte c < 128" and "\<not> is_ascii_whitespace c"
  using assms
  by (auto simp: is_ascii_alphanumeric_def is_ascii_alphabetic_def is_ascii_upper_def is_ascii_lower_def
      is_ascii_digit_def byte_def is_ascii_whitespace_def)

lemma browser_code_chars:
  assumes "i < length KEYS"
  shows "list_all is_ascii_alphanumeric (ki_browser_code (KEYS ! i))" and "ki_browser_code (KEYS ! i) \<noteq> []"
proof -
  have "key_catalog ! i \<in> set key_catalog" using assms by (simp add: KEYS_def)
  then have "catalog_identifier (row_code (key_catalog ! i))"
    using key_catalog_wellformed by (simp add: list_all_iff row_wellformed_def)
  moreover have "ki_browser_code (KEYS ! i) = row_code (key_catalog ! i)"
    using assms by (simp add: KEYS_def key_info_of_def row_code_def split: prod.splits)
  ultimately show "list_all is_ascii_alphanumeric (ki_browser_code (KEYS ! i))" "ki_browser_code (KEYS ! i) \<noteq> []"
    by (auto simp: catalog_identifier_def)
qed

text \<open>
  C19 Every transition of every key of the catalogue reaches the game: the browser's message with the
  key's browser code is parsed to that key and transition for that client, and the control message the
  server then sends decodes in the game to the same key and transition.
\<close>

theorem browser_key_reaches_game:
  assumes "client_ok client" and "i < length KEYS" and "code = ki_browser_code (KEYS ! i)"
    and "body = client @ '' '' @ (if down then ''down'' else ''up'') @ '' '' @ code"
    and "length body \<le> BROWSER_INPUT_MAX_BYTES"
  shows "parse_browser_input body = Ok (BrowserKey client (ki_key (KEYS ! i)) down)
         \<and> decode_control (encode_control (ControlKey (ki_key (KEYS ! i)) down)) = Ok (ControlKey (ki_key (KEYS ! i)) down)
         \<and> ki_key (KEYS ! i) = Key (of_nat i)"
proof -
  let ?kind = "if down then ''down'' else ''up''"
  have kind: "list_all (\<lambda>c. is_ascii_alphanumeric c \<or> c = CHR ''-'' \<or> c = CHR ''_'') ?kind"
    by (simp add: is_ascii_alphanumeric_def is_ascii_alphabetic_def is_ascii_lower_def byte_def)
  have chars: "list_all (\<lambda>c. is_ascii_alphanumeric c \<or> c = CHR ''-'' \<or> c = CHR ''_'') (client @ ?kind @ code)"
    using assms(1,3) browser_code_chars [OF assms(2)] kind by (auto simp: client_ok_def client_char_def list_all_iff)
  then have "utf8_valid body"
    using assms(4) field_char(1) by (intro utf8_valid_ascii) (auto simp: list_all_iff byte_def)
  moreover have "split_fields is_ascii_whitespace body = [client, ?kind, code]"
  proof -
    have "list_all (\<lambda>w. w \<noteq> [] \<and> list_all (\<lambda>c. \<not> is_ascii_whitespace c) w) [client, ?kind, code]"
      using chars field_char(2) assms(1,3) browser_code_chars(2) [OF assms(2)]
      by (auto simp: list_all_iff client_ok_def)
    then show ?thesis
      using split_three [of is_ascii_whitespace client ?kind code "CHR '' ''"] assms(4)
      by (simp add: is_ascii_whitespace_def)
  qed
  ultimately have "parse_browser_input body = Ok (BrowserKey client (ki_key (KEYS ! i)) down)"
    using assms(1,3,5) key_from_browser_code_KEYS [OF assms(2)] KEYS_nth [OF assms(2)]
    by (simp add: parse_browser_input_def parse_browser_fields_def)
  moreover have "is_key (ki_key (KEYS ! i))"
    using assms(2) by (simp add: KEYS_nth is_key_def length_KEYS unat_of_nat)
  ultimately show ?thesis
    using KEYS_nth [OF assms(2)] by (simp add: decode_encode_control control_valid_def)
qed

text \<open>Concrete instances.\<close>

theorem read_encoded_frame_witness:
  "\<exists>es'. read_frame [RdError \<lparr>io_kind = IoInterrupted, io_text = []\<rparr>,
                     RdData (frame_header 7 \<lparr>res_width = 1, res_height = 1\<rparr>), RdData [1, 2], RdData [3, 4]] =
           (Ok (Some \<lparr>frame_sequence = 7, frame_resolution = \<lparr>res_width = 1, res_height = 1\<rparr>, frame_pixels = [1, 2, 3]\<rparr>), es')
         \<and> stream_bytes es' = [4]"
proof -
  have v: "resolution_valid \<lparr>res_width = 1, res_height = 1\<rparr>"
    by (simp add: resolution_valid_def dimension_ok_unat)
  have e: "encode_frame_at_resolution 7 \<lparr>res_width = 1, res_height = 1\<rparr> [1, 2, 3] =
           Ok (frame_header 7 \<lparr>res_width = 1, res_height = 1\<rparr> @ [1, 2, 3])"
    by (simp add: encode_frame_at_resolution_def payload_bytes_def)
  have "frame_header 7 \<lparr>res_width = 1, res_height = 1\<rparr> \<noteq> []"
    by (simp add: frame_header_def MAGIC_def)
  then show ?thesis
    using read_encoded_frame [OF e v, of "[RdError \<lparr>io_kind = IoInterrupted, io_text = []\<rparr>,
                     RdData (frame_header 7 \<lparr>res_width = 1, res_height = 1\<rparr>), RdData [1, 2], RdData [3, 4]]" "[4]"]
    by auto
qed

theorem read_frame_accepts_witness:
  "\<exists>bs. encode_frame_at_resolution 7 \<lparr>res_width = 1, res_height = 1\<rparr> [1, 2, 3] = Ok bs
         \<and> bs = frame_header 7 \<lparr>res_width = 1, res_height = 1\<rparr> @ [1, 2, 3]"
proof -
  define r where "r = \<lparr>res_width = 1 :: u16, res_height = 1\<rparr>"
  define es where "es = [RdData (frame_header 7 r), RdData [1, 2, 3]]"
  have v: "resolution_valid r"
    by (simp add: r_def resolution_valid_def dimension_ok_unat)
  have e: "encode_frame_at_resolution 7 r [1, 2, 3] = Ok (frame_header 7 r @ [1, 2, 3])"
    by (simp add: r_def encode_frame_at_resolution_def payload_bytes_def)
  have calm: "calm es"
    by (simp add: es_def frame_header_def MAGIC_def)
  obtain es' where run: "read_frame es = (Ok (Some \<lparr>frame_sequence = 7, frame_resolution = r, frame_pixels = [1, 2, 3]\<rparr>), es')"
    and rest: "stream_bytes es' = []"
    using read_encoded [OF e v calm, of "[]"] by (auto simp: es_def)
  show ?thesis
    using read_frame_accepts_encodings_only [OF calm run] rest by (auto simp: es_def r_def)
qed

theorem browser_key_reaches_game_witness:
  "parse_browser_input ''viewer-1 down ArrowLeft'' = Ok (BrowserKey ''viewer-1'' (Key 6) True)"
proof -
  have c: "client_ok ''viewer-1''"
    by (simp add: client_ok_def client_char_def is_ascii_alphanumeric_def is_ascii_alphabetic_def is_ascii_upper_def
        is_ascii_lower_def is_ascii_digit_def byte_def)
  have i: "6 < length KEYS" "''ArrowLeft'' = ki_browser_code (KEYS ! 6)"
    by (simp_all add: length_KEYS) (simp add: KEYS_def key_catalog_eval key_info_of_def)
  show ?thesis
    using browser_key_reaches_game [OF c i refl, of True] by (simp add: BROWSER_INPUT_MAX_BYTES_def)
qed

end
