(* ===== verification/Transition_System.thy ===== *)
theory Transition_System
  imports Main
begin

text \<open>
  Reachable states of a step relation, and the interface of an invariant: the components that run
  as interleaved atomic operations state their initial states and steps, and get every reachable
  state from what each step preserves.
\<close>

inductive reachable :: "('s \<Rightarrow> bool) \<Rightarrow> ('s \<Rightarrow> 's \<Rightarrow> bool) \<Rightarrow> 's \<Rightarrow> bool"
  for initial :: "'s \<Rightarrow> bool" and step :: "'s \<Rightarrow> 's \<Rightarrow> bool" where
  start: "initial s \<Longrightarrow> reachable initial step s"
| step: "reachable initial step s \<Longrightarrow> step s s' \<Longrightarrow> reachable initial step s'"

inductive steps :: "('s \<Rightarrow> 's \<Rightarrow> bool) \<Rightarrow> 's \<Rightarrow> 's \<Rightarrow> bool" for step :: "'s \<Rightarrow> 's \<Rightarrow> bool" where
  none: "steps step s s"
| snoc: "steps step s s' \<Longrightarrow> step s' s'' \<Longrightarrow> steps step s s''"

lemma steps_reachable: "steps step s s' \<Longrightarrow> reachable initial step s \<Longrightarrow> reachable initial step s'"
  by (induction rule: steps.induct) (auto intro: reachable.step)

locale invariant_system =
  fixes initial :: "'s \<Rightarrow> bool" and step :: "'s \<Rightarrow> 's \<Rightarrow> bool" and inv :: "'s \<Rightarrow> bool"
  assumes initial_inv: "initial s \<Longrightarrow> inv s"
    and step_inv: "inv s \<Longrightarrow> step s s' \<Longrightarrow> inv s'"
begin

lemma reachable_inv: "reachable initial step s \<Longrightarrow> inv s"
  by (induction rule: reachable.induct) (auto intro: initial_inv step_inv)

lemma steps_inv: "steps step s s' \<Longrightarrow> inv s \<Longrightarrow> inv s'"
  by (induction rule: steps.induct) (auto intro: step_inv)

end

text \<open>A system with a quantity that no step lowers.\<close>

locale monotone_system = invariant_system +
  fixes level :: "'a \<Rightarrow> nat"
  assumes step_level: "inv s \<Longrightarrow> step s s' \<Longrightarrow> level s \<le> level s'"
begin

lemma steps_level: "steps step s s' \<Longrightarrow> inv s \<Longrightarrow> inv s' \<and> level s \<le> level s'"
proof (induction rule: steps.induct)
  case (snoc s s' s'')
  then show ?case using step_inv step_level by (meson order_trans)
qed simp

end

end
