(* ===== verification/Server.thy ===== *)
theory Server
  imports Protocol Transition_System
begin

text \<open>
  The development server, \<^verbatim>\<open>src/src/dev/server.rs\<close>: the latest-frame store, the
  input lease, the receiver of a game's frames, and the HTTP requests of the viewer. Every operation
  on the store and on the controls runs under its own mutex, so the server is an interleaving of the
  atomic operations below. Times are in milliseconds. What the network decides (whether a write to the
  game succeeds) is an argument. The viewer page is a file the build generates, and is an argument.
\<close>

section \<open>The frame store\<close>

datatype viewer_state = VsRunning | VsStopped | VsBuilding | VsBuildFailed | VsWatching

definition viewer_state_wire :: "viewer_state \<Rightarrow> bool \<Rightarrow> string" where
  "viewer_state_wire st frame_available =
     (if frame_available then ''live''
      else case st of VsRunning \<Rightarrow> ''running'' | VsStopped \<Rightarrow> ''stopped'' | VsBuilding \<Rightarrow> ''building''
        | VsBuildFailed \<Rightarrow> ''error'' | VsWatching \<Rightarrow> ''watching'')"

record frame_state =
  fs_latest :: "frame option"
  fs_state :: viewer_state
  fs_generation :: u64
  fs_sequence :: u64
  fs_delivery_offset :: u64

definition frame_state_default :: frame_state where
  "frame_state_default =
     \<lparr>fs_latest = None, fs_state = VsRunning, fs_generation = 0, fs_sequence = 0, fs_delivery_offset = 0\<rparr>"

record frame_snapshot =
  snap_frame :: "frame option"
  snap_state :: viewer_state
  snap_generation :: u64

definition publish :: "frame \<Rightarrow> frame_state \<Rightarrow> frame_state" where
  "publish f s =
     (let f = f\<lparr>frame_sequence := frame_sequence f + fs_delivery_offset s\<rparr>
      in s\<lparr>fs_sequence := frame_sequence f, fs_latest := Some f\<rparr>)"

definition begin_run :: "frame_state \<Rightarrow> frame_state" where
  "begin_run s =
     s\<lparr>fs_generation := fs_generation s + 1, fs_delivery_offset := fs_sequence s, fs_latest := None,
       fs_state := VsRunning\<rparr>"

definition set_state :: "viewer_state \<Rightarrow> frame_state \<Rightarrow> frame_state" where
  "set_state status s =
     (let s = (if status = VsBuilding \<or> status = VsBuildFailed then s\<lparr>fs_latest := None\<rparr> else s)
      in s\<lparr>fs_state := status\<rparr>)"

definition stop_frames :: "frame_state \<Rightarrow> frame_state" where
  "stop_frames s = s\<lparr>fs_state := VsStopped\<rparr>"

definition latest_sequence :: "frame_state \<Rightarrow> u64 option" where
  "latest_sequence s = map_option frame_sequence (fs_latest s)"

definition keeps_waiting :: "u64 \<Rightarrow> frame_state \<Rightarrow> bool" where
  "keeps_waiting sequence s \<longleftrightarrow>
     fs_state s = VsRunning
     \<and> (case fs_latest s of None \<Rightarrow> True | Some f \<Rightarrow> frame_sequence f \<le> sequence)"

definition snapshot_after :: "u64 \<Rightarrow> frame_state \<Rightarrow> frame_snapshot" where
  "snapshot_after sequence s =
     \<lparr>snap_frame = (case fs_latest s of
                      None \<Rightarrow> None
                    | Some f \<Rightarrow> if frame_sequence f > sequence then Some f else None),
      snap_state = fs_state s, snap_generation = fs_generation s\<rparr>"

text \<open>
  \<open>wait_after\<close> sees the store when it starts, then at every notification, and last when the
  timeout passes.
\<close>

fun wait_after :: "u64 \<Rightarrow> frame_state \<Rightarrow> frame_state list \<Rightarrow> frame_snapshot" where
  "wait_after sequence s [] = snapshot_after sequence s"
| "wait_after sequence s (s' # later) =
     (if keeps_waiting sequence s then wait_after sequence s' later else snapshot_after sequence s)"

section \<open>The input lease\<close>

definition INPUT_LEASE_TIMEOUT :: nat where
  "INPUT_LEASE_TIMEOUT = 1000"

text \<open>A connection to a game is the number of the run that opened it.\<close>

record input_control =
  ic_generation :: u64
  ic_game :: "nat option"
  ic_owner :: "string option"
  ic_last_seen :: "nat option"

definition input_control_default :: input_control where
  "input_control_default = \<lparr>ic_generation = 0, ic_game = None, ic_owner = None, ic_last_seen = None\<rparr>"

datatype input_result = InputAccepted | InputIgnored | InputBusy | InputGameUnavailable | InputStaleGeneration

definition connect_game :: "nat \<Rightarrow> u64 \<Rightarrow> input_control \<Rightarrow> input_control" where
  "connect_game stream generation s =
     s\<lparr>ic_generation := generation, ic_game := Some stream, ic_owner := None, ic_last_seen := None\<rparr>"

definition disconnect_game :: "input_control \<Rightarrow> input_control" where
  "disconnect_game s = s\<lparr>ic_game := None, ic_owner := None, ic_last_seen := None\<rparr>"

text \<open>What was written, and to which game. \<open>ok\<close> is whether the write succeeds.\<close>

type_synonym sent = "(nat \<times> bytes) list"

definition send_control :: "bool \<Rightarrow> control_message \<Rightarrow> input_control \<Rightarrow> bool \<times> input_control \<times> sent" where
  "send_control ok message s =
     (let encoded = encode_control message
      in case ic_game s of
           Some stream \<Rightarrow> if ok then (True, s, [(stream, encoded)]) else (False, disconnect_game s, [])
         | None \<Rightarrow> (False, disconnect_game s, []))"

definition control_of_input :: "browser_input \<Rightarrow> control_message option" where
  "control_of_input input =
     (case input of BrowserKey _ k down \<Rightarrow> Some (ControlKey k down) | BrowserReleaseAll _ \<Rightarrow> Some ControlReleaseAll
      | BrowserHeartbeat _ \<Rightarrow> None | BrowserUnsupportedKey _ \<Rightarrow> None)"

definition releases_control :: "browser_input \<Rightarrow> bool" where
  "releases_control input \<longleftrightarrow> (case input of BrowserReleaseAll _ \<Rightarrow> True | _ \<Rightarrow> False)"

definition is_unsupported :: "browser_input \<Rightarrow> bool" where
  "is_unsupported input \<longleftrightarrow> (case input of BrowserUnsupportedKey _ \<Rightarrow> True | _ \<Rightarrow> False)"

definition apply_input ::
  "nat \<Rightarrow> bool \<Rightarrow> browser_input \<Rightarrow> u64 \<Rightarrow> input_control \<Rightarrow> input_result \<times> input_control \<times> sent" where
  "apply_input now ok input generation s =
     (if ic_game s = None then (InputGameUnavailable, s, [])
      else if generation \<noteq> ic_generation s then (InputStaleGeneration, s, [])
      else if is_unsupported input then (InputIgnored, s, [])
      else
        let client = browser_client input
        in if ic_owner s \<noteq> None \<and> ic_owner s \<noteq> Some client then (InputBusy, s, [])
           else
             let s = (if ic_owner s = None then s\<lparr>ic_owner := Some client\<rparr> else s);
                 s = s\<lparr>ic_last_seen := Some now\<rparr>;
                 (sent, s, out) = (case control_of_input input of
                                     Some message \<Rightarrow> send_control ok message s
                                   | None \<Rightarrow> (True, s, []))
             in if \<not> sent then (InputGameUnavailable, s, out)
                else if releases_control input
                then (InputAccepted, s\<lparr>ic_owner := None, ic_last_seen := None\<rparr>, out)
                else (InputAccepted, s, out))"

definition expire_lease :: "nat \<Rightarrow> bool \<Rightarrow> input_control \<Rightarrow> input_control \<times> sent" where
  "expire_lease now ok s =
     (if ic_owner s \<noteq> None
         \<and> (case ic_last_seen s of None \<Rightarrow> False | Some last_seen \<Rightarrow> now - last_seen \<ge> INPUT_LEASE_TIMEOUT)
      then case send_control ok ControlReleaseAll s of
             (_, s, out) \<Rightarrow> (s\<lparr>ic_owner := None, ic_last_seen := None\<rparr>, out)
      else (s, []))"

definition release_and_disconnect :: "bool \<Rightarrow> input_control \<Rightarrow> input_control \<times> sent" where
  "release_and_disconnect ok s =
     (case send_control ok ControlReleaseAll s of (_, s, out) \<Rightarrow> (disconnect_game s, out))"

section \<open>Receiving the frames of a game\<close>

fun reader_size :: "reader \<Rightarrow> nat" where
  "reader_size [] = 0"
| "reader_size (RdData bs # es) = Suc (length bs) + reader_size es"
| "reader_size (RdError e # es) = Suc (reader_size es)"

lemma reader_size_unread: "reader_size (unread bs es) \<le> Suc (length bs) + reader_size es"
  by (simp add: unread_def)

lemma read_exact_size: "read_exact n es = (r, es') \<Longrightarrow> reader_size es' \<le> reader_size es"
proof (induction n es arbitrary: r es' rule: read_exact.induct)
  case (3 n bs es)
  show ?case
  proof (cases "n = 0 \<or> bs = [] \<or> n \<le> length bs")
    case True
    then show ?thesis
      using "3.prems" reader_size_unread [of "drop n bs" es] by (auto split: if_splits intro: order_trans)
  next
    case False
    then obtain r1 where "read_exact (n - length bs) es = (r1, es')"
      using "3.prems" by (auto split: prod.splits)
    then show ?thesis using "3.IH" [of r1 es'] False by simp
  qed
qed (auto split: if_splits intro: le_SucI)

lemma read_first_byte_size: "read_first_byte es = (Ok (Some b), es') \<Longrightarrow> reader_size es' < reader_size es"
  by (induction es rule: read_first_byte.induct) (auto simp: unread_def split: if_splits)

lemma read_frame_size:
  assumes "read_frame es = (Ok (Some f), es')"
  shows "reader_size es' < reader_size es"
proof -
  obtain b es1 where 1: "read_first_byte es = (Ok (Some b), es1)"
    using assms by (auto simp: read_frame_def split: prod.splits sum.splits option.splits)
  show ?thesis
    using assms 1 read_first_byte_size [OF 1]
    by (auto simp: read_frame_def split: prod.splits sum.splits dest!: read_exact_size)
qed

definition err_sequence :: "u64 \<Rightarrow> u64 \<Rightarrow> string" where
  "err_sequence found previous =
     ''invalid native frame sequence '' @ show_nat (unat found) @ ''; previous frame was '' @ show_nat (unat previous)"

text \<open>The loop of \<open>receive_frames\<close>, from the connected stream on.\<close>

function receive_loop :: "u64 \<Rightarrow> reader \<Rightarrow> frame_state \<Rightarrow> (string, unit) result \<times> frame_state" where
  "receive_loop last_sequence es s =
     (case read_frame es of
        (Inl e, es') \<Rightarrow> (Err (''invalid native frame stream: '' @ e), s)
      | (Inr None, es') \<Rightarrow> (Ok (), s)
      | (Inr (Some f), es') \<Rightarrow>
          if frame_sequence f \<le> last_sequence then (Err (err_sequence (frame_sequence f) last_sequence), s)
          else receive_loop (frame_sequence f) es' (publish f s))"
  by pat_completeness auto
termination
  by (relation "measure (\<lambda>(last_sequence, es, s). reader_size es)") (auto intro: read_frame_size dest: sym)

declare receive_loop.simps [simp del]

section \<open>The server as a whole\<close>

text \<open>
  The receiver thread of a run: none, waiting for the game to connect, connected with the last
  sequence number it saw, or past \<open>disconnect_game\<close> and about to stop the frames. The session
  joins it before it launches the next run. \<open>dv_keys\<close> is not state of the program: it lists
  the clients whose key messages the connected game got since it was last told to release all keys.
\<close>

datatype receiver = RxNone | RxWaiting | RxConnected u64 | RxStopping

record dev_server =
  dv_frames :: frame_state
  dv_controls :: input_control
  dv_receiver :: receiver
  dv_keys :: "string list"

definition dev_initial :: "dev_server \<Rightarrow> bool" where
  "dev_initial s \<longleftrightarrow>
     s = \<lparr>dv_frames = frame_state_default, dv_controls = input_control_default, dv_receiver = RxNone, dv_keys = []\<rparr>"

definition keys_after :: "string \<Rightarrow> sent \<Rightarrow> string list \<Rightarrow> string list" where
  "keys_after client out keys =
     (if out = [] then keys
      else if list_all (\<lambda>(stream, bs). bs = encode_control ControlReleaseAll) out then []
      else client # keys)"

inductive dev_step :: "dev_server \<Rightarrow> dev_server \<Rightarrow> bool" where
  launch: "dv_receiver s = RxNone \<Longrightarrow>
    dev_step s (s\<lparr>dv_frames := begin_run (dv_frames s), dv_receiver := RxWaiting\<rparr>)"
| accept: "dv_receiver s = RxWaiting \<Longrightarrow>
    dev_step s (s\<lparr>dv_controls := connect_game stream (fs_generation (dv_frames s)) (dv_controls s),
                  dv_receiver := RxConnected 0, dv_keys := []\<rparr>)"
| frame: "dv_receiver s = RxConnected last_sequence \<Longrightarrow> last_sequence < frame_sequence f \<Longrightarrow>
    unat (frame_sequence f) + unat (fs_delivery_offset (dv_frames s)) < 2 ^ 64 \<Longrightarrow>
    dev_step s (s\<lparr>dv_frames := publish f (dv_frames s), dv_receiver := RxConnected (frame_sequence f)\<rparr>)"
| closing: "dv_receiver s = RxWaiting \<or> dv_receiver s = RxConnected last_sequence \<Longrightarrow>
    dev_step s (s\<lparr>dv_controls := disconnect_game (dv_controls s), dv_receiver := RxStopping\<rparr>)"
| closed: "dv_receiver s = RxStopping \<Longrightarrow>
    dev_step s (s\<lparr>dv_frames := stop_frames (dv_frames s), dv_receiver := RxNone\<rparr>)"
| detach: "dev_step s (s\<lparr>dv_controls := disconnect_game (dv_controls s)\<rparr>)"
| status: "dev_step s (s\<lparr>dv_frames := set_state st (dv_frames s)\<rparr>)"
| input: "apply_input now ok browser generation (dv_controls s) = (result, controls, out) \<Longrightarrow>
    dev_step s (s\<lparr>dv_controls := controls, dv_keys := keys_after (browser_client browser) out (dv_keys s)\<rparr>)"
| expire: "expire_lease now ok (dv_controls s) = (controls, out) \<Longrightarrow>
    dev_step s (s\<lparr>dv_controls := controls, dv_keys := keys_after [] out (dv_keys s)\<rparr>)"
| shutdown: "release_and_disconnect ok (dv_controls s) = (controls, out) \<Longrightarrow>
    dev_step s (s\<lparr>dv_controls := controls, dv_keys := keys_after [] out (dv_keys s)\<rparr>)"

inductive_cases dev_stepE: "dev_step s s'"

text \<open>What the receiver's phase says about the sequence numbers of the store.\<close>

definition receiver_ok :: "frame_state \<Rightarrow> receiver \<Rightarrow> bool" where
  "receiver_ok f rx \<longleftrightarrow>
     (case rx of
        RxConnected n \<Rightarrow> unat (fs_sequence f) = unat (fs_delivery_offset f) + unat n
      | RxWaiting \<Rightarrow> fs_sequence f = fs_delivery_offset f
      | _ \<Rightarrow> True)"

definition dev_inv :: "dev_server \<Rightarrow> bool" where
  "dev_inv s \<longleftrightarrow>
     (let f = dv_frames s; c = dv_controls s
      in (ic_owner c = None \<longleftrightarrow> ic_last_seen c = None)
         \<and> (ic_game c = None \<longrightarrow> ic_owner c = None)
         \<and> (ic_game c \<noteq> None \<longrightarrow> ic_generation c = fs_generation f \<and> (\<exists>n. dv_receiver s = RxConnected n)
              \<and> (\<forall>client \<in> set (dv_keys s). ic_owner c = Some client))
         \<and> (\<forall>frame. fs_latest f = Some frame \<longrightarrow> frame_sequence frame = fs_sequence f)
         \<and> receiver_ok f (dv_receiver s))"

lemmas control_ops =
  send_control_def disconnect_game_def connect_game_def apply_input_def expire_lease_def release_and_disconnect_def

lemma encode_control_release: "encode_control m = encode_control ControlReleaseAll \<longleftrightarrow> m = ControlReleaseAll"
  by (auto simp: encode_control_def CONTROL_KEY_def CONTROL_RELEASE_ALL_def split: control_message.splits)

lemma disconnect_sel [simp]:
  "ic_game (disconnect_game c) = None" "ic_owner (disconnect_game c) = None" "ic_last_seen (disconnect_game c) = None"
  by (simp_all add: disconnect_game_def)

lemma send_control_cases:
  obtains (sent) stream where "ic_game s = Some stream" "ok"
      "send_control ok m s = (True, s, [(stream, encode_control m)])"
    | (failed) "send_control ok m s = (False, disconnect_game s, [])"
  by (cases "ic_game s"; cases ok) (auto simp: send_control_def)

text \<open>What an input message does to the lease and to the keys the game holds.\<close>

definition lease_ok :: "input_control \<Rightarrow> string list \<Rightarrow> bool" where
  "lease_ok c keys \<longleftrightarrow>
     (ic_owner c = None \<longleftrightarrow> ic_last_seen c = None)
     \<and> (ic_game c = None \<longrightarrow> ic_owner c = None)
     \<and> (ic_game c \<noteq> None \<longrightarrow> (\<forall>client \<in> set keys. ic_owner c = Some client))"

text \<open>The client holds the lease after a message that was not turned away.\<close>

definition claimed :: "nat \<Rightarrow> string \<Rightarrow> input_control \<Rightarrow> input_control" where
  "claimed now client c = c\<lparr>ic_owner := Some client, ic_last_seen := Some now\<rparr>"

lemma apply_input_cases:
  assumes "apply_input now ok browser generation c = (result, c', out)"
  obtains (refused) "c' = c" "out = []" "result \<noteq> InputAccepted"
    | (heartbeat) stream client where "browser = BrowserHeartbeat client" "ic_game c = Some stream"
        "generation = ic_generation c" "ic_owner c = None \<or> ic_owner c = Some client"
        "c' = claimed now client c" "out = []" "result = InputAccepted"
    | (key_sent) stream client k down where "browser = BrowserKey client k down" "ic_game c = Some stream"
        "generation = ic_generation c" "ic_owner c = None \<or> ic_owner c = Some client"
        "c' = claimed now client c" "out = [(stream, encode_control (ControlKey k down))]" "result = InputAccepted"
    | (released) stream client where "browser = BrowserReleaseAll client" "ic_game c = Some stream"
        "generation = ic_generation c" "ic_owner c = None \<or> ic_owner c = Some client"
        "c' = c\<lparr>ic_owner := None, ic_last_seen := None\<rparr>" "out = [(stream, encode_control ControlReleaseAll)]"
        "result = InputAccepted"
    | (lost) "ic_game c' = None" "ic_owner c' = None" "ic_last_seen c' = None" "ic_generation c' = ic_generation c"
        "out = []" "result = InputGameUnavailable"
proof (cases "ic_game c = None \<or> generation \<noteq> ic_generation c \<or> is_unsupported browser
              \<or> (ic_owner c \<noteq> None \<and> ic_owner c \<noteq> Some (browser_client browser))")
  case True
  then have "c' = c \<and> out = [] \<and> result \<noteq> InputAccepted"
    using assms by (auto simp: apply_input_def Let_def split: if_splits)
  then show thesis using refused by blast
next
  case False
  then obtain stream where g: "ic_game c = Some stream" "generation = ic_generation c" "\<not> is_unsupported browser"
    "ic_owner c = None \<or> ic_owner c = Some (browser_client browser)" by auto
  have r: "apply_input now ok browser generation c =
     (let s = claimed now (browser_client browser) c;
          (sent, s, out) = (case control_of_input browser of
                              Some message \<Rightarrow> send_control ok message s
                            | None \<Rightarrow> (True, s, []))
      in if \<not> sent then (InputGameUnavailable, s, out)
         else if releases_control browser
         then (InputAccepted, s\<lparr>ic_owner := None, ic_last_seen := None\<rparr>, out)
         else (InputAccepted, s, out))"
  proof -
    have eq: "(if ic_owner c = None then c\<lparr>ic_owner := Some (browser_client browser)\<rparr> else c)\<lparr>ic_last_seen := Some now\<rparr> =
          claimed now (browser_client browser) c"
      using g(4) by (cases c) (auto simp: claimed_def)
    show ?thesis
      using g unfolding apply_input_def Let_def eq by auto
  qed
  let ?claimed = "claimed now (browser_client browser) c"
  have send: "send_control ok m ?claimed =
              (if ok then (True, ?claimed, [(stream, encode_control m)]) else (False, disconnect_game ?claimed, []))" for m
    using g(1) by (simp add: send_control_def claimed_def)
  show thesis
  proof (cases browser)
    case (BrowserKey client k down)
    have own: "ic_owner c = None \<or> ic_owner c = Some client"
      using g(4) BrowserKey by (simp add: browser_client_def)
    show thesis
    proof (cases ok)
      case True
      have "c' = claimed now client c" "out = [(stream, encode_control (ControlKey k down))]" "result = InputAccepted"
        using assms unfolding r Let_def
        by (simp_all add: BrowserKey control_of_input_def releases_control_def send [unfolded BrowserKey] True
            browser_client_def send_control_def claimed_def g(1))
      then show thesis by (rule key_sent [OF BrowserKey g(1,2) own])
    next
      case False
      then show thesis
        using assms unfolding r Let_def
        by (intro lost) (auto simp: BrowserKey control_of_input_def send_control_def claimed_def g(1) disconnect_game_def)
    qed
  next
    case (BrowserReleaseAll client)
    have own: "ic_owner c = None \<or> ic_owner c = Some client"
      using g(4) BrowserReleaseAll by (simp add: browser_client_def)
    show thesis
    proof (cases ok)
      case True
      have "c' = c\<lparr>ic_owner := None, ic_last_seen := None\<rparr>" "out = [(stream, encode_control ControlReleaseAll)]"
        "result = InputAccepted"
        using assms unfolding r Let_def
        by (simp_all add: BrowserReleaseAll control_of_input_def releases_control_def True send_control_def claimed_def g(1))
      then show thesis by (rule released [OF BrowserReleaseAll g(1,2) own])
    next
      case False
      then show thesis
        using assms unfolding r Let_def
        by (intro lost) (auto simp: BrowserReleaseAll control_of_input_def send_control_def claimed_def g(1) disconnect_game_def)
    qed
  next
    case (BrowserHeartbeat client)
    have own: "ic_owner c = None \<or> ic_owner c = Some client"
      using g(4) BrowserHeartbeat by (simp add: browser_client_def)
    have "c' = claimed now client c" "out = []" "result = InputAccepted"
      using assms unfolding r Let_def
      by (simp_all add: BrowserHeartbeat control_of_input_def releases_control_def browser_client_def)
    then show thesis by (rule heartbeat [OF BrowserHeartbeat g(1,2) own])
  qed (use g(3) in \<open>simp add: is_unsupported_def\<close>)
qed

lemma apply_input_lease:
  assumes "apply_input now ok browser generation c = (result, c', out)" and "lease_ok c keys"
  shows "lease_ok c' (keys_after (browser_client browser) out keys) \<and> ic_generation c' = ic_generation c
         \<and> (ic_game c' \<noteq> None \<longrightarrow> ic_game c' = ic_game c)"
  using assms(1)
proof (cases rule: apply_input_cases)
  case (key_sent stream client k down)
  then show ?thesis
    using assms(2) by (auto simp: lease_ok_def claimed_def keys_after_def encode_control_release browser_client_def)
next
  case (released stream client)
  then show ?thesis using assms(2) by (auto simp: lease_ok_def keys_after_def)
qed (use assms(2) in \<open>auto simp: lease_ok_def claimed_def keys_after_def\<close>)

lemma expire_lease_lease:
  assumes "expire_lease now ok c = (c', out)" and "lease_ok c keys"
  shows "lease_ok c' (keys_after [] out keys) \<and> ic_generation c' = ic_generation c
         \<and> (ic_game c' \<noteq> None \<longrightarrow> ic_game c' = ic_game c)"
  using assms
  by (cases "ic_game c"; cases ok)
     (auto simp: expire_lease_def send_control_def disconnect_game_def lease_ok_def keys_after_def split: if_splits)

lemma release_and_disconnect_game: "release_and_disconnect ok c = (c', out) \<Longrightarrow> ic_game c' = None \<and> ic_owner c' = None \<and> ic_last_seen c' = None"
  by (auto simp: release_and_disconnect_def split: prod.splits)

lemma dev_inv_alt:
  "dev_inv s \<longleftrightarrow>
     lease_ok (dv_controls s) (dv_keys s)
     \<and> (ic_game (dv_controls s) \<noteq> None \<longrightarrow>
          ic_generation (dv_controls s) = fs_generation (dv_frames s) \<and> (\<exists>n. dv_receiver s = RxConnected n))
     \<and> (\<forall>f. fs_latest (dv_frames s) = Some f \<longrightarrow> frame_sequence f = fs_sequence (dv_frames s))
     \<and> receiver_ok (dv_frames s) (dv_receiver s)"
  by (auto simp: dev_inv_def lease_ok_def Let_def)

lemma dev_inv_initial: "dev_initial s \<Longrightarrow> dev_inv s"
  by (simp add: dev_initial_def dev_inv_alt lease_ok_def input_control_default_def frame_state_default_def receiver_ok_def)

lemma dev_step_inv:
  assumes "dev_inv s" and "dev_step s s'"
  shows "dev_inv s'"
  using assms(2)
proof cases
  case launch
  then show ?thesis using assms(1) by (auto simp: dev_inv_alt begin_run_def receiver_ok_def)
next
  case (accept stream)
  then show ?thesis using assms(1) by (auto simp: dev_inv_alt connect_game_def lease_ok_def receiver_ok_def)
next
  case (frame last_sequence f)
  have "unat (frame_sequence f + fs_delivery_offset (dv_frames s)) =
        unat (frame_sequence f) + unat (fs_delivery_offset (dv_frames s))"
    using frame(4) unat_add_lem [of "frame_sequence f" "fs_delivery_offset (dv_frames s)"] by simp
  then show ?thesis
    using assms(1) frame(1,2) by (simp add: dev_inv_alt publish_def Let_def receiver_ok_def)
next
  case (closing last_sequence)
  then show ?thesis using assms(1) by (auto simp: dev_inv_alt lease_ok_def receiver_ok_def)
next
  case closed
  then show ?thesis using assms(1) by (auto simp: dev_inv_alt stop_frames_def receiver_ok_def)
next
  case detach
  then show ?thesis using assms(1) by (auto simp: dev_inv_alt lease_ok_def)
next
  case (status st)
  then show ?thesis using assms(1) by (auto simp: dev_inv_alt set_state_def Let_def receiver_ok_def split: receiver.splits)
next
  case (input now ok browser generation result controls out)
  then show ?thesis
    using assms(1) apply_input_lease [OF input(2), of "dv_keys s"] by (auto simp: dev_inv_alt)
next
  case (expire now ok controls out)
  then show ?thesis
    using assms(1) expire_lease_lease [OF expire(2), of "dv_keys s"] by (auto simp: dev_inv_alt)
next
  case (shutdown ok controls out)
  then show ?thesis
    using assms(1) release_and_disconnect_game [OF shutdown(2)] by (auto simp: dev_inv_alt lease_ok_def)
qed

definition dev_level :: "dev_server \<Rightarrow> nat" where
  "dev_level s = unat (fs_sequence (dv_frames s))"

lemma dev_step_level:
  assumes "dev_inv s" and "dev_step s s'"
  shows "dev_level s \<le> dev_level s'"
  using assms(2)
proof cases
  case (frame last_sequence f)
  have "unat (frame_sequence f + fs_delivery_offset (dv_frames s)) =
        unat (frame_sequence f) + unat (fs_delivery_offset (dv_frames s))"
    using frame(4) unat_add_lem [of "frame_sequence f" "fs_delivery_offset (dv_frames s)"] by simp
  moreover have "unat (fs_sequence (dv_frames s)) = unat (fs_delivery_offset (dv_frames s)) + unat last_sequence"
    using assms(1) frame(2) by (simp add: dev_inv_alt receiver_ok_def)
  ultimately show ?thesis
    using frame(1,3) by (simp add: dev_level_def publish_def Let_def word_less_nat_alt)
qed (auto simp: dev_level_def begin_run_def stop_frames_def set_state_def Let_def)

interpretation dev: monotone_system dev_initial dev_step dev_inv dev_level
  by unfold_locales (auto intro: dev_inv_initial dev_step_inv dev_step_level)

section \<open>Properties\<close>

lemma run_number_bound: "unat (a :: u64) + unat b < 2 ^ 64 \<Longrightarrow> unat (a + b) = unat a + unat b"
  using unat_add_lem [of a b] by simp

text \<open>
  C13 In every interleaving of launches, game connections, frames, browser messages, lease expiries
  and disconnects, a connected game belongs to the current run and holds keys of at most one client,
  the one that owns the lease: ownership never passes to another client before the game was told to
  release all keys.
\<close>

theorem game_keys_belong_to_owner:
  assumes "reachable dev_initial dev_step s" and "ic_game (dv_controls s) = Some stream"
  shows "(\<forall>client \<in> set (dv_keys s). ic_owner (dv_controls s) = Some client)
         \<and> ic_generation (dv_controls s) = fs_generation (dv_frames s)"
  using dev.reachable_inv [OF assms(1)] assms(2) by (auto simp: dev_inv_alt lease_ok_def)

text \<open>
  C14 Every frame a game publishes, in this run or in any later one, is new to a viewer that polls
  with the sequence number of a frame it has seen: restarting the game never makes the numbers the
  viewer sees go back, although each game counts from one. (The sum of the counters is assumed to stay
  within 64 bits.)
\<close>

theorem later_frames_are_new:
  assumes "reachable dev_initial dev_step s" and "fs_latest (dv_frames s) = Some seen"
    and "steps dev_step s s'" and "dv_receiver s' = RxConnected previous" and "previous < frame_sequence f"
    and "unat (frame_sequence f) + unat (fs_delivery_offset (dv_frames s')) < 2 ^ 64"
  shows "\<exists>g. snap_frame (snapshot_after (frame_sequence seen) (publish f (dv_frames s'))) = Some g
             \<and> frame_pixels g = frame_pixels f \<and> frame_sequence seen < frame_sequence g"
proof -
  have s: "dev_inv s" using dev.reachable_inv [OF assms(1)] .
  then have s': "dev_inv s'" "dev_level s \<le> dev_level s'"
    using dev.steps_level [OF assms(3)] by auto
  have "unat (frame_sequence seen) \<le> unat (fs_sequence (dv_frames s'))"
    using s s'(2) assms(2) by (simp add: dev_inv_alt dev_level_def)
  also have "\<dots> = unat (fs_delivery_offset (dv_frames s')) + unat previous"
    using s'(1) assms(4) by (simp add: dev_inv_alt receiver_ok_def)
  also have "\<dots> < unat (frame_sequence f + fs_delivery_offset (dv_frames s'))"
    using assms(5) run_number_bound [OF assms(6)] by (simp add: word_less_nat_alt)
  finally show ?thesis
    by (simp add: snapshot_after_def publish_def Let_def word_less_nat_alt)
qed

text \<open>Receiving a whole run.\<close>

definition frame_bytes :: "frame \<Rightarrow> bytes" where
  "frame_bytes f = frame_header (frame_sequence f) (frame_resolution f) @ frame_pixels f"

definition frame_ok :: "frame \<Rightarrow> bool" where
  "frame_ok f \<longleftrightarrow> resolution_valid (frame_resolution f) \<and> length (frame_pixels f) = payload_bytes (frame_resolution f)"

fun increasing_from :: "u64 \<Rightarrow> frame list \<Rightarrow> bool" where
  "increasing_from previous [] = True"
| "increasing_from previous (f # fs) = (previous < frame_sequence f \<and> increasing_from (frame_sequence f) fs)"

lemma read_frame_bytes:
  assumes "frame_ok f" and "calm es" and "stream_bytes es = frame_bytes f @ rest"
  shows "\<exists>es'. read_frame es = (Ok (Some f), es') \<and> calm es' \<and> stream_bytes es' = rest"
proof -
  have "encode_frame_at_resolution (frame_sequence f) (frame_resolution f) (frame_pixels f) = Ok (frame_bytes f)"
    using assms(1) by (simp add: encode_frame_at_resolution_def frame_bytes_def frame_ok_def)
  moreover have "\<lparr>frame_sequence = frame_sequence f, frame_resolution = frame_resolution f, frame_pixels = frame_pixels f\<rparr> = f"
    by simp
  ultimately show ?thesis
    using read_encoded [OF _ _ assms(2,3)] assms(1) by (metis frame_ok_def)
qed

lemma receive_loop_publishes:
  assumes "list_all frame_ok fs" and "increasing_from previous fs" and "calm es"
    and "stream_bytes es = concat (map frame_bytes fs)"
  shows "receive_loop previous es s = (Ok (), fold publish fs s)"
  using assms
proof (induction fs arbitrary: previous es s)
  case Nil
  then show ?case using read_first_byte_calm [OF Nil.prems(3)]
    by (auto simp: receive_loop.simps [of previous es s] read_frame_def)
next
  case (Cons f fs)
  then obtain es' where "read_frame es = (Ok (Some f), es')" "calm es'" "stream_bytes es' = concat (map frame_bytes fs)"
    using read_frame_bytes [of f es "concat (map frame_bytes fs)"] by auto
  moreover from this have "receive_loop (frame_sequence f) es' (publish f s) = (Ok (), fold publish fs (publish f s))"
    using Cons.prems by (intro Cons.IH) auto
  ultimately show ?case
    using Cons.prems(2) by (simp add: receive_loop.simps [of previous es s] not_le)
qed

text \<open>
  C18 However the network delivers a game's frames, the receiver publishes exactly those frames in
  order when their sequence numbers increase, and ends the run with an error at the first frame whose
  number does not, with every earlier frame published and that one not.
\<close>

theorem receive_loop_spec:
  assumes "list_all frame_ok fs" and "increasing_from previous fs" and "calm es"
  shows "(stream_bytes es = concat (map frame_bytes fs) \<longrightarrow>
            receive_loop previous es s = (Ok (), fold publish fs s))
         \<and> (frame_ok stale \<and> frame_sequence stale \<le> last (previous # map frame_sequence fs)
            \<and> stream_bytes es = concat (map frame_bytes (fs @ [stale])) @ rest \<longrightarrow>
            receive_loop previous es s =
              (Err (err_sequence (frame_sequence stale) (last (previous # map frame_sequence fs))), fold publish fs s))"
proof (intro conjI impI)
  show "stream_bytes es = concat (map frame_bytes fs) \<Longrightarrow> receive_loop previous es s = (Ok (), fold publish fs s)"
    by (rule receive_loop_publishes [OF assms])
  assume "frame_ok stale \<and> frame_sequence stale \<le> last (previous # map frame_sequence fs)
            \<and> stream_bytes es = concat (map frame_bytes (fs @ [stale])) @ rest"
  then show "receive_loop previous es s =
              (Err (err_sequence (frame_sequence stale) (last (previous # map frame_sequence fs))), fold publish fs s)"
    using assms
  proof (induction fs arbitrary: previous es s)
    case Nil
    then obtain es' where "read_frame es = (Ok (Some stale), es')"
      using read_frame_bytes [of stale es rest] by auto
    then show ?case using Nil.prems by (simp add: receive_loop.simps [of previous es s])
  next
    case (Cons f fs)
    then obtain es' where r: "read_frame es = (Ok (Some f), es')" "calm es'"
      "stream_bytes es' = concat (map frame_bytes (fs @ [stale])) @ rest"
      using read_frame_bytes [of f es "concat (map frame_bytes (fs @ [stale])) @ rest"] by auto
    then have "receive_loop (frame_sequence f) es' (publish f s) =
               (Err (err_sequence (frame_sequence stale) (last (frame_sequence f # map frame_sequence fs))),
                fold publish fs (publish f s))"
      using Cons.prems by (intro Cons.IH) (auto split: if_splits)
    moreover have "\<not> frame_sequence f \<le> previous" using Cons.prems(3) by (simp add: not_le)
    ultimately show ?case
      using r(1) by (simp add: receive_loop.simps [of previous es s])
  qed
qed

text \<open>
  C20 A lease whose owner has been silent for a second ends: the next check releases the game's keys
  and frees the lease, so that any client's next message is accepted; before that, another client's
  message is turned away and changes nothing.
\<close>

theorem silent_owner_loses_lease:
  assumes "ic_game c = Some stream" and "ic_owner c = Some owner" and "ic_last_seen c = Some seen"
    and "browser_client input \<noteq> owner" and "\<not> is_unsupported input" and "generation = ic_generation c"
  shows "if now - seen < INPUT_LEASE_TIMEOUT
         then expire_lease now ok c = (c, []) \<and> apply_input now ok input generation c = (InputBusy, c, [])
         else \<exists>c'. expire_lease now True c = (c', [(stream, encode_control ControlReleaseAll)])
                   \<and> ic_owner c' = None \<and> fst (apply_input now True input generation c') = InputAccepted"
proof (cases "now - seen < INPUT_LEASE_TIMEOUT")
  case True
  then show ?thesis
    using assms by (simp add: apply_input_def Let_def expire_lease_def)
next
  case False
  then have e: "expire_lease now True c =
      (c\<lparr>ic_owner := None, ic_last_seen := None\<rparr>, [(stream, encode_control ControlReleaseAll)])"
    using assms(1-3) by (simp add: expire_lease_def send_control_def)
  have "fst (apply_input now True input generation (c\<lparr>ic_owner := None, ic_last_seen := None\<rparr>)) = InputAccepted"
    using assms
    by (cases input) (simp_all add: apply_input_def control_of_input_def send_control_def is_unsupported_def
        browser_client_def releases_control_def)
  then show ?thesis using e False by simp
qed

section \<open>Instances\<close>

lemma one_pixel_ok: "frame_ok \<lparr>frame_sequence = n, frame_resolution = \<lparr>res_width = 1, res_height = 1\<rparr>, frame_pixels = [1, 2, 3]\<rparr>"
  by (simp add: frame_ok_def resolution_valid_def dimension_ok_unat payload_bytes_def)

definition one_pixel :: "u64 \<Rightarrow> frame" where
  "one_pixel n = \<lparr>frame_sequence = n, frame_resolution = \<lparr>res_width = 1, res_height = 1\<rparr>, frame_pixels = [1, 2, 3]\<rparr>"

theorem receive_loop_spec_witness:
  "receive_loop 0 [RdData (frame_bytes (one_pixel 1)), RdData (frame_bytes (one_pixel 2))] frame_state_default =
     (Ok (), fold publish [one_pixel 1, one_pixel 2] frame_state_default)"
proof -
  have ok: "list_all frame_ok [one_pixel 1, one_pixel 2]" "increasing_from 0 [one_pixel 1, one_pixel 2]"
    "calm [RdData (frame_bytes (one_pixel 1)), RdData (frame_bytes (one_pixel 2))]"
    by (simp_all add: one_pixel_def one_pixel_ok frame_bytes_def)
  show ?thesis
    using receive_loop_spec [OF ok, where rest = "[]" and stale = "one_pixel 1" and s = frame_state_default] by simp
qed

text \<open>A run with one connected game, one frame and one key held by its owner.\<close>

definition example_server :: dev_server where
  "example_server =
     \<lparr>dv_frames = publish (one_pixel 1) (begin_run frame_state_default),
      dv_controls = claimed 5 ''a'' (connect_game 9 1 input_control_default),
      dv_receiver = RxConnected 1, dv_keys = [''a'']\<rparr>"

lemma example_reachable: "reachable dev_initial dev_step example_server"
proof -
  define s0 where "s0 = \<lparr>dv_frames = frame_state_default, dv_controls = input_control_default, dv_receiver = RxNone, dv_keys = []\<rparr>"
  define s1 where "s1 = s0\<lparr>dv_frames := begin_run (dv_frames s0), dv_receiver := RxWaiting\<rparr>"
  define s2 where "s2 = s1\<lparr>dv_controls := connect_game 9 (fs_generation (dv_frames s1)) (dv_controls s1),
                  dv_receiver := RxConnected 0, dv_keys := []\<rparr>"
  define s3 where "s3 = s2\<lparr>dv_frames := publish (one_pixel 1) (dv_frames s2), dv_receiver := RxConnected (frame_sequence (one_pixel 1))\<rparr>"
  have "reachable dev_initial dev_step s0"
    by (intro reachable.start) (simp add: s0_def dev_initial_def)
  moreover have "dev_step s0 s1"
    unfolding s1_def by (intro dev_step.launch) (simp add: s0_def)
  moreover have "dev_step s1 s2"
    unfolding s2_def by (intro dev_step.accept) (simp add: s1_def)
  moreover have "dev_step s2 s3"
    unfolding s3_def
    by (intro dev_step.frame [where last_sequence = 0])
       (simp_all add: s2_def s1_def s0_def one_pixel_def begin_run_def frame_state_default_def)
  moreover have "dev_step s3 (s3\<lparr>dv_controls := claimed 5 ''a'' (dv_controls s3),
      dv_keys := keys_after (browser_client (BrowserKey ''a'' (Key 0) True)) [(9, encode_control (ControlKey (Key 0) True))] (dv_keys s3)\<rparr>)"
    by (intro dev_step.input [where now = 5 and ok = True and browser = "BrowserKey ''a'' (Key 0) True" and generation = 1
          and result = InputAccepted])
       (simp add: s3_def s2_def s1_def s0_def apply_input_def is_unsupported_def browser_client_def connect_game_def
          input_control_default_def begin_run_def frame_state_default_def control_of_input_def send_control_def
          releases_control_def claimed_def)
  moreover have "s3\<lparr>dv_controls := claimed 5 ''a'' (dv_controls s3),
      dv_keys := keys_after (browser_client (BrowserKey ''a'' (Key 0) True)) [(9, encode_control (ControlKey (Key 0) True))] (dv_keys s3)\<rparr>
      = example_server"
    by (simp add: s3_def s2_def s1_def s0_def example_server_def keys_after_def encode_control_release browser_client_def
        begin_run_def frame_state_default_def one_pixel_def)
  ultimately show ?thesis by (metis reachable.step)
qed

theorem game_keys_belong_to_owner_witness:
  "ic_owner (dv_controls example_server) = Some ''a'' \<and> ic_generation (dv_controls example_server) = 1"
  using game_keys_belong_to_owner [OF example_reachable, of 9]
  by (simp add: example_server_def claimed_def connect_game_def publish_def begin_run_def frame_state_default_def)

theorem later_frames_are_new_witness:
  "\<exists>g. snap_frame (snapshot_after 1 (publish (one_pixel 2) (dv_frames example_server))) = Some g \<and> 1 < frame_sequence g"
  using later_frames_are_new [OF example_reachable _ steps.none, of "one_pixel 1" 1 "one_pixel 2"]
  by (auto simp: example_server_def publish_def begin_run_def frame_state_default_def one_pixel_def)

theorem silent_owner_loses_lease_witness:
  "fst (apply_input 5000 True (BrowserHeartbeat ''b'') 1 (fst (expire_lease 5000 True (dv_controls example_server)))) = InputAccepted"
proof -
  let ?c = "dv_controls example_server"
  have c: "ic_game ?c = Some 9" "ic_owner ?c = Some ''a''" "ic_last_seen ?c = Some 5" "1 = ic_generation ?c"
    by (simp_all add: example_server_def claimed_def connect_game_def)
  show ?thesis
    using silent_owner_loses_lease [OF c(1-3) _ _ c(4), where input = "BrowserHeartbeat ''b''" and now = 5000 and ok = True]
    by (auto simp: browser_client_def is_unsupported_def INPUT_LEASE_TIMEOUT_def)
qed

end
