(* ===== verification/Paths.thy ===== *)
theory Paths
  imports Protocol
begin

text \<open>
  The operations of \<open>std::path\<close> that the compiler uses, on the bytes of a Unix path, and the file system as
  a parameter: what \<open>canonicalize\<close>, \<open>read_to_string\<close>, \<open>metadata\<close> and
  \<open>open\<close> find, an error being the text it displays as. \<open>parent\<close> and
  \<open>strip_prefix\<close> are only applied to the absolute paths without redundant separators that
  \<open>canonicalize\<close> returns, which is what \<open>normal_path\<close> says.
\<close>

section \<open>Paths\<close>

definition is_absolute :: "string \<Rightarrow> bool" where
  "is_absolute path \<longleftrightarrow> path \<noteq> [] \<and> hd path = CHR ''/''"

fun path_parts :: "string \<Rightarrow> string list" where
  "path_parts [] = [[]]"
| "path_parts (c # s) =
     (if c = CHR ''/'' then [] # path_parts s
      else case path_parts s of [] \<Rightarrow> [[c]] | part # parts \<Rightarrow> (c # part) # parts)"

text \<open>The last component, unless it is the root or \<open>..\<close>.\<close>

definition path_file_name :: "string \<Rightarrow> string option" where
  "path_file_name path =
     (let parts = filter (\<lambda>part. part \<noteq> [] \<and> part \<noteq> ''.'') (path_parts path)
      in if parts = [] \<or> last parts = ''..'' then None else Some (last parts))"

text \<open>What follows the last dot of the file name, when something precedes that dot.\<close>

definition path_extension :: "string \<Rightarrow> string option" where
  "path_extension path =
     Option.bind (path_file_name path) (\<lambda>name.
       let after = rev (takeWhile (\<lambda>c. c \<noteq> CHR ''.'') (rev name));
           stem = take (length name - length after - 1) name
       in if CHR ''.'' \<in> set name \<and> stem \<noteq> [] then Some after else None)"

definition path_join :: "string \<Rightarrow> string \<Rightarrow> string" where
  "path_join base path =
     (if is_absolute path then path
      else if base = [] \<or> last base = CHR ''/'' then base @ path
      else base @ ''/'' @ path)"

definition path_parent :: "string \<Rightarrow> string option" where
  "path_parent path =
     (if path = [] \<or> path = ''/'' then None
      else let stem = rev (dropWhile (\<lambda>c. c \<noteq> CHR ''/'') (rev path))
           in if stem = [] then Some []
              else if stem = ''/'' then Some ''/''
              else Some (butlast stem))"

definition strip_path_prefix :: "string \<Rightarrow> string \<Rightarrow> string option" where
  "strip_path_prefix base path =
     (if path = base then Some []
      else let prefix = (if base = ''/'' then base else base @ ''/'')
           in if take (length prefix) path = prefix then Some (drop (length prefix) path) else None)"

definition normal_path :: "string \<Rightarrow> bool" where
  "normal_path path \<longleftrightarrow> is_absolute path \<and> (path = ''/'' \<or> [] \<notin> set (path_parts (tl path)))"

text \<open>\<open>display\<close>: bytes that are not UTF-8 appear as replacement characters, one for each maximal
  part that could have begun a character.\<close>

definition ill_formed_width :: "string \<Rightarrow> nat" where
  "ill_formed_width s =
     (let lead = (\<lambda>lo hi. byte_in s 0 lo hi); second = (\<lambda>lo hi. byte_in s 1 lo hi)
      in if (lead 240 240 \<and> second 144 191 \<or> lead 241 243 \<and> second 128 191 \<or> lead 244 244 \<and> second 128 143)
            \<and> byte_in s 2 128 191 then 3
         else if lead 224 224 \<and> second 160 191 \<or> (lead 225 236 \<or> lead 238 239) \<and> second 128 191
            \<or> lead 237 237 \<and> second 128 159 \<or> lead 240 240 \<and> second 144 191
            \<or> lead 241 243 \<and> second 128 191 \<or> lead 244 244 \<and> second 128 143 then 2
         else 1)"

function path_display :: "string \<Rightarrow> string" where
  "path_display s =
     (if s = [] then []
      else case utf8_width s of
             Some n \<Rightarrow> take n s @ path_display (drop n s)
           | None \<Rightarrow> [CHR 0xEF, CHR 0xBF, CHR 0xBD] @ path_display (drop (ill_formed_width s) s))"
  by pat_completeness auto
termination
  by (relation "measure length") (auto dest!: utf8_width_pos simp: ill_formed_width_def Let_def)

declare path_display.simps [simp del]

section \<open>The file system\<close>

record file_metadata =
  fm_is_file :: bool
  fm_len :: nat

text \<open>An open file: its metadata, and what reading it finds.\<close>

record open_file =
  opened_metadata :: "(string, file_metadata) result"
  opened_reader :: reader

record file_system =
  fs_canonicalize :: "string \<Rightarrow> (string, string) result"
  fs_read_to_string :: "string \<Rightarrow> (string, string) result"
  fs_metadata :: "string \<Rightarrow> (string, file_metadata) result"
  fs_open :: "string \<Rightarrow> (string, open_file) result"

text \<open>
  What the compiler relies on: canonical paths are normal, texts are UTF-8, and what can be read as a text is a
  file, so it is not the directory of another one, nor the root.
\<close>

definition file_system_sane :: "file_system \<Rightarrow> bool" where
  "file_system_sane fs \<longleftrightarrow>
     (\<forall>p c. fs_canonicalize fs p = Ok c \<longrightarrow> normal_path c) \<and>
     (\<forall>c text. fs_read_to_string fs c = Ok text \<longrightarrow> utf8_valid text \<and> c \<noteq> ''/'') \<and>
     (\<forall>c d text text'. fs_read_to_string fs c = Ok text \<longrightarrow> fs_read_to_string fs d = Ok text' \<longrightarrow> path_parent d \<noteq> Some c)"

end
