(* ===== verification/Session.thy ===== *)
theory Session
  imports Server Paths
begin

text \<open>
  The development session, \<^verbatim>\<open>src/src/dev/session.rs\<close> and \<^verbatim>\<open>src/src/dev/mod.rs\<close>: one
  viewer that outlives the game processes it runs. What the operating system answers (a wait, a signal, a spawn)
  is an argument; times are in milliseconds. Other threads change the frames and the controls between the
  operations, as \<^verbatim>\<open>Server\<close> says; the operations here are those of the session's own thread.
\<close>

section \<open>Options\<close>

text \<open>An address of the standard library, by what the session asks of it.\<close>

record ip_addr =
  ip_text :: string
  ip_v6 :: bool
  ip_unspecified :: bool
  ip_loopback :: bool

definition localhost :: ip_addr where
  "localhost = \<lparr>ip_text = ''127.0.0.1'', ip_v6 = False, ip_unspecified = False, ip_loopback = True\<rparr>"

record dev_options =
  opt_bind :: ip_addr
  opt_port :: "16 word"
  opt_port_explicit :: bool
  opt_frame_limit :: "32 word option"
  opt_watch :: bool

definition dev_options_default :: dev_options where
  "dev_options_default =
     \<lparr>opt_bind = localhost, opt_port = 8787, opt_port_explicit = False, opt_frame_limit = None, opt_watch = False\<rparr>"

definition viewer_url :: "ip_addr \<Rightarrow> 16 word \<Rightarrow> string" where
  "viewer_url ip port =
     (let host = (if ip_unspecified ip then ''localhost''
                  else if ip_v6 ip then ''['' @ ip_text ip @ '']''
                  else ip_text ip)
      in ''http://'' @ host @ '':'' @ show_nat (unat port) @ ''/'')"

text \<open>The lines a session prints when it starts on an address.\<close>

definition session_banner :: "dev_options \<Rightarrow> ip_addr \<Rightarrow> 16 word \<Rightarrow> bool \<Rightarrow> string list" where
  "session_banner options ip port fallback =
     (if fallback then
        [''Port '' @ show_nat (unat (opt_port options)) @ '' was unavailable; selected safe fallback port ''
         @ show_nat (unat port) @ ''.'']
      else [])
     @ (if \<not> ip_loopback (opt_bind options) then
          [''Warning: development viewer explicitly bound to non-loopback address '' @ ip_text (opt_bind options) @ ''.'']
        else [])
     @ [''Viewer URL: '' @ viewer_url ip port]
     @ (if ip_loopback (opt_bind options) then
          [''Remote access: ssh -L '' @ show_nat (unat port) @ '':localhost:'' @ show_nat (unat port) @ '' <anfibio-host>'',
           ''Then open: http://localhost:'' @ show_nat (unat port) @ ''/'']
        else [])
     @ [case opt_frame_limit options of
          Some limit \<Rightarrow> ''Frame limit: '' @ show_nat (unat limit)
        | None \<Rightarrow> ''Frame limit: unbounded (use Speck `quit()` or press Ctrl-C to stop)'']"

section \<open>The session\<close>

text \<open>A running game is the executable it runs.\<close>

record session =
  sn_frames :: frame_state
  sn_controls :: input_control
  sn_game :: "string option"

text \<open>\<open>start\<close>, with the results of \<open>bind_http\<close> and of installing the handler.\<close>

definition session_start :: "(string, unit) result \<Rightarrow> (string, unit) result \<Rightarrow> (string, session) result" where
  "session_start bound handler =
     rbind bound (\<lambda>_.
     rbind (map_sum (\<lambda>e. ''could not install Ctrl-C handler: '' @ e) (\<lambda>u. u) handler) (\<lambda>_.
       Ok \<lparr>sn_frames = frame_state_default, sn_controls = input_control_default, sn_game = None\<rparr>))"

record launch_env =
  le_bound :: "(string, unit) result"
  le_port :: "(string, 16 word) result"
  le_spawned :: "(string, unit) result"

definition map_err :: "(string \<Rightarrow> string) \<Rightarrow> (string, 'a) result \<Rightarrow> (string, 'a) result" where
  "map_err f r = map_sum f (\<lambda>a. a) r"

definition launch :: "launch_env \<Rightarrow> string \<Rightarrow> session \<Rightarrow> (string, session) result" where
  "launch env executable sn =
     rbind (le_bound env) (\<lambda>_.
     rbind (map_err (\<lambda>e. ''could not inspect frame receiver: '' @ e) (le_port env)) (\<lambda>port.
     rbind (map_err (\<lambda>e. ''could not launch development game `'' @ path_display executable @ ''`: '' @ e) (le_spawned env))
       (\<lambda>_. Ok (sn\<lparr>sn_frames := begin_run (sn_frames sn), sn_game := Some executable\<rparr>))))"

text \<open>What \<open>launch\<close> changes in the environment of the child: a variable is set or removed.\<close>

definition game_environment :: "16 word \<Rightarrow> dev_options \<Rightarrow> (string \<times> string option) list" where
  "game_environment port options =
     [(''SPECK_FRAME_STREAM_PORT'', Some (show_nat (unat port))),
      (''SPECK_FRAME_LIMIT'', map_option (\<lambda>limit. show_nat (unat limit)) (opt_frame_limit options))]"

record exit_status =
  es_success :: bool
  es_text :: string

definition inspect_error :: "string \<Rightarrow> string" where
  "inspect_error e = ''could not inspect development game: '' @ e"

record poll_env =
  pe_fatal :: "string option"
  pe_wait :: "(string, exit_status option) result"

definition poll_game :: "poll_env \<Rightarrow> session \<Rightarrow> (string, exit_status option) result" where
  "poll_game env sn =
     (if sn_game sn = None then Ok None
      else case pe_fatal env of
             Some e \<Rightarrow> Err e
           | None \<Rightarrow> map_err inspect_error (pe_wait env))"

section \<open>Stopping a game\<close>

text \<open>
  The answers met while a game is stopped: whether it has exited before and after the signal, the signal, and then
  whether it has exited at the \<open>k\<close>-th look, which comes \<open>se_late k\<close> milliseconds later than the sleeps of 20 ms
  between the looks account for; whether the receiver thread ended well, and the error it sent.
\<close>

record stop_env =
  se_exited :: "(string, bool) result"
  se_signal :: "(string, unit) result"
  se_gone :: "(string, bool) result"
  se_look :: "nat \<Rightarrow> (string, bool) result"
  se_late :: "nat \<Rightarrow> nat"
  se_joined :: bool
  se_fatal :: "string option"

definition STOP_DEADLINE :: nat where
  "STOP_DEADLINE = 2000"

function await_exit :: "stop_env \<Rightarrow> nat \<Rightarrow> (string, unit) result" where
  "await_exit env k =
     (case se_look env k of
        Inl e \<Rightarrow> Err (inspect_error e)
      | Inr True \<Rightarrow> Ok ()
      | Inr False \<Rightarrow>
          if STOP_DEADLINE \<le> 20 * k + se_late env k then Err ''development game did not stop within two seconds of Ctrl-C''
          else await_exit env (k + 1))"
  by pat_completeness auto
termination
  by (relation "measure (\<lambda>(env, k). STOP_DEADLINE - k)") (auto simp: STOP_DEADLINE_def)

declare await_exit.simps [simp del]

definition interrupt_game :: "stop_env \<Rightarrow> (string, unit) result" where
  "interrupt_game env =
     (case se_signal env of
        Inr _ \<Rightarrow> await_exit env 0
      | Inl e \<Rightarrow>
          (case se_gone env of
             Inl failure \<Rightarrow> Err (inspect_error failure)
           | Inr gone \<Rightarrow> if gone then await_exit env 0 else Err e))"

definition end_game :: "stop_env \<Rightarrow> (string, unit) result" where
  "end_game env =
     rbind (case se_exited env of
              Inl e \<Rightarrow> Err (inspect_error e)
            | Inr exited \<Rightarrow> if exited then Ok () else interrupt_game env) (\<lambda>_.
       if \<not> se_joined env then Err ''frame receiver thread panicked''
       else case se_fatal env of Some e \<Rightarrow> Err e | None \<Rightarrow> Ok ())"

text \<open>The game is taken before anything can fail; dropping it kills what is left of it.\<close>

definition stop_game :: "stop_env \<Rightarrow> session \<Rightarrow> (string, unit) result \<times> session" where
  "stop_game env sn =
     (if sn_game sn = None then (Ok (), sn)
      else (end_game env, sn\<lparr>sn_game := None, sn_controls := disconnect_game (sn_controls sn)\<rparr>))"

definition set_viewer :: "viewer_state \<Rightarrow> session \<Rightarrow> session" where
  "set_viewer status sn = sn\<lparr>sn_frames := set_state status (sn_frames sn)\<rparr>"

section \<open>A single run\<close>

text \<open>\<open>run\<close> without \<open>--watch\<close>: one turn of its loop, until it has a result.\<close>

record run_turn =
  rt_fatal :: "string option"
  rt_cancelled :: bool
  rt_poll :: poll_env
  rt_stop :: stop_env

definition run_step :: "run_turn \<Rightarrow> session \<Rightarrow> session \<times> (string, unit) result option" where
  "run_step turn sn =
     (case rt_fatal turn of
        Some e \<Rightarrow> (sn, Some (Err e))
      | None \<Rightarrow>
          if rt_cancelled turn then (sn, Some (Ok ()))
          else
            (case poll_game (rt_poll turn) sn of
               Inl e \<Rightarrow> (sn, Some (Err e))
             | Inr None \<Rightarrow> (sn, None)
             | Inr (Some status) \<Rightarrow>
                 (case stop_game (rt_stop turn) sn of
                    (Inl e, sn) \<Rightarrow> (sn, Some (Err e))
                  | (Inr _, sn) \<Rightarrow>
                      (sn, Some (if es_success status then Ok () else Err (''development game exited with '' @ es_text status))))))"

fun run_loop :: "run_turn list \<Rightarrow> session \<Rightarrow> session \<times> (string, unit) result option" where
  "run_loop [] sn = (sn, None)"
| "run_loop (turn # turns) sn =
     (case run_step turn sn of (sn, None) \<Rightarrow> run_loop turns sn | (sn, Some r) \<Rightarrow> (sn, Some r))"

definition run_built ::
  "(string, string) result \<Rightarrow> bool \<Rightarrow> launch_env \<Rightarrow> run_turn list \<Rightarrow> session \<Rightarrow> session \<times> (string, unit) result option" where
  "run_built built cancelled env turns sn =
     (case built of
        Inl e \<Rightarrow> (sn, Some (Err e))
      | Inr executable \<Rightarrow>
          if cancelled then (sn, Some (Ok ()))
          else (case launch env executable sn of
                  Inl e \<Rightarrow> (sn, Some (Err e))
                | Inr sn \<Rightarrow> run_loop turns sn))"

text \<open>The result of \<open>run\<close>; none while the turns given have not ended it.\<close>

definition dev_run ::
  "(string, session) result \<Rightarrow> (string, string) result \<Rightarrow> bool \<Rightarrow> launch_env \<Rightarrow> run_turn list \<Rightarrow> stop_env \<Rightarrow> bool \<Rightarrow>
   (string, unit) result option" where
  "dev_run started built cancelled env turns final interrupted =
     (case started of
        Inl e \<Rightarrow> Some (Err e)
      | Inr sn \<Rightarrow>
          (case run_built built cancelled env turns sn of
             (sn, None) \<Rightarrow> None
           | (sn, Some r) \<Rightarrow>
               (case stop_game final sn of
                  (Inl e, sn) \<Rightarrow> Some (Err e)
                | (Inr _, sn) \<Rightarrow> Some (if interrupted then Ok () else r))))"

lemma stop_game_stops [simp]: "sn_game (snd (stop_game env sn)) = None"
  by (simp add: stop_game_def)

end
