(* ===== verification/Listener.thy ===== *)
theory Listener
  imports Session
begin

text \<open>
  The threads of \<^verbatim>\<open>src/src/dev/server.rs\<close>: binding the listeners, the accept loops, the stream of a
  game and its receiver, and the watchdog of the input lease. What a loop meets at each of its turns is an element
  of a list; None while the turns given have not ended it.
\<close>

section \<open>Binding\<close>

datatype bind_kind = BkAddrInUse | BkPermissionDenied | BkOther

record bind_env =
  bn_first :: "(bind_kind \<times> string, unit) result"
  bn_fallback :: "(string, unit) result"
  bn_nonblocking :: "(string, unit) result"
  bn_address :: "(string, ip_addr \<times> 16 word) result"

record http_binding =
  hb_address :: "ip_addr \<times> 16 word"
  hb_used_fallback_port :: bool

definition http_binding_of :: "bind_env \<Rightarrow> bool \<Rightarrow> (string, http_binding) result" where
  "http_binding_of env used_fallback_port =
     rbind (map_err (\<lambda>e. ''could not configure development HTTP listener: '' @ e) (bn_nonblocking env)) (\<lambda>_.
     rbind (map_err (\<lambda>e. ''could not inspect development HTTP listener: '' @ e) (bn_address env)) (\<lambda>address.
       Ok \<lparr>hb_address = address, hb_used_fallback_port = used_fallback_port\<rparr>))"

definition bind_http :: "bind_env \<Rightarrow> ip_addr \<Rightarrow> 16 word \<Rightarrow> bool \<Rightarrow> (string, http_binding) result" where
  "bind_http env ip port allow_fallback =
     (let place = ip_text ip @ '':'' @ show_nat (unat port) in
      case bn_first env of
        Inr _ \<Rightarrow> http_binding_of env False
      | Inl (kind, e) \<Rightarrow>
          if allow_fallback \<and> port \<noteq> 0 \<and> (kind = BkAddrInUse \<or> kind = BkPermissionDenied) then
            rbind (map_err (\<lambda>fallback. ''could not bind development viewer to '' @ place @ '' ('' @ e
                     @ ''); automatic fallback also failed: '' @ fallback) (bn_fallback env))
              (\<lambda>_. http_binding_of env True)
          else Err (''could not bind development viewer to '' @ place @ '': '' @ e))"

definition bind_frame_listener :: "(string, unit) result \<Rightarrow> (string, unit) result \<Rightarrow> (string, unit) result" where
  "bind_frame_listener bound nonblocking =
     rbind (map_err (\<lambda>e. ''could not bind loopback frame receiver: '' @ e) bound) (\<lambda>_.
       map_err (\<lambda>e. ''could not configure frame receiver: '' @ e) nonblocking)"

text \<open>A port that was asked for is the port that is bound, or nothing is.\<close>

lemma explicit_port_has_no_fallback: "bind_http env ip port False = Ok b \<Longrightarrow> \<not> hb_used_fallback_port b"
  by (auto simp: bind_http_def http_binding_of_def rbind_def Let_def split: sum.splits)

section \<open>Accepting connections\<close>

datatype accepted = Accepted | WouldBlock | AcceptFailed string

text \<open>The viewer's server: how many connections it handed to threads, and the fatal error that made it stop.\<close>

fun http_server_loop :: "(bool \<times> accepted) list \<Rightarrow> nat \<Rightarrow> (nat \<times> string option) option" where
  "http_server_loop [] handled = None"
| "http_server_loop ((stopped, outcome) # looks) handled =
     (if stopped then Some (handled, None)
      else case outcome of
             Accepted \<Rightarrow> http_server_loop looks (handled + 1)
           | WouldBlock \<Rightarrow> http_server_loop looks handled
           | AcceptFailed e \<Rightarrow> Some (handled, Some (''development HTTP server failed: '' @ e)))"

text \<open>The receiver waits for its game: connected, or gone without a connection.\<close>

fun accept_game :: "(bool \<times> accepted) list \<Rightarrow> (string, bool) result option" where
  "accept_game [] = None"
| "accept_game ((was_reaped, outcome) # looks) =
     (case outcome of
        Accepted \<Rightarrow> Some (Ok True)
      | WouldBlock \<Rightarrow> if was_reaped then Some (Ok False) else accept_game looks
      | AcceptFailed e \<Rightarrow> Some (Err (''frame receiver failed before game connected: '' @ e)))"

text \<open>A receiver gives up only when it looked after the game had exited and nothing was queued.\<close>

lemma receiver_gives_up:
  "accept_game looks = Some (Ok False) \<Longrightarrow>
   \<exists>before rest. looks = before @ (True, WouldBlock) # rest \<and> (\<forall>look \<in> set before. look = (False, WouldBlock))"
proof (induction looks)
  case (Cons look looks)
  show ?case
  proof (cases "look = (False, WouldBlock)")
    case True
    with Cons.prems have "accept_game looks = Some (Ok False)" by simp
    from Cons.IH [OF this] obtain before rest
      where "looks = before @ (True, WouldBlock) # rest" "\<forall>look \<in> set before. look = (False, WouldBlock)" by blast
    with True show ?thesis by (intro exI [of _ "look # before"] exI [of _ rest]) simp
  next
    case False
    with Cons.prems have "look = (True, WouldBlock)" by (cases look) (auto split: accepted.splits if_splits)
    then show ?thesis by (intro exI [of _ "[]"] exI [of _ looks]) simp
  qed
qed simp

section \<open>The stream of a game\<close>

definition REAPED_GAME_GRACE :: nat where
  "REAPED_GAME_GRACE = 2000"

text \<open>One read of the socket: silent until the timeout, at a time, or what any reader gives.\<close>

datatype socket_read = SrSilent nat | SrEvent read_event

definition still_open :: read_event where
  "still_open = RdError \<lparr>io_kind = IoOther, io_text = ''frame connection stayed open after the development game exited''\<rparr>"

fun game_stream_read :: "nat option \<Rightarrow> (bool \<times> socket_read) list \<Rightarrow> (read_event \<times> nat option \<times> (bool \<times> socket_read) list) option" where
  "game_stream_read since [] = None"
| "game_stream_read since ((reaped, got) # looks) =
     (case got of
        SrEvent e \<Rightarrow> Some (e, since, looks)
      | SrSilent now \<Rightarrow>
          if \<not> reaped then game_stream_read since looks
          else let start = (case since of None \<Rightarrow> now | Some time \<Rightarrow> time)
               in if REAPED_GAME_GRACE \<le> now - start then Some (still_open, Some start, looks)
                  else game_stream_read (Some start) looks)"

lemma game_stream_read_shorter: "game_stream_read since looks = Some (e, since', rest) \<Longrightarrow> length rest < length looks"
proof (induction since looks rule: game_stream_read.induct)
  case (2 since reaped got looks)
  show ?case
  proof (cases got)
    case (SrSilent now)
    show ?thesis
    proof (cases "reaped \<and> REAPED_GAME_GRACE \<le> now - (case since of None \<Rightarrow> now | Some time \<Rightarrow> time)")
      case True
      with 2(3) SrSilent show ?thesis by (auto simp: Let_def)
    next
      case False
      with 2 SrSilent show ?thesis by (cases reaped) (auto simp: Let_def less_Suc_eq split: if_splits)
    qed
  qed (use 2(3) in auto)
qed simp

text \<open>The reader the looks amount to: what each \<open>read\<close> of the stream gives, its end after the last.\<close>

function game_reads :: "nat option \<Rightarrow> (bool \<times> socket_read) list \<Rightarrow> reader" where
  "game_reads since looks =
     (case game_stream_read since looks of None \<Rightarrow> [] | Some (e, since, rest) \<Rightarrow> e # game_reads since rest)"
  by pat_completeness auto
termination
  by (relation "measure (\<lambda>(since, looks). length looks)") (auto dest: sym game_stream_read_shorter)

declare game_reads.simps [simp del]

text \<open>Silence is never an error while the game lives.\<close>

lemma silence_of_a_living_game:
  "game_stream_read since looks = Some (e, since', rest) \<Longrightarrow> \<forall>(reaped, got) \<in> set looks. \<not> reaped \<Longrightarrow>
   (\<exists>reaped. (reaped, SrEvent e) \<in> set looks) \<and> since' = since"
proof (induction since looks rule: game_stream_read.induct)
  case (2 since reaped got looks)
  then show ?case by (cases got) auto
qed simp

section \<open>The threads\<close>

record receiver_env =
  rc_looks :: "(bool \<times> accepted) list"
  rc_blocking :: "(string, unit) result"
  rc_timeout :: "(string, unit) result"
  rc_clone :: "(string, unit) result"
  rc_write_timeout :: "(string, unit) result"
  rc_stream :: nat
  rc_reads :: "(bool \<times> socket_read) list"

definition configured :: "receiver_env \<Rightarrow> (string, unit) result" where
  "configured env =
     rbind (map_err (\<lambda>e. ''could not configure frame stream blocking mode: '' @ e) (rc_blocking env)) (\<lambda>_.
     rbind (map_err (\<lambda>e. ''could not configure frame stream polling: '' @ e) (rc_timeout env)) (\<lambda>_.
     rbind (map_err (\<lambda>e. ''could not clone game stream for input: '' @ e) (rc_clone env)) (\<lambda>_.
       map_err (\<lambda>e. ''could not configure input control timeout: '' @ e) (rc_write_timeout env))))"

definition receive_frames ::
  "receiver_env \<Rightarrow> frame_state \<times> input_control \<Rightarrow> ((string, unit) result \<times> frame_state \<times> input_control) option" where
  "receive_frames env s =
     (case s of (frames, controls) \<Rightarrow>
        (case accept_game (rc_looks env) of
           None \<Rightarrow> None
         | Some (Inl e) \<Rightarrow> Some (Err e, s)
         | Some (Inr False) \<Rightarrow> Some (Ok (), s)
         | Some (Inr True) \<Rightarrow>
             (case configured env of
                Inl e \<Rightarrow> Some (Err e, s)
              | Inr _ \<Rightarrow>
                  let controls = connect_game (rc_stream env) (fs_generation frames) controls
                  in (case receive_loop 0 (game_reads None (rc_reads env)) frames of (r, frames) \<Rightarrow> Some (r, frames, controls)))))"

text \<open>The receiver thread: what it sends to the session, and the state it leaves.\<close>

definition frame_receiver ::
  "receiver_env \<Rightarrow> frame_state \<times> input_control \<Rightarrow> (string option \<times> frame_state \<times> input_control) option" where
  "frame_receiver env s =
     map_option (\<lambda>(r, frames, controls).
       ((case r of Inl e \<Rightarrow> Some e | Inr _ \<Rightarrow> None), stop_frames frames, disconnect_game controls))
     (receive_frames env s)"

lemma receiver_leaves_nothing:
  assumes "frame_receiver env s = Some (sent, frames, controls)"
  shows "fs_state frames = VsStopped \<and> ic_game controls = None \<and> ic_owner controls = None"
  using assms by (auto simp: frame_receiver_def stop_frames_def)

text \<open>The watchdog of the lease: the shutdown flag, the time and whether a write succeeds at each of its looks.\<close>

fun input_watchdog :: "(bool \<times> nat \<times> bool) list \<Rightarrow> input_control \<Rightarrow> (input_control \<times> sent) option" where
  "input_watchdog [] s = None"
| "input_watchdog ((stopped, now, ok) # looks) s =
     (if stopped then Some (release_and_disconnect ok s)
      else case expire_lease now ok s of
             (s, out) \<Rightarrow> map_option (\<lambda>(s, out'). (s, out @ out')) (input_watchdog looks s))"

lemma watchdog_disconnects: "input_watchdog looks s = Some (s', out) \<Longrightarrow> ic_game s' = None"
proof (induction looks arbitrary: s out)
  case (Cons look looks)
  obtain stopped now ok where look: "look = (stopped, now, ok)" by (cases look)
  show ?case
    using Cons look by (auto simp: release_and_disconnect_def split: if_splits prod.splits)
qed simp

end
