(* ===== verification/Viewer_Http.thy ===== *)
theory Viewer_Http
  imports Server
begin

text \<open>
  The HTTP side of the development server (\<open>read_request\<close>, \<open>handle_http\<close>,
  \<open>parse_after\<close> and \<open>respond\<close> of \<^verbatim>\<open>src/src/dev/server.rs\<close>). Request
  texts are UTF-8 byte strings. Reading a connection uses the readers of \<^theory_text>\<open>Protocol\<close>
  with the buffer size of the code.
\<close>

section \<open>Text\<close>

definition to_bytes :: "string \<Rightarrow> bytes" where
  "to_bytes s = map (\<lambda>c. of_nat (byte c)) s"

definition to_text :: "bytes \<Rightarrow> string" where
  "to_text bs = map (\<lambda>b. char_of (unat b)) bs"

text \<open>The width of the Unicode white space character a text begins with, 0 when it begins with none.\<close>

fun space_width_of :: "nat list \<Rightarrow> nat" where
  "space_width_of [] = 0"
| "space_width_of (b # bs) =
     (if (9 \<le> b \<and> b \<le> 13) \<or> b = 32 then 1
      else case bs of
             [] \<Rightarrow> 0
           | c # cs \<Rightarrow>
               if b = 194 \<and> (c = 133 \<or> c = 160) then 2
               else (case cs of
                       [] \<Rightarrow> 0
                     | d # _ \<Rightarrow>
                         if (b = 225 \<and> c = 154 \<and> d = 128)
                            \<or> (b = 226 \<and> c = 128 \<and> ((128 \<le> d \<and> d \<le> 138) \<or> d = 168 \<or> d = 169 \<or> d = 175))
                            \<or> (b = 226 \<and> c = 129 \<and> d = 159) \<or> (b = 227 \<and> c = 128 \<and> d = 128)
                         then 3 else 0))"

definition space_width :: "string \<Rightarrow> nat" where
  "space_width s = space_width_of (map byte (take 3 s))"

lemma space_width_le: "space_width s \<le> length s"
proof -
  have "space_width_of bs \<le> length bs" for bs
    by (cases bs rule: space_width_of.cases) (auto split: list.splits)
  from this [of "map byte (take 3 s)"] show ?thesis by (simp add: space_width_def)
qed

function trim_start :: "string \<Rightarrow> string" where
  "trim_start s = (if space_width s = 0 then s else trim_start (drop (space_width s) s))"
  by pat_completeness auto
termination
proof (relation "measure length")
  fix s :: string
  assume "space_width s \<noteq> 0"
  then show "(drop (space_width s) s, s) \<in> measure length"
    using space_width_le [of s] by simp
qed simp

declare trim_start.simps [simp del]

fun trim_end :: "string \<Rightarrow> string" where
  "trim_end [] = []"
| "trim_end (c # s) = (if trim_start (c # s) = [] then [] else c # trim_end s)"

definition trim :: "string \<Rightarrow> string" where
  "trim s = trim_end (trim_start s)"

text \<open>A word up to the next white space, and what follows it.\<close>

fun take_word :: "string \<Rightarrow> string \<times> string" where
  "take_word [] = ([], [])"
| "take_word (c # s) =
     (if space_width (c # s) > 0 then ([], c # s)
      else case take_word s of (w, rest) \<Rightarrow> (c # w, rest))"

text \<open>The first words of \<open>split_whitespace\<close>.\<close>

definition next_word :: "string \<Rightarrow> (string \<times> string) option" where
  "next_word s = (case trim_start s of [] \<Rightarrow> None | c # r \<Rightarrow> Some (take_word (c # r)))"

fun strip_cr :: "string \<Rightarrow> string" where
  "strip_cr [] = []"
| "strip_cr [c] = (if c = CHR 0x0D then [] else [c])"
| "strip_cr (c # d # s) = c # strip_cr (d # s)"

function lines_of :: "string \<Rightarrow> string list" where
  "lines_of s =
     (if s = [] then []
      else let line = takeWhile (\<lambda>c. c \<noteq> newline) s; rest = dropWhile (\<lambda>c. c \<noteq> newline) s
           in if rest = [] then [line] else strip_cr line # lines_of (tl rest))"
  by pat_completeness auto
termination
proof (relation "measure length")
  fix s line rest :: string
  assume "rest = dropWhile (\<lambda>c. c \<noteq> newline) s" "rest \<noteq> []"
  then have "length (tl rest) < length rest" "length rest \<le> length s"
    by (auto simp: length_dropWhile_le)
  then show "(tl rest, s) \<in> measure length" by simp
qed simp

declare lines_of.simps [simp del]

definition strip_prefix :: "string \<Rightarrow> string \<Rightarrow> string option" where
  "strip_prefix p s = (if take (length p) s = p then Some (drop (length p) s) else None)"

lemma strip_prefix_Some: "strip_prefix p s = Some r \<Longrightarrow> s = p @ r"
  by (metis append_take_drop_id option.distinct(1) option.inject strip_prefix_def)

definition split_once_colon :: "string \<Rightarrow> (string \<times> string) option" where
  "split_once_colon s =
     (case dropWhile (\<lambda>c. c \<noteq> CHR '':'') s of
        [] \<Rightarrow> None
      | _ # value \<Rightarrow> Some (takeWhile (\<lambda>c. c \<noteq> CHR '':'') s, value))"

definition to_ascii_lower :: "char \<Rightarrow> char" where
  "to_ascii_lower c = (if is_ascii_upper c then char_of (byte c + 32) else c)"

definition eq_ignore_ascii_case :: "string \<Rightarrow> string \<Rightarrow> bool" where
  "eq_ignore_ascii_case a b \<longleftrightarrow> map to_ascii_lower a = map to_ascii_lower b"

text \<open>\<open>str::parse\<close> at an unsigned type: digits with an optional plus sign.\<close>

definition parse_unsigned :: "nat \<Rightarrow> string \<Rightarrow> nat option" where
  "parse_unsigned bound s =
     (let digits = (case s of CHR ''+'' # r \<Rightarrow> r | _ \<Rightarrow> s)
      in if digits \<noteq> [] \<and> list_all is_ascii_digit digits \<and> digits_value digits < bound
         then Some (digits_value digits) else None)"

section \<open>Reading a request\<close>

definition HTTP_HEADER_MAX_BYTES :: nat where
  "HTTP_HEADER_MAX_BYTES = 8192"

text \<open>One \<open>read\<close> into a buffer of \<open>n\<close> bytes; no bytes at the end of the connection.\<close>

fun read_some :: "nat \<Rightarrow> reader \<Rightarrow> (io_error, bytes) result \<times> reader" where
  "read_some n [] = (Ok [], [])"
| "read_some n (RdError e # es) = (Err e, es)"
| "read_some n (RdData bs # es) = (Ok (take n bs), unread (drop n bs) es)"

lemma read_some_size: "read_some n es = (Ok bs, es') \<Longrightarrow> bs \<noteq> [] \<Longrightarrow> reader_size es' < reader_size es"
  by (cases "(n, es)" rule: read_some.cases) (auto simp: unread_def)

definition blank_line :: bytes where
  "blank_line = [0x0D, 0x0A, 0x0D, 0x0A]"

fun find_blank_line :: "bytes \<Rightarrow> nat option" where
  "find_blank_line [] = None"
| "find_blank_line (b # bs) =
     (if take 4 (b # bs) = blank_line then Some 0 else map_option Suc (find_blank_line bs))"

definition err_http_headers :: string where
  "err_http_headers = ''HTTP request headers exceeded '' @ show_nat HTTP_HEADER_MAX_BYTES @ '' bytes''"

function read_headers :: "bytes \<Rightarrow> reader \<Rightarrow> (string, nat \<times> bytes) result \<times> reader" where
  "read_headers request es =
     (case find_blank_line request of
        Some position \<Rightarrow> (Ok (position + 4, request), es)
      | None \<Rightarrow>
          if length request \<ge> HTTP_HEADER_MAX_BYTES then (Err err_http_headers, es)
          else (case read_some 1024 es of
                  (Inl e, es') \<Rightarrow> (Err (''could not read HTTP request: '' @ io_text e), es')
                | (Inr bs, es') \<Rightarrow>
                    if bs = [] then (Err ''HTTP request ended before its headers were complete'', es')
                    else read_headers (request @ bs) es'))"
  by pat_completeness auto
termination
  by (relation "measure (\<lambda>(request, es). reader_size es)") (auto dest: sym intro: read_some_size)

declare read_headers.simps [simp del]

text \<open>The body: \<open>request\<close> grows to \<open>needed\<close> bytes.\<close>

function read_body :: "nat \<Rightarrow> bytes \<Rightarrow> reader \<Rightarrow> (string, bytes) result \<times> reader" where
  "read_body needed request es =
     (if length request < needed then
        (case read_some (min (needed - length request) 1024) es of
           (Inl e, es') \<Rightarrow> (Err (''could not read HTTP request body: '' @ io_text e), es')
         | (Inr bs, es') \<Rightarrow>
             if bs = [] then (Err ''HTTP request body was truncated'', es')
             else read_body needed (request @ bs) es')
      else (Ok request, es))"
  by pat_completeness auto
termination
  by (relation "measure (\<lambda>(needed, request, es). reader_size es)") (auto dest: sym intro: read_some_size)

declare read_body.simps [simp del]

record http_request =
  http_method :: string
  http_path :: string
  http_body :: bytes

definition content_length_step :: "nat \<Rightarrow> string \<Rightarrow> (string, nat) result" where
  "content_length_step content_length line =
     (case split_once_colon line of
        Some (name, value) \<Rightarrow>
          if eq_ignore_ascii_case name ''Content-Length''
          then ok_or ''HTTP Content-Length was not an unsigned integer'' (parse_unsigned (2 ^ 64) (trim value))
          else Ok content_length
      | None \<Rightarrow> Ok content_length)"

fun content_length_from :: "nat \<Rightarrow> string list \<Rightarrow> (string, nat) result" where
  "content_length_from n [] = Ok n"
| "content_length_from n (line # lines) = rbind (content_length_step n line) (\<lambda>n. content_length_from n lines)"

definition parse_head :: "string \<Rightarrow> (string, string \<times> string \<times> nat) result" where
  "parse_head headers =
     (case lines_of headers of
        [] \<Rightarrow> Err ''HTTP request was empty''
      | line # lines \<Rightarrow>
          rbind (ok_or ''HTTP request did not include a method'' (next_word line)) (\<lambda>(meth, rest).
            if meth \<noteq> ''GET'' \<and> meth \<noteq> ''POST'' then
              Err ''development viewer only accepts GET and POST requests''
            else rbind (ok_or ''HTTP request did not include a path'' (next_word rest)) (\<lambda>(path, _).
              rbind (content_length_from 0 lines) (\<lambda>n. Ok (meth, path, n)))))"

definition err_http_body :: string where
  "err_http_body = ''HTTP request body exceeded '' @ show_nat BROWSER_INPUT_MAX_BYTES @ '' bytes''"

definition read_request :: "reader \<Rightarrow> (string, http_request) result" where
  "read_request es =
     (case read_headers [] es of
        (Inl e, _) \<Rightarrow> Err e
      | (Inr (header_end, request), es) \<Rightarrow>
          if header_end > HTTP_HEADER_MAX_BYTES then Err err_http_headers
          else
            let headers = to_text (take header_end request)
            in if \<not> utf8_valid headers then Err ''HTTP request headers were not UTF-8''
               else
                 rbind (parse_head headers) (\<lambda>(meth, path, content_length).
                   if content_length > BROWSER_INPUT_MAX_BYTES then Err err_http_body
                   else rbind (fst (read_body (header_end + content_length) request es)) (\<lambda>request.
                     Ok \<lparr>http_method = meth, http_path = path,
                         http_body = take content_length (drop header_end request)\<rparr>)))"

section \<open>Answering\<close>

record response =
  rsp_status :: string
  rsp_content_type :: string
  rsp_headers :: "(string \<times> string) list"
  rsp_body :: bytes

definition respond :: "string \<Rightarrow> string \<Rightarrow> (string \<times> string) list \<Rightarrow> bytes \<Rightarrow> response" where
  "respond status content_type headers body =
     \<lparr>rsp_status = status, rsp_content_type = content_type, rsp_headers = headers, rsp_body = body\<rparr>"

definition crlf :: string where
  "crlf = [CHR 0x0D, CHR 0x0A]"

definition response_bytes :: "response \<Rightarrow> bytes" where
  "response_bytes r =
     to_bytes (''HTTP/1.1 '' @ rsp_status r @ crlf @ ''Content-Type: '' @ rsp_content_type r @ crlf
       @ ''Content-Length: '' @ show_nat (length (rsp_body r)) @ crlf @ ''Connection: close'' @ crlf
       @ concat (map (\<lambda>(name, value). name @ '': '' @ value @ crlf) (rsp_headers r)) @ crlf)
     @ rsp_body r"

definition respond_text :: "string \<Rightarrow> string \<Rightarrow> response" where
  "respond_text status text = respond status ''text/plain'' [] (to_bytes (text @ [newline]))"

fun split_on :: "char \<Rightarrow> string \<Rightarrow> string list" where
  "split_on sep [] = [[]]"
| "split_on sep (c # s) =
     (if c = sep then [] # split_on sep s
      else case split_on sep s of part # parts \<Rightarrow> (c # part) # parts | [] \<Rightarrow> [[c]])"

fun find_map :: "('a \<Rightarrow> 'b option) \<Rightarrow> 'a list \<Rightarrow> 'b option" where
  "find_map f [] = None"
| "find_map f (x # xs) = (case f x of Some y \<Rightarrow> Some y | None \<Rightarrow> find_map f xs)"

definition parse_after :: "string \<Rightarrow> (string, u64) result" where
  "parse_after query =
     (if query = [] \<or> query = ''?'' then Ok 0
      else
        let value = (case find_map (strip_prefix ''after='') (split_on CHR ''&'' (dropWhile (\<lambda>c. c = CHR ''?'') query))
                     of Some v \<Rightarrow> v | None \<Rightarrow> ''0'')
        in rbind (ok_or ''`after` frame sequence must be an unsigned integer'' (parse_unsigned (2 ^ 64) value))
             (\<lambda>n. Ok (of_nat n)))"

definition frame_response :: "frame_snapshot \<Rightarrow> response" where
  "frame_response snap =
     (let generation = show_nat (unat (snap_generation snap));
          state = viewer_state_wire (snap_state snap) (snap_frame snap \<noteq> None)
      in case snap_frame snap of
           Some f \<Rightarrow>
             respond ''200 OK'' ''application/octet-stream''
               [(''Cache-Control'', ''no-store''), (''X-Speck-State'', state), (''X-Speck-Generation'', generation),
                (''X-Speck-Sequence'', show_nat (unat (frame_sequence f))),
                (''X-Speck-Width'', show_nat (unat (res_width (frame_resolution f)))),
                (''X-Speck-Height'', show_nat (unat (res_height (frame_resolution f)))),
                (''X-Speck-Format'', ''RGB8'')]
               (frame_pixels f)
         | None \<Rightarrow>
             respond ''204 No Content'' ''application/octet-stream''
               [(''Cache-Control'', ''no-store''), (''X-Speck-State'', state), (''X-Speck-Generation'', generation)] [])"

definition input_response :: "input_result \<Rightarrow> response" where
  "input_response r =
     (case r of
        InputAccepted \<Rightarrow> respond ''204 No Content'' ''text/plain'' [] []
      | InputIgnored \<Rightarrow> respond ''204 No Content'' ''text/plain'' [] []
      | InputStaleGeneration \<Rightarrow> respond_text ''412 Precondition Failed'' ''input belongs to a previous game run''
      | InputBusy \<Rightarrow> respond_text ''409 Conflict'' ''another viewer currently controls input''
      | InputGameUnavailable \<Rightarrow> respond_text ''503 Service Unavailable'' ''game input is not connected'')"

definition handle_input ::
  "nat \<Rightarrow> bool \<Rightarrow> http_request \<Rightarrow> input_control \<Rightarrow> response \<times> input_control \<times> sent" where
  "handle_input now ok request controls =
     (if http_method request \<noteq> ''POST'' then
        (respond ''405 Method Not Allowed'' ''text/plain'' [(''Allow'', ''POST'')]
           (to_bytes (''input requires POST'' @ [newline])), controls, [])
      else
        case Option.bind (strip_prefix ''/input?generation='' (http_path request)) (parse_unsigned (2 ^ 64)) of
          None \<Rightarrow> (respond_text ''400 Bad Request'' ''input requires a run generation'', controls, [])
        | Some generation \<Rightarrow>
            (case parse_browser_input (to_text (http_body request)) of
               Inl e \<Rightarrow> (respond_text ''400 Bad Request'' e, controls, [])
             | Inr input \<Rightarrow>
                 (case apply_input now ok input (of_nat generation) controls of
                    (result, controls, out) \<Rightarrow> (input_response result, controls, out))))"

text \<open>
  \<open>viewer_html\<close> is the generated page; \<open>snapshots\<close> is what \<open>wait_after\<close> returns for
  each sequence number. An error is the connection closed without an answer.
\<close>

definition handle_http ::
  "bytes \<Rightarrow> (u64 \<Rightarrow> frame_snapshot) \<Rightarrow> nat \<Rightarrow> bool \<Rightarrow> reader \<Rightarrow> input_control \<Rightarrow>
   (string, response) result \<times> input_control \<times> sent" where
  "handle_http viewer_html snapshots now ok es controls =
     (case read_request es of
        Inl e \<Rightarrow> (Ok (respond_text ''400 Bad Request'' e), controls, [])
      | Inr request \<Rightarrow>
          let path = http_path request; get = (http_method request = ''GET'')
          in if get \<and> path = ''/'' then
               (Ok (respond ''200 OK'' ''text/html; charset=utf-8'' [(''Cache-Control'', ''no-store'')] viewer_html),
                controls, [])
             else if get \<and> path = ''/favicon.ico'' then (Ok (respond ''204 No Content'' ''text/plain'' [] []), controls, [])
             else if get \<and> strip_prefix ''/frame'' path \<noteq> None then
               (let query = drop (length ''/frame'') path
                in if query \<noteq> [] \<and> hd query \<noteq> CHR ''?'' then (Ok (respond_text ''404 Not Found'' ''not found''), controls, [])
                   else (rbind (parse_after query) (\<lambda>after. Ok (frame_response (snapshots after))), controls, []))
             else if takeWhile (\<lambda>c. c \<noteq> CHR ''?'') path = ''/input'' then
               (case handle_input now ok request controls of (r, controls, out) \<Rightarrow> (Ok r, controls, out))
             else (Ok (respond_text ''404 Not Found'' ''not found''), controls, []))"

section \<open>Bounds of a request\<close>

lemma find_blank_line_Some:
  "find_blank_line bs = Some n \<Longrightarrow> n + 4 \<le> length bs \<and> take 4 (drop n bs) = blank_line"
proof (induction bs arbitrary: n)
  case (Cons b bs)
  show ?case
  proof (cases "take 4 (b # bs) = blank_line")
    case True
    then have "length (take 4 (b # bs)) = 4" by (simp add: blank_line_def)
    then show ?thesis using True Cons.prems by auto
  next
    case False
    then show ?thesis using Cons by auto
  qed
qed simp

lemma read_some_length: "read_some n es = (Ok bs, es') \<Longrightarrow> length bs \<le> n"
  by (cases "(n, es)" rule: read_some.cases) auto

lemma read_headers_bound:
  "read_headers request es = (Ok (header_end, request'), es') \<Longrightarrow> length request \<le> HTTP_HEADER_MAX_BYTES + 1023 \<Longrightarrow>
   find_blank_line request' = Some (header_end - 4) \<and> 4 \<le> header_end \<and> length request' \<le> HTTP_HEADER_MAX_BYTES + 1023"
proof (induction request es arbitrary: header_end request' es' rule: read_headers.induct)
  case (1 request es)
  show ?case
  proof (cases "find_blank_line request")
    case (Some n)
    then show ?thesis using "1.prems" by (auto simp: read_headers.simps [of request es])
  next
    case None
    then obtain bs es1 where r: "\<not> length request \<ge> HTTP_HEADER_MAX_BYTES" "read_some 1024 es = (Ok bs, es1)" "bs \<noteq> []"
      "read_headers (request @ bs) es1 = (Ok (header_end, request'), es')"
      using "1.prems"(1) by (auto simp: read_headers.simps [of request es] split: if_splits prod.splits sum.splits)
    then show ?thesis
      using "1.IH" [OF None r(1) r(2) [symmetric] refl r(3) r(4)] read_some_length [OF r(2)] by simp
  qed
qed

lemma read_body_bound:
  "read_body needed request es = (Ok request', es') \<Longrightarrow>
   needed \<le> length request' \<and> (length request \<le> needed \<longrightarrow> length request' = needed) \<and> take (length request) request' = request"
proof (induction needed request es arbitrary: request' es' rule: read_body.induct)
  case (1 needed request es)
  show ?case
  proof (cases "length request < needed")
    case False
    then show ?thesis using "1.prems" by (auto simp: read_body.simps [of needed request es])
  next
    case True
    then obtain bs es1 where r: "read_some (min (needed - length request) 1024) es = (Ok bs, es1)" "bs \<noteq> []"
      "read_body needed (request @ bs) es1 = (Ok request', es')"
      using "1.prems"(1) by (auto simp: read_body.simps [of needed request es] split: if_splits prod.splits sum.splits)
    have "length (request @ bs) \<le> needed"
      using read_some_length [OF r(1)] True by simp linarith
    moreover have "take (length request) (take (length (request @ bs)) request') = take (length request) request'"
      by (simp add: min_def)
    ultimately show ?thesis
      using "1.IH" [OF True r(1) [symmetric] refl r(2) r(3)] by (metis append_eq_conv_conj)
  qed
qed

section \<open>Properties\<close>

text \<open>
  A request that is read is bounded whatever the peer sends: the body never exceeds the length of
  an input message, and the method is one of the two that are served.
\<close>

theorem read_request_bounds:
  "case read_request es of
     Inl e \<Rightarrow> True
   | Inr request \<Rightarrow>
       length (http_body request) \<le> BROWSER_INPUT_MAX_BYTES \<and> http_method request \<in> {''GET'', ''POST''}"
proof -
  have m: "parse_head headers = Ok (meth, path, n) \<Longrightarrow> meth \<in> {''GET'', ''POST''}" for headers meth path n
    by (auto simp: parse_head_def rbind_eq_Ok split: list.splits if_splits)
  show ?thesis
  proof (cases "read_request es")
    case (Inr request)
    then show ?thesis
      by (auto simp: read_request_def rbind_eq_Ok Let_def split: prod.splits sum.splits if_splits dest!: m)
  qed simp
qed

text \<open>
  C21 Only a well-formed input message changes who controls the game or writes to it: a connection
  leaves the controls and the game alone, unless its request was a \<open>POST\<close> to \<open>/input\<close>
  with a run generation and a parseable message, and then what happens is what that message does.
\<close>

theorem only_input_requests_control_the_game:
  "case handle_http viewer_html snapshots now ok es controls of
     (answer, controls', out) \<Rightarrow>
       (controls' = controls \<and> out = [])
       \<or> (\<exists>request generation input n result.
           read_request es = Ok request \<and> http_method request = ''POST''
           \<and> http_path request = ''/input?generation='' @ generation
           \<and> parse_unsigned (2 ^ 64) generation = Some n
           \<and> parse_browser_input (to_text (http_body request)) = Ok input
           \<and> apply_input now ok input (of_nat n) controls = (result, controls', out)
           \<and> answer = Ok (input_response result))"
proof -
  obtain answer controls' out where h0: "handle_http viewer_html snapshots now ok es controls = (answer, controls', out)"
    by (metis prod_cases3)
  have "\<exists>request generation input n result.
           read_request es = Ok request \<and> http_method request = ''POST''
           \<and> http_path request = ''/input?generation='' @ generation
           \<and> parse_unsigned (2 ^ 64) generation = Some n
           \<and> parse_browser_input (to_text (http_body request)) = Ok input
           \<and> apply_input now ok input (of_nat n) controls = (result, controls', out)
           \<and> answer = Ok (input_response result)"
    if changed: "\<not> (controls' = controls \<and> out = [])"
  proof -
    obtain request where r: "read_request es = Ok request"
      using h0 changed by (cases "read_request es") (auto simp: handle_http_def)
    have h: "\<exists>r. handle_input now ok request controls = (r, controls', out) \<and> answer = Ok r"
      using h0 changed r by (auto simp: handle_http_def Let_def split: if_splits prod.splits)
    then obtain n where post: "http_method request = ''POST''"
      and n: "Option.bind (strip_prefix ''/input?generation='' (http_path request)) (parse_unsigned (2 ^ 64)) = Some n"
      using changed by (auto simp: handle_input_def split: if_splits option.splits)
    then obtain generation where g: "strip_prefix ''/input?generation='' (http_path request) = Some generation"
      "parse_unsigned (2 ^ 64) generation = Some n"
      by (auto simp: bind_eq_Some_conv)
    have path: "http_path request = ''/input?generation='' @ generation"
      using g(1) by (rule strip_prefix_Some)
    obtain input where i: "parse_browser_input (to_text (http_body request)) = Ok input"
      using h changed post n by (auto simp: handle_input_def split: sum.splits)
    then have "\<exists>result. apply_input now ok input (of_nat n) controls = (result, controls', out)
               \<and> answer = Ok (input_response result)"
      using h post n by (auto simp: handle_input_def split: prod.splits)
    then show ?thesis using r post path g(2) i by blast
  qed
  then show ?thesis unfolding h0 by auto
qed

end
