(* ===== verification/Source_Text.thy ===== *)
theory Source_Text
  imports Speck_Prelude
begin

text \<open>
  Spans, diagnostics and the source map: \<^verbatim>\<open>src/src/diagnostic.rs\<close> and
  \<^verbatim>\<open>src/src/source.rs\<close>. Offsets are byte offsets into the UTF-8 text of one file. A
  failed assertion (\<open>Span::merge\<close> of two files) is \<^const>\<open>None\<close>. Paths are the
  text they display as.
\<close>

section \<open>Spans and diagnostics\<close>

record span =
  span_source :: nat
  span_start :: nat
  span_end :: nat

definition source_default :: nat where
  "source_default = 0"

definition span_new :: "nat \<Rightarrow> nat \<Rightarrow> span" where
  "span_new start end = \<lparr>span_source = source_default, span_start = start, span_end = end\<rparr>"

definition span_default :: span where
  "span_default = span_new 0 0"

definition span_merge :: "span \<Rightarrow> span \<Rightarrow> span option" where
  "span_merge a b =
     (if span_source a = span_source b
      then Some \<lparr>span_source = span_source a, span_start = span_start a, span_end = span_end b\<rparr>
      else None)"

record diagnostic =
  message :: string
  diag_span :: span

definition diag :: "string \<Rightarrow> span \<Rightarrow> diagnostic" where
  "diag m s = \<lparr>message = m, diag_span = s\<rparr>"

lemma span_new_sel [simp]:
  "span_source (span_new a b) = source_default"
  "span_start (span_new a b) = a"
  "span_end (span_new a b) = b"
  by (simp_all add: span_new_def)

lemma diag_sel [simp]: "message (diag m s) = m" "diag_span (diag m s) = s"
  by (simp_all add: diag_def)

lemma span_merge_same:
  "span_source a = span_source b \<Longrightarrow>
   span_merge a b = Some \<lparr>span_source = span_source a, span_start = span_start a, span_end = span_end b\<rparr>"
  by (simp add: span_merge_def)

section \<open>Positions in a text\<close>

text \<open>\<open>str::find\<close> and \<open>str::rfind\<close> of one ASCII byte.\<close>

definition byte_positions :: "char \<Rightarrow> string \<Rightarrow> nat list" where
  "byte_positions b s = filter (\<lambda>i. s ! i = b) [0..<length s]"

definition find_byte :: "char \<Rightarrow> string \<Rightarrow> nat option" where
  "find_byte b s = (case byte_positions b s of [] \<Rightarrow> None | i # _ \<Rightarrow> Some i)"

definition rfind_byte :: "char \<Rightarrow> string \<Rightarrow> nat option" where
  "rfind_byte b s = (case rev (byte_positions b s) of [] \<Rightarrow> None | i # _ \<Rightarrow> Some i)"

definition slice :: "string \<Rightarrow> nat \<Rightarrow> nat \<Rightarrow> string" where
  "slice s i j = drop i (take j s)"

text \<open>The loop that moves an offset down to the character boundary at or before it.\<close>

fun floor_boundary :: "string \<Rightarrow> nat \<Rightarrow> nat" where
  "floor_boundary s 0 = 0"
| "floor_boundary s (Suc i) = (if is_char_boundary s (Suc i) then Suc i else floor_boundary s i)"

lemma floor_boundary_le: "floor_boundary s i \<le> i"
  by (induction i) auto

lemma floor_boundary_boundary: "is_char_boundary s (floor_boundary s i)"
  by (induction i) (auto simp: is_char_boundary_def)

lemma floor_boundary_greatest:
  "is_char_boundary s j \<Longrightarrow> j \<le> i \<Longrightarrow> j \<le> floor_boundary s i"
  by (induction i) (auto simp: le_Suc_eq)

section \<open>Rendering a diagnostic\<close>

definition line_start_of :: "string \<Rightarrow> nat \<Rightarrow> nat" where
  "line_start_of source start =
     (case rfind_byte newline (take start source) of None \<Rightarrow> 0 | Some index \<Rightarrow> index + 1)"

definition line_end_of :: "string \<Rightarrow> nat \<Rightarrow> nat" where
  "line_end_of source start =
     (case find_byte newline (drop start source) of None \<Rightarrow> length source | Some index \<Rightarrow> start + index)"

definition line_number_of :: "string \<Rightarrow> nat \<Rightarrow> nat" where
  "line_number_of source start = length (filter (\<lambda>b. b = newline) (take start source)) + 1"

definition column_of :: "string \<Rightarrow> nat \<Rightarrow> nat" where
  "column_of source start = chars_count (slice source (line_start_of source start) start) + 1"

text \<open>The four byte offsets the renderer slices the source at: start, line start, line end, end.\<close>

definition render_offsets :: "string \<Rightarrow> span \<Rightarrow> nat \<times> nat \<times> nat \<times> nat" where
  "render_offsets source sp =
     (let start = floor_boundary source (min (span_start sp) (length source));
          line_start = line_start_of source start;
          line_end = line_end_of source start;
          available = line_end - start;
          end = floor_boundary source (start + min (span_end sp - span_start sp) available)
      in (start, line_start, line_end, end))"

definition render :: "string \<Rightarrow> string \<Rightarrow> diagnostic \<Rightarrow> string" where
  "render path source d =
     (case render_offsets source (diag_span d) of (start, line_start, line_end, end) \<Rightarrow>
      let line_number = line_number_of source start;
          column = column_of source start;
          line = slice source line_start line_end;
          marker_offset = chars_count (slice source line_start start);
          marker_len = max (chars_count (slice source start end)) 1;
          pad = replicate (length (show_nat line_number)) CHR '' ''
      in path @ '':'' @ show_nat line_number @ '':'' @ show_nat column @ '': error: '' @ message d
         @ [newline] @ pad @ '' |'' @ [newline] @ show_nat line_number @ '' | '' @ line
         @ [newline] @ pad @ '' | '' @ replicate marker_offset CHR '' '' @ replicate marker_len CHR ''^'')"

section \<open>The source map\<close>

record source_file =
  sf_path :: string
  sf_text :: string
  sf_line_starts :: "nat list"

text \<open>
  One-based line and character column of a byte offset. \<open>partition_point\<close> on a list that is
  partitioned by the predicate is the length of the prefix that satisfies it.
\<close>

definition file_location :: "source_file \<Rightarrow> nat \<Rightarrow> nat \<times> nat" where
  "file_location f offset =
     (let offset = floor_boundary (sf_text f) (min offset (length (sf_text f)));
          line = length (takeWhile (\<lambda>start. start \<le> offset) (sf_line_starts f)) - 1
      in (line + 1, chars_count (slice (sf_text f) (sf_line_starts f ! line) offset) + 1))"

record source_map =
  sm_files :: "source_file list"
  sm_dependencies :: "string list"

definition source_map_empty :: source_map where
  "source_map_empty = \<lparr>sm_files = [], sm_dependencies = []\<rparr>"

definition record_dependency :: "string \<Rightarrow> source_map \<Rightarrow> source_map" where
  "record_dependency path m =
     (if path \<in> set (sm_dependencies m) then m
      else m\<lparr>sm_dependencies := sm_dependencies m @ [path]\<rparr>)"

definition line_starts_of :: "string \<Rightarrow> nat list" where
  "line_starts_of text = 0 # map (\<lambda>index. index + 1) (byte_positions newline text)"

definition source_add :: "string \<Rightarrow> string \<Rightarrow> source_map \<Rightarrow> nat \<times> source_map" where
  "source_add path text m =
     (length (sm_files m),
      m\<lparr>sm_files := sm_files m @ [\<lparr>sf_path = path, sf_text = text, sf_line_starts = line_starts_of text\<rparr>]\<rparr>)"

definition source_get :: "source_map \<Rightarrow> nat \<Rightarrow> source_file option" where
  "source_get m sid = (if sid < length (sm_files m) then Some (sm_files m ! sid) else None)"

definition map_location :: "source_map \<Rightarrow> span \<Rightarrow> (string \<times> nat \<times> nat) option" where
  "map_location m s =
     (case source_get m (span_source s) of
        None \<Rightarrow> None
      | Some file \<Rightarrow> (case file_location file (span_start s) of (line, column) \<Rightarrow> Some (sf_path file, line, column)))"

fun join :: "string \<Rightarrow> string list \<Rightarrow> string" where
  "join sep [] = []"
| "join sep [x] = x"
| "join sep (x # y # xs) = x @ sep @ join sep (y # xs)"

definition map_render :: "source_map \<Rightarrow> diagnostic list \<Rightarrow> string" where
  "map_render m ds =
     join [newline]
       (map (\<lambda>d. case source_get m (span_source (diag_span d)) of
                    Some file \<Rightarrow> render (sf_path file) (sf_text file) d
                  | None \<Rightarrow> ''error: '' @ message d) ds)"

section \<open>Lemmas\<close>

lemma byte_positions_take:
  "n \<le> length s \<Longrightarrow> byte_positions b (take n s) = filter (\<lambda>i. i < n) (byte_positions b s)"
proof -
  assume n: "n \<le> length s"
  then have "[0..<length s] = [0..<n] @ [n..<length s]"
    by (metis le_add_diff_inverse upt_add_eq_append zero_le)
  moreover have "filter (\<lambda>i. s ! i = b \<and> i < n) [n..<length s] = []"
    by (auto simp: filter_empty_conv)
  ultimately show ?thesis
    using n unfolding byte_positions_def
    by (auto simp: min_absorb2 intro!: filter_cong)
qed

lemma length_byte_positions: "length (byte_positions b s) = length (filter (\<lambda>c. c = b) s)"
proof (induction s rule: rev_induct)
  case (snoc x xs)
  have "byte_positions b (xs @ [x]) = byte_positions b xs @ (if x = b then [length xs] else [])"
    unfolding byte_positions_def by (auto simp: nth_append intro!: filter_cong)
  with snoc show ?case by simp
qed (simp add: byte_positions_def)

lemma sorted_byte_positions: "sorted (byte_positions b s)"
  unfolding byte_positions_def by (rule sorted_wrt_filter) simp

lemma byte_positions_bound: "i \<in> set (byte_positions b s) \<Longrightarrow> i < length s \<and> s ! i = b"
  by (auto simp: byte_positions_def)

lemma takeWhile_sorted_le:
  "sorted (xs :: nat list) \<Longrightarrow> takeWhile (\<lambda>x. x \<le> n) xs = filter (\<lambda>x. x \<le> n) xs"
  by (induction xs) (auto simp: empty_filter_conv)

lemma takeWhile_line_starts:
  assumes "n \<le> length s"
  shows "takeWhile (\<lambda>start. start \<le> n) (line_starts_of s) = line_starts_of (take n s)"
proof -
  have "sorted (line_starts_of s)"
    using sorted_byte_positions [of newline s]
    by (auto simp: line_starts_of_def sorted_map intro: sorted_wrt_mono_rel)
  then have "takeWhile (\<lambda>start. start \<le> n) (line_starts_of s) = filter (\<lambda>start. start \<le> n) (line_starts_of s)"
    by (rule takeWhile_sorted_le)
  also have "\<dots> = line_starts_of (take n s)"
    using assms by (simp add: line_starts_of_def byte_positions_take filter_map comp_def Suc_le_eq)
  finally show ?thesis .
qed

lemma rfind_byte_last:
  "rfind_byte b s = (if byte_positions b s = [] then None else Some (last (byte_positions b s)))"
  by (cases "byte_positions b s" rule: rev_cases) (auto simp: rfind_byte_def)

lemma line_start_of_last: "line_start_of s n = last (line_starts_of (take n s))"
  by (auto simp: line_start_of_def line_starts_of_def rfind_byte_last last_map)

lemma nth_takeWhile_last:
  assumes "takeWhile P xs \<noteq> []"
  shows "xs ! (length (takeWhile P xs) - 1) = last (takeWhile P xs)"
  using assms by (metis diff_less last_conv_nth length_greater_0_conv takeWhile_nth zero_less_one)

lemma line_start_of_le: "line_start_of s n \<le> n"
  by (auto simp: line_start_of_def rfind_byte_last Suc_le_eq split: option.splits
      dest!: last_in_set byte_positions_bound)


section \<open>Properties\<close>

text \<open>
  The two ways the program turns a byte offset into a line and a column agree: the line table
  with \<open>partition_point\<close> (used for run-time locations) and the newline count with
  \<open>rfind\<close> (used when a diagnostic is rendered).
\<close>

lemma file_location_eq:
  assumes "sf_line_starts f = line_starts_of (sf_text f)"
  shows "file_location f offset =
     (let start = floor_boundary (sf_text f) (min offset (length (sf_text f)))
      in (line_number_of (sf_text f) start, column_of (sf_text f) start))"
proof -
  let ?s = "sf_text f"
  let ?o = "floor_boundary ?s (min offset (length ?s))"
  have o: "?o \<le> length ?s"
    using floor_boundary_le [of ?s "min offset (length ?s)"] by simp
  let ?tw = "takeWhile (\<lambda>start. start \<le> ?o) (line_starts_of ?s)"
  have tw: "?tw = line_starts_of (take ?o ?s)"
    using o by (rule takeWhile_line_starts)
  have len: "length ?tw - 1 + 1 = line_number_of ?s ?o"
    unfolding tw by (simp add: line_starts_of_def line_number_of_def length_byte_positions)
  have "?tw \<noteq> []"
    by (simp add: tw line_starts_of_def)
  then have "line_starts_of ?s ! (length ?tw - 1) = line_start_of ?s ?o"
    using nth_takeWhile_last tw line_start_of_last by metis
  then show ?thesis
    using assms len by (simp add: file_location_def column_of_def Let_def)
qed

text \<open>
  C22 For every file and byte offset, the location a running program reports (looked up in the table
  of line starts) is the line and column at which a diagnostic at that offset is rendered.
\<close>

theorem location_agrees_with_render:
  "(case source_add path text m of (sid, m') \<Rightarrow>
      map_location m' \<lparr>span_source = sid, span_start = offset, span_end = e\<rparr>) =
   (let start = floor_boundary text (min offset (length text))
    in Some (path, line_number_of text start, column_of text start))"
  by (simp add: source_add_def map_location_def source_get_def file_location_eq Let_def)

text \<open>
  Rendering never cuts a character in two: every offset the renderer slices at is a character
  boundary of the source, and the offsets are in order.
\<close>

lemma boundary_after_ascii:
  assumes "utf8_valid s" and "i < length s" and "byte (s ! i) < 128" and "is_char_boundary s i"
  shows "is_char_boundary s (Suc i)"
proof (cases "Suc i = length s")
  case False
  have "utf8_valid (drop i s)"
    using assms(1,4) by (rule utf8_valid_drop_boundary)
  moreover have "utf8_width (drop i s) = Some 1"
    using assms(2,3) by (intro utf8_width_ascii) auto
  ultimately have "utf8_valid (drop 1 (drop i s))"
    using assms(2) by (simp add: utf8_valid.simps [of "drop i s"])
  then obtain n where "utf8_width (drop (Suc i) s) = Some n"
    using assms(2) False by (auto simp: utf8_valid.simps [of "drop (Suc i) s"] split: option.splits)
  then have "\<not> is_continuation (drop (Suc i) s ! 0)"
    by (auto dest: utf8_width_head)
  then show ?thesis
    using assms(2) False by (auto simp: is_char_boundary_def)
qed (simp add: is_char_boundary_def)

lemma newline_boundary: "i < length s \<Longrightarrow> s ! i = newline \<Longrightarrow> is_char_boundary s i"
  by (simp add: is_char_boundary_def is_continuation_def newline_def byte_def)

lemma line_start_boundary:
  assumes "utf8_valid s" and "n \<le> length s"
  shows "is_char_boundary s (line_start_of s n)"
proof (cases "rfind_byte newline (take n s)")
  case None
  then show ?thesis by (simp add: line_start_of_def is_char_boundary_def)
next
  case (Some i)
  then have "i \<in> set (byte_positions newline (take n s))"
    by (auto simp: rfind_byte_last split: if_splits)
  then have i: "i < length s" "s ! i = newline"
    by (auto dest!: byte_positions_bound)
  then have "is_char_boundary s (Suc i)"
    using assms(1) by (intro boundary_after_ascii newline_boundary) (auto simp: newline_def byte_def)
  with Some show ?thesis by (simp add: line_start_of_def)
qed

lemma line_end_boundary:
  assumes "n \<le> length s"
  shows "is_char_boundary s (line_end_of s n)" and "n \<le> line_end_of s n" and "line_end_of s n \<le> length s"
proof -
  have "is_char_boundary s (line_end_of s n) \<and> n \<le> line_end_of s n \<and> line_end_of s n \<le> length s"
  proof (cases "byte_positions newline (drop n s)")
    case Nil
    then show ?thesis
      using assms by (simp add: line_end_of_def find_byte_def is_char_boundary_def)
  next
    case (Cons i rest)
    then have "i \<in> set (byte_positions newline (drop n s))" by simp
    then have "n + i < length s" "s ! (n + i) = newline"
      by (auto dest!: byte_positions_bound)
    with Cons show ?thesis
      by (simp add: line_end_of_def find_byte_def newline_boundary)
  qed
  then show "is_char_boundary s (line_end_of s n)" "n \<le> line_end_of s n" "line_end_of s n \<le> length s"
    by blast+
qed

text \<open>
  C23 Rendering a diagnostic never cuts a character of the source in two, whatever its span: the
  offsets it slices at are character boundaries, in order, and within the line.
\<close>

theorem render_offsets_are_boundaries:
  assumes "utf8_valid source" and "render_offsets source sp = (start, line_start, line_end, end)"
  shows "is_char_boundary source start \<and> is_char_boundary source line_start \<and>
         is_char_boundary source line_end \<and> is_char_boundary source end \<and>
         line_start \<le> start \<and> start \<le> end \<and> end \<le> line_end \<and> line_end \<le> length source"
proof -
  define st where "st = floor_boundary source (min (span_start sp) (length source))"
  define k where "k = st + min (span_end sp - span_start sp) (line_end_of source st - st)"
  have "render_offsets source sp = (st, line_start_of source st, line_end_of source st, floor_boundary source k)"
    by (simp add: render_offsets_def st_def k_def Let_def)
  then have eqs: "start = st" "line_start = line_start_of source st" "line_end = line_end_of source st"
    "end = floor_boundary source k"
    using assms(2) by simp_all
  have st: "is_char_boundary source st" "st \<le> length source"
    using floor_boundary_boundary floor_boundary_le [of source "min (span_start sp) (length source)"]
    by (simp_all add: st_def)
  have "st \<le> k" "k \<le> line_end_of source st"
    using line_end_boundary [OF st(2)] by (simp_all add: k_def)
  then have "st \<le> end" "end \<le> line_end"
    using floor_boundary_greatest [OF st(1)] floor_boundary_le [of source k] eqs
    by (auto intro: order_trans)
  then show ?thesis
    using eqs st line_end_boundary [OF st(2)] line_start_boundary [OF assms(1) st(2)]
      line_start_of_le floor_boundary_boundary by simp
qed

theorem render_offsets_are_boundaries_witness:
  "render_offsets ''ab'' (span_new 1 2) = (1, 0, 2, 2) \<and> is_char_boundary ''ab'' 2"
proof -
  have v: "utf8_valid ''ab''" by code_simp
  have r: "render_offsets ''ab'' (span_new 1 2) = (1, 0, 2, 2)" by code_simp
  show ?thesis
    using render_offsets_are_boundaries [OF v r] r by blast
qed

end
