(* ===== verification/F32.thy ===== *)
theory F32
  imports Speck_Prelude
begin

text \<open>
  Rust's \<open>f32\<close>: IEEE 754 binary32, as its 32 bits. The language's arithmetic rounds the exact
  result to the nearest value, ties to even, so each operation here computes the exact result as a
  fraction in units of \<open>2 ^ -149\<close>, the smallest positive value, and rounds it once. The
  bits of a NaN result are not specified by the language; the model takes the canonical quiet NaN.
\<close>

type_synonym f32 = "32 word"
type_synonym i32 = "32 word"

section \<open>Fields and classes\<close>

definition f32_negative :: "f32 \<Rightarrow> bool" where
  "f32_negative w \<longleftrightarrow> 2 ^ 31 \<le> unat w"

definition f32_magnitude :: "f32 \<Rightarrow> nat" where
  "f32_magnitude w = unat w mod 2 ^ 31"

definition f32_exponent :: "f32 \<Rightarrow> nat" where
  "f32_exponent w = f32_magnitude w div 2 ^ 23"

definition f32_fraction :: "f32 \<Rightarrow> nat" where
  "f32_fraction w = f32_magnitude w mod 2 ^ 23"

definition f32_make :: "bool \<Rightarrow> nat \<Rightarrow> f32" where
  "f32_make neg bits = of_nat ((if neg then 2 ^ 31 else 0) + bits)"

definition infinity_bits :: nat where
  "infinity_bits = 255 * 2 ^ 23"

definition f32_is_nan :: "f32 \<Rightarrow> bool" where
  "f32_is_nan w \<longleftrightarrow> infinity_bits < f32_magnitude w"

definition f32_is_infinite :: "f32 \<Rightarrow> bool" where
  "f32_is_infinite w \<longleftrightarrow> f32_magnitude w = infinity_bits"

definition f32_is_finite :: "f32 \<Rightarrow> bool" where
  "f32_is_finite w \<longleftrightarrow> f32_magnitude w < infinity_bits"

definition f32_nan :: f32 where
  "f32_nan = f32_make False (infinity_bits + 2 ^ 22)"

definition f32_infinity :: "bool \<Rightarrow> f32" where
  "f32_infinity neg = f32_make neg infinity_bits"

definition f32_zero :: "bool \<Rightarrow> f32" where
  "f32_zero neg = f32_make neg 0"

text \<open>
  The absolute value in units of \<open>2 ^ -149\<close>. An infinity gets the value that follows the
  largest finite one, which keeps comparisons uniform.
\<close>

definition magnitude_units :: "nat \<Rightarrow> nat" where
  "magnitude_units b =
     (if b div 2 ^ 23 = 0 then b mod 2 ^ 23
      else (2 ^ 23 + b mod 2 ^ 23) * 2 ^ (b div 2 ^ 23 - 1))"

definition f32_units :: "f32 \<Rightarrow> nat" where
  "f32_units w = magnitude_units (f32_magnitude w)"

definition f32_scaled :: "f32 \<Rightarrow> int" where
  "f32_scaled w = (if f32_negative w then - int (f32_units w) else int (f32_units w))"

section \<open>Rounding\<close>

definition round_half_even :: "nat \<Rightarrow> nat \<Rightarrow> nat" where
  "round_half_even p q =
     (let n = p div q; r = p mod q
      in if 2 * r < q \<or> (2 * r = q \<and> even n) then n else n + 1)"

fun log2_floor :: "nat \<Rightarrow> nat" where
  "log2_floor n = (if n < 2 then 0 else Suc (log2_floor (n div 2)))"

declare log2_floor.simps [simp del]

text \<open>
  The magnitude bits of the fraction \<open>p / q\<close> of units: \<open>k\<close> is the power of two the
  24-bit significand is scaled by; a significand rounded up to \<open>2 ^ 24\<close> carries into the
  exponent field by itself.
\<close>

definition round_units :: "nat \<Rightarrow> nat \<Rightarrow> nat" where
  "round_units p q =
     (let k = (if p div q < 2 ^ 24 then 0 else log2_floor (p div q) - 23);
          bits = k * 2 ^ 23 + round_half_even p (q * 2 ^ k)
      in if infinity_bits \<le> bits then infinity_bits else bits)"

definition f32_of_ratio :: "bool \<Rightarrow> nat \<Rightarrow> nat \<Rightarrow> f32" where
  "f32_of_ratio neg p q = f32_make neg (round_units p q)"

section \<open>Arithmetic, comparison, conversion\<close>

definition f32_neg :: "f32 \<Rightarrow> f32" where
  "f32_neg a = f32_make (\<not> f32_negative a) (f32_magnitude a)"

definition f32_add :: "f32 \<Rightarrow> f32 \<Rightarrow> f32" where
  "f32_add a b =
     (if f32_is_nan a \<or> f32_is_nan b then f32_nan
      else if f32_is_infinite a then
        (if f32_is_infinite b \<and> f32_negative a \<noteq> f32_negative b then f32_nan else a)
      else if f32_is_infinite b then b
      else let s = f32_scaled a + f32_scaled b
           in if s = 0 then f32_zero (f32_negative a \<and> f32_negative b)
              else f32_of_ratio (s < 0) (nat \<bar>s\<bar>) 1)"

definition f32_sub :: "f32 \<Rightarrow> f32 \<Rightarrow> f32" where
  "f32_sub a b = f32_add a (f32_neg b)"

definition f32_mul :: "f32 \<Rightarrow> f32 \<Rightarrow> f32" where
  "f32_mul a b =
     (let neg = (f32_negative a \<noteq> f32_negative b)
      in if f32_is_nan a \<or> f32_is_nan b then f32_nan
         else if f32_is_infinite a \<or> f32_is_infinite b then
           (if f32_units a = 0 \<or> f32_units b = 0 then f32_nan else f32_infinity neg)
         else f32_of_ratio neg (f32_units a * f32_units b) (2 ^ 149))"

definition f32_div :: "f32 \<Rightarrow> f32 \<Rightarrow> f32" where
  "f32_div a b =
     (let neg = (f32_negative a \<noteq> f32_negative b)
      in if f32_is_nan a \<or> f32_is_nan b then f32_nan
         else if f32_is_infinite a then (if f32_is_infinite b then f32_nan else f32_infinity neg)
         else if f32_is_infinite b then f32_zero neg
         else if f32_units b = 0 then (if f32_units a = 0 then f32_nan else f32_infinity neg)
         else f32_of_ratio neg (f32_units a * 2 ^ 149) (f32_units b))"

definition f32_eq :: "f32 \<Rightarrow> f32 \<Rightarrow> bool" where
  "f32_eq a b \<longleftrightarrow> \<not> f32_is_nan a \<and> \<not> f32_is_nan b \<and> f32_scaled a = f32_scaled b"

definition f32_lt :: "f32 \<Rightarrow> f32 \<Rightarrow> bool" where
  "f32_lt a b \<longleftrightarrow> \<not> f32_is_nan a \<and> \<not> f32_is_nan b \<and> f32_scaled a < f32_scaled b"

definition f32_le :: "f32 \<Rightarrow> f32 \<Rightarrow> bool" where
  "f32_le a b \<longleftrightarrow> \<not> f32_is_nan a \<and> \<not> f32_is_nan b \<and> f32_scaled a \<le> f32_scaled b"

text \<open>\<open>value as f32\<close> of an integer, and the saturating-free truncation of a value in range.\<close>

definition f32_of_int :: "int \<Rightarrow> f32" where
  "f32_of_int v = f32_of_ratio (v < 0) (nat \<bar>v\<bar> * 2 ^ 149) 1"

definition f32_trunc :: "f32 \<Rightarrow> int" where
  "f32_trunc w =
     (if f32_negative w then - int (f32_units w div 2 ^ 149) else int (f32_units w div 2 ^ 149))"

text \<open>\<open>parse::<f32>\<close> of \<open>whole . fraction\<close>, both runs of decimal digits.\<close>

definition f32_parse_decimal :: "string \<Rightarrow> string \<Rightarrow> f32" where
  "f32_parse_decimal whole fraction =
     f32_of_ratio False (digits_value (whole @ fraction) * 2 ^ 149) (10 ^ length fraction)"

section \<open>Lemmas\<close>

lemma unat_f32_make:
  "bits < 2 ^ 31 \<Longrightarrow> unat (f32_make neg bits) = (if neg then 2 ^ 31 else 0) + bits"
  unfolding f32_make_def unat_of_nat by (simp add: take_bit_nat_eq_self)

lemma f32_make_fields:
  assumes "bits < 2 ^ 31"
  shows "f32_magnitude (f32_make neg bits) = bits" and "f32_negative (f32_make neg bits) = neg"
  using assms by (simp_all add: f32_magnitude_def f32_negative_def unat_f32_make)

lemma f32_make_self: "f32_make (f32_negative w) (f32_magnitude w) = w"
proof -
  have "unat w < 2 ^ 32"
    using unsigned_less [of w] by simp
  then have "(if f32_negative w then 2 ^ 31 else 0) + f32_magnitude w = unat w"
    unfolding f32_negative_def f32_magnitude_def by (auto simp: mod_if)
  then show ?thesis
    by (simp add: f32_make_def)
qed

lemma round_units_le: "round_units p q \<le> infinity_bits"
  by (simp add: round_units_def Let_def)

lemma infinity_bits_less: "infinity_bits < 2 ^ 31"
  by (simp add: infinity_bits_def)

lemma f32_of_ratio_fields:
  "f32_magnitude (f32_of_ratio neg p q) = round_units p q"
  "f32_negative (f32_of_ratio neg p q) = neg"
  using round_units_le [of p q] infinity_bits_less by (simp_all add: f32_of_ratio_def f32_make_fields)

lemma f32_of_ratio_not_nan: "\<not> f32_is_nan (f32_of_ratio neg p q)"
  using round_units_le [of p q] by (simp add: f32_is_nan_def f32_of_ratio_fields)

lemma log2_floor_unique: "2 ^ k \<le> n \<Longrightarrow> n < 2 ^ Suc k \<Longrightarrow> log2_floor n = k"
proof (induction k arbitrary: n)
  case 0
  then show ?case by (simp add: log2_floor.simps [of n])
next
  case (Suc k)
  have "2 \<le> n"
    using Suc.prems(1) by (metis one_le_numeral one_le_power order_trans power_Suc mult_le_mono2 mult_2_right numeral_One mult.right_neutral)
  moreover have "2 ^ k \<le> n div 2" "n div 2 < 2 ^ Suc k"
    using Suc.prems by auto
  ultimately show ?case
    using Suc.IH by (simp add: log2_floor.simps [of n])
qed

lemma log2_floor_bounds: "0 < n \<Longrightarrow> 2 ^ log2_floor n \<le> n \<and> n < 2 ^ Suc (log2_floor n)"
proof (induction n rule: log2_floor.induct)
  case (1 n)
  show ?case
  proof (cases "n < 2")
    case True
    with 1 show ?thesis by (simp add: log2_floor.simps [of n])
  next
    case False
    with 1 have "2 ^ log2_floor (n div 2) \<le> n div 2 \<and> n div 2 < 2 ^ Suc (log2_floor (n div 2))"
      by simp
    with False show ?thesis
      by (simp add: log2_floor.simps [of n]) linarith
  qed
qed

lemma round_half_even_exact: "0 < q \<Longrightarrow> round_half_even (m * q) q = m"
  by (simp add: round_half_even_def)

text \<open>A multiple of a power of two with a significand below \<open>2 ^ 24\<close> rounds to itself.\<close>

lemma round_units_exact:
  assumes "m < 2 ^ 24" and "round_units (m * 2 ^ j) 1 < infinity_bits"
  shows "magnitude_units (round_units (m * 2 ^ j) 1) = m * 2 ^ j"
proof -
  let ?p = "m * 2 ^ j"
  show ?thesis
  proof (cases "?p < 2 ^ 24")
    case True
    then have "round_units ?p 1 = ?p"
      by (simp add: round_units_def round_half_even_def infinity_bits_def)
    moreover have "magnitude_units ?p = ?p"
    proof (cases "?p < 2 ^ 23")
      case False
      then have "?p div 2 ^ 23 = 1"
        using True by (intro div_nat_eqI) simp_all
      moreover from this have "?p mod 2 ^ 23 = ?p - 2 ^ 23"
        by (metis minus_div_mult_eq_mod mult_1)
      ultimately show ?thesis using False by (simp add: magnitude_units_def)
    qed (simp add: magnitude_units_def)
    ultimately show ?thesis by simp
  next
    case False
    let ?l = "log2_floor ?p"
    define k where "k = ?l - 23"
    have l: "2 ^ ?l \<le> ?p" "?p < 2 ^ Suc ?l"
      using False log2_floor_bounds [of ?p] by (cases "m = 0"; simp)+
    have "24 \<le> ?l"
    proof (rule ccontr)
      assume "\<not> 24 \<le> ?l"
      then have "(2::nat) ^ Suc ?l \<le> 2 ^ 24" by (intro power_increasing) auto
      with l False show False by simp
    qed
    then have k: "?l = k + 23" by (simp add: k_def)
    then have kp: "2 ^ (k + 23) \<le> ?p" "?p < 2 ^ Suc (k + 23)"
      using l by (simp_all only: k)
    have "k \<le> j"
    proof (rule ccontr)
      assume "\<not> k \<le> j"
      then have "j + 24 \<le> ?l" using k by simp
      then have "(2::nat) ^ (j + 24) \<le> 2 ^ ?l" by (intro power_increasing) auto
      also have "\<dots> \<le> m * 2 ^ j" by (rule l)
      finally show False using assms(1) by (simp add: power_add)
    qed
    then obtain i where j: "j = k + i" using le_Suc_ex by blast
    let ?s = "m * 2 ^ i"
    have p: "?p = ?s * 2 ^ k" by (simp add: j power_add)
    have "2 ^ 23 * 2 ^ k \<le> ?s * 2 ^ k" "?s * 2 ^ k < 2 ^ 24 * 2 ^ k"
      using kp unfolding p by (simp_all add: power_add)
    then have s: "2 ^ 23 \<le> ?s" "?s < 2 ^ 24" by simp_all
    have "(if ?p div 1 < 2 ^ 24 then 0 else log2_floor (?p div 1) - 23) = k"
      using False by (simp add: k_def)
    moreover have "round_half_even ?p (1 * 2 ^ k) = ?s"
      unfolding p using round_half_even_exact [of "2 ^ k" ?s] by simp
    ultimately have bits: "round_units ?p 1 = k * 2 ^ 23 + ?s"
      using assms(2) unfolding round_units_def Let_def by (simp split: if_splits)
    obtain x where x: "?s = 2 ^ 23 + x"
      using s(1) le_Suc_ex by blast
    then have "x < 2 ^ 23" using s(2) by simp
    then have "(x + (k + 1) * 2 ^ 23) div 2 ^ 23 = k + 1" "(x + (k + 1) * 2 ^ 23) mod 2 ^ 23 = x"
      by (simp_all only: div_mult_self1 mod_mult_self1) simp_all
    moreover have "round_units ?p 1 = x + (k + 1) * 2 ^ 23"
      unfolding bits x by simp
    ultimately have "round_units ?p 1 div 2 ^ 23 = k + 1" "round_units ?p 1 mod 2 ^ 23 = ?s - 2 ^ 23"
      unfolding x by simp_all
    then show ?thesis
      using s by (simp add: magnitude_units_def p)
  qed
qed

text \<open>An integer below \<open>2 ^ 24\<close> survives the conversion to \<open>f32\<close> and back.\<close>

lemma round_units_small: "m < 2 ^ 24 \<Longrightarrow> round_units (m * 2 ^ 149) 1 < infinity_bits"
proof -
  assume m: "m < 2 ^ 24"
  let ?p = "m * 2 ^ 149"
  show ?thesis
  proof (cases "?p < 2 ^ 24")
    case True
    then show ?thesis by (simp add: round_units_def round_half_even_def infinity_bits_def)
  next
    case False
    let ?l = "log2_floor ?p"
    have "0 < ?p" using False by (cases "m = 0") simp_all
    then have l: "2 ^ ?l \<le> ?p" "?p < 2 ^ Suc ?l"
      using log2_floor_bounds [of ?p] by simp_all
    have "2 ^ ?l < (2 :: nat) ^ 173"
      using l(1) m by simp
    then have "?l < 173"
      by (simp only: power_strict_increasing_iff one_less_numeral_iff semiring_norm)
    then have k: "?l - 23 < 150" by simp
    have "?p div 2 ^ (?l - 23) \<le> 2 ^ 24"
    proof -
      have "?p < 2 ^ (24 + (?l - 23))"
        using l(2) by (rule less_le_trans) (intro power_increasing, auto)
      then have "?p < 2 ^ 24 * 2 ^ (?l - 23)" by (simp only: power_add)
      then show ?thesis by (simp add: less_mult_imp_div_less less_imp_le)
    qed
    then have "round_half_even ?p (2 ^ (?l - 23)) \<le> 2 ^ 24 + 1"
      by (simp add: round_half_even_def Let_def)
    with k show ?thesis
      using False by (simp add: round_units_def Let_def infinity_bits_def)
  qed
qed

lemma f32_of_int_trunc:
  assumes "\<bar>v\<bar> < 2 ^ 24"
  shows "f32_trunc (f32_of_int v) = v" and "f32_is_finite (f32_of_int v)"
proof -
  let ?m = "nat \<bar>v\<bar>"
  have m: "?m < 2 ^ 24" using assms by simp
  have u: "f32_units (f32_of_int v) = ?m * 2 ^ 149"
    using round_units_exact [OF m round_units_small [OF m]]
    by (simp add: f32_units_def f32_of_int_def f32_of_ratio_fields)
  have "f32_negative (f32_of_int v) = (v < 0)"
    by (simp add: f32_of_int_def f32_of_ratio_fields)
  then show "f32_trunc (f32_of_int v) = v"
    using u by (simp add: f32_trunc_def)
  show "f32_is_finite (f32_of_int v)"
    using round_units_small [OF m]
    by (simp add: f32_is_finite_def f32_of_int_def f32_of_ratio_fields)
qed

end
