(* ===== verification/Ast.thy ===== *)
theory Ast
  imports Source_Text Resolution F32
begin

text \<open>
  The syntax tree, \<^verbatim>\<open>src/src/ast.rs\<close>. An enum is a datatype whose constructors
  carry a two-letter prefix for the enum (\<open>Vt\<close> value type, \<open>Al\<close> array length,
  \<open>Rt\<close> return type, \<open>Cv\<close> constant value, \<open>Fk\<close> function kind, \<open>St\<close>
  statement, \<open>Ex\<close> expression, \<open>Ao\<close>, \<open>Uo\<close>, \<open>Bo\<close> operators); a
  struct is a record, except where it is part of the recursion of the tree. An \<open>i64\<close> literal
  is an \<^typ>\<open>int\<close>: the program only prints, compares and negates it, and the lexer
  bounds it.
\<close>

section \<open>Types\<close>

datatype array_length =
    AlLiteral int span
  | AlConstant string span
  | AlResolved nat
  | AlInvalid

datatype value_type =
    VtI32
  | VtF32
  | VtBool
  | VtStruct string
  | VtArray value_type array_length

definition array_length_span :: "array_length \<Rightarrow> span option" where
  "array_length_span l =
     (case l of AlLiteral v s \<Rightarrow> Some s | AlConstant n s \<Rightarrow> Some s | AlResolved n \<Rightarrow> None | AlInvalid \<Rightarrow> None)"

definition array_length_display :: "array_length \<Rightarrow> string" where
  "array_length_display l =
     (case l of AlLiteral v s \<Rightarrow> show_int v | AlConstant n s \<Rightarrow> n | AlResolved n \<Rightarrow> show_nat n
      | AlInvalid \<Rightarrow> ''<invalid>'')"

fun value_type_name :: "value_type \<Rightarrow> string" where
  "value_type_name VtI32 = ''i32''"
| "value_type_name VtF32 = ''f32''"
| "value_type_name VtBool = ''bool''"
| "value_type_name (VtStruct name) = name"
| "value_type_name (VtArray element len) =
     ''['' @ value_type_name element @ ''; '' @ array_length_display len @ '']''"

definition is_numeric :: "value_type \<Rightarrow> bool" where
  "is_numeric ty \<longleftrightarrow> ty = VtI32 \<or> ty = VtF32"

definition resolved_array :: "value_type \<Rightarrow> (value_type \<times> nat) option" where
  "resolved_array ty =
     (case ty of VtArray element (AlResolved n) \<Rightarrow> Some (element, n) | _ \<Rightarrow> None)"

fun has_invalid_array_length :: "value_type \<Rightarrow> bool" where
  "has_invalid_array_length (VtArray element len) =
     (len = AlInvalid \<or> has_invalid_array_length element)"
| "has_invalid_array_length _ = False"

datatype return_type =
    RtValue value_type
  | RtVoid

definition return_type_name :: "return_type \<Rightarrow> string" where
  "return_type_name t = (case t of RtValue ty \<Rightarrow> value_type_name ty | RtVoid \<Rightarrow> ''void'')"

definition return_value_type :: "return_type \<Rightarrow> value_type option" where
  "return_value_type t = (case t of RtValue ty \<Rightarrow> Some ty | RtVoid \<Rightarrow> None)"

section \<open>Constant values\<close>

datatype constant_value =
    CvI32 i32
  | CvF32 f32
  | CvBool bool
  | CvStruct string "(string \<times> constant_value) list"
  | CvArray value_type "constant_value list"

fun constant_value_ty :: "constant_value \<Rightarrow> value_type" where
  "constant_value_ty (CvI32 _) = VtI32"
| "constant_value_ty (CvF32 _) = VtF32"
| "constant_value_ty (CvBool _) = VtBool"
| "constant_value_ty (CvStruct name _) = VtStruct name"
| "constant_value_ty (CvArray element_type elements) =
     VtArray element_type (AlResolved (length elements))"

section \<open>Expressions and statements\<close>

datatype assign_op = AoSet | AoAdd | AoSubtract | AoMultiply | AoDivide | AoRemainder

datatype unary_op = UoNegate | UoNot

datatype binary_op =
    BoAdd | BoSubtract | BoMultiply | BoDivide | BoRemainder
  | BoEqual | BoNotEqual | BoLess | BoLessEqual | BoGreater | BoGreaterEqual
  | BoLogicalAnd | BoLogicalOr

datatype expr = Expr (expr_kind: expr_kind) (expr_span: span)
and expr_kind =
    ExI32 int
  | ExF32 f32
  | ExBool bool
  | ExArrayLiteral "expr list"
  | ExStructLiteral string "field_initializer list"
  | ExVariable string
  | ExIndex expr expr
  | ExField expr string span
  | ExUnary unary_op expr
  | ExBinary expr binary_op expr
  | ExCall string "expr list"
  | ExConversion value_type "expr list"
and field_initializer =
    FieldInitializer (fi_name: string) (fi_value: expr) (fi_span: span)

datatype stmt = Stmt (stmt_kind: stmt_kind) (stmt_span: span)
and stmt_kind =
    StLet string value_type expr
  | StAssign expr assign_op expr
  | StExpr expr
  | StIf expr "stmt list" "stmt list option"
  | StWhile expr "stmt list"
  | StFor string span expr expr "stmt list"
  | StReturn "expr option"

type_synonym block = "stmt list"

section \<open>Declarations\<close>

record sound_asset =
  sound_name :: string
  sound_path :: string
  sound_handle :: int
  sound_pcm :: "8 word list"
  sound_span :: span

record struct_field =
  field_name :: string
  field_ty :: value_type
  field_span :: span

record struct_decl =
  struct_decl_name :: string
  struct_fields :: "struct_field list"
  struct_span :: span

record constant_decl =
  constant_name :: string
  constant_ty :: value_type
  constant_init :: expr
  constant_val :: "constant_value option"
  constant_span :: span

record global_decl =
  global_name :: string
  global_ty :: value_type
  global_init :: expr
  global_val :: "constant_value option"
  global_span :: span

datatype function_kind = FkNamed | FkStart | FkUpdate | FkDraw

record param =
  param_name :: string
  param_ty :: value_type
  param_span :: span

record function_decl =
  function_name :: string
  function_kind :: function_kind
  function_params :: "param list"
  function_return_type :: return_type
  function_body :: block
  function_span :: span

record program =
  program_resolution :: resolution
  program_title :: string
  program_title_span :: span
  program_structs :: "struct_decl list"
  program_sounds :: "sound_asset list"
  program_constants :: "constant_decl list"
  program_globals :: "global_decl list"
  program_functions :: "function_decl list"

section \<open>Lemmas\<close>

lemma resolved_array_Some: "resolved_array ty = Some (e, n) \<longleftrightarrow> ty = VtArray e (AlResolved n)"
  by (auto simp: resolved_array_def split: value_type.splits array_length.splits)

lemma resolved_array_simps [simp]:
  "resolved_array VtI32 = None"
  "resolved_array VtF32 = None"
  "resolved_array VtBool = None"
  "resolved_array (VtStruct s) = None"
  "resolved_array (VtArray e (AlResolved n)) = Some (e, n)"
  by (simp_all add: resolved_array_def)

lemma is_numeric_simps [simp]:
  "is_numeric VtI32" "is_numeric VtF32" "\<not> is_numeric VtBool"
  "\<not> is_numeric (VtStruct s)" "\<not> is_numeric (VtArray e l)"
  by (simp_all add: is_numeric_def)

lemma constant_value_ty_resolved: "\<not> (\<exists>e l. constant_value_ty v = VtArray e l \<and> (\<forall>n. l \<noteq> AlResolved n))"
  by (cases v) auto

end
