(* ===== verification/Constant_Ops.thy ===== *)
theory Constant_Ops
  imports Ast
begin

text \<open>
  The operations on constant values: conversion, unary and binary operators
  (\<^verbatim>\<open>src/src/sema/constants.rs\<close>) and indexing and the depth check of aggregates
  (\<^verbatim>\<open>src/src/sema/constants/evaluation.rs\<close>). An \<open>i32\<close> is a 32-bit
  word read as a signed number; the checked operations of Rust give no value when the exact result
  does not fit.
\<close>

section \<open>Checked 32-bit arithmetic\<close>

definition i32_min :: int where
  "i32_min = - (2 ^ 31)"

definition i32_max :: int where
  "i32_max = 2 ^ 31 - 1"

definition fits_i32 :: "int \<Rightarrow> bool" where
  "fits_i32 v \<longleftrightarrow> i32_min \<le> v \<and> v \<le> i32_max"

definition i32_try_from :: "int \<Rightarrow> i32 option" where
  "i32_try_from v = (if fits_i32 v then Some (word_of_int v) else None)"

text \<open>Division truncates toward zero; the remainder has the sign of the dividend.\<close>

definition quot :: "int \<Rightarrow> int \<Rightarrow> int" where
  "quot a b = (if (a < 0) = (b < 0) then \<bar>a\<bar> div \<bar>b\<bar> else - (\<bar>a\<bar> div \<bar>b\<bar>))"

definition trunc_rem :: "int \<Rightarrow> int \<Rightarrow> int" where
  "trunc_rem a b = (if a < 0 then - (\<bar>a\<bar> mod \<bar>b\<bar>) else \<bar>a\<bar> mod \<bar>b\<bar>)"

definition checked_add :: "i32 \<Rightarrow> i32 \<Rightarrow> i32 option" where
  "checked_add a b = i32_try_from (sint a + sint b)"

definition checked_sub :: "i32 \<Rightarrow> i32 \<Rightarrow> i32 option" where
  "checked_sub a b = i32_try_from (sint a - sint b)"

definition checked_mul :: "i32 \<Rightarrow> i32 \<Rightarrow> i32 option" where
  "checked_mul a b = i32_try_from (sint a * sint b)"

definition checked_div :: "i32 \<Rightarrow> i32 \<Rightarrow> i32 option" where
  "checked_div a b = (if b = 0 then None else i32_try_from (quot (sint a) (sint b)))"

text \<open>\<open>checked_rem\<close> also fails where the division overflows.\<close>

definition checked_rem :: "i32 \<Rightarrow> i32 \<Rightarrow> i32 option" where
  "checked_rem a b =
     (if b = 0 \<or> (sint a = i32_min \<and> sint b = - 1) then None else Some (word_of_int (trunc_rem (sint a) (sint b))))"

definition checked_neg :: "i32 \<Rightarrow> i32 option" where
  "checked_neg a = i32_try_from (- sint a)"

section \<open>Conversion\<close>

definition safe_f32_to_i32 :: "f32 \<Rightarrow> i32" where
  "safe_f32_to_i32 v =
     (if f32_is_nan v then 0
      else if f32_le (f32_of_int (2 ^ 31)) v then word_of_int i32_max
      else if f32_le v (f32_of_int (- (2 ^ 31))) then word_of_int i32_min
      else word_of_int (f32_trunc v))"

definition convert_constant :: "value_type \<Rightarrow> constant_value \<Rightarrow> (string, constant_value) result" where
  "convert_constant target source =
     (case (target, source) of
        (VtI32, CvI32 v) \<Rightarrow> Ok (CvI32 v)
      | (VtF32, CvF32 v) \<Rightarrow> Ok (CvF32 v)
      | (VtF32, CvI32 v) \<Rightarrow> Ok (CvF32 (f32_of_int (sint v)))
      | (VtI32, CvF32 v) \<Rightarrow> Ok (CvI32 (safe_f32_to_i32 v))
      | (_, CvBool _) \<Rightarrow> Err ''cannot convert `bool` to a numeric type''
      | (VtBool, _) \<Rightarrow> Err ''numeric conversions may only target `i32` or `f32`''
      | (VtArray _ _, _) \<Rightarrow> Err ''arrays cannot be converted to numeric types''
      | (_, CvArray _ _) \<Rightarrow> Err ''arrays cannot be converted to numeric types''
      | (_, _) \<Rightarrow> Err ''struct values cannot be converted to numeric types'')"

section \<open>Operators\<close>

definition msg_overflow :: string where
  "msg_overflow = ''constant-expression overflow''"

definition i32_result :: "i32 option \<Rightarrow> (string, constant_value) result" where
  "i32_result r = rbind (ok_or msg_overflow r) (\<lambda>v. Ok (CvI32 v))"

definition evaluate_binary_i32 :: "i32 \<Rightarrow> binary_op \<Rightarrow> i32 \<Rightarrow> (string, constant_value) result" where
  "evaluate_binary_i32 left op right =
     (case op of
        BoAdd \<Rightarrow> i32_result (checked_add left right)
      | BoSubtract \<Rightarrow> i32_result (checked_sub left right)
      | BoMultiply \<Rightarrow> i32_result (checked_mul left right)
      | BoDivide \<Rightarrow> if right = 0 then Err ''division by zero in constant expression''
                     else i32_result (checked_div left right)
      | BoRemainder \<Rightarrow> if right = 0 then Err ''remainder by zero in constant expression''
                        else i32_result (checked_rem left right)
      | BoEqual \<Rightarrow> Ok (CvBool (left = right))
      | BoNotEqual \<Rightarrow> Ok (CvBool (left \<noteq> right))
      | BoLess \<Rightarrow> Ok (CvBool (sint left < sint right))
      | BoLessEqual \<Rightarrow> Ok (CvBool (sint left \<le> sint right))
      | BoGreater \<Rightarrow> Ok (CvBool (sint left > sint right))
      | BoGreaterEqual \<Rightarrow> Ok (CvBool (sint left \<ge> sint right))
      | BoLogicalAnd \<Rightarrow> Err ''Boolean operator requires `bool`''
      | BoLogicalOr \<Rightarrow> Err ''Boolean operator requires `bool`'')"

definition f32_result :: "f32 \<Rightarrow> (string, constant_value) result" where
  "f32_result r = (if f32_is_finite r then Ok (CvF32 r) else Err msg_overflow)"

definition evaluate_binary_f32 :: "f32 \<Rightarrow> binary_op \<Rightarrow> f32 \<Rightarrow> (string, constant_value) result" where
  "evaluate_binary_f32 left op right =
     (case op of
        BoRemainder \<Rightarrow> Err ''remainder requires `i32` operands''
      | BoDivide \<Rightarrow> if f32_eq right (f32_zero False) then Err ''division by zero in constant expression''
                     else f32_result (f32_div left right)
      | BoAdd \<Rightarrow> f32_result (f32_add left right)
      | BoSubtract \<Rightarrow> f32_result (f32_sub left right)
      | BoMultiply \<Rightarrow> f32_result (f32_mul left right)
      | BoEqual \<Rightarrow> Ok (CvBool (f32_eq left right))
      | BoNotEqual \<Rightarrow> Ok (CvBool (\<not> f32_eq left right))
      | BoLess \<Rightarrow> Ok (CvBool (f32_lt left right))
      | BoLessEqual \<Rightarrow> Ok (CvBool (f32_le left right))
      | BoGreater \<Rightarrow> Ok (CvBool (f32_lt right left))
      | BoGreaterEqual \<Rightarrow> Ok (CvBool (f32_le right left))
      | BoLogicalAnd \<Rightarrow> Err ''Boolean operator requires `bool`''
      | BoLogicalOr \<Rightarrow> Err ''Boolean operator requires `bool`'')"

definition evaluate_binary_bool :: "bool \<Rightarrow> binary_op \<Rightarrow> bool \<Rightarrow> (string, constant_value) result" where
  "evaluate_binary_bool left op right =
     (case op of
        BoEqual \<Rightarrow> Ok (CvBool (left = right))
      | BoNotEqual \<Rightarrow> Ok (CvBool (left \<noteq> right))
      | BoLogicalAnd \<Rightarrow> Ok (CvBool (left \<and> right))
      | BoLogicalOr \<Rightarrow> Ok (CvBool (left \<or> right))
      | _ \<Rightarrow> Err ''operator is not valid for `bool` constants'')"

definition evaluate_binary :: "constant_value \<Rightarrow> binary_op \<Rightarrow> constant_value \<Rightarrow> (string, constant_value) result" where
  "evaluate_binary left op right =
     (case (left, right) of
        (CvI32 a, CvI32 b) \<Rightarrow> evaluate_binary_i32 a op b
      | (CvF32 a, CvF32 b) \<Rightarrow> evaluate_binary_f32 a op b
      | (CvBool a, CvBool b) \<Rightarrow> evaluate_binary_bool a op b
      | _ \<Rightarrow> Err ''constant-expression operands must have the same type'')"

definition unary_value :: "unary_op \<Rightarrow> constant_value \<Rightarrow> (string, constant_value) result" where
  "unary_value op v =
     (case (op, v) of
        (UoNegate, CvI32 a) \<Rightarrow> i32_result (checked_neg a)
      | (UoNegate, CvF32 a) \<Rightarrow> if f32_is_finite a then Ok (CvF32 (f32_neg a)) else Err msg_overflow
      | (UoNot, CvBool b) \<Rightarrow> Ok (CvBool (\<not> b))
      | (UoNegate, _) \<Rightarrow> Err ''unary `-` requires a numeric constant''
      | (UoNot, _) \<Rightarrow> Err ''unary `!` requires `bool`'')"

definition err_index_bounds :: "i32 \<Rightarrow> nat \<Rightarrow> span \<Rightarrow> diagnostic" where
  "err_index_bounds index len span =
     diag (''constant index '' @ show_int (sint index) @ '' is out of bounds for length '' @ show_nat len) span"

definition index_value :: "constant_value \<Rightarrow> constant_value \<Rightarrow> span \<Rightarrow> (diagnostic, constant_value) result" where
  "index_value base index span =
     (case index of
        CvI32 i \<Rightarrow>
          (case base of
             CvArray _ elements \<Rightarrow>
               if 0 \<le> sint i \<and> nat (sint i) < length elements then Ok (elements ! nat (sint i))
               else Err (err_index_bounds i (length elements) span)
           | _ \<Rightarrow> Err (diag ''only arrays can be indexed'' span))
      | _ \<Rightarrow> Err (diag ''array index must be i32'' span))"

definition boolean_error :: "binary_op \<Rightarrow> span \<Rightarrow> diagnostic" where
  "boolean_error op span =
     diag (if op = BoLogicalAnd then ''`&&` requires `bool` constants'' else ''`||` requires `bool` constants'') span"

section \<open>The depth of aggregates\<close>

definition MAX_CONSTANT_AGGREGATE_DEPTH :: nat where
  "MAX_CONSTANT_AGGREGATE_DEPTH = 128"

definition err_aggregate_depth :: "span \<Rightarrow> diagnostic" where
  "err_aggregate_depth span =
     diag (''resolved constant aggregate nesting exceeds limit of '' @ show_nat MAX_CONSTANT_AGGREGATE_DEPTH) span"

definition is_aggregate :: "constant_value \<Rightarrow> bool" where
  "is_aggregate v \<longleftrightarrow> (case v of CvArray _ _ \<Rightarrow> True | CvStruct _ _ \<Rightarrow> True | _ \<Rightarrow> False)"

definition cv_children :: "constant_value \<Rightarrow> constant_value list" where
  "cv_children v = (case v of CvArray _ vs \<Rightarrow> vs | CvStruct _ fs \<Rightarrow> map snd fs | _ \<Rightarrow> [])"

lemma cv_children_size: "c \<in> set (cv_children v) \<Longrightarrow> size c < size v"
proof -
  have "c \<in> set vs \<Longrightarrow> size c < Suc (size_list size vs)" for vs
    by (induction vs) auto
  moreover have "c \<in> set (map snd fs) \<Longrightarrow> size c < Suc (size_list (size_prod (\<lambda>x. 0) size) fs)"
    for fs :: "(string \<times> constant_value) list"
    by (induction fs) force+
  ultimately show "c \<in> set (cv_children v) \<Longrightarrow> size c < size v"
    by (cases v) (auto simp: cv_children_def)
qed

text \<open>Nesting: a scalar has depth 0.\<close>

function cv_depth :: "constant_value \<Rightarrow> nat" where
  "cv_depth v = (if is_aggregate v then Suc (Max (insert 0 (set (map cv_depth (cv_children v))))) else 0)"
  by pat_completeness auto
termination
  by (relation "measure size") (simp_all add: cv_children_size)

declare cv_depth.simps [simp del]

text \<open>The explicit stack of \<open>check_aggregate_depth\<close>; the next value to look at is the head.\<close>

definition pending_size :: "(constant_value \<times> nat) list \<Rightarrow> nat" where
  "pending_size pending = sum_list (map (\<lambda>(v, _). Suc (size v)) pending)"

lemma children_total: "sum_list (map (\<lambda>v. Suc (size v)) (cv_children v)) \<le> size v"
proof -
  have "sum_list (map (\<lambda>v. Suc (size v)) vs) \<le> size_list size vs" for vs :: "constant_value list"
    by (induction vs) auto
  moreover have "sum_list (map (\<lambda>v. Suc (size v)) (map snd fs)) \<le> size_list (size_prod (\<lambda>x. 0) size) fs"
    for fs :: "(string \<times> constant_value) list"
    by (induction fs) auto
  ultimately show ?thesis
    by (cases v) (simp_all add: cv_children_def le_SucI)
qed

function depth_loop :: "span \<Rightarrow> (constant_value \<times> nat) list \<Rightarrow> (diagnostic, unit) result" where
  "depth_loop span [] = Ok ()"
| "depth_loop span ((v, parent_depth) # pending) =
     (if is_aggregate v then
        if parent_depth = MAX_CONSTANT_AGGREGATE_DEPTH then Err (err_aggregate_depth span)
        else depth_loop span (rev (map (\<lambda>c. (c, parent_depth + 1)) (cv_children v)) @ pending)
      else depth_loop span pending)"
  by pat_completeness auto
termination
proof (relation "measure (\<lambda>(span, pending). pending_size pending)", goal_cases)
  case (2 span v parent_depth pending)
  have "sum_list (map (\<lambda>(v, _). Suc (size v)) (map (\<lambda>c. (c, parent_depth + 1)) (cv_children v)))
        = sum_list (map (\<lambda>v. Suc (size v)) (cv_children v))"
    by (simp add: comp_def)
  then show ?case
    using children_total [of v] by (simp add: pending_size_def rev_map [symmetric])
qed (simp_all add: pending_size_def)

definition check_aggregate_depth :: "constant_value list \<Rightarrow> span \<Rightarrow> (diagnostic, unit) result" where
  "check_aggregate_depth children span = depth_loop span (rev (map (\<lambda>v. (v, 1)) children))"

section \<open>Lemmas\<close>

lemma cv_depth_scalar: "\<not> is_aggregate v \<Longrightarrow> cv_depth v = 0"
  by (simp add: cv_depth.simps [of v])

lemma cv_depth_le: "is_aggregate v \<Longrightarrow> cv_depth v \<le> Suc n \<longleftrightarrow> (\<forall>c \<in> set (cv_children v). cv_depth c \<le> n)"
  by (simp add: cv_depth.simps [of v])

lemma depth_loop_iff:
  "list_all (\<lambda>(v, d). d \<le> 128) pending \<Longrightarrow>
   depth_loop span pending =
     (if list_all (\<lambda>(v, d). cv_depth v + d \<le> 128) pending then Ok () else Err (err_aggregate_depth span))"
proof (induction span pending rule: depth_loop.induct)
  case (2 span v d pending)
  show ?case
  proof (cases "is_aggregate v")
    case False
    then show ?thesis using 2 by (simp add: cv_depth_scalar)
  next
    case True
    then obtain n where n: "cv_depth v = Suc n" by (simp add: cv_depth.simps [of v])
    show ?thesis
    proof (cases "d = 128")
      case True
      then show ?thesis using \<open>is_aggregate v\<close> n by (simp add: MAX_CONSTANT_AGGREGATE_DEPTH_def)
    next
      case False
      then have d: "d < 128" using "2.prems" by simp
      have children: "(\<forall>c \<in> set (cv_children v). cv_depth c + (d + 1) \<le> 128) \<longleftrightarrow> cv_depth v + d \<le> 128"
        using cv_depth_le [OF True, of "127 - d"] d by auto
      let ?more = "rev (map (\<lambda>c. (c, d + 1)) (cv_children v)) @ pending"
      have "list_all (\<lambda>(v, d). cv_depth v + d \<le> 128) ?more \<longleftrightarrow>
            cv_depth v + d \<le> 128 \<and> list_all (\<lambda>(v, d). cv_depth v + d \<le> 128) pending"
        using children by (simp add: list_all_iff ball_Un)
      moreover have "list_all (\<lambda>(v, d). d \<le> 128) ?more"
        using "2.prems" d by (auto simp: list_all_iff)
      ultimately show ?thesis
        using "2.IH"(1) [OF True] d True by (simp add: MAX_CONSTANT_AGGREGATE_DEPTH_def)
    qed
  qed
qed simp

lemma check_aggregate_depth_iff:
  "check_aggregate_depth children span =
     (if list_all (\<lambda>v. cv_depth v < 128) children then Ok () else Err (err_aggregate_depth span))"
proof -
  have "cv_depth v + 1 \<le> 128 \<longleftrightarrow> cv_depth v < 128" for v by auto
  then show ?thesis
    unfolding check_aggregate_depth_def by (subst depth_loop_iff) (simp_all add: list_all_iff)
qed

end
