(* ===== verification/Constant_Machine.thy ===== *)
theory Constant_Machine
  imports Constant_Ops "HOL-Library.Multiset"
begin

text \<open>
  Resumable evaluation of a constant expression, \<open>Evaluation\<close> of
  \<^verbatim>\<open>src/src/sema/constants/evaluation.rs\<close>: a stack of tasks and a stack of values,
  both with the top at the head of the list. The error type is the caller's, with the injection of
  diagnostics as \<open>from_diag\<close> (the \<open>From<Diagnostic>\<close> of the code); \<open>lookup\<close> is
  the caller's name lookup. A name that cannot be looked up leaves its task on the stack, so that the
  evaluation can be resumed.
\<close>

section \<open>Tasks\<close>

datatype task =
    TaExpression expr "value_type option"
  | TaArray value_type nat span
  | TaStruct string "string list" nat span
  | TaIndex span
  | TaField string span
  | TaUnary unary_op span
  | TaBinaryLeft binary_op expr span
  | TaBinaryFinish binary_op span
  | TaBooleanRight binary_op span
  | TaConversion value_type span

record evaluation =
  ev_tasks :: "task list"
  ev_values :: "constant_value list"

definition evaluation_new :: "expr \<Rightarrow> value_type option \<Rightarrow> evaluation" where
  "evaluation_new e expected = \<lparr>ev_tasks = [TaExpression e expected], ev_values = []\<rparr>"

section \<open>Messages\<close>

definition err_array_count :: "nat \<Rightarrow> nat \<Rightarrow> string" where
  "err_array_count len found =
     ''expected array length '' @ show_nat len @ '', found '' @ show_nat found @ '' elements''"

definition err_struct_expected :: "string \<Rightarrow> string \<Rightarrow> string" where
  "err_struct_expected expected name =
     ''expected struct `'' @ expected @ ''`, found struct literal `'' @ name @ ''`''"

definition err_unknown_struct :: "string \<Rightarrow> string" where
  "err_unknown_struct name = ''unknown struct type `'' @ name @ ''`''"

definition err_missing_field :: "string \<Rightarrow> string \<Rightarrow> string" where
  "err_missing_field field name = ''missing initializer for field `'' @ field @ ''` of `'' @ name @ ''`''"

definition err_no_field :: "string \<Rightarrow> string \<Rightarrow> string" where
  "err_no_field struct field = ''type `'' @ struct @ ''` has no field named `'' @ field @ ''`''"

definition err_constant_call :: "string \<Rightarrow> string" where
  "err_constant_call name = ''constant expressions cannot call function `'' @ name @ ''`''"

definition err_conversion_count :: "value_type \<Rightarrow> nat \<Rightarrow> string" where
  "err_conversion_count target n =
     ''conversion to `'' @ value_type_name target @ ''` expects 1 argument, but received '' @ show_nat n"

section \<open>Expanding an expression\<close>

definition i32_min_literal :: expr_kind where
  "i32_min_literal = ExI32 2147483648"

text \<open>The first initializer of each field; a declared field without one is an error.\<close>

definition field_initializer_of :: "field_initializer list \<Rightarrow> string \<Rightarrow> expr option" where
  "field_initializer_of inits name = map_option fi_value (find (\<lambda>f. fi_name f = name) inits)"

definition struct_children ::
  "span \<Rightarrow> struct_decl \<Rightarrow> string \<Rightarrow> field_initializer list \<Rightarrow> (diagnostic, (expr \<times> value_type) list) result" where
  "struct_children span declaration name inits =
     rmap (\<lambda>field. rbind
         (ok_or (diag (err_missing_field (field_name field) name) span) (field_initializer_of inits (field_name field)))
         (\<lambda>e. Ok (e, field_ty field)))
       (struct_fields declaration)"

definition struct_literal_children ::
  "(string, struct_decl) hash_map \<Rightarrow> value_type option \<Rightarrow> span \<Rightarrow> string \<Rightarrow> field_initializer list \<Rightarrow>
   (diagnostic, (expr \<times> value_type) list \<times> string list) result" where
  "struct_literal_children structs expected span name inits =
     (case expected of
        Some (VtStruct expected_name) \<Rightarrow>
          if name \<noteq> expected_name then Err (diag (err_struct_expected expected_name name) span)
          else rbind (ok_or (diag (err_unknown_struct name) span) (hm_get structs name)) (\<lambda>declaration.
            rbind (struct_children span declaration name inits) (\<lambda>children.
              Ok (children, map field_name (struct_fields declaration))))
      | _ \<Rightarrow> Err (diag ''struct literal requires a matching struct type annotation'' span))"

definition array_literal_element ::
  "value_type option \<Rightarrow> span \<Rightarrow> nat \<Rightarrow> (diagnostic, value_type) result" where
  "array_literal_element expected span found =
     (case Option.bind expected resolved_array of
        None \<Rightarrow> Err (diag ''array literal requires an explicit array type annotation'' span)
      | Some (element, len) \<Rightarrow>
          if found \<noteq> len then Err (diag (err_array_count len found) span) else Ok element)"

definition push_value :: "constant_value \<Rightarrow> evaluation \<Rightarrow> evaluation" where
  "push_value v ev = ev\<lparr>ev_values := v # ev_values ev\<rparr>"

definition push_tasks :: "task list \<Rightarrow> evaluation \<Rightarrow> evaluation" where
  "push_tasks ts ev = ev\<lparr>ev_tasks := ts @ ev_tasks ev\<rparr>"

definition expand ::
  "(string, struct_decl) hash_map \<Rightarrow> expr \<Rightarrow> value_type option \<Rightarrow> evaluation \<Rightarrow> (diagnostic, evaluation) result" where
  "expand structs e expected ev =
     (let span = expr_span e
      in case expr_kind e of
           ExI32 v \<Rightarrow>
             rbind (ok_or (diag ''integer literal does not fit in `i32`'' span) (i32_try_from v))
               (\<lambda>i. Ok (push_value (CvI32 i) ev))
         | ExF32 v \<Rightarrow>
             if f32_is_finite v then Ok (push_value (CvF32 v) ev)
             else Err (diag ''floating-point constant must be finite'' span)
         | ExBool b \<Rightarrow> Ok (push_value (CvBool b) ev)
         | ExArrayLiteral elements \<Rightarrow>
             rbind (array_literal_element expected span (length elements)) (\<lambda>element.
               Ok (push_tasks (map (\<lambda>e. TaExpression e (Some element)) elements
                               @ [TaArray element (length (ev_values ev)) span]) ev))
         | ExStructLiteral name inits \<Rightarrow>
             rbind (struct_literal_children structs expected span name inits) (\<lambda>(children, names).
               Ok (push_tasks (map (\<lambda>(e, ty). TaExpression e (Some ty)) children
                               @ [TaStruct name names (length (ev_values ev)) span]) ev))
         | ExVariable name \<Rightarrow> Ok ev
         | ExIndex base index \<Rightarrow>
             Ok (push_tasks [TaExpression base None, TaExpression index None, TaIndex span] ev)
         | ExField base name name_span \<Rightarrow> Ok (push_tasks [TaExpression base None, TaField name span] ev)
         | ExCall name args \<Rightarrow> Err (diag (err_constant_call name) span)
         | ExConversion target args \<Rightarrow>
             (case args of
                [arg] \<Rightarrow> Ok (push_tasks [TaExpression arg None, TaConversion target (expr_span arg)] ev)
              | _ \<Rightarrow> Err (diag (err_conversion_count target (length args)) span))
         | ExUnary op operand \<Rightarrow>
             if op = UoNegate \<and> expr_kind operand = i32_min_literal
             then Ok (push_value (CvI32 (word_of_int i32_min)) ev)
             else Ok (push_tasks [TaExpression operand None, TaUnary op span] ev)
         | ExBinary left op right \<Rightarrow>
             Ok (push_tasks [TaExpression left None, TaBinaryLeft op right span] ev))"

section \<open>One turn of the loop\<close>

definition map_diag :: "span \<Rightarrow> (string, 'a) result \<Rightarrow> (diagnostic, 'a) result" where
  "map_diag span r = (case r of Inl m \<Rightarrow> Inl (diag m span) | Inr a \<Rightarrow> Inr a)"

definition field_value :: "string \<Rightarrow> span \<Rightarrow> constant_value \<Rightarrow> (diagnostic, constant_value) result" where
  "field_value name span base =
     (case base of
        CvStruct struct_name inits \<Rightarrow>
          ok_or (diag (err_no_field struct_name name) span) (map_option snd (find (\<lambda>(f, v). f = name) inits))
      | _ \<Rightarrow> Err (diag ''only struct values have fields'' span))"

text \<open>
  The tasks other than expressions: they take their operands from the values. The missing cases of
  the values are the failed \<open>expect\<close> of \<open>pop\<close>.
\<close>

definition finish_task :: "task \<Rightarrow> evaluation \<Rightarrow> (diagnostic, evaluation) result option" where
  "finish_task t ev =
     (case (t, ev_values ev) of
        (TaArray element start span, values) \<Rightarrow>
          (let children = rev (take (length values - start) values)
           in Some (rbind (check_aggregate_depth children span) (\<lambda>_.
                Ok (ev\<lparr>ev_values := CvArray element children # drop (length values - start) values\<rparr>))))
      | (TaStruct name inits start span, values) \<Rightarrow>
          (let children = rev (take (length values - start) values)
           in Some (rbind (check_aggregate_depth children span) (\<lambda>_.
                Ok (ev\<lparr>ev_values := CvStruct name (zip inits children) # drop (length values - start) values\<rparr>))))
      | (TaIndex span, index # base # values) \<Rightarrow>
          Some (rbind (index_value base index span) (\<lambda>v. Ok (ev\<lparr>ev_values := v # values\<rparr>)))
      | (TaField name span, base # values) \<Rightarrow>
          Some (rbind (field_value name span base) (\<lambda>v. Ok (ev\<lparr>ev_values := v # values\<rparr>)))
      | (TaUnary op span, value # values) \<Rightarrow>
          Some (rbind (map_diag span (unary_value op value)) (\<lambda>v. Ok (ev\<lparr>ev_values := v # values\<rparr>)))
      | (TaConversion target span, value # values) \<Rightarrow>
          Some (rbind (map_diag span (convert_constant target value)) (\<lambda>v. Ok (ev\<lparr>ev_values := v # values\<rparr>)))
      | (TaBinaryLeft op right span, left # values) \<Rightarrow>
          (if op = BoLogicalAnd \<or> op = BoLogicalOr then
             (case left of
                CvBool b \<Rightarrow>
                  if b = (op = BoLogicalOr) then Some (Ok ev)
                  else Some (Ok (push_tasks [TaExpression right None, TaBooleanRight op span]
                                   (ev\<lparr>ev_values := values\<rparr>)))
              | _ \<Rightarrow> Some (Err (boolean_error op span)))
           else Some (Ok (push_tasks [TaExpression right None, TaBinaryFinish op span] ev)))
      | (TaBinaryFinish op span, right # left # values) \<Rightarrow>
          Some (rbind (map_diag span (evaluate_binary left op right)) (\<lambda>v. Ok (ev\<lparr>ev_values := v # values\<rparr>)))
      | (TaBooleanRight op span, values) \<Rightarrow>
          (case values of
             CvBool _ # _ \<Rightarrow> Some (Ok ev)
           | _ \<Rightarrow> Some (Err (boolean_error op span)))
      | _ \<Rightarrow> None)"

text \<open>
  A turn pops a task. It panics (\<^const>\<open>None\<close>), fails with the evaluation that is left, or
  goes on. The callers resume an evaluation only after a failed lookup; after a diagnostic they drop
  it, and the operands a failing task has already popped are still shown in what is left.
\<close>

definition ev_step ::
  "(diagnostic \<Rightarrow> 'e) \<Rightarrow> (string, struct_decl) hash_map \<Rightarrow> (string \<Rightarrow> span \<Rightarrow> ('e, constant_value) result) \<Rightarrow>
   task \<Rightarrow> evaluation \<Rightarrow> ('e \<times> evaluation, evaluation) result option" where
  "ev_step from_diag structs lookup t ev =
     (case t of
        TaExpression e expected \<Rightarrow>
          (case expr_kind e of
             ExVariable name \<Rightarrow>
               (case lookup name (expr_span e) of
                  Inr v \<Rightarrow> Some (Ok (push_value v ev))
                | Inl error \<Rightarrow> Some (Err (error, push_tasks [t] ev)))
           | _ \<Rightarrow>
               (case expand structs e expected ev of
                  Inr ev' \<Rightarrow> Some (Ok ev')
                | Inl d \<Rightarrow> Some (Err (from_diag d, ev))))
      | _ \<Rightarrow>
          (case finish_task t ev of
             None \<Rightarrow> None
           | Some (Inl d) \<Rightarrow> Some (Err (from_diag d, ev))
           | Some (Inr ev') \<Rightarrow> Some (Ok ev')))"

section \<open>Running\<close>

text \<open>
  The loop ends because a turn replaces a task by tasks on smaller expressions, however many: struct
  literals may repeat a field initializer when a declaration repeats a field.
\<close>

fun task_size :: "task \<Rightarrow> nat" where
  "task_size (TaExpression e _) = 2 * size e + 1"
| "task_size (TaBinaryLeft _ right _) = 2 * size right + 2"
| "task_size _ = 0"

definition task_order :: "(task list \<times> task list) set" where
  "task_order = inv_image (mult less_than) (\<lambda>ts. mset (map task_size ts))"

lemma wf_task_order: "wf task_order"
  by (simp add: task_order_def wf_mult)

lemma task_order_replace:
  assumes "\<And>t'. t' \<in> set new \<Longrightarrow> task_size t' < task_size t"
  shows "(new @ ts, t # ts) \<in> task_order"
proof -
  let ?K = "mset (map task_size new)"
  have "(mset (map task_size ts) + ?K, mset (map task_size ts) + {#task_size t#}) \<in> mult less_than"
    using assms by (intro one_step_implies_mult) auto
  then show ?thesis
    by (simp add: task_order_def add.commute)
qed

lemma size_list_member: "x \<in> set xs \<Longrightarrow> f x < size_list f xs"
  by (induction xs) auto

lemma field_initializer_size:
  "field_initializer_of inits n = Some e \<Longrightarrow> size e < size_list size inits"
proof -
  assume "field_initializer_of inits n = Some e"
  then obtain f where f: "f \<in> set inits" "fi_value f = e"
    by (auto simp: field_initializer_of_def find_Some_iff in_set_conv_nth)
  have "size (fi_value f) < size f" by (cases f) simp
  then show ?thesis using size_list_member [OF f(1), of size] f(2) by simp
qed

lemma struct_literal_children_size:
  assumes "struct_literal_children structs expected span n inits = Ok (children, names)" and "(e, ty) \<in> set children"
  shows "size e < size_list size inits"
  using assms
  by (auto simp: struct_literal_children_def struct_children_def rbind_eq_Ok ok_or_def
      split: option.splits value_type.splits if_splits dest!: rmap_Ok_set field_initializer_size)

lemma expand_tasks:
  assumes "expand structs e expected ev = Ok ev'"
  shows "\<exists>new. ev_tasks ev' = new @ ev_tasks ev \<and> (\<forall>t \<in> set new. task_size t < 2 * size e + 1)"
proof (cases e)
  case (Expr k span)
  have new: "ev_tasks ev' = new @ ev_tasks ev \<Longrightarrow> \<forall>t \<in> set new. task_size t < 2 * size e + 1 \<Longrightarrow> ?thesis" for new
    by blast
  show ?thesis
  proof (cases k)
    case (ExArrayLiteral elements)
    then obtain element where "ev_tasks ev' = (map (\<lambda>e. TaExpression e (Some element)) elements
                               @ [TaArray element (length (ev_values ev)) span]) @ ev_tasks ev"
      using assms Expr by (auto simp: expand_def Let_def push_tasks_def rbind_eq_Ok)
    then show ?thesis
      using Expr ExArrayLiteral size_list_member [of _ elements size] by (intro new) fastforce+
  next
    case (ExStructLiteral name inits)
    then obtain children names where c: "struct_literal_children structs expected span name inits = Ok (children, names)"
      "ev_tasks ev' = (map (\<lambda>(e, ty). TaExpression e (Some ty)) children
                       @ [TaStruct name names (length (ev_values ev)) span]) @ ev_tasks ev"
      using assms Expr by (auto simp: expand_def Let_def push_tasks_def rbind_eq_Ok)
    show ?thesis
      using Expr ExStructLiteral struct_literal_children_size [OF c(1)] by (intro new [OF c(2)]) fastforce
  next
    case (ExIndex base index)
    then show ?thesis
      using assms Expr by (intro new [of "[TaExpression base None, TaExpression index None, TaIndex span]"])
        (auto simp: expand_def Let_def push_tasks_def)
  next
    case (ExField base name name_span)
    then show ?thesis
      using assms Expr by (intro new [of "[TaExpression base None, TaField name span]"])
        (auto simp: expand_def Let_def push_tasks_def)
  next
    case (ExUnary op operand)
    then show ?thesis
      using assms Expr
      by (intro new [of "if op = UoNegate \<and> expr_kind operand = i32_min_literal then []
                         else [TaExpression operand None, TaUnary op span]"])
        (auto simp: expand_def Let_def push_tasks_def push_value_def split: if_splits)
  next
    case (ExBinary left op right)
    then show ?thesis
      using assms Expr by (intro new [of "[TaExpression left None, TaBinaryLeft op right span]"])
        (auto simp: expand_def Let_def push_tasks_def)
  next
    case (ExConversion target args)
    then obtain arg where "args = [arg]"
      using assms Expr by (auto simp: expand_def Let_def split: list.splits)
    then show ?thesis
      using assms Expr ExConversion by (intro new [of "[TaExpression arg None, TaConversion target (expr_span arg)]"])
        (auto simp: expand_def Let_def push_tasks_def)
  qed (use assms Expr in \<open>auto simp: expand_def Let_def push_value_def rbind_eq_Ok split: if_splits\<close>)
qed

lemma finish_task_tasks:
  assumes "finish_task t ev = Some (Ok ev')"
  shows "\<exists>new. ev_tasks ev' = new @ ev_tasks ev \<and> (\<forall>t' \<in> set new. task_size t' < task_size t)"
  using assms
  by (cases t)
     (auto simp: finish_task_def Let_def push_tasks_def rbind_eq_Ok split: list.splits if_splits constant_value.splits)

lemma ev_step_tasks:
  assumes "ev_step from_diag structs lookup t ev = Some (Ok ev')"
  shows "(ev_tasks ev', t # ev_tasks ev) \<in> task_order"
proof -
  have "\<exists>new. ev_tasks ev' = new @ ev_tasks ev \<and> (\<forall>t' \<in> set new. task_size t' < task_size t)"
  proof (cases "\<exists>e expected. t = TaExpression e expected")
    case True
    then obtain e expected where t: "t = TaExpression e expected" by blast
    show ?thesis
    proof (cases "\<exists>n. expr_kind e = ExVariable n")
      case True
      then show ?thesis
        using assms t by (auto simp: ev_step_def push_value_def split: sum.splits)
    next
      case False
      then have "expand structs e expected ev = Ok ev'"
        using assms t by (auto simp: ev_step_def split: sum.splits expr_kind.splits)
      then show ?thesis using expand_tasks t by fastforce
    qed
  next
    case False
    then have "finish_task t ev = Some (Ok ev')"
      using assms by (cases t) (auto simp: ev_step_def split: option.splits sum.splits)
    then show ?thesis by (rule finish_task_tasks)
  qed
  then show ?thesis using task_order_replace by metis
qed

text \<open>
  \<open>resume\<close>: the result and the evaluation as it is left. \<^const>\<open>None\<close> is a panic
  (values out of balance), which never happens from \<^const>\<open>evaluation_new\<close>.
\<close>

function resume ::
  "(diagnostic \<Rightarrow> 'e) \<Rightarrow> (string, struct_decl) hash_map \<Rightarrow> (string \<Rightarrow> span \<Rightarrow> ('e, constant_value) result) \<Rightarrow>
   evaluation \<Rightarrow> (('e, constant_value) result \<times> evaluation) option" where
  "resume from_diag structs lookup ev =
     (case ev_tasks ev of
        [] \<Rightarrow> (case ev_values ev of [] \<Rightarrow> None | v # vs \<Rightarrow> Some (Ok v, ev\<lparr>ev_values := vs\<rparr>))
      | t # ts \<Rightarrow>
          (case ev_step from_diag structs lookup t (ev\<lparr>ev_tasks := ts\<rparr>) of
             None \<Rightarrow> None
           | Some (Inl (error, ev')) \<Rightarrow> Some (Err error, ev')
           | Some (Inr ev') \<Rightarrow> resume from_diag structs lookup ev'))"
  by pat_completeness auto
termination
proof (relation "inv_image task_order (\<lambda>(from_diag, structs, lookup, ev). ev_tasks ev)")
  show "wf (inv_image task_order (\<lambda>(from_diag, structs, lookup, ev). ev_tasks ev))"
    by (intro wf_inv_image wf_task_order)
qed (use ev_step_tasks in fastforce)

declare resume.simps [simp del]

section \<open>Evaluation as a recursive function\<close>

definition lift_diag :: "(diagnostic \<Rightarrow> 'e) \<Rightarrow> (diagnostic, 'a) result \<Rightarrow> ('e, 'a) result" where
  "lift_diag from_diag r = (case r of Inl d \<Rightarrow> Inl (from_diag d) | Inr a \<Rightarrow> Inr a)"

lemma lift_diag_simps [simp]: "lift_diag f (Inl d) = Inl (f d)" "lift_diag f (Inr a) = Inr a"
  by (simp_all add: lift_diag_def)

lemma lift_diag_Ok [simp]: "lift_diag f r = Inr a \<longleftrightarrow> r = Inr a"
  by (cases r) simp_all

text \<open>What an expression evaluates to: operands from left to right, up to the first error.\<close>

function eval ::
  "(diagnostic \<Rightarrow> 'e) \<Rightarrow> (string, struct_decl) hash_map \<Rightarrow> (string \<Rightarrow> span \<Rightarrow> ('e, constant_value) result) \<Rightarrow>
   value_type option \<Rightarrow> expr \<Rightarrow> ('e, constant_value) result" where
  "eval from_diag structs lookup expected (Expr kind span) =
     (case kind of
        ExI32 v \<Rightarrow>
          lift_diag from_diag (rbind (ok_or (diag ''integer literal does not fit in `i32`'' span) (i32_try_from v))
            (\<lambda>i. Ok (CvI32 i)))
      | ExF32 v \<Rightarrow>
          if f32_is_finite v then Ok (CvF32 v)
          else Err (from_diag (diag ''floating-point constant must be finite'' span))
      | ExBool b \<Rightarrow> Ok (CvBool b)
      | ExArrayLiteral elements \<Rightarrow>
          rbind (lift_diag from_diag (array_literal_element expected span (length elements))) (\<lambda>element.
            rbind (rmap (\<lambda>e. eval from_diag structs lookup (Some element) e) elements) (\<lambda>values.
              rbind (lift_diag from_diag (check_aggregate_depth values span)) (\<lambda>_. Ok (CvArray element values))))
      | ExStructLiteral name inits \<Rightarrow>
          (case struct_literal_children structs expected span name inits of
             Inl d \<Rightarrow> Err (from_diag d)
           | Inr (children, names) \<Rightarrow>
               rbind (rmap (\<lambda>(e, ty). eval from_diag structs lookup (Some ty) e) children) (\<lambda>values.
                 rbind (lift_diag from_diag (check_aggregate_depth values span)) (\<lambda>_.
                   Ok (CvStruct name (zip names values)))))
      | ExVariable name \<Rightarrow> lookup name span
      | ExIndex base index \<Rightarrow>
          rbind (eval from_diag structs lookup None base) (\<lambda>b.
            rbind (eval from_diag structs lookup None index) (\<lambda>i. lift_diag from_diag (index_value b i span)))
      | ExField base name _ \<Rightarrow>
          rbind (eval from_diag structs lookup None base) (\<lambda>b. lift_diag from_diag (field_value name span b))
      | ExCall name args \<Rightarrow> Err (from_diag (diag (err_constant_call name) span))
      | ExConversion target args \<Rightarrow>
          (case args of
             [arg] \<Rightarrow>
               rbind (eval from_diag structs lookup None arg) (\<lambda>v.
                 lift_diag from_diag (map_diag (expr_span arg) (convert_constant target v)))
           | _ \<Rightarrow> Err (from_diag (diag (err_conversion_count target (length args)) span)))
      | ExUnary op operand \<Rightarrow>
          if op = UoNegate \<and> expr_kind operand = i32_min_literal then Ok (CvI32 (word_of_int i32_min))
          else rbind (eval from_diag structs lookup None operand) (\<lambda>v.
                 lift_diag from_diag (map_diag span (unary_value op v)))
      | ExBinary left op right \<Rightarrow>
          rbind (eval from_diag structs lookup None left) (\<lambda>l.
            if op = BoLogicalAnd \<or> op = BoLogicalOr then
              (case l of
                 CvBool b \<Rightarrow>
                   if b = (op = BoLogicalOr) then Ok l
                   else rbind (eval from_diag structs lookup None right) (\<lambda>r.
                          case r of CvBool _ \<Rightarrow> Ok r | _ \<Rightarrow> Err (from_diag (boolean_error op span)))
               | _ \<Rightarrow> Err (from_diag (boolean_error op span)))
            else rbind (eval from_diag structs lookup None right) (\<lambda>r.
                   lift_diag from_diag (map_diag span (evaluate_binary l op r)))))"
  by pat_completeness auto
termination
proof (relation "measure (\<lambda>(from_diag, structs, lookup, expected, e). size e)")
  show "wf (measure (\<lambda>(from_diag :: diagnostic \<Rightarrow> 'e, structs :: (string, struct_decl) hash_map,
      lookup :: string \<Rightarrow> span \<Rightarrow> ('e, constant_value) result, expected :: value_type option, e :: expr). size e))"
    by simp
qed (auto dest: struct_literal_children_size size_list_member [where f = size])

declare eval.simps [simp del]

end
