(* ===== verification/Constant_Eval.thy ===== *)
theory Constant_Eval
  imports Constant_Machine
begin

text \<open>
  Correctness of the resumable evaluation: the stack machine \<^const>\<open>resume\<close> computes the
  recursive function \<^const>\<open>eval\<close>, never runs out of operands, and an evaluation that was
  suspended by a failed lookup continues to what an evaluation from scratch would have given.
\<close>

section \<open>Runs\<close>

definition ev_of :: "task list \<Rightarrow> constant_value list \<Rightarrow> evaluation" where
  "ev_of ts vs = \<lparr>ev_tasks = ts, ev_values = vs\<rparr>"

lemma ev_of_sel [simp]:
  "ev_tasks (ev_of ts vs) = ts" "ev_values (ev_of ts vs) = vs"
  "ev_of ts vs\<lparr>ev_tasks := ts'\<rparr> = ev_of ts' vs" "ev_of ts vs\<lparr>ev_values := vs'\<rparr> = ev_of ts vs'"
  "push_value v (ev_of ts vs) = ev_of ts (v # vs)" "push_tasks ts' (ev_of ts vs) = ev_of (ts' @ ts) vs"
  by (simp_all add: ev_of_def push_value_def push_tasks_def)

lemma ev_of_eta [simp]: "ev_of (ev_tasks ev) (ev_values ev) = ev"
  by (simp add: ev_of_def)

text \<open>The outcome of a run, forgetting the evaluation that is left.\<close>

definition runs ::
  "(diagnostic \<Rightarrow> 'e) \<Rightarrow> (string, struct_decl) hash_map \<Rightarrow> (string \<Rightarrow> span \<Rightarrow> ('e, constant_value) result) \<Rightarrow>
   task list \<Rightarrow> constant_value list \<Rightarrow> ('e, constant_value) result option" where
  "runs from_diag structs lookup ts vs = map_option fst (resume from_diag structs lookup (ev_of ts vs))"

definition after :: "('e, 'a) result \<Rightarrow> ('a \<Rightarrow> ('e, 'b) result option) \<Rightarrow> ('e, 'b) result option" where
  "after r k = (case r of Inl e \<Rightarrow> Some (Inl e) | Inr a \<Rightarrow> k a)"

lemma after_simps [simp]:
  "after (Inl e) k = Some (Inl e)" "after (Inr a) k = k a"
  by (simp_all add: after_def)

lemma after_rbind: "after (rbind r f) k = after r (\<lambda>a. after (f a) k)"
  by (cases r) simp_all

lemma after_cong: "\<lbrakk>r = r'; \<And>a. r' = Inr a \<Longrightarrow> k a = k' a\<rbrakk> \<Longrightarrow> after r k = after r' k'"
  by (cases r') auto

lemma after_Ok: "after r (\<lambda>a. Some (Inr a)) = Some r"
  by (cases r) simp_all

lemma lift_diag_rbind: "lift_diag g (rbind r f) = rbind (lift_diag g r) (\<lambda>a. lift_diag g (f a))"
  by (cases r) simp_all

lemma resume_step:
  "resume from_diag structs lookup (ev_of (t # ts) vs) =
     (case ev_step from_diag structs lookup t (ev_of ts vs) of
        None \<Rightarrow> None
      | Some (Inl (error, ev')) \<Rightarrow> Some (Err error, ev')
      | Some (Inr ev') \<Rightarrow> resume from_diag structs lookup ev')"
  by (simp add: resume.simps [of from_diag structs lookup "ev_of (t # ts) vs"])

lemma runs_done: "runs from_diag structs lookup [] [v] = Some (Ok v)"
  by (simp add: runs_def resume.simps [of from_diag structs lookup "ev_of [] [v]"])

lemma runs_finish:
  "\<nexists>e ex. t = TaExpression e ex \<Longrightarrow>
   runs from_diag structs lookup (t # ts) vs =
     (case finish_task t (ev_of ts vs) of
        None \<Rightarrow> None
      | Some r \<Rightarrow> after (lift_diag from_diag r)
          (\<lambda>ev'. runs from_diag structs lookup (ev_tasks ev') (ev_values ev')))"
  by (cases t)
     (auto simp: runs_def resume_step ev_step_def
       split: option.splits sum.splits)

lemma runs_expand:
  "\<nexists>n. expr_kind e = ExVariable n \<Longrightarrow>
   runs from_diag structs lookup (TaExpression e ex # ts) vs =
     after (lift_diag from_diag (expand structs e ex (ev_of ts vs)))
       (\<lambda>ev'. runs from_diag structs lookup (ev_tasks ev') (ev_values ev'))"
  by (cases "expr_kind e")
     (auto simp: runs_def resume_step
       ev_step_def split: option.splits sum.splits)

lemma runs_variable:
  "expr_kind e = ExVariable n \<Longrightarrow>
   runs from_diag structs lookup (TaExpression e ex # ts) vs =
     after (lookup n (expr_span e)) (\<lambda>v. runs from_diag structs lookup ts (v # vs))"
  by (auto simp: runs_def resume_step
       ev_step_def split: sum.splits)

lemma runs_list:
  assumes "\<And>x ts vs. x \<in> set xs \<Longrightarrow>
    runs from_diag structs lookup (f x # ts) vs = after (g x) (\<lambda>v. runs from_diag structs lookup ts (v # vs))"
  shows "runs from_diag structs lookup (map f xs @ ts) vs =
    after (rmap g xs) (\<lambda>ys. runs from_diag structs lookup ts (rev ys @ vs))"
  using assms
proof (induction xs arbitrary: vs)
  case (Cons x xs)
  then show ?case by (auto simp: after_rbind intro!: after_cong)
qed simp

section \<open>The machine computes the function\<close>

lemma runs_eval:
  "runs from_diag structs lookup (TaExpression e ex # ts) vs =
     after (eval from_diag structs lookup ex e) (\<lambda>v. runs from_diag structs lookup ts (v # vs))"
proof (induction from_diag structs lookup ex e arbitrary: ts vs rule: eval.induct)
  case (1 from_diag structs lookup ex kind span)
  let ?runs = "runs from_diag structs lookup"
  show ?case
  proof (cases kind)
    case (ExI32 v)
    then show ?thesis
      by (cases "i32_try_from v") (simp_all add: runs_expand expand_def eval.simps)
  next
    case (ExF32 v)
    then show ?thesis by (simp add: runs_expand expand_def eval.simps)
  next
    case (ExBool b)
    then show ?thesis by (simp add: runs_expand expand_def eval.simps)
  next
    case (ExVariable n)
    then show ?thesis by (simp add: runs_variable eval.simps)
  next
    case (ExCall n args)
    then show ?thesis by (simp add: runs_expand expand_def eval.simps)
  next
    case (ExIndex b i)
    then show ?thesis
      by (auto simp: runs_expand expand_def eval.simps "1.IH" lift_diag_rbind after_rbind runs_finish finish_task_def intro!: after_cong)
  next
    case (ExField b n s)
    then show ?thesis
      by (auto simp: runs_expand expand_def eval.simps "1.IH" lift_diag_rbind after_rbind runs_finish finish_task_def intro!: after_cong)
  next
    case (ExUnary op a)
    then show ?thesis
      by (auto simp: runs_expand expand_def eval.simps "1.IH" lift_diag_rbind after_rbind runs_finish finish_task_def intro!: after_cong)
  next
    case (ExConversion target args)
    then show ?thesis
      by (auto simp: runs_expand expand_def eval.simps "1.IH" lift_diag_rbind after_rbind runs_finish finish_task_def
          split: list.splits intro!: after_cong)
  next
    case (ExBinary l op r)
    then show ?thesis
      by (auto simp: runs_expand expand_def eval.simps "1.IH" lift_diag_rbind after_rbind runs_finish finish_task_def
          split: constant_value.splits intro!: after_cong)
  next
    case (ExArrayLiteral elements)
    have list: "?runs (map (\<lambda>e. TaExpression e (Some element)) elements @ ts) vs =
      after (rmap (\<lambda>e. eval from_diag structs lookup (Some element) e) elements)
        (\<lambda>ys. ?runs ts (rev ys @ vs))"
      if "array_literal_element ex span (length elements) = Ok element" for element ts vs
      using that ExArrayLiteral by (intro runs_list "1.IH") auto
    show ?thesis
      using ExArrayLiteral
      by (cases "array_literal_element ex span (length elements)")
         (auto simp: runs_expand expand_def eval.simps lift_diag_rbind after_rbind list runs_finish finish_task_def Let_def
           intro!: after_cong)
  next
    case (ExStructLiteral n inits)
    have list: "?runs (map (\<lambda>(e, ty). TaExpression e (Some ty)) children @ ts) vs =
      after (rmap (\<lambda>(e, ty). eval from_diag structs lookup (Some ty) e) children)
        (\<lambda>ys. ?runs ts (rev ys @ vs))"
      if "struct_literal_children structs ex span n inits = Ok (children, names)" for children names ts vs
      using that ExStructLiteral by (intro runs_list) (auto intro!: "1.IH"(2))
    show ?thesis
      using ExStructLiteral
      by (cases "struct_literal_children structs ex span n inits")
         (auto simp: runs_expand expand_def eval.simps lift_diag_rbind after_rbind list runs_finish finish_task_def Let_def
           intro!: after_cong)
  qed
qed

lemma resume_evaluation_new:
  "map_option fst (resume from_diag structs lookup (evaluation_new e ex)) = Some (eval from_diag structs lookup ex e)"
proof -
  have "evaluation_new e ex = ev_of [TaExpression e ex] []"
    by (simp add: evaluation_new_def ev_of_def)
  then show ?thesis
    using runs_eval [of from_diag structs lookup e ex "[]" "[]"]
    by (simp add: runs_done after_Ok runs_def [of _ _ _ "[TaExpression e ex]"])
qed

section \<open>More is known\<close>

text \<open>
  A lookup that knows at least the values another one knows. Evaluation under it gives the same
  result, unless the smaller lookup failed on the way, and then that failure was the result.
\<close>

definition knows_more ::
  "(string \<Rightarrow> span \<Rightarrow> ('e, constant_value) result) \<Rightarrow> (string \<Rightarrow> span \<Rightarrow> ('e, constant_value) result) \<Rightarrow> bool" where
  "knows_more lookup lookup' \<longleftrightarrow> (\<forall>n s v. lookup n s = Ok v \<longrightarrow> lookup' n s = Ok v)"

text \<open>How the results of the two are related: \<open>blocked\<close> is the failure of one lookup.\<close>

definition blocked_by ::
  "(string \<Rightarrow> span \<Rightarrow> ('e, constant_value) result) \<Rightarrow> (string \<Rightarrow> span \<Rightarrow> ('e, constant_value) result) \<Rightarrow>
   ('e, 'a) result \<Rightarrow> ('e, 'a) result \<Rightarrow> bool" where
  "blocked_by lookup lookup' r r' \<longleftrightarrow>
     (\<exists>n s err. lookup n s = Err err \<and> r = Err err \<and> (\<forall>err'. lookup' n s = Err err' \<longrightarrow> r' = Err err'))"

definition agrees ::
  "(string \<Rightarrow> span \<Rightarrow> ('e, constant_value) result) \<Rightarrow> (string \<Rightarrow> span \<Rightarrow> ('e, constant_value) result) \<Rightarrow>
   ('e, 'a) result \<Rightarrow> ('e, 'a) result \<Rightarrow> bool" where
  "agrees lookup lookup' r r' \<longleftrightarrow> r = r' \<or> blocked_by lookup lookup' r r'"

lemma agrees_refl [simp, intro]: "agrees l l' r r"
  by (simp add: agrees_def)

lemma agrees_rbind [intro]:
  "agrees l l' r r' \<Longrightarrow> (\<And>a. r = Ok a \<Longrightarrow> r' = Ok a \<Longrightarrow> agrees l l' (f a) (f' a)) \<Longrightarrow>
   agrees l l' (rbind r f) (rbind r' f')"
  by (cases r; cases r') (fastforce simp: agrees_def blocked_by_def)+

lemma agrees_rmap:
  "(\<And>x. x \<in> set xs \<Longrightarrow> agrees l l' (f x) (f' x)) \<Longrightarrow> agrees l l' (rmap f xs) (rmap f' xs)"
  by (induction xs) auto

lemma agrees_lookup: "knows_more l l' \<Longrightarrow> agrees l l' (l n s) (l' n s)"
  by (cases "l n s") (auto simp: knows_more_def agrees_def blocked_by_def)

lemma agrees_eval:
  "knows_more lookup lookup' \<Longrightarrow>
   agrees lookup lookup' (eval from_diag structs lookup ex e) (eval from_diag structs lookup' ex e)"
proof (induction from_diag structs lookup ex e rule: eval.induct)
  case (1 from_diag structs lookup ex kind span)
  show ?case
  proof (cases kind)
    case (ExArrayLiteral elements)
    have "agrees lookup lookup' (rmap (\<lambda>e. eval from_diag structs lookup (Some element) e) elements)
        (rmap (\<lambda>e. eval from_diag structs lookup' (Some element) e) elements)"
      if "array_literal_element ex span (length elements) = Ok element" for element
      using that ExArrayLiteral "1.prems" by (intro agrees_rmap "1.IH"(1)) auto
    then show ?thesis
      using ExArrayLiteral by (simp add: eval.simps) (intro agrees_rbind agrees_refl; simp)
  next
    case (ExStructLiteral n inits)
    have "agrees lookup lookup' (rmap (\<lambda>(e, ty). eval from_diag structs lookup (Some ty) e) children)
        (rmap (\<lambda>(e, ty). eval from_diag structs lookup' (Some ty) e) children)"
      if "struct_literal_children structs ex span n inits = Ok (children, names)" for children names
      using that ExStructLiteral "1.prems" by (intro agrees_rmap) (auto intro!: "1.IH"(2))
    then show ?thesis
      using ExStructLiteral
      by (cases "struct_literal_children structs ex span n inits")
         (auto simp: eval.simps intro!: agrees_rbind)
  next
    case (ExConversion target args)
    then show ?thesis
      by (auto simp: eval.simps split: list.split intro!: agrees_rbind agrees_refl intro: "1.IH" "1.prems")
  next
    case (ExBinary l op r)
    have "agrees lookup lookup' (eval from_diag structs lookup None l) (eval from_diag structs lookup' None l)"
      using ExBinary "1.prems" by (intro "1.IH") auto
    moreover have "agrees lookup lookup' (eval from_diag structs lookup None r) (eval from_diag structs lookup' None r)"
      if "eval from_diag structs lookup None l = Ok v" "op = BoLogicalAnd \<or> op = BoLogicalOr \<Longrightarrow> v = CvBool (op \<noteq> BoLogicalOr)"
      for v
      using that ExBinary "1.prems" by (cases "op = BoLogicalAnd \<or> op = BoLogicalOr") (auto intro: "1.IH")
    ultimately show ?thesis
      using ExBinary by (auto simp: eval.simps split: constant_value.split intro!: agrees_rbind agrees_refl)
  qed (use "1.prems" in \<open>auto simp: eval.simps agrees_lookup intro!: agrees_rbind agrees_refl intro: "1.IH"\<close>)
qed

lemma eval_knows_more:
  assumes "knows_more lookup lookup'" and "eval from_diag structs lookup ex e = Ok v"
  shows "eval from_diag structs lookup' ex e = Ok v"
  using agrees_eval [OF assms(1), of from_diag structs ex e] assms(2) by (auto simp: agrees_def blocked_by_def)

section \<open>Suspension\<close>

text \<open>
  An evaluation that a failed lookup suspended stands at that lookup, and a lookup that knows more
  takes it where it would have taken the evaluation it was resumed from.
\<close>

lemma ev_step_knows_more:
  assumes "knows_more lookup lookup'" and "ev_step from_diag structs lookup t ev = Some (Ok ev')"
  shows "ev_step from_diag structs lookup' t ev = Some (Ok ev')"
proof (cases "\<exists>e ex n. t = TaExpression e ex \<and> expr_kind e = ExVariable n")
  case True
  then show ?thesis
    using assms by (auto simp: ev_step_def knows_more_def split: sum.splits)
next
  case False
  have "ev_step from_diag structs lookup' t ev = ev_step from_diag structs lookup t ev"
    using False by (cases t) (auto simp: ev_step_def split: expr_kind.splits)
  then show ?thesis using assms(2) by simp
qed

lemma ev_step_suspends:
  assumes "ev_step from_diag structs lookup t ev = Some (Err (err, ev'))" and "err \<notin> range from_diag"
  shows "ev' = push_tasks [t] ev \<and>
    (\<exists>e ex n. t = TaExpression e ex \<and> expr_kind e = ExVariable n \<and> lookup n (expr_span e) = Err err)"
proof (cases "\<exists>e ex n. t = TaExpression e ex \<and> expr_kind e = ExVariable n")
  case True
  then show ?thesis using assms by (auto simp: ev_step_def split: sum.splits)
next
  case False
  then show ?thesis
    using assms by (cases t) (auto simp: ev_step_def split: expr_kind.splits sum.splits option.splits)
qed

lemma resume_suspended:
  assumes "resume from_diag structs lookup ev = Some (Err err, ev')" and "err \<notin> range from_diag"
    and "knows_more lookup lookup'"
  shows "resume from_diag structs lookup' ev' = resume from_diag structs lookup' ev"
  using assms
proof (induction from_diag structs lookup ev rule: resume.induct)
  case (1 from_diag structs lookup ev)
  show ?case
  proof (cases "ev_tasks ev")
    case Nil
    then show ?thesis using "1.prems"(1) by (simp add: resume.simps [of _ _ _ ev] split: list.splits)
  next
    case (Cons t ts)
    let ?popped = "ev\<lparr>ev_tasks := ts\<rparr>"
    show ?thesis
    proof (cases "ev_step from_diag structs lookup t ?popped")
      case None
      then show ?thesis using Cons "1.prems"(1) by (simp add: resume.simps [of _ _ _ ev])
    next
      case (Some r)
      show ?thesis
      proof (cases r)
        case (Inl fail)
        then have "fail = (err, ev')"
          using Some Cons "1.prems"(1) by (cases fail) (simp add: resume.simps [of _ _ _ ev])
        then have "ev' = push_tasks [t] ?popped"
          using ev_step_suspends Some Inl "1.prems"(2) by metis
        moreover have "ev\<lparr>ev_tasks := t # ts\<rparr> = ev"
          using Cons by (metis evaluation.surjective evaluation.update_convs(1))
        ultimately show ?thesis by (simp add: push_tasks_def)
      next
        case (Inr next_ev)
        then have "resume from_diag structs lookup next_ev = Some (Err err, ev')"
          using Some Cons "1.prems"(1) by (simp add: resume.simps [of _ _ lookup ev])
        then have "resume from_diag structs lookup' ev' = resume from_diag structs lookup' next_ev"
          using "1.IH" [OF Cons Some Inr] "1.prems"(2,3) by blast
        also have "\<dots> = resume from_diag structs lookup' ev"
          using ev_step_knows_more [OF "1.prems"(3)] Some Inr Cons by (simp add: resume.simps [of _ _ lookup' ev])
        finally show ?thesis .
      qed
    qed
  qed
qed

lemma resume_lookup_failed:
  "\<lbrakk>resume from_diag structs lookup ev = Some (Err err, ev'); err \<notin> range from_diag\<rbrakk> \<Longrightarrow>
   \<exists>n s. lookup n s = Err err"
proof (induction from_diag structs lookup ev rule: resume.induct)
  case (1 from_diag structs lookup ev)
  show ?case
  proof (cases "ev_tasks ev")
    case Nil
    then show ?thesis using "1.prems"(1) by (simp add: resume.simps [of _ _ _ ev] split: list.splits)
  next
    case (Cons t ts)
    show ?thesis
    proof (cases "ev_step from_diag structs lookup t (ev\<lparr>ev_tasks := ts\<rparr>)")
      case None
      then show ?thesis using Cons "1.prems"(1) by (simp add: resume.simps [of _ _ _ ev])
    next
      case (Some r)
      show ?thesis
      proof (cases r)
        case (Inl fail)
        then have "fail = (err, ev')"
          using Some Cons "1.prems"(1) by (cases fail) (simp add: resume.simps [of _ _ _ ev])
        then show ?thesis using ev_step_suspends Some Inl "1.prems"(2) by metis
      next
        case (Inr next_ev)
        then have "resume from_diag structs lookup next_ev = Some (Err err, ev')"
          using Some Cons "1.prems"(1) by (simp add: resume.simps [of _ _ lookup ev])
        then show ?thesis using "1.IH" [OF Cons Some Inr] "1.prems"(2) by blast
      qed
    qed
  qed
qed

text \<open>A result whose failures are diagnostics or failed lookups.\<close>

definition fails_from ::
  "(diagnostic \<Rightarrow> 'e) \<Rightarrow> (string \<Rightarrow> span \<Rightarrow> ('e, constant_value) result) \<Rightarrow> ('e, 'a) result \<Rightarrow> bool" where
  "fails_from from_diag lookup r \<longleftrightarrow>
     (\<forall>err. r = Err err \<longrightarrow> err \<in> range from_diag \<or> (\<exists>n s. lookup n s = Err err))"

lemma fails_from_simps [simp]:
  "fails_from from_diag lookup (Ok a)"
  "fails_from from_diag lookup (lookup n s)"
  "fails_from from_diag lookup (lift_diag from_diag r)"
  by (cases r; auto simp: fails_from_def)+

lemma fails_from_rbind:
  "fails_from from_diag lookup r \<Longrightarrow> (\<And>a. r = Ok a \<Longrightarrow> fails_from from_diag lookup (f a)) \<Longrightarrow>
   fails_from from_diag lookup (rbind r f)"
  by (cases r) (auto simp: fails_from_def)

lemma fails_from_rmap:
  "(\<And>x. x \<in> set xs \<Longrightarrow> fails_from from_diag lookup (f x)) \<Longrightarrow> fails_from from_diag lookup (rmap f xs)"
  by (induction xs) (auto intro!: fails_from_rbind)

lemma fails_from_eval [simp]: "fails_from from_diag lookup (eval from_diag structs lookup ex e)"
proof -
  have "\<exists>n s. lookup n s = Err err"
    if fails: "eval from_diag structs lookup ex e = Err err" "err \<notin> range from_diag" for err
  proof -
    obtain ev where "resume from_diag structs lookup (evaluation_new e ex) = Some (Err err, ev)"
      using resume_evaluation_new [of from_diag structs lookup e ex] fails(1) by auto
    then show ?thesis using resume_lookup_failed fails(2) by metis
  qed
  then show ?thesis by (auto simp: fails_from_def)
qed

section \<open>Depth\<close>

lemma cv_depth_child: "is_aggregate v \<Longrightarrow> c \<in> set (cv_children v) \<Longrightarrow> cv_depth c < cv_depth v"
  using cv_depth_le [of v "cv_depth v - 1"] by (auto simp: cv_depth.simps [of v] Suc_le_eq less_Suc_eq_le)

lemma cv_depth_aggregate:
  "check_aggregate_depth values span = Ok u \<Longrightarrow> set (cv_children v) \<subseteq> set values \<Longrightarrow> is_aggregate v \<Longrightarrow>
   cv_depth v \<le> MAX_CONSTANT_AGGREGATE_DEPTH"
proof -
  assume v: "check_aggregate_depth values span = Ok u" "set (cv_children v) \<subseteq> set values" "is_aggregate v"
  then have "\<forall>c \<in> set (cv_children v). cv_depth c < 128"
    by (auto simp: check_aggregate_depth_iff list_all_iff split: if_splits)
  then have "\<forall>c \<in> set (cv_children v). cv_depth c \<le> 127" by auto
  then show ?thesis
    using cv_depth_le [OF v(3), of 127] by (simp add: MAX_CONSTANT_AGGREGATE_DEPTH_def)
qed

lemma index_value_depth: "index_value b i span = Ok v \<Longrightarrow> cv_depth v \<le> cv_depth b"
  by (auto simp: index_value_def is_aggregate_def cv_children_def split: constant_value.splits if_splits
      intro!: less_imp_le cv_depth_child)

lemma field_value_depth: "field_value n span b = Ok v \<Longrightarrow> cv_depth v \<le> cv_depth b"
  by (auto simp: field_value_def is_aggregate_def cv_children_def ok_or_def find_Some_iff
      split: constant_value.splits option.splits intro!: less_imp_le cv_depth_child imageI)
     (metis imageI nth_mem snd_conv)

lemma operation_depth:
  "convert_constant target w = Ok v \<Longrightarrow> cv_depth v = 0"
  "unary_value uop w = Ok v \<Longrightarrow> cv_depth v = 0"
  "evaluate_binary w op w' = Ok v \<Longrightarrow> cv_depth v = 0"
  by (auto simp: convert_constant_def unary_value_def evaluate_binary_def evaluate_binary_i32_def i32_result_def
      evaluate_binary_f32_def f32_result_def evaluate_binary_bool_def rbind_eq_Ok is_aggregate_def
      intro!: cv_depth_scalar
      split: value_type.splits constant_value.splits unary_op.splits binary_op.splits if_splits)

lemma scalar_depth [simp]: "cv_depth (CvI32 i) = 0" "cv_depth (CvF32 f) = 0" "cv_depth (CvBool b) = 0"
  by (simp_all add: cv_depth_scalar is_aggregate_def)

lemma map_diag_Ok [simp]: "map_diag span r = Inr a \<longleftrightarrow> r = Inr a"
  by (cases r) (simp_all add: map_diag_def)

lemma case_bool_Ok:
  "(case w of CvBool b \<Rightarrow> Ok w | _ \<Rightarrow> Err err) = Inr v \<longleftrightarrow> w = v \<and> (\<exists>b. v = CvBool b)"
  by (cases w) auto

lemma eval_depth:
  "\<lbrakk>\<forall>n s w. lookup n s = Ok w \<longrightarrow> cv_depth w \<le> MAX_CONSTANT_AGGREGATE_DEPTH;
    eval from_diag structs lookup ex e = Ok v\<rbrakk> \<Longrightarrow> cv_depth v \<le> MAX_CONSTANT_AGGREGATE_DEPTH"
proof (induction from_diag structs lookup ex e arbitrary: v rule: eval.induct)
  case (1 from_diag structs lookup ex kind span)
  note result = "1.prems"(2)
  show ?case
  proof (cases kind)
    case (ExArrayLiteral elements)
    then obtain element vs where "v = CvArray element vs" "check_aggregate_depth vs span = Ok ()"
      using result by (auto simp: eval.simps rbind_eq_Ok)
    then show ?thesis by (intro cv_depth_aggregate [of vs span]) (simp_all add: cv_children_def is_aggregate_def)
  next
    case (ExStructLiteral n inits)
    then obtain names vs where "v = CvStruct n (zip names vs)" "check_aggregate_depth vs span = Ok ()"
      using result by (auto simp: eval.simps rbind_eq_Ok split: sum.splits)
    moreover
    have "set (map snd (zip names vs)) \<subseteq> set vs" by (auto dest: set_zip_rightD)
    ultimately show ?thesis by (intro cv_depth_aggregate [of vs span]) (simp_all add: cv_children_def is_aggregate_def)
  next
    case (ExIndex b i)
    then obtain w w' where "eval from_diag structs lookup None b = Ok w" "index_value w w' span = Ok v"
      using result by (auto simp: eval.simps rbind_eq_Ok)
    then show ?thesis
      using "1.IH"(3) [OF ExIndex "1.prems"(1)] index_value_depth [of w w' span v] by simp
  next
    case (ExField b n s)
    then obtain w where "eval from_diag structs lookup None b = Ok w" "field_value n span w = Ok v"
      using result by (auto simp: eval.simps rbind_eq_Ok)
    then show ?thesis
      using "1.IH"(5) [OF ExField "1.prems"(1)] field_value_depth [of n span w v] by simp
  next
    case (ExConversion target args)
    then show ?thesis
      using result by (auto simp: eval.simps rbind_eq_Ok operation_depth split: list.splits)
  next
    case (ExUnary op a)
    then show ?thesis using result by (auto simp: eval.simps rbind_eq_Ok operation_depth split: if_splits)
  next
    case (ExBinary l op r)
    then show ?thesis
      using result
      by (auto simp: eval.simps rbind_eq_Ok operation_depth case_bool_Ok split: if_splits)
         (auto simp: rbind_eq_Ok case_bool_Ok split: constant_value.splits if_splits)
  next
    case (ExVariable n)
    then show ?thesis using result "1.prems"(1) by (simp add: eval.simps)
  next
    case (ExF32 f)
    then show ?thesis using result by (auto simp: eval.simps split: if_splits)
  qed (use result in \<open>auto simp: eval.simps rbind_eq_Ok\<close>)
qed

end
