(* ===== verification/Constant_Scheduler_Correct.thy ===== *)
theory Constant_Scheduler_Correct
  imports Constant_Scheduler
begin

text \<open>
  What the declarations denote, the contract of an initializer (\<open>declaration_scheduler\<close>), and
  the correctness of the scheduler under it: the loop always ends without a panic, and a request
  succeeds exactly when the name denotes a value, with that value.
\<close>

section \<open>The values declarations denote\<close>

definition cache_of :: "(string, constant_value) hash_map \<Rightarrow> constant_values" where
  "cache_of m = \<lparr>cv_values = m, cv_failures = []\<rparr>"

lemma cache_of_sel [simp]: "cv_values (cache_of m) = m" "cv_failures (cache_of m) = []"
  by (simp_all add: cache_of_def)

text \<open>
  The least relation that gives predefined names their values and a declared name the value
  \<open>den\<close> gives its definition when it may look up names whose values are already given.
\<close>

inductive denotes ::
  "(string, constant_value) hash_map \<Rightarrow> (string, constant_definition) hash_map \<Rightarrow>
   (string \<Rightarrow> constant_definition \<Rightarrow> constant_values \<Rightarrow> (evaluation_error, constant_value) result) \<Rightarrow>
   string \<Rightarrow> constant_value \<Rightarrow> bool"
  for base :: "(string, constant_value) hash_map" and definitions :: "(string, constant_definition) hash_map"
    and den :: "string \<Rightarrow> constant_definition \<Rightarrow> constant_values \<Rightarrow> (evaluation_error, constant_value) result" where
  predefined: "hm_get base n = Some v \<Longrightarrow> denotes base definitions den n v"
| declared: "\<lbrakk>hm_get base n = None; hm_get definitions n = Some d;
     \<forall>m w. hm_get known m = Some w \<longrightarrow> denotes base definitions den m w;
     den n d (cache_of known) = Ok v\<rbrakk> \<Longrightarrow> denotes base definitions den n v"

definition values_more :: "constant_values \<Rightarrow> constant_values \<Rightarrow> bool" where
  "values_more c c' \<longleftrightarrow> (\<forall>n v. hm_get (cv_values c) n = Some v \<longrightarrow> hm_get (cv_values c') n = Some v)"

lemma values_more_refl [simp, intro]: "values_more c c"
  by (simp add: values_more_def)

lemma values_more_trans: "values_more c c' \<Longrightarrow> values_more c' c'' \<Longrightarrow> values_more c c''"
  by (simp add: values_more_def)

lemma values_more_cong: "cv_values c' = cv_values c \<Longrightarrow> values_more c c'"
  by (simp add: values_more_def)

lemma values_more_insert: "\<not> hm_contains (cv_values c) n \<Longrightarrow> values_more c (insert_value n v c)"
  by (auto simp: values_more_def insert_value_def hm_contains_def)

lemma values_more_contains: "values_more c c' \<Longrightarrow> hm_contains (cv_values c) n \<Longrightarrow> hm_contains (cv_values c') n"
  by (auto simp: values_more_def hm_contains_def)

lemma hm_get_append: "hm_get (a @ b) n = (case hm_get a n of None \<Rightarrow> hm_get b n | Some v \<Rightarrow> Some v)"
  by (cases "map_of a n") (simp_all add: hm_get_def map_add_def)

lemma values_more_append:
  "values_more c (cache_of (cv_values c @ b))"
  "(\<And>m w w'. hm_get a m = Some w \<Longrightarrow> hm_get b m = Some w' \<Longrightarrow> w = w') \<Longrightarrow> values_more (cache_of b) (cache_of (a @ b))"
  by (auto simp: values_more_def hm_get_append split: option.splits)

text \<open>A cache that holds only what the declarations denote, and failures only of names that denote
  nothing.\<close>

definition cache_sound ::
  "(string, constant_value) hash_map \<Rightarrow> (string, constant_definition) hash_map \<Rightarrow>
   (string \<Rightarrow> constant_definition \<Rightarrow> constant_values \<Rightarrow> (evaluation_error, constant_value) result) \<Rightarrow>
   constant_values \<Rightarrow> bool" where
  "cache_sound base definitions den c \<longleftrightarrow>
     (\<forall>n v. hm_get base n = Some v \<longrightarrow> hm_get (cv_values c) n = Some v) \<and>
     (\<forall>n v. hm_get (cv_values c) n = Some v \<longrightarrow> denotes base definitions den n v) \<and>
     (\<forall>n. cache_failed c n \<longrightarrow> (\<nexists>v. denotes base definitions den n v))"

lemma cache_sound_new: "cache_sound base definitions den (cache_of base)"
  by (auto simp: cache_sound_def cache_failed_def hm_contains_def intro: predefined)

section \<open>The contract of an initializer\<close>

text \<open>
  \<open>den\<close> is the result of an initializer from scratch; \<open>stage\<close> relates a definition,
  a cache and the state of its initializer, suspended or not.
\<close>

locale declaration_scheduler =
  fixes definitions :: "(string, constant_definition) hash_map"
    and initialize :: "constant_definition \<Rightarrow> 's"
    and initializer :: "'s initializer"
    and den :: "string \<Rightarrow> constant_definition \<Rightarrow> constant_values \<Rightarrow> (evaluation_error, constant_value) result"
    and stage :: "string \<Rightarrow> constant_definition \<Rightarrow> constant_values \<Rightarrow> 's \<Rightarrow> bool"
  assumes initialize_stage: "stage n d c (initialize d)"
    and stage_later: "stage n d c s \<Longrightarrow> values_more c c' \<Longrightarrow> stage n d c' s"
    and initializer_result: "stage n d c s \<Longrightarrow> map_option fst (initializer n d s c) = Some (den n d c)"
    and initializer_stage:
      "stage n d c s \<Longrightarrow> initializer n d s c = Some (Err (EeDependency m sp), s') \<Longrightarrow> stage n d c s'"
    and den_later: "den n d c = Ok v \<Longrightarrow> values_more c c' \<Longrightarrow> den n d c' = Ok v"
    and dependency_blocks:
      "den n d c = Err (EeDependency m sp) \<Longrightarrow> den n d c' = Ok v \<Longrightarrow> values_more c c' \<Longrightarrow>
       hm_contains (cv_values c') m"
    and dependency_missing:
      "den n d c = Err (EeDependency m sp) \<Longrightarrow> \<not> hm_contains (cv_values c) m \<and> \<not> cache_failed c m"
    and diagnostic_blocks:
      "den n d c = Err (EeDiagnostic e) \<Longrightarrow> den n d c' = Ok v \<Longrightarrow> values_more c c' \<Longrightarrow>
       \<exists>m. cache_failed c m \<and> \<not> hm_contains (cv_values c) m \<and> hm_contains (cv_values c') m"
begin

text \<open>Both of two sets of values that are given can be looked up together.\<close>

lemma denotes_unique:
  "denotes base definitions den n v \<Longrightarrow> denotes base definitions den n v' \<Longrightarrow> v = v'"
proof (induction arbitrary: v' rule: denotes.induct)
  case (predefined n v)
  from predefined(2) show ?case by (cases rule: denotes.cases) (use predefined(1) in auto)
next
  case (declared n d known v)
  from declared.prems obtain d' known' where d': "hm_get definitions n = Some d'"
    and known': "\<forall>m w. hm_get known' m = Some w \<longrightarrow> denotes base definitions den m w"
    and v': "den n d' (cache_of known') = Ok v'"
    by (cases rule: denotes.cases) (use declared.hyps(1) in auto)
  let ?both = "cache_of (known @ known')"
  have "values_more (cache_of known) ?both"
    using values_more_append(1) [of "cache_of known" known'] by simp
  moreover have "values_more (cache_of known') ?both"
    using declared.IH known' by (intro values_more_append) blast
  ultimately have "den n d ?both = Ok v" "den n d' ?both = Ok v'"
    using den_later declared.hyps(3) v' by blast+
  then show ?case using d' declared.hyps(2) by simp
qed

text \<open>\<open>needs b a\<close>: no value of \<open>b\<close> without one of \<open>a\<close>.\<close>

definition given :: "(string, constant_value) hash_map \<Rightarrow> (string, constant_value) hash_map \<Rightarrow> bool" where
  "given base known \<longleftrightarrow> (\<forall>m w. hm_get known m = Some w \<longrightarrow> denotes base definitions den m w)"

definition needs :: "(string, constant_value) hash_map \<Rightarrow> string \<Rightarrow> string \<Rightarrow> bool" where
  "needs base b a \<longleftrightarrow>
     (\<forall>d known v. hm_get definitions b = Some d \<longrightarrow> given base known \<longrightarrow> den b d (cache_of known) = Ok v \<longrightarrow>
        hm_contains known a)"

definition hopeless :: "(string, constant_value) hash_map \<Rightarrow> string \<Rightarrow> bool" where
  "hopeless base b \<longleftrightarrow>
     (\<forall>d known v. hm_get definitions b = Some d \<longrightarrow> given base known \<longrightarrow> den b d (cache_of known) \<noteq> Ok v)"

lemma stuck_denotes_nothing:
  assumes "\<forall>n \<in> C. hm_get base n = None \<and> ((\<exists>m \<in> C. needs base n m) \<or> hopeless base n)" and "n \<in> C"
  shows "\<not> denotes base definitions den n v"
proof
  assume "denotes base definitions den n v"
  then show False using assms(2)
  proof (induction rule: denotes.induct)
    case (predefined n v)
    then show ?case using assms(1) by fastforce
  next
    case (declared n d known v)
    have "given base known" using declared.IH by (simp add: given_def)
    then obtain m where "m \<in> C" "hm_contains known m"
      using assms(1) declared by (fastforce simp: needs_def hopeless_def)
    then show False using declared.IH by (auto simp: hm_contains_def)
  qed
qed

lemma join_known:
  assumes "cache_sound base definitions den c" and "given base known"
  shows "values_more c (cache_of (cv_values c @ known))"
    and "values_more (cache_of known) (cache_of (cv_values c @ known))"
proof -
  show "values_more c (cache_of (cv_values c @ known))"
    by (rule values_more_append)
  have "w = v" if "hm_get (cv_values c) n = Some w" "hm_get known n = Some v" for n v w
    using that assms denotes_unique unfolding cache_sound_def given_def by blast
  then show "values_more (cache_of known) (cache_of (cv_values c @ known))"
    by (rule values_more_append)
qed

lemma contains_append: "hm_contains (a @ b) m \<longleftrightarrow> hm_contains a m \<or> hm_contains b m"
  by (auto simp: hm_contains_keys)

lemma dependency_needs:
  assumes "cache_sound base definitions den c" and "hm_get definitions b = Some d"
    and "den b d c = Err (EeDependency a sp)"
  shows "needs base b a"
  unfolding needs_def
proof (intro allI impI)
  fix d' known v
  assume "hm_get definitions b = Some d'" and known: "given base known" and v: "den b d' (cache_of known) = Ok v"
  then have "d' = d" using assms(2) by simp
  then have "den b d (cache_of (cv_values c @ known)) = Ok v"
    using v den_later join_known(2) [OF assms(1) known] by blast
  then have "hm_contains (cv_values c @ known) a"
    using dependency_blocks [OF assms(3)] join_known(1) [OF assms(1) known] by fastforce
  then show "hm_contains known a"
    using dependency_missing [OF assms(3)] by (simp add: contains_append)
qed

lemma diagnostic_hopeless:
  assumes "cache_sound base definitions den c" and "hm_get definitions b = Some d"
    and "den b d c = Err (EeDiagnostic e)"
  shows "hopeless base b"
  unfolding hopeless_def
proof (intro allI impI notI)
  fix d' known v
  assume "hm_get definitions b = Some d'" and known: "given base known" and v: "den b d' (cache_of known) = Ok v"
  then have "d' = d" using assms(2) by simp
  then have "den b d (cache_of (cv_values c @ known)) = Ok v"
    using v den_later join_known(2) [OF assms(1) known] by blast
  then obtain m where m: "cache_failed c m" "\<not> hm_contains (cv_values c) m" "hm_contains (cv_values c @ known) m"
    using diagnostic_blocks [OF assms(3)] join_known(1) [OF assms(1) known] by fastforce
  then obtain w where "hm_get known m = Some w"
    by (auto simp: contains_append) (auto simp: hm_contains_def)
  then show False
    using known m(1) assms(1) unfolding given_def cache_sound_def by blast
qed

text \<open>The loop invariant for a request of \<open>name\<close>.\<close>

definition suspended_ok :: "constant_values \<Rightarrow> string \<times> span \<times> 's option \<Rightarrow> bool" where
  "suspended_ok c entry \<longleftrightarrow>
     (case entry of (n, sp, s) \<Rightarrow> \<exists>d st. hm_get definitions n = Some d \<and> s = Some st \<and> stage n d c st)"

definition top_ok :: "constant_values \<Rightarrow> string \<times> span \<times> 's option \<Rightarrow> bool" where
  "top_ok c entry \<longleftrightarrow>
     (case entry of (n, sp, s) \<Rightarrow> \<forall>d st. hm_get definitions n = Some d \<longrightarrow> s = Some st \<longrightarrow> stage n d c st)"

fun chain :: "(string, constant_value) hash_map \<Rightarrow> string list \<Rightarrow> bool" where
  "chain base (a # b # names) = (needs base b a \<and> chain base (b # names))"
| "chain base _ = True"

definition active_ok :: "(string, nat) hash_map \<Rightarrow> string list \<Rightarrow> bool" where
  "active_ok active names \<longleftrightarrow> (\<forall>n. hm_contains active n \<longleftrightarrow> n \<in> set names)"

definition sched_inv :: "(string, constant_value) hash_map \<Rightarrow> string \<Rightarrow> 's scheduler \<Rightarrow> bool" where
  "sched_inv base name sc \<longleftrightarrow>
     (let pending = sc_pending sc; c = sc_cache sc; names = pending_names pending
      in pending \<noteq> [] \<and> last names = name \<and> distinct names \<and> cache_sound base definitions den c \<and>
         (\<forall>n \<in> set names. \<not> hm_contains (cv_values c) n \<and> \<not> cache_failed c n) \<and>
         active_ok (sc_active sc) names \<and> top_ok c (hd pending) \<and> list_all (suspended_ok c) (tl pending) \<and>
         chain base names)"

definition keys :: "string set" where
  "keys = fst ` set definitions"

definition sched_measure :: "('s scheduler \<times> 's scheduler) set" where
  "sched_measure = inv_image (less_than <*lex*> less_than)
     (\<lambda>sc. (card (keys - fst ` set (cv_values (sc_cache sc))), card keys + 1 - length (sc_pending sc)))"

lemma wf_sched_measure: "wf sched_measure"
  by (auto simp: sched_measure_def)

lemma keys_get: "n \<in> keys \<longleftrightarrow> (\<exists>d. hm_get definitions n = Some d)"
  using hm_contains_keys [of definitions n] by (auto simp: keys_def hm_contains_def)

lemma finite_keys [simp]: "finite keys"
  by (simp add: keys_def)

lemma pending_short:
  "distinct (pending_names pending) \<Longrightarrow> list_all (suspended_ok c) pending \<Longrightarrow> length pending \<le> card keys"
proof -
  assume *: "distinct (pending_names pending)" "list_all (suspended_ok c) pending"
  then have "set (pending_names pending) \<subseteq> keys"
    by (auto simp: list_all_iff suspended_ok_def pending_names_def keys_get)
  then have "card (set (pending_names pending)) \<le> card keys" by (rule card_mono [OF finite_keys])
  then show ?thesis using distinct_card [OF *(1)] by (simp add: pending_names_def)
qed

lemma suspended_later: "suspended_ok c entry \<Longrightarrow> values_more c c' \<Longrightarrow> suspended_ok c' entry"
  by (auto simp: suspended_ok_def split: prod.splits intro: stage_later)

lemma suspended_top: "suspended_ok c entry \<Longrightarrow> top_ok c entry"
  by (auto simp: suspended_ok_def top_ok_def split: prod.splits)

lemma chain_tail: "chain base (a # names) \<Longrightarrow> chain base names"
  by (cases names) auto

text \<open>A chain whose top is hopeless, or needs one of its own names, denotes nothing.\<close>

lemma chain_needs: "chain base (a # names) \<Longrightarrow> n \<in> set names \<Longrightarrow> \<exists>m \<in> set (a # names). needs base n m"
  by (induction names arbitrary: a) auto

lemma chain_stuck:
  assumes "chain base (a # names)" and "hopeless base a \<or> (\<exists>m \<in> set (a # names). needs base a m)"
    and "\<forall>n \<in> set (a # names). hm_get base n = None" and "n \<in> set (a # names)"
  shows "\<not> denotes base definitions den n v"
proof (rule stuck_denotes_nothing [OF _ assms(4)])
  show "\<forall>n \<in> set (a # names). hm_get base n = None \<and>
          ((\<exists>m \<in> set (a # names). needs base n m) \<or> hopeless base n)"
  proof (intro ballI conjI)
    fix n assume n: "n \<in> set (a # names)"
    then show "hm_get base n = None" using assms(3) by blast
    show "(\<exists>m \<in> set (a # names). needs base n m) \<or> hopeless base n"
      using n assms(2) chain_needs [OF assms(1), of n] by (cases "n = a") auto
  qed
qed

text \<open>The result of the top initializer is what its definition gives.\<close>

lemma run_top_result:
  assumes "top_ok c (n, sp, s)" and "hm_get definitions n = Some d"
  obtains s' where "run_top definitions phase initialize initializer c n sp s = Some (den n d c, s')"
    and "\<And>m sp. den n d c = Err (EeDependency m sp) \<Longrightarrow> \<exists>st. s' = Some st \<and> stage n d c st"
proof -
  obtain st where st: "stage n d c st" "(case s of None \<Rightarrow> initialize d | Some s \<Rightarrow> s) = st"
    using assms initialize_stage by (cases s) (auto simp: top_ok_def)
  then obtain st' where "initializer n d st c = Some (den n d c, st')"
    using initializer_result [OF st(1)] by auto
  then show thesis
    using that [of "Some st'"] st assms(2) initializer_stage [OF st(1)] by (simp add: run_top_def)
qed

lemma insert_value_sound:
  assumes sound: "cache_sound base definitions den c" and d: "hm_get definitions n = Some d"
    and v: "den n d c = Ok v" and new: "\<not> hm_contains (cv_values c) n" "\<not> cache_failed c n"
  shows "cache_sound base definitions den (insert_value n v c)"
proof -
  have "hm_get base n = None"
    using sound new(1) by (cases "hm_get base n") (auto simp: cache_sound_def hm_contains_def)
  moreover have "den n d (cache_of (cv_values c)) = Ok v"
    using den_later [OF v] by (simp add: values_more_cong)
  ultimately have "denotes base definitions den n v"
    using d sound by (intro declared [where known = "cv_values c"]) (auto simp: cache_sound_def)
  then show ?thesis
    using sound \<open>hm_get base n = None\<close>
    by (auto simp: cache_sound_def insert_value_def cache_failed_def)
qed

lemma record_failures_get:
  "hm_get (cv_failures (record_failures e names c)) n =
     (if n \<in> set names then Some e else hm_get (cv_failures c) n)"
proof -
  have "hm_get (foldl (\<lambda>m n. hm_insert n e m) m names) n = (if n \<in> set names then Some e else hm_get m n)" for m
    by (induction names arbitrary: m) auto
  then show ?thesis by (simp add: record_failures_def)
qed

lemma record_failures_sound:
  assumes "cache_sound base definitions den c" and "\<And>n v. n \<in> set names \<Longrightarrow> \<not> denotes base definitions den n v"
  shows "cache_sound base definitions den (record_failures e names c)"
  using assms
  by (auto simp: cache_sound_def cache_failed_def hm_contains_def record_failures_get)
     (auto simp: record_failures_def split: if_splits)

definition sched_done :: "(string, constant_value) hash_map \<Rightarrow> string \<Rightarrow> constant_values \<Rightarrow> scheduled \<Rightarrow> bool" where
  "sched_done base name c r \<longleftrightarrow>
     (\<exists>c' res. r = Some (c', res) \<and> cache_sound base definitions den c' \<and> values_more c c' \<and>
        (case res of Ok v \<Rightarrow> hm_get (cv_values c') name = Some v
         | Err e \<Rightarrow> hm_get (cv_failures c') name = Some e))"

lemma fail_pending_done:
  assumes sound: "cache_sound base definitions den c" and chain: "chain base (pending_names ((n, sp, s) # rest))"
    and stuck: "hopeless base n \<or> (\<exists>m \<in> set (pending_names ((n, sp, s) # rest)). needs base n m)"
    and new: "\<forall>m \<in> set (pending_names ((n, sp, s) # rest)). \<not> hm_contains (cv_values c) m"
    and name: "name \<in> set (pending_names ((n, sp, s) # rest))"
  shows "sched_done base name c (fail_pending e c ((n, sp, s) # rest))"
proof -
  let ?names = "pending_names ((n, sp, s) # rest)"
  have "hm_get base m = None" if "m \<in> set ?names" for m
    using that sound new by (cases "hm_get base m") (auto simp: cache_sound_def hm_contains_def)
  then have "\<not> denotes base definitions den m v" if "m \<in> set ?names" for m v
    using chain_stuck [of base n "pending_names rest"] chain stuck that by (simp add: pending_names_def)
  then have "cache_sound base definitions den (record_failures e (rev ?names) c)"
    by (intro record_failures_sound [OF sound]) auto
  then show ?thesis
    using name record_failures_get [of e "rev ?names" c name]
    by (auto simp: sched_done_def fail_pending_def record_failures_def intro: values_more_cong)
qed

lemma hm_remove_contains: "hm_contains (hm_remove k m) n \<longleftrightarrow> n \<noteq> k \<and> hm_contains m n"
  by (force simp: hm_contains_keys hm_remove_def)

lemma sched_step_ok:
  assumes inv: "sched_inv base name sc"
  shows "case sched_step definitions phase initialize initializer name sc of
           Inl r \<Rightarrow> sched_done base name (sc_cache sc) r
         | Inr sc' \<Rightarrow> sched_inv base name sc' \<and> (sc', sc) \<in> sched_measure \<and> values_more (sc_cache sc) (sc_cache sc')"
proof -
  let ?c = "sc_cache sc"
  obtain n sp s rest where pending: "sc_pending sc = (n, sp, s) # rest"
    using inv by (cases "sc_pending sc") (auto simp: sched_inv_def Let_def)
  let ?names = "n # pending_names rest"
  have sound: "cache_sound base definitions den ?c"
    and new: "\<forall>m \<in> set ?names. \<not> hm_contains (cv_values ?c) m \<and> \<not> cache_failed ?c m"
    and active: "active_ok (sc_active sc) ?names" and top: "top_ok ?c (n, sp, s)"
    and below: "list_all (suspended_ok ?c) rest" and chain: "chain base ?names"
    and distinct: "distinct ?names" and name: "last ?names = name"
    using inv pending by (simp_all add: sched_inv_def Let_def pending_names_def)
  have requested: "name \<in> set ?names" using name by (metis last_in_set list.distinct(1))
  note step = sched_step_def [of definitions phase initialize initializer name sc] pending
  show ?thesis
  proof (cases "hm_get definitions n")
    case None
    then have "hopeless base n" by (simp add: hopeless_def)
    then have "sched_done base name ?c (fail_pending e ?c ((n, sp, s) # rest))" for e
      using fail_pending_done [of base ?c n sp s rest name e] sound chain new requested
      by (simp add: pending_names_def)
    then show ?thesis using None step by (auto simp: run_top_def)
  next
    case (Some d)
    obtain s' where run: "run_top definitions phase initialize initializer ?c n sp s = Some (den n d ?c, s')"
      and stage: "\<And>m sp. den n d ?c = Err (EeDependency m sp) \<Longrightarrow> \<exists>st. s' = Some st \<and> stage n d ?c st"
      using run_top_result [OF top Some] by metis
    note step = step run
    show ?thesis
    proof (cases "den n d ?c")
      case (Inl err)
      show ?thesis
      proof (cases err)
        case (EeDiagnostic e)
        then have "hopeless base n" using diagnostic_hopeless [OF sound Some] Inl by metis
        then have "sched_done base name ?c (fail_pending e ?c ((n, sp, s') # rest))"
          using fail_pending_done [of base ?c n sp s' rest name e] sound chain new requested
          by (simp add: pending_names_def)
        then show ?thesis using step Inl EeDiagnostic by simp
      next
        case (EeDependency m msp)
        then have need: "needs base n m" using dependency_needs [OF sound Some] Inl by metis
        obtain st where st: "s' = Some st" "stage n d ?c st" using stage Inl EeDependency by blast
        have missing: "\<not> hm_contains (cv_values ?c) m" "\<not> cache_failed ?c m"
          using dependency_missing Inl EeDependency by metis+
        show ?thesis
        proof (cases "hm_get (sc_active sc) m")
          case (Some start)
          then have m: "m \<in> set ?names" using active by (auto simp: active_ok_def hm_contains_def)
          have "\<exists>d. hm_get definitions m = Some d"
            using m \<open>hm_get definitions n = Some d\<close> below
            by (auto simp: list_all_iff suspended_ok_def pending_names_def)
          then obtain dm where dm: "hm_get definitions m = Some dm" by blast
          have "sched_done base name ?c (fail_pending e ?c ((n, sp, s') # rest))" for e
            using fail_pending_done [of base ?c n sp s' rest name e] sound chain new requested need m
            by (simp add: pending_names_def) blast
          then show ?thesis using step Inl EeDependency Some dm by (simp add: Let_def)
        next
          case None
          then have "\<not> hm_contains (sc_active sc) m" by (simp add: hm_contains_def)
          then have m: "m \<notin> set ?names" using active unfolding active_ok_def by blast
          let ?sc' = "sc\<lparr>sc_pending := (m, msp, None) # (n, sp, s') # rest,
                         sc_active := hm_insert m (length ((n, sp, s') # rest)) (sc_active sc)\<rparr>"
          have all: "list_all (suspended_ok ?c) ((n, sp, s') # rest)"
            using below st \<open>hm_get definitions n = Some d\<close> by (simp add: suspended_ok_def)
          have "sched_inv base name ?sc'"
            using all m missing need sound new active chain distinct name
            by (auto simp: sched_inv_def Let_def pending_names_def top_ok_def active_ok_def)
          moreover have "length ((n, sp, s') # rest) \<le> card keys"
            using distinct by (intro pending_short [OF _ all]) (simp add: pending_names_def)
          then have "(?sc', sc) \<in> sched_measure"
            using pending by (simp add: sched_measure_def)
          ultimately show ?thesis using step Inl EeDependency None by (simp add: Let_def)
        qed
      qed
    next
      case (Inr v)
      let ?c' = "insert_value n v ?c"
      have v: "den n d ?c = Ok v" using Inr by simp
      have more: "values_more ?c ?c'" using new by (simp add: values_more_insert)
      have sound': "cache_sound base definitions den ?c'"
        using insert_value_sound [OF sound Some v] new by simp
      show ?thesis
      proof (cases "rest = []")
        case True
        then have "sched_done base name ?c (Some (?c', Ok v))"
          using name more sound' by (simp add: sched_done_def insert_value_def pending_names_def)
        then show ?thesis
          using step Inr True name by (simp add: Let_def insert_value_def pending_names_def)
      next
        case False
        let ?sc' = "sc\<lparr>sc_cache := ?c', sc_pending := rest, sc_active := hm_remove n (sc_active sc)\<rparr>"
        have "list_all (suspended_ok ?c') rest"
          using below more by (auto simp: list_all_iff intro: suspended_later)
        then have "sched_inv base name ?sc'"
          using False sound' new active chain_tail [OF chain] distinct name
          by (cases rest)
             (auto simp: sched_inv_def Let_def pending_names_def active_ok_def hm_remove_contains insert_value_def
               cache_failed_def intro: suspended_top)
        moreover have "card (keys - fst ` set (cv_values ?c')) < card (keys - fst ` set (cv_values ?c))"
        proof (rule psubset_card_mono)
          have "n \<in> keys" using Some by (auto simp: keys_get)
          then show "keys - fst ` set (cv_values ?c') \<subset> keys - fst ` set (cv_values ?c)"
            using new by (auto simp: insert_value_def hm_insert_def hm_contains_keys)
        qed simp
        then have "(?sc', sc) \<in> sched_measure" by (simp add: sched_measure_def)
        ultimately show ?thesis using step Inr False more by (simp add: Let_def)
      qed
    qed
  qed
qed

lemma sched_loop_done:
  "sched_inv base name sc \<Longrightarrow>
   \<exists>r. sched_loop definitions phase initialize initializer name sc = Some r \<and> sched_done base name (sc_cache sc) r"
proof (induction sc rule: wf_induct_rule [OF wf_sched_measure])
  case (1 sc)
  note step = sched_step_ok [OF "1.prems", of phase]
  show ?case
  proof (cases "sched_step definitions phase initialize initializer name sc")
    case (Inl r)
    then show ?thesis using step by (simp add: sched_loop.simps [of _ _ _ _ _ sc])
  next
    case (Inr sc')
    then have "sched_inv base name sc'" "(sc', sc) \<in> sched_measure" "values_more (sc_cache sc) (sc_cache sc')"
      using step by simp_all
    then show ?thesis
      using "1.IH" Inr values_more_trans
      by (fastforce simp: sched_loop.simps [of _ _ _ _ _ sc] sched_done_def)
  qed
qed

text \<open>A request always ends, without a panic, in a sound cache that holds its result.\<close>

lemma schedule_done:
  assumes "cache_sound base definitions den c"
  shows "\<exists>r. schedule definitions phase initialize initializer name sp c = Some r \<and> sched_done base name c r"
proof (cases "cache_lookup c name sp")
  case (Inr v)
  then show ?thesis
    using assms by (auto simp: schedule_def sched_done_def cache_lookup_def split: option.splits)
next
  case (Inl err)
  show ?thesis
  proof (cases err)
    case (EeDiagnostic e)
    then show ?thesis
      using assms Inl by (auto simp: schedule_def sched_done_def cache_lookup_def split: option.splits)
  next
    case (EeDependency m msp)
    then have "sched_inv base name \<lparr>sc_cache = c, sc_pending = [(name, sp, None)], sc_active = [(name, 0)]\<rparr>"
      using assms Inl
      by (auto simp: sched_inv_def Let_def pending_names_def active_ok_def top_ok_def cache_lookup_def
          hm_contains_def cache_failed_def hm_get_def split: option.splits)
    then show ?thesis
      using Inl EeDependency sched_loop_done [of base name _ phase] by (fastforce simp: schedule_def)
  qed
qed

lemma schedule_denotes:
  assumes "cache_sound base definitions den c"
  shows "(\<exists>c'. schedule definitions phase initialize initializer name sp c = Some (Some (c', Ok v))) \<longleftrightarrow>
         denotes base definitions den name v"
proof -
  obtain c' res where run: "schedule definitions phase initialize initializer name sp c = Some (Some (c', res))"
    and c': "cache_sound base definitions den c'"
    and res: "case res of Ok v \<Rightarrow> hm_get (cv_values c') name = Some v | Err e \<Rightarrow> hm_get (cv_failures c') name = Some e"
    using schedule_done [OF assms, of phase name sp] by (auto simp: sched_done_def)
  show ?thesis
  proof (cases res)
    case (Inl e)
    then have "cache_failed c' name" using res by (simp add: cache_failed_def hm_contains_def)
    then have "\<not> denotes base definitions den name v" using c' by (auto simp: cache_sound_def)
    then show ?thesis using run Inl by simp
  next
    case (Inr w)
    then have "denotes base definitions den name w" using c' res by (auto simp: cache_sound_def)
    then show ?thesis using run Inr denotes_unique by auto
  qed
qed

end

end
