(* ===== verification/Builtins.thy ===== *)
theory Builtins
  imports Ast Keyboard
begin

text \<open>
  The predefined functions and constants, \<^verbatim>\<open>src/src/builtins.rs\<close>.
\<close>

record builtin_function =
  bf_name :: string
  bf_params :: "value_type list"
  bf_return_type :: return_type
  bf_llvm_symbol :: string

definition builtin :: "string \<Rightarrow> value_type list \<Rightarrow> return_type \<Rightarrow> string \<Rightarrow> builtin_function" where
  "builtin n ps r symbol = \<lparr>bf_name = n, bf_params = ps, bf_return_type = r, bf_llvm_symbol = symbol\<rparr>"

definition FUNCTIONS :: "builtin_function list" where
  "FUNCTIONS =
    [builtin ''load_i32'' [VtI32, VtI32] (RtValue VtI32) ''@crumb_load_i32'',
     builtin ''save_i32'' [VtI32, VtI32] (RtValue VtBool) ''@crumb_save_i32'',
     builtin ''tone'' [VtF32, VtF32, VtF32] RtVoid ''@crumb_tone'',
     builtin ''noise'' [VtF32, VtF32] RtVoid ''@crumb_noise'',
     builtin ''sound_play'' [VtI32, VtF32] RtVoid ''@crumb_sound_play'',
     builtin ''sound_pause'' [] RtVoid ''@crumb_sound_pause'',
     builtin ''sound_resume'' [] RtVoid ''@crumb_sound_resume'',
     builtin ''sound_stop'' [] RtVoid ''@crumb_sound_stop'',
     builtin ''sound_position'' [] (RtValue VtF32) ''@crumb_sound_position'',
     builtin ''sound_seek'' [VtF32] RtVoid ''@crumb_sound_seek'',
     builtin ''sin'' [VtF32] (RtValue VtF32) ''@crumb_sin'',
     builtin ''print_i32'' [VtI32] RtVoid ''@crumb_print_i32'',
     builtin ''debug_frame'' [VtI32, VtF32] RtVoid ''@crumb_debug_frame'',
     builtin ''clear_rgb'' [VtI32, VtI32, VtI32] RtVoid ''@crumb_clear_rgb'',
     builtin ''fill_rect'' (replicate 7 VtI32) RtVoid ''@crumb_fill_rect'',
     builtin ''key_down'' [VtI32] (RtValue VtBool) ''@crumb_key_down'',
     builtin ''key_pressed'' [VtI32] (RtValue VtBool) ''@crumb_key_pressed'',
     builtin ''key_released'' [VtI32] (RtValue VtBool) ''@crumb_key_released'',
     builtin ''quit'' [] RtVoid ''@crumb_request_quit'']"

text \<open>The predefined values of a game: its keys, and the size of its framebuffer.\<close>

definition builtin_constants :: "resolution \<Rightarrow> (string \<times> constant_value) list" where
  "builtin_constants r =
     map (\<lambda>info. (ki_name info, CvI32 (ucast (key_id (ki_key info))))) KEYS
     @ [(''FRAMEBUFFER_WIDTH'', CvI32 (ucast (res_width r))),
        (''FRAMEBUFFER_HEIGHT'', CvI32 (ucast (res_height r)))]"

definition is_predefined_constant :: "string \<Rightarrow> bool" where
  "is_predefined_constant n \<longleftrightarrow> list_ex (\<lambda>(m, v). m = n) (builtin_constants resolution_default)"

definition find_builtin :: "string \<Rightarrow> builtin_function option" where
  "find_builtin n = find (\<lambda>f. bf_name f = n) FUNCTIONS"

section \<open>Lemmas\<close>

lemma builtin_constants_i32: "(n, v) \<in> set (builtin_constants r) \<Longrightarrow> \<exists>i. v = CvI32 i"
  by (auto simp: builtin_constants_def)

lemma builtin_constant_name: "n \<in> fst ` set (builtin_constants r) \<Longrightarrow> hd n = CHR ''K'' \<or> hd n = CHR ''F''"
  by (auto simp: builtin_constants_def KEYS_def key_info_of_def)

lemma builtin_constants_get:
  "hm_get (hm_collect (builtin_constants r)) n = Some v \<Longrightarrow> \<exists>i. v = CvI32 i"
  using builtin_constants_i32 map_of_SomeD by (fastforce simp: hm_get_def hm_collect_def)

lemma builtin_constants_other:
  "hd n \<noteq> CHR ''K'' \<Longrightarrow> hd n \<noteq> CHR ''F'' \<Longrightarrow> hm_get (hm_collect (builtin_constants r)) n = None"
  using builtin_constant_name [of n r] by (auto simp: hm_get_def hm_collect_def map_of_eq_None_iff)

text \<open>The names do not depend on the framebuffer.\<close>

lemma builtin_constants_names: "map fst (builtin_constants r) = map fst (builtin_constants r')"
  by (simp add: builtin_constants_def)

lemma is_predefined_constant_get:
  "is_predefined_constant n \<longleftrightarrow> hm_contains (hm_collect (builtin_constants r)) n"
proof -
  have "is_predefined_constant n \<longleftrightarrow> n \<in> set (map fst (builtin_constants resolution_default))"
    by (force simp: is_predefined_constant_def list_ex_iff)
  also have "\<dots> \<longleftrightarrow> n \<in> set (map fst (builtin_constants r))"
    using builtin_constants_names by metis
  finally show ?thesis by (simp add: hm_contains_keys hm_collect_def)
qed

end
