(* ===== verification/Constant_Evaluator.thy ===== *)
theory Constant_Evaluator
  imports Constant_Scheduler_Correct Builtins
begin

text \<open>
  The values of constants and of global initializers, \<^verbatim>\<open>src/src/sema/constants.rs\<close>:
  the stack machine of \<^verbatim>\<open>evaluation.rs\<close> run by the scheduler of
  \<^verbatim>\<open>dependencies.rs\<close>. The locale \<open>cache_view\<close> is the interface between
  them, a lookup that reads a cache; it is interpreted on the two lookups of the program.
\<close>

section \<open>Lookups that read a cache\<close>

locale cache_view =
  fixes look :: "constant_values \<Rightarrow> string \<Rightarrow> span \<Rightarrow> (evaluation_error, constant_value) result"
  assumes look_more: "look c n s = Ok v \<Longrightarrow> values_more c c' \<Longrightarrow> look c' n s = Ok v"
    and look_known: "look c n s = Ok v \<Longrightarrow> hm_contains (cv_values c) n"
    and look_dependency:
      "look c n s = Err (EeDependency m sp) \<Longrightarrow> m = n \<and> \<not> hm_contains (cv_values c) n \<and> \<not> cache_failed c n"
    and look_failed:
      "look c n s = Err (EeDiagnostic e) \<Longrightarrow> look c' n s = Ok v \<Longrightarrow> cache_failed c n \<and> \<not> hm_contains (cv_values c) n"
begin

lemma knows_more: "values_more c c' \<Longrightarrow> knows_more (look c) (look c')"
  by (auto simp: knows_more_def intro: look_more)

lemma eval_later:
  "eval EeDiagnostic structs (look c) ex e = Ok v \<Longrightarrow> values_more c c' \<Longrightarrow> eval EeDiagnostic structs (look c') ex e = Ok v"
  using eval_knows_more knows_more by blast

text \<open>What is computed from lookups and would succeed with more values was blocked by a lookup.\<close>

lemma agrees_later: "agrees (look c) (look c') r r' \<Longrightarrow> r = Ok v \<Longrightarrow> r' = Ok v"
  by (auto simp: agrees_def blocked_by_def)

lemma agrees_blocked:
  assumes "agrees (look c) (look c') r r'" and "r = Err err" and "r' = Ok v"
  shows "\<exists>n s w. look c n s = Err err \<and> look c' n s = Ok w"
proof -
  obtain n s where n: "look c n s = Err err" and fails: "\<forall>err'. look c' n s = Err err' \<longrightarrow> r' = Err err'"
    using assms by (auto simp: agrees_def blocked_by_def)
  then obtain w where "look c' n s = Ok w" using assms(3) by (cases "look c' n s") auto
  then show ?thesis using n by blast
qed

lemma dependency_blocked:
  assumes "agrees (look c) (look c') r r'" and "r = Err (EeDependency m sp)" and "r' = Ok v"
  shows "hm_contains (cv_values c') m"
proof -
  obtain n s w where "look c n s = Err (EeDependency m sp)" "look c' n s = Ok w"
    using agrees_blocked [OF assms] by blast
  then show ?thesis using look_dependency look_known by blast
qed

lemma diagnostic_blocked:
  assumes "agrees (look c) (look c') r r'" and "r = Err (EeDiagnostic d)" and "r' = Ok v"
  shows "\<exists>m. cache_failed c m \<and> \<not> hm_contains (cv_values c) m \<and> hm_contains (cv_values c') m"
proof -
  obtain n s w where "look c n s = Err (EeDiagnostic d)" "look c' n s = Ok w"
    using agrees_blocked [OF assms] by blast
  then show ?thesis using look_failed look_known by blast
qed

lemma dependency_is_missing:
  "fails_from EeDiagnostic (look c) r \<Longrightarrow> r = Err (EeDependency m sp) \<Longrightarrow>
   \<not> hm_contains (cv_values c) m \<and> \<not> cache_failed c m"
  using look_dependency by (fastforce simp: fails_from_def)

text \<open>A suspended evaluation is at a stage of the evaluation from scratch.\<close>

definition eval_stage ::
  "(string, struct_decl) hash_map \<Rightarrow> value_type option \<Rightarrow> expr \<Rightarrow> constant_values \<Rightarrow> evaluation \<Rightarrow> bool" where
  "eval_stage structs ex e c ev \<longleftrightarrow>
     (\<forall>c'. values_more c c' \<longrightarrow>
        map_option fst (resume EeDiagnostic structs (look c') ev) = Some (eval EeDiagnostic structs (look c') ex e))"

lemma eval_stage_new: "eval_stage structs ex e c (evaluation_new e ex)"
  by (simp add: eval_stage_def resume_evaluation_new)

lemma eval_stage_later: "eval_stage structs ex e c ev \<Longrightarrow> values_more c c' \<Longrightarrow> eval_stage structs ex e c' ev"
  using values_more_trans by (auto simp: eval_stage_def)

lemma eval_stage_result:
  "eval_stage structs ex e c ev \<Longrightarrow>
   map_option fst (resume EeDiagnostic structs (look c) ev) = Some (eval EeDiagnostic structs (look c) ex e)"
  by (simp add: eval_stage_def)

lemma eval_stage_suspended:
  assumes "eval_stage structs ex e c ev"
    and "resume EeDiagnostic structs (look c) ev = Some (Err (EeDependency m sp), ev')"
  shows "eval_stage structs ex e c ev'"
  using assms resume_suspended [OF assms(2) _ knows_more] by (fastforce simp: eval_stage_def)

end

interpretation cached: cache_view cache_lookup
  by unfold_locales
     (auto simp: cache_lookup_def values_more_def hm_contains_def cache_failed_def split: option.splits)

section \<open>Constants\<close>

record constant_evaluator =
  ce_definitions :: "(string, constant_definition) hash_map"
  ce_globals :: "(string, value_type) hash_map"
  ce_structs :: "(string, struct_decl) hash_map"
  ce_invalid :: "string list"
  ce_cache :: constant_values

definition constant_values_new :: "resolution \<Rightarrow> constant_values" where
  "constant_values_new r = \<lparr>cv_values = hm_collect (builtin_constants r), cv_failures = []\<rparr>"

definition constant_evaluator_new ::
  "(string, constant_definition) hash_map \<Rightarrow> (string, value_type) hash_map \<Rightarrow> (string, struct_decl) hash_map \<Rightarrow>
   string list \<Rightarrow> resolution \<Rightarrow> constant_evaluator" where
  "constant_evaluator_new definitions globals structs invalid r =
     \<lparr>ce_definitions = definitions, ce_globals = globals, ce_structs = structs, ce_invalid = invalid,
      ce_cache = constant_values_new r\<rparr>"

definition err_constant_type :: "string \<Rightarrow> value_type \<Rightarrow> value_type \<Rightarrow> string" where
  "err_constant_type n declared found =
     ''constant `'' @ n @ ''` has declared type `'' @ value_type_name declared
     @ ''`, but its initializer evaluates to `'' @ value_type_name found @ ''`''"

definition validate_constant_type ::
  "string \<Rightarrow> constant_definition \<Rightarrow> value_type \<Rightarrow> constant_value \<Rightarrow> (diagnostic, constant_value) result" where
  "validate_constant_type n definition ty v =
     (if constant_value_ty v = ty then Ok v
      else Err (diag (err_constant_type n ty (constant_value_ty v)) (expr_span (def_init definition))))"

definition err_invalid_initializer :: "string \<Rightarrow> string" where
  "err_invalid_initializer n = ''constant `'' @ n @ ''` has an invalid initializer''"

definition err_constant_global :: "string \<Rightarrow> string" where
  "err_constant_global n = ''constant expressions cannot reference mutable global `'' @ n @ ''`''"

definition constant_lookup ::
  "(string, value_type) hash_map \<Rightarrow> constant_values \<Rightarrow> string \<Rightarrow> span \<Rightarrow> (evaluation_error, constant_value) result" where
  "constant_lookup globals cache n s =
     (if hm_contains globals n then Err (EeDiagnostic (diag (err_constant_global n) s)) else cache_lookup cache n s)"

definition constant_initializer ::
  "(string, value_type) hash_map \<Rightarrow> (string, struct_decl) hash_map \<Rightarrow> string list \<Rightarrow> evaluation initializer" where
  "constant_initializer globals structs invalid n definition ev cache =
     (if n \<in> set invalid then Some (Err (EeDiagnostic (diag (err_invalid_initializer n) (def_span definition))), ev)
      else map_option
             (\<lambda>(r, ev'). (rbind r (\<lambda>v. lift_diag EeDiagnostic
                (validate_constant_type n definition (def_ty definition) v)), ev'))
             (resume EeDiagnostic structs (constant_lookup globals cache) ev))"

text \<open>The outer \<^const>\<open>None\<close> would be a request that does not end, the inner one is a panic.\<close>

definition evaluate_named ::
  "string \<Rightarrow> constant_evaluator \<Rightarrow> (constant_evaluator \<times> (diagnostic, constant_value) result) option option" where
  "evaluate_named n ce =
     (case hm_get (ce_definitions ce) n of
        None \<Rightarrow> Some None
      | Some definition \<Rightarrow>
          map_option (map_option (\<lambda>(cache, r). (ce\<lparr>ce_cache := cache\<rparr>, r)))
            (schedule (ce_definitions ce) PhConstant (\<lambda>d. evaluation_new (def_init d) (Some (def_ty d)))
               (constant_initializer (ce_globals ce) (ce_structs ce) (ce_invalid ce))
               n (def_span definition) (ce_cache ce)))"

text \<open>The meaning of one definition.\<close>

definition constant_den ::
  "(string, value_type) hash_map \<Rightarrow> (string, struct_decl) hash_map \<Rightarrow> string list \<Rightarrow>
   string \<Rightarrow> constant_definition \<Rightarrow> constant_values \<Rightarrow> (evaluation_error, constant_value) result" where
  "constant_den globals structs invalid n definition cache =
     (if n \<in> set invalid then Err (EeDiagnostic (diag (err_invalid_initializer n) (def_span definition)))
      else rbind (eval EeDiagnostic structs (constant_lookup globals cache) (Some (def_ty definition)) (def_init definition))
             (\<lambda>v. lift_diag EeDiagnostic (validate_constant_type n definition (def_ty definition) v)))"

section \<open>Global initializers and constant expressions\<close>

definition initializer_lookup ::
  "(string, constant_value) hash_map \<Rightarrow> (string, value_type) hash_map \<Rightarrow> string \<Rightarrow> span \<Rightarrow>
   (diagnostic, constant_value) result" where
  "initializer_lookup constants globals n s =
     (case hm_get constants n of
        Some v \<Rightarrow> Ok v
      | None \<Rightarrow>
          if hm_contains globals n
          then Err (diag (''global initializers cannot reference mutable global `'' @ n @ ''`'') s)
          else Err (diag (''`'' @ n @ ''` is not a compile-time constant'') s))"

definition evaluate_initializer ::
  "expr \<Rightarrow> value_type \<Rightarrow> (string, constant_value) hash_map \<Rightarrow> (string, value_type) hash_map \<Rightarrow>
   (string, struct_decl) hash_map \<Rightarrow> (string, constant_value) result option" where
  "evaluate_initializer e expected constants globals structs =
     map_option (\<lambda>(r, ev). case r of Inl d \<Rightarrow> Err (message d) | Inr v \<Rightarrow> Ok v)
       (resume (\<lambda>d. d) structs (initializer_lookup constants globals) (evaluation_new e (Some expected)))"

definition evaluate_expression ::
  "expr \<Rightarrow> (string \<Rightarrow> span \<Rightarrow> (diagnostic, constant_value) result) \<Rightarrow> (diagnostic, constant_value) result option" where
  "evaluate_expression e lookup = map_option fst (resume (\<lambda>d. d) [] lookup (evaluation_new e None))"

section \<open>The constants of a program\<close>

interpretation constant_view: cache_view "constant_lookup globals" for globals
  by unfold_locales
     (auto simp: constant_lookup_def cache_lookup_def values_more_def hm_contains_def cache_failed_def
       split: option.splits if_splits)

lemma lift_diag_validate:
  "lift_diag EeDiagnostic (validate_constant_type n d ty v) =
     (if constant_value_ty v = ty then Ok v
      else Err (EeDiagnostic (diag (err_constant_type n ty (constant_value_ty v)) (expr_span (def_init d)))))"
  by (simp add: validate_constant_type_def)

lemma constant_den_Ok:
  "constant_den globals structs invalid n d c = Ok v \<longleftrightarrow>
     n \<notin> set invalid \<and> eval EeDiagnostic structs (constant_lookup globals c) (Some (def_ty d)) (def_init d) = Ok v \<and>
     constant_value_ty v = def_ty d"
  by (auto simp: constant_den_def rbind_eq_Ok lift_diag_validate)

lemma constant_den_agrees:
  "values_more c c' \<Longrightarrow>
   agrees (constant_lookup globals c) (constant_lookup globals c') (constant_den globals structs invalid n d c)
     (constant_den globals structs invalid n d c')"
  by (auto simp: constant_den_def intro!: agrees_rbind agrees_refl agrees_eval constant_view.knows_more)

lemma constant_den_fails_from:
  "fails_from EeDiagnostic (constant_lookup globals c) (constant_den globals structs invalid n d c)"
  by (auto simp: constant_den_def fails_from_def [of _ _ "Inl _"] intro!: fails_from_rbind)

text \<open>The constant initializer fulfils the contract of the scheduler.\<close>

abbreviation constant_stage ::
  "(string, value_type) hash_map \<Rightarrow> (string, struct_decl) hash_map \<Rightarrow> string \<Rightarrow> constant_definition \<Rightarrow>
   constant_values \<Rightarrow> evaluation \<Rightarrow> bool" where
  "constant_stage globals structs n d \<equiv>
     cache_view.eval_stage (constant_lookup globals) structs (Some (def_ty d)) (def_init d)"

interpretation declared_constants: declaration_scheduler definitions
    "\<lambda>d. evaluation_new (def_init d) (Some (def_ty d))" "constant_initializer globals structs invalid"
    "constant_den globals structs invalid" "constant_stage globals structs"
  for definitions globals structs invalid
proof unfold_locales
  fix n d c c' s s' v m sp e
  show "constant_stage globals structs n d c (evaluation_new (def_init d) (Some (def_ty d)))"
    by (rule constant_view.eval_stage_new)
  show "constant_stage globals structs n d c s \<Longrightarrow> values_more c c' \<Longrightarrow> constant_stage globals structs n d c' s"
    by (rule constant_view.eval_stage_later)
  show "constant_stage globals structs n d c s \<Longrightarrow>
      map_option fst (constant_initializer globals structs invalid n d s c) = Some (constant_den globals structs invalid n d c)"
    by (auto dest!: constant_view.eval_stage_result simp: constant_initializer_def constant_den_def)
  show "constant_stage globals structs n d c s'"
    if stage: "constant_stage globals structs n d c s"
      and init: "constant_initializer globals structs invalid n d s c = Some (Err (EeDependency m sp), s')"
  proof -
    obtain r where r: "resume EeDiagnostic structs (constant_lookup globals c) s = Some (r, s')"
      "rbind r (\<lambda>v. lift_diag EeDiagnostic (validate_constant_type n d (def_ty d) v)) = Err (EeDependency m sp)"
      using init by (auto simp: constant_initializer_def split: if_splits)
    then have "r = Err (EeDependency m sp)"
      by (cases r) (auto simp: lift_diag_validate split: if_splits)
    then show ?thesis using constant_view.eval_stage_suspended stage r(1) by blast
  qed
  show "constant_den globals structs invalid n d c = Ok v \<Longrightarrow> values_more c c' \<Longrightarrow>
      constant_den globals structs invalid n d c' = Ok v"
    using constant_view.agrees_later [OF constant_den_agrees] .
  show "constant_den globals structs invalid n d c = Err (EeDependency m sp) \<Longrightarrow>
      constant_den globals structs invalid n d c' = Ok v \<Longrightarrow> values_more c c' \<Longrightarrow> hm_contains (cv_values c') m"
    using constant_view.dependency_blocked [OF constant_den_agrees] .
  show "constant_den globals structs invalid n d c = Err (EeDependency m sp) \<Longrightarrow>
      \<not> hm_contains (cv_values c) m \<and> \<not> cache_failed c m"
    using constant_view.dependency_is_missing [OF constant_den_fails_from] .
  show "constant_den globals structs invalid n d c = Err (EeDiagnostic e) \<Longrightarrow>
      constant_den globals structs invalid n d c' = Ok v \<Longrightarrow> values_more c c' \<Longrightarrow>
      \<exists>m. cache_failed c m \<and> \<not> hm_contains (cv_values c) m \<and> hm_contains (cv_values c') m"
    using constant_view.diagnostic_blocked [OF constant_den_agrees] .
qed

text \<open>What the constants of an evaluator denote, and the states it goes through.\<close>

definition constant_denotes :: "resolution \<Rightarrow> constant_evaluator \<Rightarrow> string \<Rightarrow> constant_value \<Rightarrow> bool" where
  "constant_denotes r ce =
     denotes (hm_collect (builtin_constants r)) (ce_definitions ce)
       (constant_den (ce_globals ce) (ce_structs ce) (ce_invalid ce))"

definition evaluator_sound :: "resolution \<Rightarrow> constant_evaluator \<Rightarrow> bool" where
  "evaluator_sound r ce \<longleftrightarrow>
     cache_sound (hm_collect (builtin_constants r)) (ce_definitions ce)
       (constant_den (ce_globals ce) (ce_structs ce) (ce_invalid ce)) (ce_cache ce)"

lemma evaluator_sound_new: "evaluator_sound r (constant_evaluator_new definitions globals structs invalid r)"
  using cache_sound_new
  by (simp add: evaluator_sound_def constant_evaluator_new_def constant_values_new_def cache_of_def)

text \<open>A request of a declared constant, in the terms of the scheduler.\<close>

lemma evaluate_named_declared:
  "hm_get (ce_definitions ce) n = Some d \<Longrightarrow>
   evaluate_named n ce =
     map_option (map_option (\<lambda>(cache, r). (ce\<lparr>ce_cache := cache\<rparr>, r)))
       (schedule (ce_definitions ce) PhConstant (\<lambda>d. evaluation_new (def_init d) (Some (def_ty d)))
          (constant_initializer (ce_globals ce) (ce_structs ce) (ce_invalid ce)) n (def_span d) (ce_cache ce))"
  by (simp add: evaluate_named_def)

lemma evaluate_named_done:
  assumes "evaluator_sound r ce" and "hm_contains (ce_definitions ce) n"
  shows "\<exists>ce' res. evaluate_named n ce = Some (Some (ce', res)) \<and> evaluator_sound r ce' \<and>
    values_more (ce_cache ce) (ce_cache ce') \<and>
    (case res of Ok v \<Rightarrow> hm_get (cv_values (ce_cache ce')) n = Some v
     | Err e \<Rightarrow> hm_get (cv_failures (ce_cache ce')) n = Some e)"
proof -
  obtain d where d: "hm_get (ce_definitions ce) n = Some d" using assms(2) by (auto simp: hm_contains_def)
  obtain c' res where "schedule (ce_definitions ce) PhConstant (\<lambda>d. evaluation_new (def_init d) (Some (def_ty d)))
      (constant_initializer (ce_globals ce) (ce_structs ce) (ce_invalid ce)) n (def_span d) (ce_cache ce)
      = Some (Some (c', res))"
    and sound: "cache_sound (hm_collect (builtin_constants r)) (ce_definitions ce)
       (constant_den (ce_globals ce) (ce_structs ce) (ce_invalid ce)) c'" "values_more (ce_cache ce) c'"
    and res: "case res of Ok v \<Rightarrow> hm_get (cv_values c') n = Some v | Err e \<Rightarrow> hm_get (cv_failures c') n = Some e"
    using declared_constants.schedule_done [OF assms(1) [unfolded evaluator_sound_def], of PhConstant n "def_span d"]
    by (auto simp: declared_constants.sched_done_def)
  then have "evaluate_named n ce = Some (Some (ce\<lparr>ce_cache := c'\<rparr>, res))"
    using evaluate_named_declared [OF d] by simp
  then show ?thesis using sound res by (cases res) (simp_all add: evaluator_sound_def)
qed

lemma constant_denotes_depth:
  "denotes (hm_collect (builtin_constants r)) definitions (constant_den globals structs invalid) n v \<Longrightarrow>
   cv_depth v \<le> MAX_CONSTANT_AGGREGATE_DEPTH"
proof (induction rule: denotes.induct)
  case (predefined n v)
  then show ?case using builtin_constants_get by fastforce
next
  case (declared n d known v)
  have "cv_depth w \<le> MAX_CONSTANT_AGGREGATE_DEPTH" if "constant_lookup globals (cache_of known) m s = Ok w" for m s w
    using that declared.IH by (auto simp: constant_lookup_def cache_lookup_def split: if_splits option.splits)
  then show ?case using declared.hyps(3) eval_depth unfolding constant_den_Ok by blast
qed

lemma evaluate_named_denotes:
  assumes "evaluator_sound r ce" and "hm_contains (ce_definitions ce) n"
  shows "(\<exists>ce'. evaluate_named n ce = Some (Some (ce', Ok v))) \<longleftrightarrow> constant_denotes r ce n v"
proof -
  obtain d where d: "hm_get (ce_definitions ce) n = Some d" using assms(2) by (auto simp: hm_contains_def)
  then have "(\<exists>ce'. evaluate_named n ce = Some (Some (ce', Ok v))) \<longleftrightarrow>
      (\<exists>c'. schedule (ce_definitions ce) PhConstant (\<lambda>d. evaluation_new (def_init d) (Some (def_ty d)))
          (constant_initializer (ce_globals ce) (ce_structs ce) (ce_invalid ce)) n (def_span d) (ce_cache ce)
        = Some (Some (c', Ok v)))"
    by (auto simp: evaluate_named_declared)
  then show ?thesis
    using declared_constants.schedule_denotes [OF assms(1) [unfolded evaluator_sound_def]]
    by (simp add: constant_denotes_def)
qed

section \<open>Properties\<close>

text \<open>
  C26 The resumable evaluation with its explicit stacks of tasks and values computes the recursive
  function \<open>eval\<close>: it always returns, its operands never run out, and the result or the first error
  from left to right is that of \<open>eval\<close>.\<close>

lemma resume_computes_eval:
  "map_option fst (resume from_diag structs lookup (evaluation_new e expected)) =
     Some (eval from_diag structs lookup expected e)"
  by (rule resume_evaluation_new)

text \<open>
  An initializer suspended at a name that had no value yet, and resumed when more values are
  cached, ends as an evaluation from scratch under the larger cache would: the operands computed before
  the suspension are not lost and not computed again.\<close>

lemma suspended_initializer_continues:
  assumes "resume EeDiagnostic structs (constant_lookup globals c) (evaluation_new e expected)
      = Some (Err (EeDependency m sp), ev)"
    and "values_more c c'"
  shows "map_option fst (resume EeDiagnostic structs (constant_lookup globals c') ev)
      = Some (eval EeDiagnostic structs (constant_lookup globals c') expected e)"
proof -
  have "cache_view.eval_stage (constant_lookup globals) structs expected e c ev"
    using constant_view.eval_stage_suspended [OF constant_view.eval_stage_new assms(1)] .
  then show ?thesis
    using constant_view.eval_stage_later [OF _ assms(2)] constant_view.eval_stage_result by blast
qed

definition sample_span :: span where
  "sample_span = span_new 0 1"

definition sample_reference :: expr where
  "sample_reference = Expr (ExVariable ''A'') sample_span"

lemma suspended_initializer_continues_witness:
  "\<exists>ev. map_option fst (resume EeDiagnostic [] (constant_lookup [] (cache_of [(''A'', CvI32 2)])) ev)
      = Some (eval EeDiagnostic [] (constant_lookup [] (cache_of [(''A'', CvI32 2)])) None sample_reference)"
proof -
  have "resume EeDiagnostic [] (constant_lookup [] (cache_of [])) (evaluation_new sample_reference None)
      = Some (Err (EeDependency ''A'' sample_span), evaluation_new sample_reference None)"
    by (subst resume.simps) (simp add: evaluation_new_def sample_reference_def ev_step_def push_tasks_def
        constant_lookup_def cache_lookup_def hm_contains_def)
  moreover have "values_more (cache_of []) (cache_of [(''A'', CvI32 2)])"
    by (simp add: values_more_def)
  ultimately show ?thesis
    using suspended_initializer_continues by blast
qed

text \<open>
  C25 Requests of constants are total: from a sound evaluator the scheduler returns, without a panic,
  a sound evaluator that keeps every cached value and has cached the result, the value or the diagnostic.\<close>

lemma constant_request_total:
  assumes "evaluator_sound r ce" and "hm_contains (ce_definitions ce) n"
  shows "\<exists>ce' res. evaluate_named n ce = Some (Some (ce', res)) \<and> evaluator_sound r ce' \<and>
    values_more (ce_cache ce) (ce_cache ce') \<and>
    (case res of Ok v \<Rightarrow> hm_get (cv_values (ce_cache ce')) n = Some v
     | Err e \<Rightarrow> hm_get (cv_failures (ce_cache ce')) n = Some e)"
  using assms by (rule evaluate_named_done)

definition sample_definition :: constant_definition where
  "sample_definition = \<lparr>def_ty = VtI32, def_init = Expr (ExI32 7) sample_span, def_span = sample_span\<rparr>"

definition sample_evaluator :: constant_evaluator where
  "sample_evaluator = constant_evaluator_new [(''A'', sample_definition)] [] [] [] resolution_default"

lemma sample_evaluator_ok:
  "evaluator_sound resolution_default sample_evaluator" "hm_contains (ce_definitions sample_evaluator) ''A''"
  by (simp add: sample_evaluator_def evaluator_sound_new)
     (simp add: sample_evaluator_def constant_evaluator_new_def hm_contains_keys)

lemma sample_evaluator_denotes: "constant_denotes resolution_default sample_evaluator ''A'' (CvI32 7)"
  unfolding constant_denotes_def
proof (rule declared [where known = "[]" and d = sample_definition])
  show "hm_get (hm_collect (builtin_constants resolution_default)) ''A'' = None"
    by (rule builtin_constants_other) simp_all
  show "constant_den (ce_globals sample_evaluator) (ce_structs sample_evaluator) (ce_invalid sample_evaluator) ''A''
      sample_definition (cache_of []) = Ok (CvI32 7)"
    by (simp add: sample_evaluator_def constant_evaluator_new_def sample_definition_def constant_den_Ok eval.simps
        i32_try_from_def fits_i32_def i32_min_def i32_max_def)
qed (simp_all add: sample_evaluator_def constant_evaluator_new_def hm_get_def)

lemma constant_request_total_witness:
  "\<exists>ce' res. evaluate_named ''A'' sample_evaluator = Some (Some (ce', res)) \<and> evaluator_sound resolution_default ce' \<and>
    values_more (ce_cache sample_evaluator) (ce_cache ce') \<and>
    (case res of Ok v \<Rightarrow> hm_get (cv_values (ce_cache ce')) ''A'' = Some v
     | Err e \<Rightarrow> hm_get (cv_failures (ce_cache ce')) ''A'' = Some e)"
  using constant_request_total [OF sample_evaluator_ok] .

text \<open>
  C24 A request of a constant gives a value exactly when the declarations denote it: the value of
  its initializer over constants that denote values themselves, whatever requests came before, and no
  value when the constant is unknown, ill-typed, or depends on itself.\<close>

lemma constant_request_denotes:
  assumes "evaluator_sound r ce" and "hm_contains (ce_definitions ce) n"
  shows "(\<exists>ce'. evaluate_named n ce = Some (Some (ce', Ok v))) \<longleftrightarrow> constant_denotes r ce n v"
  using assms by (rule evaluate_named_denotes)

lemma constant_request_denotes_witness: "\<exists>ce'. evaluate_named ''A'' sample_evaluator = Some (Some (ce', Ok (CvI32 7)))"
proof -
  have "constant_denotes resolution_default sample_evaluator ''A'' (CvI32 7)"
    by (rule sample_evaluator_denotes)
  then show ?thesis using constant_request_denotes [OF sample_evaluator_ok] by blast
qed

text \<open>
  C28 Aggregate values are never nested deeper than the limit, however the declarations that build
  them are spread: cloning, dropping and printing a constant recurses to a bounded depth.\<close>

lemma constant_depth_bounded:
  assumes "evaluator_sound r ce" and "hm_contains (ce_definitions ce) n"
    and "evaluate_named n ce = Some (Some (ce', Ok v))"
  shows "cv_depth v \<le> MAX_CONSTANT_AGGREGATE_DEPTH"
proof -
  have "constant_denotes r ce n v" using assms evaluate_named_denotes by blast
  then show ?thesis unfolding constant_denotes_def by (rule constant_denotes_depth)
qed

lemma constant_depth_bounded_witness: "cv_depth (CvI32 7) \<le> MAX_CONSTANT_AGGREGATE_DEPTH"
  using constant_depth_bounded [OF sample_evaluator_ok] sample_evaluator_denotes
    evaluate_named_denotes [OF sample_evaluator_ok] by metis

text \<open>
  C27 The value of a declared constant, other than one with a predefined name, is of its declared
  type.\<close>

lemma constant_has_declared_type:
  assumes "evaluator_sound r ce" and "hm_get (ce_definitions ce) n = Some d"
    and "hm_get (hm_collect (builtin_constants r)) n = None"
    and "evaluate_named n ce = Some (Some (ce', Ok v))"
  shows "constant_value_ty v = def_ty d"
proof -
  have "constant_denotes r ce n v"
    using assms evaluate_named_denotes [OF assms(1), of n v] by (auto simp: hm_contains_def)
  then show ?thesis
    unfolding constant_denotes_def by (cases rule: denotes.cases) (use assms(2,3) in \<open>auto simp: constant_den_Ok\<close>)
qed

lemma constant_has_declared_type_witness: "constant_value_ty (CvI32 7) = def_ty sample_definition"
proof -
  have "hm_get (ce_definitions sample_evaluator) ''A'' = Some sample_definition"
    by (simp add: sample_evaluator_def constant_evaluator_new_def hm_get_def)
  moreover have "hm_get (hm_collect (builtin_constants resolution_default)) ''A'' = None"
    by (rule builtin_constants_other) simp_all
  ultimately show ?thesis
    using constant_has_declared_type [OF sample_evaluator_ok(1)] sample_evaluator_denotes
      evaluate_named_denotes [OF sample_evaluator_ok] by metis
qed

end
