(* ===== verification/Type_Resolution.thy ===== *)
theory Type_Resolution
  imports Constant_Evaluator
begin

text \<open>
  Resolution of declared array lengths, \<^verbatim>\<open>src/src/sema/type_resolution.rs\<close>. A length
  is a literal or the name of a constant, whose initializer may itself have types with lengths: the
  initializers of this phase first demand every length their types use, one at a time, and only then
  evaluate. The contract of the scheduler is discharged for them as well.
\<close>

section \<open>Lengths\<close>

definition err_length_positive :: "int \<Rightarrow> string" where
  "err_length_positive v = ''array length must be positive, found '' @ show_int v"

text \<open>On the 64-bit targets of the program the last conversion of the code always succeeds.\<close>

definition positive_array_length :: "int \<Rightarrow> span \<Rightarrow> (diagnostic, nat) result" where
  "positive_array_length v s =
     (if v \<le> 0 then Err (diag (err_length_positive v) s)
      else if i32_max < v then Err (diag ''array length exceeds the maximum i32 index range'' s)
      else Ok (nat v))"

definition err_length_type :: "string \<Rightarrow> string" where
  "err_length_type n = ''array length constant `'' @ n @ ''` must have type `i32`''"

definition require_length_type ::
  "string \<Rightarrow> span \<Rightarrow> (string, constant_definition) hash_map \<Rightarrow> (diagnostic, unit) result" where
  "require_length_type n s definitions =
     (case hm_get definitions n of
        Some d \<Rightarrow> if def_ty d \<noteq> VtI32 then Err (diag (err_length_type n) s) else Ok ()
      | None \<Rightarrow> Ok ())"

definition length_value :: "constant_value \<Rightarrow> string \<Rightarrow> span \<Rightarrow> (diagnostic, i32) result" where
  "length_value v n s =
     (case v of CvI32 i \<Rightarrow> Ok i
      | _ \<Rightarrow> Err (diag (''array length constant `'' @ n @ ''` must evaluate to `i32`'') s))"

text \<open>The closure \<open>constant\<close> of \<open>PreparedTypes::resume\<close>.\<close>

definition length_constant ::
  "(string, constant_definition) hash_map \<Rightarrow> constant_values \<Rightarrow> string \<Rightarrow> span \<Rightarrow> (evaluation_error, i32) result" where
  "length_constant definitions cache n s =
     rbind (lift_diag EeDiagnostic (require_length_type n s definitions)) (\<lambda>_.
       rbind (cache_lookup cache n s) (\<lambda>v. lift_diag EeDiagnostic (length_value v n s)))"

fun collect_lengths :: "value_type \<Rightarrow> array_length list" where
  "collect_lengths (VtArray element len) = collect_lengths element @ [len]"
| "collect_lengths _ = []"

fun struct_name :: "value_type \<Rightarrow> string option" where
  "struct_name (VtArray element _) = struct_name element"
| "struct_name (VtStruct n) = Some n"
| "struct_name _ = None"

section \<open>Prepared types\<close>

record prepared_types =
  pt_ty :: value_type
  pt_structs :: "(string, struct_decl) hash_map"
  pt_lengths :: "array_length list"
  pt_cursor :: nat
  pt_ready :: bool

text \<open>The loop of \<open>PreparedTypes::new\<close>: the types still to visit, the next one first, the names
  seen, and the structs and lengths found. It ends because a struct is opened once.\<close>

function prepare_loop ::
  "(string, struct_decl) hash_map \<Rightarrow> value_type list \<Rightarrow> string list \<Rightarrow> (string, struct_decl) hash_map \<Rightarrow>
   array_length list \<Rightarrow> (string, struct_decl) hash_map \<times> array_length list" where
  "prepare_loop declarations [] seen structs lengths = (structs, lengths)"
| "prepare_loop declarations (ty # pending) seen structs lengths =
     (let lengths = lengths @ collect_lengths ty
      in case struct_name ty of
           None \<Rightarrow> prepare_loop declarations pending seen structs lengths
         | Some n \<Rightarrow>
             if n \<in> set seen then prepare_loop declarations pending seen structs lengths
             else (case hm_get declarations n of
                     None \<Rightarrow> prepare_loop declarations pending (n # seen) structs lengths
                   | Some declaration \<Rightarrow>
                       prepare_loop declarations (map field_ty (struct_fields declaration) @ pending) (n # seen)
                         (hm_insert n declaration structs) lengths))"
  by pat_completeness auto
termination
proof (relation "inv_image (less_than <*lex*> less_than) (\<lambda>(declarations :: (string, struct_decl) hash_map,
    pending :: value_type list, seen, structs, lengths).
    (card (fst ` set declarations - set seen), length pending))", goal_cases)
  case (4 declarations ty pending seen structs lengths new n)
  then have "n \<notin> fst ` set declarations" using hm_contains_keys [of declarations n] by (simp add: hm_contains_def)
  then have "fst ` set declarations - set (n # seen) = fst ` set declarations - set seen" by auto
  then show ?case by simp
next
  case (5 declarations ty pending seen structs lengths new n decl)
  then have "n \<in> fst ` set declarations - set seen"
    using hm_contains_keys [of declarations n] by (simp add: hm_contains_def)
  then have "card (fst ` set declarations - set (n # seen)) < card (fst ` set declarations - set seen)"
    by (intro psubset_card_mono) auto
  then show ?case by simp
qed (simp_all add: wf_inv_image wf_lex_prod)

definition prepared_new :: "value_type \<Rightarrow> (string, struct_decl) hash_map \<Rightarrow> prepared_types" where
  "prepared_new ty declarations =
     (case prepare_loop declarations [ty] [] [] [] of (structs, lengths) \<Rightarrow>
        \<lparr>pt_ty = ty, pt_structs = structs, pt_lengths = lengths, pt_cursor = 0, pt_ready = False\<rparr>)"

text \<open>Looking at one demanded length.\<close>

definition demand_length ::
  "(string \<Rightarrow> span \<Rightarrow> (evaluation_error, i32) result) \<Rightarrow> array_length \<Rightarrow> (evaluation_error, unit) result" where
  "demand_length const len =
     (case len of
        AlLiteral v s \<Rightarrow> rbind (lift_diag EeDiagnostic (positive_array_length v s)) (\<lambda>_. Ok ())
      | AlConstant n s \<Rightarrow>
          rbind (const n s) (\<lambda>i. rbind (lift_diag EeDiagnostic (positive_array_length (sint i) s)) (\<lambda>_. Ok ()))
      | AlResolved _ \<Rightarrow> Ok ()
      | AlInvalid \<Rightarrow> Ok ())"

text \<open>The loop that moves the cursor; it stays at a length that fails.\<close>

function demand_from ::
  "(string \<Rightarrow> span \<Rightarrow> (evaluation_error, i32) result) \<Rightarrow> array_length list \<Rightarrow> nat \<Rightarrow>
   (evaluation_error, unit) result \<times> nat" where
  "demand_from const lengths cursor =
     (if cursor < length lengths then
        (case demand_length const (lengths ! cursor) of
           Inl err \<Rightarrow> (Err err, cursor)
         | Inr _ \<Rightarrow> demand_from const lengths (cursor + 1))
      else (Ok (), cursor))"
  by pat_completeness auto
termination
  by (relation "measure (\<lambda>(const, lengths, cursor). length lengths - cursor)") auto

declare demand_from.simps [simp del]

text \<open>The code resolves a type in place. It fails only where a length fails, and every length has been
  demanded before, so the type that a failure would leave half-resolved is not modelled.\<close>

definition resolve_length ::
  "(string \<Rightarrow> span \<Rightarrow> (evaluation_error, i32) result) \<Rightarrow> array_length \<Rightarrow> (evaluation_error, array_length) result" where
  "resolve_length const len =
     (case len of
        AlLiteral v s \<Rightarrow> rbind (lift_diag EeDiagnostic (positive_array_length v s)) (\<lambda>n. Ok (AlResolved n))
      | AlConstant m s \<Rightarrow>
          rbind (const m s) (\<lambda>i.
            rbind (lift_diag EeDiagnostic (positive_array_length (sint i) s)) (\<lambda>n. Ok (AlResolved n)))
      | AlResolved n \<Rightarrow> Ok (AlResolved n)
      | AlInvalid \<Rightarrow> Ok AlInvalid)"

fun resolve_cached_type ::
  "(string \<Rightarrow> span \<Rightarrow> (evaluation_error, i32) result) \<Rightarrow> value_type \<Rightarrow> (evaluation_error, value_type) result" where
  "resolve_cached_type const (VtArray element len) =
     rbind (resolve_cached_type const element) (\<lambda>element'.
       rbind (resolve_length const len) (\<lambda>len'. Ok (VtArray element' len')))"
| "resolve_cached_type const ty = Ok ty"

definition resolve_cached_field ::
  "(string \<Rightarrow> span \<Rightarrow> (evaluation_error, i32) result) \<Rightarrow> struct_field \<Rightarrow> (evaluation_error, struct_field) result" where
  "resolve_cached_field const field =
     rbind (resolve_cached_type const (field_ty field)) (\<lambda>ty. Ok (field\<lparr>field_ty := ty\<rparr>))"

definition resolve_cached_struct ::
  "(string \<Rightarrow> span \<Rightarrow> (evaluation_error, i32) result) \<Rightarrow> string \<times> struct_decl \<Rightarrow>
   (evaluation_error, string \<times> struct_decl) result" where
  "resolve_cached_struct const entry =
     (case entry of (n, declaration) \<Rightarrow>
        rbind (rmap (resolve_cached_field const) (struct_fields declaration)) (\<lambda>fs.
          Ok (n, declaration\<lparr>struct_fields := fs\<rparr>)))"

definition resolve_prepared ::
  "(string \<Rightarrow> span \<Rightarrow> (evaluation_error, i32) result) \<Rightarrow> prepared_types \<Rightarrow> (evaluation_error, prepared_types) result" where
  "resolve_prepared const pt =
     rbind (resolve_cached_type const (pt_ty pt)) (\<lambda>ty.
       rbind (rmap (resolve_cached_struct const) (pt_structs pt)) (\<lambda>structs.
         Ok (pt\<lparr>pt_ty := ty, pt_structs := structs, pt_ready := True\<rparr>)))"

definition prepared_resume ::
  "(string, constant_definition) hash_map \<Rightarrow> constant_values \<Rightarrow> prepared_types \<Rightarrow>
   (evaluation_error, unit) result \<times> prepared_types" where
  "prepared_resume definitions cache pt =
     (if pt_ready pt then (Ok (), pt)
      else (case demand_from (length_constant definitions cache) (pt_lengths pt) (pt_cursor pt) of
              (Inl err, cursor) \<Rightarrow> (Err err, pt\<lparr>pt_cursor := cursor\<rparr>)
            | (Inr _, cursor) \<Rightarrow>
                (case resolve_prepared (length_constant definitions cache) (pt\<lparr>pt_cursor := cursor\<rparr>) of
                   Inl err \<Rightarrow> (Err err, pt\<lparr>pt_cursor := cursor\<rparr>)
                 | Inr pt' \<Rightarrow> (Ok (), pt'))))"

section \<open>The initializers of this phase\<close>

record length_evaluation =
  le_init :: expr
  le_types :: prepared_types
  le_evaluation :: "evaluation option"

definition length_evaluation_new ::
  "(string, struct_decl) hash_map \<Rightarrow> constant_definition \<Rightarrow> length_evaluation" where
  "length_evaluation_new declarations definition =
     \<lparr>le_init = def_init definition, le_types = prepared_new (def_ty definition) declarations, le_evaluation = None\<rparr>"

definition length_evaluation_resume ::
  "(string, constant_definition) hash_map \<Rightarrow> constant_values \<Rightarrow> length_evaluation \<Rightarrow>
   ((evaluation_error, constant_value) result \<times> length_evaluation) option" where
  "length_evaluation_resume definitions cache le =
     (case prepared_resume definitions cache (le_types le) of
        (Inl err, types) \<Rightarrow> Some (Err err, le\<lparr>le_types := types\<rparr>)
      | (Inr _, types) \<Rightarrow>
          map_option (\<lambda>(r, ev). (r, le\<lparr>le_types := types, le_evaluation := Some ev\<rparr>))
            (resume EeDiagnostic (pt_structs types) (cache_lookup cache)
               (case le_evaluation le of
                  None \<Rightarrow> evaluation_new (le_init le) (Some (pt_ty types))
                | Some ev \<Rightarrow> ev)))"

definition length_initializer ::
  "(string, constant_definition) hash_map \<Rightarrow> length_evaluation initializer" where
  "length_initializer definitions n definition le cache =
     map_option
       (\<lambda>(r, le'). (rbind r (\<lambda>v. lift_diag EeDiagnostic
          (validate_constant_type n definition (pt_ty (le_types le')) v)), le'))
       (length_evaluation_resume definitions cache le)"

section \<open>Their meaning\<close>

definition prepare_types ::
  "(string, constant_definition) hash_map \<Rightarrow> constant_values \<Rightarrow> prepared_types \<Rightarrow>
   (evaluation_error, prepared_types) result" where
  "prepare_types definitions cache pt =
     rbind (rmap (demand_length (length_constant definitions cache)) (pt_lengths pt)) (\<lambda>_.
       resolve_prepared (length_constant definitions cache) (pt\<lparr>pt_cursor := length (pt_lengths pt)\<rparr>))"

definition length_den ::
  "(string, constant_definition) hash_map \<Rightarrow> (string, struct_decl) hash_map \<Rightarrow>
   string \<Rightarrow> constant_definition \<Rightarrow> constant_values \<Rightarrow> (evaluation_error, constant_value) result" where
  "length_den definitions declarations n d cache =
     rbind (prepare_types definitions cache (prepared_new (def_ty d) declarations)) (\<lambda>types.
       rbind (eval EeDiagnostic (pt_structs types) (cache_lookup cache) (Some (pt_ty types)) (def_init d)) (\<lambda>v.
         lift_diag EeDiagnostic (validate_constant_type n d (pt_ty types) v)))"

lemma length_constant_agrees:
  "values_more c c' \<Longrightarrow>
   agrees (cache_lookup c) (cache_lookup c') (length_constant definitions c n s) (length_constant definitions c' n s)"
  by (auto simp: length_constant_def intro!: agrees_rbind agrees_refl agrees_lookup cached.knows_more)

lemma demand_length_agrees:
  "values_more c c' \<Longrightarrow>
   agrees (cache_lookup c) (cache_lookup c') (demand_length (length_constant definitions c) len)
     (demand_length (length_constant definitions c') len)"
  by (cases len) (auto simp: demand_length_def intro!: agrees_rbind agrees_refl length_constant_agrees)

lemma resolve_cached_type_agrees:
  "values_more c c' \<Longrightarrow>
   agrees (cache_lookup c) (cache_lookup c') (resolve_cached_type (length_constant definitions c) ty)
     (resolve_cached_type (length_constant definitions c') ty)"
proof (induction ty)
  case (VtArray element len)
  have "agrees (cache_lookup c) (cache_lookup c') (resolve_length (length_constant definitions c) len)
     (resolve_length (length_constant definitions c') len)"
    using VtArray.prems by (cases len) (auto simp: resolve_length_def intro!: agrees_rbind agrees_refl length_constant_agrees)
  then show ?case using VtArray by (auto intro!: agrees_rbind agrees_refl)
qed auto

lemma prepare_types_agrees:
  "values_more c c' \<Longrightarrow>
   agrees (cache_lookup c) (cache_lookup c') (prepare_types definitions c pt) (prepare_types definitions c' pt)"
  by (auto simp: prepare_types_def resolve_prepared_def resolve_cached_struct_def resolve_cached_field_def
      intro!: agrees_rbind agrees_refl agrees_rmap demand_length_agrees resolve_cached_type_agrees)

lemma length_den_agrees:
  "values_more c c' \<Longrightarrow>
   agrees (cache_lookup c) (cache_lookup c') (length_den definitions declarations n d c)
     (length_den definitions declarations n d c')"
  by (auto simp: length_den_def intro!: agrees_rbind agrees_refl prepare_types_agrees agrees_eval cached.knows_more)

lemma length_constant_fails_from: "fails_from EeDiagnostic (cache_lookup c) (length_constant definitions c n s)"
  by (auto simp: length_constant_def intro!: fails_from_rbind)

lemma resolve_cached_type_fails_from:
  "fails_from EeDiagnostic (cache_lookup c) (resolve_cached_type (length_constant definitions c) ty)"
proof (induction ty)
  case (VtArray element len)
  have "fails_from EeDiagnostic (cache_lookup c) (resolve_length (length_constant definitions c) len)"
    by (cases len) (auto simp: resolve_length_def intro!: fails_from_rbind length_constant_fails_from)
  then show ?case using VtArray by (auto intro!: fails_from_rbind)
qed auto

lemma length_den_fails_from:
  "fails_from EeDiagnostic (cache_lookup c) (length_den definitions declarations n d c)"
proof -
  have "fails_from EeDiagnostic (cache_lookup c) (demand_length (length_constant definitions c) len)" for len
    by (cases len) (auto simp: demand_length_def intro!: fails_from_rbind length_constant_fails_from)
  then show ?thesis
    by (auto simp: length_den_def prepare_types_def resolve_prepared_def resolve_cached_struct_def
        resolve_cached_field_def intro!: fails_from_rbind fails_from_rmap resolve_cached_type_fails_from)
qed

section \<open>The contract of the scheduler\<close>

text \<open>The loop of demands from any position whose predecessors are fulfilled.\<close>

lemma demand_from_Ok:
  "demand_from const lengths k = (Ok (), k') \<Longrightarrow> k \<le> length lengths \<Longrightarrow>
   k' = length lengths \<and> (\<forall>i. k \<le> i \<longrightarrow> i < length lengths \<longrightarrow> demand_length const (lengths ! i) = Ok ())"
proof (induction const lengths k rule: demand_from.induct)
  case (1 const lengths k)
  show ?case
  proof (cases "k < length lengths")
    case True
    then obtain u where k: "demand_length const (lengths ! k) = Ok u" "demand_from const lengths (k + 1) = (Ok (), k')"
      using "1.prems" by (auto simp: demand_from.simps [of _ _ k] split: sum.splits)
    have "k' = length lengths \<and> (\<forall>i. k + 1 \<le> i \<longrightarrow> i < length lengths \<longrightarrow> demand_length const (lengths ! i) = Ok ())"
      using "1.IH" [OF True k(1) k(2)] True by simp
    then show ?thesis using k(1) by (metis Suc_eq_plus1 Suc_leI le_neq_implies_less old.unit.exhaust)
  next
    case False
    then show ?thesis using "1.prems" demand_from.simps [of const lengths k] by simp
  qed
qed

lemma demand_from_Err:
  "demand_from const lengths k = (Err err, k') \<Longrightarrow>
   k \<le> k' \<and> k' < length lengths \<and> demand_length const (lengths ! k') = Err err \<and>
   (\<forall>i. k \<le> i \<longrightarrow> i < k' \<longrightarrow> demand_length const (lengths ! i) = Ok ())"
proof (induction const lengths k rule: demand_from.induct)
  case (1 const lengths k)
  have k: "k < length lengths" using "1.prems" by (auto simp: demand_from.simps [of _ _ k] split: if_splits)
  show ?case
  proof (cases "demand_length const (lengths ! k)")
    case (Inl err')
    then show ?thesis using "1.prems" k by (auto simp: demand_from.simps [of _ _ k])
  next
    case (Inr u)
    then have "demand_from const lengths (k + 1) = (Err err, k')"
      using "1.prems" k by (simp add: demand_from.simps [of _ _ k])
    note IH = "1.IH" [OF k Inr this]
    then have "demand_length const (lengths ! i) = Ok ()" if "k \<le> i" "i < k'" for i
      using Inr that by (cases "i = k") simp_all
    then show ?thesis using IH by simp
  qed
qed

lemma rmap_first_error:
  assumes "k < length xs" and "f (xs ! k) = Err err" and "\<forall>i<k. \<exists>y. f (xs ! i) = Ok y"
  shows "rmap f xs = Err err"
  using assms
proof (induction xs arbitrary: k)
  case (Cons x xs)
  show ?case
  proof (cases k)
    case (Suc j)
    have "rmap f xs = Err err"
      using Cons.prems Suc by (intro Cons.IH [of j]) auto
    moreover have "\<exists>y. f x = Ok y" using Cons.prems(3) Suc by fastforce
    ultimately show ?thesis by auto
  qed (use Cons.prems in simp)
qed simp

lemma rmap_all_Ok: "\<forall>i<length xs. \<exists>y. f (xs ! i) = Ok y \<Longrightarrow> \<exists>ys. rmap f xs = Ok ys"
proof (induction xs)
  case (Cons x xs)
  have "\<exists>ys. rmap f xs = Ok ys" using Cons.prems by (intro Cons.IH) auto
  moreover have "\<exists>y. f x = Ok y" using Cons.prems by fastforce
  ultimately show ?case by auto
qed simp

definition demanded :: "(string \<Rightarrow> span \<Rightarrow> (evaluation_error, i32) result) \<Rightarrow> array_length list \<Rightarrow> nat \<Rightarrow> bool" where
  "demanded const lengths k \<longleftrightarrow> k \<le> length lengths \<and> (\<forall>i<k. demand_length const (lengths ! i) = Ok ())"

text \<open>Preparation from a cursor that is past fulfilled demands only.\<close>

lemma prepared_resume_cases:
  assumes "demanded (length_constant definitions c) (pt_lengths pt) k" and "\<not> pt_ready pt"
  shows "(\<exists>types. prepared_resume definitions c (pt\<lparr>pt_cursor := k\<rparr>) = (Ok (), types) \<and>
             prepare_types definitions c pt = Ok types \<and> pt_ready types) \<or>
         (\<exists>err k'. prepared_resume definitions c (pt\<lparr>pt_cursor := k\<rparr>) = (Err err, pt\<lparr>pt_cursor := k'\<rparr>) \<and>
             prepare_types definitions c pt = Err err \<and>
             demanded (length_constant definitions c) (pt_lengths pt) k')"
proof -
  let ?const = "length_constant definitions c" and ?ls = "pt_lengths pt"
  obtain r k' where demand: "demand_from ?const ?ls k = (r, k')" by fastforce
  show ?thesis
  proof (cases r)
    case (Inl err)
    note k' = demand_from_Err [OF demand [unfolded Inl]]
    then have all: "\<forall>i<k'. demand_length ?const (?ls ! i) = Ok ()"
      using assms(1) unfolding demanded_def by (meson not_le)
    then have "rmap (demand_length ?const) ?ls = Err err"
      using k' by (intro rmap_first_error [of k']) auto
    then show ?thesis
      using demand Inl assms(2) k' all by (auto simp: prepared_resume_def prepare_types_def demanded_def)
  next
    case (Inr u)
    then have k': "k' = length ?ls" "\<forall>i. k \<le> i \<longrightarrow> i < length ?ls \<longrightarrow> demand_length ?const (?ls ! i) = Ok ()"
      using demand_from_Ok [of ?const ?ls k k'] demand assms(1) by (simp_all add: demanded_def)
    then have all: "\<forall>i<length ?ls. demand_length ?const (?ls ! i) = Ok ()"
      using assms(1) unfolding demanded_def by (meson not_le)
    then obtain ys where "rmap (demand_length ?const) ?ls = Ok ys"
      using rmap_all_Ok [of ?ls "demand_length ?const"] by blast
    then show ?thesis
      using demand Inr assms(2) k'(1) all
      by (cases "resolve_prepared ?const (pt\<lparr>pt_cursor := length ?ls\<rparr>)")
         (auto simp: prepared_resume_def prepare_types_def demanded_def resolve_prepared_def rbind_eq_Ok
           intro: exI [of _ "length ?ls"])
  qed
qed

text \<open>An initializer is still demanding lengths, or has its types and is evaluating.\<close>

definition length_stage ::
  "(string, constant_definition) hash_map \<Rightarrow> (string, struct_decl) hash_map \<Rightarrow>
   string \<Rightarrow> constant_definition \<Rightarrow> constant_values \<Rightarrow> length_evaluation \<Rightarrow> bool" where
  "length_stage definitions declarations n d c le \<longleftrightarrow>
     le_init le = def_init d \<and>
     (let pt = prepared_new (def_ty d) declarations
      in (le_evaluation le = None \<and>
          (\<exists>k. le_types le = pt\<lparr>pt_cursor := k\<rparr> \<and> demanded (length_constant definitions c) (pt_lengths pt) k)) \<or>
         (prepare_types definitions c pt = Ok (le_types le) \<and> pt_ready (le_types le) \<and>
          (\<forall>ev. le_evaluation le = Some ev \<longrightarrow>
             cached.eval_stage (pt_structs (le_types le)) (Some (pt_ty (le_types le))) (def_init d) c ev)))"

lemma prepared_new_sel [simp]: "\<not> pt_ready (prepared_new ty declarations)" "pt_cursor (prepared_new ty declarations) = 0"
  by (auto simp: prepared_new_def split: prod.splits)

lemma cursor_0 [simp]: "prepared_new ty declarations\<lparr>pt_cursor := 0\<rparr> = prepared_new ty declarations"
  using prepared_new_sel(2) [of ty declarations] by (cases "prepared_new ty declarations") simp

lemma demanded_later:
  assumes "demanded (length_constant definitions c) lengths k" and "values_more c c'"
  shows "demanded (length_constant definitions c') lengths k"
  using assms cached.agrees_later [OF demand_length_agrees [OF assms(2)]] by (fastforce simp: demanded_def)

lemma length_stage_new: "length_stage definitions declarations n d c (length_evaluation_new declarations d)"
  by (simp add: length_stage_def length_evaluation_new_def Let_def demanded_def exI [of _ 0])

lemma length_stage_later:
  assumes "length_stage definitions declarations n d c le" and "values_more c c'"
  shows "length_stage definitions declarations n d c' le"
  using assms demanded_later [OF _ assms(2)] cached.eval_stage_later [OF _ assms(2)]
    cached.agrees_later [OF prepare_types_agrees [OF assms(2)]]
  unfolding length_stage_def Let_def by blast

text \<open>One call of the initializer: the types are not there yet, or the evaluation goes on.\<close>

lemma length_resume_cases:
  assumes "length_stage definitions declarations n d c le"
  shows "(\<exists>err k. length_evaluation_resume definitions c le =
              Some (Err err, le\<lparr>le_types := prepared_new (def_ty d) declarations\<lparr>pt_cursor := k\<rparr>\<rparr>) \<and>
            prepare_types definitions c (prepared_new (def_ty d) declarations) = Err err \<and> le_evaluation le = None \<and>
            demanded (length_constant definitions c) (pt_lengths (prepared_new (def_ty d) declarations)) k) \<or>
         (\<exists>types ev. prepare_types definitions c (prepared_new (def_ty d) declarations) = Ok types \<and> pt_ready types \<and>
            cached.eval_stage (pt_structs types) (Some (pt_ty types)) (def_init d) c ev \<and>
            length_evaluation_resume definitions c le =
              map_option (\<lambda>(r, ev). (r, le\<lparr>le_types := types, le_evaluation := Some ev\<rparr>))
                (resume EeDiagnostic (pt_structs types) (cache_lookup c) ev))"
proof -
  let ?pt = "prepared_new (def_ty d) declarations"
  have init: "le_init le = def_init d" using assms by (simp add: length_stage_def)
  consider k where "le_evaluation le = None" "le_types le = ?pt\<lparr>pt_cursor := k\<rparr>"
      "demanded (length_constant definitions c) (pt_lengths ?pt) k"
    | "prepare_types definitions c ?pt = Ok (le_types le)" "pt_ready (le_types le)"
      "\<forall>ev. le_evaluation le = Some ev \<longrightarrow>
         cached.eval_stage (pt_structs (le_types le)) (Some (pt_ty (le_types le))) (def_init d) c ev"
    using assms unfolding length_stage_def Let_def by blast
  then show ?thesis
  proof cases
    case 1
    have new: "cached.eval_stage structs ex (def_init d) c (evaluation_new (def_init d) ex)" for structs ex
      by (rule cached.eval_stage_new)
    from prepared_resume_cases [OF 1(3) prepared_new_sel(1)] show ?thesis
    proof (elim disjE exE conjE)
      fix types
      assume "prepared_resume definitions c (?pt\<lparr>pt_cursor := k\<rparr>) = (Ok (), types)"
        and "prepare_types definitions c ?pt = Ok types" and "pt_ready types"
      moreover from this have "length_evaluation_resume definitions c le =
          map_option (\<lambda>(r, ev). (r, le\<lparr>le_types := types, le_evaluation := Some ev\<rparr>))
            (resume EeDiagnostic (pt_structs types) (cache_lookup c) (evaluation_new (def_init d) (Some (pt_ty types))))"
        using 1 init by (simp add: length_evaluation_resume_def)
      ultimately show ?thesis using new by blast
    qed (use 1 in \<open>auto simp: length_evaluation_resume_def\<close>)
  next
    case 2
    let ?ev = "case le_evaluation le of
        None \<Rightarrow> evaluation_new (def_init d) (Some (pt_ty (le_types le))) | Some ev \<Rightarrow> ev"
    have "cached.eval_stage (pt_structs (le_types le)) (Some (pt_ty (le_types le))) (def_init d) c ?ev"
      using 2(3) by (cases "le_evaluation le") (simp_all add: cached.eval_stage_new)
    moreover have "length_evaluation_resume definitions c le =
        map_option (\<lambda>(r, ev). (r, le\<lparr>le_types := le_types le, le_evaluation := Some ev\<rparr>))
          (resume EeDiagnostic (pt_structs (le_types le)) (cache_lookup c) ?ev)"
      using 2(2) init by (cases "le_evaluation le") (simp_all add: length_evaluation_resume_def prepared_resume_def)
    ultimately show ?thesis using 2(1,2) by blast
  qed
qed

lemma length_initializer_result:
  assumes "length_stage definitions declarations n d c le"
  shows "map_option fst (length_initializer definitions n d le c) = Some (length_den definitions declarations n d c)"
  using length_resume_cases [OF assms]
proof (elim disjE exE conjE)
  fix types ev
  assume types: "prepare_types definitions c (prepared_new (def_ty d) declarations) = Ok types"
    and stage: "cached.eval_stage (pt_structs types) (Some (pt_ty types)) (def_init d) c ev"
    and run: "length_evaluation_resume definitions c le =
      map_option (\<lambda>(r, ev). (r, le\<lparr>le_types := types, le_evaluation := Some ev\<rparr>))
        (resume EeDiagnostic (pt_structs types) (cache_lookup c) ev)"
  obtain ev' where "resume EeDiagnostic (pt_structs types) (cache_lookup c) ev
      = Some (eval EeDiagnostic (pt_structs types) (cache_lookup c) (Some (pt_ty types)) (def_init d), ev')"
    using cached.eval_stage_result [OF stage] by auto
  then show ?thesis using types run by (simp add: length_initializer_def length_den_def)
qed (simp add: length_initializer_def length_den_def)

lemma length_initializer_stage:
  assumes "length_stage definitions declarations n d c le"
    and "length_initializer definitions n d le c = Some (Err (EeDependency m sp), le')"
  shows "length_stage definitions declarations n d c le'"
proof -
  obtain r where r: "length_evaluation_resume definitions c le = Some (r, le')"
    "rbind r (\<lambda>v. lift_diag EeDiagnostic (validate_constant_type n d (pt_ty (le_types le')) v)) = Err (EeDependency m sp)"
    using assms(2) by (auto simp: length_initializer_def)
  then have r_err: "r = Err (EeDependency m sp)"
    by (cases r) (auto simp: lift_diag_validate split: if_splits)
  show ?thesis
    using length_resume_cases [OF assms(1)]
  proof (elim disjE exE conjE)
    fix types ev
    assume types: "prepare_types definitions c (prepared_new (def_ty d) declarations) = Ok types" "pt_ready types"
      and stage: "cached.eval_stage (pt_structs types) (Some (pt_ty types)) (def_init d) c ev"
      and run: "length_evaluation_resume definitions c le =
        map_option (\<lambda>(r, ev). (r, le\<lparr>le_types := types, le_evaluation := Some ev\<rparr>))
          (resume EeDiagnostic (pt_structs types) (cache_lookup c) ev)"
    obtain ev' where ev': "resume EeDiagnostic (pt_structs types) (cache_lookup c) ev = Some (Err (EeDependency m sp), ev')"
      "le' = le\<lparr>le_types := types, le_evaluation := Some ev'\<rparr>"
      using run r(1) r_err by (cases "resume EeDiagnostic (pt_structs types) (cache_lookup c) ev") auto
    then show ?thesis
      using cached.eval_stage_suspended [OF stage ev'(1)] types assms(1) by (simp add: length_stage_def Let_def)
  next
    fix err k
    assume "length_evaluation_resume definitions c le =
        Some (Err err, le\<lparr>le_types := prepared_new (def_ty d) declarations\<lparr>pt_cursor := k\<rparr>\<rparr>)"
      and "le_evaluation le = None"
      and "demanded (length_constant definitions c) (pt_lengths (prepared_new (def_ty d) declarations)) k"
    then show ?thesis using r(1) assms(1) by (auto simp: length_stage_def Let_def)
  qed
qed

interpretation length_constants: declaration_scheduler definitions "length_evaluation_new declarations"
    "length_initializer definitions" "length_den definitions declarations" "length_stage definitions declarations"
  for definitions declarations
proof unfold_locales
  fix n d c c' s s' v m sp e
  show "length_den definitions declarations n d c = Ok v \<Longrightarrow> values_more c c' \<Longrightarrow>
      length_den definitions declarations n d c' = Ok v"
    by (rule cached.agrees_later [OF length_den_agrees])
  show "length_den definitions declarations n d c = Err (EeDependency m sp) \<Longrightarrow>
      length_den definitions declarations n d c' = Ok v \<Longrightarrow> values_more c c' \<Longrightarrow> hm_contains (cv_values c') m"
    by (rule cached.dependency_blocked [OF length_den_agrees])
  show "length_den definitions declarations n d c = Err (EeDependency m sp) \<Longrightarrow>
      \<not> hm_contains (cv_values c) m \<and> \<not> cache_failed c m"
    by (rule cached.dependency_is_missing [OF length_den_fails_from])
  show "length_den definitions declarations n d c = Err (EeDiagnostic e) \<Longrightarrow>
      length_den definitions declarations n d c' = Ok v \<Longrightarrow> values_more c c' \<Longrightarrow>
      \<exists>m. cache_failed c m \<and> \<not> hm_contains (cv_values c) m \<and> hm_contains (cv_values c') m"
    by (rule cached.diagnostic_blocked [OF length_den_agrees])
qed (fact length_stage_new length_stage_later length_initializer_result length_initializer_stage)+

end
