(* ===== verification/Program_Types.thy ===== *)
theory Program_Types
  imports Type_Resolution
begin

text \<open>
  Resolution of every array length of a program, the second half of
  \<^verbatim>\<open>src/src/sema/type_resolution.rs\<close>. The code rewrites the program in place while
  it threads the evaluator of lengths and the diagnostics through; here the operations return the new
  syntax with the new state. \<^const>\<open>None\<close> would be an evaluation that panics or does not end.
\<close>

section \<open>The evaluator of length constants\<close>

record length_evaluator =
  lv_definitions :: "(string, constant_definition) hash_map"
  lv_structs :: "(string, struct_decl) hash_map"
  lv_cache :: constant_values

definition length_evaluator_new :: "program \<Rightarrow> length_evaluator" where
  "length_evaluator_new p =
     \<lparr>lv_definitions = hm_collect (map (\<lambda>c. (constant_name c,
        \<lparr>def_ty = constant_ty c, def_init = constant_init c, def_span = constant_span c\<rparr>)) (program_constants p)),
      lv_structs = hm_collect (map (\<lambda>d. (struct_decl_name d, d)) (program_structs p)),
      lv_cache = constant_values_new (program_resolution p)\<rparr>"

definition returned :: "'a option option \<Rightarrow> 'a option" where
  "returned r = (case r of Some (Some a) \<Rightarrow> Some a | _ \<Rightarrow> None)"

definition length_evaluate ::
  "length_evaluator \<Rightarrow> string \<Rightarrow> span \<Rightarrow> ((diagnostic, i32) result \<times> length_evaluator) option" where
  "length_evaluate lv n usage_span =
     (case require_length_type n usage_span (lv_definitions lv) of
        Inl d \<Rightarrow> Some (Err d, lv)
      | Inr _ \<Rightarrow>
          map_option
            (\<lambda>(cache, r). (rbind r (\<lambda>v. length_value v n usage_span), lv\<lparr>lv_cache := cache\<rparr>))
            (returned (schedule (lv_definitions lv) PhArrayLength (length_evaluation_new (lv_structs lv))
               (length_initializer (lv_definitions lv)) n usage_span (lv_cache lv))))"

section \<open>Resolving the types of a program\<close>

type_synonym resolver = "length_evaluator \<times> diagnostic list"

definition push_unique_diagnostic :: "diagnostic list \<Rightarrow> diagnostic \<Rightarrow> diagnostic list" where
  "push_unique_diagnostic ds d = (if d \<in> set ds then ds else ds @ [d])"

definition declared_length ::
  "array_length \<Rightarrow> length_evaluator \<Rightarrow> ((diagnostic, array_length) result \<times> length_evaluator) option" where
  "declared_length len lv =
     (case len of
        AlLiteral v s \<Rightarrow> Some (rbind (positive_array_length v s) (\<lambda>n. Ok (AlResolved n)), lv)
      | AlConstant m s \<Rightarrow>
          map_option
            (\<lambda>(r, lv'). (rbind (rbind r (\<lambda>i. positive_array_length (sint i) s)) (\<lambda>n. Ok (AlResolved n)), lv'))
            (length_evaluate lv m s)
      | AlResolved n \<Rightarrow> Some (Ok (AlResolved n), lv)
      | AlInvalid \<Rightarrow> Some (Ok AlInvalid, lv))"

fun resolve_value_type :: "value_type \<Rightarrow> resolver \<Rightarrow> (value_type \<times> resolver) option" where
  "resolve_value_type (VtArray element len) st =
     Option.bind (resolve_value_type element st) (\<lambda>(element', lv, ds).
       map_option
         (\<lambda>(r, lv').
            case r of
              Inr resolved \<Rightarrow> (VtArray element' resolved, (lv', ds))
            | Inl d \<Rightarrow> (VtArray element' AlInvalid, (lv', push_unique_diagnostic ds d)))
         (declared_length len lv))"
| "resolve_value_type ty st = Some (ty, st)"

text \<open>A loop over a list that rewrites its elements.\<close>

fun rewrite_each :: "('a \<Rightarrow> 's \<Rightarrow> ('a \<times> 's) option) \<Rightarrow> 'a list \<Rightarrow> 's \<Rightarrow> ('a list \<times> 's) option" where
  "rewrite_each f [] st = Some ([], st)"
| "rewrite_each f (x # xs) st =
     Option.bind (f x st) (\<lambda>(x', st').
       Option.bind (rewrite_each f xs st') (\<lambda>(xs', st''). Some (x' # xs', st'')))"

fun resolve_stmt_types :: "stmt \<Rightarrow> resolver \<Rightarrow> (stmt \<times> resolver) option"
and resolve_block_types :: "block \<Rightarrow> resolver \<Rightarrow> (block \<times> resolver) option" where
  "resolve_stmt_types (Stmt (StLet n ty e) s) st =
     Option.bind (resolve_value_type ty st) (\<lambda>(ty', st'). Some (Stmt (StLet n ty' e) s, st'))"
| "resolve_stmt_types (Stmt (StIf c then_block (Some else_block)) s) st =
     Option.bind (resolve_block_types then_block st) (\<lambda>(then_block', st').
       Option.bind (resolve_block_types else_block st') (\<lambda>(else_block', st'').
         Some (Stmt (StIf c then_block' (Some else_block')) s, st'')))"
| "resolve_stmt_types (Stmt (StIf c then_block None) s) st =
     Option.bind (resolve_block_types then_block st) (\<lambda>(then_block', st').
       Some (Stmt (StIf c then_block' None) s, st'))"
| "resolve_stmt_types (Stmt (StWhile c body) s) st =
     Option.bind (resolve_block_types body st) (\<lambda>(body', st'). Some (Stmt (StWhile c body') s, st'))"
| "resolve_stmt_types (Stmt (StFor n ns from to body) s) st =
     Option.bind (resolve_block_types body st) (\<lambda>(body', st'). Some (Stmt (StFor n ns from to body') s, st'))"
| "resolve_stmt_types (Stmt (StAssign target op e) s) st = Some (Stmt (StAssign target op e) s, st)"
| "resolve_stmt_types (Stmt (StExpr e) s) st = Some (Stmt (StExpr e) s, st)"
| "resolve_stmt_types (Stmt (StReturn e) s) st = Some (Stmt (StReturn e) s, st)"
| "resolve_block_types [] st = Some ([], st)"
| "resolve_block_types (stmt # stmts) st =
     Option.bind (resolve_stmt_types stmt st) (\<lambda>(stmt', st').
       Option.bind (resolve_block_types stmts st') (\<lambda>(stmts', st''). Some (stmt' # stmts', st'')))"

definition resolve_field :: "struct_field \<Rightarrow> resolver \<Rightarrow> (struct_field \<times> resolver) option" where
  "resolve_field field st =
     Option.bind (resolve_value_type (field_ty field) st) (\<lambda>(ty, st'). Some (field\<lparr>field_ty := ty\<rparr>, st'))"

definition resolve_struct :: "struct_decl \<Rightarrow> resolver \<Rightarrow> (struct_decl \<times> resolver) option" where
  "resolve_struct d st =
     Option.bind (rewrite_each resolve_field (struct_fields d) st) (\<lambda>(fs, st').
       Some (d\<lparr>struct_fields := fs\<rparr>, st'))"

definition resolve_constant_decl :: "constant_decl \<Rightarrow> resolver \<Rightarrow> (constant_decl \<times> resolver) option" where
  "resolve_constant_decl c st =
     Option.bind (resolve_value_type (constant_ty c) st) (\<lambda>(ty, st'). Some (c\<lparr>constant_ty := ty\<rparr>, st'))"

definition resolve_global_decl :: "global_decl \<Rightarrow> resolver \<Rightarrow> (global_decl \<times> resolver) option" where
  "resolve_global_decl g st =
     Option.bind (resolve_value_type (global_ty g) st) (\<lambda>(ty, st'). Some (g\<lparr>global_ty := ty\<rparr>, st'))"

definition resolve_param :: "param \<Rightarrow> resolver \<Rightarrow> (param \<times> resolver) option" where
  "resolve_param p st =
     Option.bind (resolve_value_type (param_ty p) st) (\<lambda>(ty, st'). Some (p\<lparr>param_ty := ty\<rparr>, st'))"

definition resolve_return_type :: "return_type \<Rightarrow> resolver \<Rightarrow> (return_type \<times> resolver) option" where
  "resolve_return_type t st =
     (case t of
        RtValue ty \<Rightarrow> Option.bind (resolve_value_type ty st) (\<lambda>(ty', st'). Some (RtValue ty', st'))
      | RtVoid \<Rightarrow> Some (RtVoid, st))"

definition resolve_function :: "function_decl \<Rightarrow> resolver \<Rightarrow> (function_decl \<times> resolver) option" where
  "resolve_function f st =
     Option.bind (rewrite_each resolve_param (function_params f) st) (\<lambda>(params, st1).
       Option.bind (resolve_return_type (function_return_type f) st1) (\<lambda>(return_type, st2).
         Option.bind (resolve_block_types (function_body f) st2) (\<lambda>(body, st3).
           Some (f\<lparr>function_params := params, function_return_type := return_type, function_body := body\<rparr>, st3))))"

definition resolve_declarations :: "program \<Rightarrow> resolver \<Rightarrow> (program \<times> resolver) option" where
  "resolve_declarations p st =
     Option.bind (rewrite_each resolve_struct (program_structs p) st) (\<lambda>(structs, st1).
       Option.bind (rewrite_each resolve_constant_decl (program_constants p) st1) (\<lambda>(constants, st2).
         Option.bind (rewrite_each resolve_global_decl (program_globals p) st2) (\<lambda>(globals, st3).
           Option.bind (rewrite_each resolve_function (program_functions p) st3) (\<lambda>(functions, st4).
             Some (p\<lparr>program_structs := structs, program_constants := constants, program_globals := globals,
                     program_functions := functions\<rparr>, st4)))))"

text \<open>The program with its types, the diagnostics, and the names of the constants that failed.\<close>

definition resolve_program_types ::
  "program \<Rightarrow> diagnostic list \<Rightarrow> (program \<times> diagnostic list \<times> string list) option" where
  "resolve_program_types p ds =
     map_option (\<lambda>(p', lv, ds'). (p', ds', map fst (cv_failures (lv_cache lv))))
       (resolve_declarations p (length_evaluator_new p, ds))"

end
