(* ===== verification/Checker.thy ===== *)
theory Checker
  imports Program_Types
begin

text \<open>
  The type checker of function bodies and initializers, \<open>FunctionChecker\<close> of
  \<^verbatim>\<open>src/src/sema.rs\<close>. A check gives its value and the diagnostics it pushes,
  in order, or \<^const>\<open>None\<close> for a panic. The maps of the checker do not change; its
  stack of scopes does only in statements, which return the checker with the scopes they leave.
\<close>

section \<open>Checks\<close>

type_synonym 'a chk = "('a \<times> diagnostic list) option"

definition cret :: "'a \<Rightarrow> 'a chk" where
  "cret a = Some (a, [])"

definition cbind :: "'a chk \<Rightarrow> ('a \<Rightarrow> 'b chk) \<Rightarrow> 'b chk" where
  "cbind m f =
     (case m of
        None \<Rightarrow> None
      | Some (a, ds) \<Rightarrow> (case f a of None \<Rightarrow> None | Some (b, es) \<Rightarrow> Some (b, ds @ es)))"

lemma cbind_cong [fundef_cong]:
  "\<lbrakk>m = m'; \<And>a. f a = f' a\<rbrakk> \<Longrightarrow> cbind m f = cbind m' f'"
  by (auto simp: cbind_def split: option.split)

definition cerror :: "string \<Rightarrow> span \<Rightarrow> unit chk" where
  "cerror msg s = Some ((), [diag msg s])"

definition cwhen :: "bool \<Rightarrow> unit chk \<Rightarrow> unit chk" where
  "cwhen b m = (if b then m else cret ())"

text \<open>An error and no type.\<close>

definition creject :: "string \<Rightarrow> span \<Rightarrow> 'a option chk" where
  "creject msg s = cbind (cerror msg s) (\<lambda>_. cret None)"

definition quoted :: "string \<Rightarrow> string" where
  "quoted s = ''`'' @ s @ ''`''"

abbreviation quoted_type :: "value_type \<Rightarrow> string" where
  "quoted_type ty \<equiv> quoted (value_type_name ty)"

section \<open>The state of a checker\<close>

record signature =
  sig_params :: "value_type list"
  sig_return :: return_type

datatype mutability = MuMutable | MuConstant | MuLoopVariable

record binding =
  bind_ty :: value_type
  bind_mutability :: mutability

text \<open>The innermost scope is the head.\<close>

record checker =
  ck_globals :: "(string, value_type) hash_map"
  ck_constants :: "(string, value_type) hash_map"
  ck_constant_values :: "(string, constant_value) hash_map"
  ck_structs :: "(string, struct_decl) hash_map"
  ck_functions :: "(string, signature) hash_map"
  ck_return_type :: return_type
  ck_scopes :: "(string, binding) hash_map list"

definition checker_new ::
  "(string, value_type) hash_map \<Rightarrow> (string, value_type) hash_map \<Rightarrow> (string, constant_value) hash_map \<Rightarrow>
   (string, struct_decl) hash_map \<Rightarrow> (string, signature) hash_map \<Rightarrow> return_type \<Rightarrow> checker" where
  "checker_new globals constants values structs fns rt =
     \<lparr>ck_globals = globals, ck_constants = constants, ck_constant_values = values, ck_structs = structs,
      ck_functions = fns, ck_return_type = rt, ck_scopes = [[]]\<rparr>"

fun scopes_get :: "(string, binding) hash_map list \<Rightarrow> string \<Rightarrow> binding option" where
  "scopes_get [] n = None"
| "scopes_get (scope # scopes) n = (case hm_get scope n of Some b \<Rightarrow> Some b | None \<Rightarrow> scopes_get scopes n)"

definition checker_binding :: "checker \<Rightarrow> string \<Rightarrow> binding option" where
  "checker_binding ck n =
     (case scopes_get (ck_scopes ck) n of
        Some b \<Rightarrow> Some b
      | None \<Rightarrow>
          (case hm_get (ck_globals ck) n of
             Some ty \<Rightarrow> Some \<lparr>bind_ty = ty, bind_mutability = MuMutable\<rparr>
           | None \<Rightarrow>
               map_option (\<lambda>ty. \<lparr>bind_ty = ty, bind_mutability = MuConstant\<rparr>) (hm_get (ck_constants ck) n)))"

section \<open>Types from the types of parts\<close>

definition value_result :: "string \<Rightarrow> span \<Rightarrow> return_type option \<Rightarrow> value_type option chk" where
  "value_result description s r =
     (case r of
        Some (RtValue ty) \<Rightarrow> cret (Some ty)
      | Some RtVoid \<Rightarrow> creject (description @ '' requires a value, but found `void`'') s
      | None \<Rightarrow> cret None)"

definition found_type :: "value_type \<Rightarrow> value_type option \<Rightarrow> string \<Rightarrow> span \<Rightarrow> unit chk" where
  "found_type expected actual msg s =
     (case actual of
        Some ty \<Rightarrow> cwhen (ty \<noteq> expected) (cerror (msg @ quoted_type ty) s)
      | None \<Rightarrow> cret ())"

definition unary_type :: "unary_op \<Rightarrow> span \<Rightarrow> value_type option \<Rightarrow> return_type option chk" where
  "unary_type op s operand =
     (case operand of
        None \<Rightarrow> cret None
      | Some ty \<Rightarrow>
          (case op of
             UoNegate \<Rightarrow>
               if is_numeric ty then cret (Some (RtValue ty)) else creject ''unary `-` requires `i32` or `f32`'' s
           | UoNot \<Rightarrow>
               if ty = VtBool then cret (Some (RtValue VtBool)) else creject ''unary `!` requires `bool`'' s))"

definition is_scalar :: "value_type \<Rightarrow> bool" where
  "is_scalar ty \<longleftrightarrow> ty = VtI32 \<or> ty = VtF32 \<or> ty = VtBool"

definition same_operands :: "binary_op \<Rightarrow> span \<Rightarrow> value_type \<Rightarrow> return_type option chk" where
  "same_operands op s ty =
     (if op \<in> {BoAdd, BoSubtract, BoMultiply, BoDivide} then
        if is_numeric ty then cret (Some (RtValue ty))
        else creject ''arithmetic requires `i32` or `f32` operands'' s
      else if op = BoRemainder then
        if ty = VtI32 then cret (Some (RtValue ty))
        else creject (''remainder requires `i32` operands, found '' @ quoted_type ty) s
      else if op \<in> {BoLess, BoLessEqual, BoGreater, BoGreaterEqual} then
        if is_numeric ty then cret (Some (RtValue VtBool))
        else creject ''ordering comparison requires numeric operands'' s
      else
        if is_scalar ty then cret (Some (RtValue VtBool))
        else creject ''equality comparison requires scalar operands'' s)"

definition binary_type ::
  "binary_op \<Rightarrow> span \<Rightarrow> value_type option \<Rightarrow> value_type option \<Rightarrow> return_type option chk" where
  "binary_type op s left right =
     (case (left, right) of
        (Some l, Some r) \<Rightarrow>
          if op = BoLogicalAnd \<or> op = BoLogicalOr then
            if l \<noteq> VtBool \<or> r \<noteq> VtBool then
              creject (''Boolean operator requires `bool` operands, found '' @ quoted_type l @ '' and '' @ quoted_type r) s
            else cret (Some (RtValue VtBool))
          else if l \<noteq> r then
            creject (''operator operands must have the same type, found '' @ quoted_type l @ '' and '' @ quoted_type r) s
          else same_operands op s l
      | _ \<Rightarrow> cret None)"

definition conversion_type :: "value_type \<Rightarrow> span \<Rightarrow> return_type option \<Rightarrow> return_type option chk" where
  "conversion_type target s source =
     (case source of
        None \<Rightarrow> cret None
      | Some RtVoid \<Rightarrow> creject ''cannot convert `void` to a numeric type'' s
      | Some (RtValue VtI32) \<Rightarrow> cret (Some (RtValue target))
      | Some (RtValue VtF32) \<Rightarrow> cret (Some (RtValue target))
      | Some (RtValue VtBool) \<Rightarrow> creject ''cannot convert `bool` to a numeric type'' s
      | Some (RtValue (VtArray element len)) \<Rightarrow> creject ''cannot convert an array to a numeric type'' s
      | Some (RtValue (VtStruct name)) \<Rightarrow>
          creject (''cannot convert struct '' @ quoted name @ '' to a numeric type'') s)"

text \<open>The lookup of \<open>check_constant_index\<close>: bindings of constants only.\<close>

definition constant_index_lookup :: "checker \<Rightarrow> string \<Rightarrow> span \<Rightarrow> (diagnostic, constant_value) result" where
  "constant_index_lookup ck n s =
     ok_or (diag (quoted n @ '' is not a compile-time constant'') s)
       (case checker_binding ck n of
          Some b \<Rightarrow> if bind_mutability b = MuConstant then hm_get (ck_constant_values ck) n else None
        | None \<Rightarrow> None)"

definition check_constant_index :: "checker \<Rightarrow> expr \<Rightarrow> nat \<Rightarrow> unit chk" where
  "check_constant_index ck index len =
     (case evaluate_expression index (constant_index_lookup ck) of
        None \<Rightarrow> None
      | Some (Inr (CvI32 v)) \<Rightarrow>
          cwhen (sint v < 0 \<or> len \<le> nat (sint v))
            (cerror (''constant index '' @ show_int (sint v) @ '' is out of bounds for length '' @ show_nat len)
               (expr_span index))
      | Some _ \<Rightarrow> cret ())"

text \<open>Indexing a value of type \<open>base\<close>, for expressions and for assignment targets.\<close>

definition index_type ::
  "checker \<Rightarrow> expr \<Rightarrow> span \<Rightarrow> value_type \<Rightarrow> value_type option \<Rightarrow> value_type option chk" where
  "index_type ck index s base index_ty =
     cbind (found_type VtI32 index_ty ''array index must be i32, found '' (expr_span index)) (\<lambda>_.
       if has_invalid_array_length base then cret None
       else
         case resolved_array base of
           None \<Rightarrow> creject (''cannot index value of type '' @ quoted_type base) s
         | Some (element, len) \<Rightarrow> cbind (check_constant_index ck index len) (\<lambda>_. cret (Some element)))"

definition find_field :: "struct_decl \<Rightarrow> string \<Rightarrow> struct_field option" where
  "find_field d n = find (\<lambda>f. field_name f = n) (struct_fields d)"

definition err_no_field_named :: "string \<Rightarrow> string \<Rightarrow> string" where
  "err_no_field_named name n = ''type '' @ quoted name @ '' has no field named '' @ quoted n"

definition field_type :: "checker \<Rightarrow> span \<Rightarrow> string \<Rightarrow> span \<Rightarrow> value_type \<Rightarrow> value_type option chk" where
  "field_type ck base_span n name_span base =
     (case base of
        VtStruct name \<Rightarrow>
          (case hm_get (ck_structs ck) name of
             None \<Rightarrow> creject (''unknown struct type '' @ quoted name) base_span
           | Some d \<Rightarrow>
               (case find_field d n of
                  None \<Rightarrow> creject (err_no_field_named name n) name_span
                | Some f \<Rightarrow> cret (Some (field_ty f))))
      | _ \<Rightarrow> creject (''type '' @ quoted_type base @ '' has no fields'') name_span)"

definition argument_type :: "string \<Rightarrow> nat \<Rightarrow> value_type \<Rightarrow> value_type option \<Rightarrow> span \<Rightarrow> unit chk" where
  "argument_type name i expected actual s =
     found_type expected actual
       (''argument '' @ show_nat i @ '' to '' @ quoted name @ '' expects '' @ quoted_type expected @ '', but found '') s"

fun missing_fields :: "string \<Rightarrow> span \<Rightarrow> string list \<Rightarrow> struct_field list \<Rightarrow> unit chk" where
  "missing_fields name s seen [] = cret ()"
| "missing_fields name s seen (f # fs) =
     cbind (cwhen (field_name f \<notin> set seen)
              (cerror (''missing initializer for field '' @ quoted (field_name f) @ '' of '' @ quoted name) s))
       (\<lambda>_. missing_fields name s seen fs)"

section \<open>Expressions\<close>

definition err_argument_count :: "string \<Rightarrow> nat \<Rightarrow> nat \<Rightarrow> string" where
  "err_argument_count name expected found =
     ''function '' @ quoted name @ '' expects '' @ show_nat expected @ '' argument(s), but received '' @ show_nat found"

definition err_conversion_arguments :: "value_type \<Rightarrow> nat \<Rightarrow> string" where
  "err_conversion_arguments target found =
     ''conversion to '' @ quoted_type target @ '' expects 1 argument, but received '' @ show_nat found"

definition err_element_count :: "nat \<Rightarrow> nat \<Rightarrow> string" where
  "err_element_count len found = ''expected array length '' @ show_nat len @ '', found '' @ show_nat found @ '' elements''"

definition err_array_declared :: "string \<Rightarrow> value_type \<Rightarrow> string" where
  "err_array_declared description ty =
     description @ '' is an array literal, but the declared type is '' @ quoted_type ty"

definition err_field_twice :: "string \<Rightarrow> string \<Rightarrow> string" where
  "err_field_twice name n = ''field '' @ quoted n @ '' is initialized more than once in '' @ quoted name"

definition field_expects :: "string \<Rightarrow> struct_field \<Rightarrow> string" where
  "field_expects name f =
     ''field '' @ quoted (field_name f) @ '' of '' @ quoted name @ '' expects '' @ quoted_type (field_ty f)
     @ '', but found ''"

text \<open>
  \<open>infer_expr\<close> and \<open>require_value_as\<close>; the other four are the loops of these two over
  the parts of an expression.
\<close>

function infer_expr :: "checker \<Rightarrow> expr \<Rightarrow> return_type option chk"
and require_value_as :: "checker \<Rightarrow> string \<Rightarrow> value_type \<Rightarrow> expr \<Rightarrow> value_type option chk"
and infer_all :: "checker \<Rightarrow> expr list \<Rightarrow> unit chk"
and check_elements :: "checker \<Rightarrow> value_type \<Rightarrow> expr list \<Rightarrow> unit chk"
and check_arguments :: "checker \<Rightarrow> string \<Rightarrow> value_type list \<Rightarrow> nat \<Rightarrow> expr list \<Rightarrow> unit chk"
and infer_initializers :: "checker \<Rightarrow> field_initializer list \<Rightarrow> unit chk"
and check_initializers ::
  "checker \<Rightarrow> struct_decl \<Rightarrow> string \<Rightarrow> string list \<Rightarrow> field_initializer list \<Rightarrow> string list chk" where
  "infer_expr ck (Expr (ExI32 v) s) =
     cbind (cwhen (\<not> fits_i32 v) (cerror ''integer literal does not fit in `i32`'' s)) (\<lambda>_. cret (Some (RtValue VtI32)))"
| "infer_expr ck (Expr (ExF32 v) s) =
     cbind (cwhen (\<not> f32_is_finite v) (cerror ''floating-point literal must be finite'' s)) (\<lambda>_. cret (Some (RtValue VtF32)))"
| "infer_expr ck (Expr (ExBool b) s) = cret (Some (RtValue VtBool))"
| "infer_expr ck (Expr (ExArrayLiteral elements) s) =
     creject ''array literal requires an explicit array type annotation'' s"
| "infer_expr ck (Expr (ExStructLiteral name inits) s) =
     (case hm_get (ck_structs ck) name of
        None \<Rightarrow>
          cbind (cerror (''unknown struct type '' @ quoted name) s) (\<lambda>_.
            cbind (infer_initializers ck inits) (\<lambda>_. cret None))
      | Some d \<Rightarrow>
          cbind (check_initializers ck d name [] inits) (\<lambda>seen.
            cbind (missing_fields name s seen (struct_fields d)) (\<lambda>_. cret (Some (RtValue (VtStruct name))))))"
| "infer_expr ck (Expr (ExVariable n) s) =
     (case checker_binding ck n of
        Some b \<Rightarrow> cret (Some (RtValue (bind_ty b)))
      | None \<Rightarrow> creject (''unknown variable '' @ quoted n) s)"
| "infer_expr ck (Expr (ExIndex base index) s) =
     cbind (cbind (infer_expr ck base) (value_result ''indexed expression'' (expr_span base))) (\<lambda>b.
       case b of
         None \<Rightarrow> cret None
       | Some base_ty \<Rightarrow>
           cbind (cbind (infer_expr ck index) (value_result ''array index'' (expr_span index))) (\<lambda>i.
             cbind (index_type ck index s base_ty i) (\<lambda>t. cret (map_option RtValue t))))"
| "infer_expr ck (Expr (ExField base n name_span) s) =
     cbind (cbind (infer_expr ck base) (value_result ''field access'' (expr_span base))) (\<lambda>b.
       case b of
         None \<Rightarrow> cret None
       | Some base_ty \<Rightarrow>
           cbind (field_type ck (expr_span base) n name_span base_ty) (\<lambda>t. cret (map_option RtValue t)))"
| "infer_expr ck (Expr (ExUnary op operand) s) =
     (if op = UoNegate \<and> expr_kind operand = i32_min_literal then cret (Some (RtValue VtI32))
      else cbind (cbind (infer_expr ck operand) (value_result ''unary operator'' (expr_span operand)))
             (unary_type op s))"
| "infer_expr ck (Expr (ExBinary left op right) s) =
     cbind (cbind (infer_expr ck left) (value_result ''operator operand'' (expr_span left))) (\<lambda>l.
       cbind (cbind (infer_expr ck right) (value_result ''operator operand'' (expr_span right))) (\<lambda>r.
         binary_type op s l r))"
| "infer_expr ck (Expr (ExCall name args) s) =
     (case hm_get (ck_functions ck) name of
        None \<Rightarrow>
          cbind (cerror (''unknown function '' @ quoted name) s) (\<lambda>_. cbind (infer_all ck args) (\<lambda>_. cret None))
      | Some sig \<Rightarrow>
          cbind (cwhen (length args \<noteq> length (sig_params sig))
                   (cerror (err_argument_count name (length (sig_params sig)) (length args)) s)) (\<lambda>_.
            cbind (check_arguments ck name (sig_params sig) 1 args) (\<lambda>_. cret (Some (sig_return sig)))))"
| "infer_expr ck (Expr (ExConversion target args) s) =
     (case args of
        [arg] \<Rightarrow> cbind (infer_expr ck arg) (conversion_type target (expr_span arg))
      | _ \<Rightarrow>
          cbind (cerror (err_conversion_arguments target (length args)) s) (\<lambda>_.
            cbind (infer_all ck args) (\<lambda>_. cret None)))"
| "require_value_as ck description expected (Expr kind s) =
     (if has_invalid_array_length expected then cret (Some expected)
      else
        case kind of
          ExArrayLiteral elements \<Rightarrow>
            (case resolved_array expected of
               None \<Rightarrow> creject (err_array_declared description expected) s
             | Some (element, len) \<Rightarrow>
                 cbind (cwhen (length elements \<noteq> len) (cerror (err_element_count len (length elements)) s)) (\<lambda>_.
                   cbind (check_elements ck element elements) (\<lambda>_. cret (Some expected))))
        | _ \<Rightarrow> cbind (infer_expr ck (Expr kind s)) (value_result description s))"
| "infer_all ck [] = cret ()"
| "infer_all ck (e # es) = cbind (infer_expr ck e) (\<lambda>_. infer_all ck es)"
| "check_elements ck element [] = cret ()"
| "check_elements ck element (e # es) =
     cbind (require_value_as ck ''array element'' element e) (\<lambda>actual.
       cbind (found_type element actual (''array element expects '' @ quoted_type element @ '', but found '') (expr_span e))
         (\<lambda>_. check_elements ck element es))"
| "check_arguments ck name params i [] = cret ()"
| "check_arguments ck name params i (arg # args) =
     (case params of
        expected # params' \<Rightarrow>
          cbind (require_value_as ck ''function argument'' expected arg) (\<lambda>actual.
            cbind (argument_type name i expected actual (expr_span arg)) (\<lambda>_.
              check_arguments ck name params' (Suc i) args))
      | [] \<Rightarrow>
          cbind (cbind (infer_expr ck arg) (value_result ''function argument'' (expr_span arg))) (\<lambda>_.
            check_arguments ck name [] (Suc i) args))"
| "infer_initializers ck [] = cret ()"
| "infer_initializers ck (FieldInitializer n e s # inits) =
     cbind (infer_expr ck e) (\<lambda>_. infer_initializers ck inits)"
| "check_initializers ck d name seen [] = cret seen"
| "check_initializers ck d name seen (FieldInitializer n e s # inits) =
     (if n \<in> set seen then
        cbind (cerror (err_field_twice name n) s) (\<lambda>_.
          cbind (infer_expr ck e) (\<lambda>_. check_initializers ck d name seen inits))
      else
        case find_field d n of
          None \<Rightarrow>
            cbind (cerror (err_no_field_named name n) s) (\<lambda>_.
              cbind (infer_expr ck e) (\<lambda>_. check_initializers ck d name (n # seen) inits))
        | Some f \<Rightarrow>
            cbind (require_value_as ck ''field initializer'' (field_ty f) e) (\<lambda>actual.
              cbind (found_type (field_ty f) actual (field_expects name f) (expr_span e)) (\<lambda>_.
                check_initializers ck d name (n # seen) inits)))"
  by pat_completeness auto
termination
  by (relation "measure (\<lambda>x. case x of
        Inl (Inl (ck, e)) \<Rightarrow> 2 * size e
      | Inl (Inr (Inl (ck, description, ty, e))) \<Rightarrow> 2 * size e + 1
      | Inl (Inr (Inr (ck, es))) \<Rightarrow> 2 * size_list size es
      | Inr (Inl (Inl (ck, ty, es))) \<Rightarrow> 2 * size_list size es
      | Inr (Inl (Inr (ck, n, ps, i, es))) \<Rightarrow> 2 * size_list size es
      | Inr (Inr (Inl (ck, fs))) \<Rightarrow> 2 * size_list size fs
      | Inr (Inr (Inr (ck, d, n, seen, fs))) \<Rightarrow> 2 * size_list size fs)") simp_all

end
