(* ===== verification/Checker_Statements.thy ===== *)
theory Checker_Statements
  imports Checker
begin

text \<open>
  Assignment targets, statements and functions, the rest of \<open>FunctionChecker\<close> and
  \<open>check_function\<close> of \<^verbatim>\<open>src/src/sema.rs\<close>.
\<close>

definition require_value :: "checker \<Rightarrow> string \<Rightarrow> expr \<Rightarrow> value_type option chk" where
  "require_value ck description e = cbind (infer_expr ck e) (value_result description (expr_span e))"

definition require_bool :: "checker \<Rightarrow> string \<Rightarrow> expr \<Rightarrow> unit chk" where
  "require_bool ck description e =
     cbind (require_value ck description e) (\<lambda>actual.
       found_type VtBool actual (description @ '' must be `bool`, found '') (expr_span e))"

section \<open>Assignment targets\<close>

record lvalue =
  lval_ty :: value_type
  lval_mutability :: mutability
  lval_root :: string

definition lvalue_of :: "string \<Rightarrow> binding \<Rightarrow> lvalue" where
  "lvalue_of n b = \<lparr>lval_ty = bind_ty b, lval_mutability = bind_mutability b, lval_root = n\<rparr>"

fun infer_lvalue :: "checker \<Rightarrow> expr \<Rightarrow> lvalue option chk" where
  "infer_lvalue ck (Expr (ExVariable n) s) =
     (case checker_binding ck n of
        Some b \<Rightarrow> cret (Some (lvalue_of n b))
      | None \<Rightarrow> creject (''cannot assign to unknown variable '' @ quoted n) s)"
| "infer_lvalue ck (Expr (ExIndex base index) s) =
     cbind (infer_lvalue ck base) (\<lambda>root.
       case root of
         None \<Rightarrow> cret None
       | Some root \<Rightarrow>
           cbind (require_value ck ''array index'' index) (\<lambda>i.
             cbind (index_type ck index s (lval_ty root) i) (\<lambda>t.
               cret (map_option (\<lambda>ty. root\<lparr>lval_ty := ty\<rparr>) t))))"
| "infer_lvalue ck (Expr (ExField base n name_span) s) =
     cbind (infer_lvalue ck base) (\<lambda>root.
       case root of
         None \<Rightarrow> cret None
       | Some root \<Rightarrow>
           cbind (field_type ck (expr_span base) n name_span (lval_ty root)) (\<lambda>t.
             cret (map_option (\<lambda>ty. root\<lparr>lval_ty := ty\<rparr>) t)))"
| "infer_lvalue ck (Expr kind s) =
     cbind (infer_expr ck (Expr kind s)) (\<lambda>_. creject ''invalid assignment target'' s)"

section \<open>Assignments\<close>

definition is_variable :: "expr \<Rightarrow> bool" where
  "is_variable e = (case expr_kind e of ExVariable n \<Rightarrow> True | _ \<Rightarrow> False)"

definition err_constant_target :: "bool \<Rightarrow> assign_op \<Rightarrow> string \<Rightarrow> string" where
  "err_constant_target direct op root =
     (if op = AoSet \<and> direct then ''cannot assign to constant '' @ quoted root
      else if op = AoSet then ''cannot assign through constant '' @ quoted root
      else if direct then ''cannot use compound assignment on constant '' @ quoted root
      else ''cannot use compound assignment through constant '' @ quoted root)"

definition err_assigned_type :: "bool \<Rightarrow> assign_op \<Rightarrow> lvalue \<Rightarrow> value_type \<Rightarrow> string" where
  "err_assigned_type direct op lv actual =
     (if op = AoSet \<and> direct then
        ''cannot assign '' @ quoted_type actual @ '' to variable '' @ quoted (lval_root lv)
        @ '' of type '' @ quoted_type (lval_ty lv)
      else if op = AoSet then
        ''cannot assign '' @ quoted_type actual @ '' to target of type '' @ quoted_type (lval_ty lv)
      else if direct then
        ''compound assignment to '' @ quoted (lval_root lv) @ '' expects '' @ quoted_type (lval_ty lv)
        @ '', but found '' @ quoted_type actual
      else
        ''compound assignment expects '' @ quoted_type (lval_ty lv) @ '', but found '' @ quoted_type actual)"

definition check_compound :: "assign_op \<Rightarrow> lvalue \<Rightarrow> span \<Rightarrow> unit chk" where
  "check_compound op lv s =
     (if op = AoSet then cret ()
      else if \<not> is_numeric (lval_ty lv) then
        cerror (''compound assignment requires a numeric target, but found '' @ quoted_type (lval_ty lv)) s
      else cwhen (op = AoRemainder \<and> lval_ty lv \<noteq> VtI32)
             (cerror (''remainder requires `i32` operands, but found '' @ quoted_type (lval_ty lv)) s))"

definition check_assigned :: "expr \<Rightarrow> assign_op \<Rightarrow> lvalue \<Rightarrow> value_type option \<Rightarrow> span \<Rightarrow> unit chk" where
  "check_assigned target op lv actual s =
     (case actual of
        None \<Rightarrow> cret ()
      | Some ty \<Rightarrow> cwhen (lval_ty lv \<noteq> ty) (cerror (err_assigned_type (is_variable target) op lv ty) s))"

definition check_assign :: "checker \<Rightarrow> span \<Rightarrow> expr \<Rightarrow> assign_op \<Rightarrow> expr \<Rightarrow> unit chk" where
  "check_assign ck s target op v =
     cbind (infer_lvalue ck target) (\<lambda>lv.
       case lv of
         None \<Rightarrow> cret ()
       | Some lv \<Rightarrow>
           cbind (if op = AoSet then require_value_as ck ''assignment'' (lval_ty lv) v
                  else require_value ck ''compound assignment'' v) (\<lambda>actual.
             if lval_mutability lv = MuLoopVariable then
               cerror (''loop variable '' @ quoted (lval_root lv) @ '' is read-only'') s
             else if lval_mutability lv = MuConstant then
               cerror (err_constant_target (is_variable target) op (lval_root lv)) s
             else cbind (check_compound op lv s) (\<lambda>_. check_assigned target op lv actual (expr_span v))))"

section \<open>Statements\<close>

definition insert_binding :: "string \<Rightarrow> binding \<Rightarrow> checker \<Rightarrow> (bool \<times> checker) chk" where
  "insert_binding n b ck =
     (case ck_scopes ck of
        [] \<Rightarrow> None
      | scope # scopes \<Rightarrow>
          cret (hm_contains scope n, ck\<lparr>ck_scopes := hm_insert n b scope # scopes\<rparr>))"

definition check_let :: "span \<Rightarrow> string \<Rightarrow> value_type \<Rightarrow> expr \<Rightarrow> checker \<Rightarrow> checker chk" where
  "check_let s n ty init ck =
     cbind (cwhen (is_predefined_constant n)
              (cerror (''variable '' @ quoted n @ '' conflicts with a predefined constant'') s)) (\<lambda>_.
     cbind (require_value_as ck ''variable initializer'' ty init) (\<lambda>actual.
     cbind (found_type ty actual
              (''variable '' @ quoted n @ '' has type '' @ quoted_type ty @ '', but its initializer has type '')
              (expr_span init)) (\<lambda>_.
     cbind (insert_binding n \<lparr>bind_ty = ty, bind_mutability = MuMutable\<rparr> ck) (\<lambda>(duplicate, ck').
     cbind (cwhen duplicate
              (cerror (''variable '' @ quoted n @ '' is declared more than once in this block'') s)) (\<lambda>_.
       cret ck')))))"

definition check_bound :: "checker \<Rightarrow> string \<Rightarrow> expr \<Rightarrow> unit chk" where
  "check_bound ck description e =
     cbind (require_value ck description e) (\<lambda>actual.
       found_type VtI32 actual (description @ '' must be `i32`, found '') (expr_span e))"

definition returned_type :: "value_type \<Rightarrow> span \<Rightarrow> return_type option \<Rightarrow> unit chk" where
  "returned_type expected s r =
     (case r of
        Some (RtValue actual) \<Rightarrow>
          cwhen (actual \<noteq> expected)
            (cerror (''return expects '' @ quoted_type expected @ '', but found '' @ quoted_type actual) s)
      | Some RtVoid \<Rightarrow> cerror (''return expects '' @ quoted_type expected @ '', but found `void`'') s
      | None \<Rightarrow> cret ())"

definition is_array_literal :: "expr \<Rightarrow> bool" where
  "is_array_literal e = (case expr_kind e of ExArrayLiteral es \<Rightarrow> True | _ \<Rightarrow> False)"

definition check_return :: "checker \<Rightarrow> span \<Rightarrow> expr option \<Rightarrow> unit chk" where
  "check_return ck s v =
     (case (ck_return_type ck, v) of
        (RtVoid, None) \<Rightarrow> cret ()
      | (RtVoid, Some e) \<Rightarrow>
          cbind (infer_expr ck e) (\<lambda>_. cerror ''void function cannot return a value'' (expr_span e))
      | (RtValue expected, None) \<Rightarrow> cerror (''return requires a value of type '' @ quoted_type expected) s
      | (RtValue expected, Some e) \<Rightarrow>
          cbind (if is_array_literal e
                 then cbind (require_value_as ck ''return'' expected e) (\<lambda>t. cret (map_option RtValue t))
                 else infer_expr ck e) (returned_type expected (expr_span e)))"

definition loop_scope :: "string \<Rightarrow> (string, binding) hash_map" where
  "loop_scope n = [(n, \<lparr>bind_ty = VtI32, bind_mutability = MuLoopVariable\<rparr>)]"

text \<open>A block in a scope of its own, \<open>check_nested_block\<close> and the body of a \<open>for\<close>.\<close>

definition in_scope :: "(string, binding) hash_map \<Rightarrow> (checker \<Rightarrow> checker chk) \<Rightarrow> checker \<Rightarrow> checker chk" where
  "in_scope scope body ck =
     cbind (body (ck\<lparr>ck_scopes := scope # ck_scopes ck\<rparr>)) (\<lambda>ck'. cret (ck'\<lparr>ck_scopes := tl (ck_scopes ck')\<rparr>))"

lemma in_scope_cong [fundef_cong]:
  "\<lbrakk>scope = scope'; ck = ck'; \<And>c. body c = body' c\<rbrakk> \<Longrightarrow> in_scope scope body ck = in_scope scope' body' ck'"
  by (simp add: in_scope_def)

fun check_statement :: "stmt \<Rightarrow> checker \<Rightarrow> checker chk"
and check_statements :: "stmt list \<Rightarrow> checker \<Rightarrow> checker chk" where
  "check_statement (Stmt (StLet n ty init) s) ck = check_let s n ty init ck"
| "check_statement (Stmt (StAssign target op v) s) ck = cbind (check_assign ck s target op v) (\<lambda>_. cret ck)"
| "check_statement (Stmt (StExpr e) s) ck = cbind (infer_expr ck e) (\<lambda>_. cret ck)"
| "check_statement (Stmt (StIf condition then_block else_block) s) ck =
     cbind (require_bool ck ''`if` condition'' condition) (\<lambda>_.
     cbind (in_scope [] (check_statements then_block) ck) (\<lambda>ck'.
       case else_block of
         None \<Rightarrow> cret ck'
       | Some block \<Rightarrow> in_scope [] (check_statements block) ck'))"
| "check_statement (Stmt (StWhile condition body) s) ck =
     cbind (require_bool ck ''`while` condition'' condition) (\<lambda>_. in_scope [] (check_statements body) ck)"
| "check_statement (Stmt (StFor n name_span lower upper body) s) ck =
     cbind (check_bound ck ''range lower bound'' lower) (\<lambda>_.
     cbind (check_bound ck ''range upper bound'' upper) (\<lambda>_.
     cbind (cwhen (is_predefined_constant n)
              (cerror (''loop variable '' @ quoted n @ '' conflicts with a predefined constant'') name_span)) (\<lambda>_.
       in_scope (loop_scope n) (check_statements body) ck)))"
| "check_statement (Stmt (StReturn v) s) ck = cbind (check_return ck s v) (\<lambda>_. cret ck)"
| "check_statements [] ck = cret ck"
| "check_statements (stmt # stmts) ck = cbind (check_statement stmt ck) (check_statements stmts)"

section \<open>Functions\<close>

fun stmt_returns :: "stmt \<Rightarrow> bool"
and block_returns :: "stmt list \<Rightarrow> bool" where
  "stmt_returns (Stmt (StReturn v) s) = True"
| "stmt_returns (Stmt (StIf c then_block (Some else_block)) s) = (block_returns then_block \<and> block_returns else_block)"
| "stmt_returns stmt = False"
| "block_returns [] = False"
| "block_returns (stmt # stmts) = (stmt_returns stmt \<or> block_returns stmts)"

fun check_params :: "param list \<Rightarrow> checker \<Rightarrow> checker chk" where
  "check_params [] ck = cret ck"
| "check_params (p # ps) ck =
     cbind (cwhen (is_predefined_constant (param_name p))
              (cerror (''parameter '' @ quoted (param_name p) @ '' conflicts with a predefined constant'') (param_span p)))
       (\<lambda>_.
     cbind (insert_binding (param_name p) \<lparr>bind_ty = param_ty p, bind_mutability = MuMutable\<rparr> ck)
       (\<lambda>(duplicate, ck').
     cbind (cwhen duplicate
              (cerror (''parameter '' @ quoted (param_name p) @ '' is declared more than once'') (param_span p)))
       (\<lambda>_. check_params ps ck')))"

definition check_function ::
  "(string, value_type) hash_map \<Rightarrow> (string, value_type) hash_map \<Rightarrow> (string, constant_value) hash_map \<Rightarrow>
   (string, struct_decl) hash_map \<Rightarrow> (string, signature) hash_map \<Rightarrow> function_decl \<Rightarrow> unit chk" where
  "check_function globals constants values structs fns f =
     cbind (check_params (function_params f)
              (checker_new globals constants values structs fns (function_return_type f))) (\<lambda>ck.
     cbind (check_statements (function_body f) ck) (\<lambda>_.
       cwhen (return_value_type (function_return_type f) \<noteq> None \<and> \<not> block_returns (function_body f))
         (cerror (''function '' @ quoted (function_name f) @ '' may finish without returning ''
                  @ quoted (return_type_name (function_return_type f))) (function_span f))))"

end
