(* ===== verification/Struct_Graph.thy ===== *)
theory Struct_Graph
  imports Program_Types "HOL-Library.Char_ord" "HOL-Library.List_Lexorder" "HOL-Library.Product_Lexorder"
begin

text \<open>
  The analysis of the structs of a program, \<^verbatim>\<open>src/src/sema/struct_graph.rs\<close>: which
  structs contain themselves, and which depend on an array length that failed. Structs are numbered in
  the order of their declarations; the graph is the list of the neighbours of every number. The
  searches are those of the code, with their explicit stacks, whose top is the head of a list. An index
  out of bounds is \<^const>\<open>None\<close>, a panic.
\<close>

fun base_struct_name :: "value_type \<Rightarrow> string option" where
  "base_struct_name (VtArray element len) = base_struct_name element"
| "base_struct_name (VtStruct name) = Some name"
| "base_struct_name ty = None"

section \<open>Searches\<close>

definition idx :: "'a list \<Rightarrow> nat \<Rightarrow> 'a option" where
  "idx xs i = (if i < length xs then Some (xs ! i) else None)"

lemma idx_eq_Some [simp]: "idx xs i = Some x \<longleftrightarrow> i < length xs \<and> xs ! i = x"
  by (auto simp: idx_def)

lemma idx_Some: "i < length xs \<Longrightarrow> idx xs i = Some (xs ! i)"
  by simp

definition unmarked :: "bool list \<Rightarrow> nat" where
  "unmarked marks = length (filter Not marks)"

lemma unmarked_mark: "i < length marks \<Longrightarrow> \<not> marks ! i \<Longrightarrow> unmarked marks = Suc (unmarked (marks[i := True]))"
  by (induction marks arbitrary: i) (auto simp: unmarked_def nth_Cons split: nat.splits)

text \<open>The first pass: nodes in the order in which the search finishes them.\<close>

definition edges_left :: "nat list list \<Rightarrow> nat \<times> nat \<Rightarrow> nat" where
  "edges_left deps = (\<lambda>(node, next_edge). Suc (length (deps ! node) - next_edge))"

function finish_loop ::
  "nat list list \<Rightarrow> bool list \<Rightarrow> nat list \<Rightarrow> (nat \<times> nat) list \<Rightarrow> (bool list \<times> nat list) option" where
  "finish_loop deps visited finished [] = Some (visited, finished)"
| "finish_loop deps visited finished ((node, next_edge) # stack) =
     (case idx deps node of
        None \<Rightarrow> None
      | Some edges \<Rightarrow>
          (case idx edges next_edge of
             Some dependency \<Rightarrow>
               (case idx visited dependency of
                  None \<Rightarrow> None
                | Some seen \<Rightarrow>
                    if seen then finish_loop deps visited finished ((node, Suc next_edge) # stack)
                    else finish_loop deps (visited[dependency := True]) finished
                           ((dependency, 0) # (node, Suc next_edge) # stack))
           | None \<Rightarrow> finish_loop deps visited (finished @ [node]) stack))"
  by pat_completeness auto
termination
  by (relation "(\<lambda>(deps, visited, finished, stack). unmarked visited) <*mlex*>
        measure (\<lambda>(deps, visited, finished, stack). sum_list (map (edges_left deps) stack))")
     (auto simp: mlex_prod_def edges_left_def dest: unmarked_mark)

fun finish_roots :: "nat list list \<Rightarrow> nat list \<Rightarrow> bool list \<Rightarrow> nat list \<Rightarrow> (bool list \<times> nat list) option" where
  "finish_roots deps [] visited finished = Some (visited, finished)"
| "finish_roots deps (root # roots) visited finished =
     (case idx visited root of
        None \<Rightarrow> None
      | Some seen \<Rightarrow>
          if seen then finish_roots deps roots visited finished
          else Option.bind (finish_loop deps (visited[root := True]) finished [(root, 0)])
                 (\<lambda>(visited', finished'). finish_roots deps roots visited' finished'))"

text \<open>The loop over the dependents of a node, which marks and pushes those not yet marked.\<close>

fun mark_new :: "nat list \<Rightarrow> bool list \<Rightarrow> nat list \<Rightarrow> (bool list \<times> nat list) option" where
  "mark_new [] marks pending = Some (marks, pending)"
| "mark_new (d # ds) marks pending =
     (case idx marks d of
        None \<Rightarrow> None
      | Some seen \<Rightarrow> if seen then mark_new ds marks pending else mark_new ds (marks[d := True]) (d # pending))"

lemma mark_new_measure:
  "mark_new ds marks pending = Some (marks', pending') \<Longrightarrow>
     unmarked marks' + length pending' = unmarked marks + length pending"
  by (induction ds marks pending rule: mark_new.induct) (auto split: option.splits if_splits dest: unmarked_mark)

text \<open>Marks what is reachable along the dependents, and gives the nodes in the order visited.\<close>

function spread ::
  "nat list list \<Rightarrow> bool list \<Rightarrow> nat list \<Rightarrow> nat list \<Rightarrow> (bool list \<times> nat list) option" where
  "spread dependents marks [] component = Some (marks, component)"
| "spread dependents marks (node # pending) component =
     (case idx dependents node of
        None \<Rightarrow> None
      | Some ds \<Rightarrow>
          (case mark_new ds marks pending of
             None \<Rightarrow> None
           | Some (marks', pending') \<Rightarrow> spread dependents marks' pending' (component @ [node])))"
  by pat_completeness auto
termination
  by (relation "measure (\<lambda>(dependents, marks, pending, component). unmarked marks + length pending)")
     (auto dest: mark_new_measure)

fun mark_all :: "nat list \<Rightarrow> bool list \<Rightarrow> bool list" where
  "mark_all [] marks = marks"
| "mark_all (i # is) marks = mark_all is (marks[i := True])"

text \<open>The second pass, over the nodes finished last first.\<close>

fun component_roots ::
  "nat list list \<Rightarrow> nat list list \<Rightarrow> nat list \<Rightarrow> bool list \<Rightarrow> bool list \<Rightarrow> bool list option" where
  "component_roots deps dependents [] visited recursive = Some recursive"
| "component_roots deps dependents (root # roots) visited recursive =
     (case idx visited root of
        None \<Rightarrow> None
      | Some seen \<Rightarrow>
          if seen then component_roots deps dependents roots visited recursive
          else Option.bind (spread dependents (visited[root := True]) [root] []) (\<lambda>(visited', component).
            component_roots deps dependents roots visited'
              (if length component > 1 \<or> root \<in> set (deps ! root) then mark_all component recursive else recursive)))"

definition recursive_members :: "nat list list \<Rightarrow> nat list list \<Rightarrow> bool list option" where
  "recursive_members deps dependents =
     (let n = length deps in
      Option.bind (finish_roots deps [0..<n] (replicate n False) []) (\<lambda>(visited, finished).
        component_roots deps dependents (rev finished) (replicate n False) (replicate n False)))"

section \<open>The graph of the structs\<close>

text \<open>The values of a map in some order; they are sorted next.\<close>

definition hm_values :: "('k, 'v) hash_map \<Rightarrow> 'v list" where
  "hm_values m = map (\<lambda>k. the (hm_get m k)) (remdups (map fst m))"

definition sorted_declarations :: "(string, struct_decl) hash_map \<Rightarrow> struct_decl list" where
  "sorted_declarations structs =
     sort_key (\<lambda>d. (span_start (struct_span d), struct_decl_name d)) (hm_values structs)"

definition struct_indices :: "struct_decl list \<Rightarrow> (string, nat) hash_map" where
  "struct_indices ds = hm_collect (zip (map struct_decl_name ds) [0..<length ds])"

definition field_dependencies :: "(string, nat) hash_map \<Rightarrow> struct_decl \<Rightarrow> nat list" where
  "field_dependencies indices d =
     List.map_filter (\<lambda>f. Option.bind (base_struct_name (field_ty f)) (hm_get indices)) (struct_fields d)"

definition struct_edges :: "struct_decl list \<Rightarrow> (nat \<times> nat) list" where
  "struct_edges ds =
     concat (map (\<lambda>(i, d). map (Pair i) (field_dependencies (struct_indices ds) d)) (zip [0..<length ds] ds))"

fun push_edges :: "(nat \<times> nat) list \<Rightarrow> nat list list \<Rightarrow> nat list list" where
  "push_edges [] g = g"
| "push_edges ((i, j) # es) g = push_edges es (g[i := g ! i @ [j]])"

definition invalid_members :: "struct_decl list \<Rightarrow> bool list" where
  "invalid_members ds = map (\<lambda>d. list_ex (\<lambda>f. has_invalid_array_length (field_ty f)) (struct_fields d)) ds"

text \<open>Propagates the failed lengths; the last struct is popped first.\<close>

definition propagate_invalid :: "nat list list \<Rightarrow> bool list \<Rightarrow> bool list option" where
  "propagate_invalid dependents invalid =
     map_option fst
       (spread dependents invalid (rev (filter (\<lambda>i. invalid ! i) [0..<length invalid])) [])"

definition recursive_struct_error :: "struct_decl \<Rightarrow> diagnostic" where
  "recursive_struct_error d =
     diag (''recursive value type is not supported: struct `'' @ struct_decl_name d @ ''` contains itself'')
       (struct_span d)"

definition marked_of :: "bool list \<Rightarrow> 'a list \<Rightarrow> 'a list" where
  "marked_of marks xs = map snd (filter fst (zip marks xs))"

text \<open>The names of the structs whose lengths failed, and the diagnostics.\<close>

definition struct_type_analysis_new ::
  "(string, struct_decl) hash_map \<Rightarrow> diagnostic list \<Rightarrow> (string list \<times> diagnostic list) option" where
  "struct_type_analysis_new structs diags =
     (let ds = sorted_declarations structs;
          es = struct_edges ds;
          dependencies = push_edges es (replicate (length ds) []);
          dependents = push_edges (map prod.swap es) (replicate (length ds) [])
      in Option.bind (recursive_members dependencies dependents) (\<lambda>recursive.
           map_option
             (\<lambda>invalid. (map struct_decl_name (marked_of invalid ds),
                         diags @ map recursive_struct_error (marked_of recursive ds)))
             (propagate_invalid dependents (invalid_members ds))))"

definition resolution_failed :: "string list \<Rightarrow> value_type \<Rightarrow> bool" where
  "resolution_failed invalid_lengths ty \<longleftrightarrow>
     has_invalid_array_length ty \<or> (\<exists>n \<in> set invalid_lengths. base_struct_name ty = Some n)"

end
