(* ===== verification/Sema.thy ===== *)
theory Sema
  imports Checker_Statements Struct_Graph
begin

text \<open>
  Semantic analysis of a program, \<open>check\<close> of \<^verbatim>\<open>src/src/sema.rs\<close>: the
  declarations are entered one kind after the other, their types validated, initializers checked and
  evaluated, and the functions checked. The program comes back with the lengths of its arrays
  and the values of its constants and globals filled in; it is accepted when no diagnostic is left.
\<close>

text \<open>A loop that carries a state.\<close>

fun ceach :: "('a \<Rightarrow> 's \<Rightarrow> 's chk) \<Rightarrow> 'a list \<Rightarrow> 's \<Rightarrow> 's chk" where
  "ceach f [] st = cret st"
| "ceach f (x # xs) st = cbind (f x st) (ceach f xs)"

section \<open>Declarations\<close>

definition builtins :: "(string, signature) hash_map" where
  "builtins = hm_collect (map (\<lambda>b. (bf_name b, \<lparr>sig_params = bf_params b, sig_return = bf_return_type b\<rparr>)) FUNCTIONS)"

definition predefined_types :: "resolution \<Rightarrow> (string, value_type) hash_map" where
  "predefined_types r = hm_collect (map (\<lambda>(n, v). (n, constant_value_ty v)) (builtin_constants r))"

text \<open>What a top level name stands for.\<close>

type_synonym top_level_names = "(string, string) hash_map"

definition predefined_names :: "resolution \<Rightarrow> top_level_names" where
  "predefined_names r =
     hm_collect (map (\<lambda>b. (bf_name b, ''function'')) FUNCTIONS
                 @ map (\<lambda>(n, v). (n, ''predefined constant'')) (builtin_constants r))"

definition declared_twice :: "string \<Rightarrow> string \<Rightarrow> string" where
  "declared_twice what n = what @ '' '' @ quoted n @ '' is declared more than once''"

definition conflicts_with :: "string \<Rightarrow> string \<Rightarrow> string \<Rightarrow> string" where
  "conflicts_with what n existing = what @ '' '' @ quoted n @ '' conflicts with an existing '' @ existing"

definition conflict :: "string \<Rightarrow> string \<Rightarrow> span \<Rightarrow> top_level_names \<Rightarrow> unit chk" where
  "conflict what n s names =
     (case hm_get names n of None \<Rightarrow> cret () | Some existing \<Rightarrow> cerror (conflicts_with what n existing) s)"

fun check_field_names :: "string \<Rightarrow> string list \<Rightarrow> struct_field list \<Rightarrow> unit chk" where
  "check_field_names name seen [] = cret ()"
| "check_field_names name seen (f # fs) =
     cbind (cwhen (field_name f \<in> set seen)
              (cerror (declared_twice ''field'' (field_name f) @ '' in struct '' @ quoted name) (field_span f))) (\<lambda>_.
       check_field_names name (field_name f # seen) fs)"

definition declare_struct ::
  "struct_decl \<Rightarrow> (string, struct_decl) hash_map \<times> top_level_names \<Rightarrow>
   ((string, struct_decl) hash_map \<times> top_level_names) chk" where
  "declare_struct d = (\<lambda>(structs, names).
     let n = struct_decl_name d; duplicate = hm_contains structs n in
     cbind (if duplicate then cerror (declared_twice ''struct'' n) (struct_span d)
            else conflict ''struct'' n (struct_span d) names) (\<lambda>_.
     cbind (check_field_names n [] (struct_fields d)) (\<lambda>_.
       cret (hm_insert n d structs, if duplicate then names else hm_insert n ''struct'' names))))"

definition declare_constant ::
  "constant_decl \<Rightarrow> (string, value_type) hash_map \<times> top_level_names \<Rightarrow>
   ((string, value_type) hash_map \<times> top_level_names) chk" where
  "declare_constant c = (\<lambda>(constants, names).
     let n = constant_name c in
     if is_predefined_constant n then
       cbind (cerror (''constant '' @ quoted n @ '' conflicts with a predefined constant'') (constant_span c)) (\<lambda>_.
         cret (constants, names))
     else
       cbind (cwhen (hm_contains constants n) (cerror (declared_twice ''constant'' n) (constant_span c))) (\<lambda>_.
       cbind (conflict ''constant'' n (constant_span c) names) (\<lambda>_.
         cret (hm_insert n (constant_ty c) constants, hm_insert n ''constant'' names))))"

definition declare_global ::
  "global_decl \<Rightarrow> (string, value_type) hash_map \<times> top_level_names \<Rightarrow>
   ((string, value_type) hash_map \<times> top_level_names) chk" where
  "declare_global g = (\<lambda>(globals, names).
     let n = global_name g in
     cbind (cwhen (hm_contains globals n) (cerror (declared_twice ''global'' n) (global_span g))) (\<lambda>_.
     cbind (conflict ''global'' n (global_span g) names) (\<lambda>_.
       cret (hm_insert n (global_ty g) globals, hm_insert n ''global variable'' names))))"

definition signature_of :: "function_decl \<Rightarrow> signature" where
  "signature_of f = \<lparr>sig_params = map param_ty (function_params f), sig_return = function_return_type f\<rparr>"

definition entry_count :: "(function_kind, nat) hash_map \<Rightarrow> function_kind \<Rightarrow> nat" where
  "entry_count counts k = (case hm_get counts k of Some n \<Rightarrow> n | None \<Rightarrow> 0)"

definition declare_function ::
  "function_decl \<Rightarrow> (string, signature) hash_map \<times> top_level_names \<times> (function_kind, nat) hash_map \<Rightarrow>
   ((string, signature) hash_map \<times> top_level_names \<times> (function_kind, nat) hash_map) chk" where
  "declare_function f = (\<lambda>(fns, names, counts).
     let n = function_name f in
     if function_kind f = FkNamed then
       cbind (cwhen (hm_contains fns n) (cerror (conflicts_with ''function'' n ''function'') (function_span f))) (\<lambda>_.
       cbind (cwhen (hm_get names n \<noteq> Some ''function'') (conflict ''function'' n (function_span f) names)) (\<lambda>_.
         cret (hm_insert n (signature_of f) fns, hm_insert n ''function'' names, counts)))
     else cret (fns, names, hm_insert (function_kind f) (Suc (entry_count counts (function_kind f))) counts))"

fun check_entry_points :: "span \<Rightarrow> (function_kind, nat) hash_map \<Rightarrow> (function_kind \<times> string) list \<Rightarrow> unit chk" where
  "check_entry_points s counts [] = cret ()"
| "check_entry_points s counts ((k, n) # entries) =
     cbind (case entry_count counts k of
              0 \<Rightarrow> cerror (''game is missing its '' @ quoted n @ '' entry point'') s
            | Suc 0 \<Rightarrow> cret ()
            | Suc (Suc _) \<Rightarrow> cerror (''game declares '' @ quoted n @ '' more than once'') s) (\<lambda>_.
       check_entry_points s counts entries)"

section \<open>Types of declarations\<close>

fun validate_known_type :: "(string, struct_decl) hash_map \<Rightarrow> span \<Rightarrow> value_type \<Rightarrow> unit chk" where
  "validate_known_type structs s (VtStruct name) =
     cwhen (\<not> hm_contains structs name) (cerror (''unknown struct type '' @ quoted name) s)"
| "validate_known_type structs s (VtArray element len) = validate_known_type structs s element"
| "validate_known_type structs s ty = cret ()"

definition on_each :: "('a \<Rightarrow> unit chk) \<Rightarrow> 'a list \<Rightarrow> unit chk" where
  "on_each f xs = ceach (\<lambda>x _. f x) xs ()"

fun validate_stmt_types :: "(string, struct_decl) hash_map \<Rightarrow> stmt \<Rightarrow> unit chk"
and validate_block_types :: "(string, struct_decl) hash_map \<Rightarrow> stmt list \<Rightarrow> unit chk" where
  "validate_stmt_types structs (Stmt (StLet n ty e) s) = validate_known_type structs s ty"
| "validate_stmt_types structs (Stmt (StIf c then_block else_block) s) =
     cbind (validate_block_types structs then_block) (\<lambda>_.
       case else_block of None \<Rightarrow> cret () | Some block \<Rightarrow> validate_block_types structs block)"
| "validate_stmt_types structs (Stmt (StWhile c body) s) = validate_block_types structs body"
| "validate_stmt_types structs (Stmt (StFor n ns lower upper body) s) = validate_block_types structs body"
| "validate_stmt_types structs (Stmt (StAssign target op e) s) = cret ()"
| "validate_stmt_types structs (Stmt (StExpr e) s) = cret ()"
| "validate_stmt_types structs (Stmt (StReturn e) s) = cret ()"
| "validate_block_types structs [] = cret ()"
| "validate_block_types structs (stmt # stmts) =
     cbind (validate_stmt_types structs stmt) (\<lambda>_. validate_block_types structs stmts)"

definition validate_function_types :: "(string, struct_decl) hash_map \<Rightarrow> function_decl \<Rightarrow> unit chk" where
  "validate_function_types structs f =
     cbind (on_each (\<lambda>p. validate_known_type structs (param_span p) (param_ty p)) (function_params f)) (\<lambda>_.
     cbind (case function_return_type f of
              RtValue ty \<Rightarrow> validate_known_type structs (function_span f) ty
            | RtVoid \<Rightarrow> cret ()) (\<lambda>_.
       validate_block_types structs (function_body f)))"

definition validate_declared_types :: "program \<Rightarrow> (string, struct_decl) hash_map \<Rightarrow> unit chk" where
  "validate_declared_types p structs =
     cbind (on_each (\<lambda>d. on_each (\<lambda>f. validate_known_type structs (field_span f) (field_ty f)) (struct_fields d))
              (program_structs p)) (\<lambda>_.
     cbind (on_each (\<lambda>c. validate_known_type structs (constant_span c) (constant_ty c)) (program_constants p)) (\<lambda>_.
     cbind (on_each (\<lambda>g. validate_known_type structs (global_span g) (global_ty g)) (program_globals p)) (\<lambda>_.
       on_each (validate_function_types structs) (program_functions p))))"

section \<open>Initializers\<close>

text \<open>Whether an initializer refers to constants only; every part is visited.\<close>

definition cand :: "bool chk \<Rightarrow> bool chk \<Rightarrow> bool chk" where
  "cand a b = cbind a (\<lambda>x. cbind b (\<lambda>y. cret (x \<and> y)))"

lemma cand_cong [fundef_cong]: "a = a' \<Longrightarrow> b = b' \<Longrightarrow> cand a b = cand a' b'"
  by simp

fun validate_compile_time_structure :: "(string, value_type) hash_map \<Rightarrow> string \<Rightarrow> expr \<Rightarrow> bool chk"
and validate_all_structure :: "(string, value_type) hash_map \<Rightarrow> string \<Rightarrow> expr list \<Rightarrow> bool chk"
and validate_field_structure :: "(string, value_type) hash_map \<Rightarrow> string \<Rightarrow> field_initializer list \<Rightarrow> bool chk" where
  "validate_compile_time_structure globals what (Expr (ExVariable n) s) =
     (if hm_contains globals n
      then cbind (cerror (what @ '' cannot reference mutable global '' @ quoted n) s) (\<lambda>_. cret False)
      else cret True)"
| "validate_compile_time_structure globals what (Expr (ExUnary op operand) s) =
     validate_compile_time_structure globals what operand"
| "validate_compile_time_structure globals what (Expr (ExBinary left op right) s) =
     cand (validate_compile_time_structure globals what left) (validate_compile_time_structure globals what right)"
| "validate_compile_time_structure globals what (Expr (ExCall n args) s) =
     cbind (cerror (what @ '' cannot call function '' @ quoted n) s) (\<lambda>_.
     cbind (validate_all_structure globals what args) (\<lambda>_. cret False))"
| "validate_compile_time_structure globals what (Expr (ExConversion target args) s) =
     validate_all_structure globals what args"
| "validate_compile_time_structure globals what (Expr (ExArrayLiteral es) s) = validate_all_structure globals what es"
| "validate_compile_time_structure globals what (Expr (ExIndex base index) s) =
     cand (validate_compile_time_structure globals what base) (validate_compile_time_structure globals what index)"
| "validate_compile_time_structure globals what (Expr (ExStructLiteral name inits) s) =
     validate_field_structure globals what inits"
| "validate_compile_time_structure globals what (Expr (ExField base n ns) s) =
     validate_compile_time_structure globals what base"
| "validate_compile_time_structure globals what (Expr (ExI32 v) s) = cret True"
| "validate_compile_time_structure globals what (Expr (ExF32 v) s) = cret True"
| "validate_compile_time_structure globals what (Expr (ExBool b) s) = cret True"
| "validate_all_structure globals what [] = cret True"
| "validate_all_structure globals what (e # es) =
     cand (validate_compile_time_structure globals what e) (validate_all_structure globals what es)"
| "validate_field_structure globals what [] = cret True"
| "validate_field_structure globals what (FieldInitializer n e s # inits) =
     cand (validate_compile_time_structure globals what e) (validate_field_structure globals what inits)"

text \<open>The elements for which a check gives \<^const>\<open>True\<close>.\<close>

fun cfilter :: "('a \<Rightarrow> bool chk) \<Rightarrow> 'a list \<Rightarrow> 'a list chk" where
  "cfilter f [] = cret []"
| "cfilter f (x # xs) = cbind (f x) (\<lambda>b. cbind (cfilter f xs) (\<lambda>ys. cret (if b then x # ys else ys)))"

definition invalid_constants ::
  "(string, value_type) hash_map \<Rightarrow> string list \<Rightarrow> string list \<Rightarrow> constant_decl list \<Rightarrow> string list chk" where
  "invalid_constants globals invalid_structs invalid_length_constants constants =
     cbind (cfilter (\<lambda>c. cbind (validate_compile_time_structure globals ''constant expressions'' (constant_init c))
                          (\<lambda>valid. cret (\<not> valid))) constants) (\<lambda>rejected.
       cret (map constant_name rejected @ invalid_length_constants
             @ map constant_name (filter (\<lambda>c. resolution_failed invalid_structs (constant_ty c)) constants)))"

definition invalid_globals ::
  "(string, value_type) hash_map \<Rightarrow> string list \<Rightarrow> global_decl list \<Rightarrow> nat list chk" where
  "invalid_globals globals invalid_structs gs =
     cbind (cfilter (\<lambda>(i, g).
              if resolution_failed invalid_structs (global_ty g) then cret True
              else cbind (validate_compile_time_structure globals ''global initializers'' (global_init g))
                     (\<lambda>valid. cret (\<not> valid))) (zip [0..<length gs] gs)) (\<lambda>rejected.
       cret (map fst rejected))"

text \<open>An initializer is checked in a function of its own.\<close>

definition check_initializer :: "checker \<Rightarrow> string \<Rightarrow> string \<Rightarrow> value_type \<Rightarrow> expr \<Rightarrow> unit chk" where
  "check_initializer ck what n ty init =
     cbind (require_value_as ck (what @ '' initializer'') ty init) (\<lambda>actual.
       found_type ty actual
         (what @ '' '' @ quoted n @ '' has type '' @ quoted_type ty @ '', but its initializer has type '') (expr_span init))"

text \<open>The definitions of the constants, and the values of those that are valid.\<close>

definition constant_definitions :: "constant_decl list \<Rightarrow> (string, constant_definition) hash_map" where
  "constant_definitions constants =
     hm_collect (map (\<lambda>c. (constant_name c,
       \<lparr>def_ty = constant_ty c, def_init = constant_init c, def_span = constant_span c\<rparr>)) constants)"

definition evaluate_constant :: "string list \<Rightarrow> constant_decl \<Rightarrow> constant_evaluator \<Rightarrow> constant_evaluator chk" where
  "evaluate_constant invalid c ce =
     (let n = constant_name c in
      if n \<in> set invalid \<or> cache_failed (ce_cache ce) n then cret ce
      else case returned (evaluate_named n ce) of
             None \<Rightarrow> None
           | Some (ce', Inl e) \<Rightarrow> Some (ce', [e])
           | Some (ce', Inr v) \<Rightarrow> cret ce')"

definition evaluate_global ::
  "nat list \<Rightarrow> (string, constant_value) hash_map \<Rightarrow> (string, value_type) hash_map \<Rightarrow>
   (string, struct_decl) hash_map \<Rightarrow> nat \<times> global_decl \<Rightarrow> global_decl list \<Rightarrow> global_decl list chk" where
  "evaluate_global invalid evaluated globals structs = (\<lambda>(i, g) rest.
     if i \<in> set invalid then cret (rest @ [g])
     else case evaluate_initializer (global_init g) (global_ty g) evaluated globals structs of
            None \<Rightarrow> None
          | Some (Inr v) \<Rightarrow> cret (rest @ [if constant_value_ty v = global_ty g then g\<lparr>global_val := Some v\<rparr> else g])
          | Some (Inl msg) \<Rightarrow> cbind (cerror msg (expr_span (global_init g))) (\<lambda>_. cret (rest @ [g])))"

section \<open>Programs\<close>

definition check_update_params :: "function_decl \<Rightarrow> unit chk" where
  "check_update_params f =
     cwhen (function_kind f = FkUpdate \<and> map param_ty (function_params f) \<noteq> [VtF32])
       (cerror ''`update` must take exactly one `f32` frame-delta parameter'' (function_span f))"

text \<open>The environment in which the functions and initializers of a program are checked.\<close>

record environment =
  env_structs :: "(string, struct_decl) hash_map"
  env_invalid_structs :: "string list"
  env_constants :: "(string, value_type) hash_map"
  env_globals :: "(string, value_type) hash_map"
  env_functions :: "(string, signature) hash_map"
  env_invalid_constants :: "string list"
  env_invalid_globals :: "nat list"

definition declare_types :: "program \<Rightarrow> ((string, struct_decl) hash_map \<times> string list \<times> top_level_names) chk" where
  "declare_types p =
     cbind (ceach declare_struct (program_structs p) ([], predefined_names (program_resolution p))) (\<lambda>(structs, names).
     cbind (validate_declared_types p structs) (\<lambda>_.
     cbind (struct_type_analysis_new structs []) (\<lambda>invalid. cret (structs, invalid, names))))"

definition declare_values ::
  "program \<Rightarrow> string list \<Rightarrow> string list \<Rightarrow> top_level_names \<Rightarrow>
   ((string, value_type) hash_map \<times> (string, value_type) hash_map \<times> string list \<times> nat list \<times> top_level_names) chk" where
  "declare_values p invalid_structs invalid_length_constants names =
     cbind (ceach declare_constant (program_constants p) (predefined_types (program_resolution p), names))
       (\<lambda>(constants, names).
     cbind (ceach declare_global (program_globals p) ([], names)) (\<lambda>(globals, names).
     cbind (invalid_constants globals invalid_structs invalid_length_constants (program_constants p)) (\<lambda>bad_constants.
     cbind (invalid_globals globals invalid_structs (program_globals p)) (\<lambda>bad_globals.
       cret (constants, globals, bad_constants, bad_globals, names)))))"

definition declare_functions :: "program \<Rightarrow> top_level_names \<Rightarrow> (string, signature) hash_map chk" where
  "declare_functions p names =
     cbind (ceach declare_function (program_functions p) (builtins, names, [])) (\<lambda>(fns, names, counts).
     cbind (check_entry_points (program_title_span p) counts
              [(FkStart, ''start''), (FkUpdate, ''update''), (FkDraw, ''draw'')]) (\<lambda>_. cret fns))"

definition declare_all :: "program \<Rightarrow> string list \<Rightarrow> environment chk" where
  "declare_all p invalid_length_constants =
     cbind (declare_types p) (\<lambda>(structs, invalid_structs, names).
     cbind (declare_values p invalid_structs invalid_length_constants names)
       (\<lambda>(constants, globals, bad_constants, bad_globals, names).
     cbind (declare_functions p names) (\<lambda>fns.
       cret \<lparr>env_structs = structs, env_invalid_structs = invalid_structs, env_constants = constants,
             env_globals = globals, env_functions = fns, env_invalid_constants = bad_constants,
             env_invalid_globals = bad_globals\<rparr>)))"

definition env_checker :: "environment \<Rightarrow> (string, constant_value) hash_map \<Rightarrow> return_type \<Rightarrow> checker" where
  "env_checker env values rt =
     checker_new (env_globals env) (env_constants env) values (env_structs env) (env_functions env) rt"

definition check_initializers_of :: "program \<Rightarrow> environment \<Rightarrow> unit chk" where
  "check_initializers_of p env =
     (let ck = env_checker env (hm_collect (builtin_constants (program_resolution p))) RtVoid in
      cbind (on_each (\<lambda>c. cwhen (constant_name c \<notin> set (env_invalid_constants env))
                           (check_initializer ck ''constant'' (constant_name c) (constant_ty c) (constant_init c)))
               (program_constants p)) (\<lambda>_.
        on_each (\<lambda>(i, g). cwhen (i \<notin> set (env_invalid_globals env))
                           (check_initializer ck ''global'' (global_name g) (global_ty g) (global_init g)))
          (zip [0..<length (program_globals p)] (program_globals p))))"

definition evaluate_constants :: "program \<Rightarrow> environment \<Rightarrow> (string, constant_value) hash_map chk" where
  "evaluate_constants p env =
     cbind (ceach (evaluate_constant (env_invalid_constants env)) (program_constants p)
              (constant_evaluator_new (constant_definitions (program_constants p)) (env_globals env) (env_structs env)
                 (env_invalid_constants env) (program_resolution p))) (\<lambda>ce.
       cret (cv_values (ce_cache ce)))"

definition evaluate_globals ::
  "program \<Rightarrow> environment \<Rightarrow> (string, constant_value) hash_map \<Rightarrow> global_decl list chk" where
  "evaluate_globals p env evaluated =
     ceach (evaluate_global (env_invalid_globals env) evaluated (env_globals env) (env_structs env))
       (zip [0..<length (program_globals p)] (program_globals p)) []"

definition check_functions :: "program \<Rightarrow> environment \<Rightarrow> (string, constant_value) hash_map \<Rightarrow> unit chk" where
  "check_functions p env evaluated =
     on_each (\<lambda>f. cbind (check_update_params f) (\<lambda>_.
         check_function (env_globals env) (env_constants env) evaluated (env_structs env) (env_functions env) f))
       (program_functions p)"

fun deduplicate_from :: "diagnostic list \<Rightarrow> diagnostic list \<Rightarrow> diagnostic list" where
  "deduplicate_from seen [] = []"
| "deduplicate_from seen (d # ds) =
     (if d \<in> set seen then deduplicate_from seen ds else d # deduplicate_from (d # seen) ds)"

definition deduplicate_diagnostics :: "diagnostic list \<Rightarrow> diagnostic list" where
  "deduplicate_diagnostics ds = deduplicate_from [] ds"

text \<open>The program with its types, values and diagnostics; it is accepted without any.\<close>

definition analyse :: "program \<Rightarrow> program chk" where
  "analyse p =
     cbind (map_option (\<lambda>(p', ds, failed). ((p', failed), ds)) (resolve_program_types p [])) (\<lambda>(p, failed).
     cbind (declare_all p failed) (\<lambda>env.
     cbind (check_initializers_of p env) (\<lambda>_.
     cbind (evaluate_constants p env) (\<lambda>evaluated.
     let p = p\<lparr>program_constants := map (\<lambda>c. c\<lparr>constant_val := hm_get evaluated (constant_name c)\<rparr>) (program_constants p)\<rparr> in
     cbind (evaluate_globals p env evaluated) (\<lambda>gs.
     cbind (check_functions p env evaluated) (\<lambda>_. cret (p\<lparr>program_globals := gs\<rparr>)))))))"

definition check_program :: "program \<Rightarrow> (program \<times> (diagnostic list, unit) result) option" where
  "check_program p =
     map_option (\<lambda>(p', ds).
         let ds = deduplicate_diagnostics ds in (p', if ds = [] then Ok () else Err ds))
       (analyse p)"

end
