(* ===== verification/Typing.thy ===== *)
theory Typing
  imports Checker_Statements
begin

text \<open>
  The type system of the language as inductive rules, and the checker against it: on an environment
  whose types have all their array lengths, the checker infers a type without a diagnostic exactly when
  the rules derive it. The rules do not mention diagnostics, the order of checks or recovery from errors.
\<close>

section \<open>Checks that report nothing\<close>

text \<open>\<open>silent m P\<close>: the check neither panics nor reports, and its value satisfies \<open>P\<close>.\<close>

definition silent :: "'a chk \<Rightarrow> ('a \<Rightarrow> bool) \<Rightarrow> bool" where
  "silent m P \<longleftrightarrow> (\<exists>a. m = Some (a, []) \<and> P a)"

named_theorems silent_simps \<open>when the operations of the checker report nothing\<close>

lemma silent_cret [silent_simps]: "silent (cret a) P \<longleftrightarrow> P a"
  by (simp add: silent_def cret_def)

lemma silent_cerror [silent_simps]: "\<not> silent (cerror msg s) P"
  by (simp add: silent_def cerror_def)

lemma silent_cbind [silent_simps]: "silent (cbind m f) P \<longleftrightarrow> silent m (\<lambda>a. silent (f a) P)"
  by (auto simp: silent_def cbind_def split: option.splits)

lemma silent_cwhen [silent_simps]: "silent (cwhen b m) P \<longleftrightarrow> (if b then silent m P else P ())"
  by (simp add: cwhen_def silent_cret)

lemma silent_creject [silent_simps]: "\<not> silent (creject msg s) P"
  by (simp add: creject_def silent_simps)

lemma silent_found_type [silent_simps]:
  "silent (found_type expected actual msg s) P \<longleftrightarrow> (\<forall>ty. actual = Some ty \<longrightarrow> ty = expected) \<and> P ()"
  by (auto simp: found_type_def silent_simps split: option.split)

lemma silent_value_result [silent_simps]:
  "silent (value_result description s r) P \<longleftrightarrow>
     (case r of Some (RtValue ty) \<Rightarrow> P (Some ty) | Some RtVoid \<Rightarrow> False | None \<Rightarrow> P None)"
  by (auto simp: value_result_def silent_simps split: option.split return_type.split)

lemma silent_argument_type [silent_simps]:
  "silent (argument_type name i expected actual s) P \<longleftrightarrow> (\<forall>ty. actual = Some ty \<longrightarrow> ty = expected) \<and> P ()"
  by (simp add: argument_type_def silent_simps)

lemma silent_missing_fields [silent_simps]:
  "silent (missing_fields name s seen fs) P \<longleftrightarrow> (\<forall>f \<in> set fs. field_name f \<in> set seen) \<and> P ()"
  by (induction fs) (auto simp: silent_simps)

section \<open>The rules\<close>

text \<open>The type of a binary operation on operands of one type.\<close>

definition binary_result :: "binary_op \<Rightarrow> value_type \<Rightarrow> value_type option" where
  "binary_result op ty =
     (case op of
        BoAdd \<Rightarrow> if is_numeric ty then Some ty else None
      | BoSubtract \<Rightarrow> if is_numeric ty then Some ty else None
      | BoMultiply \<Rightarrow> if is_numeric ty then Some ty else None
      | BoDivide \<Rightarrow> if is_numeric ty then Some ty else None
      | BoRemainder \<Rightarrow> if ty = VtI32 then Some VtI32 else None
      | BoEqual \<Rightarrow> if is_scalar ty then Some VtBool else None
      | BoNotEqual \<Rightarrow> if is_scalar ty then Some VtBool else None
      | BoLess \<Rightarrow> if is_numeric ty then Some VtBool else None
      | BoLessEqual \<Rightarrow> if is_numeric ty then Some VtBool else None
      | BoGreater \<Rightarrow> if is_numeric ty then Some VtBool else None
      | BoGreaterEqual \<Rightarrow> if is_numeric ty then Some VtBool else None
      | BoLogicalAnd \<Rightarrow> if ty = VtBool then Some VtBool else None
      | BoLogicalOr \<Rightarrow> if ty = VtBool then Some VtBool else None)"

text \<open>The value of an index known before the program runs.\<close>

definition index_value_of :: "checker \<Rightarrow> expr \<Rightarrow> (diagnostic, constant_value) result" where
  "index_value_of ck index = eval (\<lambda>d. d) [] (constant_index_lookup ck) None index"

definition index_in_bounds :: "checker \<Rightarrow> expr \<Rightarrow> nat \<Rightarrow> bool" where
  "index_in_bounds ck index len \<longleftrightarrow>
     (\<forall>v. index_value_of ck index = Ok (CvI32 v) \<longrightarrow> 0 \<le> sint v \<and> nat (sint v) < len)"

inductive typed :: "checker \<Rightarrow> expr \<Rightarrow> return_type \<Rightarrow> bool"
and initializes :: "checker \<Rightarrow> expr \<Rightarrow> value_type \<Rightarrow> bool" where
  typed_i32: "fits_i32 v \<Longrightarrow> typed ck (Expr (ExI32 v) s) (RtValue VtI32)"
| typed_f32: "f32_is_finite v \<Longrightarrow> typed ck (Expr (ExF32 v) s) (RtValue VtF32)"
| typed_bool: "typed ck (Expr (ExBool b) s) (RtValue VtBool)"
| typed_variable: "checker_binding ck n = Some b \<Longrightarrow> typed ck (Expr (ExVariable n) s) (RtValue (bind_ty b))"
| typed_struct:
    "hm_get (ck_structs ck) name = Some d \<Longrightarrow> distinct (map fi_name inits) \<Longrightarrow>
     fi_name ` set inits = field_name ` set (struct_fields d) \<Longrightarrow>
     (\<And>i. i \<in> set inits \<Longrightarrow> \<exists>f. find_field d (fi_name i) = Some f \<and> initializes ck (fi_value i) (field_ty f)) \<Longrightarrow>
     typed ck (Expr (ExStructLiteral name inits) s) (RtValue (VtStruct name))"
| typed_index:
    "typed ck base (RtValue (VtArray element (AlResolved len))) \<Longrightarrow> typed ck index (RtValue VtI32) \<Longrightarrow>
     index_in_bounds ck index len \<Longrightarrow> typed ck (Expr (ExIndex base index) s) (RtValue element)"
| typed_field:
    "typed ck base (RtValue (VtStruct name)) \<Longrightarrow> hm_get (ck_structs ck) name = Some d \<Longrightarrow>
     find_field d n = Some f \<Longrightarrow> typed ck (Expr (ExField base n ns) s) (RtValue (field_ty f))"
| typed_i32_min: "expr_kind operand = i32_min_literal \<Longrightarrow> typed ck (Expr (ExUnary UoNegate operand) s) (RtValue VtI32)"
| typed_negate:
    "typed ck operand (RtValue ty) \<Longrightarrow> is_numeric ty \<Longrightarrow> typed ck (Expr (ExUnary UoNegate operand) s) (RtValue ty)"
| typed_not: "typed ck operand (RtValue VtBool) \<Longrightarrow> typed ck (Expr (ExUnary UoNot operand) s) (RtValue VtBool)"
| typed_binary:
    "typed ck left (RtValue ty) \<Longrightarrow> typed ck right (RtValue ty) \<Longrightarrow> binary_result op ty = Some result \<Longrightarrow>
     typed ck (Expr (ExBinary left op right) s) (RtValue result)"
| typed_call:
    "hm_get (ck_functions ck) name = Some sig \<Longrightarrow> list_all2 (initializes ck) args (sig_params sig) \<Longrightarrow>
     typed ck (Expr (ExCall name args) s) (sig_return sig)"
| typed_conversion:
    "typed ck arg (RtValue source) \<Longrightarrow> is_numeric source \<Longrightarrow>
     typed ck (Expr (ExConversion target [arg]) s) (RtValue target)"
| initializes_array:
    "(\<And>e. e \<in> set es \<Longrightarrow> initializes ck e element) \<Longrightarrow>
     initializes ck (Expr (ExArrayLiteral es) s) (VtArray element (AlResolved (length es)))"
| initializes_value: "typed ck e (RtValue ty) \<Longrightarrow> initializes ck e ty"
monos list_all2_mono

inductive_simps typed_simps:
  "typed ck (Expr (ExI32 v) s) rt"
  "typed ck (Expr (ExF32 v) s) rt"
  "typed ck (Expr (ExBool b) s) rt"
  "typed ck (Expr (ExArrayLiteral es) s) rt"
  "typed ck (Expr (ExStructLiteral name inits) s) rt"
  "typed ck (Expr (ExVariable n) s) rt"
  "typed ck (Expr (ExIndex base index) s) rt"
  "typed ck (Expr (ExField base n ns) s) rt"
  "typed ck (Expr (ExUnary op operand) s) rt"
  "typed ck (Expr (ExBinary left op right) s) rt"
  "typed ck (Expr (ExCall name args) s) rt"
  "typed ck (Expr (ExConversion target args) s) rt"

inductive_simps initializes_literal: "initializes ck (Expr (ExArrayLiteral es) s) ty"
inductive_simps initializes_iff: "initializes ck e ty"

section \<open>Environments without failed array lengths\<close>

definition env_ok :: "checker \<Rightarrow> bool" where
  "env_ok ck \<longleftrightarrow>
     (\<forall>n b. checker_binding ck n = Some b \<longrightarrow> \<not> has_invalid_array_length (bind_ty b)) \<and>
     (\<forall>n d. hm_get (ck_structs ck) n = Some d \<longrightarrow> (\<forall>f \<in> set (struct_fields d). \<not> has_invalid_array_length (field_ty f))) \<and>
     (\<forall>n sig. hm_get (ck_functions ck) n = Some sig \<longrightarrow>
        (\<forall>ty \<in> set (sig_params sig). \<not> has_invalid_array_length ty) \<and>
        (\<forall>ty. sig_return sig = RtValue ty \<longrightarrow> \<not> has_invalid_array_length ty))"

text \<open>The parser only builds conversions to the numeric types.\<close>

fun numeric_conversions :: "expr \<Rightarrow> bool"
and kind_conversions :: "expr_kind \<Rightarrow> bool"
and init_conversions :: "field_initializer \<Rightarrow> bool" where
  "numeric_conversions (Expr k s) = kind_conversions k"
| "kind_conversions (ExArrayLiteral es) = list_all numeric_conversions es"
| "kind_conversions (ExStructLiteral name inits) = list_all init_conversions inits"
| "kind_conversions (ExIndex base index) = (numeric_conversions base \<and> numeric_conversions index)"
| "kind_conversions (ExField base n s) = numeric_conversions base"
| "kind_conversions (ExUnary op e) = numeric_conversions e"
| "kind_conversions (ExBinary l op r) = (numeric_conversions l \<and> numeric_conversions r)"
| "kind_conversions (ExCall name args) = list_all numeric_conversions args"
| "kind_conversions (ExConversion target args) = (is_numeric target \<and> list_all numeric_conversions args)"
| "kind_conversions (ExI32 v) = True"
| "kind_conversions (ExF32 v) = True"
| "kind_conversions (ExBool b) = True"
| "kind_conversions (ExVariable n) = True"
| "init_conversions (FieldInitializer n e s) = numeric_conversions e"

end
