(* ===== verification/Typing_Correct.thy ===== *)
theory Typing_Correct
  imports Typing
begin

text \<open>
  The checker of expressions reports nothing exactly when the rules type the expression.
\<close>

lemma not_array_invalid [simp]: "is_numeric ty \<Longrightarrow> \<not> has_invalid_array_length ty"
  by (auto simp: is_numeric_def)

lemma binary_result_valid: "binary_result op ty = Some result \<Longrightarrow> \<not> has_invalid_array_length result"
  by (auto simp: binary_result_def split: binary_op.splits if_splits)

lemma find_field_in: "find_field d n = Some f \<Longrightarrow> f \<in> set (struct_fields d) \<and> field_name f = n"
  by (auto simp: find_field_def find_Some_iff)

lemma env_ok_binding: "env_ok ck \<Longrightarrow> checker_binding ck n = Some b \<Longrightarrow> \<not> has_invalid_array_length (bind_ty b)"
  unfolding env_ok_def by blast

lemma env_ok_field:
  "env_ok ck \<Longrightarrow> hm_get (ck_structs ck) name = Some d \<Longrightarrow> find_field d n = Some f \<Longrightarrow> \<not> has_invalid_array_length (field_ty f)"
  unfolding env_ok_def using find_field_in by blast

lemma env_ok_signature:
  assumes "env_ok ck" and "hm_get (ck_functions ck) n = Some sig"
  shows "list_all (\<lambda>ty. \<not> has_invalid_array_length ty) (sig_params sig)"
    and "sig_return sig = RtValue ty \<Longrightarrow> \<not> has_invalid_array_length ty"
  using assms unfolding env_ok_def list_all_iff by blast+

lemma typed_valid:
  "typed ck e rt \<Longrightarrow> env_ok ck \<longrightarrow> numeric_conversions e \<longrightarrow> (\<forall>ty. rt = RtValue ty \<longrightarrow> \<not> has_invalid_array_length ty)"
  "initializes ck e ty' \<Longrightarrow> True"
proof (induction rule: typed_initializes.inducts)
  case (typed_variable ck n b s)
  then show ?case using env_ok_binding by simp
next
  case (typed_field ck base name d n f ns s)
  then show ?case using env_ok_field by simp
next
  case (typed_call ck name sig args s)
  then show ?case using env_ok_signature(2) by simp
next
  case (typed_binary ck left ty right op result s)
  then show ?case using binary_result_valid by simp
qed simp_all

lemma is_array_literal_Expr [simp]: "is_array_literal (Expr k s) = (\<exists>es. k = ExArrayLiteral es)"
  by (cases k) (simp_all add: is_array_literal_def)

lemma typed_not_literal: "typed ck e rt \<Longrightarrow> \<not> is_array_literal e"
  by (erule typed.cases) simp_all

lemma initializes_not_literal: "\<not> is_array_literal e \<Longrightarrow> initializes ck e ty \<longleftrightarrow> typed ck e (RtValue ty)"
  using initializes_value by (auto elim: initializes.cases)

lemma min_literal_untyped: "expr_kind operand = i32_min_literal \<Longrightarrow> \<not> typed ck operand t"
  by (cases operand) (simp add: i32_min_literal_def typed_simps fits_i32_def i32_max_def)

text \<open>What an initializer of type \<open>ty\<close> is found to be.\<close>

definition found_as :: "checker \<Rightarrow> value_type \<Rightarrow> expr \<Rightarrow> (value_type option \<Rightarrow> bool) \<Rightarrow> bool" where
  "found_as ck ty e P \<longleftrightarrow>
     (if is_array_literal e then initializes ck e ty \<and> P (Some ty) else \<exists>t. typed ck e (RtValue t) \<and> P (Some t))"

lemma found_as_expected:
  "found_as ck ty e (\<lambda>a. (\<forall>t. a = Some t \<longrightarrow> t = ty) \<and> Q) \<longleftrightarrow> initializes ck e ty \<and> Q"
  by (auto simp: found_as_def initializes_not_literal)

text \<open>The value of an expression that must have one.\<close>

lemma value_typed:
  assumes "\<And>P. silent m P \<longleftrightarrow> (\<exists>t. typed ck e t \<and> P (Some t))"
  shows "silent m (\<lambda>a. silent (value_result description s a) P) \<longleftrightarrow> (\<exists>ty. typed ck e (RtValue ty) \<and> P (Some ty))"
proof -
  have "(case r of RtValue ty \<Rightarrow> P (Some ty) | RtVoid \<Rightarrow> False) \<longleftrightarrow> (\<exists>ty. r = RtValue ty \<and> P (Some ty))" for r
    by (cases r) auto
  then show ?thesis by (auto simp: silent_simps assms)
qed

lemma silent_unary_type:
  "silent (unary_type op s (Some ty)) P \<longleftrightarrow>
     (case op of UoNegate \<Rightarrow> is_numeric ty \<and> P (Some (RtValue ty)) | UoNot \<Rightarrow> ty = VtBool \<and> P (Some (RtValue VtBool)))"
  by (auto simp: unary_type_def silent_simps split: unary_op.split)

lemma silent_binary_type:
  "silent (binary_type op s (Some l) (Some r)) P \<longleftrightarrow>
     (\<exists>result. l = r \<and> binary_result op l = Some result \<and> P (Some (RtValue result)))"
  by (cases op) (auto simp: binary_type_def same_operands_def binary_result_def silent_simps)

lemma silent_conversion_type:
  "silent (conversion_type target s (Some rt)) P \<longleftrightarrow>
     (\<exists>ty. rt = RtValue ty \<and> is_numeric ty) \<and> P (Some (RtValue target))"
  by (cases rt; cases "case rt of RtValue ty \<Rightarrow> ty")
     (auto simp: conversion_type_def silent_simps split: return_type.split value_type.split)

lemma silent_check_constant_index:
  "silent (check_constant_index ck index len) P \<longleftrightarrow> index_in_bounds ck index len \<and> P ()"
proof -
  have "evaluate_expression index (constant_index_lookup ck) = Some (index_value_of ck index)"
    using resume_evaluation_new [of "\<lambda>d. d" "[]" "constant_index_lookup ck" index None]
    by (simp add: evaluate_expression_def index_value_of_def)
  then show ?thesis
    by (auto simp: check_constant_index_def index_in_bounds_def silent_simps split: sum.split constant_value.split)
qed

lemma silent_index_type:
  assumes "\<not> has_invalid_array_length base"
  shows "silent (index_type ck index s base (Some ty)) P \<longleftrightarrow>
     (\<exists>element len. ty = VtI32 \<and> base = VtArray element (AlResolved len) \<and> index_in_bounds ck index len \<and> P (Some element))"
  using assms by (auto simp: index_type_def silent_simps silent_check_constant_index resolved_array_Some split: option.split)

lemma silent_field_type:
  "silent (field_type ck bs n ns base) P \<longleftrightarrow>
     (\<exists>name d f. base = VtStruct name \<and> hm_get (ck_structs ck) name = Some d \<and> find_field d n = Some f \<and> P (Some (field_ty f)))"
  by (cases base) (auto simp: field_type_def silent_simps split: option.split)

section \<open>The checker and the rules\<close>

text \<open>The fields an initializer list gives, each once and of the declared type.\<close>

definition initializes_fields :: "checker \<Rightarrow> struct_decl \<Rightarrow> string list \<Rightarrow> field_initializer list \<Rightarrow> bool" where
  "initializes_fields ck d seen inits \<longleftrightarrow>
     distinct (map fi_name inits) \<and> set (map fi_name inits) \<inter> set seen = {} \<and>
     (\<forall>i \<in> set inits. \<exists>f. find_field d (fi_name i) = Some f \<and> initializes ck (fi_value i) (field_ty f))"

lemma initializes_fields_Cons:
  "initializes_fields ck d seen (FieldInitializer n e s # inits) \<longleftrightarrow>
     n \<notin> set seen \<and> (\<exists>f. find_field d n = Some f \<and> initializes ck e (field_ty f)) \<and>
     initializes_fields ck d (n # seen) inits"
  by (auto simp: initializes_fields_def)

lemma typed_struct_iff:
  "typed ck (Expr (ExStructLiteral name inits) s) rt \<longleftrightarrow>
     (\<exists>d. rt = RtValue (VtStruct name) \<and> hm_get (ck_structs ck) name = Some d \<and> initializes_fields ck d [] inits \<and>
        (\<forall>f \<in> set (struct_fields d). field_name f \<in> fi_name ` set inits))"
proof -
  have names: "fi_name ` set inits = field_name ` set (struct_fields d) \<longleftrightarrow>
      (\<forall>f \<in> set (struct_fields d). field_name f \<in> fi_name ` set inits)"
    if "\<forall>i \<in> set inits. \<exists>f. find_field d (fi_name i) = Some f \<and> initializes ck (fi_value i) (field_ty f)" for d
    using that find_field_in [of d] by (force simp: image_iff)
  show ?thesis
    unfolding typed_simps initializes_fields_def using names by auto
qed

lemma check_correct:
  "env_ok ck \<longrightarrow> numeric_conversions e \<longrightarrow>
     (\<forall>P. silent (infer_expr ck e) P \<longleftrightarrow> (\<exists>t. typed ck e t \<and> P (Some t)))"
  "env_ok ck \<longrightarrow> numeric_conversions e \<longrightarrow> \<not> has_invalid_array_length ty \<longrightarrow>
     (\<forall>P. silent (require_value_as ck description ty e) P \<longleftrightarrow> found_as ck ty e P)"
  "infer_all ck es = infer_all ck es"
  "env_ok ck \<longrightarrow> list_all numeric_conversions es \<longrightarrow> \<not> has_invalid_array_length element \<longrightarrow>
     (\<forall>P. silent (check_elements ck element es) P \<longleftrightarrow> (\<forall>e \<in> set es. initializes ck e element) \<and> P ())"
  "env_ok ck \<longrightarrow> list_all numeric_conversions es \<longrightarrow> list_all (\<lambda>ty. \<not> has_invalid_array_length ty) params \<longrightarrow>
     length es = length params \<longrightarrow>
     (\<forall>P. silent (check_arguments ck name params i es) P \<longleftrightarrow> list_all2 (initializes ck) es params \<and> P ())"
  "infer_initializers ck inits = infer_initializers ck inits"
  "env_ok ck \<longrightarrow> list_all init_conversions inits \<longrightarrow>
     (\<forall>n f. find_field d n = Some f \<longrightarrow> \<not> has_invalid_array_length (field_ty f)) \<longrightarrow>
     (\<forall>P. silent (check_initializers ck d sname seen inits) P \<longleftrightarrow>
        initializes_fields ck d seen inits \<and> P (rev (map fi_name inits) @ seen))"
proof (induction ck e and ck description ty e and ck es and ck element es and ck name params i es and ck inits
    and ck d sname seen inits
    rule: infer_expr_require_value_as_infer_all_check_elements_check_arguments_infer_initializers_check_initializers.induct)
  case (1 ck v s)
  then show ?case by (auto simp: silent_simps typed_simps)
next
  case (2 ck v s)
  then show ?case by (auto simp: silent_simps typed_simps)
next
  case (3 ck b s)
  then show ?case by (auto simp: silent_simps typed_simps)
next
  case (4 ck elements s)
  then show ?case by (auto simp: silent_simps typed_simps)
next
  case (5 ck name inits s)
  show ?case
  proof (cases "hm_get (ck_structs ck) name")
    case None
    then show ?thesis by (simp add: silent_simps typed_struct_iff)
  next
    case (Some d)
    then show ?thesis
      using "5.IH"(2) [OF Some] env_ok_field [of ck name d] by (auto simp: silent_simps typed_struct_iff)
  qed
next
  case (6 ck n s)
  then show ?case by (cases "checker_binding ck n") (auto simp: silent_simps typed_simps)
next
  case (7 ck base index s)
  show ?case
  proof (intro impI allI)
    fix P
    assume ok: "env_ok ck" and conv: "numeric_conversions (Expr (ExIndex base index) s)"
    have b: "silent (infer_expr ck base) (\<lambda>a. silent (value_result d bs a) Q) \<longleftrightarrow> (\<exists>ty. typed ck base (RtValue ty) \<and> Q (Some ty))"
      for Q d bs using "7.IH"(1) ok conv by (intro value_typed) simp
    have i: "silent (infer_expr ck index) (\<lambda>a. silent (value_result d bs a) Q) \<longleftrightarrow> (\<exists>ty. typed ck index (RtValue ty) \<and> Q (Some ty))"
      for Q d bs using "7.IH"(2) [OF refl] ok conv by (intro value_typed) simp
    have valid: "\<not> has_invalid_array_length ty" if "typed ck base (RtValue ty)" for ty
      using typed_valid(1) [OF that] ok conv by simp
    have access: "(\<exists>bt. typed ck base (RtValue bt) \<and>
          (\<exists>it. typed ck index (RtValue it) \<and> silent (index_type ck index s bt (Some it)) Q)) \<longleftrightarrow>
        (\<exists>element len. typed ck base (RtValue (VtArray element (AlResolved len))) \<and> typed ck index (RtValue VtI32) \<and>
           index_in_bounds ck index len \<and> Q (Some element))" for Q
      by (simp add: silent_index_type valid cong: conj_cong) blast
    show "silent (infer_expr ck (Expr (ExIndex base index) s)) P \<longleftrightarrow>
        (\<exists>t. typed ck (Expr (ExIndex base index) s) t \<and> P (Some t))"
      by (simp add: silent_cbind b i silent_cret access typed_simps) blast
  qed
next
  case (8 ck base n name_span s)
  show ?case
  proof (intro impI allI)
    fix P
    assume ok: "env_ok ck" and conv: "numeric_conversions (Expr (ExField base n name_span) s)"
    have b: "silent (infer_expr ck base) (\<lambda>a. silent (value_result d bs a) Q) \<longleftrightarrow> (\<exists>ty. typed ck base (RtValue ty) \<and> Q (Some ty))"
      for Q d bs using "8.IH"(1) ok conv by (intro value_typed) simp
    show "silent (infer_expr ck (Expr (ExField base n name_span) s)) P \<longleftrightarrow>
        (\<exists>t. typed ck (Expr (ExField base n name_span) s) t \<and> P (Some t))"
      by (auto simp: silent_cbind b silent_cret silent_field_type typed_simps)
  qed
next
  case (9 ck op operand s)
  show ?case
  proof (intro impI allI)
    fix P
    assume ok: "env_ok ck" and conv: "numeric_conversions (Expr (ExUnary op operand) s)"
    show "silent (infer_expr ck (Expr (ExUnary op operand) s)) P \<longleftrightarrow>
        (\<exists>t. typed ck (Expr (ExUnary op operand) s) t \<and> P (Some t))"
    proof (cases "op = UoNegate \<and> expr_kind operand = i32_min_literal")
      case True
      with min_literal_untyped [of operand ck] show ?thesis by (simp add: silent_cret typed_simps)
    next
      case False
    have b: "silent (infer_expr ck operand) (\<lambda>a. silent (value_result d bs a) Q) \<longleftrightarrow> (\<exists>ty. typed ck operand (RtValue ty) \<and> Q (Some ty))"
      for Q d bs using "9.IH" [OF False] ok conv by (intro value_typed) simp
      from False show ?thesis
        by (cases op) (auto simp: silent_cbind b silent_unary_type typed_simps)
    qed
  qed
next
  case (10 ck left op right s)
  show ?case
  proof (intro impI allI)
    fix P
    assume ok: "env_ok ck" and conv: "numeric_conversions (Expr (ExBinary left op right) s)"
    have l: "silent (infer_expr ck left) (\<lambda>a. silent (value_result d bs a) Q) \<longleftrightarrow> (\<exists>ty. typed ck left (RtValue ty) \<and> Q (Some ty))"
      for Q d bs using "10.IH"(1) ok conv by (intro value_typed) simp
    have r: "silent (infer_expr ck right) (\<lambda>a. silent (value_result d bs a) Q) \<longleftrightarrow> (\<exists>ty. typed ck right (RtValue ty) \<and> Q (Some ty))"
      for Q d bs using "10.IH"(2) ok conv by (intro value_typed) simp
    show "silent (infer_expr ck (Expr (ExBinary left op right) s)) P \<longleftrightarrow>
        (\<exists>t. typed ck (Expr (ExBinary left op right) s) t \<and> P (Some t))"
      by (auto simp: silent_cbind l r silent_binary_type typed_simps)
  qed
next
  case (11 ck name args s)
  show ?case
  proof (cases "hm_get (ck_functions ck) name")
    case None
    then show ?thesis by (simp add: silent_simps typed_simps)
  next
    case (Some sig)
    then show ?thesis
      using "11.IH"(2) [OF Some] env_ok_signature(1) [of ck name sig]
      by (auto simp: silent_simps typed_simps dest: list_all2_lengthD)
  qed
next
  case (12 ck target args s)
  show ?case
  proof (cases "\<exists>arg. args = [arg]")
    case True
    then obtain arg where arg: "args = [arg]" by blast
    show ?thesis
      using "12.IH"(2) [OF arg refl] by (auto simp: arg silent_cbind silent_conversion_type typed_simps)
  next
    case False
    then show ?thesis by (auto simp: silent_simps typed_simps split: list.split)
  qed
next
  case (13 ck description expected kind s)
  show ?case
  proof (intro impI allI)
    fix P
    assume ok: "env_ok ck" and conv: "numeric_conversions (Expr kind s)" and valid: "\<not> has_invalid_array_length expected"
    show "silent (require_value_as ck description expected (Expr kind s)) P \<longleftrightarrow> found_as ck expected (Expr kind s) P"
    proof (cases "\<exists>es. kind = ExArrayLiteral es")
      case True
      then obtain es where kind: "kind = ExArrayLiteral es" by blast
      show ?thesis
      proof (cases "resolved_array expected")
        case None
        then show ?thesis using valid
          by (auto simp: kind silent_simps found_as_def initializes_literal typed_simps)
      next
        case (Some r)
        then obtain element len where r: "expected = VtArray element (AlResolved len)" "r = (element, len)"
          by (cases r) (auto simp: resolved_array_Some)
        have "silent (check_elements ck element es) Q \<longleftrightarrow> (\<forall>e \<in> set es. initializes ck e element) \<and> Q ()" for Q
          using "13.IH"(4) [OF valid kind Some] r valid ok conv by (simp add: kind)
        then show ?thesis using valid
          by (auto simp: kind r silent_simps found_as_def initializes_literal typed_simps)
      qed
    next
      case False
      then have "silent (infer_expr ck (Expr kind s)) Q \<longleftrightarrow> (\<exists>t. typed ck (Expr kind s) t \<and> Q (Some t))" for Q
        using "13.IH" valid ok conv by (cases kind) simp_all
      then have "silent (infer_expr ck (Expr kind s)) (\<lambda>a. silent (value_result description s a) P) \<longleftrightarrow>
          (\<exists>ty. typed ck (Expr kind s) (RtValue ty) \<and> P (Some ty))"
        by (rule value_typed)
      then show ?thesis
        using False valid by (cases kind) (simp_all add: silent_cbind found_as_def)
    qed
  qed
next
  case (17 ck element e es)
  then show ?case by (auto simp: silent_simps found_as_expected)
next
  case (19 ck name params i arg args)
  then show ?case by (cases params) (auto simp: silent_simps found_as_expected)
next
  case (23 ck d name seen n e s inits)
  show ?case
    using "23.IH"(5,6) by (auto simp: silent_simps found_as_expected initializes_fields_Cons split: option.split)
qed (simp_all add: silent_simps initializes_fields_def)

end
