(* ===== verification/Typing_Statements.thy ===== *)
theory Typing_Statements
  imports Typing_Correct
begin

text \<open>
  The rules for assignment targets, statements and functions, and the checker against them.
\<close>

lemma silent_infer:
  "env_ok ck \<Longrightarrow> numeric_conversions e \<Longrightarrow> silent (infer_expr ck e) P \<longleftrightarrow> (\<exists>t. typed ck e t \<and> P (Some t))"
  using check_correct(1) by blast

lemma silent_require_value:
  "env_ok ck \<Longrightarrow> numeric_conversions e \<Longrightarrow>
   silent (require_value ck description e) P \<longleftrightarrow> (\<exists>ty. typed ck e (RtValue ty) \<and> P (Some ty))"
  unfolding require_value_def silent_cbind by (rule value_typed, rule silent_infer)

lemma silent_require_value_as:
  "env_ok ck \<Longrightarrow> numeric_conversions e \<Longrightarrow> \<not> has_invalid_array_length ty \<Longrightarrow>
   silent (require_value_as ck description ty e) P \<longleftrightarrow> found_as ck ty e P"
  using check_correct(2) by blast

lemma silent_False [simp]: "\<not> silent m (\<lambda>_. False)"
  by (simp add: silent_def)

section \<open>Assignment targets\<close>

inductive targets :: "checker \<Rightarrow> expr \<Rightarrow> lvalue \<Rightarrow> bool" where
  target_variable: "checker_binding ck n = Some b \<Longrightarrow> targets ck (Expr (ExVariable n) s) (lvalue_of n b)"
| target_index:
    "targets ck base root \<Longrightarrow> lval_ty root = VtArray element (AlResolved len) \<Longrightarrow> typed ck index (RtValue VtI32) \<Longrightarrow>
     index_in_bounds ck index len \<Longrightarrow> targets ck (Expr (ExIndex base index) s) (root\<lparr>lval_ty := element\<rparr>)"
| target_field:
    "targets ck base root \<Longrightarrow> lval_ty root = VtStruct name \<Longrightarrow> hm_get (ck_structs ck) name = Some d \<Longrightarrow>
     find_field d n = Some f \<Longrightarrow> targets ck (Expr (ExField base n ns) s) (root\<lparr>lval_ty := field_ty f\<rparr>)"

lemma targets_valid:
  "targets ck e lv \<Longrightarrow> env_ok ck \<Longrightarrow> \<not> has_invalid_array_length (lval_ty lv)"
proof (induction rule: targets.induct)
  case (target_variable ck n b s)
  then show ?case using env_ok_binding by (simp add: lvalue_of_def)
next
  case (target_field ck base root name d n f ns s)
  then show ?case using env_ok_field by simp
qed simp

inductive_simps targets_simps:
  "targets ck (Expr (ExVariable n) s) lv"
  "targets ck (Expr (ExIndex base index) s) lv"
  "targets ck (Expr (ExField base n ns) s) lv"
  "targets ck (Expr (ExI32 v) s) lv"
  "targets ck (Expr (ExF32 f) s) lv"
  "targets ck (Expr (ExBool t) s) lv"
  "targets ck (Expr (ExArrayLiteral es) s) lv"
  "targets ck (Expr (ExStructLiteral name inits) s) lv"
  "targets ck (Expr (ExUnary uop e) s) lv"
  "targets ck (Expr (ExBinary l bop r) s) lv"
  "targets ck (Expr (ExCall name es) s) lv"
  "targets ck (Expr (ExConversion ty es) s) lv"

lemma silent_infer_lvalue:
  "env_ok ck \<Longrightarrow> numeric_conversions e \<Longrightarrow> silent (infer_lvalue ck e) P \<longleftrightarrow> (\<exists>lv. targets ck e lv \<and> P (Some lv))"
proof (induction ck e arbitrary: P rule: infer_lvalue.induct)
  case (1 ck n s)
  then show ?case by (cases "checker_binding ck n") (auto simp: silent_simps targets_simps)
next
  case (2 ck base index s)
  have access: "(\<exists>root. targets ck base root \<and>
        (\<exists>it. typed ck index (RtValue it) \<and> silent (index_type ck index s (lval_ty root) (Some it)) (\<lambda>t. Q t root))) \<longleftrightarrow>
      (\<exists>root element len. targets ck base root \<and> lval_ty root = VtArray element (AlResolved len) \<and>
         typed ck index (RtValue VtI32) \<and> index_in_bounds ck index len \<and> Q (Some element) root)" for Q
    using targets_valid [of ck base] "2.prems"(1) by (simp add: silent_index_type cong: conj_cong) blast
  show ?case
    using 2 by (simp add: silent_cbind silent_require_value silent_cret access targets_simps) blast
next
  case (3 ck base n name_span s)
  then show ?case by (simp add: silent_cbind silent_cret silent_field_type targets_simps) blast
qed (simp_all add: silent_cbind silent_creject targets_simps del: infer_expr.simps)

section \<open>Statements\<close>

definition assigns :: "checker \<Rightarrow> assign_op \<Rightarrow> expr \<Rightarrow> value_type \<Rightarrow> bool" where
  "assigns ck op v ty \<longleftrightarrow>
     (if op = AoSet then initializes ck v ty
      else is_numeric ty \<and> (op = AoRemainder \<longrightarrow> ty = VtI32) \<and> typed ck v (RtValue ty))"

definition enter :: "(string, binding) hash_map \<Rightarrow> checker \<Rightarrow> checker" where
  "enter scope ck = ck\<lparr>ck_scopes := scope # ck_scopes ck\<rparr>"

definition declare_variable :: "string \<Rightarrow> value_type \<Rightarrow> checker \<Rightarrow> checker" where
  "declare_variable n ty ck =
     ck\<lparr>ck_scopes := hm_insert n \<lparr>bind_ty = ty, bind_mutability = MuMutable\<rparr> (hd (ck_scopes ck)) # tl (ck_scopes ck)\<rparr>"

definition declarable :: "checker \<Rightarrow> string \<Rightarrow> bool" where
  "declarable ck n \<longleftrightarrow> \<not> is_predefined_constant n \<and> \<not> hm_contains (hd (ck_scopes ck)) n"

inductive stmt_ok :: "checker \<Rightarrow> stmt \<Rightarrow> checker \<Rightarrow> bool"
and stmts_ok :: "checker \<Rightarrow> stmt list \<Rightarrow> checker \<Rightarrow> bool" where
  ok_let: "declarable ck n \<Longrightarrow> initializes ck init ty \<Longrightarrow> stmt_ok ck (Stmt (StLet n ty init) s) (declare_variable n ty ck)"
| ok_assign:
    "targets ck target lv \<Longrightarrow> lval_mutability lv = MuMutable \<Longrightarrow> assigns ck op v (lval_ty lv) \<Longrightarrow>
     stmt_ok ck (Stmt (StAssign target op v) s) ck"
| ok_expr: "typed ck e t \<Longrightarrow> stmt_ok ck (Stmt (StExpr e) s) ck"
| ok_if:
    "typed ck c (RtValue VtBool) \<Longrightarrow> stmts_ok (enter [] ck) a ck1 \<Longrightarrow> stmt_ok ck (Stmt (StIf c a None) s) ck"
| ok_if_else:
    "typed ck c (RtValue VtBool) \<Longrightarrow> stmts_ok (enter [] ck) a ck1 \<Longrightarrow> stmts_ok (enter [] ck) b ck2 \<Longrightarrow>
     stmt_ok ck (Stmt (StIf c a (Some b)) s) ck"
| ok_while:
    "typed ck c (RtValue VtBool) \<Longrightarrow> stmts_ok (enter [] ck) b ck1 \<Longrightarrow> stmt_ok ck (Stmt (StWhile c b) s) ck"
| ok_for:
    "typed ck l (RtValue VtI32) \<Longrightarrow> typed ck u (RtValue VtI32) \<Longrightarrow> \<not> is_predefined_constant n \<Longrightarrow>
     stmts_ok (enter (loop_scope n) ck) b ck1 \<Longrightarrow> stmt_ok ck (Stmt (StFor n ns l u b) s) ck"
| ok_return_void: "ck_return_type ck = RtVoid \<Longrightarrow> stmt_ok ck (Stmt (StReturn None) s) ck"
| ok_return_value:
    "ck_return_type ck = RtValue ty \<Longrightarrow> initializes ck e ty \<Longrightarrow> stmt_ok ck (Stmt (StReturn (Some e)) s) ck"
| ok_nil: "stmts_ok ck [] ck"
| ok_cons: "stmt_ok ck stmt ck1 \<Longrightarrow> stmts_ok ck1 stmts ck2 \<Longrightarrow> stmts_ok ck (stmt # stmts) ck2"

inductive_simps stmt_ok_simps:
  "stmt_ok ck (Stmt (StLet n ty init) s) ck'"
  "stmt_ok ck (Stmt (StAssign target op v) s) ck'"
  "stmt_ok ck (Stmt (StExpr e) s) ck'"
  "stmt_ok ck (Stmt (StIf c a b) s) ck'"
  "stmt_ok ck (Stmt (StWhile c body) s) ck'"
  "stmt_ok ck (Stmt (StFor n ns l u body) s) ck'"
  "stmt_ok ck (Stmt (StReturn v) s) ck'"
  "stmts_ok ck [] ck'"
  "stmts_ok ck (stmt # stmts) ck'"

text \<open>Statements whose types have their lengths and whose conversions are numeric.\<close>

fun stmt_plain :: "stmt \<Rightarrow> bool" and stmt_kind_plain :: "stmt_kind \<Rightarrow> bool" where
  "stmt_plain (Stmt k s) = stmt_kind_plain k"
| "stmt_kind_plain (StLet n ty e) = (\<not> has_invalid_array_length ty \<and> numeric_conversions e)"
| "stmt_kind_plain (StAssign t op e) = (numeric_conversions t \<and> numeric_conversions e)"
| "stmt_kind_plain (StExpr e) = numeric_conversions e"
| "stmt_kind_plain (StIf c a b) =
     (numeric_conversions c \<and> list_all stmt_plain a \<and> (case b of None \<Rightarrow> True | Some b \<Rightarrow> list_all stmt_plain b))"
| "stmt_kind_plain (StWhile c b) = (numeric_conversions c \<and> list_all stmt_plain b)"
| "stmt_kind_plain (StFor n ns l u b) = (numeric_conversions l \<and> numeric_conversions u \<and> list_all stmt_plain b)"
| "stmt_kind_plain (StReturn v) = (case v of None \<Rightarrow> True | Some e \<Rightarrow> numeric_conversions e)"

section \<open>Environments along statements\<close>

definition leave :: "checker \<Rightarrow> checker" where
  "leave ck = ck\<lparr>ck_scopes := tl (ck_scopes ck)\<rparr>"

lemma leave_enter [simp]: "leave (enter scope ck) = ck"
  by (simp add: leave_def enter_def)

lemma enter_sel [simp]:
  "ck_return_type (enter scope ck) = ck_return_type ck" "ck_scopes (enter scope ck) = scope # ck_scopes ck"
  by (simp_all add: enter_def)

lemma declare_variable_sel [simp]:
  "ck_scopes (declare_variable n ty ck) \<noteq> []" "ck_globals (declare_variable n ty ck) = ck_globals ck"
  "ck_constants (declare_variable n ty ck) = ck_constants ck"
  by (simp_all add: declare_variable_def)

lemma scopes_get_hd: "scopes \<noteq> [] \<Longrightarrow>
   scopes_get (hm_insert n b (hd scopes) # tl scopes) m = (if m = n then Some b else scopes_get scopes m)"
  by (cases scopes) (auto split: option.split)

lemma checker_binding_declare:
  "ck_scopes ck \<noteq> [] \<Longrightarrow>
   checker_binding (declare_variable n ty ck) m =
     (if m = n then Some \<lparr>bind_ty = ty, bind_mutability = MuMutable\<rparr> else checker_binding ck m)"
  by (cases "ck_scopes ck")
     (auto simp: checker_binding_def declare_variable_def split: option.split)

lemma env_ok_declare:
  "env_ok ck \<Longrightarrow> ck_scopes ck \<noteq> [] \<Longrightarrow> \<not> has_invalid_array_length ty \<Longrightarrow> env_ok (declare_variable n ty ck)"
  by (simp add: env_ok_def checker_binding_declare) (simp add: declare_variable_def)

lemma env_ok_enter:
  assumes "env_ok ck" and "\<And>n b. hm_get scope n = Some b \<Longrightarrow> \<not> has_invalid_array_length (bind_ty b)"
  shows "env_ok (enter scope ck)"
proof -
  have "checker_binding (enter scope ck) n =
      (case hm_get scope n of Some b \<Rightarrow> Some b | None \<Rightarrow> checker_binding ck n)" for n
    by (auto simp: checker_binding_def enter_def split: option.split)
  then show ?thesis
    using assms by (auto simp: env_ok_def enter_def split: option.splits)
qed

lemma env_ok_block: "env_ok ck \<Longrightarrow> env_ok (enter [] ck)"
  by (rule env_ok_enter) simp_all

lemma env_ok_loop: "env_ok ck \<Longrightarrow> env_ok (enter (loop_scope n) ck)"
  by (rule env_ok_enter) (auto simp: loop_scope_def hm_get_def split: if_splits)

lemma stmt_ok_leave:
  "stmt_ok ck stmt ck' \<Longrightarrow> ck_scopes ck \<noteq> [] \<longrightarrow> ck_scopes ck' \<noteq> [] \<and> leave ck' = leave ck"
  "stmts_ok ck stmts ck' \<Longrightarrow> ck_scopes ck \<noteq> [] \<longrightarrow> ck_scopes ck' \<noteq> [] \<and> leave ck' = leave ck"
proof (induction rule: stmt_ok_stmts_ok.inducts)
  case (ok_let ck n init ty s)
  then show ?case by (simp add: leave_def declare_variable_def)
qed simp_all

lemma stmt_ok_env:
  "stmt_ok ck stmt ck' \<Longrightarrow> env_ok ck \<longrightarrow> ck_scopes ck \<noteq> [] \<longrightarrow> stmt_plain stmt \<longrightarrow> env_ok ck'"
  by (erule stmt_ok.cases) (simp_all add: env_ok_declare)

section \<open>The checker and the rules\<close>

lemma silent_insert_binding:
  "ck_scopes ck \<noteq> [] \<Longrightarrow>
   silent (insert_binding n \<lparr>bind_ty = ty, bind_mutability = MuMutable\<rparr> ck) P \<longleftrightarrow>
     P (hm_contains (hd (ck_scopes ck)) n, declare_variable n ty ck)"
  by (cases "ck_scopes ck") (auto simp: insert_binding_def declare_variable_def silent_simps)

lemma silent_check_let:
  assumes "env_ok ck" and "ck_scopes ck \<noteq> []" and "numeric_conversions init" and "\<not> has_invalid_array_length ty"
  shows "silent (check_let s n ty init ck) P \<longleftrightarrow>
    declarable ck n \<and> initializes ck init ty \<and> P (declare_variable n ty ck)"
  using assms
  by (auto simp: check_let_def silent_simps silent_require_value_as silent_insert_binding found_as_expected declarable_def)

lemma silent_check_compound:
  "silent (check_compound op lv s) P \<longleftrightarrow>
     (op \<noteq> AoSet \<longrightarrow> is_numeric (lval_ty lv) \<and> (op = AoRemainder \<longrightarrow> lval_ty lv = VtI32)) \<and> P ()"
  by (auto simp: check_compound_def silent_simps)

lemma silent_check_assigned:
  "silent (check_assigned target op lv actual s) P \<longleftrightarrow> (\<forall>ty. actual = Some ty \<longrightarrow> ty = lval_ty lv) \<and> P ()"
  by (auto simp: check_assigned_def silent_simps split: option.split)

lemma silent_check_assign:
  assumes ok: "env_ok ck" and conv: "numeric_conversions target" "numeric_conversions v"
  shows "silent (check_assign ck s target op v) P \<longleftrightarrow>
    (\<exists>lv. targets ck target lv \<and> lval_mutability lv = MuMutable \<and> assigns ck op v (lval_ty lv)) \<and> P ()"
proof -
  let ?found = "\<lambda>lv. if op = AoSet then require_value_as ck ''assignment'' (lval_ty lv) v
                     else require_value ck ''compound assignment'' v"
  have "silent (cbind (?found lv) (\<lambda>actual.
             if lval_mutability lv = MuLoopVariable then
               cerror (''loop variable '' @ quoted (lval_root lv) @ '' is read-only'') s
             else if lval_mutability lv = MuConstant then
               cerror (err_constant_target (is_variable target) op (lval_root lv)) s
             else cbind (check_compound op lv s) (\<lambda>_. check_assigned target op lv actual (expr_span v)))) P \<longleftrightarrow>
      lval_mutability lv = MuMutable \<and> assigns ck op v (lval_ty lv) \<and> P ()"
    if "targets ck target lv" for lv
  proof -
    have valid: "\<not> has_invalid_array_length (lval_ty lv)" by (rule targets_valid [OF that ok])
    have set_value: "silent (require_value_as ck d (lval_ty lv) v) Q \<longleftrightarrow> found_as ck (lval_ty lv) v Q" for d Q
      by (rule silent_require_value_as [OF ok conv(2) valid])
    have any_value: "silent (require_value ck d v) Q \<longleftrightarrow> (\<exists>ty. typed ck v (RtValue ty) \<and> Q (Some ty))" for d Q
      by (rule silent_require_value [OF ok conv(2)])
    have never: "\<not> found_as ck (lval_ty lv) v (\<lambda>_. False)" by (simp add: found_as_def)
    show ?thesis
      by (cases "lval_mutability lv"; cases "op = AoSet")
         (auto simp: silent_cbind silent_cerror never set_value any_value silent_check_compound silent_check_assigned assigns_def
            found_as_expected)
  qed
  then show ?thesis
    unfolding check_assign_def silent_cbind [of "infer_lvalue ck target"] silent_infer_lvalue [OF ok conv(1)] option.case
    by blast
qed

lemma silent_returned_type:
  "silent (returned_type expected s (Some rt)) P \<longleftrightarrow> rt = RtValue expected \<and> P ()"
  by (cases rt) (auto simp: returned_type_def silent_simps)

lemma silent_check_return:
  assumes "env_ok ck" and "\<forall>ty. ck_return_type ck = RtValue ty \<longrightarrow> \<not> has_invalid_array_length ty"
    and "case v of None \<Rightarrow> True | Some e \<Rightarrow> numeric_conversions e"
  shows "silent (check_return ck s v) P \<longleftrightarrow> stmt_ok ck (Stmt (StReturn v) s) ck \<and> P ()"
proof (cases "ck_return_type ck")
  case (RtValue expected)
  then show ?thesis
  proof (cases v)
    case (Some e)
    have lit: "is_array_literal e \<Longrightarrow> silent (require_value_as ck ''return'' expected e)
        (\<lambda>t. silent (returned_type expected (expr_span e) (map_option RtValue t)) P) \<longleftrightarrow> initializes ck e expected \<and> P ()"
      using assms RtValue Some
      by (simp add: silent_require_value_as found_as_def silent_returned_type)
    have other: "\<not> is_array_literal e \<Longrightarrow> silent (infer_expr ck e)
        (\<lambda>t. silent (returned_type expected (expr_span e) t) P) \<longleftrightarrow> initializes ck e expected \<and> P ()"
      using assms Some
      by (simp add: silent_infer initializes_not_literal silent_returned_type)
    show ?thesis
      using lit other RtValue Some by (auto simp: check_return_def silent_cbind silent_cret stmt_ok_simps)
  qed (simp add: check_return_def silent_simps stmt_ok_simps)
qed (cases v; simp add: check_return_def silent_simps stmt_ok_simps)

lemma silent_in_scope:
  "silent (in_scope scope body ck) P \<longleftrightarrow> silent (body (enter scope ck)) (\<lambda>ck'. P (leave ck'))"
  by (simp add: in_scope_def silent_simps leave_def enter_def)

text \<open>What holds of the checker at every statement of a function.\<close>

definition frame_ok :: "checker \<Rightarrow> bool" where
  "frame_ok ck \<longleftrightarrow>
     env_ok ck \<and> ck_scopes ck \<noteq> [] \<and> (\<forall>ty. ck_return_type ck = RtValue ty \<longrightarrow> \<not> has_invalid_array_length ty)"

lemma frame_ok_enter: "frame_ok ck \<Longrightarrow> frame_ok (enter [] ck)" "frame_ok ck \<Longrightarrow> frame_ok (enter (loop_scope n) ck)"
  by (simp_all add: frame_ok_def env_ok_block env_ok_loop)

lemma stmt_ok_frame: "stmt_ok ck stmt ck' \<Longrightarrow> frame_ok ck \<Longrightarrow> stmt_plain stmt \<Longrightarrow> frame_ok ck'"
  by (erule stmt_ok.cases) (simp_all add: frame_ok_def env_ok_declare, simp add: declare_variable_def)

lemma stmts_ok_leave: "stmts_ok (enter scope ck) stmts ck' \<Longrightarrow> leave ck' = ck"
  using stmt_ok_leave(2) by fastforce

lemma silent_block:
  assumes "\<And>P. silent (check_statements b (enter scope ck)) P \<longleftrightarrow> (\<exists>ck'. stmts_ok (enter scope ck) b ck' \<and> P ck')"
  shows "silent (in_scope scope (check_statements b) ck) P \<longleftrightarrow> (\<exists>ck'. stmts_ok (enter scope ck) b ck') \<and> P ck"
  unfolding silent_in_scope assms using stmts_ok_leave by metis

lemma silent_require_bool:
  "env_ok ck \<Longrightarrow> numeric_conversions e \<Longrightarrow>
   silent (require_bool ck description e) P \<longleftrightarrow> typed ck e (RtValue VtBool) \<and> P ()"
  by (auto simp: require_bool_def silent_simps silent_require_value)

lemma silent_check_bound:
  "env_ok ck \<Longrightarrow> numeric_conversions e \<Longrightarrow>
   silent (check_bound ck description e) P \<longleftrightarrow> typed ck e (RtValue VtI32) \<and> P ()"
  by (auto simp: check_bound_def silent_simps silent_require_value)

lemma check_statements_correct:
  "frame_ok ck \<longrightarrow> stmt_plain stmt \<longrightarrow> (\<forall>P. silent (check_statement stmt ck) P \<longleftrightarrow> (\<exists>ck'. stmt_ok ck stmt ck' \<and> P ck'))"
  "frame_ok ck \<longrightarrow> list_all stmt_plain stmts \<longrightarrow>
     (\<forall>P. silent (check_statements stmts ck) P \<longleftrightarrow> (\<exists>ck'. stmts_ok ck stmts ck' \<and> P ck'))"
proof (induction stmt ck and stmts ck rule: check_statement_check_statements.induct)
  case (1 n ty init s ck)
  then show ?case by (auto simp: frame_ok_def silent_check_let stmt_ok_simps)
next
  case (2 target op v s ck)
  then show ?case by (auto simp: frame_ok_def silent_cbind silent_check_assign silent_cret stmt_ok_simps)
next
  case (3 e s ck)
  then show ?case by (auto simp: frame_ok_def silent_cbind silent_infer silent_cret stmt_ok_simps)
next
  case (4 c a b s ck)
  show ?case
  proof (intro impI allI)
    fix P
    assume f: "frame_ok ck" and plain: "stmt_plain (Stmt (StIf c a b) s)"
    have a: "silent (in_scope [] (check_statements a) ck) Q \<longleftrightarrow> (\<exists>ck'. stmts_ok (enter [] ck) a ck') \<and> Q ck" for Q
      using "4.IH"(1) f plain frame_ok_enter(1) by (intro silent_block) simp
    have b: "silent (in_scope [] (check_statements block) ck) Q \<longleftrightarrow> (\<exists>ck'. stmts_ok (enter [] ck) block ck') \<and> Q ck"
      if "b = Some block" for block Q
      using "4.IH"(2) [OF that] f plain that frame_ok_enter(1) by (intro silent_block) simp
    show "silent (check_statement (Stmt (StIf c a b) s) ck) P \<longleftrightarrow> (\<exists>ck'. stmt_ok ck (Stmt (StIf c a b) s) ck' \<and> P ck')"
      using f plain by (cases b) (auto simp: frame_ok_def silent_cbind silent_require_bool silent_cret a b stmt_ok_simps)
  qed
next
  case (5 c b s ck)
  show ?case
  proof (intro impI allI)
    fix P
    assume f: "frame_ok ck" and plain: "stmt_plain (Stmt (StWhile c b) s)"
    have b: "silent (in_scope [] (check_statements b) ck) Q \<longleftrightarrow> (\<exists>ck'. stmts_ok (enter [] ck) b ck') \<and> Q ck" for Q
      using "5.IH" f plain frame_ok_enter(1) by (intro silent_block) simp
    show "silent (check_statement (Stmt (StWhile c b) s) ck) P \<longleftrightarrow> (\<exists>ck'. stmt_ok ck (Stmt (StWhile c b) s) ck' \<and> P ck')"
      using f plain by (auto simp: frame_ok_def silent_cbind silent_require_bool b stmt_ok_simps)
  qed
next
  case (6 n ns l u b s ck)
  show ?case
  proof (intro impI allI)
    fix P
    assume f: "frame_ok ck" and plain: "stmt_plain (Stmt (StFor n ns l u b) s)"
    have b: "silent (in_scope (loop_scope n) (check_statements b) ck) Q \<longleftrightarrow>
        (\<exists>ck'. stmts_ok (enter (loop_scope n) ck) b ck') \<and> Q ck" for Q
      using "6.IH" f plain frame_ok_enter(2) by (intro silent_block) simp
    show "silent (check_statement (Stmt (StFor n ns l u b) s) ck) P \<longleftrightarrow>
        (\<exists>ck'. stmt_ok ck (Stmt (StFor n ns l u b) s) ck' \<and> P ck')"
      using f plain by (auto simp: frame_ok_def silent_cbind silent_check_bound silent_cwhen silent_cerror b stmt_ok_simps)
  qed
next
  case (7 v s ck)
  then show ?case by (auto simp: frame_ok_def silent_cbind silent_check_return silent_cret stmt_ok_simps)
next
  case (8 ck)
  then show ?case by (simp add: silent_cret stmt_ok_simps)
next
  case (9 stmt stmts ck)
  show ?case
  proof (intro impI allI)
    fix P
    assume f: "frame_ok ck" and plain: "list_all stmt_plain (stmt # stmts)"
    have "silent (check_statements stmts ck1) P \<longleftrightarrow> (\<exists>ck'. stmts_ok ck1 stmts ck' \<and> P ck')" if "stmt_ok ck stmt ck1" for ck1
      using "9.IH"(2) stmt_ok_frame [OF that f] plain by simp
    then show "silent (check_statements (stmt # stmts) ck) P \<longleftrightarrow> (\<exists>ck'. stmts_ok ck (stmt # stmts) ck' \<and> P ck')"
      using "9.IH"(1) f plain by (simp add: silent_cbind stmt_ok_simps) blast
  qed
qed

section \<open>Functions\<close>

fun declare_params :: "param list \<Rightarrow> checker \<Rightarrow> checker" where
  "declare_params [] ck = ck"
| "declare_params (p # ps) ck = declare_params ps (declare_variable (param_name p) (param_ty p) ck)"

definition function_ok :: "checker \<Rightarrow> function_decl \<Rightarrow> bool" where
  "function_ok ck f \<longleftrightarrow>
     distinct (map param_name (function_params f)) \<and>
     (\<forall>p \<in> set (function_params f). \<not> is_predefined_constant (param_name p)) \<and>
     (\<exists>ck'. stmts_ok (declare_params (function_params f) ck) (function_body f) ck') \<and>
     (return_value_type (function_return_type f) \<noteq> None \<longrightarrow> block_returns (function_body f))"

definition function_plain :: "function_decl \<Rightarrow> bool" where
  "function_plain f \<longleftrightarrow>
     list_all (\<lambda>p. \<not> has_invalid_array_length (param_ty p)) (function_params f) \<and>
     (\<forall>ty. function_return_type f = RtValue ty \<longrightarrow> \<not> has_invalid_array_length ty) \<and>
     list_all stmt_plain (function_body f)"

lemma hd_declare [simp]: "ck_scopes ck \<noteq> [] \<Longrightarrow>
    hm_contains (hd (ck_scopes (declare_variable n ty ck))) m \<longleftrightarrow> m = n \<or> hm_contains (hd (ck_scopes ck)) m"
  by (simp add: declare_variable_def)

lemma silent_check_params:
  "ck_scopes ck \<noteq> [] \<Longrightarrow>
   silent (check_params ps ck) P \<longleftrightarrow>
     distinct (map param_name ps) \<and> (\<forall>p \<in> set ps. declarable ck (param_name p)) \<and> P (declare_params ps ck)"
proof (induction ps arbitrary: ck)
  case (Cons p ps)
  have later: "declarable (declare_variable (param_name p) (param_ty p) ck) m \<longleftrightarrow> m \<noteq> param_name p \<and> declarable ck m" for m
    using Cons.prems by (auto simp: declarable_def)
  show ?case
    using Cons.prems
    by (simp add: silent_cbind silent_cwhen silent_cerror silent_insert_binding Cons.IH later)
       (auto simp: declarable_def image_iff)
qed (simp add: silent_cret)

lemma frame_ok_params:
  "frame_ok ck \<Longrightarrow> list_all (\<lambda>p. \<not> has_invalid_array_length (param_ty p)) ps \<Longrightarrow> frame_ok (declare_params ps ck)"
proof (induction ps arbitrary: ck)
  case (Cons p ps)
  have "frame_ok (declare_variable (param_name p) (param_ty p) ck)"
    using Cons.prems by (simp add: frame_ok_def env_ok_declare) (simp add: declare_variable_def)
  then show ?case using Cons.IH Cons.prems(2) by simp
qed simp

lemma silent_check_function:
  assumes "env_ok (checker_new globals constants values structs fns (function_return_type f))" and "function_plain f"
  shows "silent (check_function globals constants values structs fns f) P \<longleftrightarrow>
    function_ok (checker_new globals constants values structs fns (function_return_type f)) f \<and> P ()"
proof -
  let ?ck = "checker_new globals constants values structs fns (function_return_type f)"
  have scopes: "ck_scopes ?ck = [[]]" and rt: "ck_return_type ?ck = function_return_type f" by (simp_all add: checker_new_def)
  then have "frame_ok ?ck" using assms by (simp add: frame_ok_def function_plain_def)
  then have frame: "frame_ok (declare_params (function_params f) ?ck)"
    using frame_ok_params assms(2) by (simp add: function_plain_def)
  then have "silent (check_statements (function_body f) (declare_params (function_params f) ?ck)) Q \<longleftrightarrow>
      (\<exists>ck'. stmts_ok (declare_params (function_params f) ?ck) (function_body f) ck' \<and> Q ck')" for Q
    using check_statements_correct(2) assms(2) by (simp add: function_plain_def)
  then show ?thesis
    by (auto simp: check_function_def silent_cbind silent_check_params scopes silent_cwhen silent_cerror
        function_ok_def declarable_def hm_contains_def)
qed

end
