(* ===== verification/Checker_Correct.thy ===== *)
theory Checker_Correct
  imports Typing_Statements
begin

text \<open>
  What the checker of functions promises: it never panics, it accepts exactly the functions the rules
  type, its test for missing returns is exact, and a typed constant expression evaluates to a value of
  its type.
\<close>

section \<open>The checker never panics\<close>

definition returns :: "'a chk \<Rightarrow> bool" where
  "returns m \<longleftrightarrow> m \<noteq> None"

lemma returns_basic [simp]: "returns (cret a)" "returns (cerror msg s)" "returns (creject msg s)"
  by (simp_all add: returns_def cret_def cerror_def creject_def cbind_def)

lemma returns_cbind [intro!]:
  assumes "returns m" and "\<And>a. returns (f a)"
  shows "returns (cbind m f)"
proof -
  obtain a ds where m: "m = Some (a, ds)" using assms(1) by (cases m) (auto simp: returns_def)
  moreover obtain b es where "f a = Some (b, es)" using assms(2) [of a] by (cases "f a") (auto simp: returns_def)
  ultimately show ?thesis by (simp add: returns_def cbind_def)
qed

lemma returns_cwhen [intro!]: "returns m \<Longrightarrow> returns (cwhen b m)"
  by (simp add: cwhen_def)

lemma returns_parts [simp]:
  "returns (value_result description s r)" "returns (found_type expected actual msg s)"
  "returns (unary_type uop s operand)" "returns (binary_type op s l l2)" "returns (conversion_type target s r)"
  "returns (field_type ck bs n ns base)" "returns (argument_type name i expected actual s)"
  "returns (returned_type ty s r)" "returns (check_compound aop lv s)" "returns (check_assigned t aop lv actual s)"
  by (auto simp: value_result_def found_type_def unary_type_def binary_type_def same_operands_def conversion_type_def
      field_type_def argument_type_def returned_type_def check_compound_def check_assigned_def
      split: option.split return_type.split unary_op.split value_type.split)

lemma returns_missing_fields [simp]: "returns (missing_fields name s seen fs)"
  by (induction fs) auto

lemma returns_check_constant_index [simp]: "returns (check_constant_index ck index len)"
proof -
  have "evaluate_expression index (constant_index_lookup ck) = Some (index_value_of ck index)"
    using resume_evaluation_new [of "\<lambda>d. d" "[]" "constant_index_lookup ck" index None]
    by (simp add: evaluate_expression_def index_value_of_def)
  then show ?thesis by (auto simp: check_constant_index_def split: sum.split constant_value.split)
qed

lemma returns_index_type [simp]: "returns (index_type ck index s base ty)"
  by (auto simp: index_type_def split: option.split)

lemma returns_infer:
  "returns (infer_expr ck e)"
  "returns (require_value_as ck description ty e)"
  "returns (infer_all ck es)"
  "returns (check_elements ck element es)"
  "returns (check_arguments ck name params i es)"
  "returns (infer_initializers ck inits)"
  "returns (check_initializers ck d sname seen inits)"
proof (induction ck e and ck description ty e and ck es and ck element es and ck name params i es and ck inits
    and ck d sname seen inits
    rule: infer_expr_require_value_as_infer_all_check_elements_check_arguments_infer_initializers_check_initializers.induct)
  case (5 ck name inits s)
  then show ?case by (cases "hm_get (ck_structs ck) name") auto
next
  case (6 ck n s)
  then show ?case by (cases "checker_binding ck n") auto
next
  case (7 ck base index s)
  then show ?case by (auto split: option.split)
next
  case (8 ck base n name_span s)
  then show ?case by (auto split: option.split)
next
  case (11 ck name args s)
  then show ?case by (cases "hm_get (ck_functions ck) name") auto
next
  case (12 ck target args s)
  then show ?case by (cases args; cases "tl args") auto
next
  case (13 ck description expected kind s)
  show ?case
  proof (cases "has_invalid_array_length expected")
    case False
    with 13 show ?thesis
      by (cases kind; cases "resolved_array expected") (auto simp del: infer_expr.simps)
  qed simp
next
  case (19 ck name params i arg args)
  then show ?case by (cases params) auto
next
  case (23 ck d name seen n e s inits)
  then show ?case by (cases "find_field d n") auto
qed auto

lemma returns_require_value [simp]: "returns (require_value ck description e)"
  unfolding require_value_def by (intro returns_cbind returns_infer returns_parts)

lemma returns_infer_lvalue [simp]: "returns (infer_lvalue ck e)"
proof (induction ck e rule: infer_lvalue.induct)
qed (auto split: option.split simp del: infer_expr.simps simp: returns_infer)

lemma returns_in_scope: "(\<And>c. ck_scopes c \<noteq> [] \<Longrightarrow> returns (body c)) \<Longrightarrow> returns (in_scope scope body ck)"
  by (auto simp: in_scope_def)

text \<open>Scopes are pushed and popped in pairs, so a statement always finds one to declare in.\<close>

definition keeps_scopes :: "checker \<Rightarrow> checker chk \<Rightarrow> bool" where
  "keeps_scopes ck m \<longleftrightarrow> (\<exists>ck' ds. m = Some (ck', ds) \<and> length (ck_scopes ck') = length (ck_scopes ck))"

lemma keeps_cret [simp]: "keeps_scopes ck (cret ck') \<longleftrightarrow> length (ck_scopes ck') = length (ck_scopes ck)"
  by (simp add: keeps_scopes_def cret_def)

lemma keeps_cbind:
  assumes "keeps_scopes ck m" and "\<And>ck'. length (ck_scopes ck') = length (ck_scopes ck) \<Longrightarrow> keeps_scopes ck' (f ck')"
  shows "keeps_scopes ck (cbind m f)"
proof -
  obtain ck1 ds where m: "m = Some (ck1, ds)" and l: "length (ck_scopes ck1) = length (ck_scopes ck)"
    using assms(1) by (auto simp: keeps_scopes_def)
  moreover obtain ck2 es where "f ck1 = Some (ck2, es)" "length (ck_scopes ck2) = length (ck_scopes ck1)"
    using assms(2) [OF l] by (auto simp: keeps_scopes_def)
  ultimately show ?thesis by (simp add: keeps_scopes_def cbind_def)
qed

lemma keeps_after:
  assumes "returns m" and "\<And>a. keeps_scopes ck (f a)"
  shows "keeps_scopes ck (cbind m f)"
proof -
  obtain a ds where "m = Some (a, ds)" using assms(1) by (cases m) (auto simp: returns_def)
  moreover obtain ck' es where "f a = Some (ck', es)" "length (ck_scopes ck') = length (ck_scopes ck)"
    using assms(2) [of a] by (auto simp: keeps_scopes_def)
  ultimately show ?thesis by (simp add: keeps_scopes_def cbind_def)
qed

lemma keeps_in_scope:
  "keeps_scopes (ck\<lparr>ck_scopes := scope # ck_scopes ck\<rparr>) (body (ck\<lparr>ck_scopes := scope # ck_scopes ck\<rparr>)) \<Longrightarrow>
   keeps_scopes ck (in_scope scope body ck)"
  by (auto simp: in_scope_def keeps_scopes_def cbind_def cret_def)

lemma cbind_cret [simp]: "cbind (cret a) f = f a"
  by (simp add: cbind_def cret_def split: option.split)

lemma keeps_check_let:
  assumes "ck_scopes ck \<noteq> []"
  shows "keeps_scopes ck (check_let s n ty init ck)"
proof -
  obtain scope scopes where ck: "ck_scopes ck = scope # scopes" using assms by (cases "ck_scopes ck") auto
  then have "insert_binding n b ck = cret (hm_contains scope n, ck\<lparr>ck_scopes := hm_insert n b scope # scopes\<rparr>)" for b
    by (simp add: insert_binding_def)
  then show ?thesis
    unfolding check_let_def by (auto simp: ck intro!: keeps_after returns_infer)
qed

lemma returns_conditions [simp]:
  "returns (require_bool ck description e)" "returns (check_bound ck description e)"
  "returns (check_assign ck s target op v)" "returns (check_return ck s r)"
  by (auto simp: require_bool_def check_bound_def check_assign_def check_return_def returns_infer
      simp del: infer_expr.simps require_value_as.simps split: option.split return_type.split)

lemma keeps_statements:
  "ck_scopes ck \<noteq> [] \<longrightarrow> keeps_scopes ck (check_statement stmt ck)"
  "ck_scopes ck \<noteq> [] \<longrightarrow> keeps_scopes ck (check_statements stmts ck)"
proof (induction stmt ck and stmts ck rule: check_statement_check_statements.induct)
  case (1 n ty init s ck)
  then show ?case by (simp add: keeps_check_let)
next
  case (4 c a b s ck)
  show ?case
    unfolding check_statement.simps
    by (intro impI keeps_after returns_conditions keeps_cbind keeps_in_scope)
       (use 4 in \<open>auto split: option.split intro!: keeps_in_scope\<close>)
next
  case (9 stmt stmts ck)
  show ?case
    unfolding check_statements.simps
    by (intro impI keeps_cbind) (use 9 in \<open>simp, metis length_0_conv\<close>)
qed (auto intro!: keeps_after keeps_in_scope returns_infer simp del: infer_expr.simps)

lemma keeps_check_params: "ck_scopes ck \<noteq> [] \<Longrightarrow> keeps_scopes ck (check_params ps ck)"
proof (induction ps arbitrary: ck)
  case (Cons p ps)
  obtain scope scopes where ck: "ck_scopes ck = scope # scopes" using Cons.prems by (cases "ck_scopes ck") auto
  then have ins: "insert_binding n b ck = cret (hm_contains scope n, ck\<lparr>ck_scopes := hm_insert n b scope # scopes\<rparr>)" for n b
    by (simp add: insert_binding_def)
  have "keeps_scopes ck (check_params ps (ck\<lparr>ck_scopes := hm_insert n b scope # scopes\<rparr>))" for n b
    using Cons.IH [of "ck\<lparr>ck_scopes := hm_insert n b scope # scopes\<rparr>"] ck by (simp add: keeps_scopes_def)
  then show ?case by (auto simp: ins intro!: keeps_after)
qed simp

lemma check_function_returns: "returns (check_function globals constants values structs fns f)"
proof -
  let ?ck = "checker_new globals constants values structs fns (function_return_type f)"
  have "ck_scopes ?ck \<noteq> []" by (simp add: checker_new_def)
  from keeps_check_params [OF this] obtain ck1 ds where params: "check_params (function_params f) ?ck = Some (ck1, ds)"
    and scopes: "ck_scopes ck1 \<noteq> []"
    by (force simp: keeps_scopes_def checker_new_def)
  from keeps_statements(2) [rule_format, OF scopes, of "function_body f"]
  obtain ck2 es where "check_statements (function_body f) ck1 = Some (ck2, es)"
    by (auto simp: keeps_scopes_def)
  then show ?thesis
    by (simp add: returns_def check_function_def params cbind_def cwhen_def cret_def cerror_def)
qed

section \<open>Missing returns\<close>

text \<open>Control may run past a statement, whichever way conditions go and however often loops turn.\<close>

inductive passes :: "stmt \<Rightarrow> bool" and passes_all :: "stmt list \<Rightarrow> bool" where
  passes_let: "passes (Stmt (StLet n ty e) s)"
| passes_assign: "passes (Stmt (StAssign t op e) s)"
| passes_expr: "passes (Stmt (StExpr e) s)"
| passes_then: "passes_all a \<Longrightarrow> passes (Stmt (StIf c a b) s)"
| passes_else: "passes_all b \<Longrightarrow> passes (Stmt (StIf c a (Some b)) s)"
| passes_no_else: "passes (Stmt (StIf c a None) s)"
| passes_while: "passes (Stmt (StWhile c b) s)"
| passes_for: "passes (Stmt (StFor n ns l u b) s)"
| passes_nil: "passes_all []"
| passes_cons: "passes stmt \<Longrightarrow> passes_all stmts \<Longrightarrow> passes_all (stmt # stmts)"

inductive_simps passes_simps:
  "passes (Stmt (StLet n ty e) s)" "passes (Stmt (StAssign t op e) s)" "passes (Stmt (StExpr e) s)"
  "passes (Stmt (StIf c a b) s)" "passes (Stmt (StWhile c b) s)" "passes (Stmt (StFor n ns l u b) s)"
  "passes (Stmt (StReturn v) s)" "passes_all []" "passes_all (stmt # stmts)"

lemma returns_or_passes:
  "stmt_returns stmt \<longleftrightarrow> \<not> passes stmt"
  "block_returns stmts \<longleftrightarrow> \<not> passes_all stmts"
  by (induction stmt and stmts rule: stmt_returns_block_returns.induct) (auto simp: passes_simps)

section \<open>Typed constant expressions\<close>

text \<open>A value whose parts have the types that its own type declares for them.\<close>

fun value_ok :: "(string, struct_decl) hash_map \<Rightarrow> constant_value \<Rightarrow> bool" where
  "value_ok structs (CvStruct name fs) =
     ((\<exists>d. hm_get structs name = Some d \<and> map fst fs = map field_name (struct_fields d) \<and>
           map (constant_value_ty \<circ> snd) fs = map field_ty (struct_fields d)) \<and>
      list_all (\<lambda>(n, v). value_ok structs v) fs)"
| "value_ok structs (CvArray element vs) = list_all (\<lambda>v. constant_value_ty v = element \<and> value_ok structs v) vs"
| "value_ok structs (CvI32 i) = True"
| "value_ok structs (CvF32 f) = True"
| "value_ok structs (CvBool b) = True"

definition has_type :: "(string, struct_decl) hash_map \<Rightarrow> constant_value \<Rightarrow> value_type \<Rightarrow> bool" where
  "has_type structs v ty \<longleftrightarrow> constant_value_ty v = ty \<and> value_ok structs v"

text \<open>A lookup whose values have the types the environment gives their names, and structs whose fields
  have names of their own.\<close>

definition lookup_typed :: "checker \<Rightarrow> (string \<Rightarrow> span \<Rightarrow> ('e, constant_value) result) \<Rightarrow> bool" where
  "lookup_typed ck lookup \<longleftrightarrow>
     (\<forall>n s v b. lookup n s = Ok v \<longrightarrow> checker_binding ck n = Some b \<longrightarrow> has_type (ck_structs ck) v (bind_ty b)) \<and>
     (\<forall>n d. hm_get (ck_structs ck) n = Some d \<longrightarrow> distinct (map field_name (struct_fields d)))"

lemma has_type_scalar [simp]:
  "has_type structs (CvI32 i) ty \<longleftrightarrow> ty = VtI32" "has_type structs (CvF32 f) ty \<longleftrightarrow> ty = VtF32"
  "has_type structs (CvBool b) ty \<longleftrightarrow> ty = VtBool"
  by (auto simp: has_type_def)

lemma has_type_array:
  "has_type structs v (VtArray element (AlResolved len)) \<longleftrightarrow>
     (\<exists>vs. v = CvArray element vs \<and> length vs = len \<and> (\<forall>w \<in> set vs. has_type structs w element))"
  by (cases v) (auto simp: has_type_def list_all_iff)

lemma has_type_struct:
  "has_type structs v (VtStruct name) \<longleftrightarrow>
     (\<exists>fs d. v = CvStruct name fs \<and> hm_get structs name = Some d \<and> map fst fs = map field_name (struct_fields d) \<and>
        list_all2 (\<lambda>(n, w) f. has_type structs w (field_ty f)) fs (struct_fields d))"
  (is "_ \<longleftrightarrow> ?rhs")
proof
  assume "has_type structs v (VtStruct name)"
  then obtain fs d where v: "v = CvStruct name fs" and d: "hm_get structs name = Some d"
    and names: "map fst fs = map field_name (struct_fields d)"
    and types: "map (constant_value_ty \<circ> snd) fs = map field_ty (struct_fields d)"
    and parts: "list_all (\<lambda>(n, v). value_ok structs v) fs"
    by (cases v) (auto simp: has_type_def)
  have "list_all2 (\<lambda>(n, w) f. has_type structs w (field_ty f)) fs (struct_fields d)"
    using types parts
    by (auto simp: list_all2_conv_all_nth has_type_def list_all_length split: prod.splits dest: map_eq_imp_length_eq)
       (metis comp_apply length_map nth_map snd_conv)
  then show ?rhs using v d names by blast
next
  assume ?rhs
  then obtain fs d where v: "v = CvStruct name fs" and d: "hm_get structs name = Some d"
    and names: "map fst fs = map field_name (struct_fields d)"
    and all: "list_all2 (\<lambda>(n, w) f. has_type structs w (field_ty f)) fs (struct_fields d)"
    by blast
  have "map (constant_value_ty \<circ> snd) fs = map field_ty (struct_fields d)"
    using all by (induction rule: list_all2_induct) (auto simp: has_type_def)
  moreover have "list_all (\<lambda>(n, v). value_ok structs v) fs"
    using all by (induction rule: list_all2_induct) (auto simp: has_type_def)
  ultimately show "has_type structs v (VtStruct name)" using v d names by (auto simp: has_type_def)
qed

text \<open>The parts of the evaluation.\<close>

lemma field_value_type:
  assumes "has_type structs v (VtStruct name)" and "hm_get structs name = Some d" and "find_field d n = Some f"
    and "field_value n s v = Ok w"
  shows "has_type structs w (field_ty f)"
proof -
  obtain fs where v: "v = CvStruct name fs" and names: "map fst fs = map field_name (struct_fields d)"
    and all: "list_all2 (\<lambda>(n, w) f. has_type structs w (field_ty f)) fs (struct_fields d)"
    using assms(1,2) by (auto simp: has_type_struct)
  have found: "map_option snd (find (\<lambda>(m, v). m = n) fs) = Some w"
    using assms(4) v by (cases "map_option snd (find (\<lambda>(m, v). m = n) fs)") (auto simp: field_value_def)
  have field: "find (\<lambda>f. field_name f = n) (struct_fields d) = Some f" using assms(3) by (simp add: find_field_def)
  from all names found field show ?thesis
    by (induction rule: list_all2_induct) (auto split: if_splits)
qed

lemma index_value_type:
  "has_type structs v (VtArray element (AlResolved len)) \<Longrightarrow> index_value v i s = Ok w \<Longrightarrow> has_type structs w element"
  by (auto simp: has_type_array index_value_def split: constant_value.splits if_splits)

lemma unary_value_type: "unary_value uop v = Ok w \<Longrightarrow> has_type structs v ty \<Longrightarrow> has_type structs w ty"
  by (cases uop; cases v) (auto simp: unary_value_def i32_result_def rbind_eq_Ok split: if_splits)

lemma convert_constant_type: "convert_constant target v = Ok w \<Longrightarrow> is_numeric target \<Longrightarrow> has_type structs w target"
  by (cases v; cases target) (auto simp: convert_constant_def)

lemma evaluate_binary_type:
  assumes "evaluate_binary l op r = Ok v" and "has_type structs l ty" and "binary_result op ty = Some result"
  shows "has_type structs v result"
  using assms
  by (cases l; cases r; cases op)
     (auto simp: evaluate_binary_def evaluate_binary_i32_def evaluate_binary_f32_def evaluate_binary_bool_def
        i32_result_def f32_result_def binary_result_def is_scalar_def rbind_eq_Ok split: if_splits)

lemma find_field_distinct:
  assumes "distinct (map field_name (struct_fields d))" and "f \<in> set (struct_fields d)"
  shows "find_field d (field_name f) = Some f"
proof -
  have "find (\<lambda>g. field_name g = field_name f) fs = Some f" if "distinct (map field_name fs)" "f \<in> set fs" for fs
    using that by (induction fs) (auto simp: image_iff)
  then show ?thesis using assms by (simp add: find_field_def)
qed

lemma struct_literal_evaluation:
  assumes d: "hm_get structs name = Some d" and unique: "distinct (map field_name (struct_fields d))"
    and parts: "\<And>i w. i \<in> set inits \<Longrightarrow> \<exists>f. find_field d (fi_name i) = Some f \<and>
        (eval from_diag structs lookup (Some (field_ty f)) (fi_value i) = Ok w \<longrightarrow> has_type structs w (field_ty f))"
    and run: "eval from_diag structs lookup ex (Expr (ExStructLiteral name inits) s) = Ok v"
  shows "has_type structs v (VtStruct name)"
proof -
  obtain children names where "struct_literal_children structs ex s name inits = Ok (children, names)"
    using run by (cases "struct_literal_children structs ex s name inits") (auto simp: eval.simps)
  then have children: "struct_children s d name inits = Ok children" and names: "names = map field_name (struct_fields d)"
    using d by (auto simp: struct_literal_children_def rbind_eq_Ok split: option.splits value_type.splits if_splits)
  then obtain vs where vs: "rmap (\<lambda>(e, ty). eval from_diag structs lookup (Some ty) e) children = Ok vs"
    and v: "v = CvStruct name (zip names vs)"
    using run \<open>struct_literal_children structs ex s name inits = Ok (children, names)\<close>
    by (auto simp: eval.simps rbind_eq_Ok)
  have len: "length children = length (struct_fields d)" "length vs = length (struct_fields d)"
    using rmap_Ok_length [OF children [unfolded struct_children_def]] rmap_Ok_length [OF vs] by simp_all
  have "has_type structs (vs ! k) (field_ty (struct_fields d ! k))" if k: "k < length (struct_fields d)" for k
  proof -
    let ?f = "struct_fields d ! k"
    obtain e where e: "field_initializer_of inits (field_name ?f) = Some e" "children ! k = (e, field_ty ?f)"
      using rmap_Ok_nth [OF children [unfolded struct_children_def] k]
      by (cases "field_initializer_of inits (field_name ?f)") auto
    then obtain i where i: "i \<in> set inits" "fi_name i = field_name ?f" "fi_value i = e"
      by (auto simp: field_initializer_of_def find_Some_iff) (metis nth_mem)
    have "eval from_diag structs lookup (Some (field_ty ?f)) (fi_value i) = Ok (vs ! k)"
      using rmap_Ok_nth [OF vs, of k] k len e i by simp
    then show ?thesis
      using parts [OF i(1), of "vs ! k"] find_field_distinct [OF unique, of ?f] k i(2) by auto
  qed
  then show ?thesis
    using d v names len by (auto simp: has_type_struct list_all2_conv_all_nth)
qed

lemma typed_evaluation:
  "typed ck e rt \<Longrightarrow> lookup_typed ck lookup \<longrightarrow> numeric_conversions e \<longrightarrow>
     (\<forall>ex v ty. rt = RtValue ty \<longrightarrow> eval from_diag (ck_structs ck) lookup ex e = Ok v \<longrightarrow> has_type (ck_structs ck) v ty)"
  "initializes ck e ty' \<Longrightarrow> lookup_typed ck lookup \<longrightarrow> numeric_conversions e \<longrightarrow>
     (\<forall>v. eval from_diag (ck_structs ck) lookup (Some ty') e = Ok v \<longrightarrow> has_type (ck_structs ck) v ty')"
proof (induction rule: typed_initializes.inducts)
  case (typed_i32 v ck s)
  then show ?case by (auto simp: eval.simps rbind_eq_Ok)
next
  case (typed_f32 v ck s)
  then show ?case by (auto simp: eval.simps)
next
  case (typed_bool ck b s)
  then show ?case by (simp add: eval.simps)
next
  case (typed_variable ck n b s)
  then show ?case by (auto simp: eval.simps lookup_typed_def)
next
  case (typed_struct ck name d inits s)
  show ?case
  proof (intro impI allI)
    fix ex v ty
    assume look: "lookup_typed ck lookup" and conv: "numeric_conversions (Expr (ExStructLiteral name inits) s)"
      and ty: "RtValue (VtStruct name) = RtValue ty"
      and run: "eval from_diag (ck_structs ck) lookup ex (Expr (ExStructLiteral name inits) s) = Ok v"
    have init: "numeric_conversions (fi_value i)" if "i \<in> set inits" for i
      using conv that by (cases i) (auto simp: list_all_iff)
    have "has_type (ck_structs ck) v (VtStruct name)"
    proof (rule struct_literal_evaluation [OF typed_struct(1) _ _ run])
      show "distinct (map field_name (struct_fields d))"
        using look typed_struct(1) unfolding lookup_typed_def by blast
      show "\<exists>f. find_field d (fi_name i) = Some f \<and>
          (eval from_diag (ck_structs ck) lookup (Some (field_ty f)) (fi_value i) = Ok w \<longrightarrow> has_type (ck_structs ck) w (field_ty f))"
        if "i \<in> set inits" for i w
        using typed_struct(4) [OF that] look init [OF that] by blast
    qed
    then show "has_type (ck_structs ck) v ty" using ty by simp
  qed
next
  case (typed_index ck base element len index s)
  then show ?case by (simp add: eval.simps rbind_eq_Ok) (blast intro: index_value_type)
next
  case (typed_field ck base name d n f ns s)
  then show ?case by (simp add: eval.simps rbind_eq_Ok) (blast intro: field_value_type)
next
  case (typed_i32_min operand ck s)
  then show ?case by (simp add: eval.simps)
next
  case (typed_negate ck operand ty s)
  moreover have "expr_kind operand \<noteq> i32_min_literal" using typed_negate(1) min_literal_untyped by blast
  ultimately show ?case by (auto simp: eval.simps rbind_eq_Ok intro: unary_value_type split: if_splits)
next
  case (typed_not ck operand s)
  then show ?case by (auto simp: eval.simps rbind_eq_Ok intro: unary_value_type split: if_splits)
next
  case (typed_binary ck left ty right op result s)
  show ?case
  proof (intro impI allI)
    fix ex v ty'
    assume look: "lookup_typed ck lookup" and conv: "numeric_conversions (Expr (ExBinary left op right) s)"
      and ty: "RtValue result = RtValue ty'"
      and run: "eval from_diag (ck_structs ck) lookup ex (Expr (ExBinary left op right) s) = Ok v"
    then obtain l where l: "eval from_diag (ck_structs ck) lookup None left = Ok l"
      by (auto simp: eval.simps rbind_eq_Ok)
    then have lt: "has_type (ck_structs ck) l ty" using typed_binary.IH(1) look conv by simp
    show "has_type (ck_structs ck) v ty'"
    proof (cases "op = BoLogicalAnd \<or> op = BoLogicalOr")
      case True
      then have "result = VtBool" using typed_binary.hyps by (auto simp: binary_result_def split: if_splits)
      have rt: "has_type (ck_structs ck) r ty" if "eval from_diag (ck_structs ck) lookup None right = Ok r" for r
        using typed_binary.IH(2) look conv that by simp
      show ?thesis
        using run True ty lt l \<open>result = VtBool\<close>
        by (auto simp: eval.simps rbind_eq_Ok split: constant_value.splits if_splits)
           (use rt in \<open>metis constant_value.exhaust\<close>)+
    next
      case False
      then obtain r where "evaluate_binary l op r = Ok v"
        using run l by (auto simp: eval.simps rbind_eq_Ok)
      then show ?thesis using evaluate_binary_type lt typed_binary.hyps ty by blast
    qed
  qed
next
  case (typed_call ck name sig args s)
  then show ?case by (simp add: eval.simps)
next
  case (typed_conversion ck arg source target s)
  then show ?case by (auto simp: eval.simps rbind_eq_Ok intro: convert_constant_type)
next
  case (initializes_array es ck element s)
  show ?case
  proof (intro impI allI)
    fix v
    assume look: "lookup_typed ck lookup" and conv: "numeric_conversions (Expr (ExArrayLiteral es) s)"
      and run: "eval from_diag (ck_structs ck) lookup (Some (VtArray element (AlResolved (length es)))) (Expr (ExArrayLiteral es) s) = Ok v"
    then obtain vs where vs: "rmap (eval from_diag (ck_structs ck) lookup (Some element)) es = Ok vs" "v = CvArray element vs"
      by (auto simp: eval.simps rbind_eq_Ok array_literal_element_def)
    have "has_type (ck_structs ck) w element" if "w \<in> set vs" for w
      using rmap_Ok_set [OF vs(1) that] initializes_array look conv by (auto simp: list_all_iff)
    then show "has_type (ck_structs ck) v (VtArray element (AlResolved (length es)))"
      using vs rmap_Ok_length [OF vs(1)] by (auto simp: has_type_array)
  qed
next
  case (initializes_value ck e ty)
  then show ?case by simp
qed

section \<open>Properties\<close>

text \<open>
  C31 The checker infers a type for an expression without reporting anything exactly when the rules of
  the type system give the expression that type.
\<close>

theorem infer_accepts_typed:
  assumes "env_ok ck" and "numeric_conversions e"
  shows "infer_expr ck e = Some (Some rt, []) \<longleftrightarrow> typed ck e rt"
proof -
  have "infer_expr ck e = Some (Some rt, []) \<longleftrightarrow> silent (infer_expr ck e) (\<lambda>a. a = Some rt)"
    by (auto simp: silent_def)
  then show ?thesis using silent_infer [OF assms] by simp
qed

definition sample_checker :: checker where
  "sample_checker = checker_new [(''g'', VtI32)] [] [] [] [] (RtValue VtI32)"

definition sample_sum :: expr where
  "sample_sum = Expr (ExBinary (Expr (ExVariable ''g'') span_default) BoAdd (Expr (ExI32 1) span_default)) span_default"

lemma sample_checker_ok: "env_ok sample_checker"
  by (auto simp: sample_checker_def checker_new_def env_ok_def checker_binding_def hm_get_def split: option.splits if_splits)

lemma sample_sum_inferred: "infer_expr sample_checker sample_sum = Some (Some (RtValue VtI32), [])"
  by (simp add: sample_sum_def sample_checker_def checker_new_def checker_binding_def hm_get_def cbind_def cret_def cwhen_def
      value_result_def binary_type_def same_operands_def fits_i32_def i32_min_def i32_max_def)

theorem infer_accepts_typed_witness: "typed sample_checker sample_sum (RtValue VtI32)"
  using infer_accepts_typed [OF sample_checker_ok, of sample_sum "RtValue VtI32"] sample_sum_inferred
  by (simp add: sample_sum_def)

text \<open>
  C32 A function is checked without a diagnostic exactly when its parameters have names of their own
  that are not predefined, its statements follow the rules in the scopes they open, and it returns a value where
  it must.
\<close>

theorem function_accepted_iff_typed:
  assumes "env_ok (checker_new globals constants values structs fns (function_return_type f))" and "function_plain f"
  shows "check_function globals constants values structs fns f = Some ((), []) \<longleftrightarrow>
    function_ok (checker_new globals constants values structs fns (function_return_type f)) f"
proof -
  have "check_function globals constants values structs fns f = Some ((), []) \<longleftrightarrow>
      silent (check_function globals constants values structs fns f) (\<lambda>_. True)"
    by (auto simp: silent_def)
  then show ?thesis using silent_check_function [OF assms] by simp
qed

definition sample_function :: function_decl where
  "sample_function =
     \<lparr>function_name = ''f'', function_kind = FkNamed, function_params = [], function_return_type = RtValue VtI32,
      function_body = [Stmt (StReturn (Some sample_sum)) span_default], function_span = span_default\<rparr>"

theorem function_accepted_iff_typed_witness: "function_ok sample_checker sample_function"
proof -
  have "check_function [(''g'', VtI32)] [] [] [] [] sample_function = Some ((), [])"
    using sample_sum_inferred
    by (simp add: check_function_def sample_function_def check_return_def sample_checker_def [symmetric]
        is_array_literal_def sample_sum_def [symmetric] cbind_def cret_def returned_type_def cwhen_def)
       (simp add: sample_sum_def cbind_def returned_type_def cwhen_def cret_def checker_new_def return_value_type_def sample_checker_def)
  then show ?thesis
    using function_accepted_iff_typed [of "[(''g'', VtI32)]" "[]" "[]" "[]" "[]" sample_function]
      sample_checker_ok
    by (simp add: sample_checker_def sample_function_def function_plain_def sample_sum_def)
qed

text \<open>
  C33 Checking a function never panics: there is always a scope to declare in, and constant indices are
  always evaluated to the end.
\<close>

theorem check_function_total: "\<exists>ds. check_function globals constants values structs fns f = Some ((), ds)"
  using check_function_returns [of globals constants "values" structs fns f] by (auto simp: returns_def)

text \<open>
  C34 The test for missing returns is exact: it rejects a block precisely when control can run past its
  end for some outcome of its conditions.
\<close>

theorem missing_return_exact: "block_returns b \<longleftrightarrow> \<not> passes_all b"
  by (rule returns_or_passes(2))

text \<open>
  C35 The type checker and the evaluator of constants agree: a typed initializer, evaluated with
  values of the types the environment gives, has a value of the type it was checked against, in all its parts.
\<close>

theorem typed_initializer_value:
  assumes "initializes ck e ty" and "numeric_conversions e" and "lookup_typed ck lookup"
    and "eval from_diag (ck_structs ck) lookup (Some ty) e = Ok v"
  shows "has_type (ck_structs ck) v ty"
  using typed_evaluation(2) assms by blast

theorem typed_initializer_value_witness: "has_type [] (CvI32 3) VtI32"
proof -
  let ?look = "\<lambda>n s. if n = ''g'' then Ok (CvI32 2) else Err (diag [] s)"
  have binding: "checker_binding sample_checker n = Some b \<Longrightarrow> n = ''g'' \<and> bind_ty b = VtI32" for n b
    by (auto simp: sample_checker_def checker_new_def checker_binding_def hm_get_def split: option.splits if_splits)
  have "lookup_typed sample_checker ?look"
    by (auto simp: lookup_typed_def sample_checker_def [symmetric] dest!: binding split: if_splits)
       (simp add: sample_checker_def checker_new_def)
  moreover have "initializes sample_checker sample_sum VtI32"
    by (auto simp: sample_sum_def sample_checker_def checker_new_def checker_binding_def hm_get_def typed_simps
        fits_i32_def i32_min_def i32_max_def binary_result_def intro!: initializes_value)
  ultimately show ?thesis
    using typed_initializer_value [of sample_checker sample_sum VtI32 ?look "\<lambda>d. d" "CvI32 3"]
    by (simp add: sample_sum_def sample_checker_def checker_new_def eval.simps evaluate_binary_def evaluate_binary_i32_def
        i32_result_def checked_add_def i32_try_from_def fits_i32_def i32_min_def i32_max_def)
qed

end
