(* ===== verification/Struct_Graph_Correct.thy ===== *)
theory Struct_Graph_Correct
  imports Struct_Graph
begin

text \<open>
  The searches of \<^verbatim>\<open>src/src/sema/struct_graph.rs\<close> are total and exact: the two passes
  find the nodes on cycles, and the propagation marks what is reachable.
\<close>

section \<open>Graphs and marks\<close>

definition graph_of :: "nat list list \<Rightarrow> (nat \<times> nat) set" where
  "graph_of g = {(u, v). u < length g \<and> v \<in> set (g ! u)}"

definition closed_graph :: "nat list list \<Rightarrow> bool" where
  "closed_graph g \<longleftrightarrow> (\<forall>u < length g. \<forall>v \<in> set (g ! u). v < length g)"

definition marked_set :: "bool list \<Rightarrow> nat set" where
  "marked_set marks = {i. i < length marks \<and> marks ! i}"

lemma marked_set_update [simp]: "i < length marks \<Longrightarrow> marked_set (marks[i := True]) = insert i (marked_set marks)"
  by (auto simp: marked_set_def nth_list_update)

lemma marked_set_replicate [simp]: "marked_set (replicate n False) = {}"
  by (auto simp: marked_set_def)

lemma graph_bounds: "closed_graph g \<Longrightarrow> (u, v) \<in> graph_of g \<Longrightarrow> u < length g \<and> v < length g"
  by (auto simp: graph_of_def closed_graph_def)

lemma reachable_bound: "(u, v) \<in> (graph_of g)\<^sup>* \<Longrightarrow> closed_graph g \<Longrightarrow> u < length g \<Longrightarrow> v < length g"
  by (induction rule: rtrancl_induct) (auto dest: graph_bounds)

definition same_component :: "(nat \<times> nat) set \<Rightarrow> nat \<Rightarrow> nat \<Rightarrow> bool" where
  "same_component E u v \<longleftrightarrow> (u, v) \<in> E\<^sup>* \<and> (v, u) \<in> E\<^sup>*"

lemma same_component_refl [simp]: "same_component E u u"
  by (simp add: same_component_def)

lemma same_component_sym: "same_component E u v \<Longrightarrow> same_component E v u"
  by (simp add: same_component_def)

lemma same_component_trans: "same_component E u v \<Longrightarrow> same_component E v w \<Longrightarrow> same_component E u w"
  by (auto simp: same_component_def)

text \<open>A node is on a cycle when its component has another node, or when it has an edge to itself.\<close>

lemma on_cycle_iff: "(u, u) \<in> E\<^sup>+ \<longleftrightarrow> (\<exists>v. v \<noteq> u \<and> same_component E u v) \<or> (u, u) \<in> E"
proof
  assume "(u, u) \<in> E\<^sup>+"
  then obtain v where v: "(u, v) \<in> E" "(v, u) \<in> E\<^sup>*" by (auto dest: tranclD)
  then show "(\<exists>v. v \<noteq> u \<and> same_component E u v) \<or> (u, u) \<in> E"
    by (cases "v = u") (auto simp: same_component_def)
next
  assume "(\<exists>v. v \<noteq> u \<and> same_component E u v) \<or> (u, u) \<in> E"
  then show "(u, u) \<in> E\<^sup>+"
    by (auto simp: same_component_def rtrancl_eq_or_trancl)
qed

section \<open>The first pass\<close>

text \<open>An edge that leaves a beginning of the finished nodes leads to a node that reaches the end of it.\<close>

definition finish_order :: "(nat \<times> nat) set \<Rightarrow> nat list \<Rightarrow> bool" where
  "finish_order E finished \<longleftrightarrow>
     (\<forall>a x b. finished = a @ x # b \<longrightarrow>
        (\<forall>u v. (u, v) \<in> E \<longrightarrow> u \<in> set (a @ [x]) \<longrightarrow> v \<notin> set (a @ [x]) \<longrightarrow> (v, x) \<in> E\<^sup>*))"

definition finish_inv :: "nat list list \<Rightarrow> bool list \<Rightarrow> nat list \<Rightarrow> (nat \<times> nat) list \<Rightarrow> bool" where
  "finish_inv g visited finished stack \<longleftrightarrow>
     length visited = length g \<and> distinct (finished @ map fst stack) \<and>
     marked_set visited = set finished \<union> fst ` set stack \<and>
     (\<forall>u v. (u, v) \<in> graph_of g \<longrightarrow> u \<in> set finished \<longrightarrow> v \<in> marked_set visited) \<and>
     (\<forall>u k. (u, k) \<in> set stack \<longrightarrow> set (take k (g ! u)) \<subseteq> marked_set visited) \<and>
     sorted_wrt (\<lambda>n m. (fst m, fst n) \<in> (graph_of g)\<^sup>*) stack \<and>
     finish_order (graph_of g) finished"

lemma finish_invI:
  assumes "length visited = length g" and "distinct (finished @ map fst stack)"
    and "marked_set visited = set finished \<union> fst ` set stack"
    and "\<And>u v. (u, v) \<in> graph_of g \<Longrightarrow> u \<in> set finished \<Longrightarrow> v \<in> marked_set visited"
    and "\<And>u k. (u, k) \<in> set stack \<Longrightarrow> set (take k (g ! u)) \<subseteq> marked_set visited"
    and "sorted_wrt (\<lambda>n m. (fst m, fst n) \<in> (graph_of g)\<^sup>*) stack" and "finish_order (graph_of g) finished"
  shows "finish_inv g visited finished stack"
  using assms unfolding finish_inv_def by blast

lemma finish_inv_taken:
  "finish_inv g visited finished stack \<Longrightarrow> (u, k) \<in> set stack \<Longrightarrow> set (take k (g ! u)) \<subseteq> marked_set visited"
  unfolding finish_inv_def by blast

lemma finish_inv_closed:
  "finish_inv g visited finished stack \<Longrightarrow> (u, v) \<in> graph_of g \<Longrightarrow> u \<in> set finished \<Longrightarrow> v \<in> marked_set visited"
  unfolding finish_inv_def by blast

lemma finish_inv_order: "finish_inv g visited finished stack \<Longrightarrow> finish_order (graph_of g) finished"
  by (simp add: finish_inv_def)

lemma finish_orderD:
  "finish_order E (a @ x # b) \<Longrightarrow> (u, v) \<in> E \<Longrightarrow> u \<in> set (a @ [x]) \<Longrightarrow> v \<notin> set (a @ [x]) \<Longrightarrow> (v, x) \<in> E\<^sup>*"
  unfolding finish_order_def by blast

lemma finish_inv_next:
  assumes "finish_inv g visited finished ((node, k) # stack)" and "k < length (g ! node)" and "visited ! (g ! node ! k)"
    and "closed_graph g"
  shows "finish_inv g visited finished ((node, Suc k) # stack)"
proof -
  have node: "node < length g" using assms(1) by (auto simp: finish_inv_def marked_set_def)
  then have "g ! node ! k \<in> marked_set visited"
    using assms by (auto simp: closed_graph_def finish_inv_def marked_set_def)
  then have "set (take i (g ! u)) \<subseteq> marked_set visited" if "(u, i) \<in> set ((node, Suc k) # stack)" for u i
    using that finish_inv_taken [OF assms(1), of u i] finish_inv_taken [OF assms(1), of node k] assms(2)
    by (auto simp: take_Suc_conv_app_nth)
  then show ?thesis
    using assms(1) by (intro finish_invI) (simp_all add: finish_inv_def, use finish_inv_closed [OF assms(1)] in auto)
qed

lemma finish_inv_push:
  assumes "finish_inv g visited finished ((node, k) # stack)" and "k < length (g ! node)"
    and "\<not> visited ! (g ! node ! k)" and "closed_graph g"
  shows "finish_inv g (visited[g ! node ! k := True]) finished ((g ! node ! k, 0) # (node, Suc k) # stack)"
proof -
  let ?v = "g ! node ! k"
  have node: "node < length g" using assms(1) by (auto simp: finish_inv_def marked_set_def)
  have v: "?v < length visited" "(node, ?v) \<in> graph_of g"
    using node assms by (auto simp: closed_graph_def graph_of_def finish_inv_def)
  have fresh: "?v \<notin> marked_set visited" using assms(3) by (simp add: marked_set_def)
  have "(fst x, ?v) \<in> (graph_of g)\<^sup>*" if "x \<in> set stack" for x
    using assms(1) that v(2) by (auto simp: finish_inv_def intro: rtrancl_into_rtrancl)
  then have chain: "sorted_wrt (\<lambda>n m. (fst m, fst n) \<in> (graph_of g)\<^sup>*) ((?v, 0) # (node, Suc k) # stack)"
    using assms(1) v(2) by (simp add: finish_inv_def r_into_rtrancl)
  have taken: "set (take i (g ! u)) \<subseteq> insert ?v (marked_set visited)"
    if "(u, i) \<in> set ((?v, 0) # (node, Suc k) # stack)" for u i
    using that finish_inv_taken [OF assms(1), of u i] finish_inv_taken [OF assms(1), of node k] assms(2)
    by (auto simp: take_Suc_conv_app_nth)
  have "distinct (finished @ map fst ((?v, 0) # (node, Suc k) # stack))"
    using assms(1) fresh by (auto simp: finish_inv_def)
  moreover have "v \<in> insert ?v (marked_set visited)" if "(u, v) \<in> graph_of g" "u \<in> set finished" for u v
    using finish_inv_closed [OF assms(1) that] by simp
  moreover have "insert ?v (marked_set visited) = set finished \<union> fst ` set ((?v, 0) # (node, Suc k) # stack)"
    using assms(1) by (simp add: finish_inv_def)
  ultimately show ?thesis
    using assms(1) v(1) chain taken by (intro finish_invI) (simp_all add: finish_inv_def [of _ visited])
qed

lemma finish_inv_pop:
  assumes inv: "finish_inv g visited finished ((node, k) # stack)" and "length (g ! node) \<le> k"
  shows "finish_inv g visited (finished @ [node]) stack"
proof -
  have "set (take k (g ! node)) \<subseteq> marked_set visited"
    using finish_inv_taken [OF inv] by simp
  then have all: "set (g ! node) \<subseteq> marked_set visited" using assms(2) by simp
  have leaves: "v \<in> marked_set visited" if uv: "(u, v) \<in> graph_of g" "u \<in> set (finished @ [node])" for u v
  proof (cases "u = node")
    case True
    then show ?thesis using uv(1) all by (auto simp: graph_of_def)
  next
    case False
    then show ?thesis using uv finish_inv_closed [OF inv] by simp
  qed
  have stack: "(v, node) \<in> (graph_of g)\<^sup>*" if "v \<in> marked_set visited" "v \<notin> set finished" for v
    using that inv by (auto simp: finish_inv_def)
  have "finish_order (graph_of g) (finished @ [node])"
    unfolding finish_order_def
  proof (intro allI impI)
    fix a x b u v
    assume split: "finished @ [node] = a @ x # b" and uv: "(u, v) \<in> graph_of g" "u \<in> set (a @ [x])" "v \<notin> set (a @ [x])"
    show "(v, x) \<in> (graph_of g)\<^sup>*"
    proof (cases b rule: rev_cases)
      case Nil
      then show ?thesis using split uv leaves [OF uv(1)] stack by auto
    next
      case (snoc b' y)
      then have "finished = a @ x # b'" using split by simp
      then show ?thesis using finish_orderD [OF _ uv] finish_inv_order [OF inv] by simp
    qed
  qed
  then show ?thesis
    using inv leaves by (intro finish_invI) (simp_all add: finish_inv_def, use finish_inv_taken [OF inv] in auto)
qed

lemma finish_loop_total:
  assumes "finish_inv g visited finished stack" and "closed_graph g"
  shows "\<exists>visited' finished'. finish_loop g visited finished stack = Some (visited', finished') \<and>
    finish_inv g visited' finished' [] \<and> marked_set visited \<subseteq> set finished'"
  using assms
proof (induction g visited finished stack rule: finish_loop.induct)
  case (1 g visited finished)
  then show ?case by (auto simp: finish_inv_def)
next
  case (2 g visited finished node k stack)
  have node: "node < length g" using "2.prems" by (auto simp: finish_inv_def marked_set_def)
  note step = finish_loop.simps(2) [of g visited finished node k stack]
  note finish_loop.simps [simp del]
  show ?case
  proof (cases "k < length (g ! node)")
    case True
    then have dep: "g ! node ! k < length visited" using "2.prems" node by (auto simp: closed_graph_def finish_inv_def)
    show ?thesis
    proof (cases "visited ! (g ! node ! k)")
      case seen: True
      then show ?thesis
        using "2.IH"(2) [of "g ! node" "g ! node ! k" "visited ! (g ! node ! k)"] finish_inv_next [OF "2.prems"(1) True seen "2.prems"(2)]
          "2.prems"(2) node True dep step by (simp add: idx_Some)
    next
      case new: False
      then show ?thesis
        using "2.IH"(3) [of "g ! node" "g ! node ! k" "visited ! (g ! node ! k)"] finish_inv_push [OF "2.prems"(1) True new "2.prems"(2)]
          "2.prems"(2) node True dep step by (auto simp: idx_Some)
    qed
  next
    case False
    then show ?thesis
      using "2.IH"(1) [of "g ! node"] finish_inv_pop [OF "2.prems"(1)] "2.prems"(2) node step by (simp add: idx_def)
  qed
qed

lemma finish_roots_total:
  assumes "finish_inv g visited finished []" and "closed_graph g" and "set roots \<subseteq> {..<length g}"
  shows "\<exists>visited' finished'. finish_roots g roots visited finished = Some (visited', finished') \<and>
    finish_inv g visited' finished' [] \<and> set finished \<union> set roots \<subseteq> set finished'"
  using assms
proof (induction roots arbitrary: visited finished)
  case (Cons root roots)
  then have root: "root < length visited" by (simp add: finish_inv_def)
  show ?case
  proof (cases "visited ! root")
    case True
    then have "root \<in> set finished" using Cons.prems root by (auto simp: finish_inv_def marked_set_def)
    then show ?thesis using Cons True root by (fastforce simp: idx_Some)
  next
    case False
    then have "finish_inv g (visited[root := True]) finished [(root, 0)]"
      using Cons.prems root by (auto simp: finish_inv_def marked_set_def [of visited])
    then obtain v f where loop: "finish_loop g (visited[root := True]) finished [(root, 0)] = Some (v, f)"
      "finish_inv g v f []" "marked_set (visited[root := True]) \<subseteq> set f"
      using finish_loop_total Cons.prems(2) by blast
    then have "insert root (set finished) \<subseteq> set f" using Cons.prems(1) root by (auto simp: finish_inv_def)
    moreover obtain v' f' where "finish_roots g roots v f = Some (v', f')" "finish_inv g v' f' []"
      "set f \<union> set roots \<subseteq> set f'"
      using Cons.IH [OF loop(2)] Cons.prems by auto
    ultimately show ?thesis using loop(1) False root by (auto simp: idx_Some)
  qed
qed simp

text \<open>A path out of a beginning of the finished nodes stays below the last node of its component.\<close>

lemma leave_beginning:
  assumes "(x, r) \<in> E\<^sup>*" and "x \<in> P" and "r \<notin> P"
  shows "\<exists>u v. (x, u) \<in> E\<^sup>* \<and> u \<in> P \<and> (u, v) \<in> E \<and> v \<notin> P \<and> (v, r) \<in> E\<^sup>*"
  using assms
proof (induction rule: converse_rtrancl_induct)
  case (step x y)
  then show ?case by (cases "y \<in> P") (blast intro: converse_rtrancl_into_rtrancl)+
qed simp

lemma finished_later:
  assumes order: "finish_order E (a @ r # b)" and "distinct (a @ r # b)" and "x \<in> set a" and "(x, r) \<in> E\<^sup>*"
    and closed: "\<And>u v. (u, v) \<in> E \<Longrightarrow> v \<in> set (a @ r # b)"
  shows "\<exists>y \<in> set (r # b). same_component E x y"
proof -
  have "\<exists>y \<in> set (r # b). same_component E x y" if "a = a1 @ x # a2" and "(x, r) \<in> E\<^sup>*" for a1 x a2
    using that
  proof (induction "length a2" arbitrary: a1 x a2 rule: less_induct)
    case less
    let ?P = "set (a1 @ [x])"
    have "r \<notin> ?P" using assms(2) less.prems(1) by auto
    then obtain u v where uv: "(x, u) \<in> E\<^sup>*" "u \<in> ?P" "(u, v) \<in> E" "v \<notin> ?P" "(v, r) \<in> E\<^sup>*"
      using leave_beginning [OF less.prems(2), of ?P] by auto
    have "(v, x) \<in> E\<^sup>*" using finish_orderD [OF _ uv(3,2,4)] order less.prems(1) by simp
    then have same: "same_component E x v" using uv(1,3) by (auto simp: same_component_def)
    show ?case
    proof (cases "v \<in> set a2")
      case True
      then obtain b1 b2 where a2: "a2 = b1 @ v # b2" by (auto dest: split_list)
      then have "\<exists>y \<in> set (r # b). same_component E v y"
        using less.hyps [of b2 "a1 @ x # b1" v] less.prems(1) uv(5) by simp
      then show ?thesis using same same_component_trans by blast
    next
      case False
      then have "v \<in> set (r # b)" using closed [OF uv(3)] uv(4) less.prems(1) by auto
      then show ?thesis using same by blast
    qed
  qed
  then show ?thesis using split_list [OF assms(3)] assms(4) by blast
qed

section \<open>Marking what is reachable\<close>

lemma mark_new_total:
  assumes "set ds \<subseteq> {..<length marks}"
  shows "\<exists>marks' new. mark_new ds marks pending = Some (marks', new @ pending) \<and> length marks' = length marks \<and>
    marked_set marks' = marked_set marks \<union> set ds \<and> distinct new \<and> set new = set ds - marked_set marks"
  using assms
proof (induction ds arbitrary: marks pending)
  case (Cons d ds)
  show ?case
  proof (cases "marks ! d")
    case True
    then show ?thesis using Cons.IH [of marks pending] Cons.prems by (auto simp: idx_Some marked_set_def [of marks])
  next
    case False
    then have d: "d \<notin> marked_set marks" "d < length marks" using Cons.prems by (auto simp: marked_set_def)
    obtain marks' new where ih: "mark_new ds (marks[d := True]) (d # pending) = Some (marks', new @ d # pending)"
      "length marks' = length marks" "marked_set marks' = insert d (marked_set marks) \<union> set ds" "distinct new"
      "set new = set ds - insert d (marked_set marks)"
      using Cons.IH [of "marks[d := True]" "d # pending"] Cons.prems d by auto
    then have "mark_new (d # ds) marks pending = Some (marks', (new @ [d]) @ pending)" using False d by (simp add: idx_Some)
    moreover have "distinct (new @ [d])" "set (new @ [d]) = set (d # ds) - marked_set marks" using ih d by auto
    ultimately show ?thesis using ih by fastforce
  qed
qed simp

text \<open>The nodes marked and not yet given to the component are pending; those given have marked neighbours.\<close>

definition spread_inv :: "nat list list \<Rightarrow> nat set \<Rightarrow> nat set \<Rightarrow> bool list \<Rightarrow> nat list \<Rightarrow> nat list \<Rightarrow> bool" where
  "spread_inv g before start marks pending component \<longleftrightarrow>
     length marks = length g \<and> marked_set marks = before \<union> set (pending @ component) \<and>
     distinct (pending @ component) \<and> before \<inter> set (pending @ component) = {} \<and>
     (\<forall>u \<in> set component. set (g ! u) \<subseteq> marked_set marks) \<and>
     start \<subseteq> set (pending @ component) \<and> set (pending @ component) \<subseteq> (graph_of g)\<^sup>* `` start"

lemma spread_total:
  assumes "spread_inv g before start marks pending component" and "closed_graph g"
  shows "\<exists>marks' component'. spread g marks pending component = Some (marks', component') \<and>
    spread_inv g before start marks' [] component'"
  using assms
proof (induction g marks pending component rule: spread.induct)
  case (2 g marks node pending component)
  have node: "node < length g" using "2.prems" by (auto simp: spread_inv_def marked_set_def)
  then have "set (g ! node) \<subseteq> {..<length marks}" using "2.prems" by (auto simp: closed_graph_def spread_inv_def)
  then obtain marks' new where new: "mark_new (g ! node) marks pending = Some (marks', new @ pending)"
    "length marks' = length marks" "marked_set marks' = marked_set marks \<union> set (g ! node)" "distinct new"
    "set new = set (g ! node) - marked_set marks"
    using mark_new_total by blast
  have reach: "(graph_of g)\<^sup>* `` start \<supseteq> set (new @ pending @ component @ [node])"
  proof -
    have "node \<in> (graph_of g)\<^sup>* `` start" using "2.prems" by (auto simp: spread_inv_def)
    then have "set (g ! node) \<subseteq> (graph_of g)\<^sup>* `` start"
      using node by (auto simp: graph_of_def intro: rtrancl_into_rtrancl)
    then show ?thesis using new(5) "2.prems" by (auto simp: spread_inv_def)
  qed
  have "spread_inv g before start marks' (new @ pending) (component @ [node])"
    unfolding spread_inv_def
  proof (intro conjI)
    have "\<forall>u \<in> set component. set (g ! u) \<subseteq> marked_set marks"
      using "2.prems"(1) unfolding spread_inv_def by blast
    then show "\<forall>u \<in> set (component @ [node]). set (g ! u) \<subseteq> marked_set marks'" using new(3) by auto
    show "marked_set marks' = before \<union> set ((new @ pending) @ component @ [node])"
      using "2.prems"(1) unfolding spread_inv_def new(3) set_append new(5) by auto
    show "distinct ((new @ pending) @ component @ [node])" "before \<inter> set ((new @ pending) @ component @ [node]) = {}"
      using "2.prems"(1) new(4,5) by (auto simp: spread_inv_def)
  qed (use "2.prems"(1) new(2) reach in \<open>auto simp: spread_inv_def\<close>)
  then show ?case
    using "2.IH" [of "g ! node" "(marks', new @ pending)" marks' "new @ pending"] "2.prems"(2) new(1) node
    by (simp add: idx_Some)
qed auto

text \<open>At the end the component is what is reachable from the start around the nodes marked before.\<close>

lemma spread_all:
  assumes "spread_inv g {} start marks [] component" and "closed_graph g"
  shows "marked_set marks = (graph_of g)\<^sup>* `` start"
proof -
  have "v \<in> set component" if "(u, v) \<in> (graph_of g)\<^sup>*" "u \<in> start" for u v
    using that
  proof (induction rule: rtrancl_induct)
    case (step y z)
    then show ?case using assms(1) by (fastforce simp: spread_inv_def graph_of_def)
  qed (use assms(1) in \<open>auto simp: spread_inv_def\<close>)
  then show ?thesis using assms(1) by (auto simp: spread_inv_def)
qed

section \<open>The second pass\<close>

lemma marked_set_mark_all [simp]:
  "set xs \<subseteq> {..<length marks} \<Longrightarrow> marked_set (mark_all xs marks) = marked_set marks \<union> set xs"
  "length (mark_all xs marks) = length marks"
  by (induction xs arbitrary: marks) auto

text \<open>Each list gives the neighbours of the other graph.\<close>

definition opposite :: "nat list list \<Rightarrow> nat list list \<Rightarrow> bool" where
  "opposite g h \<longleftrightarrow> length h = length g \<and> graph_of h = (graph_of g)\<inverse>"

text \<open>The component collected from a root whose successors in the order are done.\<close>

lemma component_exact:
  assumes opp: "opposite g h" and "closed_graph h"
    and old: "marked_set visited = {x. \<exists>r \<in> D. same_component (graph_of g) x r}" and len: "length visited = length g"
    and root: "root < length g" "root \<notin> marked_set visited"
    and later: "\<And>x. (x, root) \<in> (graph_of g)\<^sup>* \<Longrightarrow> \<exists>y \<in> insert root D. same_component (graph_of g) x y"
  shows "\<exists>visited' component. spread h (visited[root := True]) [root] [] = Some (visited', component) \<and>
    length visited' = length g \<and> distinct component \<and> set component = {x. same_component (graph_of g) x root} \<and>
    marked_set visited' = marked_set visited \<union> set component"
proof -
  let ?E = "graph_of g" and ?M = "marked_set visited"
  have converse: "(u, v) \<in> (graph_of h)\<^sup>* \<longleftrightarrow> (v, u) \<in> ?E\<^sup>*" for u v
    using opp by (simp add: opposite_def rtrancl_converse)
  have "spread_inv h ?M {root} (visited[root := True]) [root] []"
    using root len opp by (auto simp: spread_inv_def opposite_def)
  then obtain visited' component where out: "spread h (visited[root := True]) [root] [] = Some (visited', component)"
    and inv: "spread_inv h ?M {root} visited' [] component"
    using spread_total assms(2) by blast
  have sub: "same_component ?E x root" if "x \<in> set component" for x
  proof -
    have x: "(x, root) \<in> ?E\<^sup>*" "x \<notin> ?M" using inv that converse by (auto simp: spread_inv_def)
    then obtain y where "y \<in> insert root D" "same_component ?E x y" using later by blast
    then show ?thesis using x(2) old by auto
  qed
  have sup: "x \<in> set component" if "(x, root) \<in> ?E\<^sup>*" "(root, x) \<in> ?E\<^sup>*" for x
    using that
  proof (induction rule: converse_rtrancl_induct)
    case base
    then show ?case using inv by (auto simp: spread_inv_def)
  next
    case (step x z)
    have z: "z \<in> set component" using step by (meson rtrancl_into_rtrancl)
    have "(z, x) \<in> graph_of h" using step.hyps(1) opp by (simp add: opposite_def)
    then have "x \<in> ?M \<or> x \<in> set component" using inv z by (auto simp: spread_inv_def graph_of_def)
    moreover have "x \<notin> ?M"
    proof
      assume "x \<in> ?M"
      then obtain r where "r \<in> D" "same_component ?E x r" using old by blast
      moreover have "same_component ?E root x" using step by (auto simp: same_component_def)
      ultimately have "root \<in> ?M" using old same_component_trans by blast
      then show False using root by simp
    qed
    ultimately show ?case by simp
  qed
  have "set component = {x. same_component ?E x root}" using sub sup by (auto simp: same_component_def)
  then show ?thesis using out inv opp by (auto simp: spread_inv_def opposite_def)
qed

lemma component_on_cycle:
  assumes "distinct component" and comp: "set component = {x. same_component E x root}" and "x \<in> set component"
  shows "(x, x) \<in> E\<^sup>+ \<longleftrightarrow> length component > 1 \<or> (root, root) \<in> E"
proof -
  have one: "length component > 1 \<longleftrightarrow> (\<exists>v. v \<noteq> root \<and> same_component E root v)"
  proof
    assume "length component > 1"
    then have "Suc (Suc 0) \<le> length component" by simp
    then have "\<exists>a b rest. component = a # b # rest" unfolding Suc_le_length_iff by blast
    then obtain a b rest where "component = a # b # rest" by blast
    then have "a \<noteq> b" "{a, b} \<subseteq> {x. same_component E x root}" using assms(1) comp by auto
    then show "\<exists>v. v \<noteq> root \<and> same_component E root v"
      by (cases "a = root") (auto dest: same_component_sym)
  next
    assume "\<exists>v. v \<noteq> root \<and> same_component E root v"
    then obtain v where "{root, v} \<subseteq> set component" "v \<noteq> root" using comp by (auto dest: same_component_sym)
    then have "card {root, v} \<le> card (set component)" by (intro card_mono) auto
    then show "length component > 1" using \<open>v \<noteq> root\<close> assms(1) by (simp add: distinct_card)
  qed
  have x: "same_component E x root" using assms by simp
  have "(x, x) \<in> E\<^sup>+ \<longleftrightarrow> (root, root) \<in> E\<^sup>+"
  proof (cases "x = root")
    case False
    then show ?thesis using x on_cycle_iff [of x E] on_cycle_iff [of root E] same_component_sym [OF x] by metis
  qed simp
  then show ?thesis using one on_cycle_iff [of root E] by simp
qed

lemma component_roots_exact:
  assumes opp: "opposite g h" and closed: "closed_graph h" and bound: "set order \<subseteq> {..<length g}"
    and later: "\<And>a r b x. order = a @ r # b \<Longrightarrow> (x, r) \<in> (graph_of g)\<^sup>* \<Longrightarrow> \<exists>y \<in> insert r (set a). same_component (graph_of g) x y"
  shows "order = old @ roots \<Longrightarrow> length visited = length g \<Longrightarrow> length recursive = length g \<Longrightarrow>
    marked_set visited = {x. \<exists>r \<in> set old. same_component (graph_of g) x r} \<Longrightarrow>
    marked_set recursive = {x \<in> marked_set visited. (x, x) \<in> (graph_of g)\<^sup>+} \<Longrightarrow>
    \<exists>recursive'. component_roots g h roots visited recursive = Some recursive' \<and> length recursive' = length g \<and>
      marked_set recursive' = {x. (\<exists>r \<in> set order. same_component (graph_of g) x r) \<and> (x, x) \<in> (graph_of g)\<^sup>+}"
proof (induction roots arbitrary: old visited recursive)
  case (Cons root roots)
  let ?E = "graph_of g"
  have root: "root < length g" using Cons.prems(1) bound by auto
  show ?case
  proof (cases "visited ! root")
    case True
    then have "root \<in> marked_set visited" using root Cons.prems(2) by (simp add: marked_set_def)
    then obtain r where "r \<in> set old" "same_component ?E root r" using Cons.prems(4) by blast
    then have "marked_set visited = {x. \<exists>r \<in> set (old @ [root]). same_component ?E x r}"
      using Cons.prems(4) by (auto dest: same_component_trans)
    then show ?thesis using Cons.IH [of "old @ [root]"] Cons.prems True root by (simp add: idx_Some)
  next
    case False
    then have new: "root \<notin> marked_set visited" by (simp add: marked_set_def)
    obtain visited' component where run: "spread h (visited[root := True]) [root] [] = Some (visited', component)"
      and len: "length visited' = length g" and comp: "distinct component" "set component = {x. same_component ?E x root}"
      and marks: "marked_set visited' = marked_set visited \<union> set component"
      using component_exact [OF opp closed Cons.prems(4,2) root new later [OF Cons.prems(1)]] by blast
    let ?rec = "if length component > 1 \<or> root \<in> set (g ! root) then mark_all component recursive else recursive"
    have edge: "root \<in> set (g ! root) \<longleftrightarrow> (root, root) \<in> ?E" using root by (simp add: graph_of_def)
    have "set component \<subseteq> {..<length recursive}"
      using Cons.prems(3) marks len by (auto simp: marked_set_def)
    then have "marked_set ?rec = {x \<in> marked_set visited'. (x, x) \<in> ?E\<^sup>+}" "length ?rec = length g"
      using Cons.prems(3,5) marks component_on_cycle [OF comp] edge by auto
    moreover have "marked_set visited' = {x. \<exists>r \<in> set (old @ [root]). same_component ?E x r}"
      using marks comp(2) Cons.prems(4) by auto
    ultimately obtain recursive' where "component_roots g h roots visited' ?rec = Some recursive'"
      "length recursive' = length g"
      "marked_set recursive' = {x. (\<exists>r \<in> set order. same_component ?E x r) \<and> (x, x) \<in> ?E\<^sup>+}"
      using Cons.IH [of "old @ [root]" visited' ?rec] Cons.prems(1) len by auto
    then show ?thesis using run False root Cons.prems(2) by (simp add: idx_Some)
  qed
qed simp

theorem recursive_members_on_cycle:
  assumes "closed_graph g" and "closed_graph h" and "opposite g h"
  shows "\<exists>recursive. recursive_members g h = Some recursive \<and> length recursive = length g \<and>
    marked_set recursive = {i. (i, i) \<in> (graph_of g)\<^sup>+}"
proof -
  let ?n = "length g" and ?E = "graph_of g"
  have start: "finish_inv g (replicate ?n False) [] []" by (auto simp: finish_inv_def finish_order_def)
  obtain visited finished where run: "finish_roots g [0..<?n] (replicate ?n False) [] = Some (visited, finished)"
    and inv: "finish_inv g visited finished []" and all: "set [0..<?n] \<subseteq> set finished"
    using finish_roots_total [OF start assms(1), of "[0..<?n]"] by (auto simp: atLeast0LessThan)
  have nodes: "set finished = {..<?n}" using inv all by (auto simp: finish_inv_def marked_set_def)
  have closed: "v \<in> set finished" if "(u, v) \<in> ?E" for u v
    using graph_bounds [OF assms(1) that] nodes by simp
  have later: "\<exists>y \<in> insert r (set a). same_component ?E x y" if "rev finished = a @ r # b" "(x, r) \<in> ?E\<^sup>*" for a r b x
  proof -
    have f: "finished = rev b @ r # rev a" using that(1) by (metis append.assoc append_Cons append_Nil rev_append rev_rev_ident rev.simps(2))
    have "x \<in> set finished"
      using that(2) nodes f by (auto elim: converse_rtranclE dest: graph_bounds [OF assms(1)])
    then consider "x \<in> insert r (set a)" | "x \<in> set (rev b)" using f by auto
    then show ?thesis
    proof cases
      case 2
      then show ?thesis
        using finished_later [of ?E "rev b" r "rev a" x] finish_inv_order [OF inv] inv that(2) closed f
        by (auto simp: finish_inv_def)
    qed (use same_component_refl in blast)
  qed
  have "\<exists>recursive. component_roots g h (rev finished) (replicate ?n False) (replicate ?n False) = Some recursive \<and>
      length recursive = ?n \<and>
      marked_set recursive = {x. (\<exists>r \<in> set (rev finished). same_component ?E x r) \<and> (x, x) \<in> ?E\<^sup>+}"
  proof (rule component_roots_exact [where order = "rev finished" and old = "[]"])
    show "\<exists>y \<in> insert r (set a). same_component ?E x y" if "rev finished = a @ r # b" "(x, r) \<in> ?E\<^sup>*" for a r b x
      using later that .
  qed (use assms nodes in simp_all)
  moreover have "x < ?n" if "(x, x) \<in> ?E\<^sup>+" for x
    using that by (auto dest!: tranclD dest: graph_bounds [OF assms(1)])
  ultimately show ?thesis
    using run nodes by (auto simp: recursive_members_def) (use same_component_refl in blast)
qed

end
