(* ===== verification/Struct_Types_Correct.thy ===== *)
theory Struct_Types_Correct
  imports Struct_Graph_Correct
begin

text \<open>
  What the analysis of structs reports, in terms of the declarations: the searches of
  \<^verbatim>\<open>Struct_Graph\<close> run on numbers, which stand for the names of the structs.
\<close>

section \<open>The graph\<close>

lemma length_push_edges [simp]: "length (push_edges es g) = length g"
  by (induction es g rule: push_edges.induct) auto

lemma graph_of_push_edges:
  "set es \<subseteq> {..<length g} \<times> UNIV \<Longrightarrow> graph_of (push_edges es g) = graph_of g \<union> set es"
proof (induction es g rule: push_edges.induct)
  case (2 i j es g)
  have "graph_of (g[i := g ! i @ [j]]) = insert (i, j) (graph_of g)"
    using "2.prems" by (auto simp: graph_of_def nth_list_update split: if_splits)
  then show ?case using 2 by auto
qed simp

lemma graph_of_edges:
  assumes "set es \<subseteq> {..<n} \<times> {..<n}"
  shows "graph_of (push_edges es (replicate n [])) = set es" and "closed_graph (push_edges es (replicate n []))"
proof -
  show eq: "graph_of (push_edges es (replicate n [])) = set es"
    using assms by (subst graph_of_push_edges) (auto simp: graph_of_def)
  show "closed_graph (push_edges es (replicate n []))"
    using eq assms by (auto simp: closed_graph_def graph_of_def set_eq_iff)
qed

lemma trancl_image:
  assumes "inj_on f A" and "E \<subseteq> A \<times> A"
  shows "(p, q) \<in> (map_prod f f ` E)\<^sup>+ \<longleftrightarrow> (\<exists>i j. (i, j) \<in> E\<^sup>+ \<and> p = f i \<and> q = f j)"
proof
  assume "(p, q) \<in> (map_prod f f ` E)\<^sup>+"
  then show "\<exists>i j. (i, j) \<in> E\<^sup>+ \<and> p = f i \<and> q = f j"
  proof (induction rule: trancl_induct)
    case (step y z)
    then obtain i j k l where ij: "(i, j) \<in> E\<^sup>+" "p = f i" "y = f j" and kl: "(k, l) \<in> E" "y = f k" "z = f l" by auto
    have "j \<in> A" using ij(1) assms(2) by (auto elim: tranclE)
    then have "j = k" using ij(3) kl(1,2) assms by (auto dest: inj_onD)
    then show ?case using ij kl by (auto intro: trancl_into_trancl)
  qed auto
next
  assume "\<exists>i j. (i, j) \<in> E\<^sup>+ \<and> p = f i \<and> q = f j"
  then obtain i j where ij: "(i, j) \<in> E\<^sup>+" "p = f i" "q = f j" by blast
  have "(f i, f j) \<in> (map_prod f f ` E)\<^sup>+"
    using ij(1) by (induction rule: trancl_induct) (auto intro: trancl_into_trancl)
  then show "(p, q) \<in> (map_prod f f ` E)\<^sup>+" using ij by simp
qed

section \<open>The declarations\<close>

text \<open>Structs stored under their names.\<close>

definition named_structs :: "(string, struct_decl) hash_map \<Rightarrow> bool" where
  "named_structs structs \<longleftrightarrow> (\<forall>n d. hm_get structs n = Some d \<longrightarrow> struct_decl_name d = n)"

lemma hm_values_named:
  assumes "named_structs structs"
  shows "set (hm_values structs) = {d. \<exists>n. hm_get structs n = Some d}" and "distinct (map struct_decl_name (hm_values structs))"
proof -
  have keys: "n \<in> fst ` set structs \<longleftrightarrow> hm_get structs n \<noteq> None" for n
    by (simp add: hm_get_def map_of_eq_None_iff)
  show "set (hm_values structs) = {d. \<exists>n. hm_get structs n = Some d}"
  proof (intro set_eqI)
    fix d
    have "d \<in> set (hm_values structs) \<longleftrightarrow> (\<exists>n. n \<in> fst ` set structs \<and> d = the (hm_get structs n))"
      unfolding hm_values_def set_map set_remdups by blast
    then show "d \<in> set (hm_values structs) \<longleftrightarrow> d \<in> {d. \<exists>n. hm_get structs n = Some d}"
      unfolding keys by auto
  qed
  have "map (\<lambda>k. struct_decl_name (the (hm_get structs k))) (remdups (map fst structs)) = remdups (map fst structs)"
    using assms keys by (intro map_idI) (fastforce simp: named_structs_def)
  then show "distinct (map struct_decl_name (hm_values structs))"
    by (simp add: hm_values_def comp_def)
qed

lemma sorted_declarations_named:
  assumes "named_structs structs"
  shows "set (sorted_declarations structs) = {d. \<exists>n. hm_get structs n = Some d}"
    and "distinct (map struct_decl_name (sorted_declarations structs))"
  using hm_values_named [OF assms] by (simp_all add: sorted_declarations_def distinct_map)

lemma struct_indices_get:
  assumes "distinct (map struct_decl_name ds)"
  shows "hm_get (struct_indices ds) n = Some j \<longleftrightarrow> j < length ds \<and> struct_decl_name (ds ! j) = n"
proof -
  have "distinct (map fst (rev (zip (map struct_decl_name ds) [0..<length ds])))"
    using assms by (simp add: rev_map [symmetric])
  then show ?thesis
    by (auto simp: struct_indices_def hm_collect_def hm_get_def in_set_zip map_of_eq_Some_iff intro!: exI [of _ j])
qed

text \<open>One struct has a field that holds values of the other, perhaps in arrays.\<close>

definition holds_value_of :: "(string, struct_decl) hash_map \<Rightarrow> (string \<times> string) set" where
  "holds_value_of structs =
     {(a, b). \<exists>d. hm_get structs a = Some d \<and> hm_contains structs b \<and>
        (\<exists>f \<in> set (struct_fields d). base_struct_name (field_ty f) = Some b)}"

definition name_at :: "struct_decl list \<Rightarrow> nat \<Rightarrow> string" where
  "name_at ds i = struct_decl_name (ds ! i)"

lemma in_map_filter: "y \<in> set (List.map_filter f xs) \<longleftrightarrow> (\<exists>x \<in> set xs. f x = Some y)"
  by (induction xs) (auto simp: map_filter_simps split: option.splits)

lemma field_dependencies_iff:
  assumes "distinct (map struct_decl_name ds)"
  shows "j \<in> set (field_dependencies (struct_indices ds) d) \<longleftrightarrow>
    j < length ds \<and> (\<exists>f \<in> set (struct_fields d). base_struct_name (field_ty f) = Some (name_at ds j))"
  by (auto simp: field_dependencies_def in_map_filter bind_eq_Some_conv struct_indices_get [OF assms] name_at_def)

lemma set_struct_edges:
  assumes "distinct (map struct_decl_name ds)"
  shows "set (struct_edges ds) =
    {(i, j). i < length ds \<and> j < length ds \<and>
       (\<exists>f \<in> set (struct_fields (ds ! i)). base_struct_name (field_ty f) = Some (name_at ds j))}"
proof -
  have "set (struct_edges ds) = {(i, j). i < length ds \<and> j \<in> set (field_dependencies (struct_indices ds) (ds ! i))}"
    by (auto simp: struct_edges_def set_zip)
  then show ?thesis unfolding field_dependencies_iff [OF assms] by auto
qed

text \<open>The declarations of a map in their order.\<close>

definition declarations_of :: "(string, struct_decl) hash_map \<Rightarrow> struct_decl list \<Rightarrow> bool" where
  "declarations_of structs ds \<longleftrightarrow> named_structs structs \<and> ds = sorted_declarations structs"

lemma declaration_names: "declarations_of structs ds \<Longrightarrow> distinct (map struct_decl_name ds)"
  using sorted_declarations_named(2) by (auto simp: declarations_of_def)

lemma declared:
  assumes "declarations_of structs ds"
  shows "hm_get structs n = Some d \<longleftrightarrow> d \<in> set ds \<and> struct_decl_name d = n"
  using sorted_declarations_named(1) [of structs] assms declaration_names [OF assms]
  unfolding declarations_of_def named_structs_def by auto

lemma name_at_inj: "declarations_of structs ds \<Longrightarrow> inj_on (name_at ds) {..<length ds}"
  by (drule declaration_names) (auto simp: inj_on_def name_at_def distinct_conv_nth)

lemma declared_at: "declarations_of structs ds \<Longrightarrow> i < length ds \<Longrightarrow> hm_get structs (name_at ds i) = Some (ds ! i)"
  by (simp add: declared name_at_def)

lemma struct_edges_bound: "declarations_of structs ds \<Longrightarrow> set (struct_edges ds) \<subseteq> {..<length ds} \<times> {..<length ds}"
  by (auto simp: set_struct_edges declaration_names)

lemma edges_are_fields:
  assumes "declarations_of structs ds"
  shows "map_prod (name_at ds) (name_at ds) ` set (struct_edges ds) = holds_value_of structs"
proof (intro equalityI subsetI)
  fix p assume "p \<in> map_prod (name_at ds) (name_at ds) ` set (struct_edges ds)"
  then show "p \<in> holds_value_of structs"
    by (auto simp: set_struct_edges declaration_names [OF assms] holds_value_of_def declared_at [OF assms] hm_contains_def)
next
  fix p assume "p \<in> holds_value_of structs"
  then obtain a b d e f where p: "p = (a, b)" "hm_get structs a = Some d" "hm_get structs b = Some e"
    "f \<in> set (struct_fields d)" "base_struct_name (field_ty f) = Some b"
    by (auto simp: holds_value_of_def hm_contains_def)
  then obtain i j where ij: "i < length ds" "ds ! i = d" "j < length ds" "ds ! j = e"
    by (auto simp: declared [OF assms] in_set_conv_nth)
  then have "(i, j) \<in> set (struct_edges ds)" "p = map_prod (name_at ds) (name_at ds) (i, j)"
    using p by (auto simp: set_struct_edges declaration_names [OF assms] declared [OF assms] name_at_def)
  then show "p \<in> map_prod (name_at ds) (name_at ds) ` set (struct_edges ds)" by blast
qed

lemma cycles_are_recursive:
  assumes "declarations_of structs ds" and "i < length ds"
  shows "(i, i) \<in> (set (struct_edges ds))\<^sup>+ \<longleftrightarrow> (name_at ds i, name_at ds i) \<in> (holds_value_of structs)\<^sup>+"
proof -
  let ?E = "set (struct_edges ds)"
  note bound = struct_edges_bound [OF assms(1)] and inj = name_at_inj [OF assms(1)]
  have "j = i \<and> k = i" if "(j, k) \<in> ?E\<^sup>+" "name_at ds i = name_at ds j" "name_at ds i = name_at ds k" for j k
  proof -
    have "(j, k) \<in> {..<length ds} \<times> {..<length ds}" using that(1) trancl_subset_Sigma [OF bound] by blast
    then show ?thesis using that(2,3) assms inj by (auto dest: inj_onD)
  qed
  then show ?thesis
    unfolding edges_are_fields [OF assms(1), symmetric] trancl_image [OF inj bound] by blast
qed

lemma rtrancl_names:
  assumes "declarations_of structs ds" and "i < length ds" and "j < length ds"
  shows "(i, j) \<in> (set (struct_edges ds))\<^sup>* \<longleftrightarrow> (name_at ds i, name_at ds j) \<in> (holds_value_of structs)\<^sup>*"
proof -
  let ?E = "set (struct_edges ds)"
  note bound = struct_edges_bound [OF assms(1)] and inj = name_at_inj [OF assms(1)]
  have "k = i \<and> l = j" if "(k, l) \<in> ?E\<^sup>+" "name_at ds i = name_at ds k" "name_at ds j = name_at ds l" for k l
  proof -
    have "(k, l) \<in> {..<length ds} \<times> {..<length ds}" using that(1) trancl_subset_Sigma [OF bound] by blast
    then show ?thesis using that(2,3) assms inj by (auto dest: inj_onD)
  qed
  then have "(i, j) \<in> ?E\<^sup>+ \<longleftrightarrow> (name_at ds i, name_at ds j) \<in> (holds_value_of structs)\<^sup>+"
    unfolding edges_are_fields [OF assms(1), symmetric] trancl_image [OF inj bound] by blast
  moreover have "i = j \<longleftrightarrow> name_at ds i = name_at ds j" using inj assms by (auto dest: inj_onD)
  ultimately show ?thesis by (simp add: rtrancl_eq_or_trancl)
qed

lemma in_marked_of:
  "length marks = length xs \<Longrightarrow> x \<in> set (marked_of marks xs) \<longleftrightarrow> (\<exists>i \<in> marked_set marks. xs ! i = x)"
  by (auto simp: marked_of_def marked_set_def set_zip image_iff)

lemma distinct_marked_of: "distinct xs \<Longrightarrow> distinct (marked_of marks xs)"
  by (induction marks xs rule: list_induct2') (auto simp: marked_of_def dest: set_zip_rightD)

lemma propagate_invalid_reaches:
  assumes "closed_graph h" and "length invalid = length h"
  shows "\<exists>invalid'. propagate_invalid h invalid = Some invalid' \<and> length invalid' = length h \<and>
    marked_set invalid' = (graph_of h)\<^sup>* `` marked_set invalid"
proof -
  have "spread_inv h {} (marked_set invalid) invalid (rev (filter (\<lambda>i. invalid ! i) [0..<length invalid])) []"
    using assms(2) by (auto simp: spread_inv_def marked_set_def)
  then obtain invalid' component where
    "spread h invalid (rev (filter (\<lambda>i. invalid ! i) [0..<length invalid])) [] = Some (invalid', component)"
    "spread_inv h {} (marked_set invalid) invalid' [] component"
    using spread_total assms(1) by blast
  moreover from this(2) have "marked_set invalid' = (graph_of h)\<^sup>* `` marked_set invalid" by (rule spread_all [OF _ assms(1)])
  ultimately show ?thesis by (simp add: propagate_invalid_def spread_inv_def)
qed

section \<open>The analysis\<close>

definition length_failed :: "struct_decl \<Rightarrow> bool" where
  "length_failed d \<longleftrightarrow> (\<exists>f \<in> set (struct_fields d). has_invalid_array_length (field_ty f))"

lemma struct_analysis:
  assumes "named_structs structs"
  shows "\<exists>invalid reported.
    struct_type_analysis_new structs diags = Some (invalid, diags @ map recursive_struct_error reported) \<and> distinct reported \<and>
    (\<forall>d. d \<in> set reported \<longleftrightarrow> (\<exists>n. hm_get structs n = Some d \<and> (n, n) \<in> (holds_value_of structs)\<^sup>+)) \<and>
    (\<forall>n. n \<in> set invalid \<longleftrightarrow>
       (\<exists>m d. hm_contains structs n \<and> (n, m) \<in> (holds_value_of structs)\<^sup>* \<and> hm_get structs m = Some d \<and> length_failed d))"
proof -
  define ds where "ds = sorted_declarations structs"
  define g where "g = push_edges (struct_edges ds) (replicate (length ds) [])"
  define h where "h = push_edges (map prod.swap (struct_edges ds)) (replicate (length ds) [])"
  have decls: "declarations_of structs ds" using assms by (simp add: declarations_of_def ds_def)
  note bound = struct_edges_bound [OF decls]
  have g: "graph_of g = set (struct_edges ds)" "closed_graph g" "length g = length ds"
    unfolding g_def using graph_of_edges [OF bound] by simp_all
  have swapped: "set (map prod.swap (struct_edges ds)) \<subseteq> {..<length ds} \<times> {..<length ds}" using bound by auto
  have swap: "prod.swap ` set (struct_edges ds) = (set (struct_edges ds))\<inverse>" by force
  have h: "graph_of h = (set (struct_edges ds))\<inverse>" "closed_graph h" "length h = length ds"
    unfolding h_def using graph_of_edges [OF swapped] swap by simp_all
  obtain recursive where rec: "recursive_members g h = Some recursive" "length recursive = length ds"
    "marked_set recursive = {i. (i, i) \<in> (set (struct_edges ds))\<^sup>+}"
    using recursive_members_on_cycle [OF g(2) h(2)] g h by (auto simp: opposite_def)
  obtain invalid where inv: "propagate_invalid h (invalid_members ds) = Some invalid" "length invalid = length ds"
    "marked_set invalid = (graph_of h)\<^sup>* `` marked_set (invalid_members ds)"
    using propagate_invalid_reaches [OF h(2), of "invalid_members ds"] h(3) by (auto simp: invalid_members_def)
  have members: "marked_set (invalid_members ds) = {j. j < length ds \<and> length_failed (ds ! j)}"
    by (auto simp: marked_set_def invalid_members_def length_failed_def list_ex_iff)
  have mem: "d \<in> set ds \<longleftrightarrow> (\<exists>i < length ds. ds ! i = d)" for d by (auto simp: in_set_conv_nth)
  have "struct_type_analysis_new structs diags =
      Some (map struct_decl_name (marked_of invalid ds), diags @ map recursive_struct_error (marked_of recursive ds))"
    using rec(1) inv(1) unfolding struct_type_analysis_new_def Let_def ds_def [symmetric] g_def [symmetric] h_def [symmetric]
    by simp
  moreover have "d \<in> set (marked_of recursive ds) \<longleftrightarrow>
      (\<exists>n. hm_get structs n = Some d \<and> (n, n) \<in> (holds_value_of structs)\<^sup>+)" for d
  proof -
    have "d \<in> set (marked_of recursive ds) \<longleftrightarrow>
        (\<exists>i < length ds. ds ! i = d \<and> (name_at ds i, name_at ds i) \<in> (holds_value_of structs)\<^sup>+)"
      using in_marked_of [OF rec(2)] rec(2,3) cycles_are_recursive [OF decls] by (auto simp: marked_set_def)
    then show ?thesis by (auto simp: declared [OF decls] mem name_at_def)
  qed
  moreover have "n \<in> set (map struct_decl_name (marked_of invalid ds)) \<longleftrightarrow>
      (\<exists>m d. hm_contains structs n \<and> (n, m) \<in> (holds_value_of structs)\<^sup>* \<and> hm_get structs m = Some d \<and> length_failed d)" for n
  proof -
    have "i \<in> marked_set invalid \<longleftrightarrow> (\<exists>j < length ds. length_failed (ds ! j) \<and> (i, j) \<in> (set (struct_edges ds))\<^sup>*)" for i
      unfolding inv(3) members h(1) rtrancl_converse by auto
    then have "i \<in> marked_set invalid \<longleftrightarrow> (\<exists>j < length ds. length_failed (ds ! j) \<and> (name_at ds i, name_at ds j) \<in> (holds_value_of structs)\<^sup>*)"
      if "i < length ds" for i using rtrancl_names [OF decls that] by blast
    moreover have "i < length ds" if "i \<in> marked_set invalid" for i using that inv(2) by (simp add: marked_set_def)
    ultimately have "n \<in> set (map struct_decl_name (marked_of invalid ds)) \<longleftrightarrow>
        (\<exists>i < length ds. name_at ds i = n \<and>
           (\<exists>j < length ds. length_failed (ds ! j) \<and> (n, name_at ds j) \<in> (holds_value_of structs)\<^sup>*))"
      using in_marked_of [OF inv(2)] by (auto simp: name_at_def image_iff) blast+
    then show ?thesis
      by (auto simp: hm_contains_def declared [OF decls] mem name_at_def)
  qed
  moreover have "distinct (marked_of recursive ds)"
    using declaration_names [OF decls] by (simp add: distinct_marked_of distinct_map)
  ultimately show ?thesis by blast
qed

lemma struct_analysis_total: "named_structs structs \<Longrightarrow> struct_type_analysis_new structs diags \<noteq> None"
  using struct_analysis by blast

text \<open>
  C38 The analysis of structs is total and exact: it reports the structs that contain themselves, once
  each, and it marks the structs from which one whose array length failed can be reached.
\<close>

theorem struct_analysis_exact:
  assumes "named_structs structs"
  shows "\<exists>invalid reported.
    struct_type_analysis_new structs diags = Some (invalid, diags @ map recursive_struct_error reported) \<and> distinct reported \<and>
    (\<forall>d. d \<in> set reported \<longleftrightarrow> (\<exists>n. hm_get structs n = Some d \<and> (n, n) \<in> (holds_value_of structs)\<^sup>+)) \<and>
    (\<forall>n. n \<in> set invalid \<longleftrightarrow>
       (\<exists>m d. hm_contains structs n \<and> (n, m) \<in> (holds_value_of structs)\<^sup>* \<and> hm_get structs m = Some d \<and> length_failed d))"
  using assms by (rule struct_analysis)

definition sample_recursive_struct :: struct_decl where
  "sample_recursive_struct =
     \<lparr>struct_decl_name = ''A'', struct_fields = [\<lparr>field_name = ''next'', field_ty = VtStruct ''A'', field_span = span_default\<rparr>],
      struct_span = span_default\<rparr>"

theorem struct_analysis_exact_witness:
  "\<exists>invalid. struct_type_analysis_new [(''A'', sample_recursive_struct)] [] =
     Some (invalid, [recursive_struct_error sample_recursive_struct])"
proof -
  let ?structs = "[(''A'', sample_recursive_struct)]"
  have "named_structs ?structs"
    by (auto simp: named_structs_def hm_get_def sample_recursive_struct_def split: if_splits)
  then obtain invalid reported where out:
    "struct_type_analysis_new ?structs [] = Some (invalid, [] @ map recursive_struct_error reported)"
    "distinct reported" "\<forall>d. d \<in> set reported \<longleftrightarrow> (\<exists>n. hm_get ?structs n = Some d \<and> (n, n) \<in> (holds_value_of ?structs)\<^sup>+)"
    using struct_analysis_exact by blast
  have "(''A'', ''A'') \<in> holds_value_of ?structs"
    by (simp add: holds_value_of_def hm_get_def hm_contains_def sample_recursive_struct_def)
  then have "set reported = {sample_recursive_struct}"
    using out(3) by (auto simp: hm_get_def split: if_splits)
  moreover have "length reported = 1" using out(2) distinct_card [of reported] \<open>set reported = {sample_recursive_struct}\<close> by simp
  then obtain d where "reported = [d]" by (auto simp: length_Suc_conv)
  ultimately have "reported = [sample_recursive_struct]" by simp
  then show ?thesis using out(1) by simp
qed

end
