(* ===== verification/Program_Types_Correct.thy ===== *)
theory Program_Types_Correct
  imports Program_Types
begin

text \<open>
  Correctness of the resolution of array lengths: it always returns, the program it returns is the old
  one with every length replaced by its meaning, and a length without a meaning leaves a diagnostic.
\<close>

section \<open>The meaning of a length\<close>

definition length_denotes ::
  "(string, constant_definition) hash_map \<Rightarrow> (string, struct_decl) hash_map \<Rightarrow> resolution \<Rightarrow> string \<Rightarrow> i32 \<Rightarrow> bool" where
  "length_denotes definitions declarations r n i \<longleftrightarrow>
     (\<forall>d. hm_get definitions n = Some d \<longrightarrow> def_ty d = VtI32) \<and>
     denotes (hm_collect (builtin_constants r)) definitions (length_den definitions declarations) n (CvI32 i)"

definition length_meaning ::
  "(string, constant_definition) hash_map \<Rightarrow> (string, struct_decl) hash_map \<Rightarrow> resolution \<Rightarrow>
   array_length \<Rightarrow> array_length" where
  "length_meaning definitions declarations r len =
     (case len of
        AlLiteral v s \<Rightarrow> if 0 < v \<and> v \<le> i32_max then AlResolved (nat v) else AlInvalid
      | AlConstant n s \<Rightarrow>
          if \<exists>i. length_denotes definitions declarations r n i \<and> 0 < sint i
          then AlResolved (nat (sint (THE i. length_denotes definitions declarations r n i)))
          else AlInvalid
      | AlResolved k \<Rightarrow> AlResolved k
      | AlInvalid \<Rightarrow> AlInvalid)"

fun retype :: "(array_length \<Rightarrow> array_length) \<Rightarrow> value_type \<Rightarrow> value_type" where
  "retype m (VtArray element len) = VtArray (retype m element) (m len)"
| "retype m ty = ty"

fun retype_stmt :: "(array_length \<Rightarrow> array_length) \<Rightarrow> stmt \<Rightarrow> stmt"
and retype_block :: "(array_length \<Rightarrow> array_length) \<Rightarrow> block \<Rightarrow> block" where
  "retype_stmt m (Stmt (StLet n ty e) s) = Stmt (StLet n (retype m ty) e) s"
| "retype_stmt m (Stmt (StIf c then_block (Some else_block)) s) =
     Stmt (StIf c (retype_block m then_block) (Some (retype_block m else_block))) s"
| "retype_stmt m (Stmt (StIf c then_block None) s) = Stmt (StIf c (retype_block m then_block) None) s"
| "retype_stmt m (Stmt (StWhile c body) s) = Stmt (StWhile c (retype_block m body)) s"
| "retype_stmt m (Stmt (StFor n ns from to body) s) = Stmt (StFor n ns from to (retype_block m body)) s"
| "retype_stmt m stmt = stmt"
| "retype_block m [] = []"
| "retype_block m (stmt # stmts) = retype_stmt m stmt # retype_block m stmts"

definition retype_struct :: "(array_length \<Rightarrow> array_length) \<Rightarrow> struct_decl \<Rightarrow> struct_decl" where
  "retype_struct m d = d\<lparr>struct_fields := map (\<lambda>f. f\<lparr>field_ty := retype m (field_ty f)\<rparr>) (struct_fields d)\<rparr>"

definition retype_return :: "(array_length \<Rightarrow> array_length) \<Rightarrow> return_type \<Rightarrow> return_type" where
  "retype_return m t = (case t of RtValue ty \<Rightarrow> RtValue (retype m ty) | RtVoid \<Rightarrow> RtVoid)"

definition retype_function :: "(array_length \<Rightarrow> array_length) \<Rightarrow> function_decl \<Rightarrow> function_decl" where
  "retype_function m f =
     f\<lparr>function_params := map (\<lambda>p. p\<lparr>param_ty := retype m (param_ty p)\<rparr>) (function_params f),
       function_return_type := retype_return m (function_return_type f),
       function_body := retype_block m (function_body f)\<rparr>"

definition retype_program :: "(array_length \<Rightarrow> array_length) \<Rightarrow> program \<Rightarrow> program" where
  "retype_program m p =
     p\<lparr>program_structs := map (retype_struct m) (program_structs p),
       program_constants := map (\<lambda>c. c\<lparr>constant_ty := retype m (constant_ty c)\<rparr>) (program_constants p),
       program_globals := map (\<lambda>g. g\<lparr>global_ty := retype m (global_ty g)\<rparr>) (program_globals p),
       program_functions := map (retype_function m) (program_functions p)\<rparr>"

text \<open>Every type written in a program.\<close>

fun stmt_types :: "stmt \<Rightarrow> value_type list"
and block_types :: "block \<Rightarrow> value_type list" where
  "stmt_types (Stmt (StLet n ty e) s) = [ty]"
| "stmt_types (Stmt (StIf c then_block (Some else_block)) s) = block_types then_block @ block_types else_block"
| "stmt_types (Stmt (StIf c then_block None) s) = block_types then_block"
| "stmt_types (Stmt (StWhile c body) s) = block_types body"
| "stmt_types (Stmt (StFor n ns from to body) s) = block_types body"
| "stmt_types stmt = []"
| "block_types [] = []"
| "block_types (stmt # stmts) = stmt_types stmt @ block_types stmts"

definition function_types :: "function_decl \<Rightarrow> value_type list" where
  "function_types f =
     map param_ty (function_params f)
     @ (case function_return_type f of RtValue ty \<Rightarrow> [ty] | RtVoid \<Rightarrow> [])
     @ block_types (function_body f)"

definition program_types :: "program \<Rightarrow> value_type list" where
  "program_types p =
     concat (map (\<lambda>d. map field_ty (struct_fields d)) (program_structs p))
     @ map constant_ty (program_constants p) @ map global_ty (program_globals p)
     @ concat (map function_types (program_functions p))"

definition type_fails :: "(array_length \<Rightarrow> array_length) \<Rightarrow> value_type \<Rightarrow> bool" where
  "type_fails m ty \<longleftrightarrow> (\<exists>len \<in> set (collect_lengths ty). len \<noteq> AlInvalid \<and> m len = AlInvalid)"

section \<open>One length\<close>

definition length_evaluator_ok ::
  "(string, constant_definition) hash_map \<Rightarrow> (string, struct_decl) hash_map \<Rightarrow> resolution \<Rightarrow> length_evaluator \<Rightarrow> bool" where
  "length_evaluator_ok definitions declarations r lv \<longleftrightarrow>
     lv_definitions lv = definitions \<and> lv_structs lv = declarations \<and>
     cache_sound (hm_collect (builtin_constants r)) definitions (length_den definitions declarations) (lv_cache lv)"

lemma length_denotes_unique:
  assumes "length_denotes definitions declarations r n i" and "length_denotes definitions declarations r n j"
  shows "i = j"
proof -
  have "denotes (hm_collect (builtin_constants r)) definitions (length_den definitions declarations) n (CvI32 i)"
    and "denotes (hm_collect (builtin_constants r)) definitions (length_den definitions declarations) n (CvI32 j)"
    using assms by (simp_all add: length_denotes_def)
  then have "CvI32 i = CvI32 j" by (rule length_constants.denotes_unique)
  then show ?thesis by simp
qed

lemma length_meaning_constant:
  "length_denotes definitions declarations r n i \<Longrightarrow>
   length_meaning definitions declarations r (AlConstant n s) = (if 0 < sint i then AlResolved (nat (sint i)) else AlInvalid)"
proof -
  assume i: "length_denotes definitions declarations r n i"
  have only: "length_denotes definitions declarations r n j \<longleftrightarrow> j = i" for j
    using i length_denotes_unique [OF i, of j] by blast
  then have "length_denotes definitions declarations r n = (\<lambda>j. j = i)" by blast
  then show ?thesis by (simp add: length_meaning_def)
qed

lemma length_meaning_undefined:
  "\<nexists>i. length_denotes definitions declarations r n i \<Longrightarrow>
   length_meaning definitions declarations r (AlConstant n s) = AlInvalid"
  by (simp add: length_meaning_def)

lemma require_length_type_Ok:
  "require_length_type n s definitions = Ok () \<longleftrightarrow> (\<forall>d. hm_get definitions n = Some d \<longrightarrow> def_ty d = VtI32)"
  by (cases "hm_get definitions n") (auto simp: require_length_type_def)

lemma length_value_Ok: "length_value v n s = Ok i \<longleftrightarrow> v = CvI32 i"
  by (cases v) (auto simp: length_value_def)

lemma length_evaluate_spec:
  assumes ok: "length_evaluator_ok definitions declarations r lv"
  shows "\<exists>res lv'. length_evaluate lv n s = Some (res, lv') \<and> length_evaluator_ok definitions declarations r lv' \<and>
    (\<forall>i. res = Ok i \<longleftrightarrow> length_denotes definitions declarations r n i)"
proof (cases "require_length_type n s definitions")
  case (Inl d)
  then have "\<not> length_denotes definitions declarations r n i" for i
    using require_length_type_Ok [of n s definitions] by (auto simp: length_denotes_def)
  then show ?thesis using Inl ok by (simp add: length_evaluate_def length_evaluator_ok_def)
next
  case (Inr u)
  then have ty: "\<forall>d. hm_get definitions n = Some d \<longrightarrow> def_ty d = VtI32"
    using require_length_type_Ok by simp
  have sound: "cache_sound (hm_collect (builtin_constants r)) definitions (length_den definitions declarations) (lv_cache lv)"
    using ok by (simp add: length_evaluator_ok_def)
  obtain c' res where run: "schedule definitions PhArrayLength (length_evaluation_new declarations)
      (length_initializer definitions) n s (lv_cache lv) = Some (Some (c', res))"
    and c': "cache_sound (hm_collect (builtin_constants r)) definitions (length_den definitions declarations) c'"
    using length_constants.schedule_done [OF sound, of PhArrayLength n s] by (auto simp: length_constants.sched_done_def)
  have "res = Ok (CvI32 i) \<longleftrightarrow> length_denotes definitions declarations r n i" for i
    using length_constants.schedule_denotes [OF sound, of PhArrayLength n s "CvI32 i"] run ty
    by (auto simp: length_denotes_def)
  then have "rbind res (\<lambda>v. length_value v n s) = Ok i \<longleftrightarrow> length_denotes definitions declarations r n i" for i
    by (simp add: rbind_eq_Ok length_value_Ok)
  moreover have "length_evaluate lv n s = Some (rbind res (\<lambda>v. length_value v n s), lv\<lparr>lv_cache := c'\<rparr>)"
    using Inr run ok by (simp add: length_evaluate_def returned_def length_evaluator_ok_def)
  ultimately show ?thesis using ok c' by (simp add: length_evaluator_ok_def)
qed

lemma positive_array_length_Ok: "positive_array_length v s = Ok n \<longleftrightarrow> 0 < v \<and> v \<le> i32_max \<and> n = nat v"
  by (auto simp: positive_array_length_def)

lemma sint_i32_max: "sint (i :: i32) \<le> i32_max"
  using sint_lt [of i] by (simp add: i32_max_def)

lemma declared_length_spec:
  assumes "length_evaluator_ok definitions declarations r lv"
  shows "\<exists>res lv'. declared_length len lv = Some (res, lv') \<and> length_evaluator_ok definitions declarations r lv' \<and>
    (case res of Ok l \<Rightarrow> l = length_meaning definitions declarations r len
     | Err d \<Rightarrow> length_meaning definitions declarations r len = AlInvalid)"
proof (cases len)
  case (AlLiteral v s)
  then show ?thesis
    using assms by (auto simp: declared_length_def positive_array_length_def length_meaning_def)
next
  case (AlConstant n s)
  obtain res lv' where run: "length_evaluate lv n s = Some (res, lv')" "length_evaluator_ok definitions declarations r lv'"
    and res: "\<forall>i. res = Ok i \<longleftrightarrow> length_denotes definitions declarations r n i"
    using length_evaluate_spec [OF assms] by blast
  show ?thesis
  proof (cases res)
    case (Inl d)
    then have "length_meaning definitions declarations r len = AlInvalid"
      using res AlConstant by (simp add: length_meaning_undefined)
    then show ?thesis using run AlConstant Inl by (simp add: declared_length_def)
  next
    case (Inr i)
    then have "length_meaning definitions declarations r len = (if 0 < sint i then AlResolved (nat (sint i)) else AlInvalid)"
      using res AlConstant length_meaning_constant by simp
    then show ?thesis
      using run AlConstant Inr sint_i32_max [of i]
      by (auto simp: declared_length_def positive_array_length_def)
  qed
qed (use assms in \<open>simp_all add: declared_length_def length_meaning_def\<close>)

text \<open>A constant fails only together with the request that needs it.\<close>

lemma sched_loop_failures:
  assumes "sched_loop definitions phase initialize initializer name sc = Some r" and "r = Some (c, Ok v)"
  shows "cv_failures c = cv_failures (sc_cache sc)"
proof -
  have "\<forall>c v. r = Some (c, Ok v) \<longrightarrow> cv_failures c = cv_failures (sc_cache sc)"
  proof (rule sched_loop.raw_induct [OF _ assms(1),
        where P = "\<lambda>definitions phase initialize initializer name sc r.
          \<forall>c v. r = Some (c, Ok v) \<longrightarrow> cv_failures c = cv_failures (sc_cache sc)"])
    fix loop definitions phase initialize initializer name sc r
    assume ih: "\<And>d p i j n s y. loop d p i j n s = Some y \<Longrightarrow>
        \<forall>c v. y = Some (c, Ok v) \<longrightarrow> cv_failures c = cv_failures (sc_cache s)"
      and step: "(case sched_step definitions phase initialize initializer name sc of
          Inl r \<Rightarrow> Some r | Inr sc' \<Rightarrow> loop definitions phase initialize initializer name sc') = Some r"
    show "\<forall>c v. r = Some (c, Ok v) \<longrightarrow> cv_failures c = cv_failures (sc_cache sc)"
      using step ih
      by (fastforce simp: sched_step_def fail_pending_def insert_value_def Let_def map_option_case
          split: sum.splits list.splits prod.splits option.splits evaluation_error.splits if_splits)
  qed
  then show ?thesis using assms(2) by blast
qed

lemma schedule_failures:
  "schedule definitions phase initialize initializer name s cache = Some (Some (c, Ok v)) \<Longrightarrow> cv_failures c = cv_failures cache"
  by (auto simp: schedule_def dest: sched_loop_failures split: sum.splits evaluation_error.splits)

lemma declared_length_failures:
  "declared_length len lv = Some (Ok l, lv') \<Longrightarrow> cv_failures (lv_cache lv') = cv_failures (lv_cache lv)"
  by (auto simp: declared_length_def length_evaluate_def rbind_eq_Ok returned_def dest!: schedule_failures
      split: array_length.splits sum.splits option.splits)

section \<open>Threading the evaluator through the program\<close>

definition resolves ::
  "(string, constant_definition) hash_map \<Rightarrow> (string, struct_decl) hash_map \<Rightarrow> resolution \<Rightarrow>
   (resolver \<Rightarrow> ('a \<times> resolver) option) \<Rightarrow> 'a \<Rightarrow> bool \<Rightarrow> bool" where
  "resolves definitions declarations r f y bad \<longleftrightarrow>
     (\<forall>lv ds. length_evaluator_ok definitions declarations r lv \<longrightarrow>
        (\<exists>lv' ds'. f (lv, ds) = Some (y, lv', ds') \<and> length_evaluator_ok definitions declarations r lv' \<and>
           set ds \<subseteq> set ds' \<and> (bad \<longrightarrow> ds' \<noteq> []) \<and>
           (ds' = [] \<longrightarrow> cv_failures (lv_cache lv') = cv_failures (lv_cache lv))))"

lemma resolves_pure [intro]: "resolves D S r (\<lambda>st. Some (y, st)) y False"
  by (auto simp: resolves_def)

lemma resolves_bind:
  assumes "resolves D S r f y bad" and "resolves D S r (g y) z bad'" and "b \<longrightarrow> bad \<or> bad'"
  shows "resolves D S r (\<lambda>st. Option.bind (f st) (\<lambda>(x, st'). g x st')) z b"
  unfolding resolves_def
proof (intro allI impI)
  fix lv ds
  assume "length_evaluator_ok D S r lv"
  then obtain lv1 ds1 where f: "f (lv, ds) = Some (y, lv1, ds1)" "length_evaluator_ok D S r lv1"
    "set ds \<subseteq> set ds1" "bad \<longrightarrow> ds1 \<noteq> []" "ds1 = [] \<longrightarrow> cv_failures (lv_cache lv1) = cv_failures (lv_cache lv)"
    using assms(1) unfolding resolves_def by blast
  then obtain lv2 ds2 where "g y (lv1, ds1) = Some (z, lv2, ds2)" "length_evaluator_ok D S r lv2"
    "set ds1 \<subseteq> set ds2" "bad' \<longrightarrow> ds2 \<noteq> []" "ds2 = [] \<longrightarrow> cv_failures (lv_cache lv2) = cv_failures (lv_cache lv1)"
    using assms(2) unfolding resolves_def by blast
  then show "\<exists>lv' ds'. Option.bind (f (lv, ds)) (\<lambda>(x, st'). g x st') = Some (z, lv', ds') \<and>
      length_evaluator_ok D S r lv' \<and> set ds \<subseteq> set ds' \<and> (b \<longrightarrow> ds' \<noteq> []) \<and>
      (ds' = [] \<longrightarrow> cv_failures (lv_cache lv') = cv_failures (lv_cache lv))"
    using f assms(3) by fastforce
qed

text \<open>The last step of an operation only builds its result.\<close>

lemma resolves_return:
  "resolves D S r f y bad \<Longrightarrow> resolves D S r (\<lambda>st. Option.bind (f st) (\<lambda>(x, st'). Some (g x, st'))) (g y) bad"
  by (rule resolves_bind [where g = "\<lambda>x st. Some (g x, st)"]) auto

lemma resolves_each:
  "(\<And>x. x \<in> set xs \<Longrightarrow> resolves D S r (f x) (g x) (bad x)) \<Longrightarrow>
   resolves D S r (rewrite_each f xs) (map g xs) (\<exists>x \<in> set xs. bad x)"
proof (induction xs)
  case (Cons x xs)
  let ?rest = "\<lambda>x' st. Option.bind (rewrite_each f xs st) (\<lambda>(xs', st'). Some (x' # xs', st'))"
  have "resolves D S r (f x) (g x) (bad x)" using Cons.prems by simp
  moreover have "resolves D S r (?rest (g x)) (g x # map g xs) (\<exists>x \<in> set xs. bad x)"
    using Cons by (intro resolves_return) auto
  ultimately have "resolves D S r (\<lambda>st. Option.bind (f x st) (\<lambda>(x', st'). ?rest x' st'))
      (g x # map g xs) (\<exists>x \<in> set (x # xs). bad x)"
    by (rule resolves_bind) auto
  then show ?case by simp
qed (auto simp: resolves_def)

lemma resolves_type:
  "resolves D S r (resolve_value_type ty) (retype (length_meaning D S r) ty) (type_fails (length_meaning D S r) ty)"
proof (induction ty)
  case (VtArray element len)
  let ?m = "length_meaning D S r"
  show ?case
    unfolding resolves_def
  proof (intro allI impI)
    fix lv ds
    assume "length_evaluator_ok D S r lv"
    then obtain lv1 ds1 where element: "resolve_value_type element (lv, ds) = Some (retype ?m element, lv1, ds1)"
      "length_evaluator_ok D S r lv1" "set ds \<subseteq> set ds1" "type_fails ?m element \<longrightarrow> ds1 \<noteq> []"
      "ds1 = [] \<longrightarrow> cv_failures (lv_cache lv1) = cv_failures (lv_cache lv)"
      using VtArray unfolding resolves_def by blast
    obtain res lv2 where len: "declared_length len lv1 = Some (res, lv2)" "length_evaluator_ok D S r lv2"
      "case res of Ok l \<Rightarrow> l = ?m len | Err d \<Rightarrow> ?m len = AlInvalid"
      using declared_length_spec [OF element(2)] by blast
    have fails: "?m len = AlInvalid \<Longrightarrow> res = Ok l \<Longrightarrow> len = AlInvalid" for l
      using len(1,3)
      by (cases len) (auto simp: declared_length_def rbind_eq_Ok split: if_splits option.splits)
    show "\<exists>lv' ds'. resolve_value_type (VtArray element len) (lv, ds) = Some (retype ?m (VtArray element len), lv', ds') \<and>
        length_evaluator_ok D S r lv' \<and> set ds \<subseteq> set ds' \<and> (type_fails ?m (VtArray element len) \<longrightarrow> ds' \<noteq> []) \<and>
        (ds' = [] \<longrightarrow> cv_failures (lv_cache lv') = cv_failures (lv_cache lv))"
    proof (cases res)
      case (Inl d)
      then show ?thesis using element len by (auto simp: push_unique_diagnostic_def)
    next
      case (Inr l)
      then have "type_fails ?m (VtArray element len) \<longrightarrow> type_fails ?m element"
        using fails by (auto simp: type_fails_def)
      then show ?thesis using element len Inr declared_length_failures [of len lv1 l lv2] by auto
    qed
  qed
qed (auto simp: resolves_def type_fails_def)

lemma resolves_type_step:
  "resolves D S r (\<lambda>st. Option.bind (resolve_value_type ty st) (\<lambda>(ty', st'). Some (g ty', st')))
     (g (retype (length_meaning D S r) ty)) (type_fails (length_meaning D S r) ty)"
  by (rule resolves_return [OF resolves_type])

lemma resolves_stmt:
  "resolves D S r (resolve_stmt_types stmt) (retype_stmt (length_meaning D S r) stmt)
     (\<exists>ty \<in> set (stmt_types stmt). type_fails (length_meaning D S r) ty)"
  and resolves_block:
  "resolves D S r (resolve_block_types body) (retype_block (length_meaning D S r) body)
     (\<exists>ty \<in> set (block_types body). type_fails (length_meaning D S r) ty)"
proof (induction stmt and body rule: stmt_types_block_types.induct)
  case (1 n ty e s)
  then show ?case using resolves_type_step [of D S r ty "\<lambda>ty. Stmt (StLet n ty e) s"] by simp
next
  case (2 c then_block else_block s)
  let ?else = "\<lambda>then_block st. Option.bind (resolve_block_types else_block st) (\<lambda>(else_block, st').
      Some (Stmt (StIf c then_block (Some else_block)) s, st'))"
  have "resolves D S r (\<lambda>st. Option.bind (resolve_block_types then_block st) (\<lambda>(x, st'). ?else x st'))
      (retype_stmt (length_meaning D S r) (Stmt (StIf c then_block (Some else_block)) s))
      (\<exists>ty \<in> set (stmt_types (Stmt (StIf c then_block (Some else_block)) s)). type_fails (length_meaning D S r) ty)"
    by (rule resolves_bind [OF 2(1)]) (use 2(2) in \<open>auto intro!: resolves_return\<close>)
  then show ?case by simp
next
  case (3 c then_block s)
  show ?case using resolves_return [OF 3, of "\<lambda>b. Stmt (StIf c b None) s"] by simp
next
  case (4 c body s)
  show ?case using resolves_return [OF 4, of "\<lambda>b. Stmt (StWhile c b) s"] by simp
next
  case (5 n ns lo hi body s)
  show ?case using resolves_return [OF 5, of "\<lambda>b. Stmt (StFor n ns lo hi b) s"] by simp
next
  case (8 stmt stmts)
  let ?rest = "\<lambda>stmt' st. Option.bind (resolve_block_types stmts st) (\<lambda>(stmts', st'). Some (stmt' # stmts', st'))"
  have "resolves D S r (\<lambda>st. Option.bind (resolve_stmt_types stmt st) (\<lambda>(x, st'). ?rest x st'))
      (retype_block (length_meaning D S r) (stmt # stmts))
      (\<exists>ty \<in> set (block_types (stmt # stmts)). type_fails (length_meaning D S r) ty)"
    by (rule resolves_bind [OF 8(1)]) (use 8(2) in \<open>auto intro!: resolves_return\<close>)
  then show ?case by simp
qed (auto simp: resolves_def)

lemma resolves_field:
  "resolves D S r (resolve_field f) (f\<lparr>field_ty := retype (length_meaning D S r) (field_ty f)\<rparr>)
     (type_fails (length_meaning D S r) (field_ty f))"
  unfolding resolve_field_def by (rule resolves_type_step)

lemma resolves_struct:
  "resolves D S r (resolve_struct d) (retype_struct (length_meaning D S r) d)
     (\<exists>f \<in> set (struct_fields d). type_fails (length_meaning D S r) (field_ty f))"
  unfolding resolve_struct_def retype_struct_def by (rule resolves_return [OF resolves_each [OF resolves_field]])

lemma resolves_constant_decl:
  "resolves D S r (resolve_constant_decl c) (c\<lparr>constant_ty := retype (length_meaning D S r) (constant_ty c)\<rparr>)
     (type_fails (length_meaning D S r) (constant_ty c))"
  unfolding resolve_constant_decl_def by (rule resolves_type_step)

lemma resolves_global_decl:
  "resolves D S r (resolve_global_decl g) (g\<lparr>global_ty := retype (length_meaning D S r) (global_ty g)\<rparr>)
     (type_fails (length_meaning D S r) (global_ty g))"
  unfolding resolve_global_decl_def by (rule resolves_type_step)

lemma resolves_param:
  "resolves D S r (resolve_param p) (p\<lparr>param_ty := retype (length_meaning D S r) (param_ty p)\<rparr>)
     (type_fails (length_meaning D S r) (param_ty p))"
  unfolding resolve_param_def by (rule resolves_type_step)

lemma resolves_return_type:
  "resolves D S r (resolve_return_type t) (retype_return (length_meaning D S r) t)
     (\<exists>ty. t = RtValue ty \<and> type_fails (length_meaning D S r) ty)"
proof (cases t)
  case (RtValue ty)
  then show ?thesis
    using resolves_type_step [of D S r ty RtValue] by (simp add: resolve_return_type_def [abs_def] retype_return_def)
qed (auto simp: resolves_def resolve_return_type_def retype_return_def)

lemma resolves_function:
  "resolves D S r (resolve_function f) (retype_function (length_meaning D S r) f)
     (\<exists>ty \<in> set (function_types f). type_fails (length_meaning D S r) ty)"
proof -
  let ?m = "length_meaning D S r"
  let ?body = "\<lambda>ps t st. Option.bind (resolve_block_types (function_body f) st) (\<lambda>(body, st').
      Some (f\<lparr>function_params := ps, function_return_type := t, function_body := body\<rparr>, st'))"
  let ?return = "\<lambda>ps st. Option.bind (resolve_return_type (function_return_type f) st) (\<lambda>(t, st'). ?body ps t st')"
  have body: "resolves D S r (?body ps t) (f\<lparr>function_params := ps, function_return_type := t,
      function_body := retype_block ?m (function_body f)\<rparr>)
      (\<exists>ty \<in> set (block_types (function_body f)). type_fails ?m ty)" for ps t
    by (rule resolves_return [OF resolves_block])
  have return: "resolves D S r (?return ps) (f\<lparr>function_params := ps,
      function_return_type := retype_return ?m (function_return_type f),
      function_body := retype_block ?m (function_body f)\<rparr>)
      ((\<exists>ty. function_return_type f = RtValue ty \<and> type_fails ?m ty) \<or>
       (\<exists>ty \<in> set (block_types (function_body f)). type_fails ?m ty))" for ps
    by (rule resolves_bind [OF resolves_return_type body]) simp
  have "resolves D S r (\<lambda>st. Option.bind (rewrite_each resolve_param (function_params f) st) (\<lambda>(ps, st'). ?return ps st'))
      (retype_function ?m f) (\<exists>ty \<in> set (function_types f). type_fails ?m ty)"
    unfolding retype_function_def
    by (rule resolves_bind [OF resolves_each [OF resolves_param] return])
       (auto simp: function_types_def split: return_type.splits)
  then show ?thesis by (simp add: resolve_function_def [abs_def])
qed

lemma resolves_declarations:
  "resolves D S r (resolve_declarations p) (retype_program (length_meaning D S r) p)
     (\<exists>ty \<in> set (program_types p). type_fails (length_meaning D S r) ty)"
proof -
  let ?m = "length_meaning D S r"
  let ?functions = "\<lambda>ss cs gs st. Option.bind (rewrite_each resolve_function (program_functions p) st) (\<lambda>(fs, st').
      Some (p\<lparr>program_structs := ss, program_constants := cs, program_globals := gs, program_functions := fs\<rparr>, st'))"
  let ?globals = "\<lambda>ss cs st. Option.bind (rewrite_each resolve_global_decl (program_globals p) st)
      (\<lambda>(gs, st'). ?functions ss cs gs st')"
  let ?constants = "\<lambda>ss st. Option.bind (rewrite_each resolve_constant_decl (program_constants p) st)
      (\<lambda>(cs, st'). ?globals ss cs st')"
  let ?gs = "map (\<lambda>g. g\<lparr>global_ty := retype ?m (global_ty g)\<rparr>) (program_globals p)"
    and ?cs = "map (\<lambda>c. c\<lparr>constant_ty := retype ?m (constant_ty c)\<rparr>) (program_constants p)"
    and ?fs = "map (retype_function ?m) (program_functions p)"
  let ?bad_f = "\<exists>f \<in> set (program_functions p). \<exists>ty \<in> set (function_types f). type_fails ?m ty"
    and ?bad_g = "\<exists>g \<in> set (program_globals p). type_fails ?m (global_ty g)"
    and ?bad_c = "\<exists>c \<in> set (program_constants p). type_fails ?m (constant_ty c)"
  have fs_ok: "resolves D S r (?functions ss cs gs)
      (p\<lparr>program_structs := ss, program_constants := cs, program_globals := gs, program_functions := ?fs\<rparr>) ?bad_f"
    for ss cs gs
    by (rule resolves_return [OF resolves_each [OF resolves_function]])
  have gs_ok: "resolves D S r (?globals ss cs)
      (p\<lparr>program_structs := ss, program_constants := cs, program_globals := ?gs, program_functions := ?fs\<rparr>)
      (?bad_g \<or> ?bad_f)" for ss cs
    by (rule resolves_bind [OF resolves_each [OF resolves_global_decl] fs_ok]) simp
  have cs_ok: "resolves D S r (?constants ss)
      (p\<lparr>program_structs := ss, program_constants := ?cs, program_globals := ?gs, program_functions := ?fs\<rparr>)
      (?bad_c \<or> ?bad_g \<or> ?bad_f)" for ss
    by (rule resolves_bind [OF resolves_each [OF resolves_constant_decl] gs_ok]) simp
  have "resolves D S r (\<lambda>st. Option.bind (rewrite_each resolve_struct (program_structs p) st)
      (\<lambda>(ss, st'). ?constants ss st'))
      (retype_program ?m p) (\<exists>ty \<in> set (program_types p). type_fails ?m ty)"
    unfolding retype_program_def
    by (rule resolves_bind [OF resolves_each [OF resolves_struct] cs_ok])
       (auto simp: program_types_def)
  then show ?thesis by (simp add: resolve_declarations_def [abs_def])
qed

text \<open>The meaning of the lengths of a program.\<close>

definition program_length :: "program \<Rightarrow> array_length \<Rightarrow> array_length" where
  "program_length p =
     length_meaning (lv_definitions (length_evaluator_new p)) (lv_structs (length_evaluator_new p)) (program_resolution p)"

lemma length_evaluator_new_ok:
  "length_evaluator_ok (lv_definitions (length_evaluator_new p)) (lv_structs (length_evaluator_new p))
     (program_resolution p) (length_evaluator_new p)"
proof -
  have "lv_cache (length_evaluator_new p) = cache_of (hm_collect (builtin_constants (program_resolution p)))"
    by (simp add: length_evaluator_new_def constant_values_new_def cache_of_def)
  then show ?thesis by (simp add: length_evaluator_ok_def cache_sound_new)
qed

lemma resolve_program_types_spec:
  "\<exists>ds' failed. resolve_program_types p ds = Some (retype_program (program_length p) p, ds', failed) \<and>
     set ds \<subseteq> set ds' \<and> ((\<exists>ty \<in> set (program_types p). type_fails (program_length p) ty) \<longrightarrow> ds' \<noteq> [])"
proof -
  obtain lv ds' where "resolve_declarations p (length_evaluator_new p, ds) = Some (retype_program (program_length p) p, lv, ds')"
    "set ds \<subseteq> set ds'" "(\<exists>ty \<in> set (program_types p). type_fails (program_length p) ty) \<longrightarrow> ds' \<noteq> []"
    using resolves_declarations [where p = p] length_evaluator_new_ok [of p]
    unfolding resolves_def program_length_def by blast
  then show ?thesis by (simp add: resolve_program_types_def)
qed

lemma resolve_program_types_clean:
  assumes "resolve_program_types p [] = Some (p', [], failed)"
  shows "p' = retype_program (program_length p) p" and "failed = []"
    and "\<forall>ty \<in> set (program_types p). \<not> type_fails (program_length p) ty"
proof -
  obtain lv ds' where run: "resolve_declarations p (length_evaluator_new p, []) = Some (retype_program (program_length p) p, lv, ds')"
    "(\<exists>ty \<in> set (program_types p). type_fails (program_length p) ty) \<longrightarrow> ds' \<noteq> []"
    "ds' = [] \<longrightarrow> cv_failures (lv_cache lv) = cv_failures (lv_cache (length_evaluator_new p))"
    using resolves_declarations [where p = p] length_evaluator_new_ok [of p]
    unfolding resolves_def program_length_def by blast
  moreover have "cv_failures (lv_cache (length_evaluator_new p)) = []"
    by (simp add: length_evaluator_new_def constant_values_new_def)
  ultimately show p': "p' = retype_program (program_length p) p" and "failed = []"
    using assms by (auto simp: resolve_program_types_def)
  show "\<forall>ty \<in> set (program_types p). \<not> type_fails (program_length p) ty"
    using run assms by (auto simp: resolve_program_types_def)
qed

section \<open>Lengths of the resolved program\<close>

lemma collect_lengths_retype: "collect_lengths (retype m ty) = map m (collect_lengths ty)"
  by (induction ty) auto

lemma stmt_types_retype: "stmt_types (retype_stmt m stmt) = map (retype m) (stmt_types stmt)"
  and block_types_retype: "block_types (retype_block m body) = map (retype m) (block_types body)"
  by (induction stmt and body rule: stmt_types_block_types.induct) simp_all

lemma program_types_retype: "program_types (retype_program m p) = map (retype m) (program_types p)"
proof -
  have "function_types (retype_function m f) = map (retype m) (function_types f)" for f
    by (simp add: function_types_def retype_function_def retype_return_def block_types_retype split: return_type.splits)
  then show ?thesis
    by (simp add: program_types_def retype_program_def retype_struct_def map_concat comp_def)
qed

text \<open>A length the parser writes, before resolution.\<close>

definition written_length :: "array_length \<Rightarrow> bool" where
  "written_length len \<longleftrightarrow> (case len of AlLiteral _ _ \<Rightarrow> True | AlConstant _ _ \<Rightarrow> True | _ \<Rightarrow> False)"

lemma program_length_written:
  assumes "written_length len"
  shows "program_length p len = AlInvalid \<or>
    (\<exists>k. program_length p len = AlResolved k \<and> 1 \<le> k \<and> k < 2 ^ 31)"
proof (cases len)
  case (AlLiteral v s)
  then show ?thesis by (auto simp: program_length_def length_meaning_def i32_max_def)
next
  case (AlConstant n s)
  let ?denotes = "length_denotes (lv_definitions (length_evaluator_new p)) (lv_structs (length_evaluator_new p))
      (program_resolution p) n"
  show ?thesis
  proof (cases "\<exists>i. ?denotes i")
    case True
    then obtain i where "?denotes i" by blast
    from length_meaning_constant [OF this] show ?thesis
      using AlConstant sint_i32_max [of i] by (auto simp: program_length_def i32_max_def)
  next
    case False
    then show ?thesis using AlConstant length_meaning_undefined by (simp add: program_length_def)
  qed
qed (use assms in \<open>simp_all add: written_length_def\<close>)

section \<open>Properties\<close>

text \<open>
  C29 Resolution of array lengths is total and replaces exactly the lengths: the program comes back
  with every length in every declared type turned into its meaning, a literal in range or the positive
  value its constant denotes, and invalid otherwise; nothing else of the program changes.\<close>

lemma program_types_resolved:
  "\<exists>ds' failed. resolve_program_types p ds = Some (retype_program (program_length p) p, ds', failed)"
  using resolve_program_types_spec by blast

lemma clean_length:
  assumes "\<forall>ty \<in> set (program_types p). list_all written_length (collect_lengths ty)"
    and "resolve_program_types p [] = Some (p', [], failed)"
    and "ty \<in> set (program_types p')" and "len \<in> set (collect_lengths ty)"
  shows "\<exists>k. len = AlResolved k \<and> 1 \<le> k \<and> k < 2 ^ 31"
proof -
  note p' = resolve_program_types_clean(1) [OF assms(2)] and clean = resolve_program_types_clean(3) [OF assms(2)]
  obtain old where old: "old \<in> set (program_types p)" "ty = retype (program_length p) old"
    using assms(3) p' by (auto simp: program_types_retype)
  obtain old_len where l: "old_len \<in> set (collect_lengths old)" "len = program_length p old_len"
    using assms(4) old(2) by (auto simp: collect_lengths_retype)
  have "written_length old_len" using assms(1) old(1) l(1) by (auto simp: list_all_iff)
  moreover from this have "old_len \<noteq> AlInvalid" by (auto simp: written_length_def)
  then have "len \<noteq> AlInvalid"
    using clean old(1) l by (auto simp: type_fails_def)
  ultimately show ?thesis using program_length_written l(2) by blast
qed

lemma has_invalid_array_length_iff: "has_invalid_array_length ty \<longleftrightarrow> AlInvalid \<in> set (collect_lengths ty)"
  by (induction ty) auto

lemma clean_type_valid:
  assumes "\<forall>ty \<in> set (program_types p). list_all written_length (collect_lengths ty)"
    and "resolve_program_types p [] = Some (p', [], failed)" and "ty \<in> set (program_types p')"
  shows "\<not> has_invalid_array_length ty"
  using clean_length [OF assms] unfolding has_invalid_array_length_iff by blast

text \<open>
  C30 If resolution reports nothing, every length written in the program has become a number that is
  at least 1 and fits an i32 index.\<close>

lemma clean_lengths_in_range:
  assumes "\<forall>ty \<in> set (program_types p). list_all written_length (collect_lengths ty)"
    and "resolve_program_types p [] = Some (p', [], failed)"
    and "ty \<in> set (program_types p')" and "len \<in> set (collect_lengths ty)"
  shows "\<exists>k. len = AlResolved k \<and> 1 \<le> k \<and> k < 2 ^ 31"
  using assms by (rule clean_length)

definition sample_array_program :: program where
  "sample_array_program =
     \<lparr>program_resolution = resolution_default, program_title = [], program_title_span = span_default,
      program_structs = [], program_sounds = [], program_constants = [],
      program_globals = [\<lparr>global_name = ''a'', global_ty = VtArray VtI32 (AlLiteral 3 span_default),
        global_init = Expr (ExI32 0) span_default, global_val = None, global_span = span_default\<rparr>],
      program_functions = []\<rparr>"

lemma clean_lengths_in_range_witness: "\<exists>k. AlResolved 3 = AlResolved k \<and> 1 \<le> k \<and> k < (2 :: nat) ^ 31"
proof -
  have types: "program_types sample_array_program = [VtArray VtI32 (AlLiteral 3 span_default)]"
    by (simp add: sample_array_program_def program_types_def)
  obtain p' failed where run: "resolve_program_types sample_array_program [] = Some (p', [], failed)"
    and "program_types p' = [VtArray VtI32 (AlResolved 3)]"
    by (simp add: resolve_program_types_def resolve_declarations_def sample_array_program_def resolve_global_decl_def
        declared_length_def positive_array_length_def i32_max_def program_types_def)
  then show ?thesis
    by (intro clean_lengths_in_range [OF _ run, of "VtArray VtI32 (AlResolved 3)"])
       (simp_all add: types written_length_def)
qed

end
