(* ===== verification/Sema_Total.thy ===== *)
theory Sema_Total
  imports Sema Checker_Correct Struct_Types_Correct Program_Types_Correct
begin

text \<open>
  Semantic analysis returns on every program, without a panic: every loop ends, every search stays
  in its graph, and only declared constants are requested.
\<close>

section \<open>Checks that return a value with a property\<close>

definition yields :: "'a chk \<Rightarrow> ('a \<Rightarrow> bool) \<Rightarrow> bool" where
  "yields m Q \<longleftrightarrow> (\<exists>a ds. m = Some (a, ds) \<and> Q a)"

lemma yields_cret [simp]: "yields (cret a) Q \<longleftrightarrow> Q a"
  by (simp add: yields_def cret_def)

lemma yields_cbind: "yields (cbind m f) Q \<longleftrightarrow> yields m (\<lambda>a. yields (f a) Q)"
  by (auto simp: yields_def cbind_def split: option.splits)

lemma yields_returns: "returns m \<longleftrightarrow> yields m (\<lambda>_. True)"
  by (cases m) (auto simp: returns_def yields_def)

lemma yields_mono: "yields m P \<Longrightarrow> (\<And>a. P a \<Longrightarrow> Q a) \<Longrightarrow> yields m Q"
  by (auto simp: yields_def)

lemma yields_const: "returns m \<Longrightarrow> Q \<Longrightarrow> yields m (\<lambda>_. Q)"
  by (auto simp: yields_returns intro: yields_mono)

lemma yields_then: "returns m \<Longrightarrow> (\<And>a. yields (f a) Q) \<Longrightarrow> yields (cbind m f) Q"
  by (auto simp: yields_cbind yields_returns intro: yields_mono)

lemma yields_ceach:
  assumes "Q st" and "\<And>x st. x \<in> set xs \<Longrightarrow> Q st \<Longrightarrow> yields (f x st) Q"
  shows "yields (ceach f xs st) Q"
  using assms
proof (induction xs arbitrary: st)
  case (Cons x xs)
  then show ?case by (auto simp: yields_cbind intro: yields_mono)
qed simp

lemma returns_ceach: "(\<And>x st. x \<in> set xs \<Longrightarrow> returns (f x st)) \<Longrightarrow> returns (ceach f xs st)"
  unfolding yields_returns by (rule yields_ceach) auto

lemma returns_on_each: "(\<And>x. x \<in> set xs \<Longrightarrow> returns (f x)) \<Longrightarrow> returns (on_each f xs)"
  by (simp add: on_each_def returns_ceach)

lemma returns_cfilter: "(\<And>x. returns (f x)) \<Longrightarrow> returns (cfilter f xs)"
  by (induction xs) auto

section \<open>Declarations\<close>

lemma returns_conflict [simp]: "returns (conflict what n s names)"
  by (simp add: conflict_def split: option.split)

lemma returns_check_field_names [simp]: "returns (check_field_names name seen fs)"
  by (induction fs arbitrary: seen) auto

lemma declare_struct_named:
  assumes "named_structs (fst st)"
  shows "yields (declare_struct d st) (\<lambda>st'. named_structs (fst st'))"
proof -
  have "named_structs (hm_insert (struct_decl_name d) d (fst st))"
    using assms by (simp add: named_structs_def)
  then show ?thesis by (auto simp: declare_struct_def Let_def split_beta intro!: yields_then)
qed

lemma returns_declare [simp]:
  "returns (declare_constant c st)" "returns (declare_global g st)" "returns (declare_function f fst3)"
  by (auto simp: declare_constant_def declare_global_def declare_function_def Let_def split_beta)

lemma returns_check_entry_points [simp]: "returns (check_entry_points s counts entries)"
  by (induction s counts entries rule: check_entry_points.induct) (auto split: nat.split)

lemma returns_validate_known_type [simp]: "returns (validate_known_type structs s ty)"
  by (induction structs s ty rule: validate_known_type.induct) auto

lemma returns_validate_types [simp]:
  "returns (validate_stmt_types structs stmt)"
  "returns (validate_block_types structs stmts)"
  by (induction structs stmt and structs stmts rule: validate_stmt_types_validate_block_types.induct)
     (auto split: option.split)

lemma returns_validate_declared_types [simp]: "returns (validate_declared_types p structs)"
  unfolding validate_declared_types_def validate_function_types_def
  by (intro returns_cbind returns_on_each) (auto split: return_type.split)

lemma returns_declare_types: "returns (declare_types p)"
proof -
  have "returns (struct_type_analysis_new structs [])" if "named_structs structs" for structs
    using struct_analysis_total [OF that] by (auto simp: returns_def)
  then have "returns (cbind (validate_declared_types p structs) (\<lambda>_. cbind (struct_type_analysis_new structs [])
      (\<lambda>invalid. cret (structs, invalid, names))))" if "named_structs structs" for structs names
    using that by auto
  moreover have named: "yields (ceach declare_struct (program_structs p) ([], predefined_names (program_resolution p)))
      (\<lambda>st. named_structs (fst st))"
    by (rule yields_ceach) (simp add: named_structs_def, rule declare_struct_named)
  ultimately show ?thesis
    unfolding declare_types_def yields_returns yields_cbind [of "ceach declare_struct _ _"]
    by (intro yields_mono [OF named]) auto
qed

lemma returns_structure [simp]:
  "returns (validate_compile_time_structure globals what e)"
  "returns (validate_all_structure globals what es)"
  "returns (validate_field_structure globals what inits)"
  by (induction globals what e and globals what es and globals what inits
        rule: validate_compile_time_structure_validate_all_structure_validate_field_structure.induct)
     (auto simp: cand_def)

lemma returns_invalid [simp]:
  "returns (invalid_constants globals invalid failed constants)" "returns (invalid_globals globals invalid gs)"
  unfolding invalid_constants_def invalid_globals_def
  by (auto intro!: returns_cfilter)

lemma returns_declare_all: "returns (declare_all p failed)"
  unfolding declare_all_def declare_values_def declare_functions_def by (auto simp del: check_entry_points.simps intro!: returns_declare_types returns_ceach)

section \<open>Initializers and functions\<close>

lemma returns_check_initializer [simp]: "returns (check_initializer ck what n ty init)"
  unfolding check_initializer_def by (intro returns_cbind returns_infer returns_parts)

lemma returns_check_initializers_of: "returns (check_initializers_of p env)"
  unfolding check_initializers_of_def Let_def by (auto intro!: returns_on_each)

lemma evaluate_constant_sound:
  assumes "evaluator_sound r ce \<and> ce_definitions ce = definitions" and "hm_contains definitions (constant_name c)"
  shows "yields (evaluate_constant invalid c ce) (\<lambda>ce'. evaluator_sound r ce' \<and> ce_definitions ce' = definitions)"
proof -
  obtain ce' res where run: "evaluate_named (constant_name c) ce = Some (Some (ce', res))" "evaluator_sound r ce'"
    using evaluate_named_done [of r ce "constant_name c"] assms by auto
  then have "ce_definitions ce' = definitions"
    using assms(1) by (auto simp: evaluate_named_def map_option_case split: option.splits prod.splits)
  then show ?thesis
    using run assms(1) by (cases res) (auto simp: evaluate_constant_def Let_def returned_def yields_def cret_def)
qed

lemma constant_definitions_contains: "c \<in> set cs \<Longrightarrow> hm_contains (constant_definitions cs) (constant_name c)"
  by (force simp: hm_contains_keys constant_definitions_def hm_collect_def)

lemma returns_evaluate_constants: "returns (evaluate_constants p env)"
proof -
  let ?ce = "constant_evaluator_new (constant_definitions (program_constants p)) (env_globals env) (env_structs env)
    (env_invalid_constants env) (program_resolution p)"
  have "evaluator_sound (program_resolution p) ?ce \<and> ce_definitions ?ce = constant_definitions (program_constants p)"
    using evaluator_sound_new by (simp add: constant_evaluator_new_def [symmetric])  (simp add: constant_evaluator_new_def)
  then have "yields (ceach (evaluate_constant (env_invalid_constants env)) (program_constants p) ?ce)
      (\<lambda>ce. evaluator_sound (program_resolution p) ce \<and> ce_definitions ce = constant_definitions (program_constants p))"
    by (rule yields_ceach) (blast intro: evaluate_constant_sound constant_definitions_contains)
  then show ?thesis
    unfolding evaluate_constants_def yields_returns yields_cbind by (rule yields_mono) simp
qed

lemma evaluate_initializer_eval:
  "evaluate_initializer e ty evaluated globals structs =
     Some (case eval (\<lambda>d. d) structs (initializer_lookup evaluated globals) (Some ty) e of Inl d \<Rightarrow> Err (message d) | Inr v \<Rightarrow> Ok v)"
  using resume_evaluation_new [of "\<lambda>d. d" structs "initializer_lookup evaluated globals" e "Some ty"]
  by (auto simp: evaluate_initializer_def)

lemma returns_evaluate_globals: "returns (evaluate_globals p env evaluated)"
  unfolding evaluate_globals_def
  by (rule returns_ceach) (auto simp: evaluate_global_def evaluate_initializer_eval split: sum.split)

lemma returns_check_functions: "returns (check_functions p env evaluated)"
  unfolding check_functions_def check_update_params_def
  by (auto intro!: returns_on_each check_function_returns)

section \<open>Programs\<close>

lemma returns_analyse: "returns (analyse p)"
proof -
  obtain p' ds failed where "resolve_program_types p [] = Some (p', ds, failed)"
    using resolve_program_types_spec by blast
  then have "returns (map_option (\<lambda>(p', ds, failed). ((p', failed), ds)) (resolve_program_types p []))"
    by (simp add: returns_def)
  then show ?thesis
    unfolding analyse_def Let_def
    by (auto intro!: returns_declare_all returns_check_initializers_of returns_evaluate_constants returns_evaluate_globals
        returns_check_functions)
qed

lemma check_program_returns:
  "\<exists>p' r. check_program p = Some (p', r) \<and> (r = Ok () \<or> (\<exists>ds. r = Err ds \<and> ds \<noteq> []))"
proof -
  obtain p' ds where "analyse p = Some (p', ds)" using returns_analyse [of p] by (auto simp: returns_def)
  then show ?thesis by (cases "deduplicate_diagnostics ds") (auto simp: check_program_def Let_def)
qed

text \<open>
  C37 Semantic analysis is total: on every program it returns, without a panic, the program with what it has
  resolved and evaluated, and either accepts it or reports a diagnostic.
\<close>

theorem check_program_total:
  "\<exists>p' r. check_program p = Some (p', r) \<and> (r = Ok () \<or> (\<exists>ds. r = Err ds \<and> ds \<noteq> []))"
  by (rule check_program_returns)

end
