(* ===== verification/Sema_Accepts.thy ===== *)
theory Sema_Accepts
  imports Sema_Total
begin

text \<open>
  The declarations of an accepted program: what each part of \<^verbatim>\<open>Sema\<close> checks when it reports
  nothing, and the environment it builds.
\<close>

section \<open>Loops that report nothing\<close>

lemma silent_mono: "silent m P \<Longrightarrow> (\<And>a. P a \<Longrightarrow> Q a) \<Longrightarrow> silent m Q"
  by (auto simp: silent_def)

lemma silent_on_each:
  assumes "\<And>x P. x \<in> set xs \<Longrightarrow> silent (f x) P \<longleftrightarrow> ok x \<and> P ()"
  shows "silent (on_each f xs) P \<longleftrightarrow> (\<forall>x \<in> set xs. ok x) \<and> P ()"
  using assms unfolding on_each_def
proof (induction xs)
  case (Cons x xs)
  have "silent (ceach (\<lambda>x _. f x) (x # xs) ()) P \<longleftrightarrow> silent (f x) (\<lambda>_. silent (ceach (\<lambda>x _. f x) xs ()) P)"
    by (simp add: silent_cbind)
  also have "\<dots> \<longleftrightarrow> ok x \<and> (\<forall>x \<in> set xs. ok x) \<and> P ()" using Cons by simp
  finally show ?case by simp
qed (simp add: silent_cret)

lemma silent_cfilter:
  assumes "\<And>x P. x \<in> set xs \<Longrightarrow> silent (f x) P \<longleftrightarrow> ok x \<and> P (b x)"
  shows "silent (cfilter f xs) P \<longleftrightarrow> (\<forall>x \<in> set xs. ok x) \<and> P (filter b xs)"
  using assms
proof (induction xs arbitrary: P)
  case (Cons x xs)
  have "silent (cfilter f (x # xs)) P \<longleftrightarrow>
      silent (f x) (\<lambda>c. silent (cfilter f xs) (\<lambda>ys. P (if c then x # ys else ys)))"
    by (simp add: silent_cbind silent_cret)
  also have "\<dots> \<longleftrightarrow> ok x \<and> (\<forall>x \<in> set xs. ok x) \<and> P (if b x then x # filter b xs else filter b xs)"
    using Cons by simp
  finally show ?case by simp
qed (simp add: silent_cret)

text \<open>Entering declarations one by one collects them on top of the map there was.\<close>

lemma hm_collect_Cons: "hm_collect (kv # kvs) @ m = hm_collect kvs @ hm_insert (fst kv) (snd kv) m"
  by (simp add: hm_collect_def hm_insert_def)

lemma hm_get_above: "hm_get (hm_collect kvs @ m) n = (if n \<in> fst ` set kvs then hm_get (hm_collect kvs) n else hm_get m n)"
  by (auto simp: hm_get_def hm_collect_def map_add_def map_of_eq_None_iff split: option.splits)
     (metis image_eqI fst_conv map_of_SomeD set_rev)

lemma hm_contains_above: "hm_contains (hm_collect kvs @ m) n \<longleftrightarrow> n \<in> fst ` set kvs \<or> hm_contains m n"
  by (auto simp: hm_contains_keys hm_collect_def)

lemma hm_get_collect:
  assumes "distinct (map f xs)"
  shows "hm_get (hm_collect (map (\<lambda>x. (f x, g x)) xs)) n = Some v \<longleftrightarrow> (\<exists>x \<in> set xs. f x = n \<and> g x = v)"
proof -
  have "distinct (map fst (rev (map (\<lambda>x. (f x, g x)) xs)))" using assms by (simp add: rev_map [symmetric] comp_def)
  then show ?thesis by (auto simp: hm_get_def hm_collect_def map_of_eq_Some_iff)
qed

lemma silent_conflict [silent_simps]: "silent (conflict what n s names) P \<longleftrightarrow> hm_get names n = None \<and> P ()"
  by (auto simp: conflict_def silent_simps split: option.split)

lemma silent_check_field_names:
  "silent (check_field_names name seen fs) P \<longleftrightarrow>
     distinct (map field_name fs) \<and> set seen \<inter> field_name ` set fs = {} \<and> P ()"
  by (induction fs arbitrary: seen) (auto simp: silent_simps)

text \<open>A kind of declarations that enters its names and its entries.\<close>

abbreviation above :: "('k \<times> 'v) list \<Rightarrow> ('k, 'v) hash_map \<Rightarrow> ('k, 'v) hash_map" where
  "above kvs m \<equiv> hm_collect kvs @ m"

abbreviation fresh_names :: "('a \<Rightarrow> string) \<Rightarrow> 'a list \<Rightarrow> top_level_names \<Rightarrow> bool" where
  "fresh_names f xs names \<equiv> distinct (map f xs) \<and> (\<forall>x \<in> set xs. hm_get names (f x) = None)"

lemma silent_declare_structs:
  "silent (ceach declare_struct ds (structs, names)) P \<longleftrightarrow>
     fresh_names struct_decl_name ds names \<and>
     (\<forall>d \<in> set ds. \<not> hm_contains structs (struct_decl_name d) \<and> distinct (map field_name (struct_fields d))) \<and>
     P (above (map (\<lambda>d. (struct_decl_name d, d)) ds) structs, above (map (\<lambda>d. (struct_decl_name d, ''struct'')) ds) names)"
proof (induction ds arbitrary: structs names)
  case (Cons d ds)
  have "silent (declare_struct d (structs, names)) Q \<longleftrightarrow>
      \<not> hm_contains structs (struct_decl_name d) \<and> hm_get names (struct_decl_name d) = None \<and>
      distinct (map field_name (struct_fields d)) \<and>
      Q (hm_insert (struct_decl_name d) d structs, hm_insert (struct_decl_name d) ''struct'' names)" for Q
    by (auto simp: declare_struct_def Let_def silent_simps silent_check_field_names)
  then show ?case
    by (simp add: silent_cbind Cons.IH hm_collect_Cons) (auto simp: image_iff)
qed (simp add: silent_cret hm_collect_def)

lemma silent_declare_constants:
  "silent (ceach declare_constant cs (constants, names)) P \<longleftrightarrow>
     fresh_names constant_name cs names \<and>
     (\<forall>c \<in> set cs. \<not> is_predefined_constant (constant_name c) \<and> \<not> hm_contains constants (constant_name c)) \<and>
     P (above (map (\<lambda>c. (constant_name c, constant_ty c)) cs) constants,
        above (map (\<lambda>c. (constant_name c, ''constant'')) cs) names)"
proof (induction cs arbitrary: constants names)
  case (Cons c cs)
  have "silent (declare_constant c (constants, names)) Q \<longleftrightarrow>
      \<not> is_predefined_constant (constant_name c) \<and> \<not> hm_contains constants (constant_name c) \<and>
      hm_get names (constant_name c) = None \<and>
      Q (hm_insert (constant_name c) (constant_ty c) constants, hm_insert (constant_name c) ''constant'' names)" for Q
    by (auto simp: declare_constant_def Let_def silent_simps)
  then show ?case
    by (simp add: silent_cbind Cons.IH hm_collect_Cons) (auto simp: image_iff)
qed (simp add: silent_cret hm_collect_def)

lemma silent_declare_globals:
  "silent (ceach declare_global gs (globals, names)) P \<longleftrightarrow>
     fresh_names global_name gs names \<and> (\<forall>g \<in> set gs. \<not> hm_contains globals (global_name g)) \<and>
     P (above (map (\<lambda>g. (global_name g, global_ty g)) gs) globals,
        above (map (\<lambda>g. (global_name g, ''global variable'')) gs) names)"
proof (induction gs arbitrary: globals names)
  case (Cons g gs)
  have "silent (declare_global g (globals, names)) Q \<longleftrightarrow>
      \<not> hm_contains globals (global_name g) \<and> hm_get names (global_name g) = None \<and>
      Q (hm_insert (global_name g) (global_ty g) globals, hm_insert (global_name g) ''global variable'' names)" for Q
    by (auto simp: declare_global_def Let_def silent_simps)
  then show ?case
    by (simp add: silent_cbind Cons.IH hm_collect_Cons) (auto simp: image_iff)
qed (simp add: silent_cret hm_collect_def)

definition named_functions :: "function_decl list \<Rightarrow> function_decl list" where
  "named_functions fs = filter (\<lambda>f. function_kind f = FkNamed) fs"

definition kind_count :: "function_kind \<Rightarrow> function_decl list \<Rightarrow> nat" where
  "kind_count k fs = length (filter (\<lambda>f. function_kind f = k) fs)"

lemma silent_declare_functions:
  "silent (ceach declare_function fs (fns, names, counts)) P \<Longrightarrow>
     distinct (map function_name (named_functions fs)) \<and>
     (\<forall>f \<in> set (named_functions fs). \<not> hm_contains fns (function_name f) \<and> hm_get names (function_name f) \<in> {None, Some ''function''}) \<and>
     (\<exists>counts'. (\<forall>k. k \<noteq> FkNamed \<longrightarrow> entry_count counts' k = entry_count counts k + kind_count k fs) \<and>
       P (above (map (\<lambda>f. (function_name f, signature_of f)) (named_functions fs)) fns,
          above (map (\<lambda>f. (function_name f, ''function'')) (named_functions fs)) names, counts'))"
proof (induction fs arbitrary: fns names counts)
  case Nil
  then show ?case by (auto simp: silent_cret hm_collect_def named_functions_def kind_count_def)
next
  case (Cons f fs)
  show ?case
  proof (cases "function_kind f = FkNamed")
    case True
    have one: "silent (declare_function f (fns, names, counts)) Q \<longleftrightarrow>
        \<not> hm_contains fns (function_name f) \<and> hm_get names (function_name f) \<in> {None, Some ''function''} \<and>
        Q (hm_insert (function_name f) (signature_of f) fns, hm_insert (function_name f) ''function'' names, counts)" for Q
      using True by (auto simp: declare_function_def Let_def silent_simps)
    show ?thesis
      using Cons.prems Cons.IH [of "hm_insert (function_name f) (signature_of f) fns"
          "hm_insert (function_name f) ''function'' names" counts] True
      by (simp add: silent_cbind one hm_collect_Cons named_functions_def kind_count_def) (auto simp: image_iff split: if_splits)
  next
    case False
    let ?counts = "hm_insert (function_kind f) (Suc (entry_count counts (function_kind f))) counts"
    have "declare_function f (fns, names, counts) = cret (fns, names, ?counts)"
      using False by (simp add: declare_function_def)
    then have "silent (ceach declare_function fs (fns, names, ?counts)) P"
      using Cons.prems by (simp add: silent_cbind silent_cret)
    moreover have "entry_count ?counts k + kind_count k fs = entry_count counts k + kind_count k (f # fs)" for k
      by (simp add: entry_count_def kind_count_def)
    ultimately show ?thesis
      using Cons.IH [of fns names ?counts] False by (simp add: named_functions_def)
  qed
qed

section \<open>Types and initializers\<close>

definition type_known :: "(string, struct_decl) hash_map \<Rightarrow> value_type \<Rightarrow> bool" where
  "type_known structs ty \<longleftrightarrow> (\<forall>n. base_struct_name ty = Some n \<longrightarrow> hm_contains structs n)"

lemma silent_validate_known_type [silent_simps]:
  "silent (validate_known_type structs s ty) P \<longleftrightarrow> type_known structs ty \<and> P ()"
  by (induction structs s ty rule: validate_known_type.induct) (auto simp: silent_simps type_known_def)

lemma silent_validate_block_types:
  "silent (validate_stmt_types structs stmt) P \<longleftrightarrow> (\<forall>ty \<in> set (stmt_types stmt). type_known structs ty) \<and> P ()"
  "silent (validate_block_types structs stmts) P \<longleftrightarrow> (\<forall>ty \<in> set (block_types stmts). type_known structs ty) \<and> P ()"
proof (induction structs stmt and structs stmts arbitrary: P and P rule: validate_stmt_types_validate_block_types.induct)
  case (2 structs c then_block else_block s)
  then show ?case by (cases else_block) (auto simp: silent_simps)
qed (auto simp: silent_simps)

lemma silent_validate_function_types [silent_simps]:
  "silent (validate_function_types structs f) P \<longleftrightarrow> (\<forall>ty \<in> set (function_types f). type_known structs ty) \<and> P ()"
proof -
  have params: "silent (on_each (\<lambda>p. validate_known_type structs (param_span p) (param_ty p)) (function_params f)) P \<longleftrightarrow>
      (\<forall>p \<in> set (function_params f). type_known structs (param_ty p)) \<and> P ()" for P
    by (rule silent_on_each) (rule silent_validate_known_type)
  show ?thesis
    by (auto simp: validate_function_types_def silent_cbind params silent_validate_known_type silent_cret
        silent_validate_block_types function_types_def split: return_type.split)
qed

lemma silent_validate_declared_types:
  "silent (validate_declared_types p structs) P \<longleftrightarrow> (\<forall>ty \<in> set (program_types p). type_known structs ty) \<and> P ()"
proof -
  have fields: "silent (on_each (\<lambda>f. validate_known_type structs (field_span f) (field_ty f)) (struct_fields d)) P \<longleftrightarrow>
      (\<forall>f \<in> set (struct_fields d). type_known structs (field_ty f)) \<and> P ()" for d P
    by (rule silent_on_each) (rule silent_validate_known_type)
  note each = silent_on_each [OF fields] silent_on_each [OF silent_validate_function_types]
    silent_on_each [where f = "\<lambda>c. validate_known_type structs (constant_span c) (constant_ty c)", OF silent_validate_known_type]
    silent_on_each [where f = "\<lambda>g. validate_known_type structs (global_span g) (global_ty g)", OF silent_validate_known_type]
  show ?thesis
    by (simp add: validate_declared_types_def silent_cbind each program_types_def ball_Un)
qed

text \<open>A clean initializer passes the test for compile-time structure.\<close>

definition clean_true :: "bool chk \<Rightarrow> bool" where
  "clean_true m \<longleftrightarrow> (\<forall>b. m = Some (b, []) \<longrightarrow> b)"

lemma clean_true_intros [simp]:
  "clean_true (cret True)" "clean_true (cbind (cerror msg s) f)"
  "clean_true a \<Longrightarrow> clean_true b \<Longrightarrow> clean_true (cand a b)"
  by (auto simp: clean_true_def cand_def cbind_def cret_def cerror_def split: option.splits)

lemma clean_true_structure:
  "clean_true (validate_compile_time_structure globals what e)"
  "clean_true (validate_all_structure globals what es)"
  "clean_true (validate_field_structure globals what inits)"
  by (induction globals what e and globals what es and globals what inits
        rule: validate_compile_time_structure_validate_all_structure_validate_field_structure.induct) simp_all

lemma clean_filter:
  assumes "\<And>x ys. f x = Some (ys, []) \<Longrightarrow> \<not> ys" and "cfilter f xs = Some (ys, [])"
  shows "ys = []"
  using assms(2)
proof (induction xs arbitrary: ys)
  case (Cons x xs)
  then show ?case using assms(1)
    by (fastforce simp: cbind_def cret_def split: option.splits prod.splits if_splits)
qed (simp add: cret_def)

lemma clean_negated:
  "cbind (validate_compile_time_structure globals what e) (\<lambda>valid. cret (\<not> valid)) = Some (b, []) \<Longrightarrow> \<not> b"
  using clean_true_structure(1) [of globals what e]
  by (auto simp: clean_true_def cbind_def cret_def split: option.splits)

lemma silent_invalid_constants:
  assumes "silent (invalid_constants globals [] [] cs) P" and "\<forall>c \<in> set cs. \<not> has_invalid_array_length (constant_ty c)"
  shows "P []"
proof -
  have "filter (\<lambda>c. resolution_failed [] (constant_ty c)) cs = []"
    using assms(2) by (simp add: resolution_failed_def filter_empty_conv)
  then obtain rejected where "cfilter (\<lambda>c. cbind (validate_compile_time_structure globals ''constant expressions'' (constant_init c))
      (\<lambda>valid. cret (\<not> valid))) cs = Some (rejected, [])" "P (map constant_name rejected)"
    using assms(1) by (auto simp: invalid_constants_def silent_cbind silent_cret) (auto simp: silent_def)
  moreover from this(1) have "rejected = []" by (rule clean_filter [rotated]) (rule clean_negated)
  ultimately show ?thesis by simp
qed

lemma silent_invalid_globals:
  assumes "silent (invalid_globals globals [] gs) P" and "\<forall>g \<in> set gs. \<not> has_invalid_array_length (global_ty g)"
  shows "P []"
proof -
  let ?f = "\<lambda>(i, g). if resolution_failed [] (global_ty g) then cret True
      else cbind (validate_compile_time_structure globals ''global initializers'' (global_init g)) (\<lambda>valid. cret (\<not> valid))"
  let ?g = "\<lambda>(i, g). cbind (validate_compile_time_structure globals ''global initializers'' (global_init g)) (\<lambda>valid. cret (\<not> valid))"
  have "cfilter ?f (zip ks gs') = cfilter ?g (zip ks gs')" if "set gs' \<subseteq> set gs" for ks :: "nat list" and gs'
    using that assms(2)
    by (induction ks gs' rule: list_induct2') (auto simp: resolution_failed_def)
  then obtain rejected where "cfilter ?g (zip [0..<length gs] gs) = Some (rejected, [])" "P (map fst rejected)"
    using assms(1) by (auto simp: invalid_globals_def silent_cbind silent_cret) (auto simp: silent_def)
  moreover from this(1) have "rejected = []" by (rule clean_filter [rotated]) (auto dest: clean_negated)
  ultimately show ?thesis by simp
qed

section \<open>The environment of an accepted program\<close>

definition structs_of :: "program \<Rightarrow> (string, struct_decl) hash_map" where
  "structs_of p = hm_collect (map (\<lambda>d. (struct_decl_name d, d)) (program_structs p))"

definition constant_types_of :: "program \<Rightarrow> (string, value_type) hash_map" where
  "constant_types_of p =
     above (map (\<lambda>c. (constant_name c, constant_ty c)) (program_constants p)) (predefined_types (program_resolution p))"

definition global_types_of :: "program \<Rightarrow> (string, value_type) hash_map" where
  "global_types_of p = hm_collect (map (\<lambda>g. (global_name g, global_ty g)) (program_globals p))"

definition functions_of :: "program \<Rightarrow> (string, signature) hash_map" where
  "functions_of p = above (map (\<lambda>f. (function_name f, signature_of f)) (named_functions (program_functions p))) builtins"

definition program_env :: "program \<Rightarrow> environment" where
  "program_env p =
     \<lparr>env_structs = structs_of p, env_invalid_structs = [], env_constants = constant_types_of p,
      env_globals = global_types_of p, env_functions = functions_of p, env_invalid_constants = [], env_invalid_globals = []\<rparr>"

text \<open>The names declared at the top level.\<close>

definition top_level :: "program \<Rightarrow> string list" where
  "top_level p =
     map struct_decl_name (program_structs p) @ map constant_name (program_constants p)
     @ map global_name (program_globals p) @ map function_name (named_functions (program_functions p))"

definition reserved :: "string \<Rightarrow> bool" where
  "reserved n \<longleftrightarrow> find_builtin n \<noteq> None \<or> is_predefined_constant n"

definition declarations_ok :: "program \<Rightarrow> bool" where
  "declarations_ok p \<longleftrightarrow>
     distinct (top_level p) \<and> (\<forall>n \<in> set (top_level p). \<not> reserved n) \<and>
     (\<forall>d \<in> set (program_structs p). distinct (map field_name (struct_fields d))) \<and>
     (\<forall>ty \<in> set (program_types p). type_known (structs_of p) ty) \<and>
     (\<forall>n. (n, n) \<notin> (holds_value_of (structs_of p))\<^sup>+) \<and>
     (\<forall>k \<in> {FkStart, FkUpdate, FkDraw}. kind_count k (program_functions p) = 1)"

lemma find_builtin_names: "find_builtin n \<noteq> None \<longleftrightarrow> n \<in> bf_name ` set FUNCTIONS"
proof -
  have "find_builtin n = None \<longleftrightarrow> n \<notin> bf_name ` set FUNCTIONS"
    unfolding find_builtin_def find_None_iff by (auto simp: image_iff)
  then show ?thesis by (simp del: not_None_eq)
qed

lemma builtins_contains: "hm_contains builtins n \<longleftrightarrow> find_builtin n \<noteq> None"
  unfolding find_builtin_names by (auto simp: hm_contains_keys builtins_def hm_collect_def image_iff)

lemma predefined_iff: "is_predefined_constant n \<longleftrightarrow> n \<in> fst ` set (builtin_constants r)"
  by (auto simp: is_predefined_constant_get [of n r] hm_contains_keys hm_collect_def)

lemma predefined_names_above:
  "predefined_names r =
     above (map (\<lambda>(n, v). (n, ''predefined constant'')) (builtin_constants r)) (hm_collect (map (\<lambda>b. (bf_name b, ''function'')) FUNCTIONS))"
  by (simp add: predefined_names_def hm_collect_def)

lemma predefined_names_reserved: "hm_get (predefined_names r) n = None \<longleftrightarrow> \<not> reserved n"
proof -
  have "hm_contains (predefined_names r) n \<longleftrightarrow> reserved n"
    unfolding reserved_def find_builtin_names predefined_iff [of n r]
    by (force simp: predefined_names_above hm_contains_above hm_contains_keys hm_collect_def)
  then show ?thesis by (auto simp: hm_contains_def)
qed

lemma predefined_names_function:
  assumes "hm_get (predefined_names r) n = Some ''function''"
  shows "\<not> is_predefined_constant n"
proof
  let ?kvs = "map (\<lambda>(n, v). (n, ''predefined constant'')) (builtin_constants r)"
  assume "is_predefined_constant n"
  then have "n \<in> fst ` set ?kvs" unfolding predefined_iff [of n r] by force
  then have "hm_get (hm_collect ?kvs) n = Some ''function''"
    using assms unfolding predefined_names_above hm_get_above by simp
  then have "(n, ''function'') \<in> set ?kvs" by (auto simp: hm_get_def hm_collect_def dest: map_of_SomeD)
  then show False by auto
qed

text \<open>The kind of a name, once the declarations of one kind are entered.\<close>

lemma names_above_None:
  "hm_get (above (map (\<lambda>x. (f x, k)) xs) names) n = None \<longleftrightarrow> n \<notin> f ` set xs \<and> hm_get names n = None"
  using hm_contains_above [of "map (\<lambda>x. (f x, k)) xs" names n] by (auto simp: hm_contains_def image_iff)

lemma names_above_function:
  assumes "hm_get (above (map (\<lambda>x. (f x, k)) xs) names) n = Some ''function''" and "k \<noteq> ''function''"
  shows "n \<notin> f ` set xs" and "hm_get names n = Some ''function''"
proof -
  show "n \<notin> f ` set xs"
  proof
    assume "n \<in> f ` set xs"
    then have "hm_get (hm_collect (map (\<lambda>x. (f x, k)) xs)) n = Some ''function''"
      using assms(1) by (auto simp: hm_get_above image_iff)
    then have "(n, ''function'') \<in> set (map (\<lambda>x. (f x, k)) xs)" by (auto simp: hm_get_def hm_collect_def dest: map_of_SomeD)
    then show False using assms(2) by auto
  qed
  then show "hm_get names n = Some ''function''" using assms(1) by (auto simp: hm_get_above image_iff)
qed

lemma silent_check_entry_points:
  "silent (check_entry_points s counts entries) P \<longleftrightarrow> (\<forall>(k, n) \<in> set entries. entry_count counts k = 1) \<and> P ()"
  by (induction s counts entries rule: check_entry_points.induct) (auto simp: silent_simps split: nat.splits)

lemma named_structs_of:
  assumes "distinct (map struct_decl_name (program_structs p))"
  shows "hm_get (structs_of p) n = Some d \<longleftrightarrow> d \<in> set (program_structs p) \<and> struct_decl_name d = n"
    and "named_structs (structs_of p)"
proof -
  show "hm_get (structs_of p) n = Some d \<longleftrightarrow> d \<in> set (program_structs p) \<and> struct_decl_name d = n" for n d
    using hm_get_collect [OF assms, of "\<lambda>d. d" n d] by (auto simp: structs_of_def)
  then show "named_structs (structs_of p)" by (simp add: named_structs_def)
qed

lemma silent_struct_analysis:
  assumes "silent (struct_type_analysis_new (structs_of p) []) P" and "distinct (map struct_decl_name (program_structs p))"
    and "\<forall>ty \<in> set (program_types p). \<not> has_invalid_array_length ty"
  shows "(\<forall>n. (n, n) \<notin> (holds_value_of (structs_of p))\<^sup>+) \<and> P []"
proof -
  note named = named_structs_of [OF assms(2)]
  obtain invalid reported where run: "struct_type_analysis_new (structs_of p) [] = Some (invalid, [] @ map recursive_struct_error reported)"
    and rep: "\<forall>d. d \<in> set reported \<longleftrightarrow> (\<exists>n. hm_get (structs_of p) n = Some d \<and> (n, n) \<in> (holds_value_of (structs_of p))\<^sup>+)"
    and inv: "\<forall>n. n \<in> set invalid \<longleftrightarrow> (\<exists>m d. hm_contains (structs_of p) n \<and> (n, m) \<in> (holds_value_of (structs_of p))\<^sup>* \<and>
        hm_get (structs_of p) m = Some d \<and> length_failed d)"
    using struct_analysis [OF named(2)] by blast
  then have "reported = []" "P invalid" using assms(1) by (auto simp: silent_def)
  moreover have "\<not> length_failed d" if "d \<in> set (program_structs p)" for d
    using that assms(3) by (simp add: length_failed_def program_types_def ball_Un)
  then have "\<forall>n. n \<notin> set invalid" using inv named(1) by auto
  then have "invalid = []" by (cases invalid) auto
  moreover have "(n, n) \<notin> (holds_value_of (structs_of p))\<^sup>+" for n
  proof
    assume cyc: "(n, n) \<in> (holds_value_of (structs_of p))\<^sup>+"
    then obtain d where "hm_get (structs_of p) n = Some d" by (auto simp: holds_value_of_def dest!: tranclD)
    then show False using rep cyc \<open>reported = []\<close> by auto
  qed
  ultimately show ?thesis by simp
qed

lemma silent_declare_types:
  assumes "silent (declare_types p) P" and "\<forall>ty \<in> set (program_types p). \<not> has_invalid_array_length ty"
  shows "fresh_names struct_decl_name (program_structs p) (predefined_names (program_resolution p)) \<and>
    (\<forall>d \<in> set (program_structs p). distinct (map field_name (struct_fields d))) \<and>
    (\<forall>ty \<in> set (program_types p). type_known (structs_of p) ty) \<and>
    (\<forall>n. (n, n) \<notin> (holds_value_of (structs_of p))\<^sup>+) \<and>
    P (structs_of p, [], above (map (\<lambda>d. (struct_decl_name d, ''struct'')) (program_structs p)) (predefined_names (program_resolution p)))"
proof -
  have run: "fresh_names struct_decl_name (program_structs p) (predefined_names (program_resolution p))"
    "\<forall>d \<in> set (program_structs p). distinct (map field_name (struct_fields d))"
    "\<forall>ty \<in> set (program_types p). type_known (structs_of p) ty"
    "silent (struct_type_analysis_new (structs_of p) []) (\<lambda>invalid. P (structs_of p, invalid,
      above (map (\<lambda>d. (struct_decl_name d, ''struct'')) (program_structs p)) (predefined_names (program_resolution p))))"
    using assms(1) unfolding declare_types_def
    by (auto simp: silent_cbind silent_declare_structs silent_validate_declared_types silent_cret structs_of_def)
  then show ?thesis using silent_struct_analysis [OF run(4) _ assms(2)] by simp
qed

lemma silent_declare_values:
  assumes "silent (declare_values p [] [] names) P" and "\<forall>ty \<in> set (program_types p). \<not> has_invalid_array_length ty"
  shows "fresh_names constant_name (program_constants p) names \<and>
    fresh_names global_name (program_globals p) (above (map (\<lambda>c. (constant_name c, ''constant'')) (program_constants p)) names) \<and>
    P (constant_types_of p, global_types_of p, [], [],
       above (map (\<lambda>g. (global_name g, ''global variable'')) (program_globals p))
         (above (map (\<lambda>c. (constant_name c, ''constant'')) (program_constants p)) names))"
proof -
  let ?names = "above (map (\<lambda>g. (global_name g, ''global variable'')) (program_globals p))
      (above (map (\<lambda>c. (constant_name c, ''constant'')) (program_constants p)) names)"
  have constants: "\<forall>c \<in> set (program_constants p). \<not> has_invalid_array_length (constant_ty c)"
    and globals: "\<forall>g \<in> set (program_globals p). \<not> has_invalid_array_length (global_ty g)"
    using assms(2) by (simp_all add: program_types_def ball_Un)
  have run: "fresh_names constant_name (program_constants p) names"
    "fresh_names global_name (program_globals p) (above (map (\<lambda>c. (constant_name c, ''constant'')) (program_constants p)) names)"
    "silent (invalid_constants (global_types_of p) [] [] (program_constants p)) (\<lambda>bad_constants.
       silent (invalid_globals (global_types_of p) [] (program_globals p)) (\<lambda>bad_globals.
         P (constant_types_of p, global_types_of p, bad_constants, bad_globals, ?names)))"
    using assms(1) unfolding declare_values_def
    by (simp_all add: silent_cbind silent_declare_constants silent_declare_globals silent_cret
        constant_types_of_def [symmetric] global_types_of_def [symmetric])
  show ?thesis
    using run(1,2) silent_invalid_globals [OF silent_invalid_constants [OF run(3) constants] globals] by simp
qed

lemma silent_declare_functions_all:
  assumes "silent (declare_functions p names) P"
  shows "distinct (map function_name (named_functions (program_functions p))) \<and>
    (\<forall>f \<in> set (named_functions (program_functions p)).
       find_builtin (function_name f) = None \<and> hm_get names (function_name f) \<in> {None, Some ''function''}) \<and>
    (\<forall>k \<in> {FkStart, FkUpdate, FkDraw}. kind_count k (program_functions p) = 1) \<and> P (functions_of p)"
proof -
  have "silent (ceach declare_function (program_functions p) (builtins, names, [])) (\<lambda>(fns, names, counts).
      (\<forall>(k, n) \<in> set [(FkStart, ''start''), (FkUpdate, ''update''), (FkDraw, ''draw'')]. entry_count counts k = 1) \<and> P fns)"
    using assms unfolding declare_functions_def
    by (simp add: silent_cbind case_prod_unfold silent_check_entry_points silent_cret del: check_entry_points.simps)
  from silent_declare_functions [OF this] show ?thesis
    unfolding functions_of_def [symmetric] builtins_contains
    by (auto simp: entry_count_def [of "[]"] builtins_contains)
qed

lemma distinct_kinds:
  assumes "distinct a" "distinct b" "distinct c" "distinct d" "set a \<inter> R = {}" "set b \<inter> (set a \<union> R) = {}"
    "set c \<inter> (set a \<union> set b \<union> R) = {}" "set d \<inter> (set a \<union> set b \<union> set c \<union> R) = {}"
  shows "distinct (a @ b @ c @ d) \<and> (\<forall>n \<in> set (a @ b @ c @ d). n \<notin> R)"
  using assms by auto

lemma silent_declare_all:
  assumes "silent (declare_all p []) P" and valid: "\<forall>ty \<in> set (program_types p). \<not> has_invalid_array_length ty"
  shows "declarations_ok p \<and> P (program_env p)"
proof -
  let ?names = "above (map (\<lambda>d. (struct_decl_name d, ''struct'')) (program_structs p)) (predefined_names (program_resolution p))"
  let ?names2 = "above (map (\<lambda>c. (constant_name c, ''constant'')) (program_constants p)) ?names"
  let ?names3 = "above (map (\<lambda>g. (global_name g, ''global variable'')) (program_globals p)) ?names2"
  note s1 = silent_declare_types [OF assms(1) [unfolded declare_all_def silent_cbind [of "declare_types p"]] valid, unfolded prod.case]
  then have "silent (declare_values p [] [] ?names) (\<lambda>(constants, globals, bad_constants, bad_globals, names).
      silent (declare_functions p names) (\<lambda>fns.
        P \<lparr>env_structs = structs_of p, env_invalid_structs = [], env_constants = constants,
             env_globals = globals, env_functions = fns, env_invalid_constants = bad_constants,
             env_invalid_globals = bad_globals\<rparr>))"
    by (simp add: silent_cbind case_prod_unfold silent_cret)
  note s2 = silent_declare_values [OF this valid, unfolded prod.case]
  note s3 = silent_declare_functions_all [OF s2 [THEN conjunct2, THEN conjunct2]]
  have fns: "function_name f \<notin> global_name ` set (program_globals p) \<and> function_name f \<notin> constant_name ` set (program_constants p) \<and>
      function_name f \<notin> struct_decl_name ` set (program_structs p) \<and> \<not> reserved (function_name f)"
    if "f \<in> set (named_functions (program_functions p))" for f
  proof -
    have "find_builtin (function_name f) = None" "hm_get ?names3 (function_name f) \<in> {None, Some ''function''}" using s3 that by auto
    then show ?thesis
      using names_above_function [of global_name "''global variable''" "program_globals p" ?names2 "function_name f"]
        names_above_function [of constant_name "''constant''" "program_constants p" ?names "function_name f"]
        names_above_function [of struct_decl_name "''struct''" "program_structs p" "predefined_names (program_resolution p)" "function_name f"]
        predefined_names_function [of "program_resolution p" "function_name f"]
      by (auto simp: names_above_None predefined_names_reserved reserved_def)
  qed
  have structs: "\<not> reserved (struct_decl_name d)" if "d \<in> set (program_structs p)" for d
    using s1 that by (simp add: predefined_names_reserved)
  have "hm_get ?names (constant_name c) = None" if "c \<in> set (program_constants p)" for c using s2 that by simp
  then have constants: "constant_name c \<notin> struct_decl_name ` set (program_structs p) \<and> \<not> reserved (constant_name c)"
    if "c \<in> set (program_constants p)" for c
    using that by (simp add: names_above_None predefined_names_reserved)
  have "hm_get ?names2 (global_name g) = None" if "g \<in> set (program_globals p)" for g using s2 that by simp
  then have globals: "global_name g \<notin> constant_name ` set (program_constants p) \<and>
      global_name g \<notin> struct_decl_name ` set (program_structs p) \<and> \<not> reserved (global_name g)"
    if "g \<in> set (program_globals p)" for g
    using that by (simp add: names_above_None predefined_names_reserved)
  let ?S = "struct_decl_name ` set (program_structs p)" and ?C = "constant_name ` set (program_constants p)"
    and ?G = "global_name ` set (program_globals p)" and ?F = "function_name ` set (named_functions (program_functions p))"
  have "?S \<inter> {n. reserved n} = {}" using structs by blast
  moreover have "?C \<inter> (?S \<union> {n. reserved n}) = {}" using constants by blast
  moreover have "?G \<inter> (?S \<union> ?C \<union> {n. reserved n}) = {}" using globals by blast
  moreover have "?F \<inter> (?S \<union> ?C \<union> ?G \<union> {n. reserved n}) = {}" using fns by blast
  moreover have "distinct (map struct_decl_name (program_structs p))" "distinct (map constant_name (program_constants p))"
    "distinct (map global_name (program_globals p))" "distinct (map function_name (named_functions (program_functions p)))"
    using s1 s2 s3 by simp_all
  ultimately have "distinct (top_level p) \<and> (\<forall>n \<in> set (top_level p). \<not> reserved n)"
    using distinct_kinds [of "map struct_decl_name (program_structs p)" "map constant_name (program_constants p)"
        "map global_name (program_globals p)" "map function_name (named_functions (program_functions p))" "{n. reserved n}"]
    unfolding top_level_def set_map by simp
  then show ?thesis using s1 s3 by (simp add: declarations_ok_def program_env_def)
qed

end
