(* ===== verification/Sema_Correct.thy ===== *)
theory Sema_Correct
  imports Sema_Accepts
begin

text \<open>
  Accepted programs are well formed: their names are distinct, no struct contains itself, they have their
  entry points, every constant and global has a value of its declared type, in all its parts, and
  every function follows the typing rules in the environment the declarations make.
\<close>

section \<open>The environment has its array lengths\<close>

definition types_valid :: "program \<Rightarrow> bool" where
  "types_valid p \<longleftrightarrow> (\<forall>ty \<in> set (program_types p). \<not> has_invalid_array_length ty)"

lemma types_validD:
  assumes "types_valid p"
  shows "d \<in> set (program_structs p) \<Longrightarrow> f \<in> set (struct_fields d) \<Longrightarrow> \<not> has_invalid_array_length (field_ty f)"
    and "c \<in> set (program_constants p) \<Longrightarrow> \<not> has_invalid_array_length (constant_ty c)"
    and "g \<in> set (program_globals p) \<Longrightarrow> \<not> has_invalid_array_length (global_ty g)"
    and "fn \<in> set (program_functions p) \<Longrightarrow> ty \<in> set (function_types fn) \<Longrightarrow> \<not> has_invalid_array_length ty"
  using assms by (simp_all add: types_valid_def program_types_def ball_Un)

definition program_checker :: "program \<Rightarrow> (string, constant_value) hash_map \<Rightarrow> return_type \<Rightarrow> checker" where
  "program_checker p values rt = env_checker (program_env p) values rt"

lemma program_checker_simps:
  "ck_structs (program_checker p values rt) = structs_of p" "ck_functions (program_checker p values rt) = functions_of p"
  "checker_binding (program_checker p values rt) n =
     (case hm_get (global_types_of p) n of
        Some ty \<Rightarrow> Some \<lparr>bind_ty = ty, bind_mutability = MuMutable\<rparr>
      | None \<Rightarrow> map_option (\<lambda>ty. \<lparr>bind_ty = ty, bind_mutability = MuConstant\<rparr>) (hm_get (constant_types_of p) n))"
  by (simp_all add: program_checker_def env_checker_def program_env_def checker_new_def checker_binding_def split: option.split)

lemma hm_collect_value: "hm_get (hm_collect (map (\<lambda>x. (f x, g x)) xs)) n = Some v \<Longrightarrow> \<exists>x \<in> set xs. f x = n \<and> g x = v"
  by (auto simp: hm_get_def hm_collect_def dest!: map_of_SomeD)

lemma above_value: "hm_get (hm_collect kvs @ m) n = Some v \<Longrightarrow> hm_get (hm_collect kvs) n = Some v \<or> hm_get m n = Some v"
  by (simp add: hm_get_above split: if_splits)

lemma predefined_types_i32: "hm_get (predefined_types r) n = Some ty \<Longrightarrow> ty = VtI32"
  using builtin_constants_i32 by (fastforce simp: predefined_types_def hm_get_def hm_collect_def dest!: map_of_SomeD)

lemma constant_types_value:
  "hm_get (constant_types_of p) n = Some ty \<Longrightarrow> (\<exists>c \<in> set (program_constants p). constant_name c = n \<and> constant_ty c = ty) \<or> ty = VtI32"
  unfolding constant_types_of_def by (blast dest: above_value hm_collect_value predefined_types_i32)

lemma builtin_signature_valid:
  assumes "hm_get builtins n = Some sig"
  shows "(\<forall>ty \<in> set (sig_params sig). \<not> has_invalid_array_length ty) \<and> (\<forall>ty. sig_return sig = RtValue ty \<longrightarrow> \<not> has_invalid_array_length ty)"
proof -
  have all: "\<forall>b \<in> set FUNCTIONS. list_all (\<lambda>ty. \<not> has_invalid_array_length ty) (bf_params b) \<and>
      (case bf_return_type b of RtValue ty \<Rightarrow> \<not> has_invalid_array_length ty | RtVoid \<Rightarrow> True)"
    by (simp add: FUNCTIONS_def builtin_def list_all_iff)
  obtain b where "b \<in> set FUNCTIONS" "sig = \<lparr>sig_params = bf_params b, sig_return = bf_return_type b\<rparr>"
    using hm_collect_value [OF assms [unfolded builtins_def]] by auto
  then show ?thesis using bspec [OF all] by (fastforce simp: list_all_iff)
qed

lemma signature_of_valid:
  assumes "types_valid p" and "f \<in> set (program_functions p)"
  shows "(\<forall>ty \<in> set (sig_params (signature_of f)). \<not> has_invalid_array_length ty) \<and>
    (\<forall>ty. sig_return (signature_of f) = RtValue ty \<longrightarrow> \<not> has_invalid_array_length ty)"
  using types_validD(4) [OF assms] by (auto simp: signature_of_def function_types_def)

lemma program_env_ok:
  assumes "types_valid p"
  shows "env_ok (program_checker p values rt)"
proof -
  have "\<not> has_invalid_array_length (bind_ty b)" if "checker_binding (program_checker p values rt) n = Some b" for n b
    using that types_validD(2,3) [OF assms]
    by (auto simp: program_checker_simps global_types_of_def split: option.splits
        dest!: hm_collect_value constant_types_value)
  moreover have "\<not> has_invalid_array_length (field_ty f)" if "hm_get (structs_of p) n = Some d" "f \<in> set (struct_fields d)" for n d f
    using that types_validD(1) [OF assms] by (auto simp: structs_of_def dest!: hm_collect_value)
  moreover have "(\<forall>ty \<in> set (sig_params sig). \<not> has_invalid_array_length ty) \<and>
      (\<forall>ty. sig_return sig = RtValue ty \<longrightarrow> \<not> has_invalid_array_length ty)" if "hm_get (functions_of p) n = Some sig" for n sig
    using above_value [OF that [unfolded functions_of_def]]
  proof
    assume "hm_get builtins n = Some sig"
    then show ?thesis by (rule builtin_signature_valid)
  next
    assume "hm_get (hm_collect (map (\<lambda>f. (function_name f, signature_of f)) (named_functions (program_functions p)))) n = Some sig"
    then obtain f where "f \<in> set (program_functions p)" "signature_of f = sig"
      by (auto simp: named_functions_def dest!: hm_collect_value)
    then show ?thesis using signature_of_valid [OF assms] by blast
  qed
  ultimately show ?thesis by (simp add: env_ok_def program_checker_simps(1,2))
qed

section \<open>Initializers\<close>

lemma silent_check_initializer:
  assumes "env_ok ck" and "numeric_conversions init" and "\<not> has_invalid_array_length ty"
  shows "silent (check_initializer ck what n ty init) P \<longleftrightarrow> initializes ck init ty \<and> P ()"
  unfolding check_initializer_def silent_cbind silent_require_value_as [OF assms] silent_found_type
  by (rule found_as_expected)

text \<open>Expressions as the parser builds them.\<close>

fun stmt_exprs :: "stmt \<Rightarrow> expr list"
and block_exprs :: "block \<Rightarrow> expr list" where
  "stmt_exprs (Stmt (StLet n ty e) s) = [e]"
| "stmt_exprs (Stmt (StAssign target op e) s) = [target, e]"
| "stmt_exprs (Stmt (StExpr e) s) = [e]"
| "stmt_exprs (Stmt (StIf c then_block (Some else_block)) s) = c # block_exprs then_block @ block_exprs else_block"
| "stmt_exprs (Stmt (StIf c then_block None) s) = c # block_exprs then_block"
| "stmt_exprs (Stmt (StWhile c body) s) = c # block_exprs body"
| "stmt_exprs (Stmt (StFor n ns lower upper body) s) = lower # upper # block_exprs body"
| "stmt_exprs (Stmt (StReturn v) s) = (case v of None \<Rightarrow> [] | Some e \<Rightarrow> [e])"
| "block_exprs [] = []"
| "block_exprs (stmt # stmts) = stmt_exprs stmt @ block_exprs stmts"

definition program_exprs :: "program \<Rightarrow> expr list" where
  "program_exprs p =
     map constant_init (program_constants p) @ map global_init (program_globals p)
     @ concat (map (block_exprs \<circ> function_body) (program_functions p))"

definition conversions_ok :: "program \<Rightarrow> bool" where
  "conversions_ok p \<longleftrightarrow> (\<forall>e \<in> set (program_exprs p). numeric_conversions e)"

lemma exprs_retype:
  "stmt_exprs (retype_stmt m stmt) = stmt_exprs stmt"
  "block_exprs (retype_block m body) = block_exprs body"
  by (induction stmt and body rule: stmt_exprs_block_exprs.induct) simp_all

lemma program_exprs_retype: "program_exprs (retype_program m p) = program_exprs p"
  by (simp add: program_exprs_def retype_program_def retype_function_def exprs_retype comp_def)

lemma stmt_plain_iff:
  "stmt_plain stmt \<longleftrightarrow> (\<forall>e \<in> set (stmt_exprs stmt). numeric_conversions e) \<and> (\<forall>ty \<in> set (stmt_types stmt). \<not> has_invalid_array_length ty)"
  "list_all stmt_plain body \<longleftrightarrow> (\<forall>e \<in> set (block_exprs body). numeric_conversions e) \<and> (\<forall>ty \<in> set (block_types body). \<not> has_invalid_array_length ty)"
  by (induction stmt and body rule: stmt_exprs_block_exprs.induct) (auto split: option.splits)

lemma conversions_okD:
  assumes "conversions_ok p"
  shows "c \<in> set (program_constants p) \<Longrightarrow> numeric_conversions (constant_init c)"
    and "g \<in> set (program_globals p) \<Longrightarrow> numeric_conversions (global_init g)"
    and "f \<in> set (program_functions p) \<Longrightarrow> e \<in> set (block_exprs (function_body f)) \<Longrightarrow> numeric_conversions e"
  using assms by (simp_all add: conversions_ok_def program_exprs_def ball_Un)

lemma function_plain_program:
  "types_valid p \<Longrightarrow> conversions_ok p \<Longrightarrow> f \<in> set (program_functions p) \<Longrightarrow> function_plain f"
  using types_validD(4) [of p f] conversions_okD(3) [of p f]
  unfolding function_plain_def stmt_plain_iff function_types_def by (auto simp: list_all_iff)

section \<open>Values\<close>

definition predefined_values :: "program \<Rightarrow> (string, constant_value) hash_map" where
  "predefined_values p = hm_collect (builtin_constants (program_resolution p))"

text \<open>The environment of the initializers: functions, variables and predefined values.\<close>

abbreviation initializer_checker :: "program \<Rightarrow> checker" where
  "initializer_checker p \<equiv> program_checker p (predefined_values p) RtVoid"

lemma initializers_typed:
  assumes "silent (check_initializers_of p (program_env p)) P" and "types_valid p" and "conversions_ok p"
  shows "(\<forall>c \<in> set (program_constants p). initializes (initializer_checker p) (constant_init c) (constant_ty c)) \<and>
    (\<forall>g \<in> set (program_globals p). initializes (initializer_checker p) (global_init g) (global_ty g)) \<and> P ()"
proof -
  let ?ck = "initializer_checker p"
  have ck: "env_checker (program_env p) (hm_collect (builtin_constants (program_resolution p))) RtVoid = ?ck"
    by (simp add: program_checker_def predefined_values_def)
  have inv: "env_invalid_constants (program_env p) = []" "env_invalid_globals (program_env p) = []"
    by (simp_all add: program_env_def)
  have c: "silent (check_initializer ?ck ''constant'' (constant_name c) (constant_ty c) (constant_init c)) Q \<longleftrightarrow>
      initializes ?ck (constant_init c) (constant_ty c) \<and> Q ()" if "c \<in> set (program_constants p)" for c Q
    using that by (intro silent_check_initializer program_env_ok types_validD conversions_okD) (use assms in auto)
  have g: "silent (check_initializer ?ck ''global'' (global_name (snd ig)) (global_ty (snd ig)) (global_init (snd ig))) Q \<longleftrightarrow>
      initializes ?ck (global_init (snd ig)) (global_ty (snd ig)) \<and> Q ()"
    if "ig \<in> set (zip [0..<length (program_globals p)] (program_globals p))" for ig Q
  proof -
    have "snd ig \<in> set (program_globals p)" using that by (metis prod.collapse set_zip_rightD)
    then show ?thesis
      by (intro silent_check_initializer program_env_ok types_validD conversions_okD) (use assms in auto)
  qed
  have all: "(\<forall>ig \<in> set (zip [0..<length (program_globals p)] (program_globals p)). Q (snd ig)) \<longleftrightarrow>
      (\<forall>g \<in> set (program_globals p). Q g)" for Q
    by (fastforce simp: set_zip in_set_conv_nth)
  show ?thesis
    using assms(1) unfolding check_initializers_of_def Let_def ck inv case_prod_unfold
    by (simp add: silent_cbind silent_on_each [OF c] silent_on_each [OF g] cwhen_def
        all [of "\<lambda>g. initializes ?ck (global_init g) (global_ty g)"])
qed

text \<open>A value of a constant has the type the environment gives its name.\<close>

definition constants_typed :: "program \<Rightarrow> bool" where
  "constants_typed p \<longleftrightarrow>
     declarations_ok p \<and> types_valid p \<and> conversions_ok p \<and>
     (\<forall>c \<in> set (program_constants p). initializes (initializer_checker p) (constant_init c) (constant_ty c))"

definition denotes_constant :: "program \<Rightarrow> string \<Rightarrow> constant_value \<Rightarrow> bool" where
  "denotes_constant p =
     denotes (predefined_values p) (constant_definitions (program_constants p))
       (constant_den (global_types_of p) (structs_of p) [])"

lemma top_level_distinct:
  assumes "declarations_ok p"
  shows "distinct (map struct_decl_name (program_structs p))" "distinct (map constant_name (program_constants p))"
    "distinct (map global_name (program_globals p))"
    and "c \<in> set (program_constants p) \<Longrightarrow> g \<in> set (program_globals p) \<Longrightarrow> constant_name c \<noteq> global_name g"
    and "c \<in> set (program_constants p) \<Longrightarrow> \<not> is_predefined_constant (constant_name c)"
    and "g \<in> set (program_globals p) \<Longrightarrow> \<not> is_predefined_constant (global_name g)"
  using assms by (auto simp: declarations_ok_def top_level_def reserved_def)

lemma predefined_values_get: "hm_get (predefined_values p) n = Some v \<Longrightarrow> is_predefined_constant n \<and> (\<exists>i. v = CvI32 i)"
  using builtin_constants_get
  by (auto simp: predefined_values_def is_predefined_constant_get [of n "program_resolution p"] hm_contains_def)

lemma constant_binding:
  assumes "declarations_ok p" and "c \<in> set (program_constants p)"
  shows "checker_binding (program_checker p values rt) (constant_name c) = Some \<lparr>bind_ty = constant_ty c, bind_mutability = MuConstant\<rparr>"
proof -
  have "hm_get (global_types_of p) (constant_name c) = None"
  proof (rule ccontr)
    assume "hm_get (global_types_of p) (constant_name c) \<noteq> None"
    then obtain g where "g \<in> set (program_globals p)" "global_name g = constant_name c"
      by (auto simp: global_types_of_def dest!: hm_collect_value)
    then show False using top_level_distinct(4) [OF assms] by metis
  qed
  moreover have "hm_get (hm_collect (map (\<lambda>c. (constant_name c, constant_ty c)) (program_constants p))) (constant_name c) = Some (constant_ty c)"
    using hm_get_collect [OF top_level_distinct(2) [OF assms(1)], of constant_ty "constant_name c" "constant_ty c"] assms(2) by auto
  then have "hm_get (constant_types_of p) (constant_name c) = Some (constant_ty c)"
    using assms(2) by (simp add: constant_types_of_def hm_get_above image_image)
  ultimately show ?thesis by (simp add: program_checker_simps)
qed

lemma denotes_constant_typed:
  assumes "constants_typed p"
  shows "denotes_constant p n v \<Longrightarrow> checker_binding (initializer_checker p) n = Some b \<Longrightarrow>
    \<not> hm_contains (global_types_of p) n \<Longrightarrow> has_type (structs_of p) v (bind_ty b)"
  unfolding denotes_constant_def
proof (induction arbitrary: b rule: denotes.induct)
  case (predefined n v)
  then obtain i where n: "is_predefined_constant n" "v = CvI32 i" using predefined_values_get by blast
  then have "\<forall>c \<in> set (program_constants p). constant_name c \<noteq> n"
    using assms top_level_distinct(5) by (auto simp: constants_typed_def)
  then have "bind_ty b = VtI32"
    using predefined.prems constant_types_value [of p n] by (auto simp: program_checker_simps hm_contains_def split: option.splits)
  then show ?case using n by simp
next
  case (declared n d known v)
  have decl: "declarations_ok p" using assms by (simp add: constants_typed_def)
  obtain c where c: "c \<in> set (program_constants p)" "constant_name c = n"
    "d = \<lparr>def_ty = constant_ty c, def_init = constant_init c, def_span = constant_span c\<rparr>"
    using declared.hyps(2) by (auto simp: constant_definitions_def dest!: hm_collect_value)
  have "b = \<lparr>bind_ty = constant_ty c, bind_mutability = MuConstant\<rparr>"
    using constant_binding [OF decl c(1)] declared.prems(1) c(2) by (metis option.inject)
  then have ty: "bind_ty b = constant_ty c" by simp
  have "lookup_typed (initializer_checker p) (constant_lookup (global_types_of p) (cache_of known))"
    unfolding lookup_typed_def
  proof (intro conjI allI impI)
    fix m s w b'
    assume look: "constant_lookup (global_types_of p) (cache_of known) m s = Ok w"
      and bind: "checker_binding (initializer_checker p) m = Some b'"
    then have "hm_get known m = Some w" "\<not> hm_contains (global_types_of p) m"
      by (auto simp: constant_lookup_def cache_lookup_def split: if_splits option.splits)
    then show "has_type (ck_structs (initializer_checker p)) w (bind_ty b')"
      using declared.IH bind by (auto simp: program_checker_simps)
  next
    fix m d
    assume "hm_get (ck_structs (initializer_checker p)) m = Some d"
    then have "d \<in> set (program_structs p)"
      using named_structs_of(1) [OF top_level_distinct(1) [OF decl]] by (simp add: program_checker_simps)
    then show "distinct (map field_name (struct_fields d))" using decl by (simp add: declarations_ok_def)
  qed
  moreover have "eval EeDiagnostic (structs_of p) (constant_lookup (global_types_of p) (cache_of known)) (Some (constant_ty c)) (constant_init c) = Ok v"
    using declared.hyps(3) c(3) by (simp add: constant_den_Ok)
  moreover have "numeric_conversions (constant_init c)" "initializes (initializer_checker p) (constant_init c) (constant_ty c)"
    using assms c(1) conversions_okD(1) by (auto simp: constants_typed_def)
  ultimately show ?case
    using typed_evaluation(2) [of "initializer_checker p" "constant_init c" "constant_ty c"] ty
    by (auto simp: program_checker_simps)
qed

text \<open>A loop whose steps establish something that later steps keep.\<close>

lemma silent_ceach_inv:
  assumes "silent (ceach f xs st) P" and "I st"
    and "\<And>x st st'. x \<in> set xs \<Longrightarrow> I st \<Longrightarrow> f x st = Some (st', []) \<Longrightarrow> I st' \<and> Q x st' \<and> (\<forall>y. Q y st \<longrightarrow> Q y st')"
  shows "\<exists>st'. P st' \<and> I st' \<and> (\<forall>x \<in> set xs. Q x st') \<and> (\<forall>y. Q y st \<longrightarrow> Q y st')"
  using assms
proof (induction xs arbitrary: st)
  case (Cons x xs)
  obtain st1 where one: "f x st = Some (st1, [])" "silent (ceach f xs st1) P"
    using Cons.prems(1) by (auto simp: silent_def cbind_def split: option.splits)
  then have "I st1" "Q x st1" "\<forall>y. Q y st \<longrightarrow> Q y st1" using Cons.prems(2,3) by auto
  moreover have "\<exists>st'. P st' \<and> I st' \<and> (\<forall>x \<in> set xs. Q x st') \<and> (\<forall>y. Q y st1 \<longrightarrow> Q y st')"
    by (rule Cons.IH [OF one(2) \<open>I st1\<close>]) (rule Cons.prems(3), simp_all)
  ultimately show ?case by auto
qed (simp add: silent_cret, blast)

definition evaluates :: "program \<Rightarrow> constant_evaluator \<Rightarrow> bool" where
  "evaluates p ce \<longleftrightarrow>
     evaluator_sound (program_resolution p) ce \<and> ce_definitions ce = constant_definitions (program_constants p) \<and>
     ce_globals ce = global_types_of p \<and> ce_structs ce = structs_of p \<and> ce_invalid ce = [] \<and> cv_failures (ce_cache ce) = []"

lemma evaluate_named_keeps:
  assumes "evaluate_named n ce = Some (Some (ce', r))"
  shows "ce_definitions ce' = ce_definitions ce \<and> ce_globals ce' = ce_globals ce \<and> ce_structs ce' = ce_structs ce \<and>
    ce_invalid ce' = ce_invalid ce \<and> (\<forall>v. r = Ok v \<longrightarrow> cv_failures (ce_cache ce') = cv_failures (ce_cache ce))"
  using assms by (auto simp: evaluate_named_def map_option_case split: option.splits prod.splits dest: schedule_failures)

lemma evaluate_constant_evaluates:
  assumes "c \<in> set (program_constants p)" and "evaluates p ce" and "evaluate_constant [] c ce = Some (ce', [])"
  shows "evaluates p ce' \<and> hm_contains (cv_values (ce_cache ce')) (constant_name c) \<and>
    (\<forall>d. hm_contains (cv_values (ce_cache ce)) (constant_name d) \<longrightarrow> hm_contains (cv_values (ce_cache ce')) (constant_name d))"
proof -
  let ?n = "constant_name c"
  have "hm_contains (ce_definitions ce) ?n"
    using assms(1,2) constant_definitions_contains by (simp add: evaluates_def)
  then obtain ce1 res where run: "evaluate_named ?n ce = Some (Some (ce1, res))" "evaluator_sound (program_resolution p) ce1"
    "values_more (ce_cache ce) (ce_cache ce1)" "case res of Ok v \<Rightarrow> hm_get (cv_values (ce_cache ce1)) ?n = Some v
      | Err e \<Rightarrow> hm_get (cv_failures (ce_cache ce1)) ?n = Some e"
    using evaluate_named_done [of "program_resolution p" ce ?n] assms(2) by (auto simp: evaluates_def)
  have "\<not> cache_failed (ce_cache ce) ?n" using assms(2) by (simp add: evaluates_def cache_failed_def hm_contains_def)
  then obtain v where "res = Ok v" "ce' = ce1"
    using assms(3) run(1) by (cases res) (auto simp: evaluate_constant_def Let_def returned_def cret_def)
  then show ?thesis
    using run assms(2) evaluate_named_keeps [OF run(1)] values_more_contains
    by (auto simp: evaluates_def hm_contains_def [of _ ?n])
qed

lemma constants_evaluated:
  assumes "silent (evaluate_constants p (program_env p)) P"
  shows "\<exists>values. P values \<and> (\<forall>n v. hm_get (predefined_values p) n = Some v \<longrightarrow> hm_get values n = Some v) \<and>
    (\<forall>n v. hm_get values n = Some v \<longrightarrow> denotes_constant p n v) \<and>
    (\<forall>c \<in> set (program_constants p). hm_contains values (constant_name c))"
proof -
  let ?ce = "constant_evaluator_new (constant_definitions (program_constants p)) (global_types_of p) (structs_of p) []
    (program_resolution p)"
  have "evaluates p ?ce"
    using evaluator_sound_new by (simp add: evaluates_def) (simp add: constant_evaluator_new_def constant_values_new_def)
  moreover have "silent (ceach (evaluate_constant []) (program_constants p) ?ce) (\<lambda>ce. P (cv_values (ce_cache ce)))"
    using assms by (simp add: evaluate_constants_def program_env_def silent_cbind silent_cret)
  ultimately obtain ce where ce: "P (cv_values (ce_cache ce))" "evaluates p ce"
    "\<forall>c \<in> set (program_constants p). hm_contains (cv_values (ce_cache ce)) (constant_name c)"
    using silent_ceach_inv [of "evaluate_constant []" "program_constants p" ?ce "\<lambda>ce. P (cv_values (ce_cache ce))" "evaluates p"
        "\<lambda>c ce. hm_contains (cv_values (ce_cache ce)) (constant_name c)"] evaluate_constant_evaluates by blast
  then show ?thesis
    by (intro exI [of _ "cv_values (ce_cache ce)"])
       (auto simp: evaluates_def evaluator_sound_def cache_sound_def denotes_constant_def predefined_values_def)
qed

section \<open>Global variables\<close>

text \<open>Values of constants and predefined names, of the types the environment gives them.\<close>

definition values_ok :: "program \<Rightarrow> (string, constant_value) hash_map \<Rightarrow> bool" where
  "values_ok p values \<longleftrightarrow>
     (\<forall>n v. hm_get (predefined_values p) n = Some v \<longrightarrow> hm_get values n = Some v) \<and>
     (\<forall>n v. hm_get values n = Some v \<longrightarrow> denotes_constant p n v) \<and>
     (\<forall>c \<in> set (program_constants p). hm_contains values (constant_name c))"

lemma denoted_names:
  assumes "denotes_constant p n v"
  shows "is_predefined_constant n \<or> n \<in> constant_name ` set (program_constants p)"
  using assms unfolding denotes_constant_def
proof (cases rule: denotes.cases)
  case predefined
  then show ?thesis using predefined_values_get by blast
next
  case (declared d known)
  then show ?thesis by (auto simp: constant_definitions_def dest!: hm_collect_value)
qed

lemma values_not_global:
  assumes "declarations_ok p" and "values_ok p values" and "hm_get values n = Some v"
  shows "\<not> hm_contains (global_types_of p) n"
proof
  assume "hm_contains (global_types_of p) n"
  then obtain g where "g \<in> set (program_globals p)" "global_name g = n"
    by (auto simp: hm_contains_def global_types_of_def dest!: hm_collect_value)
  moreover have "is_predefined_constant n \<or> n \<in> constant_name ` set (program_constants p)"
    using assms(2,3) denoted_names unfolding values_ok_def by blast
  ultimately show False using top_level_distinct(4,6) [OF assms(1)] by (metis imageE)
qed

lemma structs_distinct_fields:
  assumes "declarations_ok p" and "hm_get (structs_of p) n = Some d"
  shows "distinct (map field_name (struct_fields d))"
  using named_structs_of(1) [OF top_level_distinct(1) [OF assms(1)]] assms by (simp add: declarations_ok_def)

lemma global_value_typed:
  assumes "constants_typed p" and "values_ok p values" and "g \<in> set (program_globals p)"
    and "initializes (initializer_checker p) (global_init g) (global_ty g)"
    and "eval (\<lambda>d. d) (structs_of p) (initializer_lookup values (global_types_of p)) (Some (global_ty g)) (global_init g) = Ok v"
  shows "has_type (structs_of p) v (global_ty g)"
proof -
  have decl: "declarations_ok p" and conv: "conversions_ok p" using assms(1) by (auto simp: constants_typed_def)
  have "lookup_typed (initializer_checker p) (initializer_lookup values (global_types_of p))"
    unfolding lookup_typed_def
  proof (intro conjI allI impI)
    fix n s w b
    assume look: "initializer_lookup values (global_types_of p) n s = Ok w" and bind: "checker_binding (initializer_checker p) n = Some b"
    then have "hm_get values n = Some w" by (auto simp: initializer_lookup_def split: option.splits if_splits)
    then show "has_type (ck_structs (initializer_checker p)) w (bind_ty b)"
      using denotes_constant_typed [OF assms(1) _ bind] values_not_global [OF decl assms(2)] assms(2)
      by (simp add: program_checker_simps values_ok_def)
  qed (use structs_distinct_fields [OF decl] in \<open>simp add: program_checker_simps\<close>)
  then show ?thesis
    using typed_evaluation(2) [OF assms(4)] conversions_okD(2) [OF conv assms(3)] assms(5)
    by (auto simp: program_checker_simps)
qed

definition with_value :: "program \<Rightarrow> global_decl \<Rightarrow> global_decl \<Rightarrow> bool" where
  "with_value p g g' \<longleftrightarrow> (\<exists>v. g' = g\<lparr>global_val := Some v\<rparr> \<and> has_type (structs_of p) v (global_ty g))"

lemma globals_evaluated:
  assumes "constants_typed p" and "values_ok p values"
    and "\<forall>g \<in> set (program_globals p). initializes (initializer_checker p) (global_init g) (global_ty g)"
    and "silent (evaluate_globals p (program_env p) values) P"
  shows "\<exists>gs. P gs \<and> list_all2 (with_value p) (program_globals p) gs"
proof -
  have "\<exists>gs'. P (rest @ gs') \<and> list_all2 (with_value p) gs gs'"
    if "silent (ceach (evaluate_global [] values (global_types_of p) (structs_of p)) (zip ks gs) rest) P"
      and "set gs \<subseteq> set (program_globals p)" and "length ks = length gs" for ks gs rest
    using that(3,1,2)
  proof (induction ks gs arbitrary: rest rule: list_induct2)
    case (Cons k ks g gs)
    obtain v where v: "eval (\<lambda>d. d) (structs_of p) (initializer_lookup values (global_types_of p)) (Some (global_ty g)) (global_init g) = Ok v"
      and more: "silent (ceach (evaluate_global [] values (global_types_of p) (structs_of p)) (zip ks gs)
        (rest @ [if constant_value_ty v = global_ty g then g\<lparr>global_val := Some v\<rparr> else g])) P"
      using Cons.prems(1) by (auto simp: evaluate_global_def evaluate_initializer_eval silent_simps split: sum.splits)
    have "has_type (structs_of p) v (global_ty g)"
      using global_value_typed [OF assms(1,2) _ _ v] assms(3) Cons.prems(2) by simp
    moreover from this have "constant_value_ty v = global_ty g" by (simp add: has_type_def)
    moreover obtain gs' where "P ((rest @ [g\<lparr>global_val := Some v\<rparr>]) @ gs')" "list_all2 (with_value p) gs gs'"
      using Cons.IH [OF more] Cons.prems(2) \<open>constant_value_ty v = global_ty g\<close> by auto
    moreover from calculation have "with_value p g (g\<lparr>global_val := Some v\<rparr>)" by (auto simp: with_value_def)
    ultimately show ?case
      by (intro exI [of _ "g\<lparr>global_val := Some v\<rparr> # gs'"]) simp
  qed (simp add: silent_cret)
  from this [of "[0..<length (program_globals p)]" "program_globals p" "[]"] show ?thesis
    using assms(4) by (simp add: evaluate_globals_def program_env_def)
qed

section \<open>Functions\<close>

lemma functions_accepted:
  assumes "silent (check_functions p (program_env p) values) P" and "types_valid p" and "conversions_ok p"
  shows "(\<forall>f \<in> set (program_functions p). (function_kind f = FkUpdate \<longrightarrow> map param_ty (function_params f) = [VtF32]) \<and>
    function_ok (program_checker p values (function_return_type f)) f) \<and> P ()"
proof -
  have env: "checker_new (global_types_of p) (constant_types_of p) values (structs_of p) (functions_of p) rt = program_checker p values rt" for rt
    by (simp add: program_checker_def env_checker_def program_env_def)
  have one: "silent (cbind (check_update_params f) (\<lambda>_. check_function (global_types_of p) (constant_types_of p) values (structs_of p)
      (functions_of p) f)) Q \<longleftrightarrow> ((function_kind f = FkUpdate \<longrightarrow> map param_ty (function_params f) = [VtF32]) \<and>
        function_ok (program_checker p values (function_return_type f)) f) \<and> Q ()" if "f \<in> set (program_functions p)" for f Q
    using silent_check_function [of "global_types_of p" "constant_types_of p" "values" "structs_of p" "functions_of p" f,
        unfolded env, OF program_env_ok [OF assms(2)] function_plain_program [OF assms(2,3) that]]
    by (auto simp: check_update_params_def silent_simps)
  show ?thesis
    using assms(1) by (simp add: check_functions_def program_env_def silent_on_each [OF one])
qed

section \<open>Accepted programs\<close>

text \<open>What code generation relies on.\<close>

definition program_ok :: "program \<Rightarrow> (string, constant_value) hash_map \<Rightarrow> bool" where
  "program_ok p values \<longleftrightarrow>
     declarations_ok p \<and>
     (\<forall>ty \<in> set (program_types p). \<forall>len \<in> set (collect_lengths ty). \<exists>k. len = AlResolved k \<and> 1 \<le> k \<and> k < 2 ^ 31) \<and>
     (\<forall>n v. hm_get (predefined_values p) n = Some v \<longrightarrow> hm_get values n = Some v) \<and>
     (\<forall>c \<in> set (program_constants p). \<exists>v. constant_val c = Some v \<and> hm_get values (constant_name c) = Some v \<and>
        has_type (structs_of p) v (constant_ty c)) \<and>
     (\<forall>g \<in> set (program_globals p). \<exists>v. global_val g = Some v \<and> has_type (structs_of p) v (global_ty g)) \<and>
     (\<forall>f \<in> set (program_functions p).
        (function_kind f = FkUpdate \<longrightarrow> map param_ty (function_params f) = [VtF32]) \<and>
        function_ok (program_checker p values (function_return_type f)) f)"

text \<open>Filling in values changes nothing that the declarations say.\<close>

definition same_declarations :: "program \<Rightarrow> program \<Rightarrow> bool" where
  "same_declarations p q \<longleftrightarrow>
     program_structs p = program_structs q \<and> program_functions p = program_functions q \<and>
     program_resolution p = program_resolution q \<and>
     map (\<lambda>c. (constant_name c, constant_ty c)) (program_constants p) = map (\<lambda>c. (constant_name c, constant_ty c)) (program_constants q) \<and>
     map (\<lambda>g. (global_name g, global_ty g)) (program_globals p) = map (\<lambda>g. (global_name g, global_ty g)) (program_globals q)"

lemma same_declarations_maps:
  assumes "same_declarations p q"
  shows "structs_of p = structs_of q" "program_env p = program_env q" "predefined_values p = predefined_values q"
    "top_level p = top_level q" "program_types p = program_types q"
proof -
  have c: "map constant_name (program_constants p) = map constant_name (program_constants q)"
    "map constant_ty (program_constants p) = map constant_ty (program_constants q)"
    and g: "map global_name (program_globals p) = map global_name (program_globals q)"
    "map global_ty (program_globals p) = map global_ty (program_globals q)"
    using assms [unfolded same_declarations_def] map_map [of fst] map_map [of snd] by (metis (no_types, lifting) comp_def fst_conv snd_conv map_eq_conv)+
  show "structs_of p = structs_of q" "program_env p = program_env q" "predefined_values p = predefined_values q"
    "top_level p = top_level q" "program_types p = program_types q"
    using assms c g
    by (simp_all add: same_declarations_def structs_of_def program_env_def constant_types_of_def global_types_of_def
        functions_of_def predefined_values_def top_level_def program_types_def)
qed

lemma same_declarations_ok:
  assumes "same_declarations p q"
  shows "declarations_ok p \<longleftrightarrow> declarations_ok q" and "program_checker p values rt = program_checker q values rt"
  using assms same_declarations_maps [OF assms]
  by (simp_all add: declarations_ok_def program_checker_def same_declarations_def)

lemma deduplicate_empty: "deduplicate_diagnostics ds = [] \<Longrightarrow> ds = []"
  by (cases ds) (auto simp: deduplicate_diagnostics_def)

text \<open>The lengths and conversions of a program as the parser builds it.\<close>

definition as_parsed :: "program \<Rightarrow> bool" where
  "as_parsed p \<longleftrightarrow> (\<forall>ty \<in> set (program_types p). list_all written_length (collect_lengths ty)) \<and> conversions_ok p"

lemma analyse_ok:
  assumes "analyse p = Some (p', [])" and "as_parsed p"
  shows "conversions_ok p' \<and> (\<exists>values. program_ok p' values)"
proof -
  obtain q failed where res: "resolve_program_types p [] = Some (q, [], failed)"
    and run: "silent (declare_all q failed) (\<lambda>env. silent (check_initializers_of q env) (\<lambda>_.
      silent (evaluate_constants q env) (\<lambda>values.
        let q' = q\<lparr>program_constants := map (\<lambda>c. c\<lparr>constant_val := hm_get values (constant_name c)\<rparr>) (program_constants q)\<rparr> in
        silent (evaluate_globals q' env values) (\<lambda>gs. silent (check_functions q' env values) (\<lambda>_. p' = q'\<lparr>program_globals := gs\<rparr>)))))"
  proof -
    have "silent (analyse p) (\<lambda>r. p' = r)" using assms(1) by (simp add: silent_def)
    then show ?thesis
      using that unfolding analyse_def silent_cbind Let_def
      by (auto simp: silent_cret silent_cbind silent_def [of "map_option _ _"])
  qed
  have lengths: "\<exists>k. len = AlResolved k \<and> 1 \<le> k \<and> k < 2 ^ 31" if "ty \<in> set (program_types q)" "len \<in> set (collect_lengths ty)" for ty len
    using clean_length [OF _ res that] assms(2) by (simp add: as_parsed_def)
  have valid: "types_valid q"
    using clean_type_valid [OF _ res] assms(2) by (simp add: types_valid_def as_parsed_def)
  have conv: "conversions_ok q"
    using assms(2) resolve_program_types_clean(1) [OF res] by (simp add: as_parsed_def conversions_ok_def program_exprs_retype)
  have failed: "failed = []" by (rule resolve_program_types_clean(2) [OF res])
  note decl = silent_declare_all [OF run [unfolded failed] valid [unfolded types_valid_def]]
  note inits = initializers_typed [OF conjunct2 [OF decl] valid conv]
  have typed: "constants_typed q" using decl valid conv inits by (simp add: constants_typed_def)
  obtain "values" where vals: "values_ok q values" and
    more: "let q' = q\<lparr>program_constants := map (\<lambda>c. c\<lparr>constant_val := hm_get values (constant_name c)\<rparr>) (program_constants q)\<rparr> in
        silent (evaluate_globals q' (program_env q) values) (\<lambda>gs. silent (check_functions q' (program_env q) values)
          (\<lambda>_. p' = q'\<lparr>program_globals := gs\<rparr>))"
    using constants_evaluated [OF conjunct2 [OF conjunct2 [OF inits]]] by (auto simp: values_ok_def)
  let ?cs = "map (\<lambda>c. c\<lparr>constant_val := hm_get values (constant_name c)\<rparr>) (program_constants q)"
  have same_q: "evaluate_globals (q\<lparr>program_constants := ?cs\<rparr>) env values = evaluate_globals q env values"
    "check_functions (q\<lparr>program_constants := ?cs\<rparr>) env values = check_functions q env values" for env
    by (simp_all add: evaluate_globals_def check_functions_def)
  have "silent (evaluate_globals q (program_env q) values) (\<lambda>gs. silent (check_functions q (program_env q) values)
      (\<lambda>_. p' = q\<lparr>program_constants := ?cs, program_globals := gs\<rparr>))"
    using more by (simp add: Let_def same_q)
  from globals_evaluated [OF typed vals _ this] inits
  obtain gs where gs: "list_all2 (with_value q) (program_globals q) gs"
    and fns: "silent (check_functions q (program_env q) values) (\<lambda>_. p' = q\<lparr>program_constants := ?cs, program_globals := gs\<rparr>)"
    by blast
  note accepted = functions_accepted [OF fns valid conv]
  have p': "p' = q\<lparr>program_constants := ?cs, program_globals := gs\<rparr>" using accepted by simp
  have "map (\<lambda>g. (global_name g, global_ty g)) gs = map (\<lambda>g. (global_name g, global_ty g)) (program_globals q)"
    using gs by (induction rule: list_all2_induct) (auto simp: with_value_def)
  then have same: "same_declarations p' q" by (simp add: p' same_declarations_def comp_def)
  have "\<exists>v. constant_val c = Some v \<and> hm_get values (constant_name c) = Some v \<and> has_type (structs_of q) v (constant_ty c)"
    if "c \<in> set ?cs" for c
  proof -
    obtain c0 where c0: "c0 \<in> set (program_constants q)" "c = c0\<lparr>constant_val := hm_get values (constant_name c0)\<rparr>"
      using \<open>c \<in> set ?cs\<close> by auto
    obtain v where v: "hm_get values (constant_name c0) = Some v" using vals c0(1) by (auto simp: values_ok_def hm_contains_def)
    then have "denotes_constant q (constant_name c0) v" using vals by (simp add: values_ok_def)
    moreover have "\<not> hm_contains (global_types_of q) (constant_name c0)"
      using values_not_global [OF _ vals v] decl by simp
    ultimately have "has_type (structs_of q) v (constant_ty c0)"
      using denotes_constant_typed [OF typed _ constant_binding] decl c0(1) by force
    then show ?thesis using c0(2) v by simp
  qed
  moreover have "\<exists>v. global_val g = Some v \<and> has_type (structs_of q) v (global_ty g)" if "g \<in> set gs" for g
    using gs that by (auto simp: list_all2_conv_all_nth in_set_conv_nth with_value_def)
  ultimately have "program_ok p' values"
    using accepted decl vals lengths same same_declarations_maps [OF same] same_declarations_ok [OF same]
    by (simp add: program_ok_def p' values_ok_def)
  moreover have "map global_init gs = map global_init (program_globals q)"
    using gs by (induction rule: list_all2_induct) (auto simp: with_value_def)
  then have "program_exprs p' = program_exprs q" by (simp add: p' program_exprs_def comp_def)
  then have "conversions_ok p'" using conv by (simp add: conversions_ok_def)
  ultimately show ?thesis by blast
qed

lemma accepted_analysis:
  assumes "check_program p = Some (p', Ok ())" and "as_parsed p"
  shows "conversions_ok p' \<and> (\<exists>values. program_ok p' values)"
proof -
  obtain ds where "analyse p = Some (p', ds)" "deduplicate_diagnostics ds = []"
    using assms(1) by (auto simp: check_program_def Let_def split: if_splits)
  then show ?thesis using deduplicate_empty analyse_ok assms(2) by blast
qed

text \<open>
  C36 Semantic analysis is sound: an accepted program, as code generation gets it, has distinct names, none of them
  predefined, its three entry points once each, no struct that contains itself, only declared types and lengths
  from 1 to the limit of an index, constants and globals with values of their declared types in all their parts, and functions
  that follow the typing rules.
\<close>

theorem accepted_program_ok:
  assumes "check_program p = Some (p', Ok ())" and "as_parsed p"
  shows "\<exists>values. program_ok p' values"
  using accepted_analysis [OF assms] by blast

text \<open>Programs with their entry points and nothing else.\<close>

definition entry_point :: "string \<Rightarrow> function_kind \<Rightarrow> param list \<Rightarrow> span \<Rightarrow> function_decl" where
  "entry_point n k ps at_span =
     \<lparr>function_name = n, function_kind = k, function_params = ps, function_return_type = RtVoid, function_body = [],
      function_span = at_span\<rparr>"

definition bare_program :: "string \<Rightarrow> span \<Rightarrow> span \<Rightarrow> span \<Rightarrow> span \<Rightarrow> span \<Rightarrow> program" where
  "bare_program title title_at start_at update_at dt_at draw_at =
     \<lparr>program_resolution = resolution_default, program_title = title, program_title_span = title_at, program_structs = [],
      program_sounds = [], program_constants = [], program_globals = [],
      program_functions = [entry_point ''start'' FkStart [] start_at,
        entry_point ''update'' FkUpdate [\<lparr>param_name = ''dt'', param_ty = VtF32, param_span = dt_at\<rparr>] update_at,
        entry_point ''draw'' FkDraw [] draw_at]\<rparr>"

definition sample_program :: program where
  "sample_program = bare_program [] span_default span_default span_default span_default span_default"

lemmas bare_defs = bare_program_def entry_point_def

lemma bare_resolved: "resolve_program_types (bare_program t a b c d e) [] = Some (bare_program t a b c d e, [], [])"
  by (simp add: resolve_program_types_def resolve_declarations_def bare_defs resolve_function_def
      resolve_param_def resolve_return_type_def length_evaluator_new_def constant_values_new_def)

lemma bare_declared: "\<exists>env. declare_all (bare_program t a b c d e) [] = Some (env, [])"
  by (simp add: declare_all_def declare_types_def declare_values_def declare_functions_def bare_defs
      validate_declared_types_def validate_function_types_def on_each_def cret_def cbind_def struct_type_analysis_new_def
      sorted_declarations_def hm_values_def struct_edges_def recursive_members_def propagate_invalid_def invalid_members_def
      marked_of_def invalid_constants_def invalid_globals_def declare_function_def Let_def entry_count_def)

lemma not_predefined_dt: "\<not> is_predefined_constant ''dt''"
  unfolding is_predefined_constant_get [of _ resolution_default] hm_contains_def
  by (simp add: builtin_constants_other)

lemma bare_functions: "check_functions (bare_program t a b c d e) env vs = Some ((), [])"
  by (simp add: check_functions_def check_update_params_def bare_defs on_each_def check_function_def
      checker_new_def insert_binding_def not_predefined_dt cret_def cbind_def cwhen_def hm_contains_def return_value_type_def)

lemma cbind_clean: "cbind (Some (a, [])) f = f a"
  by (auto simp: cbind_def split: option.split)

lemma bare_accepted:
  fixes t a b c d e
  defines "p \<equiv> bare_program t a b c d e"
  shows "check_program p = Some (p, Ok ())"
proof -
  obtain env where env: "declare_all p [] = Some (env, [])" using bare_declared unfolding p_def by blast
  have none: "program_constants p = []" "program_globals p = []" by (simp_all add: p_def bare_program_def)
  have inits: "check_initializers_of p env = Some ((), [])" "evaluate_globals p env vs = Some ([], [])" for vs
    by (simp_all add: check_initializers_of_def on_each_def none cret_def cbind_def evaluate_globals_def)
  obtain vs where vs: "evaluate_constants p env = Some (vs, [])"
    by (simp add: evaluate_constants_def none cret_def cbind_def)
  have same: "p\<lparr>program_constants := []\<rparr> = p" "p\<lparr>program_globals := []\<rparr> = p"
    by (simp_all add: p_def bare_program_def)
  have "analyse p = Some (p, [])"
    using bare_resolved [of t a b c d e, folded p_def] bare_functions [of t a b c d e, folded p_def]
    by (simp add: analyse_def env cbind_clean inits vs none Let_def same cret_def)
  then show ?thesis by (simp add: check_program_def deduplicate_diagnostics_def)
qed

lemma sample_accepted: "check_program sample_program = Some (sample_program, Ok ())"
  unfolding sample_program_def by (rule bare_accepted)

lemma sample_as_parsed: "as_parsed sample_program"
  by (simp add: as_parsed_def conversions_ok_def program_exprs_def sample_program_def bare_defs program_types_def function_types_def)

theorem accepted_program_ok_witness: "\<exists>values. program_ok sample_program values"
  using accepted_program_ok [OF sample_accepted sample_as_parsed] .

end
