(* ===== verification/Llvm_Text.thy ===== *)
theory Llvm_Text
  imports Ast
begin

text \<open>
  The text of LLVM types, constants and symbols, the free functions at the end of
  \<^verbatim>\<open>src/src/codegen/llvm.rs\<close>, and \<open>llvm_byte_string\<close> of
  \<^verbatim>\<open>src/src/codegen/embedded_data.rs\<close>. \<^const>\<open>None\<close> is a panic: an array type
  whose length was never resolved has no text.
\<close>

section \<open>Hexadecimal\<close>

definition hex_digit :: "nat \<Rightarrow> char" where
  "hex_digit d = (if d < 10 then char_of (48 + d) else char_of (55 + d))"

text \<open>Upper-case digits padded with zeros to a width that the number does not exceed.\<close>

definition hex_fixed :: "nat \<Rightarrow> nat \<Rightarrow> string" where
  "hex_fixed w n = map (\<lambda>i. hex_digit (n div 16 ^ i mod 16)) (rev [0..<w])"

text \<open>The byte escape \<open>\XX\<close> of LLVM strings and quoted names.\<close>

definition byte_escape :: "char \<Rightarrow> string" where
  "byte_escape c = CHR 0x5C # hex_fixed 2 (byte c)"

section \<open>Symbols\<close>

definition is_symbol_byte :: "char \<Rightarrow> bool" where
  "is_symbol_byte c \<longleftrightarrow> is_ascii_alphanumeric c \<or> c = CHR ''_''"

definition quote_byte :: char where
  "quote_byte = CHR 0x22"

definition symbol_name :: "string \<Rightarrow> string \<Rightarrow> string" where
  "symbol_name kind name =
     (let plain = ''spk_'' @ kind @ ''_'' @ name in
      if list_all is_symbol_byte plain then plain
      else [quote_byte]
        @ concat (map (\<lambda>c. if is_symbol_byte c then [c] else byte_escape c) plain)
        @ [quote_byte])"

section \<open>Types\<close>

fun llvm_value_type :: "value_type \<Rightarrow> string option" where
  "llvm_value_type VtI32 = Some ''i32''"
| "llvm_value_type VtF32 = Some ''float''"
| "llvm_value_type VtBool = Some ''i1''"
| "llvm_value_type (VtStruct name) = Some (CHR ''%'' # symbol_name ''struct'' name)"
| "llvm_value_type (VtArray element (AlResolved len)) =
     map_option (\<lambda>e. ''['' @ show_nat len @ '' x '' @ e @ '']'') (llvm_value_type element)"
| "llvm_value_type (VtArray element _) = None"

definition llvm_return_type :: "return_type \<Rightarrow> string option" where
  "llvm_return_type rt = (case rt of RtValue ty \<Rightarrow> llvm_value_type ty | RtVoid \<Rightarrow> Some ''void'')"

section \<open>Constants\<close>

text \<open>
  The bits of a 32-bit float as a 64-bit one, which represents it exactly: the exponent is rebiased, and a
  subnormal is normalised.
\<close>

definition f64_magnitude :: "f32 \<Rightarrow> nat" where
  "f64_magnitude f =
     (if f32_exponent f = 255 then
        2047 * 2 ^ 52 + f32_fraction f * 2 ^ 29
        + (if f32_fraction f \<noteq> 0 \<and> f32_fraction f < 2 ^ 22 then 2 ^ 51 else 0)
      else if f32_exponent f \<noteq> 0 then (f32_exponent f + 896) * 2 ^ 52 + f32_fraction f * 2 ^ 29
      else if f32_fraction f = 0 then 0
      else let k = log2_floor (f32_fraction f)
           in (k + 874) * 2 ^ 52 + (f32_fraction f - 2 ^ k) * 2 ^ (52 - k))"

definition f64_bits :: "f32 \<Rightarrow> nat" where
  "f64_bits f = (if f32_negative f then 2 ^ 63 else 0) + f64_magnitude f"

definition llvm_float :: "f32 \<Rightarrow> string" where
  "llvm_float f = ''0x'' @ hex_fixed 16 (f64_bits f)"

definition bool_text :: "bool \<Rightarrow> string" where
  "bool_text b = (if b then ''true'' else ''false'')"

definition i32_text :: "i32 \<Rightarrow> string" where
  "i32_text v = show_int (sint v)"

text \<open>The texts of a list, when every element has one.\<close>

fun all_some :: "'a option list \<Rightarrow> 'a list option" where
  "all_some [] = Some []"
| "all_some (x # xs) = Option.bind x (\<lambda>a. map_option (\<lambda>as. a # as) (all_some xs))"

fun llvm_constant :: "constant_value \<Rightarrow> string option" where
  "llvm_constant (CvI32 v) = Some (i32_text v)"
| "llvm_constant (CvF32 f) = Some (llvm_float f)"
| "llvm_constant (CvBool b) = Some (bool_text b)"
| "llvm_constant (CvStruct name fs) =
     map_option (\<lambda>ts. ''{ '' @ join '', '' ts @ '' }'')
       (all_some (map (\<lambda>(n, v). Option.bind (llvm_value_type (constant_value_ty v)) (\<lambda>t.
          map_option (\<lambda>c. t @ '' '' @ c) (llvm_constant v))) fs))"
| "llvm_constant (CvArray element_type elements) =
     Option.bind (llvm_value_type element_type) (\<lambda>t.
       map_option (\<lambda>ts. ''['' @ join '', '' ts @ '']'')
         (all_some (map (\<lambda>v. map_option (\<lambda>c. t @ '' '' @ c) (llvm_constant v)) elements)))"

definition is_aggregate_constant :: "constant_value \<Rightarrow> bool" where
  "is_aggregate_constant v = (case v of CvArray t es \<Rightarrow> True | CvStruct n fs \<Rightarrow> True | _ \<Rightarrow> False)"

section \<open>Byte strings\<close>

definition is_printable_byte :: "char \<Rightarrow> bool" where
  "is_printable_byte c \<longleftrightarrow> 32 \<le> byte c \<and> byte c \<le> 126 \<and> c \<noteq> quote_byte \<and> c \<noteq> CHR 0x5C"

definition llvm_byte_string :: "string \<Rightarrow> string" where
  "llvm_byte_string bytes =
     ''c'' @ [quote_byte]
     @ concat (map (\<lambda>c. if is_printable_byte c then [c] else byte_escape c) bytes)
     @ [quote_byte]"

end
