(* ===== verification/Codegen.thy ===== *)
theory Codegen
  imports Llvm_Text Builtins Checker
begin

text \<open>
  Emission of one function, \<open>FunctionEmitter\<close> of \<^verbatim>\<open>src/src/codegen/llvm.rs\<close> with
  \<^verbatim>\<open>src/src/codegen/runtime_diagnostics.rs\<close>. An operation is a state transformer on the
  emitter, and \<^const>\<open>None\<close> is a panic. A line of the output keeps apart what the operation that
  writes it knows: whether it is a label, an instruction, an assignment to a temporary or a terminator; its text is
  \<open>line_text\<close>. The scopes of the code grow at the end of a vector, here at the head of a list.
\<close>

section \<open>Lines\<close>

datatype terminator =
    TmBranch string
  | TmConditional string string string
  | TmReturn string string
  | TmReturnVoid
  | TmUnreachable

definition terminator_text :: "terminator \<Rightarrow> string" where
  "terminator_text t =
     (case t of
        TmBranch label \<Rightarrow> ''br label %'' @ label
      | TmConditional c a b \<Rightarrow> ''br i1 '' @ c @ '', label %'' @ a @ '', label %'' @ b
      | TmReturn ty repr \<Rightarrow> ''ret '' @ ty @ '' '' @ repr
      | TmReturnVoid \<Rightarrow> ''ret void''
      | TmUnreachable \<Rightarrow> ''unreachable'')"

datatype line =
    LnHeader string
  | LnLabel string
  | LnInstruction string
  | LnAssign string string
  | LnTerminator terminator
  | LnClose

definition line_text :: "line \<Rightarrow> string" where
  "line_text l =
     (case l of
        LnHeader s \<Rightarrow> s
      | LnLabel label \<Rightarrow> label @ '':''
      | LnInstruction s \<Rightarrow> ''  '' @ s
      | LnAssign temp s \<Rightarrow> ''  '' @ temp @ '' = '' @ s
      | LnTerminator t \<Rightarrow> ''  '' @ terminator_text t
      | LnClose \<Rightarrow> ''}'')"

section \<open>The emitter\<close>

record symbol_signature =
  sym_params :: "value_type list"
  sym_return :: return_type
  sym_symbol :: string

record variable =
  var_ty :: value_type
  var_pointer :: string

record operand =
  op_ty :: return_type
  op_repr :: string

definition variable_at :: "value_type \<Rightarrow> string \<Rightarrow> variable" where
  "variable_at ty pointer = \<lparr>var_ty = ty, var_pointer = pointer\<rparr>"

definition operand_of :: "value_type \<Rightarrow> string \<Rightarrow> operand" where
  "operand_of ty repr = \<lparr>op_ty = RtValue ty, op_repr = repr\<rparr>"

datatype runtime_diagnostics = RdPlain | RdLocated source_map

record gen_env =
  ge_globals :: "(string, variable) hash_map"
  ge_constants :: "(string, constant_value) hash_map"
  ge_structs :: "(string, struct_decl) hash_map"
  ge_functions :: "(string, symbol_signature) hash_map"
  ge_diagnostics :: runtime_diagnostics
  ge_function :: function_decl

record emitter =
  em_scopes :: "(string, variable) hash_map list"
  em_lines :: "line list"
  em_next_temp :: nat
  em_next_label :: nat
  em_current_block :: string
  em_terminated :: bool

definition emitter_new :: emitter where
  "emitter_new =
     \<lparr>em_scopes = [[]], em_lines = [], em_next_temp = 0, em_next_label = 0, em_current_block = ''entry'',
      em_terminated = False\<rparr>"

type_synonym 'a gen = "emitter \<Rightarrow> ('a \<times> emitter) option"

definition gret :: "'a \<Rightarrow> 'a gen" where
  "gret a em = Some (a, em)"

definition gbind :: "'a gen \<Rightarrow> ('a \<Rightarrow> 'b gen) \<Rightarrow> 'b gen" where
  "gbind m f em = Option.bind (m em) (\<lambda>(a, em'). f a em')"

definition gpanic :: "'a gen" where
  "gpanic em = None"

text \<open>\<open>expect\<close> and the like.\<close>

definition gsome :: "'a option \<Rightarrow> 'a gen" where
  "gsome x em = map_option (\<lambda>a. (a, em)) x"

lemma gbind_cong [fundef_cong]: "m = m' \<Longrightarrow> (\<And>a. f a = f' a) \<Longrightarrow> gbind m f = gbind m' f'"
  by presburger

lemma gbind_gsome: "gbind (gsome None) f = gpanic" "gbind (gsome (Some a)) f = f a"
  by (simp_all add: gbind_def gsome_def gpanic_def fun_eq_iff)

definition push_line :: "line \<Rightarrow> unit gen" where
  "push_line l em = Some ((), em\<lparr>em_lines := em_lines em @ [l]\<rparr>)"

definition temp :: "string gen" where
  "temp em = Some (''%t'' @ show_nat (em_next_temp em), em\<lparr>em_next_temp := em_next_temp em + 1\<rparr>)"

definition label :: "string \<Rightarrow> string gen" where
  "label prefix em =
     Some (prefix @ ''_'' @ show_nat (em_next_label em), em\<lparr>em_next_label := em_next_label em + 1\<rparr>)"

definition instruction :: "string \<Rightarrow> unit gen" where
  "instruction s = push_line (LnInstruction s)"

text \<open>The instruction \<open>{temp} = s\<close>.\<close>

definition assign_to :: "string \<Rightarrow> string \<Rightarrow> unit gen" where
  "assign_to t s = push_line (LnAssign t s)"

text \<open>A new temporary and the instruction that defines it.\<close>

definition assign_temp :: "string \<Rightarrow> string gen" where
  "assign_temp s = gbind temp (\<lambda>t. gbind (assign_to t s) (\<lambda>_. gret t))"

definition terminate :: "terminator \<Rightarrow> unit gen" where
  "terminate t = gbind (push_line (LnTerminator t)) (\<lambda>_ em. Some ((), em\<lparr>em_terminated := True\<rparr>))"

definition place_label :: "string \<Rightarrow> unit gen" where
  "place_label l =
     gbind (push_line (LnLabel l)) (\<lambda>_ em. Some ((), em\<lparr>em_current_block := l, em_terminated := False\<rparr>))"

definition entry_alloca :: "string \<Rightarrow> string gen" where
  "entry_alloca ty =
     gbind temp (\<lambda>pointer em.
       if length (em_lines em) < 2 then None
       else Some (pointer, em\<lparr>em_lines := take 2 (em_lines em) @ [LnAssign pointer (''alloca '' @ ty)] @ drop 2 (em_lines em)\<rparr>))"

definition is_terminated :: "bool gen" where
  "is_terminated em = Some (em_terminated em, em)"

definition current_block :: "string gen" where
  "current_block em = Some (em_current_block em, em)"

definition terminate_unless :: "bool \<Rightarrow> terminator \<Rightarrow> unit gen" where
  "terminate_unless b t = (if b then gret () else terminate t)"

fun lookup_scopes :: "(string, variable) hash_map list \<Rightarrow> string \<Rightarrow> variable option" where
  "lookup_scopes [] n = None"
| "lookup_scopes (scope # scopes) n = (case hm_get scope n of Some v \<Rightarrow> Some v | None \<Rightarrow> lookup_scopes scopes n)"

definition variable_of :: "gen_env \<Rightarrow> string \<Rightarrow> variable option gen" where
  "variable_of env n em =
     Some (case lookup_scopes (em_scopes em) n of Some v \<Rightarrow> Some v | None \<Rightarrow> hm_get (ge_globals env) n, em)"

definition bind_variable :: "string \<Rightarrow> variable \<Rightarrow> unit gen" where
  "bind_variable n v em =
     (case em_scopes em of
        [] \<Rightarrow> None
      | scope # scopes \<Rightarrow> Some ((), em\<lparr>em_scopes := hm_insert n v scope # scopes\<rparr>))"

definition in_new_scope :: "(string, variable) hash_map \<Rightarrow> unit gen \<Rightarrow> unit gen" where
  "in_new_scope scope body =
     gbind (\<lambda>em. Some ((), em\<lparr>em_scopes := scope # em_scopes em\<rparr>)) (\<lambda>_.
     gbind body (\<lambda>_ em. Some ((), em\<lparr>em_scopes := tl (em_scopes em)\<rparr>)))"

section \<open>Source locations of runtime failures\<close>

definition diagnostics_declarations :: "runtime_diagnostics \<Rightarrow> string" where
  "diagnostics_declarations d =
     (case d of
        RdPlain \<Rightarrow> []
      | RdLocated sources \<Rightarrow>
          ''declare void @crumb_source_location(ptr, i32, i32)'' @ [newline]
          @ concat (map (\<lambda>(i, path). ''@spk_source_'' @ show_nat i @ '' = private unnamed_addr constant ['' @ show_nat (length path + 1)
                @ '' x i8] c'' @ [quote_byte] @ concat (map byte_escape path) @ [CHR 0x5C] @ ''00'' @ [quote_byte, newline])
              (enumerate 0 (map sf_path (sm_files sources)))))"

text \<open>The instruction that reports a location, if any; a span outside the sources panics.\<close>

definition diagnostics_instruction :: "runtime_diagnostics \<Rightarrow> span \<Rightarrow> string option option" where
  "diagnostics_instruction d s =
     (case d of
        RdPlain \<Rightarrow> Some None
      | RdLocated sources \<Rightarrow>
          map_option (\<lambda>(path, line, column). Some (''call void @crumb_source_location(ptr @spk_source_''
              @ show_nat (span_source s) @ '', i32 '' @ show_nat line @ '', i32 '' @ show_nat column @ '')''))
            (map_location sources s))"

definition report_location :: "gen_env \<Rightarrow> span \<Rightarrow> unit gen" where
  "report_location env s =
     gbind (gsome (diagnostics_instruction (ge_diagnostics env) s)) (\<lambda>location.
       case location of None \<Rightarrow> gret () | Some l \<Rightarrow> instruction l)"

end
