(* ===== verification/Codegen_Expr.thy ===== *)
theory Codegen_Expr
  imports Codegen
begin

text \<open>
  Emission of expressions and assignment targets, the middle of \<^verbatim>\<open>src/src/codegen/llvm.rs\<close>.
  An operation that the code writes inside \<open>expression\<close> and that emits a fixed pattern stands here
  on its own; \<open>lvalue\<close>, \<open>expression\<close> and \<open>expression_as\<close> call each other.
\<close>

section \<open>Operators\<close>

definition operand_value_type :: "operand \<Rightarrow> value_type option" where
  "operand_value_type v = return_value_type (op_ty v)"

definition bounds_check :: "gen_env \<Rightarrow> string \<Rightarrow> nat \<Rightarrow> span \<Rightarrow> unit gen" where
  "bounds_check env index len s =
     gbind (assign_temp (''icmp sge i32 '' @ index @ '', 0'')) (\<lambda>nonnegative.
     gbind (assign_temp (''icmp slt i32 '' @ index @ '', '' @ show_nat len)) (\<lambda>below_length.
     gbind (assign_temp (''and i1 '' @ nonnegative @ '', '' @ below_length)) (\<lambda>valid.
     gbind (label ''bounds_valid'') (\<lambda>valid_label.
     gbind (label ''bounds_failure'') (\<lambda>failure_label.
     gbind (terminate (TmConditional valid valid_label failure_label)) (\<lambda>_.
     gbind (place_label failure_label) (\<lambda>_.
     gbind (report_location env s) (\<lambda>_.
     gbind (instruction (''call void @crumb_bounds_fail(i32 '' @ index @ '', i32 '' @ show_nat len @ '')'')) (\<lambda>_.
     gbind (terminate TmUnreachable) (\<lambda>_.
       place_label valid_label))))))))))"

definition i32_min_text :: string where
  "i32_min_text = ''-2147483648''"

definition division_parts :: "binary_op \<Rightarrow> (string \<times> string \<times> string) option" where
  "division_parts op =
     (case op of
        BoDivide \<Rightarrow> Some (''sdiv'', ''crumb_division_fail'', ''division'')
      | BoRemainder \<Rightarrow> Some (''srem'', ''crumb_remainder_fail'', ''remainder'')
      | _ \<Rightarrow> None)"

definition checked_i32_division :: "gen_env \<Rightarrow> operand \<Rightarrow> binary_op \<Rightarrow> operand \<Rightarrow> span \<Rightarrow> operand gen" where
  "checked_i32_division env left op right s =
     gbind (gsome (division_parts op)) (\<lambda>(mnemonic, fail_hook, stage).
     gbind (label (stage @ ''_failure'')) (\<lambda>failure_label.
     gbind (label (stage @ ''_valid'')) (\<lambda>valid_label.
     gbind (assign_temp (''icmp eq i32 '' @ op_repr right @ '', 0'')) (\<lambda>is_zero.
     gbind (assign_temp (''icmp eq i32 '' @ op_repr left @ '', '' @ i32_min_text)) (\<lambda>is_minimum.
     gbind (assign_temp (''icmp eq i32 '' @ op_repr right @ '', -1'')) (\<lambda>is_negative_one.
     gbind (assign_temp (''and i1 '' @ is_minimum @ '', '' @ is_negative_one)) (\<lambda>overflows.
     gbind (assign_temp (''or i1 '' @ is_zero @ '', '' @ overflows)) (\<lambda>invalid.
     gbind (terminate (TmConditional invalid failure_label valid_label)) (\<lambda>_.
     gbind (place_label failure_label) (\<lambda>_.
     gbind (report_location env s) (\<lambda>_.
     gbind (instruction (''call void @'' @ fail_hook @ ''(i32 '' @ op_repr left @ '', i32 '' @ op_repr right @ '')'')) (\<lambda>_.
     gbind (terminate TmUnreachable) (\<lambda>_.
     gbind (place_label valid_label) (\<lambda>_.
     gbind (assign_temp (mnemonic @ '' i32 '' @ op_repr left @ '', '' @ op_repr right)) (\<lambda>result.
       gret (operand_of VtI32 result))))))))))))))))"

text \<open>The instruction of an operator that needs no check, and the type of its result.\<close>

definition binary_instruction :: "bool \<Rightarrow> value_type \<Rightarrow> binary_op \<Rightarrow> (string \<times> value_type) option" where
  "binary_instruction is_float ty op =
     (case op of
        BoAdd \<Rightarrow> Some (if is_float then ''fadd'' else ''add'', ty)
      | BoSubtract \<Rightarrow> Some (if is_float then ''fsub'' else ''sub'', ty)
      | BoMultiply \<Rightarrow> Some (if is_float then ''fmul'' else ''mul'', ty)
      | BoDivide \<Rightarrow> Some (if is_float then ''fdiv'' else ''sdiv'', ty)
      | BoEqual \<Rightarrow> Some (if is_float then ''fcmp oeq'' else ''icmp eq'', VtBool)
      | BoNotEqual \<Rightarrow> Some (if is_float then ''fcmp one'' else ''icmp ne'', VtBool)
      | BoLess \<Rightarrow> Some (if is_float then ''fcmp olt'' else ''icmp slt'', VtBool)
      | BoLessEqual \<Rightarrow> Some (if is_float then ''fcmp ole'' else ''icmp sle'', VtBool)
      | BoGreater \<Rightarrow> Some (if is_float then ''fcmp ogt'' else ''icmp sgt'', VtBool)
      | BoGreaterEqual \<Rightarrow> Some (if is_float then ''fcmp oge'' else ''icmp sge'', VtBool)
      | BoLogicalAnd \<Rightarrow> None
      | BoLogicalOr \<Rightarrow> None
      | BoRemainder \<Rightarrow> None)"

definition emit_binary :: "gen_env \<Rightarrow> operand \<Rightarrow> binary_op \<Rightarrow> operand \<Rightarrow> span \<Rightarrow> operand gen" where
  "emit_binary env left op right s =
     gbind (gsome (operand_value_type left)) (\<lambda>left_type.
       if (op = BoDivide \<or> op = BoRemainder) \<and> left_type \<noteq> VtF32 then checked_i32_division env left op right s
       else
         gbind (gsome (binary_instruction (left_type = VtF32) left_type op)) (\<lambda>(mnemonic, result_type).
         gbind (gsome (llvm_value_type left_type)) (\<lambda>ty.
         gbind (assign_temp (mnemonic @ '' '' @ ty @ '' '' @ op_repr left @ '', '' @ op_repr right)) (\<lambda>t.
           gret (operand_of result_type t)))))"

definition short_value :: "binary_op \<Rightarrow> string" where
  "short_value op = (if op = BoLogicalAnd then ''false'' else ''true'')"

text \<open>\<open>logical_expression\<close> after its left operand; \<open>right\<close> emits the other operand.\<close>

definition logical_rest :: "operand \<Rightarrow> binary_op \<Rightarrow> operand gen \<Rightarrow> operand gen" where
  "logical_rest left op right =
     gbind (label ''logical_rhs'') (\<lambda>rhs_label.
     gbind (label ''logical_short'') (\<lambda>short_label.
     gbind (label ''logical_merge'') (\<lambda>merge_label.
     gbind (terminate (if op = BoLogicalAnd then TmConditional (op_repr left) rhs_label short_label
                       else TmConditional (op_repr left) short_label rhs_label)) (\<lambda>_.
     gbind (place_label short_label) (\<lambda>_.
     gbind (terminate (TmBranch merge_label)) (\<lambda>_.
     gbind (place_label rhs_label) (\<lambda>_.
     gbind right (\<lambda>r.
     gbind current_block (\<lambda>rhs_predecessor.
     gbind (terminate (TmBranch merge_label)) (\<lambda>_.
     gbind (place_label merge_label) (\<lambda>_.
     gbind (assign_temp (''phi i1 ['' @ short_value op @ '', %'' @ short_label @ ''], ['' @ op_repr r @ '', %''
                         @ rhs_predecessor @ '']'')) (\<lambda>t.
       gret (operand_of VtBool t)))))))))))))"

lemma logical_rest_cong [fundef_cong]:
  "left = left' \<Longrightarrow> op = op' \<Longrightarrow> right = right' \<Longrightarrow> logical_rest left op right = logical_rest left' op' right'"
  by simp

definition safe_float_to_int :: "operand \<Rightarrow> operand gen" where
  "safe_float_to_int source =
     gbind (label ''fptosi_nan'') (\<lambda>nan_label.
     gbind (label ''fptosi_high_check'') (\<lambda>high_check_label.
     gbind (label ''fptosi_high'') (\<lambda>high_label.
     gbind (label ''fptosi_low_check'') (\<lambda>low_check_label.
     gbind (label ''fptosi_low'') (\<lambda>low_label.
     gbind (label ''fptosi_convert'') (\<lambda>convert_label.
     gbind (label ''fptosi_merge'') (\<lambda>merge_label.
     gbind (assign_temp (''fcmp uno float '' @ op_repr source @ '', '' @ op_repr source)) (\<lambda>is_nan.
     gbind (terminate (TmConditional is_nan nan_label high_check_label)) (\<lambda>_.
     gbind (place_label nan_label) (\<lambda>_.
     gbind (terminate (TmBranch merge_label)) (\<lambda>_.
     gbind (place_label high_check_label) (\<lambda>_.
     gbind (assign_temp (''fcmp oge float '' @ op_repr source @ '', 0x41E0000000000000'')) (\<lambda>is_high.
     gbind (terminate (TmConditional is_high high_label low_check_label)) (\<lambda>_.
     gbind (place_label high_label) (\<lambda>_.
     gbind (terminate (TmBranch merge_label)) (\<lambda>_.
     gbind (place_label low_check_label) (\<lambda>_.
     gbind (assign_temp (''fcmp ole float '' @ op_repr source @ '', 0xC1E0000000000000'')) (\<lambda>is_low.
     gbind (terminate (TmConditional is_low low_label convert_label)) (\<lambda>_.
     gbind (place_label low_label) (\<lambda>_.
     gbind (terminate (TmBranch merge_label)) (\<lambda>_.
     gbind (place_label convert_label) (\<lambda>_.
     gbind (assign_temp (''fptosi float '' @ op_repr source @ '' to i32'')) (\<lambda>converted.
     gbind (terminate (TmBranch merge_label)) (\<lambda>_.
     gbind (place_label merge_label) (\<lambda>_.
     gbind (assign_temp (''phi i32 [0, %'' @ nan_label @ ''], [2147483647, %'' @ high_label @ ''], ['' @ i32_min_text
                         @ '', %'' @ low_label @ ''], ['' @ converted @ '', %'' @ convert_label @ '']'')) (\<lambda>result.
       gret (operand_of VtI32 result)))))))))))))))))))))))))))"

text \<open>The branches of \<open>Unary\<close> and of \<open>Conversion\<close> on the type of the operand.\<close>

definition emit_unary :: "unary_op \<Rightarrow> operand \<Rightarrow> operand gen" where
  "emit_unary op v =
     gbind (gsome (operand_value_type v)) (\<lambda>ty.
     gbind (gsome (case (op, ty) of
         (UoNegate, VtI32) \<Rightarrow> Some (''sub i32 0, '' @ op_repr v)
       | (UoNegate, VtF32) \<Rightarrow> Some (''fneg float '' @ op_repr v)
       | (UoNot, VtBool) \<Rightarrow> Some (''xor i1 '' @ op_repr v @ '', true'')
       | _ \<Rightarrow> None)) (\<lambda>operation.
     gbind (assign_temp operation) (\<lambda>t. gret (operand_of ty t))))"

definition emit_conversion :: "value_type \<Rightarrow> operand \<Rightarrow> operand gen" where
  "emit_conversion target v =
     gbind (gsome (operand_value_type v)) (\<lambda>ty.
       case (ty, target) of
         (VtI32, VtI32) \<Rightarrow> gret v
       | (VtF32, VtF32) \<Rightarrow> gret v
       | (VtI32, VtF32) \<Rightarrow>
           gbind (assign_temp (''sitofp i32 '' @ op_repr v @ '' to float'')) (\<lambda>t. gret (operand_of VtF32 t))
       | (VtF32, VtI32) \<Rightarrow> safe_float_to_int v
       | _ \<Rightarrow> gpanic)"

section \<open>Accesses\<close>

definition load_variable :: "variable \<Rightarrow> operand gen" where
  "load_variable v =
     gbind (gsome (llvm_value_type (var_ty v))) (\<lambda>ty.
     gbind (assign_temp (''load '' @ ty @ '', ptr '' @ var_pointer v)) (\<lambda>t. gret (operand_of (var_ty v) t)))"

definition store_into :: "string \<Rightarrow> string \<Rightarrow> string \<Rightarrow> unit gen" where
  "store_into ty repr pointer = instruction (''store '' @ ty @ '' '' @ repr @ '', ptr '' @ pointer)"

text \<open>Address of an element, checked against the bounds of its array.\<close>

definition element_pointer :: "gen_env \<Rightarrow> string \<Rightarrow> string \<Rightarrow> nat \<Rightarrow> span \<Rightarrow> operand \<Rightarrow> string gen" where
  "element_pointer env array_type pointer len s index =
     gbind (bounds_check env (op_repr index) len s) (\<lambda>_.
       assign_temp (''getelementptr inbounds '' @ array_type @ '', ptr '' @ pointer @ '', i32 0, i32 '' @ op_repr index))"

definition find_field_index :: "struct_decl \<Rightarrow> string \<Rightarrow> (nat \<times> struct_field) option" where
  "find_field_index d n = find (\<lambda>(i, f). field_name f = n) (enumerate 0 (struct_fields d))"

text \<open>The field of a struct that an address or a value has, with its index.\<close>

definition struct_field_of :: "gen_env \<Rightarrow> value_type \<Rightarrow> string \<Rightarrow> (nat \<times> struct_field) option" where
  "struct_field_of env ty n =
     (case ty of
        VtStruct name \<Rightarrow> Option.bind (hm_get (ge_structs env) name) (\<lambda>d. find_field_index d n)
      | _ \<Rightarrow> None)"

definition field_pointer :: "gen_env \<Rightarrow> variable \<Rightarrow> string \<Rightarrow> variable option gen" where
  "field_pointer env base n =
     (case struct_field_of env (var_ty base) n of
        None \<Rightarrow> gret None
      | Some (i, f) \<Rightarrow>
          gbind (gsome (llvm_value_type (var_ty base))) (\<lambda>aggregate_type.
          gbind (assign_temp (''getelementptr inbounds '' @ aggregate_type @ '', ptr '' @ var_pointer base
                              @ '', i32 0, i32 '' @ show_nat i)) (\<lambda>pointer.
            gret (Some (variable_at (field_ty f) pointer)))))"

definition extract_field :: "gen_env \<Rightarrow> operand \<Rightarrow> string \<Rightarrow> operand gen" where
  "extract_field env base n =
     gbind (gsome (operand_value_type base)) (\<lambda>base_ty.
     gbind (gsome (struct_field_of env base_ty n)) (\<lambda>(i, f).
     gbind (gsome (llvm_value_type base_ty)) (\<lambda>aggregate_type.
     gbind (assign_temp (''extractvalue '' @ aggregate_type @ '' '' @ op_repr base @ '', '' @ show_nat i)) (\<lambda>t.
       gret (operand_of (field_ty f) t)))))"

definition insert_into :: "string \<Rightarrow> string \<Rightarrow> string \<Rightarrow> operand \<Rightarrow> nat \<Rightarrow> string gen" where
  "insert_into aggregate_type aggregate ty v i =
     assign_temp (''insertvalue '' @ aggregate_type @ '' '' @ aggregate @ '', '' @ ty @ '' '' @ op_repr v @ '', '' @ show_nat i)"

definition call_function :: "symbol_signature \<Rightarrow> string list \<Rightarrow> operand gen" where
  "call_function sig args =
     (if sym_return sig = RtVoid then
        gbind (instruction (''call void '' @ sym_symbol sig @ ''('' @ join '', '' args @ '')'')) (\<lambda>_.
          gret \<lparr>op_ty = RtVoid, op_repr = []\<rparr>)
      else
        gbind (gsome (llvm_return_type (sym_return sig))) (\<lambda>ty.
        gbind (assign_temp (''call '' @ ty @ '' '' @ sym_symbol sig @ ''('' @ join '', '' args @ '')'')) (\<lambda>t.
          gret \<lparr>op_ty = sym_return sig, op_repr = t\<rparr>)))"

section \<open>Expressions\<close>

text \<open>An address exists for variables and for their elements and fields; nothing else emits one.\<close>

function (sequential) emit_lvalue :: "gen_env \<Rightarrow> expr \<Rightarrow> variable option gen"
and emit_expr :: "gen_env \<Rightarrow> expr \<Rightarrow> operand gen"
and emit_expr_as :: "gen_env \<Rightarrow> value_type \<Rightarrow> expr \<Rightarrow> operand gen"
and emit_elements :: "gen_env \<Rightarrow> string \<Rightarrow> value_type \<Rightarrow> string \<Rightarrow> nat \<Rightarrow> string \<Rightarrow> expr list \<Rightarrow> string gen"
and emit_initializers :: "gen_env \<Rightarrow> struct_decl \<Rightarrow> string \<Rightarrow> string \<Rightarrow> field_initializer list \<Rightarrow> string gen"
and emit_arguments :: "gen_env \<Rightarrow> value_type list \<Rightarrow> expr list \<Rightarrow> string list gen" where
  "emit_lvalue env (Expr (ExVariable n) s) = variable_of env n"
| "emit_lvalue env (Expr (ExIndex base index) s) =
     gbind (emit_lvalue env base) (\<lambda>b.
       case b of
         None \<Rightarrow> gret None
       | Some base \<Rightarrow>
           (case resolved_array (var_ty base) of
              None \<Rightarrow> gret None
            | Some (element, len) \<Rightarrow>
                gbind (gsome (llvm_value_type (var_ty base))) (\<lambda>array_type.
                gbind (emit_expr env index) (\<lambda>i.
                gbind (element_pointer env array_type (var_pointer base) len s i) (\<lambda>pointer.
                  gret (Some (variable_at element pointer)))))))"
| "emit_lvalue env (Expr (ExField base n name_span) s) =
     gbind (emit_lvalue env base) (\<lambda>b.
       case b of
         None \<Rightarrow> gret None
       | Some base \<Rightarrow> field_pointer env base n)"
| "emit_lvalue env e = gret None"
| "emit_expr env (Expr (ExI32 v) s) = gret (operand_of VtI32 (show_int v))"
| "emit_expr env (Expr (ExF32 v) s) = gret (operand_of VtF32 (llvm_float v))"
| "emit_expr env (Expr (ExBool b) s) = gret (operand_of VtBool (bool_text b))"
| "emit_expr env (Expr (ExArrayLiteral es) s) = gpanic"
| "emit_expr env (Expr (ExStructLiteral name inits) s) =
     gbind (gsome (hm_get (ge_structs env) name)) (\<lambda>d.
     gbind (gsome (llvm_value_type (VtStruct name))) (\<lambda>aggregate_type.
     gbind (emit_initializers env d aggregate_type ''undef'' inits) (\<lambda>aggregate.
       gret (operand_of (VtStruct name) aggregate))))"
| "emit_expr env (Expr (ExVariable n) s) =
     gbind (variable_of env n) (\<lambda>v.
       case v of
         Some v \<Rightarrow> load_variable v
       | None \<Rightarrow>
           gbind (gsome (hm_get (ge_constants env) n)) (\<lambda>c.
           gbind (gsome (llvm_constant c)) (\<lambda>t. gret (operand_of (constant_value_ty c) t))))"
| "emit_expr env (Expr (ExIndex base index) s) =
     gbind (emit_lvalue env (Expr (ExIndex base index) s)) (\<lambda>v.
       case v of
         Some v \<Rightarrow> load_variable v
       | None \<Rightarrow>
           gbind (emit_expr env base) (\<lambda>b.
           gbind (gsome (operand_value_type b)) (\<lambda>base_type.
           gbind (gsome (resolved_array base_type)) (\<lambda>(element, len).
           gbind (gsome (llvm_value_type base_type)) (\<lambda>array_type.
           gbind (entry_alloca array_type) (\<lambda>storage.
           gbind (store_into array_type (op_repr b) storage) (\<lambda>_.
           gbind (emit_expr env index) (\<lambda>i.
           gbind (element_pointer env array_type storage len s i) (\<lambda>pointer.
             load_variable (variable_at element pointer))))))))))"
| "emit_expr env (Expr (ExField base n name_span) s) =
     gbind (emit_lvalue env (Expr (ExField base n name_span) s)) (\<lambda>v.
       case v of
         Some v \<Rightarrow> load_variable v
       | None \<Rightarrow> gbind (emit_expr env base) (\<lambda>b. extract_field env b n))"
| "emit_expr env (Expr (ExUnary op e) s) =
     (if op = UoNegate \<and> expr_kind e = i32_min_literal then gret (operand_of VtI32 i32_min_text)
      else gbind (emit_expr env e) (emit_unary op))"
| "emit_expr env (Expr (ExBinary left op right) s) =
     gbind (emit_expr env left) (\<lambda>l.
       if op = BoLogicalAnd \<or> op = BoLogicalOr then logical_rest l op (emit_expr env right)
       else gbind (emit_expr env right) (\<lambda>r. emit_binary env l op r s))"
| "emit_expr env (Expr (ExCall name args) s) =
     gbind (gsome (hm_get (ge_functions env) name)) (\<lambda>sig.
     gbind (emit_arguments env (sym_params sig) args) (call_function sig))"
| "emit_expr env (Expr (ExConversion target args) s) =
     (case args of [] \<Rightarrow> gpanic | arg # _ \<Rightarrow> gbind (emit_expr env arg) (emit_conversion target))"
| "emit_expr_as env expected (Expr kind s) =
     (case kind of
        ExArrayLiteral elements \<Rightarrow>
          gbind (gsome (resolved_array expected)) (\<lambda>(element, _).
          gbind (gsome (llvm_value_type expected)) (\<lambda>aggregate_type.
          gbind (gsome (llvm_value_type element)) (\<lambda>element_type.
          gbind (emit_elements env aggregate_type element element_type 0 ''undef'' elements) (\<lambda>aggregate.
            gret (operand_of expected aggregate)))))
      | _ \<Rightarrow> emit_expr env (Expr kind s))"
| "emit_elements env aggregate_type element element_type i aggregate [] = gret aggregate"
| "emit_elements env aggregate_type element element_type i aggregate (e # es) =
     gbind (emit_expr_as env element e) (\<lambda>v.
     gbind (insert_into aggregate_type aggregate element_type v i) (\<lambda>t.
       emit_elements env aggregate_type element element_type (Suc i) t es))"
| "emit_initializers env d aggregate_type aggregate [] = gret aggregate"
| "emit_initializers env d aggregate_type aggregate (FieldInitializer n e s # inits) =
     gbind (gsome (find_field_index d n)) (\<lambda>(i, f).
     gbind (emit_expr_as env (field_ty f) e) (\<lambda>v.
     gbind (gsome (llvm_value_type (field_ty f))) (\<lambda>ty.
     gbind (insert_into aggregate_type aggregate ty v i) (\<lambda>t.
       emit_initializers env d aggregate_type t inits))))"
| "emit_arguments env (ty # tys) (e # es) =
     gbind (emit_expr_as env ty e) (\<lambda>v.
     gbind (gsome (Option.bind (operand_value_type v) llvm_value_type)) (\<lambda>t.
     gbind (emit_arguments env tys es) (\<lambda>ts. gret ((t @ '' '' @ op_repr v) # ts))))"
| "emit_arguments env tys es = gret []"
  by pat_completeness auto
termination
  by (relation "measure (\<lambda>x. case x of
        Inl (Inl (env, e)) \<Rightarrow> 3 * size e
      | Inl (Inr (Inl (env, e))) \<Rightarrow> 3 * size e + 1
      | Inl (Inr (Inr (env, ty, e))) \<Rightarrow> 3 * size e + 2
      | Inr (Inl (env, at, ty, t, i, a, es)) \<Rightarrow> 3 * size_list size es
      | Inr (Inr (Inl (env, d, at, a, fs))) \<Rightarrow> 3 * size_list size fs
      | Inr (Inr (Inr (env, tys, es))) \<Rightarrow> 3 * size_list size es)") simp_all

end
