(* ===== verification/Codegen_Statements.thy ===== *)
theory Codegen_Statements
  imports Codegen_Expr
begin

text \<open>
  Emission of statements and of whole functions, \<open>statement\<close>, its helpers and \<open>emit\<close> of
  \<^verbatim>\<open>src/src/codegen/llvm.rs\<close>.
\<close>

section \<open>Simple statements\<close>

definition emit_let :: "gen_env \<Rightarrow> string \<Rightarrow> value_type \<Rightarrow> expr \<Rightarrow> unit gen" where
  "emit_let env n ty init =
     gbind (emit_expr_as env ty init) (\<lambda>v.
     gbind (gsome (llvm_value_type ty)) (\<lambda>t.
     gbind (entry_alloca t) (\<lambda>pointer.
     gbind (store_into t (op_repr v) pointer) (\<lambda>_.
       bind_variable n (variable_at ty pointer)))))"

definition compound_op :: "assign_op \<Rightarrow> binary_op option" where
  "compound_op op =
     (case op of AoAdd \<Rightarrow> Some BoAdd | AoSubtract \<Rightarrow> Some BoSubtract | AoMultiply \<Rightarrow> Some BoMultiply
      | AoDivide \<Rightarrow> Some BoDivide | AoRemainder \<Rightarrow> Some BoRemainder | AoSet \<Rightarrow> None)"

definition emit_assign :: "gen_env \<Rightarrow> expr \<Rightarrow> assign_op \<Rightarrow> expr \<Rightarrow> unit gen" where
  "emit_assign env target op e =
     gbind (emit_lvalue env target) (\<lambda>found.
     gbind (gsome found) (\<lambda>v.
     gbind (if op = AoSet then emit_expr_as env (var_ty v) e
            else
              gbind (load_variable v) (\<lambda>left.
              gbind (emit_expr env e) (\<lambda>right.
              gbind (gsome (compound_op op)) (\<lambda>bop. emit_binary env left bop right (expr_span target))))) (\<lambda>r.
     gbind (gsome (llvm_value_type (var_ty v))) (\<lambda>t.
       store_into t (op_repr r) (var_pointer v)))))"

definition emit_return :: "gen_env \<Rightarrow> expr option \<Rightarrow> unit gen" where
  "emit_return env e =
     (case e of
        None \<Rightarrow> terminate TmReturnVoid
      | Some e \<Rightarrow>
          gbind (gsome (return_value_type (function_return_type (ge_function env)))) (\<lambda>expected.
          gbind (emit_expr_as env expected e) (\<lambda>v.
          gbind (gsome (Option.bind (operand_value_type v) llvm_value_type)) (\<lambda>t.
            terminate (TmReturn t (op_repr v))))))"

section \<open>Control flow\<close>

text \<open>The branches are emitters of their blocks, each in a scope of its own.\<close>

definition emit_if :: "gen_env \<Rightarrow> expr \<Rightarrow> unit gen \<Rightarrow> unit gen option \<Rightarrow> unit gen" where
  "emit_if env condition then_block else_block =
     gbind (emit_expr env condition) (\<lambda>c.
     gbind (label ''if_then'') (\<lambda>then_label.
     gbind (label ''if_end'') (\<lambda>end_label.
       case else_block of
         Some else_block \<Rightarrow>
           gbind (label ''if_else'') (\<lambda>else_label.
           gbind (terminate (TmConditional (op_repr c) then_label else_label)) (\<lambda>_.
           gbind (place_label then_label) (\<lambda>_.
           gbind (in_new_scope [] then_block) (\<lambda>_.
           gbind is_terminated (\<lambda>then_terminated.
           gbind (terminate_unless then_terminated (TmBranch end_label)) (\<lambda>_.
           gbind (place_label else_label) (\<lambda>_.
           gbind (in_new_scope [] else_block) (\<lambda>_.
           gbind is_terminated (\<lambda>else_terminated.
           gbind (terminate_unless else_terminated (TmBranch end_label)) (\<lambda>_.
           gbind (place_label end_label) (\<lambda>_.
             terminate_unless (\<not> (then_terminated \<and> else_terminated)) TmUnreachable)))))))))))
       | None \<Rightarrow>
           gbind (terminate (TmConditional (op_repr c) then_label end_label)) (\<lambda>_.
           gbind (place_label then_label) (\<lambda>_.
           gbind (in_new_scope [] then_block) (\<lambda>_.
           gbind is_terminated (\<lambda>t.
           gbind (terminate_unless t (TmBranch end_label)) (\<lambda>_.
             place_label end_label))))))))"

definition emit_while :: "gen_env \<Rightarrow> expr \<Rightarrow> unit gen \<Rightarrow> unit gen" where
  "emit_while env condition body =
     gbind (label ''while_condition'') (\<lambda>condition_label.
     gbind (label ''while_body'') (\<lambda>body_label.
     gbind (label ''while_end'') (\<lambda>end_label.
     gbind (terminate (TmBranch condition_label)) (\<lambda>_.
     gbind (place_label condition_label) (\<lambda>_.
     gbind (emit_expr env condition) (\<lambda>c.
     gbind (terminate (TmConditional (op_repr c) body_label end_label)) (\<lambda>_.
     gbind (place_label body_label) (\<lambda>_.
     gbind (in_new_scope [] body) (\<lambda>_.
     gbind is_terminated (\<lambda>t.
     gbind (terminate_unless t (TmBranch condition_label)) (\<lambda>_.
       place_label end_label)))))))))))"

text \<open>The step of the counter at the end of the body of a \<open>for\<close>.\<close>

definition advance_counter :: "string \<Rightarrow> string \<Rightarrow> unit gen" where
  "advance_counter pointer condition_label =
     gbind (assign_temp (''load i32, ptr '' @ pointer)) (\<lambda>current.
     gbind (assign_temp (''add i32 '' @ current @ '', 1'')) (\<lambda>succ.
     gbind (store_into ''i32'' succ pointer) (\<lambda>_. terminate (TmBranch condition_label))))"

definition emit_for :: "gen_env \<Rightarrow> string \<Rightarrow> expr \<Rightarrow> expr \<Rightarrow> unit gen \<Rightarrow> unit gen" where
  "emit_for env n lower upper body =
     gbind (emit_expr env lower) (\<lambda>l.
     gbind (emit_expr env upper) (\<lambda>u.
     gbind (entry_alloca ''i32'') (\<lambda>pointer.
     gbind (store_into ''i32'' (op_repr l) pointer) (\<lambda>_.
     gbind (label ''for_condition'') (\<lambda>condition_label.
     gbind (label ''for_body'') (\<lambda>body_label.
     gbind (label ''for_end'') (\<lambda>end_label.
     gbind (terminate (TmBranch condition_label)) (\<lambda>_.
     gbind (place_label condition_label) (\<lambda>_.
     gbind (assign_temp (''load i32, ptr '' @ pointer)) (\<lambda>current.
     gbind (assign_temp (''icmp slt i32 '' @ current @ '', '' @ op_repr u)) (\<lambda>in_range.
     gbind (terminate (TmConditional in_range body_label end_label)) (\<lambda>_.
     gbind (place_label body_label) (\<lambda>_.
     gbind (in_new_scope [(n, variable_at VtI32 pointer)] body) (\<lambda>_.
     gbind is_terminated (\<lambda>t.
     gbind (if t then gret () else advance_counter pointer condition_label) (\<lambda>_.
       place_label end_label))))))))))))))))"

section \<open>Statements\<close>

text \<open>What follows a terminator in its block is not emitted.\<close>

definition unless_terminated :: "unit gen \<Rightarrow> unit gen" where
  "unless_terminated m = gbind is_terminated (\<lambda>t. if t then gret () else m)"

fun emit_statement :: "gen_env \<Rightarrow> stmt \<Rightarrow> unit gen"
and emit_statements :: "gen_env \<Rightarrow> stmt list \<Rightarrow> unit gen" where
  "emit_statement env (Stmt (StLet n ty init) s) = emit_let env n ty init"
| "emit_statement env (Stmt (StAssign target op e) s) = emit_assign env target op e"
| "emit_statement env (Stmt (StExpr e) s) = gbind (emit_expr env e) (\<lambda>_. gret ())"
| "emit_statement env (Stmt (StIf c a b) s) =
     emit_if env c (emit_statements env a) (map_option (emit_statements env) b)"
| "emit_statement env (Stmt (StWhile c body) s) = emit_while env c (emit_statements env body)"
| "emit_statement env (Stmt (StFor n ns lower upper body) s) =
     emit_for env n lower upper (emit_statements env body)"
| "emit_statement env (Stmt (StReturn e) s) = emit_return env e"
| "emit_statements env [] = gret ()"
| "emit_statements env (stmt # stmts) =
     unless_terminated (gbind (emit_statement env stmt) (\<lambda>_. emit_statements env stmts))"

section \<open>Functions\<close>

definition function_symbol :: "function_decl \<Rightarrow> string" where
  "function_symbol f =
     (case function_kind f of
        FkNamed \<Rightarrow> symbol_name ''fn'' (function_name f)
      | FkStart \<Rightarrow> ''spk_start''
      | FkUpdate \<Rightarrow> ''spk_update''
      | FkDraw \<Rightarrow> ''spk_draw'')"

fun emit_params :: "nat \<Rightarrow> param list \<Rightarrow> unit gen" where
  "emit_params i [] = gret ()"
| "emit_params i (p # ps) =
     gbind (gsome (llvm_value_type (param_ty p))) (\<lambda>t.
     gbind (assign_temp (''alloca '' @ t)) (\<lambda>pointer.
     gbind (store_into t (''%arg'' @ show_nat i) pointer) (\<lambda>_.
     gbind (bind_variable (param_name p) (variable_at (param_ty p) pointer)) (\<lambda>_.
       emit_params (Suc i) ps))))"

definition function_header :: "function_decl \<Rightarrow> string option" where
  "function_header f =
     Option.bind (all_some (map (\<lambda>(i, p). map_option (\<lambda>t. t @ '' %arg'' @ show_nat i) (llvm_value_type (param_ty p)))
       (enumerate 0 (function_params f)))) (\<lambda>params.
     map_option (\<lambda>rt. ''define '' @ rt @ '' @'' @ function_symbol f @ ''('' @ join '', '' params @ '') {'')
       (llvm_return_type (function_return_type f)))"

definition storage_init :: "function_decl \<Rightarrow> nat \<Rightarrow> unit gen" where
  "storage_init f title_length =
     (if function_kind f = FkStart then
        instruction (''call void @crumb_storage_init(ptr @spk_storage_identity_data, i64 '' @ show_nat title_length @ '')'')
      else gret ())"

definition finish_function :: "function_decl \<Rightarrow> unit gen" where
  "finish_function f =
     gbind is_terminated (\<lambda>t.
       terminate_unless t (if function_return_type f = RtVoid then TmReturnVoid else TmUnreachable))"

definition emit_body :: "gen_env \<Rightarrow> nat \<Rightarrow> unit gen" where
  "emit_body env title_length =
     (let f = ge_function env in
      gbind (gsome (function_header f)) (\<lambda>header.
      gbind (push_line (LnHeader header)) (\<lambda>_.
      gbind (push_line (LnLabel ''entry'')) (\<lambda>_.
      gbind (storage_init f title_length) (\<lambda>_.
      gbind (emit_params 0 (function_params f)) (\<lambda>_.
      gbind (emit_statements env (function_body f)) (\<lambda>_.
      gbind (finish_function f) (\<lambda>_.
        push_line LnClose))))))))"

definition function_lines :: "gen_env \<Rightarrow> nat \<Rightarrow> line list option" where
  "function_lines env title_length = map_option (em_lines \<circ> snd) (emit_body env title_length emitter_new)"

definition emit_function :: "gen_env \<Rightarrow> nat \<Rightarrow> string option" where
  "emit_function env title_length =
     map_option (\<lambda>ls. join [newline] (map line_text ls) @ [newline]) (function_lines env title_length)"

end
