(* ===== verification/Codegen_Blocks.thy ===== *)
theory Codegen_Blocks
  imports Codegen_Statements "HOL-Library.Multiset"
begin

text \<open>
  The shape of emitted functions: basic blocks, each a label, instructions and one terminator; every label
  placed once; every branch to a label of the function; every temporary assigned once.
\<close>

section \<open>What the lines of a function say\<close>

definition line_labels :: "line \<Rightarrow> string list" where
  "line_labels l = (case l of LnLabel s \<Rightarrow> [s] | _ \<Rightarrow> [])"

definition placed_labels :: "line list \<Rightarrow> string list" where
  "placed_labels ls = concat (map line_labels ls)"

definition line_temps :: "line \<Rightarrow> string list" where
  "line_temps l = (case l of LnAssign t s \<Rightarrow> [t] | _ \<Rightarrow> [])"

definition assigned_temps :: "line list \<Rightarrow> string list" where
  "assigned_temps ls = concat (map line_temps ls)"

definition terminator_targets :: "terminator \<Rightarrow> string set" where
  "terminator_targets t = (case t of TmBranch a \<Rightarrow> {a} | TmConditional c a b \<Rightarrow> {a, b} | _ \<Rightarrow> {})"

definition line_targets :: "line \<Rightarrow> string set" where
  "line_targets l = (case l of LnTerminator t \<Rightarrow> terminator_targets t | _ \<Rightarrow> {})"

definition branch_targets :: "line list \<Rightarrow> string set" where
  "branch_targets ls = \<Union> (set (map line_targets ls))"

text \<open>
  Where a run of lines leaves the reader: in a block that still needs its terminator, or between blocks;
  \<^const>\<open>None\<close> when a line is out of place.
\<close>

definition scan_line :: "bool option \<Rightarrow> line \<Rightarrow> bool option" where
  "scan_line st l =
     (case (st, l) of
        (Some True, LnInstruction s) \<Rightarrow> Some True
      | (Some True, LnAssign t s) \<Rightarrow> Some True
      | (Some True, LnTerminator t) \<Rightarrow> Some False
      | (Some False, LnLabel s) \<Rightarrow> Some True
      | _ \<Rightarrow> None)"

definition scan_lines :: "bool \<Rightarrow> line list \<Rightarrow> bool option" where
  "scan_lines inside ls = foldl scan_line (Some inside) ls"

text \<open>A function: its header, the block of its entry, other blocks, and the closing brace.\<close>

definition well_formed_function :: "line list \<Rightarrow> bool" where
  "well_formed_function ls \<longleftrightarrow>
     (\<exists>header body. ls = LnHeader header # LnLabel ''entry'' # body @ [LnClose] \<and> scan_lines True body = Some False)
     \<and> distinct (placed_labels ls) \<and> branch_targets ls \<subseteq> set (placed_labels ls) \<and> distinct (assigned_temps ls)"

lemma placed_labels_simps [simp]:
  "placed_labels [] = []" "placed_labels (l # ls) = line_labels l @ placed_labels ls"
  "placed_labels (ls @ ls') = placed_labels ls @ placed_labels ls'"
  by (simp_all add: placed_labels_def)

lemma assigned_temps_simps [simp]:
  "assigned_temps [] = []" "assigned_temps (l # ls) = line_temps l @ assigned_temps ls"
  "assigned_temps (ls @ ls') = assigned_temps ls @ assigned_temps ls'"
  by (simp_all add: assigned_temps_def)

lemma branch_targets_simps [simp]:
  "branch_targets [] = {}" "branch_targets (l # ls) = line_targets l \<union> branch_targets ls"
  "branch_targets (ls @ ls') = branch_targets ls \<union> branch_targets ls'"
  by (simp_all add: branch_targets_def)

lemma line_simps [simp]:
  "line_labels (LnLabel s) = [s]" "line_labels (LnAssign t x) = []" "line_labels (LnInstruction x) = []"
  "line_labels (LnTerminator m) = []" "line_labels (LnHeader x) = []" "line_labels LnClose = []"
  "line_temps (LnLabel s) = []" "line_temps (LnAssign t x) = [t]" "line_temps (LnInstruction x) = []"
  "line_temps (LnTerminator m) = []" "line_temps (LnHeader x) = []" "line_temps LnClose = []"
  "line_targets (LnLabel s) = {}" "line_targets (LnAssign t x) = {}" "line_targets (LnInstruction x) = {}"
  "line_targets (LnTerminator m) = terminator_targets m" "line_targets (LnHeader x) = {}" "line_targets LnClose = {}"
  "terminator_targets (TmBranch a) = {a}" "terminator_targets (TmConditional c a b) = {a, b}"
  "terminator_targets (TmReturn t r) = {}" "terminator_targets TmReturnVoid = {}" "terminator_targets TmUnreachable = {}"
  by (simp_all add: line_labels_def line_temps_def line_targets_def terminator_targets_def)

lemma scan_lines_append: "scan_lines b (ls @ ls') = Option.bind (scan_lines b ls) (\<lambda>b'. scan_lines b' ls')"
proof -
  have none: "foldl scan_line None xs = None" for xs
    by (induction xs) (auto simp: scan_line_def)
  show ?thesis
    by (cases "foldl scan_line (Some b) ls") (simp_all add: scan_lines_def none)
qed

lemma scan_lines_simps [simp]:
  "scan_lines b [] = Some b"
  "scan_lines True [LnInstruction s] = Some True" "scan_lines True [LnAssign t s] = Some True"
  "scan_lines True [LnTerminator m] = Some False" "scan_lines False [LnLabel s] = Some True"
  by (simp_all add: scan_lines_def scan_line_def)

section \<open>Numbers of labels and temporaries\<close>

text \<open>The number at the end of a label.\<close>

definition label_number :: "string \<Rightarrow> nat" where
  "label_number l = digits_value (rev (takeWhile is_ascii_digit (rev l)))"

lemma label_number: "label_number (prefix @ ''_'' @ show_nat n) = n"
proof -
  have "takeWhile is_ascii_digit (rev (prefix @ ''_'' @ show_nat n)) = rev (show_nat n)"
    using show_nat_digits [of n]
    by (subst rev_append, subst rev_append, subst append_assoc, subst takeWhile_append2)
      (auto simp: is_ascii_digit_def byte_def)
  then show ?thesis by (simp add: label_number_def digits_value_show_nat)
qed

definition temp_name :: "nat \<Rightarrow> string" where
  "temp_name n = ''%t'' @ show_nat n"

lemma inj_temp_name: "inj temp_name"
  by (rule injI) (simp add: temp_name_def)

section \<open>The invariant of emission\<close>

text \<open>
  \<open>emitting K P em\<close>: in the middle of a function. \<open>P\<close> holds the labels that were made and are still
  to be placed, \<open>K\<close> labels that a branch may name.
\<close>

definition emitting :: "string set \<Rightarrow> string multiset \<Rightarrow> emitter \<Rightarrow> bool" where
  "emitting K P em \<longleftrightarrow>
     (\<exists>header body. em_lines em = LnHeader header # LnLabel ''entry'' # body \<and>
        scan_lines True body = Some (\<not> em_terminated em) \<and>
        image_mset label_number (mset (placed_labels body) + P) = mset [0..<em_next_label em] \<and>
        K \<union> branch_targets body \<subseteq> set (placed_labels body) \<union> set_mset P \<and>
        ''entry'' \<notin> set (placed_labels body) \<union> set_mset P \<and>
        mset (assigned_temps body) = mset (map temp_name [0..<em_next_temp em]))"

text \<open>\<open>frames m\<close>: from an open block, \<open>m\<close> emits whole blocks and leaves a block open.\<close>

definition frames :: "'a gen \<Rightarrow> bool" where
  "frames m \<longleftrightarrow>
     (\<forall>K P em a em'. emitting K P em \<longrightarrow> \<not> em_terminated em \<longrightarrow> m em = Some (a, em') \<longrightarrow>
        emitting K P em' \<and> \<not> em_terminated em')"

text \<open>\<open>flows m\<close>: the same, except that the last block may have its terminator.\<close>

definition flows :: "'a gen \<Rightarrow> bool" where
  "flows m \<longleftrightarrow>
     (\<forall>K P em a em'. emitting K P em \<longrightarrow> \<not> em_terminated em \<longrightarrow> m em = Some (a, em') \<longrightarrow> emitting K P em')"

named_theorems frames_intros \<open>emitters that leave a block open\<close>

lemma gbind_Some: "gbind m f em = Some r \<longleftrightarrow> (\<exists>a em'. m em = Some (a, em') \<and> f a em' = Some r)"
  by (auto simp: gbind_def bind_eq_Some_conv)

lemma frames_gbind [frames_intros]: "frames m \<Longrightarrow> (\<And>a. frames (f a)) \<Longrightarrow> frames (gbind m f)"
  unfolding frames_def gbind_Some by blast

lemma flows_gbind: "frames m \<Longrightarrow> (\<And>a. flows (f a)) \<Longrightarrow> flows (gbind m f)"
  unfolding frames_def flows_def gbind_Some by blast

lemma frames_flows: "frames m \<Longrightarrow> flows m"
  unfolding frames_def flows_def by blast

lemma frames_gret [frames_intros]: "frames (gret a)"
  by (simp add: frames_def gret_def)

lemma frames_gpanic [frames_intros]: "frames gpanic"
  by (simp add: frames_def gpanic_def)

lemma frames_gsome [frames_intros]: "frames (gsome x)"
  by (auto simp: frames_def gsome_def)

text \<open>An instruction at the end of an open block.\<close>

lemma emitting_push:
  assumes "emitting K P em" and "\<not> em_terminated em"
  shows "emitting K P (em\<lparr>em_lines := em_lines em @ [LnInstruction s]\<rparr>)"
    and "emitting K P (em\<lparr>em_lines := em_lines em @ [LnAssign (temp_name (em_next_temp em)) s], em_next_temp := Suc (em_next_temp em)\<rparr>)"
  using assms by (auto simp: emitting_def scan_lines_append)

lemma emitting_fields [simp]:
  "emitting K P (em\<lparr>em_scopes := S\<rparr>) \<longleftrightarrow> emitting K P em"
  "emitting K P (em\<lparr>em_current_block := b\<rparr>) \<longleftrightarrow> emitting K P em"
  by (simp_all add: emitting_def)

lemma frames_instruction [frames_intros]: "frames (instruction s)"
  using emitting_push(1) by (simp add: frames_def instruction_def push_line_def)

lemma frames_assign_temp [frames_intros]: "frames (assign_temp s)"
proof -
  have "assign_temp s em = Some (temp_name (em_next_temp em), em\<lparr>em_lines := em_lines em @ [LnAssign (temp_name (em_next_temp em)) s],
      em_next_temp := Suc (em_next_temp em)\<rparr>)" for em
    by (simp add: assign_temp_def gbind_def temp_def assign_to_def push_line_def gret_def temp_name_def)
  then show ?thesis using emitting_push(2) by (simp add: frames_def)
qed

lemma emitting_entry:
  assumes "em_lines em = LnHeader header # LnLabel ''entry'' # body" and "emitting K P em"
  shows "emitting K P (em\<lparr>em_next_temp := Suc (em_next_temp em),
    em_lines := LnHeader header # LnLabel ''entry'' # LnAssign (temp_name (em_next_temp em)) s # body\<rparr>)"
proof -
  have "scan_lines True (LnAssign t s # body) = scan_lines True body" for t
    using scan_lines_append [of True "[LnAssign t s]" body] by simp
  then show ?thesis using assms by (simp add: emitting_def)
qed

lemma entry_alloca_lines:
  "em_lines em = a # b # body \<Longrightarrow> entry_alloca ty em =
     Some (temp_name (em_next_temp em), em\<lparr>em_next_temp := Suc (em_next_temp em),
       em_lines := a # b # LnAssign (temp_name (em_next_temp em)) (''alloca '' @ ty) # body\<rparr>)"
  by (simp add: entry_alloca_def gbind_def temp_def temp_name_def)

lemma frames_entry_alloca [frames_intros]: "frames (entry_alloca ty)"
  unfolding frames_def
proof (intro allI impI)
  fix K P em a em'
  assume em: "emitting K P em" "\<not> em_terminated em" "entry_alloca ty em = Some (a, em')"
  obtain header body where lines: "em_lines em = LnHeader header # LnLabel ''entry'' # body"
    using em(1) by (auto simp: emitting_def)
  show "emitting K P em' \<and> \<not> em_terminated em'"
    using em(2,3) emitting_entry [OF lines em(1)] unfolding entry_alloca_lines [OF lines] by fastforce
qed

lemma frames_state [frames_intros]:
  "frames is_terminated" "frames current_block" "frames (variable_of env n)" "frames (bind_variable n v)"
  by (auto simp: frames_def is_terminated_def current_block_def variable_of_def bind_variable_def split: list.splits)

lemma frames_report_location [frames_intros]: "frames (report_location env s)"
  unfolding report_location_def by (intro frames_intros) (auto intro: frames_intros split: option.split)

section \<open>Emitters that make blocks\<close>

text \<open>The weakest precondition of an emitter that may panic, and rules for what makes blocks.\<close>

definition wp :: "'a gen \<Rightarrow> ('a \<Rightarrow> emitter \<Rightarrow> bool) \<Rightarrow> emitter \<Rightarrow> bool" where
  "wp m Q em \<longleftrightarrow> (\<forall>a em'. m em = Some (a, em') \<longrightarrow> Q a em')"

lemma wp_gbind: "wp m (\<lambda>a. wp (f a) Q) em \<Longrightarrow> wp (gbind m f) Q em"
  by (auto simp: wp_def gbind_Some)

definition in_block :: "string set \<Rightarrow> string multiset \<Rightarrow> emitter \<Rightarrow> bool" where
  "in_block K P em \<longleftrightarrow> emitting K P em \<and> \<not> em_terminated em"

definition between_blocks :: "string set \<Rightarrow> string multiset \<Rightarrow> emitter \<Rightarrow> bool" where
  "between_blocks K P em \<longleftrightarrow> emitting K P em \<and> em_terminated em"

lemma wp_frames: "frames m \<Longrightarrow> in_block K P em \<Longrightarrow> (\<And>a em'. in_block K P em' \<Longrightarrow> Q a em') \<Longrightarrow> wp m Q em"
  unfolding wp_def frames_def in_block_def by blast

lemma wp_label:
  assumes "in_block K P em" and "\<And>l em'. in_block (insert l K) (add_mset l P) em' \<Longrightarrow> Q l em'"
  shows "wp (label prefix) Q em"
proof -
  let ?l = "prefix @ ''_'' @ show_nat (em_next_label em)"
  have "CHR ''_'' \<in> set ?l" "CHR ''_'' \<notin> set ''entry''" by simp_all
  then have "?l \<noteq> ''entry''" by metis
  then have "in_block (insert ?l K) (add_mset ?l P) (em\<lparr>em_next_label := Suc (em_next_label em)\<rparr>)"
    using assms(1) label_number [of prefix "em_next_label em"] by (auto simp: in_block_def emitting_def)
  then show ?thesis using assms(2) by (simp add: wp_def label_def)
qed

lemma wp_terminate:
  assumes "in_block K P em" and "\<And>em'. between_blocks K P em' \<Longrightarrow> Q () em'" and "terminator_targets t \<subseteq> K"
  shows "wp (terminate t) Q em"
proof -
  have "between_blocks K P (em\<lparr>em_lines := em_lines em @ [LnTerminator t], em_terminated := True\<rparr>)"
    using assms(1,3) by (auto simp: between_blocks_def in_block_def emitting_def scan_lines_append)
  then show ?thesis using assms(2) by (simp add: wp_def terminate_def gbind_def push_line_def)
qed

lemma wp_place_label:
  assumes "between_blocks K P em" and "\<And>em'. in_block K (P - {#l#}) em' \<Longrightarrow> Q () em'" and "l \<in># P"
  shows "wp (place_label l) Q em"
proof -
  obtain P' where P: "P = add_mset l P'" using assms(3) mset_add by metis
  have "in_block K P' (em\<lparr>em_lines := em_lines em @ [LnLabel l], em_current_block := l, em_terminated := False\<rparr>)"
    using assms(1) by (auto simp: P between_blocks_def in_block_def emitting_def scan_lines_append)
  then show ?thesis using assms(2) by (simp add: wp_def place_label_def gbind_def push_line_def P)
qed

lemma in_block_weaken: "in_block K P em \<Longrightarrow> K' \<subseteq> K \<Longrightarrow> P' = P \<Longrightarrow> in_block K' P' em"
  by (auto simp: in_block_def emitting_def)

lemma framesI: "(\<And>K P em. in_block K P em \<Longrightarrow> wp m (\<lambda>_. in_block K P) em) \<Longrightarrow> frames m"
  unfolding frames_def wp_def in_block_def by blast

lemma flowsI: "(\<And>K P em. in_block K P em \<Longrightarrow> wp m (\<lambda>_. emitting K P) em) \<Longrightarrow> flows m"
  unfolding flows_def wp_def in_block_def by blast

section \<open>Checks and short circuits\<close>

text \<open>The side conditions of a chain of steps come last, so that \<open>erule\<close> follows the chain.\<close>

lemmas wp_steps =
  wp_frames [OF frames_assign_temp] wp_frames [OF frames_instruction] wp_frames [OF frames_report_location]
  wp_frames [OF frames_entry_alloca] wp_label wp_terminate wp_place_label

lemma wp_gret: "Q a em \<Longrightarrow> wp (gret a) Q em"
  by (simp add: wp_def gret_def)

lemma frames_bounds_check [frames_intros]: "frames (bounds_check env index len s)"
  unfolding bounds_check_def
  by (rule framesI, (rule wp_gbind | erule wp_steps)+, erule in_block_weaken) auto

lemma frames_safe_float_to_int [frames_intros]: "frames (safe_float_to_int v)"
  unfolding safe_float_to_int_def
  by (rule framesI, (rule wp_gbind wp_gret | erule wp_steps)+, erule in_block_weaken) auto

lemma frames_checked_i32_division [frames_intros]: "frames (checked_i32_division env left op right s)"
proof (cases "division_parts op")
  case None
  then show ?thesis by (simp add: checked_i32_division_def gbind_gsome frames_gpanic)
next
  case (Some parts)
  obtain mnemonic hook stage where parts: "parts = (mnemonic, hook, stage)" by (cases parts)
  show ?thesis
    unfolding checked_i32_division_def Some parts gbind_gsome prod.case
    by (rule framesI, (rule wp_gbind wp_gret | erule wp_steps)+, erule in_block_weaken) auto
qed

lemma wp_current_block: "in_block K P em \<Longrightarrow> (\<And>b em'. in_block K P em' \<Longrightarrow> Q b em') \<Longrightarrow> wp current_block Q em"
  by (rule wp_frames [OF frames_state(2)])

lemma frames_logical_rest [frames_intros]:
  assumes "frames right"
  shows "frames (logical_rest left op right)"
  unfolding logical_rest_def
  by (rule framesI, (rule wp_gbind wp_gret | erule wp_steps wp_frames [OF assms] wp_current_block)+, erule in_block_weaken) auto

section \<open>Expressions\<close>

lemma frames_load_variable [frames_intros]: "frames (load_variable v)"
  unfolding load_variable_def by (intro frames_intros)

lemma frames_store_into [frames_intros]: "frames (store_into ty repr pointer)"
  unfolding store_into_def by (intro frames_intros)

lemma frames_element_pointer [frames_intros]: "frames (element_pointer env ty pointer len s index)"
  unfolding element_pointer_def by (intro frames_intros)

lemma frames_insert_into [frames_intros]: "frames (insert_into aty aggregate ty v i)"
  unfolding insert_into_def by (intro frames_intros)

lemma frames_case_prod [frames_intros]: "(\<And>a b. x = (a, b) \<Longrightarrow> frames (f a b)) \<Longrightarrow> frames (case x of (a, b) \<Rightarrow> f a b)"
  by (cases x) simp

lemma frames_case_option [frames_intros]:
  "(x = None \<Longrightarrow> frames m) \<Longrightarrow> (\<And>a. x = Some a \<Longrightarrow> frames (f a)) \<Longrightarrow> frames (case x of None \<Rightarrow> m | Some a \<Rightarrow> f a)"
  by (cases x) simp_all

lemma frames_if [frames_intros]: "(b \<Longrightarrow> frames m) \<Longrightarrow> (\<not> b \<Longrightarrow> frames n) \<Longrightarrow> frames (if b then m else n)"
  by simp

lemma frames_field_pointer [frames_intros]: "frames (field_pointer env base n)"
  unfolding field_pointer_def by (intro frames_intros)

lemma frames_extract_field [frames_intros]: "frames (extract_field env base n)"
  unfolding extract_field_def by (intro frames_intros)

lemma frames_call_function [frames_intros]: "frames (call_function sig args)"
  unfolding call_function_def by (intro frames_intros)

lemma frames_emit_unary [frames_intros]: "frames (emit_unary op v)"
  unfolding emit_unary_def by (intro frames_intros)

lemma frames_emit_conversion [frames_intros]: "frames (emit_conversion target v)"
  unfolding emit_conversion_def
  by (intro frames_intros) (auto split: value_type.split intro!: frames_intros)

lemma frames_emit_binary [frames_intros]: "frames (emit_binary env left op right s)"
  unfolding emit_binary_def by (intro frames_intros)

lemma frames_emit:
  "frames (emit_lvalue env e)" "frames (emit_expr env e)" "frames (emit_expr_as env ty e)"
  "frames (emit_elements env aty element ety i aggregate es)" "frames (emit_initializers env d aty aggregate inits)"
  "frames (emit_arguments env tys es)"
  by (induction env e and env e and env ty e and env aty element ety i aggregate es and env d aty aggregate inits and env tys es
      rule: emit_lvalue_emit_expr_emit_expr_as_emit_elements_emit_initializers_emit_arguments.induct)
    (auto intro!: frames_intros split: expr_kind.split list.split)

section \<open>Statements\<close>

text \<open>\<open>block_end t K P em\<close>: at the end of a block, with its terminator if \<open>t\<close>.\<close>

definition block_end :: "bool \<Rightarrow> string set \<Rightarrow> string multiset \<Rightarrow> emitter \<Rightarrow> bool" where
  "block_end t K P em \<longleftrightarrow> emitting K P em \<and> em_terminated em = t"

lemma wp_flows: "flows m \<Longrightarrow> in_block K P em \<Longrightarrow> (\<And>a em'. emitting K P em' \<Longrightarrow> Q a em') \<Longrightarrow> wp m Q em"
  unfolding wp_def flows_def in_block_def by blast

lemma wp_is_terminated: "emitting K P em \<Longrightarrow> (\<And>t em'. block_end t K P em' \<Longrightarrow> Q t em') \<Longrightarrow> wp is_terminated Q em"
  by (simp add: wp_def is_terminated_def block_end_def)

lemma wp_terminate_unless:
  assumes "block_end t K P em" and "\<And>em'. between_blocks K P em' \<Longrightarrow> Q () em'" and "terminator_targets m \<subseteq> K"
  shows "wp (terminate_unless t m) Q em"
proof (cases t)
  case True
  then show ?thesis using assms(1,2) by (simp add: terminate_unless_def wp_gret block_end_def between_blocks_def)
next
  case False
  then have "in_block K P em" using assms(1) by (simp add: block_end_def in_block_def)
  then have "wp (terminate m) Q em" by (rule wp_terminate) (use assms(2,3) in auto)
  then show ?thesis using False by (simp add: terminate_unless_def)
qed

lemma wp_unreachable:
  assumes "in_block K P em" and "\<And>em'. emitting K P em' \<Longrightarrow> Q () em'"
  shows "wp (terminate_unless t TmUnreachable) Q em"
proof (cases t)
  case True
  then show ?thesis using assms by (simp add: terminate_unless_def wp_gret in_block_def)
next
  case False
  have "wp (terminate TmUnreachable) Q em"
    by (rule wp_terminate [OF assms(1)]) (use assms(2) in \<open>simp_all add: between_blocks_def\<close>)
  then show ?thesis using False by (simp add: terminate_unless_def)
qed

lemma wp_advance_counter:
  assumes "block_end t K P em" and "\<And>em'. between_blocks K P em' \<Longrightarrow> Q () em'" and "l \<in> K"
  shows "wp (if t then gret () else advance_counter pointer l) Q em"
proof (cases t)
  case True
  then show ?thesis using assms(1,2) by (simp add: wp_gret block_end_def between_blocks_def)
next
  case False
  have "in_block K P em \<Longrightarrow> wp (advance_counter pointer l) Q em"
    unfolding advance_counter_def store_into_def
    by ((rule wp_gbind | erule wp_steps)+, erule assms(2)) (simp add: assms(3))
  then show ?thesis using False assms(1) by (simp add: block_end_def in_block_def)
qed

lemma flows_in_new_scope: "flows body \<Longrightarrow> flows (in_new_scope scope body)"
  unfolding flows_def in_new_scope_def gbind_Some
  by (clarsimp, drule_tac x = K in spec, drule_tac x = P in spec,
      drule_tac x = "em\<lparr>em_scopes := scope # em_scopes em\<rparr>" in spec) simp

lemma emitting_weaken: "emitting K P em \<Longrightarrow> K' \<subseteq> K \<Longrightarrow> P' = P \<Longrightarrow> emitting K' P' em"
  by (auto simp: emitting_def)

lemmas wp_blocks =
  wp_steps wp_is_terminated wp_terminate_unless wp_advance_counter wp_frames [OF frames_emit(2)] wp_frames [OF frames_store_into]

lemma in_block_emitting: "in_block K P em \<Longrightarrow> K' \<subseteq> K \<Longrightarrow> P' = P \<Longrightarrow> emitting K' P' em"
  by (auto simp: in_block_def emitting_def)

lemma flows_emit_while:
  assumes "flows body"
  shows "flows (emit_while env c body)"
  unfolding emit_while_def
  by (rule flowsI, (rule wp_gbind | erule wp_blocks wp_flows [OF flows_in_new_scope [OF assms]])+, erule in_block_emitting) auto

lemma flows_emit_for:
  assumes "flows body"
  shows "flows (emit_for env n l u body)"
  unfolding emit_for_def
  by (rule flowsI, (rule wp_gbind | erule wp_blocks wp_flows [OF flows_in_new_scope [OF assms]])+, erule in_block_emitting) auto

lemma flows_emit_if_only:
  assumes "flows a"
  shows "flows (emit_if env c a None)"
  unfolding emit_if_def option.case
  by (rule flowsI, (rule wp_gbind | erule wp_blocks wp_flows [OF flows_in_new_scope [OF assms]])+, erule in_block_emitting) auto

lemma flows_emit_if_else:
  assumes "flows a" and "flows b"
  shows "flows (emit_if env c a (Some b))"
  unfolding emit_if_def option.case
  by (rule flowsI, (rule wp_gbind | erule wp_blocks wp_flows [OF flows_in_new_scope [OF assms(1)]]
        wp_flows [OF flows_in_new_scope [OF assms(2)]] wp_unreachable)+, erule emitting_weaken) auto

lemma flows_if: "(b \<Longrightarrow> flows m) \<Longrightarrow> (\<not> b \<Longrightarrow> flows n) \<Longrightarrow> flows (if b then m else n)"
  by simp

lemma frames_emit_let: "frames (emit_let env n ty init)"
  unfolding emit_let_def by (intro frames_intros frames_emit)

lemma frames_emit_assign: "frames (emit_assign env target op e)"
  unfolding emit_assign_def by (intro frames_intros frames_emit)

lemma flows_terminate: "terminator_targets t = {} \<Longrightarrow> flows (terminate t)"
  by (rule flowsI, erule wp_terminate) (simp_all add: between_blocks_def)

lemma flows_emit_return: "flows (emit_return env e)"
  unfolding emit_return_def
  by (cases e) (auto intro!: flows_terminate flows_gbind frames_intros frames_emit)

lemma flows_unless_terminated: "flows m \<Longrightarrow> flows (unless_terminated m)"
  unfolding unless_terminated_def
  by (intro flows_gbind frames_state flows_if) (simp_all add: frames_flows frames_gret)

lemma wp_unless_terminated:
  assumes "flows m" and "emitting K P em"
  shows "wp (unless_terminated m) (\<lambda>_. emitting K P) em"
proof (cases "em_terminated em")
  case True
  then show ?thesis using assms(2) by (simp add: wp_def unless_terminated_def gbind_def is_terminated_def gret_def)
next
  case False
  then have "wp m (\<lambda>_. emitting K P) em" using assms by (simp add: wp_def flows_def)
  then show ?thesis using False by (simp add: wp_def unless_terminated_def gbind_def is_terminated_def)
qed

lemma flows_sequence:
  assumes "flows m" and "flows n"
  shows "flows (unless_terminated (gbind m (\<lambda>_. unless_terminated n)))"
  by (rule flows_unless_terminated, rule flowsI, rule wp_gbind, erule wp_flows [OF assms(1)])
    (rule wp_unless_terminated [OF assms(2)])

text \<open>A block is the same when it is guarded once more.\<close>

lemma unless_terminated_statements: "unless_terminated (emit_statements env stmts) = emit_statements env stmts"
  by (cases stmts) (auto simp: fun_eq_iff unless_terminated_def gbind_def is_terminated_def gret_def)

lemma flows_emit_statement: "flows (emit_statement env stmt)" "flows (emit_statements env stmts)"
proof (induction env stmt and env stmts rule: emit_statement_emit_statements.induct)
  case (9 env stmt stmts)
  from flows_sequence [OF this] show ?case by (simp add: unless_terminated_statements)
next
  case (4 env c a b s)
  then show ?case by (cases b) (simp_all add: flows_emit_if_only flows_emit_if_else)
qed (auto intro!: frames_flows frames_emit_let frames_emit_assign frames_intros frames_emit flows_emit_while flows_emit_for flows_emit_return)

section \<open>Functions\<close>

lemma frames_emit_params: "frames (emit_params i ps)"
  by (induction i ps rule: emit_params.induct) (auto intro!: frames_intros)

lemma frames_storage_init: "frames (storage_init f n)"
  unfolding storage_init_def by (intro frames_intros)

lemma emitting_closed:
  assumes "emitting {} {#} em" and "em_terminated em"
  shows "well_formed_function (em_lines em @ [LnClose])"
proof -
  obtain header body where lines: "em_lines em = LnHeader header # LnLabel ''entry'' # body"
    and scan: "scan_lines True body = Some False"
    and labels: "image_mset label_number (mset (placed_labels body)) = mset [0..<em_next_label em]"
    and targets: "branch_targets body \<subseteq> set (placed_labels body)" and entry: "''entry'' \<notin> set (placed_labels body)"
    and temps: "mset (assigned_temps body) = mset (map temp_name [0..<em_next_temp em])"
    using assms by (auto simp: emitting_def)
  have "mset (map label_number (placed_labels body)) = mset [0..<em_next_label em]" using labels by simp
  then have "distinct (map label_number (placed_labels body))" using mset_eq_imp_distinct_iff distinct_upt by blast
  then have "distinct (placed_labels body)" by (simp add: distinct_map)
  moreover have "distinct (assigned_temps body)"
    using mset_eq_imp_distinct_iff [OF temps] inj_temp_name by (simp add: distinct_map inj_on_def)
  ultimately show ?thesis using scan targets entry by (auto simp: well_formed_function_def lines)
qed

lemma wp_body:
  assumes "in_block {} {#} em"
  shows "wp (gbind (storage_init f n) (\<lambda>_. gbind (emit_params 0 ps) (\<lambda>_. gbind (emit_statements env stmts) (\<lambda>_.
    gbind (finish_function f) (\<lambda>_. push_line LnClose))))) (\<lambda>_ em'. well_formed_function (em_lines em')) em"
proof -
  have close: "wp (push_line LnClose) (\<lambda>_ em'. well_formed_function (em_lines em')) em" if "between_blocks {} {#} em" for em
    using that emitting_closed by (simp add: wp_def push_line_def between_blocks_def)
  show ?thesis
    using assms unfolding finish_function_def
    apply -
    by ((rule wp_gbind | erule wp_frames [OF frames_storage_init] wp_frames [OF frames_emit_params]
          wp_flows [OF flows_emit_statement(2)] wp_is_terminated wp_terminate_unless)+, erule close) auto
qed

lemma start_lines:
  assumes "gbind (gsome h) (\<lambda>header. gbind (push_line (LnHeader header)) (\<lambda>_. gbind (push_line l) (\<lambda>_. rest))) emitter_new = Some (a, em)"
  shows "\<exists>header. rest (emitter_new\<lparr>em_lines := [LnHeader header, l]\<rparr>) = Some (a, em)"
  using assms by (auto simp: gbind_Some gsome_def push_line_def emitter_new_def)

text \<open>
  C40 Every function that code generation emits is well formed: after its header come basic blocks, each a
  label, instructions and exactly one terminator, the first of them the entry, where the storage of the locals stands;
  no label is placed twice, every branch goes to a label of the function, and no temporary is assigned twice.
\<close>

theorem emitted_functions_well_formed:
  assumes "function_lines env title_length = Some ls"
  shows "well_formed_function ls"
proof -
  obtain a em where em: "emit_body env title_length emitter_new = Some (a, em)" and ls: "ls = em_lines em"
    using assms by (auto simp: function_lines_def)
  obtain header where run: "gbind (storage_init (ge_function env) title_length) (\<lambda>_.
      gbind (emit_params 0 (function_params (ge_function env))) (\<lambda>_. gbind (emit_statements env (function_body (ge_function env))) (\<lambda>_.
      gbind (finish_function (ge_function env)) (\<lambda>_. push_line LnClose))))
      (emitter_new\<lparr>em_lines := [LnHeader header, LnLabel ''entry'']\<rparr>) = Some (a, em)"
    using start_lines [OF em [unfolded emit_body_def Let_def]] by blast
  have "in_block {} {#} (emitter_new\<lparr>em_lines := [LnHeader header, LnLabel ''entry'']\<rparr>)"
    by (simp add: in_block_def emitting_def emitter_new_def)
  from wp_body [OF this] show ?thesis using run unfolding wp_def ls by blast
qed

text \<open>The \<open>draw\<close> of a game that never ends a frame.\<close>

definition sample_loop_env :: gen_env where
  "sample_loop_env =
     \<lparr>ge_globals = [], ge_constants = [], ge_structs = [], ge_functions = [], ge_diagnostics = RdPlain,
      ge_function = \<lparr>function_name = ''draw'', function_kind = FkDraw, function_params = [], function_return_type = RtVoid,
        function_body = [Stmt (StWhile (Expr (ExBool True) span_default) []) span_default], function_span = span_default\<rparr>\<rparr>"

lemma digit_chars: "digit_char 0 = CHR ''0''" "digit_char 1 = CHR ''1''" "digit_char 2 = CHR ''2''" "digit_char (Suc 0) = CHR ''1''" "digit_char (Suc (Suc 0)) = CHR ''2''"
  by code_simp+

lemma sample_loop_lines:
  "function_lines sample_loop_env 0 = Some
    [LnHeader ''define void @spk_draw() {'', LnLabel ''entry'', LnTerminator (TmBranch ''while_condition_0''),
     LnLabel ''while_condition_0'', LnTerminator (TmConditional ''true'' ''while_body_1'' ''while_end_2''),
     LnLabel ''while_body_1'', LnTerminator (TmBranch ''while_condition_0''), LnLabel ''while_end_2'',
     LnTerminator TmReturnVoid, LnClose]"
  by (simp add: function_lines_def sample_loop_env_def emit_body_def function_header_def llvm_return_type_def function_symbol_def
      emit_while_def unless_terminated_def in_new_scope_def gbind_def gret_def gsome_def push_line_def storage_init_def
      emitter_new_def is_terminated_def label_def terminate_def place_label_def terminate_unless_def finish_function_def
      operand_of_def bool_text_def show_nat.simps digit_chars)

theorem emitted_functions_well_formed_witness: "\<exists>ls. function_lines sample_loop_env 0 = Some ls \<and> well_formed_function ls"
  using sample_loop_lines emitted_functions_well_formed [OF sample_loop_lines] by blast

end
