(* ===== verification/Wav.thy ===== *)
theory Wav
  imports Paths Source_Text
begin

text \<open>
  Sound assets, \<^verbatim>\<open>src/src/audio_assets.rs\<close>: a bounded read of the file and the validation of the
  PCM subset of RIFF/WAVE that the runtime plays.
\<close>

section \<open>Little-endian integers\<close>

definition get_range :: "bytes \<Rightarrow> nat \<Rightarrow> nat \<Rightarrow> bytes option" where
  "get_range bs offset n = (if offset + n \<le> length bs then Some (take n (drop offset bs)) else None)"

definition little_u16 :: "bytes \<Rightarrow> nat \<Rightarrow> (string, nat) result" where
  "little_u16 bs offset =
     rbind (ok_or ''truncated WAV integer'' (get_range bs offset 2)) (\<lambda>v. Ok (from_be_bytes (rev v)))"

definition little_u32 :: "bytes \<Rightarrow> nat \<Rightarrow> (string, nat) result" where
  "little_u32 bs offset =
     rbind (ok_or ''truncated WAV integer'' (get_range bs offset 4)) (\<lambda>v. Ok (from_be_bytes (rev v)))"

section \<open>Validation\<close>

definition MAX_WAV_BYTES :: nat where
  "MAX_WAV_BYTES = 32 * 1024 * 1024"

definition MAX_SAMPLES :: nat where
  "MAX_SAMPLES = 180 * 48000"

text \<open>\<open>usize::usize_add\<close>.\<close>

definition usize_add :: "nat \<Rightarrow> nat \<Rightarrow> nat option" where
  "usize_add a b = (if a + b < 2 ^ 64 then Some (a + b) else None)"

definition tag :: "string \<Rightarrow> bytes" where
  "tag s = map (of_nat \<circ> byte) s"

text \<open>The bounds of the \<open>fmt\<close> chunk (start and size) and of the data (start and end) found so far.\<close>

record wav_chunks =
  wc_format :: "(nat \<times> nat) option"
  wc_data :: "(nat \<times> nat) option"

definition see_chunk :: "bytes \<Rightarrow> nat \<Rightarrow> nat \<Rightarrow> nat \<Rightarrow> wav_chunks \<Rightarrow> (string, wav_chunks) result" where
  "see_chunk chunk_id header_end len payload_end found =
     (if chunk_id = tag ''fmt '' then
        if wc_format found \<noteq> None then Err ''contains more than one `fmt ` chunk''
        else Ok (found\<lparr>wc_format := Some (header_end, len)\<rparr>)
      else if chunk_id = tag ''data'' then
        if wc_data found \<noteq> None then Err ''contains more than one `data` chunk''
        else Ok (found\<lparr>wc_data := Some (header_end, payload_end)\<rparr>)
      else Ok found)"

text \<open>One turn of the loop over the chunks, to the next cursor.\<close>

definition chunk_step :: "bytes \<Rightarrow> nat \<Rightarrow> wav_chunks \<Rightarrow> (string, nat \<times> wav_chunks) result" where
  "chunk_step bs cursor found =
     rbind (ok_or ''chunk offset overflow'' (usize_add cursor 8)) (\<lambda>header_end.
       if length bs < header_end then Err ''truncated WAV chunk header''
       else
         rbind (little_u32 bs (cursor + 4)) (\<lambda>len.
         rbind (ok_or ''chunk size overflow'' (usize_add header_end len)) (\<lambda>payload_end.
           if length bs < payload_end then Err ''WAV chunk extends beyond the RIFF data''
           else
             rbind (see_chunk (take 4 (drop cursor bs)) header_end len payload_end found) (\<lambda>found.
             rbind (ok_or ''chunk padding overflow'' (usize_add payload_end (len mod 2))) (\<lambda>next.
               if length bs < next then Err ''truncated WAV chunk padding'' else Ok (next, found))))))"

lemma chunk_step_advances: "chunk_step bs cursor found = Ok (cursor', found') \<Longrightarrow> cursor < cursor' \<and> cursor' \<le> length bs"
  by (auto simp: chunk_step_def rbind_eq_Ok ok_or_def usize_add_def split: option.splits if_splits)

function scan_chunks :: "bytes \<Rightarrow> nat \<Rightarrow> wav_chunks \<Rightarrow> (string, wav_chunks) result" where
  "scan_chunks bs cursor found =
     (if cursor < length bs then
        case chunk_step bs cursor found of
          Inl e \<Rightarrow> Err e
        | Inr (cursor', found') \<Rightarrow> scan_chunks bs cursor' found'
      else Ok found)"
  by pat_completeness auto
termination
  by (relation "measure (\<lambda>(bs, cursor, found). length bs - cursor)") (auto dest: chunk_step_advances)

declare scan_chunks.simps [simp del]

definition check_format :: "bytes \<Rightarrow> nat \<Rightarrow> nat \<Rightarrow> (string, unit) result" where
  "check_format bs start len =
     (if len < 16 then Err ''`fmt ` chunk is shorter than 16 bytes''
      else
        rbind (little_u16 bs start) (\<lambda>v.
        if v \<noteq> 1 then Err ''audio format must be uncompressed PCM (format 1)'' else
        rbind (little_u16 bs (start + 2)) (\<lambda>v.
        if v \<noteq> 1 then Err ''PCM must have exactly one channel'' else
        rbind (little_u32 bs (start + 4)) (\<lambda>v.
        if v \<noteq> 48000 then Err ''PCM sample rate must be 48000 Hz'' else
        rbind (little_u32 bs (start + 8)) (\<lambda>v.
        if v \<noteq> 96000 then Err ''PCM byte rate and block alignment must match mono PCM16'' else
        rbind (little_u16 bs (start + 12)) (\<lambda>v.
        if v \<noteq> 2 then Err ''PCM byte rate and block alignment must match mono PCM16'' else
        rbind (little_u16 bs (start + 14)) (\<lambda>v.
        if v \<noteq> 16 then Err ''PCM samples must be 16-bit'' else Ok ())))))))"

text \<open>The samples between two bounds.\<close>

definition extract_data :: "bytes \<Rightarrow> nat \<Rightarrow> nat \<Rightarrow> (string, bytes) result" where
  "extract_data bs data_start data_end =
     (let data_len = data_end - data_start in
      if data_len = 0 then Err ''PCM data must contain at least one sample''
      else if data_len mod 2 \<noteq> 0 then Err ''PCM data length must be a whole number of 16-bit samples''
      else if MAX_SAMPLES < data_len div 2 then Err ''decoded audio exceeds the 180 second duration limit''
      else Ok (take data_len (drop data_start bs)))"

text \<open>Everything after the RIFF header.\<close>

definition validate_chunks :: "bytes \<Rightarrow> (string, bytes) result" where
  "validate_chunks bs =
     rbind (scan_chunks bs 12 \<lparr>wc_format = None, wc_data = None\<rparr>) (\<lambda>found.
     rbind (ok_or ''missing `fmt ` chunk'' (wc_format found)) (\<lambda>(format_start, format_size).
     rbind (check_format bs format_start format_size) (\<lambda>_.
     rbind (ok_or ''missing `data` chunk'' (wc_data found)) (\<lambda>(data_start, data_end).
       extract_data bs data_start data_end))))"

definition validate_wav :: "bytes \<Rightarrow> (string, bytes) result" where
  "validate_wav bs =
     (if length bs < 12 \<or> take 4 bs \<noteq> tag ''RIFF'' \<or> take 4 (drop 8 bs) \<noteq> tag ''WAVE'' then Err ''expected a RIFF/WAVE file''
      else
        rbind (little_u32 bs 4) (\<lambda>riff_size.
          if usize_add riff_size 8 \<noteq> Some (length bs) then Err ''RIFF size does not match the file length''
          else validate_chunks bs))"

section \<open>Reading an asset\<close>

text \<open>\<open>Take::read_to_end\<close>: reads until the end of the file or the limit, retrying after an interruption.\<close>

fun read_to_limit :: "nat \<Rightarrow> reader \<Rightarrow> (io_error, bytes) result" where
  "read_to_limit n [] = Ok []"
| "read_to_limit n (RdError e # es) =
     (if n = 0 then Ok [] else if io_kind e = IoInterrupted then read_to_limit n es else Err e)"
| "read_to_limit n (RdData bs # es) =
     (if n = 0 \<or> bs = [] then Ok []
      else rbind (read_to_limit (n - length bs) es) (\<lambda>more. Ok (take n bs @ more)))"

definition read_bounded :: "reader \<Rightarrow> (io_error, bytes) result" where
  "read_bounded reader = read_to_limit (MAX_WAV_BYTES + 1) reader"

definition unreadable_asset :: "string \<Rightarrow> string \<Rightarrow> string" where
  "unreadable_asset path e = ''could not read sound asset `'' @ path_display path @ ''`: '' @ e"

definition not_regular :: "string \<Rightarrow> string" where
  "not_regular path = ''sound asset `'' @ path_display path @ ''` is not a regular file''"

definition too_large :: "string \<Rightarrow> string" where
  "too_large path = ''sound asset `'' @ path_display path @ ''` exceeds the 32 MiB encoded size limit''"

definition map_error :: "('e \<Rightarrow> 'f) \<Rightarrow> ('e, 'a) result \<Rightarrow> ('f, 'a) result" where
  "map_error f r = map_sum f (\<lambda>a. a) r"

text \<open>The reads of \<open>load\<close> after the path is canonical.\<close>

definition read_asset :: "file_system \<Rightarrow> string \<Rightarrow> string \<Rightarrow> (string, bytes) result" where
  "read_asset fs path canonical =
     rbind (map_error (unreadable_asset path) (fs_metadata fs canonical)) (\<lambda>metadata.
     if \<not> fm_is_file metadata then Err (not_regular path)
     else if MAX_WAV_BYTES < fm_len metadata then Err (too_large path)
     else
       rbind (map_error (unreadable_asset path) (fs_open fs canonical)) (\<lambda>opened.
       rbind (map_error (unreadable_asset path) (opened_metadata opened)) (\<lambda>metadata.
       if \<not> fm_is_file metadata then Err (not_regular path)
       else
         rbind (map_error (unreadable_asset path \<circ> io_text) (read_bounded (opened_reader opened))) (\<lambda>bs.
         if MAX_WAV_BYTES < length bs then Err (too_large path)
         else map_error (\<lambda>e. ''invalid sound asset `'' @ path_display path @ ''`: '' @ e) (validate_wav bs)))))"

definition load_asset :: "file_system \<Rightarrow> string \<Rightarrow> source_map \<Rightarrow> (string, bytes) result \<times> source_map" where
  "load_asset fs path sources =
     (let sources = record_dependency path sources in
      case fs_canonicalize fs path of
        Inl e \<Rightarrow> (Err (unreadable_asset path e), sources)
      | Inr canonical \<Rightarrow> (read_asset fs path canonical, record_dependency canonical sources))"

end
