(* ===== verification/Wav_Correct.thy ===== *)
theory Wav_Correct
  imports Wav
begin

text \<open>
  The validation of sound assets against a grammar of the files it accepts: a RIFF/WAVE container of
  chunks, one of which is the format and one the samples.
\<close>

section \<open>The grammar\<close>

record chunk =
  ck_id :: bytes
  ck_payload :: bytes
  ck_pad :: bytes

definition le_bytes :: "nat \<Rightarrow> nat \<Rightarrow> bytes" where
  "le_bytes n v = rev (to_be_bytes n v)"

definition chunk_ok :: "chunk \<Rightarrow> bool" where
  "chunk_ok c \<longleftrightarrow>
     length (ck_id c) = 4 \<and> length (ck_payload c) < 2 ^ 32 \<and> length (ck_pad c) = length (ck_payload c) mod 2"

definition chunk_bytes :: "chunk \<Rightarrow> bytes" where
  "chunk_bytes c = ck_id c @ le_bytes 4 (length (ck_payload c)) @ ck_payload c @ ck_pad c"

definition wav_bytes :: "chunk list \<Rightarrow> bytes" where
  "wav_bytes cs =
     (let body = tag ''WAVE'' @ concat (map chunk_bytes cs)
      in tag ''RIFF'' @ le_bytes 4 (length body) @ body)"

text \<open>Uncompressed PCM, one channel, 48000 Hz, 96000 bytes a second in blocks of 2, 16 bits.\<close>

definition pcm_format :: bytes where
  "pcm_format = le_bytes 2 1 @ le_bytes 2 1 @ le_bytes 4 48000 @ le_bytes 4 96000 @ le_bytes 2 2 @ le_bytes 2 16"

definition chunks_named :: "string \<Rightarrow> chunk list \<Rightarrow> chunk list" where
  "chunks_named name cs = filter (\<lambda>c. ck_id c = tag name) cs"

definition wav_file :: "chunk list \<Rightarrow> bytes \<Rightarrow> bool" where
  "wav_file cs pcm \<longleftrightarrow>
     list_all chunk_ok cs \<and>
     (\<exists>c. chunks_named ''fmt '' cs = [c] \<and> take 16 (ck_payload c) = pcm_format) \<and>
     (\<exists>c. chunks_named ''data'' cs = [c] \<and> ck_payload c = pcm) \<and>
     pcm \<noteq> [] \<and> even (length pcm) \<and> length pcm div 2 \<le> MAX_SAMPLES"

section \<open>Integers\<close>

lemma length_le_bytes [simp]: "length (le_bytes n v) = n"
  by (simp add: le_bytes_def)

lemma le_bytes_iff: "v < 256 ^ n \<Longrightarrow> length bs = n \<Longrightarrow> from_be_bytes (rev bs) = v \<longleftrightarrow> bs = le_bytes n v"
  by (metis from_to_be_bytes le_bytes_def length_rev rev_rev_ident to_from_be_bytes)

lemma le_value_less: "length bs = n \<Longrightarrow> from_be_bytes (rev bs) < 256 ^ n"
  using from_be_bytes_less [of "rev bs"] by simp

lemma little_Ok:
  "little_u16 bs i = Ok v \<longleftrightarrow> i + 2 \<le> length bs \<and> v = from_be_bytes (rev (take 2 (drop i bs)))"
  "little_u32 bs i = Ok v \<longleftrightarrow> i + 4 \<le> length bs \<and> v = from_be_bytes (rev (take 4 (drop i bs)))"
  by (auto simp: little_u16_def little_u32_def get_range_def)

lemma little_eq:
  "i + 2 \<le> length bs \<Longrightarrow> v < 2 ^ 16 \<Longrightarrow> little_u16 bs i = Ok v \<longleftrightarrow> take 2 (drop i bs) = le_bytes 2 v"
  "i + 4 \<le> length bs \<Longrightarrow> v < 2 ^ 32 \<Longrightarrow> little_u32 bs i = Ok v \<longleftrightarrow> take 4 (drop i bs) = le_bytes 4 v"
  using le_bytes_iff [of v 2 "take 2 (drop i bs)"] le_bytes_iff [of v 4 "take 4 (drop i bs)"] by (auto simp: little_Ok)

lemma tag_length [simp]: "length (tag s) = length s"
  by (simp add: tag_def)

lemma checked_add_Some: "a + b < 2 ^ 64 \<Longrightarrow> usize_add a b = Some (a + b)"
  by (simp add: usize_add_def)

section \<open>The chunks\<close>

lemma chunk_bytes_length: "chunk_ok c \<Longrightarrow> length (chunk_bytes c) = 8 + length (ck_payload c) + length (ck_payload c) mod 2"
  by (simp add: chunk_bytes_def chunk_ok_def)

definition see :: "nat \<Rightarrow> chunk \<Rightarrow> wav_chunks \<Rightarrow> (string, wav_chunks) result" where
  "see cursor c found =
     see_chunk (ck_id c) (cursor + 8) (length (ck_payload c)) (cursor + 8 + length (ck_payload c)) found"

lemma chunk_step_iff:
  assumes "cursor < length bs" and "length bs < 2 ^ 32"
  shows "chunk_step bs cursor found = Ok (cursor', found') \<longleftrightarrow>
    (\<exists>c rest. chunk_ok c \<and> drop cursor bs = chunk_bytes c @ rest \<and> cursor' = cursor + length (chunk_bytes c) \<and>
       see cursor c found = Ok found')"
    (is "?step \<longleftrightarrow> ?parsed")
proof
  assume step: ?step
  let ?n = "from_be_bytes (rev (take 4 (drop (cursor + 4) bs)))"
  have "?n < 256 ^ length (take 4 (drop (cursor + 4) bs))" using le_value_less by blast
  then have n: "?n < 2 ^ 32" if "cursor + 8 \<le> length bs" using that by simp
  have bounds: "cursor + 8 \<le> length bs" using step assms by (auto simp: chunk_step_def checked_add_Some split: if_splits)
  have fits: "cursor + 8 + ?n + ?n mod 2 < 2 ^ 64" using n [OF bounds] bounds assms(2) by simp
  have more: "cursor + 8 + ?n + ?n mod 2 \<le> length bs" "cursor' = cursor + 8 + ?n + ?n mod 2"
    "see_chunk (take 4 (drop cursor bs)) (cursor + 8) ?n (cursor + 8 + ?n) found = Ok found'"
    using step bounds fits
    by (auto simp: chunk_step_def usize_add_def rbind_eq_Ok little_Ok ok_or_def split: if_splits)
  define c where "c = \<lparr>ck_id = take 4 (drop cursor bs), ck_payload = take ?n (drop (cursor + 8) bs),
      ck_pad = take (?n mod 2) (drop (cursor + 8 + ?n) bs)\<rparr>"
  have len: "length (ck_payload c) = ?n" using more(1) by (simp add: c_def)
  have ok: "chunk_ok c" using more(1) n [OF bounds] by (simp add: chunk_ok_def c_def)
  have "take 4 (drop (cursor + 4) bs) = le_bytes 4 ?n"
    using le_bytes_iff [of ?n 4 "take 4 (drop (cursor + 4) bs)"] n [OF bounds] bounds by simp
  then have "chunk_bytes c = take 4 (drop cursor bs) @ take 4 (drop (cursor + 4) bs) @ take ?n (drop (cursor + 8) bs)
      @ take (?n mod 2) (drop (cursor + 8 + ?n) bs)"
    unfolding chunk_bytes_def len by (simp add: c_def)
  also have "\<dots> = take (4 + (4 + (?n + ?n mod 2))) (drop cursor bs)"
    by (simp only: take_add drop_drop) (simp add: add.commute add.left_commute)
  finally have "chunk_bytes c = take (4 + (4 + (?n + ?n mod 2))) (drop cursor bs)" .
  then have "drop cursor bs = chunk_bytes c @ drop (4 + (4 + (?n + ?n mod 2))) (drop cursor bs)"
    by (metis append_take_drop_id)
  moreover have "see cursor c found = Ok found'" using more(3) len by (simp add: see_def c_def)
  moreover have "cursor' = cursor + length (chunk_bytes c)" using more(2) chunk_bytes_length [OF ok] len by simp
  ultimately show ?parsed using ok by blast
next
  assume ?parsed
  then obtain c rest where c: "chunk_ok c" "drop cursor bs = chunk_bytes c @ rest" "cursor' = cursor + length (chunk_bytes c)"
    "see cursor c found = Ok found'" by blast
  let ?n = "length (ck_payload c)"
  have "length (drop cursor bs) = length (chunk_bytes c) + length rest" by (simp add: c(2))
  then have bounds: "cursor + 8 + ?n + ?n mod 2 \<le> length bs" using chunk_bytes_length [OF c(1)] assms(1) by simp
  have "drop (cursor + 4) bs = drop 4 (drop cursor bs)" by (simp add: add.commute)
  then have "take 4 (drop (cursor + 4) bs) = le_bytes 4 ?n" using c(1) by (simp add: c(2) chunk_bytes_def chunk_ok_def)
  then have "little_u32 bs (cursor + 4) = Ok ?n" using bounds c(1) by (subst little_eq) (simp_all add: chunk_ok_def)
  moreover have "take 4 (drop cursor bs) = ck_id c" using c(1) by (simp add: c(2) chunk_bytes_def chunk_ok_def)
  moreover have "cursor' = cursor + 8 + ?n + ?n mod 2" using c(3) chunk_bytes_length [OF c(1)] by simp
  ultimately show ?step
    using bounds assms c(4) by (simp add: chunk_step_def checked_add_Some see_def)
qed

text \<open>The walk over the chunks of the grammar.\<close>

fun place :: "nat \<Rightarrow> chunk list \<Rightarrow> wav_chunks \<Rightarrow> (string, wav_chunks) result" where
  "place cursor [] found = Ok found"
| "place cursor (c # cs) found =
     rbind (see cursor c found) (\<lambda>found. place (cursor + length (chunk_bytes c)) cs found)"

lemma scan_chunks_iff:
  "length bs < 2 ^ 32 \<Longrightarrow> cursor \<le> length bs \<Longrightarrow> scan_chunks bs cursor found = Ok found' \<longleftrightarrow>
    (\<exists>cs. list_all chunk_ok cs \<and> drop cursor bs = concat (map chunk_bytes cs) \<and> place cursor cs found = Ok found')"
proof (induction bs cursor found rule: scan_chunks.induct)
  case (1 bs cursor found)
  have empty: "chunk_bytes c \<noteq> []" if "chunk_ok c" for c using chunk_bytes_length [OF that] by auto
  show ?case
  proof (cases "cursor < length bs")
    case False
    then have "drop cursor bs = concat (map chunk_bytes cs) \<longleftrightarrow> cs = []" if "list_all chunk_ok cs" for cs
      using that empty by (cases cs) auto
    from this [of "[]"] show ?thesis
      using False \<open>\<And>cs. list_all chunk_ok cs \<Longrightarrow> drop cursor bs = concat (map chunk_bytes cs) \<longleftrightarrow> cs = []\<close>
      by (subst scan_chunks.simps) (force intro: exI [of _ "[]"])
  next
    case True
    show ?thesis
    proof
      assume scan: "scan_chunks bs cursor found = Ok found'"
      then obtain cursor1 found1 where step: "chunk_step bs cursor found = Ok (cursor1, found1)"
          and rest: "scan_chunks bs cursor1 found1 = Ok found'"
        using True by (subst (asm) scan_chunks.simps) (auto split: sum.splits)
      obtain c tl where c: "chunk_ok c" "drop cursor bs = chunk_bytes c @ tl" "cursor1 = cursor + length (chunk_bytes c)"
          "see cursor c found = Ok found1"
        using step chunk_step_iff [OF True "1.prems"(1)] by blast
      have "tl = drop cursor1 bs" using arg_cong [OF c(2), of "drop (length (chunk_bytes c))"] c(3) by (simp add: add.commute)
      moreover obtain cs where "list_all chunk_ok cs" "drop cursor1 bs = concat (map chunk_bytes cs)" "place cursor1 cs found1 = Ok found'"
        using "1.IH" [OF True step refl "1.prems"(1)] chunk_step_advances [OF step] rest by auto
      ultimately show "\<exists>cs. list_all chunk_ok cs \<and> drop cursor bs = concat (map chunk_bytes cs) \<and> place cursor cs found = Ok found'"
        using c by (intro exI [of _ "c # cs"]) simp
    next
      assume "\<exists>cs. list_all chunk_ok cs \<and> drop cursor bs = concat (map chunk_bytes cs) \<and> place cursor cs found = Ok found'"
      then obtain cs where cs: "list_all chunk_ok cs" "drop cursor bs = concat (map chunk_bytes cs)" "place cursor cs found = Ok found'"
        by blast
      then obtain c cs' where c: "cs = c # cs'" using True by (cases cs) auto
      then obtain found1 where see: "see cursor c found = Ok found1" and rest: "place (cursor + length (chunk_bytes c)) cs' found1 = Ok found'"
        using cs(3) by (auto simp: rbind_eq_Ok)
      let ?next = "cursor + length (chunk_bytes c)"
      have step: "chunk_step bs cursor found = Ok (?next, found1)"
        using chunk_step_iff [OF True "1.prems"(1)] cs c see by auto
      have "drop ?next bs = drop (length (chunk_bytes c)) (drop cursor bs)" by (simp add: add.commute)
      then have "drop ?next bs = concat (map chunk_bytes cs')" using cs(2) c by simp
      then have "scan_chunks bs ?next found1 = Ok found'"
        using "1.IH" [OF True step refl "1.prems"(1)] chunk_step_advances [OF step] cs(1) c rest by auto
      then show "scan_chunks bs cursor found = Ok found'" using True step by (subst scan_chunks.simps) simp
    qed
  qed
qed

text \<open>A range of the bytes that holds a payload.\<close>

definition holds :: "bytes \<Rightarrow> nat \<Rightarrow> bytes \<Rightarrow> bool" where
  "holds bs start payload \<longleftrightarrow> start + length payload \<le> length bs \<and> take (length payload) (drop start bs) = payload"

text \<open>What the walk finds of one kind: nothing new, or the only chunk of that kind.\<close>

definition finds :: "bytes \<Rightarrow> (nat \<Rightarrow> bytes \<Rightarrow> 'a) \<Rightarrow> chunk list \<Rightarrow> 'a option \<Rightarrow> 'a option \<Rightarrow> bool" where
  "finds bs entry cs old new \<longleftrightarrow>
     (cs = [] \<and> new = old) \<or>
     (\<exists>c start. cs = [c] \<and> old = None \<and> holds bs start (ck_payload c) \<and> new = Some (entry start (ck_payload c)))"

abbreviation format_entry :: "nat \<Rightarrow> bytes \<Rightarrow> nat \<times> nat" where
  "format_entry start payload \<equiv> (start, length payload)"

abbreviation data_entry :: "nat \<Rightarrow> bytes \<Rightarrow> nat \<times> nat" where
  "data_entry start payload \<equiv> (start, start + length payload)"

lemma holds_payload:
  assumes "chunk_ok c" and "drop cursor bs = chunk_bytes c @ rest" and "cursor \<le> length bs"
  shows "holds bs (cursor + 8) (ck_payload c)"
proof -
  have "drop (cursor + 8) bs = drop 8 (drop cursor bs)" by (simp add: add.commute)
  then have "drop (cursor + 8) bs = ck_payload c @ ck_pad c @ rest"
    using assms(1) by (simp add: assms(2) chunk_bytes_def chunk_ok_def)
  moreover have "length (drop cursor bs) = 8 + length (ck_payload c) + length (ck_payload c) mod 2 + length rest"
    by (simp only: assms(2) length_append chunk_bytes_length [OF assms(1)])
  then have "cursor + 8 + length (ck_payload c) \<le> length bs" using assms(3) by simp
  ultimately show ?thesis by (simp add: holds_def)
qed

lemma tags_differ: "tag ''fmt '' \<noteq> tag ''data''"
  by (simp add: tag_def byte_def)

lemma place_iff:
  "list_all chunk_ok cs \<Longrightarrow> cursor \<le> length bs \<Longrightarrow> drop cursor bs = concat (map chunk_bytes cs) \<Longrightarrow>
   place cursor cs found = Ok found' \<Longrightarrow>
   finds bs format_entry (chunks_named ''fmt '' cs) (wc_format found) (wc_format found') \<and>
   finds bs data_entry (chunks_named ''data'' cs) (wc_data found) (wc_data found')"
proof (induction cs arbitrary: cursor found)
  case Nil
  then show ?case by (simp add: finds_def chunks_named_def)
next
  case (Cons c cs)
  obtain found1 where see: "see cursor c found = Ok found1" and rest: "place (cursor + length (chunk_bytes c)) cs found1 = Ok found'"
    using Cons.prems(4) by (auto simp: rbind_eq_Ok)
  have holds: "holds bs (cursor + 8) (ck_payload c)"
    using holds_payload [of c cursor bs "concat (map chunk_bytes cs)"] Cons.prems by simp
  have "length bs - cursor = length (chunk_bytes c) + length (concat (map chunk_bytes cs))"
    using arg_cong [OF Cons.prems(3), of length] by simp
  moreover have "length (chunk_bytes c) \<noteq> 0" using chunk_bytes_length [of c] Cons.prems(1) by simp
  ultimately have nxt: "cursor + length (chunk_bytes c) \<le> length bs" by linarith
  have "drop (cursor + length (chunk_bytes c)) bs = drop (length (chunk_bytes c)) (drop cursor bs)" by (simp add: add.commute)
  then have "drop (cursor + length (chunk_bytes c)) bs = concat (map chunk_bytes cs)" using Cons.prems(3) by simp
  from Cons.IH [OF _ nxt this rest] Cons.prems(1)
  have ih: "finds bs format_entry (chunks_named ''fmt '' cs) (wc_format found1) (wc_format found')"
      "finds bs data_entry (chunks_named ''data'' cs) (wc_data found1) (wc_data found')" by auto
  show ?case
    using see ih holds tags_differ
    by (auto simp: see_def see_chunk_def chunks_named_def finds_def simp del: not_None_eq split: if_splits)
qed

text \<open>Conversely, a walk that meets at most one chunk of each kind succeeds.\<close>

lemma place_returns:
  "length (chunks_named ''fmt '' cs) + (if wc_format found = None then 0 else 1) \<le> 1 \<Longrightarrow>
   length (chunks_named ''data'' cs) + (if wc_data found = None then 0 else 1) \<le> 1 \<Longrightarrow>
   \<exists>found'. place cursor cs found = Ok found'"
proof (induction cs arbitrary: cursor found)
  case (Cons c cs)
  then show ?case
    using tags_differ
    by (cases "ck_id c = tag ''fmt ''"; cases "ck_id c = tag ''data''")
       (auto simp: see_def see_chunk_def chunks_named_def split: if_splits)
qed simp

section \<open>The format\<close>

lemma take_in_payload: "holds bs start f \<Longrightarrow> i + n \<le> length f \<Longrightarrow> take n (drop (start + i) bs) = take n (drop i f)"
proof -
  assume h: "holds bs start f" and "i + n \<le> length f"
  then have f: "f = take (length f) (drop start bs)" by (simp add: holds_def)
  have "take n (drop i f) = take n (drop i (take (length f) (drop start bs)))" by (subst f) simp
  also have "\<dots> = take n (drop (start + i) bs)"
    using \<open>i + n \<le> length f\<close> by (simp add: drop_take min_def add.commute)
  finally show ?thesis by simp
qed

lemma take_16: "take 16 f = take 2 f @ take 2 (drop 2 f) @ take 4 (drop 4 f) @ take 4 (drop 8 f) @ take 2 (drop 12 f) @ take 2 (drop 14 f)"
proof -
  have "take 16 f = take (2 + (2 + (4 + (4 + (2 + 2))))) f" by simp
  also have "\<dots> = take 2 f @ take 2 (drop 2 f) @ take 4 (drop 4 f) @ take 4 (drop 8 f) @ take 2 (drop 12 f) @ take 2 (drop 14 f)"
    by (simp only: take_add drop_drop) simp
  finally show ?thesis .
qed

lemma pcm_format_length: "length pcm_format = 16"
  by (simp add: pcm_format_def)

lemma check_format_iff:
  assumes h: "holds bs start f"
  shows "check_format bs start (length f) = Ok () \<longleftrightarrow> take 16 f = pcm_format"
proof (cases "16 \<le> length f")
  case True
  have bound: "start + length f \<le> length bs" using h by (simp add: holds_def)
  have u16: "little_u16 bs (start + i) = Ok v \<longleftrightarrow> take 2 (drop i f) = le_bytes 2 v" if "i + 2 \<le> length f" "v < 2 ^ 16" for i v
    using little_eq(1) [of "start + i" bs v] take_in_payload [OF h that(1)] bound that by simp
  have u32: "little_u32 bs (start + i) = Ok v \<longleftrightarrow> take 4 (drop i f) = le_bytes 4 v" if "i + 4 \<le> length f" "v < 2 ^ 32" for i v
    using little_eq(2) [of "start + i" bs v] take_in_payload [OF h that(1)] bound that by simp
  have step: "rbind r (\<lambda>v. if v \<noteq> n then Err e else k) = Ok () \<longleftrightarrow> r = Ok n \<and> k = Ok ()" for r n and e :: string and k
    by (cases r) auto
  have "check_format bs start (length f) = Ok () \<longleftrightarrow>
      take 2 f = le_bytes 2 1 \<and> take 2 (drop 2 f) = le_bytes 2 1 \<and> take 4 (drop 4 f) = le_bytes 4 48000 \<and>
      take 4 (drop 8 f) = le_bytes 4 96000 \<and> take 2 (drop 12 f) = le_bytes 2 2 \<and> take 2 (drop 14 f) = le_bytes 2 16"
    using True u16 [of 0 1] u16 [of 2 1] u32 [of 4 48000] u32 [of 8 96000] u16 [of 12 2] u16 [of 14 16]
    by (simp add: check_format_def step)
  also have "\<dots> \<longleftrightarrow> take 16 f = pcm_format"
    unfolding take_16 [of f] pcm_format_def using True by (simp add: append_eq_append_conv)
  finally show ?thesis .
next
  case False
  then have "length (take 16 f) \<noteq> length pcm_format" by (simp add: pcm_format_length)
  then show ?thesis using False by (auto simp: check_format_def)
qed

section \<open>Validation is the grammar\<close>

lemma chunks_length: "length (wav_bytes cs) = 12 + length (concat (map chunk_bytes cs))"
  by (simp add: wav_bytes_def Let_def)

lemma wav_header_iff:
  assumes "length bs < 2 ^ 32"
  shows "(12 \<le> length bs \<and> take 4 bs = tag ''RIFF'' \<and> take 4 (drop 8 bs) = tag ''WAVE'' \<and>
      (\<exists>n. little_u32 bs 4 = Ok n \<and> usize_add n 8 = Some (length bs)) \<and> drop 12 bs = concat (map chunk_bytes cs)) \<longleftrightarrow>
    bs = wav_bytes cs"
    (is "?header \<longleftrightarrow> _")
proof
  assume h: ?header
  then obtain n where n: "little_u32 bs 4 = Ok n" "n + 8 = length bs" by (auto simp: usize_add_def split: if_splits)
  then have "take 4 (drop 4 bs) = le_bytes 4 n"
    using little_eq(2) [of 4 bs n] assms h by simp
  moreover have "bs = take 4 bs @ take 4 (drop 4 bs) @ take 4 (drop 8 bs) @ drop 12 bs"
  proof -
    have "bs = take (4 + (4 + 4)) bs @ drop 12 bs" by simp
    then show ?thesis by (simp only: take_add drop_drop append_assoc) simp
  qed
  moreover have "n = length (tag ''WAVE'' @ concat (map chunk_bytes cs))"
  proof -
    have "drop 12 bs = concat (map chunk_bytes cs)" using h by blast
    from arg_cong [OF this, of length] have "length bs - 12 = length (concat (map chunk_bytes cs))" by (simp only: length_drop)
    moreover have "12 \<le> length bs" using h by blast
    ultimately have "n = 4 + length (concat (map chunk_bytes cs))" using n(2) by linarith
    then show ?thesis by simp
  qed
  ultimately show "bs = wav_bytes cs" using h by (simp add: wav_bytes_def Let_def)
next
  assume bs: "bs = wav_bytes cs"
  let ?n = "4 + length (concat (map chunk_bytes cs))"
  have len: "length bs = ?n + 8" unfolding bs chunks_length by simp
  have shape: "bs = tag ''RIFF'' @ le_bytes 4 ?n @ tag ''WAVE'' @ concat (map chunk_bytes cs)"
    by (simp add: bs wav_bytes_def Let_def eval_nat_numeral)
  have "take 4 (drop 4 bs) = le_bytes 4 ?n" by (simp add: shape)
  then have "little_u32 bs 4 = Ok ?n" using len assms by (subst little_eq) simp_all
  moreover have "usize_add ?n 8 = Some (length bs)" using len assms by (simp add: usize_add_def)
  ultimately show ?header using len by (auto simp: shape)
qed

lemma extract_data_Ok:
  "extract_data bs d e = Ok pcm \<longleftrightarrow>
     e - d \<noteq> 0 \<and> even (e - d) \<and> (e - d) div 2 \<le> MAX_SAMPLES \<and> pcm = take (e - d) (drop d bs)"
  by (auto simp: extract_data_def Let_def not_less even_iff_mod_2_eq_zero split: if_splits)

lemma validate_chunks_Ok:
  "validate_chunks bs = Ok pcm \<longleftrightarrow>
     (\<exists>found s n d e. scan_chunks bs 12 \<lparr>wc_format = None, wc_data = None\<rparr> = Ok found \<and>
        wc_format found = Some (s, n) \<and> check_format bs s n = Ok () \<and> wc_data found = Some (d, e) \<and>
        extract_data bs d e = Ok pcm)"
proof -
  have ok: "ok_or e x = Ok a \<longleftrightarrow> x = Some a" for e :: string and x :: "'x option" and a
    by (cases x) auto
  show ?thesis by (simp add: validate_chunks_def rbind_eq_Ok ok)
qed

lemma validate_wav_parts:
  "validate_wav bs = Ok pcm \<longleftrightarrow>
     (12 \<le> length bs \<and> take 4 bs = tag ''RIFF'' \<and> take 4 (drop 8 bs) = tag ''WAVE'' \<and>
      (\<exists>n. little_u32 bs 4 = Ok n \<and> usize_add n 8 = Some (length bs))) \<and> validate_chunks bs = Ok pcm"
  by (auto simp: validate_wav_def rbind_eq_Ok not_less split: if_splits)

lemma validate_wav_iff:
  assumes "length bs < 2 ^ 32"
  shows "validate_wav bs = Ok pcm \<longleftrightarrow> (\<exists>cs. bs = wav_bytes cs \<and> wav_file cs pcm)"
proof
  assume "validate_wav bs = Ok pcm"
  then obtain found s n d e where header: "12 \<le> length bs" "take 4 bs = tag ''RIFF''" "take 4 (drop 8 bs) = tag ''WAVE''"
      "\<exists>n. little_u32 bs 4 = Ok n \<and> usize_add n 8 = Some (length bs)"
    and scan: "scan_chunks bs 12 \<lparr>wc_format = None, wc_data = None\<rparr> = Ok found"
    and found: "wc_format found = Some (s, n)" "check_format bs s n = Ok ()" "wc_data found = Some (d, e)"
    and pcm: "e - d \<noteq> 0" "even (e - d)" "(e - d) div 2 \<le> MAX_SAMPLES" "pcm = take (e - d) (drop d bs)"
    unfolding validate_wav_parts validate_chunks_Ok extract_data_Ok by blast
  obtain cs where cs: "list_all chunk_ok cs" "drop 12 bs = concat (map chunk_bytes cs)"
      "place 12 cs \<lparr>wc_format = None, wc_data = None\<rparr> = Ok found"
    using scan scan_chunks_iff [OF assms header(1)] by blast
  obtain f where f: "chunks_named ''fmt '' cs = [f]" "holds bs s (ck_payload f)" "n = length (ck_payload f)"
    using place_iff [OF cs(1) header(1) cs(2,3)] found(1) by (auto simp: finds_def)
  obtain c where c: "chunks_named ''data'' cs = [c]" "holds bs d (ck_payload c)" "e = d + length (ck_payload c)"
    using place_iff [OF cs(1) header(1) cs(2,3)] found(3) by (auto simp: finds_def)
  have "pcm = ck_payload c" using pcm(4) c(2,3) by (simp add: holds_def)
  moreover have "take 16 (ck_payload f) = pcm_format" using check_format_iff [OF f(2)] found(2) f(3) by simp
  ultimately have "wav_file cs pcm" using cs(1) f(1) c(1,3) pcm by (auto simp: wav_file_def)
  moreover have "bs = wav_bytes cs" using wav_header_iff [OF assms] header cs(2) by blast
  ultimately show "\<exists>cs. bs = wav_bytes cs \<and> wav_file cs pcm" by blast
next
  assume "\<exists>cs. bs = wav_bytes cs \<and> wav_file cs pcm"
  then obtain cs where bs: "bs = wav_bytes cs" and wav_ok: "wav_file cs pcm" by blast
  then have header: "12 \<le> length bs" "take 4 bs = tag ''RIFF''" "take 4 (drop 8 bs) = tag ''WAVE''"
      "\<exists>n. little_u32 bs 4 = Ok n \<and> usize_add n 8 = Some (length bs)" "drop 12 bs = concat (map chunk_bytes cs)"
    using wav_header_iff [OF assms, of cs] by blast+
  obtain f c where f: "chunks_named ''fmt '' cs = [f]" "take 16 (ck_payload f) = pcm_format"
    and c: "chunks_named ''data'' cs = [c]" "ck_payload c = pcm" and ok: "list_all chunk_ok cs"
    and pcm: "pcm \<noteq> []" "even (length pcm)" "length pcm div 2 \<le> MAX_SAMPLES"
    using wav_ok by (auto simp: wav_file_def)
  obtain found where found: "place 12 cs \<lparr>wc_format = None, wc_data = None\<rparr> = Ok found"
    using place_returns [of cs "\<lparr>wc_format = None, wc_data = None\<rparr>" 12] f(1) c(1) by auto
  then have scan: "scan_chunks bs 12 \<lparr>wc_format = None, wc_data = None\<rparr> = Ok found"
    using scan_chunks_iff [OF assms header(1)] ok header(5) by blast
  obtain s where s: "wc_format found = Some (s, length (ck_payload f))" "holds bs s (ck_payload f)"
    using place_iff [OF ok header(1,5) found] f(1) by (auto simp: finds_def)
  obtain d where d: "wc_data found = Some (d, d + length pcm)" "holds bs d pcm"
    using place_iff [OF ok header(1,5) found] c by (auto simp: finds_def)
  have "check_format bs s (length (ck_payload f)) = Ok ()" using check_format_iff [OF s(2)] f(2) by simp
  then show "validate_wav bs = Ok pcm"
    unfolding validate_wav_parts validate_chunks_Ok extract_data_Ok
    using header scan s(1) d pcm by (auto simp: holds_def)
qed

text \<open>
  C11 A sound asset is accepted exactly when it is a file of the grammar, and then exactly its samples are
  embedded: a RIFF/WAVE container of its exact length whose chunks fill it, with one mono 48000 Hz PCM16
  format chunk and one non-empty data chunk of whole samples, of at most 180 seconds.
\<close>

theorem sound_asset_accepted:
  assumes "length bs \<le> MAX_WAV_BYTES"
  shows "validate_wav bs = Ok pcm \<longleftrightarrow> (\<exists>cs. bs = wav_bytes cs \<and> wav_file cs pcm)"
  by (rule validate_wav_iff) (use assms in \<open>simp add: MAX_WAV_BYTES_def\<close>)

definition sample_chunks :: "chunk list" where
  "sample_chunks =
     [\<lparr>ck_id = tag ''fmt '', ck_payload = pcm_format, ck_pad = []\<rparr>,
      \<lparr>ck_id = tag ''LIST'', ck_payload = [1], ck_pad = [0]\<rparr>,
      \<lparr>ck_id = tag ''data'', ck_payload = [0, 128], ck_pad = []\<rparr>]"

theorem sound_asset_accepted_witness: "validate_wav (wav_bytes sample_chunks) = Ok [0, 128]"
proof -
  have tags: "tag ''fmt '' \<noteq> tag ''data''" "tag ''LIST'' \<noteq> tag ''data''" "tag ''LIST'' \<noteq> tag ''fmt ''"
    by (simp_all add: tag_def byte_def)
  have "wav_file sample_chunks [0, 128]"
    using tags by (simp add: wav_file_def sample_chunks_def chunks_named_def chunk_ok_def pcm_format_length MAX_SAMPLES_def)
  moreover have "length (wav_bytes sample_chunks) \<le> MAX_WAV_BYTES"
    by (simp add: chunks_length sample_chunks_def chunk_bytes_def pcm_format_length MAX_WAV_BYTES_def)
  ultimately show ?thesis using sound_asset_accepted by blast
qed

end
