(* ===== verification/Lexer.thy ===== *)
theory Lexer
  imports Ast
begin

text \<open>
  The lexer, \<^verbatim>\<open>src/src/lexer.rs\<close>. The state is the struct \<open>Lexer\<close>;
  \<open>lex_step\<close> is one turn of the loop of \<open>run\<close>, from the byte at the cursor to the
  next one. A slice of the source that is not cut at character boundaries panics, which is the
  result \<^const>\<open>None\<close>.
\<close>

section \<open>Tokens\<close>

datatype token_kind =
    TkIdentifier string
  | TkString string
  | TkInteger int
  | TkFloat f32
  | TkGame | TkImport | TkAs | TkLet | TkConst | TkStart | TkUpdate | TkDraw
  | TkFn | TkStruct | TkReturn | TkIf | TkElse | TkWhile | TkFor | TkIn
  | TkTrue | TkFalse | TkI32 | TkF32 | TkBool | TkVoid | TkLeftParen | TkRightParen
  | TkLeftBrace | TkRightBrace | TkLeftBracket | TkRightBracket | TkDot | TkDotDot | TkColon | TkColonColon
  | TkComma | TkSemicolon | TkPlus | TkPlusEqual | TkMinus | TkMinusEqual | TkStar | TkStarEqual
  | TkSlash | TkSlashEqual | TkPercent | TkPercentEqual | TkBang | TkEqual | TkEqualEqual | TkBangEqual
  | TkLess | TkLessEqual | TkGreater | TkGreaterEqual | TkAndAnd | TkOrOr | TkArrow | TkEof

record token =
  token_kind :: token_kind
  token_span :: span

record lexer =
  lx_source :: string
  lx_cursor :: nat
  lx_tokens :: "token list"
  lx_diagnostics :: "diagnostic list"

definition lexer_new :: "string \<Rightarrow> lexer" where
  "lexer_new source = \<lparr>lx_source = source, lx_cursor = 0, lx_tokens = [], lx_diagnostics = []\<rparr>"

section \<open>Pushing tokens\<close>

definition lx_peek_is :: "char \<Rightarrow> lexer \<Rightarrow> bool" where
  "lx_peek_is expected lx \<longleftrightarrow> lx_cursor lx < length (lx_source lx) \<and> lx_source lx ! lx_cursor lx = expected"

definition lx_advance :: "lexer \<Rightarrow> lexer" where
  "lx_advance lx = lx\<lparr>lx_cursor := lx_cursor lx + 1\<rparr>"

definition lx_take :: "char \<Rightarrow> lexer \<Rightarrow> bool \<times> lexer" where
  "lx_take expected lx = (if lx_peek_is expected lx then (True, lx_advance lx) else (False, lx))"

definition lx_simple :: "token_kind \<Rightarrow> nat \<Rightarrow> lexer \<Rightarrow> lexer" where
  "lx_simple kind start lx =
     lx\<lparr>lx_tokens := lx_tokens lx @ [\<lparr>token_kind = kind, token_span = span_new start (start + 1)\<rparr>]\<rparr>"

definition lx_push :: "token_kind \<Rightarrow> nat \<Rightarrow> lexer \<Rightarrow> lexer" where
  "lx_push kind start lx =
     lx\<lparr>lx_tokens := lx_tokens lx @ [\<lparr>token_kind = kind, token_span = span_new start (lx_cursor lx)\<rparr>]\<rparr>"

definition lx_diag :: "string \<Rightarrow> nat \<Rightarrow> lexer \<Rightarrow> lexer" where
  "lx_diag msg start lx =
     lx\<lparr>lx_diagnostics := lx_diagnostics lx @ [diag msg (span_new start (lx_cursor lx))]\<rparr>"

text \<open>A guarded arm of the match and the unguarded one after it.\<close>

definition lx_either :: "char \<Rightarrow> token_kind \<Rightarrow> token_kind \<Rightarrow> nat \<Rightarrow> lexer \<Rightarrow> lexer" where
  "lx_either expected long short start lx =
     (case lx_take expected lx of
        (True, lx) \<Rightarrow> lx_push long start lx
      | (False, lx) \<Rightarrow> lx_simple short start lx)"

section \<open>Scanning\<close>

text \<open>\<open>while bytes.get(cursor).is_some_and(p) { cursor += 1 }\<close>\<close>

definition scan_while :: "(char \<Rightarrow> bool) \<Rightarrow> lexer \<Rightarrow> lexer" where
  "scan_while p lx =
     lx\<lparr>lx_cursor := lx_cursor lx + length (takeWhile p (drop (lx_cursor lx) (lx_source lx)))\<rparr>"

definition checked_slice :: "string \<Rightarrow> nat \<Rightarrow> nat \<Rightarrow> string option" where
  "checked_slice s i j =
     (if i \<le> j \<and> j \<le> length s \<and> is_char_boundary s i \<and> is_char_boundary s j then Some (slice s i j) else None)"

definition lx_line_comment :: "lexer \<Rightarrow> lexer" where
  "lx_line_comment lx = scan_while (\<lambda>c. c \<noteq> newline) lx"

definition quote :: char where
  "quote = CHR 0x22"

definition msg_unterminated :: string where
  "msg_unterminated = ''unterminated string literal''"

definition lx_string :: "nat \<Rightarrow> lexer \<Rightarrow> lexer option" where
  "lx_string start lx =
     (let value_start = lx_cursor lx;
          lx = scan_while (\<lambda>c. c \<noteq> quote \<and> c \<noteq> newline) lx
      in if lx_cursor lx = length (lx_source lx) then Some (lx_diag msg_unterminated start lx)
         else if lx_source lx ! lx_cursor lx = newline then Some (lx_diag msg_unterminated start lx)
         else case checked_slice (lx_source lx) value_start (lx_cursor lx) of
                None \<Rightarrow> None
              | Some value \<Rightarrow> Some (lx_push (TkString value) start (lx_advance lx)))"

definition parse_i64 :: "string \<Rightarrow> int option" where
  "parse_i64 text = (if digits_value text < 2 ^ 63 then Some (int (digits_value text)) else None)"

definition msg_out_of_range :: string where
  "msg_out_of_range = ''numeric literal is out of range''"

definition lx_number :: "nat \<Rightarrow> lexer \<Rightarrow> lexer option" where
  "lx_number start lx =
     (let lx = scan_while is_ascii_digit lx;
          dot = lx_cursor lx;
          is_float = lx_peek_is CHR ''.'' lx
                     \<and> dot + 1 < length (lx_source lx) \<and> is_ascii_digit (lx_source lx ! (dot + 1))
      in if is_float then
           let lx = scan_while is_ascii_digit (lx_advance lx)
           in case checked_slice (lx_source lx) start (lx_cursor lx) of
                None \<Rightarrow> None
              | Some text \<Rightarrow>
                  Some (lx_push (TkFloat (f32_parse_decimal (take (dot - start) text) (drop (dot - start + 1) text)))
                          start lx)
         else
           case checked_slice (lx_source lx) start (lx_cursor lx) of
             None \<Rightarrow> None
           | Some text \<Rightarrow>
               (case parse_i64 text of
                  Some value \<Rightarrow> Some (lx_push (TkInteger value) start lx)
                | None \<Rightarrow> Some (lx_diag msg_out_of_range start lx)))"

definition is_ident_start :: "char \<Rightarrow> bool" where
  "is_ident_start c \<longleftrightarrow> is_ascii_lower c \<or> is_ascii_upper c \<or> c = CHR ''_''"

definition is_ident_byte :: "char \<Rightarrow> bool" where
  "is_ident_byte c \<longleftrightarrow> is_ascii_alphanumeric c \<or> c = CHR ''_''"

definition keyword_kind :: "string \<Rightarrow> token_kind" where
  "keyword_kind text =
     (if text = ''game'' then TkGame
      else if text = ''import'' then TkImport
      else if text = ''as'' then TkAs
      else if text = ''let'' then TkLet
      else if text = ''const'' then TkConst
      else if text = ''start'' then TkStart
      else if text = ''update'' then TkUpdate
      else if text = ''draw'' then TkDraw
      else if text = ''fn'' then TkFn
      else if text = ''struct'' then TkStruct
      else if text = ''return'' then TkReturn
      else if text = ''if'' then TkIf
      else if text = ''else'' then TkElse
      else if text = ''while'' then TkWhile
      else if text = ''for'' then TkFor
      else if text = ''in'' then TkIn
      else if text = ''true'' then TkTrue
      else if text = ''false'' then TkFalse
      else if text = ''i32'' then TkI32
      else if text = ''f32'' then TkF32
      else if text = ''bool'' then TkBool
      else if text = ''void'' then TkVoid
      else TkIdentifier text)"

definition lx_identifier :: "nat \<Rightarrow> lexer \<Rightarrow> lexer option" where
  "lx_identifier start lx =
     (let lx = scan_while is_ident_byte lx
      in case checked_slice (lx_source lx) start (lx_cursor lx) of
           None \<Rightarrow> None
         | Some text \<Rightarrow> Some (lx_push (keyword_kind text) start lx))"

definition msg_unexpected :: "string \<Rightarrow> string" where
  "msg_unexpected character = ''unexpected character `'' @ character @ ''`''"

definition lx_unexpected :: "nat \<Rightarrow> lexer \<Rightarrow> lexer option" where
  "lx_unexpected start lx =
     (if is_char_boundary (lx_source lx) start then
        case utf8_width (drop start (lx_source lx)) of
          None \<Rightarrow> None
        | Some w \<Rightarrow>
            Some (lx_diag (msg_unexpected (slice (lx_source lx) start (start + w))) start
                    (lx\<lparr>lx_cursor := start + w\<rparr>))
      else None)"

section \<open>The loop\<close>

definition lex_step :: "lexer \<Rightarrow> lexer option" where
  "lex_step lx0 =
     (let start = lx_cursor lx0;
          c = lx_source lx0 ! start;
          lx = lx_advance lx0
      in if c = CHR '' '' \<or> c = CHR 0x09 \<or> c = CHR 0x0D \<or> c = newline then Some lx
         else if c = CHR ''('' then Some (lx_simple TkLeftParen start lx)
         else if c = CHR '')'' then Some (lx_simple TkRightParen start lx)
         else if c = CHR ''{'' then Some (lx_simple TkLeftBrace start lx)
         else if c = CHR ''}'' then Some (lx_simple TkRightBrace start lx)
         else if c = CHR ''['' then Some (lx_simple TkLeftBracket start lx)
         else if c = CHR '']'' then Some (lx_simple TkRightBracket start lx)
         else if c = CHR ''.'' then Some (lx_either CHR ''.'' TkDotDot TkDot start lx)
         else if c = CHR '':'' then Some (lx_either CHR '':'' TkColonColon TkColon start lx)
         else if c = CHR '','' then Some (lx_simple TkComma start lx)
         else if c = CHR '';'' then Some (lx_simple TkSemicolon start lx)
         else if c = CHR ''+'' then Some (lx_either CHR ''='' TkPlusEqual TkPlus start lx)
         else if c = CHR ''*'' then Some (lx_either CHR ''='' TkStarEqual TkStar start lx)
         else if c = CHR ''-'' then
           (case lx_take CHR ''>'' lx of
              (True, lx) \<Rightarrow> Some (lx_push TkArrow start lx)
            | (False, lx) \<Rightarrow> Some (lx_either CHR ''='' TkMinusEqual TkMinus start lx))
         else if c = CHR ''/'' then
           (case lx_take CHR ''/'' lx of
              (True, lx) \<Rightarrow> Some (lx_line_comment lx)
            | (False, lx) \<Rightarrow> Some (lx_either CHR ''='' TkSlashEqual TkSlash start lx))
         else if c = CHR ''%'' then Some (lx_either CHR ''='' TkPercentEqual TkPercent start lx)
         else if c = CHR ''!'' then Some (lx_either CHR ''='' TkBangEqual TkBang start lx)
         else if c = CHR ''='' then Some (lx_either CHR ''='' TkEqualEqual TkEqual start lx)
         else if c = CHR ''<'' then Some (lx_either CHR ''='' TkLessEqual TkLess start lx)
         else if c = CHR ''>'' then Some (lx_either CHR ''='' TkGreaterEqual TkGreater start lx)
         else if c = CHR ''&'' \<and> lx_peek_is CHR ''&'' lx then Some (lx_push TkAndAnd start (lx_advance lx))
         else if c = CHR ''|'' \<and> lx_peek_is CHR ''|'' lx then Some (lx_push TkOrOr start (lx_advance lx))
         else if c = quote then lx_string start lx
         else if is_ascii_digit c then lx_number start lx
         else if is_ident_start c then lx_identifier start lx
         else lx_unexpected start lx)"

lemmas lx_defs =
  lx_advance_def lx_take_def lx_simple_def lx_push_def lx_diag_def lx_either_def
  scan_while_def lx_line_comment_def

lemma lx_either_progress:
  "lx_source (lx_either c k k' start lx) = lx_source lx"
  "lx_cursor lx \<le> lx_cursor (lx_either c k k' start lx)"
  by (simp_all add: lx_defs)

lemma lx_scan_progress:
  "lx_string start lx = Some lx' \<Longrightarrow> lx_source lx' = lx_source lx \<and> lx_cursor lx \<le> lx_cursor lx'"
  "lx_number start lx = Some lx' \<Longrightarrow> lx_source lx' = lx_source lx \<and> lx_cursor lx \<le> lx_cursor lx'"
  "lx_identifier start lx = Some lx' \<Longrightarrow> lx_source lx' = lx_source lx \<and> lx_cursor lx \<le> lx_cursor lx'"
  "lx_unexpected start lx = Some lx' \<Longrightarrow> lx_source lx' = lx_source lx \<and> start < lx_cursor lx'"
  by (auto simp: lx_string_def lx_number_def lx_identifier_def lx_unexpected_def lx_defs Let_def
      split: if_splits option.splits dest: utf8_width_pos)

lemma lex_step_progress:
  assumes "lex_step lx = Some lx'"
  shows "lx_source lx' = lx_source lx \<and> lx_cursor lx < lx_cursor lx'"
proof -
  have adv: "lx_source (lx_advance lx) = lx_source lx" "lx_cursor (lx_advance lx) = Suc (lx_cursor lx)"
    by (simp_all add: lx_advance_def)
  note either = lx_either_progress [where start = "lx_cursor lx" and lx = "lx_advance lx"]
  show ?thesis
    using assms adv either(1) either(2) lx_scan_progress [of "lx_cursor lx" "lx_advance lx" lx']
    unfolding lex_step_def Let_def
    by (auto simp: lx_simple_def lx_push_def lx_line_comment_def scan_while_def lx_take_def Suc_le_eq lx_advance_def
        split: if_splits)
qed

function lex_run :: "lexer \<Rightarrow> lexer option" where
  "lex_run lx =
     (if lx_cursor lx < length (lx_source lx)
      then (case lex_step lx of None \<Rightarrow> None | Some lx' \<Rightarrow> lex_run lx')
      else Some lx)"
  by pat_completeness auto
termination
  by (relation "measure (\<lambda>lx. length (lx_source lx) - lx_cursor lx)") (auto dest!: lex_step_progress)

declare lex_run.simps [simp del]

definition lex_finish :: "lexer \<Rightarrow> (diagnostic list, token list) result" where
  "lex_finish lx =
     (let tokens = lx_tokens lx @ [\<lparr>token_kind = TkEof, token_span = span_new (lx_cursor lx) (lx_cursor lx)\<rparr>]
      in if lx_diagnostics lx = [] then Ok tokens else Err (lx_diagnostics lx))"

definition lex :: "string \<Rightarrow> (diagnostic list, token list) result option" where
  "lex source = map_option lex_finish (lex_run (lexer_new source))"

definition set_source :: "nat \<Rightarrow> span \<Rightarrow> span" where
  "set_source sid sp = sp\<lparr>span_source := sid\<rparr>"

definition lex_in :: "string \<Rightarrow> nat \<Rightarrow> (diagnostic list, token list) result option" where
  "lex_in source sid =
     map_option
       (\<lambda>r. case r of
          Inr tokens \<Rightarrow> Ok (map (\<lambda>t. t\<lparr>token_span := set_source sid (token_span t)\<rparr>) tokens)
        | Inl ds \<Rightarrow> Err (map (\<lambda>d. d\<lparr>diag_span := set_source sid (diag_span d)\<rparr>) ds))
       (lex source)"

end
