(* ===== verification/Parser_State.thy ===== *)
theory Parser_State
  imports Lexer
begin

text \<open>
  The state of the parser and its elementary operations, \<^verbatim>\<open>src/src/parser.rs\<close>, and
  the nesting limit, \<^verbatim>\<open>src/src/parser/limits.rs\<close>. A parse maps the state to a
  failure or to a value and the next state; a failure is the diagnostic of the code, a panic (a cursor
  past the tokens, spans of different sources), or, for the loops of the model, fuel that ran out, which
  never happens. The field \<open>nesting\<close> of the code only changes in \<open>nested\<close>, which
  restores it: the operations that read it take the number of levels that are left,
  \<open>MAX_NESTING - nesting\<close>, as the argument \<open>room\<close>, and recursion descends on it.
\<close>

section \<open>Parses\<close>

datatype parse_failure =
    PfError diagnostic
  | PfPanic
  | PfFuel

record parser =
  p_tokens :: "token list"
  p_cursor :: nat
  p_struct_names :: "string list"
  p_value_scopes :: "string list list"

type_synonym 'a parse = "parser \<Rightarrow> (parse_failure, 'a \<times> parser) result"

definition preturn :: "'a \<Rightarrow> 'a parse" where
  "preturn a p = Ok (a, p)"

definition pfail :: "diagnostic \<Rightarrow> 'a parse" where
  "pfail d p = Err (PfError d)"

definition ppanic :: "'a parse" where
  "ppanic p = Err PfPanic"

definition pbind :: "'a parse \<Rightarrow> ('a \<Rightarrow> 'b parse) \<Rightarrow> 'b parse" where
  "pbind f g p = rbind (f p) (\<lambda>(a, p'). g a p')"

definition pif :: "bool parse \<Rightarrow> 'a parse \<Rightarrow> 'a parse \<Rightarrow> 'a parse" where
  "pif c f g = pbind c (\<lambda>b. if b then f else g)"

text \<open>A loop: the body goes on with a new value or ends with a result. The fuel is the number of
  tokens left, and each turn that goes on consumes one.\<close>

fun loop_fuel :: "nat \<Rightarrow> ('a \<Rightarrow> ('a + 'b) parse) \<Rightarrow> 'a \<Rightarrow> 'b parse" where
  "loop_fuel 0 body a p = Err PfFuel"
| "loop_fuel (Suc n) body a p =
     (case body a p of
        Inl failure \<Rightarrow> Err failure
      | Inr (Inl a', p') \<Rightarrow> loop_fuel n body a' p'
      | Inr (Inr b, p') \<Rightarrow> Ok (b, p'))"

definition ploop :: "('a \<Rightarrow> ('a + 'b) parse) \<Rightarrow> 'a \<Rightarrow> 'b parse" where
  "ploop body a p = loop_fuel (Suc (length (p_tokens p) - p_cursor p)) body a p"

section \<open>Tokens\<close>

definition pcurrent :: "token parse" where
  "pcurrent p = (if p_cursor p < length (p_tokens p) then Ok (p_tokens p ! p_cursor p, p) else Err PfPanic)"

definition padvance :: "token parse" where
  "padvance = pbind pcurrent (\<lambda>token p.
     Ok (token, if token_kind token = TkEof then p else p\<lparr>p_cursor := p_cursor p + 1\<rparr>))"

text \<open>The code compares discriminants; the kinds it asks for carry no value.\<close>

definition pat :: "token_kind \<Rightarrow> bool parse" where
  "pat kind = pbind pcurrent (\<lambda>token. preturn (token_kind token = kind))"

definition ptake :: "token_kind \<Rightarrow> bool parse" where
  "ptake kind = pif (pat kind) (pbind padvance (\<lambda>_. preturn True)) (preturn False)"

definition error_here :: "string \<Rightarrow> 'a parse" where
  "error_here msg = pbind pcurrent (\<lambda>token. pfail (diag msg (token_span token)))"

definition pexpect :: "token_kind \<Rightarrow> string \<Rightarrow> token parse" where
  "pexpect kind msg = pif (pat kind) padvance (error_here msg)"

definition pidentifier :: "string \<Rightarrow> (string \<times> span) parse" where
  "pidentifier msg = pbind padvance (\<lambda>token.
     case token_kind token of
       TkIdentifier name \<Rightarrow> preturn (name, token_span token)
     | _ \<Rightarrow> pfail (diag msg (token_span token)))"

definition optional_semicolon :: "span option parse" where
  "optional_semicolon = pif (pat TkSemicolon) (pbind padvance (\<lambda>token. preturn (Some (token_span token)))) (preturn None)"

definition pmerge :: "span \<Rightarrow> span \<Rightarrow> span parse" where
  "pmerge a b = (case span_merge a b of Some s \<Rightarrow> preturn s | None \<Rightarrow> ppanic)"

definition qualified_name :: "string \<Rightarrow> span \<Rightarrow> (string \<times> span) parse" where
  "qualified_name name start =
     pif (ptake TkColonColon)
       (pbind (pidentifier ''expected a declaration name after `::`'') (\<lambda>(member, end_span).
          pif (pat TkColonColon)
            (error_here ''qualified names use one import alias and one declaration; imports are not reexported'')
            (pbind (pmerge start end_span) (\<lambda>span. preturn (name @ ''::'' @ member, span)))))
       (preturn (name, start))"

section \<open>The nesting limit\<close>

definition MAX_NESTING :: nat where
  "MAX_NESTING = 80"

definition nesting_exceeded :: "span \<Rightarrow> diagnostic" where
  "nesting_exceeded s = diag (''source nesting exceeds limit of '' @ show_nat MAX_NESTING) s"

text \<open>\<open>nested\<close> with room left goes on with less room; without, it fails.\<close>

definition nesting_error :: "'a parse" where
  "nesting_error = pbind pcurrent (\<lambda>token. pfail (nesting_exceeded (token_span token)))"

definition expr_children :: "expr \<Rightarrow> expr list" where
  "expr_children e =
     (case expr_kind e of
        ExUnary op operand \<Rightarrow> [operand]
      | ExField base name s \<Rightarrow> [base]
      | ExBinary left op right \<Rightarrow> [left, right]
      | ExIndex base index \<Rightarrow> [base, index]
      | ExArrayLiteral elements \<Rightarrow> elements
      | ExCall name args \<Rightarrow> args
      | ExConversion target args \<Rightarrow> args
      | ExStructLiteral name inits \<Rightarrow> map fi_value inits
      | ExI32 v \<Rightarrow> []
      | ExF32 v \<Rightarrow> []
      | ExBool b \<Rightarrow> []
      | ExVariable name \<Rightarrow> [])"

lemma expr_children_total: "sum_list (map (\<lambda>e. Suc (size e)) (expr_children e)) \<le> size e"
proof -
  have list: "sum_list (map (\<lambda>e. Suc (size e)) es) \<le> size_list size es" for es :: "expr list"
    by (induction es) auto
  have inits: "sum_list (map (\<lambda>e. Suc (size e)) (map fi_value fs)) \<le> size_list size fs"
    for fs :: "field_initializer list"
  proof (induction fs)
    case (Cons f fs)
    then show ?case by (cases f) simp
  qed simp
  show ?thesis
    using list inits by (cases e; cases "expr_kind e") (simp_all add: expr_children_def le_SucI)
qed

text \<open>The worklist of \<open>check_expression\<close>; the expression looked at next is the head.\<close>

function check_pending :: "(expr \<times> nat) list \<Rightarrow> (diagnostic, unit) result" where
  "check_pending [] = Ok ()"
| "check_pending ((e, depth) # pending) =
     (if MAX_NESTING < depth then Err (nesting_exceeded (expr_span e))
      else check_pending (rev (map (\<lambda>c. (c, depth + 1)) (expr_children e)) @ pending))"
  by pat_completeness auto
termination
proof (relation "measure (\<lambda>pending. sum_list (map (\<lambda>(e, d). Suc (size e)) pending))", goal_cases)
  case (2 e depth pending)
  have "sum_list (map (\<lambda>(e, d). Suc (size e)) (map (\<lambda>c. (c, depth + 1)) (expr_children e)))
      = sum_list (map (\<lambda>e. Suc (size e)) (expr_children e))"
    by (simp add: comp_def)
  then show ?case using expr_children_total [of e] by (simp add: rev_map [symmetric])
qed simp

definition check_expression :: "expr \<Rightarrow> nat \<Rightarrow> (diagnostic, unit) result" where
  "check_expression e nesting = check_pending [(e, nesting)]"

definition pchecked :: "nat \<Rightarrow> expr \<Rightarrow> expr parse" where
  "pchecked room e =
     (case check_expression e (MAX_NESTING - room) of Inl d \<Rightarrow> pfail d | Inr _ \<Rightarrow> preturn e)"

text \<open>The depth of a tree; a leaf has depth 0.\<close>

function expr_depth :: "expr \<Rightarrow> nat" where
  "expr_depth e = (if expr_children e = [] then 0 else Suc (Max (set (map expr_depth (expr_children e)))))"
  by pat_completeness auto
termination
proof (relation "measure size", simp)
  fix e c
  assume "c \<in> set (expr_children e)"
  then have "Suc (size c) \<le> sum_list (map (\<lambda>e. Suc (size e)) (expr_children e))"
    by (intro member_le_sum_list) auto
  then show "(c, e) \<in> measure size" using expr_children_total [of e] by simp
qed

declare expr_depth.simps [simp del]

lemma expr_depth_le: "expr_depth e \<le> n \<longleftrightarrow> (\<forall>c \<in> set (expr_children e). expr_depth c < n)"
  by (auto simp: expr_depth.simps [of e] Suc_le_eq less_Suc_eq_le)

lemma check_pending_iff:
  "(check_pending pending = Ok ()) \<longleftrightarrow> (\<forall>(e, d) \<in> set pending. d + expr_depth e \<le> MAX_NESTING)"
proof (induction pending rule: check_pending.induct)
  case (2 e depth pending)
  show ?case
  proof (cases "MAX_NESTING < depth")
    case False
    have "(\<forall>c \<in> set (expr_children e). depth + 1 + expr_depth c \<le> MAX_NESTING) \<longleftrightarrow> depth + expr_depth e \<le> MAX_NESTING"
      using expr_depth_le [of e "MAX_NESTING - depth"] False by auto
    then show ?thesis using "2.IH" [OF False] False by (auto simp: ball_Un)
  qed auto
qed simp

lemma check_expression_iff: "check_expression e nesting = Ok () \<longleftrightarrow> nesting + expr_depth e \<le> MAX_NESTING"
  unfolding check_expression_def check_pending_iff by simp

end
