(* ===== verification/Parser_Expr.thy ===== *)
theory Parser_Expr
  imports Parser_State
begin

text \<open>
  Parsing of types and expressions, \<^verbatim>\<open>src/src/parser/expression.rs\<close> and
  \<open>parse_value_type\<close> of \<^verbatim>\<open>src/src/parser.rs\<close>. Every method is a
  definition; a method that the recursion goes through takes the parser of the nested construct as an
  argument, and \<open>expression\<close>, \<open>unary\<close> and \<open>parse_value_type\<close> close the
  recursion, which descends on the nesting levels that are left.
\<close>

section \<open>Types\<close>

definition array_length_literal :: "int \<Rightarrow> span \<Rightarrow> array_length parse" where
  "array_length_literal v s = preturn (AlLiteral v s)"

definition parse_array_length :: "array_length parse" where
  "parse_array_length =
     pif (ptake TkMinus)
       (pbind padvance (\<lambda>token.
          case token_kind token of
            TkInteger v \<Rightarrow> array_length_literal (- v) (token_span token)
          | _ \<Rightarrow> pfail (diag ''expected an integer literal after `-` in array length'' (token_span token))))
       (pbind padvance (\<lambda>token.
          case token_kind token of
            TkInteger v \<Rightarrow> array_length_literal v (token_span token)
          | TkIdentifier name \<Rightarrow>
              pbind (qualified_name name (token_span token)) (\<lambda>(name, span). preturn (AlConstant name span))
          | _ \<Rightarrow> pfail (diag ''array length must be a positive integer literal or an `i32` constant''
                 (token_span token))))"

definition array_type :: "value_type parse \<Rightarrow> value_type parse" where
  "array_type parse_element =
     pbind parse_element (\<lambda>element.
     pbind (pexpect TkSemicolon ''expected `;` between the array element type and length'') (\<lambda>_.
     pbind parse_array_length (\<lambda>len.
     pbind (pexpect TkRightBracket ''expected `]` after array type'') (\<lambda>_.
       preturn (VtArray element len)))))"

definition value_type_with :: "value_type parse \<Rightarrow> value_type parse" where
  "value_type_with parse_element =
     pbind padvance (\<lambda>token.
       case token_kind token of
         TkI32 \<Rightarrow> preturn VtI32
       | TkF32 \<Rightarrow> preturn VtF32
       | TkBool \<Rightarrow> preturn VtBool
       | TkIdentifier name \<Rightarrow>
           pbind (qualified_name name (token_span token)) (\<lambda>(name, span). preturn (VtStruct name))
       | TkLeftBracket \<Rightarrow> array_type parse_element
       | TkVoid \<Rightarrow> pfail (diag ''`void` is only valid as a function return type'' (token_span token))
       | _ \<Rightarrow> pfail (diag ''expected a scalar, struct, or fixed array type'' (token_span token)))"

fun parse_value_type :: "nat \<Rightarrow> value_type parse" where
  "parse_value_type 0 p = nesting_error p"
| "parse_value_type (Suc room) p = value_type_with (parse_value_type room) p"

declare parse_value_type.simps [simp del]

lemma parse_value_type_eqs:
  "parse_value_type 0 = nesting_error"
  "parse_value_type (Suc room) = value_type_with (parse_value_type room)"
  by (auto simp: parse_value_type.simps fun_eq_iff)

definition parse_return_type :: "nat \<Rightarrow> return_type parse" where
  "parse_return_type room =
     pif (ptake TkVoid) (preturn RtVoid) (pbind (parse_value_type room) (\<lambda>ty. preturn (RtValue ty)))"

section \<open>Binary operators\<close>

definition pbinary :: "nat \<Rightarrow> expr \<Rightarrow> binary_op \<Rightarrow> expr \<Rightarrow> expr parse" where
  "pbinary room left op right =
     pbind (pmerge (expr_span left) (expr_span right)) (\<lambda>span. pchecked room (Expr (ExBinary left op right) span))"

text \<open>The first of the operators that is taken.\<close>

fun take_operator :: "(token_kind \<times> 'o) list \<Rightarrow> 'o option parse" where
  "take_operator [] = preturn None"
| "take_operator ((kind, op) # ops) = pif (ptake kind) (preturn (Some op)) (take_operator ops)"

text \<open>The shape of the six methods: operands of the next level, joined from the left.\<close>

definition operator_chain :: "nat \<Rightarrow> (token_kind \<times> binary_op) list \<Rightarrow> expr parse \<Rightarrow> expr parse" where
  "operator_chain room ops operand =
     pbind operand (ploop (\<lambda>left.
       pbind (take_operator ops) (\<lambda>op.
         case op of
           None \<Rightarrow> preturn (Inr left)
         | Some op \<Rightarrow>
             pbind operand (\<lambda>right. pbind (pbinary room left op right) (\<lambda>e. preturn (Inl e))))))"

definition factor :: "nat \<Rightarrow> expr parse \<Rightarrow> expr parse" where
  "factor room unary =
     operator_chain room [(TkStar, BoMultiply), (TkSlash, BoDivide), (TkPercent, BoRemainder)] unary"

definition pterm :: "nat \<Rightarrow> expr parse \<Rightarrow> expr parse" where
  "pterm room unary = operator_chain room [(TkPlus, BoAdd), (TkMinus, BoSubtract)] (factor room unary)"

definition comparison :: "nat \<Rightarrow> expr parse \<Rightarrow> expr parse" where
  "comparison room unary =
     operator_chain room
       [(TkLess, BoLess), (TkLessEqual, BoLessEqual), (TkGreater, BoGreater), (TkGreaterEqual, BoGreaterEqual)]
       (pterm room unary)"

definition equality :: "nat \<Rightarrow> expr parse \<Rightarrow> expr parse" where
  "equality room unary =
     operator_chain room [(TkEqualEqual, BoEqual), (TkBangEqual, BoNotEqual)] (comparison room unary)"

definition logical_and :: "nat \<Rightarrow> expr parse \<Rightarrow> expr parse" where
  "logical_and room unary = operator_chain room [(TkAndAnd, BoLogicalAnd)] (equality room unary)"

definition logical_or :: "nat \<Rightarrow> expr parse \<Rightarrow> expr parse" where
  "logical_or room unary = operator_chain room [(TkOrOr, BoLogicalOr)] (logical_and room unary)"

section \<open>Primary expressions\<close>

text \<open>A list of expressions up to a closing token, for arguments and array literals; a trailing comma is
  allowed in the latter.\<close>

definition expression_list :: "expr parse \<Rightarrow> token_kind \<Rightarrow> bool \<Rightarrow> expr list parse" where
  "expression_list expression closing trailing =
     pif (pat closing) (preturn [])
       (ploop (\<lambda>elements.
          pbind expression (\<lambda>e.
          pbind (ptake TkComma) (\<lambda>comma.
            if \<not> comma then preturn (Inr (elements @ [e]))
            else if trailing then
              pif (pat closing) (preturn (Inr (elements @ [e]))) (preturn (Inl (elements @ [e])))
            else preturn (Inl (elements @ [e]))))) [])"

definition array_literal :: "nat \<Rightarrow> expr parse \<Rightarrow> span \<Rightarrow> expr parse" where
  "array_literal room expression start =
     pbind (expression_list expression TkRightBracket True) (\<lambda>elements.
     pbind (pexpect TkRightBracket ''expected `]` after array literal'') (\<lambda>closing.
     pbind (pmerge start (token_span closing)) (\<lambda>span.
       pchecked room (Expr (ExArrayLiteral elements) span))))"

definition arguments :: "expr parse \<Rightarrow> (expr list \<times> span) parse" where
  "arguments expression =
     pbind (expression_list expression TkRightParen False) (\<lambda>args.
     pbind (pexpect TkRightParen ''expected `)` after arguments'') (\<lambda>closing.
       preturn (args, token_span closing)))"

definition conversion :: "nat \<Rightarrow> expr parse \<Rightarrow> token \<Rightarrow> expr parse" where
  "conversion room expression token =
     (let target = (if token_kind token = TkI32 then VtI32 else VtF32)
      in pbind (pexpect TkLeftParen ''expected `(` after numeric conversion type'') (\<lambda>_.
         pbind (arguments expression) (\<lambda>(args, end_span).
         pbind (pmerge (token_span token) end_span) (\<lambda>span.
           pchecked room (Expr (ExConversion target args) span)))))"

definition is_value_binding :: "string \<Rightarrow> parser \<Rightarrow> bool" where
  "is_value_binding name p \<longleftrightarrow> list_ex (\<lambda>scope. name \<in> set scope) (p_value_scopes p)"

definition token_kind_at :: "parser \<Rightarrow> nat \<Rightarrow> token_kind option" where
  "token_kind_at p i = (if i < length (p_tokens p) then Some (token_kind (p_tokens p ! i)) else None)"

definition identifier_and_colon :: "parser \<Rightarrow> bool" where
  "identifier_and_colon p \<longleftrightarrow>
     (case token_kind_at p (p_cursor p + 1) of
        Some (TkIdentifier _) \<Rightarrow> token_kind_at p (p_cursor p + 2) = Some TkColon
      | _ \<Rightarrow> False)"

definition looks_like_struct_literal :: "string \<Rightarrow> bool parse" where
  "looks_like_struct_literal name =
     pbind (pat TkLeftBrace) (\<lambda>brace p.
       if \<not> brace \<or> is_value_binding name p then Ok (False, p)
       else Ok (name \<in> set (p_struct_names p) \<or> identifier_and_colon p, p))"

definition field_initializers :: "expr parse \<Rightarrow> field_initializer list parse" where
  "field_initializers expression =
     ploop (\<lambda>inits.
       pif (pat TkRightBrace) (preturn (Inr inits))
       (pif (pat TkEof) (preturn (Inr inits))
         (pbind (pidentifier ''expected a field initializer name'') (\<lambda>(name, start).
          pbind (pexpect TkColon ''expected `:` after field initializer name'') (\<lambda>_.
          pbind expression (\<lambda>v.
          pbind (pmerge start (expr_span v)) (\<lambda>span.
          pbind (ptake TkComma) (\<lambda>_.
            preturn (Inl (inits @ [FieldInitializer name v span])))))))))) []"

definition struct_literal :: "nat \<Rightarrow> expr parse \<Rightarrow> string \<Rightarrow> span \<Rightarrow> expr parse" where
  "struct_literal room expression name start =
     pbind (pexpect TkLeftBrace ''expected `{` after struct type name'') (\<lambda>_.
     pbind (field_initializers expression) (\<lambda>inits.
     pbind (pexpect TkRightBrace ''expected `}` after struct literal'') (\<lambda>closing.
     pbind (pmerge start (token_span closing)) (\<lambda>span.
       pchecked room (Expr (ExStructLiteral name inits) span)))))"

definition named_expression :: "nat \<Rightarrow> expr parse \<Rightarrow> string \<Rightarrow> span \<Rightarrow> expr parse" where
  "named_expression room expression name start =
     pbind (qualified_name name start) (\<lambda>(name, name_span).
       pif (looks_like_struct_literal name) (struct_literal room expression name name_span)
       (pif (ptake TkLeftParen)
         (pbind (arguments expression) (\<lambda>(args, end_span).
          pbind (pmerge start end_span) (\<lambda>span. pchecked room (Expr (ExCall name args) span))))
         (pchecked room (Expr (ExVariable name) name_span))))"

definition parenthesized :: "expr parse \<Rightarrow> span \<Rightarrow> expr parse" where
  "parenthesized expression start =
     pbind expression (\<lambda>e.
     pbind (pexpect TkRightParen ''expected `)` after expression'') (\<lambda>closing.
     pbind (pmerge start (token_span closing)) (\<lambda>span. preturn (Expr (expr_kind e) span))))"

definition primary :: "nat \<Rightarrow> expr parse \<Rightarrow> expr parse" where
  "primary room expression =
     pbind padvance (\<lambda>token.
       case token_kind token of
         TkInteger v \<Rightarrow> pchecked room (Expr (ExI32 v) (token_span token))
       | TkFloat v \<Rightarrow> pchecked room (Expr (ExF32 v) (token_span token))
       | TkTrue \<Rightarrow> pchecked room (Expr (ExBool True) (token_span token))
       | TkFalse \<Rightarrow> pchecked room (Expr (ExBool False) (token_span token))
       | TkLeftBracket \<Rightarrow> array_literal room expression (token_span token)
       | TkIdentifier name \<Rightarrow> named_expression room expression name (token_span token)
       | TkI32 \<Rightarrow> conversion room expression token
       | TkF32 \<Rightarrow> conversion room expression token
       | TkLeftParen \<Rightarrow> parenthesized expression (token_span token)
       | _ \<Rightarrow> pfail (diag ''expected an expression'' (token_span token)))"

section \<open>Postfix and unary expressions\<close>

definition index_suffix :: "nat \<Rightarrow> expr parse \<Rightarrow> expr \<Rightarrow> expr parse" where
  "index_suffix room expression base =
     pbind expression (\<lambda>index.
     pbind (pexpect TkRightBracket ''expected `]` after array index'') (\<lambda>closing.
     pbind (pmerge (expr_span base) (token_span closing)) (\<lambda>span.
       pchecked room (Expr (ExIndex base index) span))))"

definition field_suffix :: "nat \<Rightarrow> expr \<Rightarrow> expr parse" where
  "field_suffix room base =
     pbind (pidentifier ''expected a field name after `.`'') (\<lambda>(name, name_span).
     pbind (pmerge (expr_span base) name_span) (\<lambda>span.
       pchecked room (Expr (ExField base name name_span) span)))"

definition postfix :: "nat \<Rightarrow> expr parse \<Rightarrow> expr parse" where
  "postfix room expression =
     pbind (primary room expression) (ploop (\<lambda>base.
       pif (ptake TkLeftBracket) (pbind (index_suffix room expression base) (\<lambda>e. preturn (Inl e)))
       (pif (ptake TkDot) (pbind (field_suffix room base) (\<lambda>e. preturn (Inl e)))
         (preturn (Inr base)))))"

definition unary_with :: "nat \<Rightarrow> expr parse \<Rightarrow> expr parse \<Rightarrow> expr parse" where
  "unary_with room operand expression =
     pbind pcurrent (\<lambda>token.
     pbind (take_operator [(TkMinus, UoNegate), (TkBang, UoNot)]) (\<lambda>op.
       case op of
         Some op \<Rightarrow>
           pbind operand (\<lambda>e.
           pbind (pmerge (token_span token) (expr_span e)) (\<lambda>span. pchecked room (Expr (ExUnary op e) span)))
       | None \<Rightarrow> postfix room expression))"

text \<open>\<open>nested(Self::logical_or)\<close>, and \<open>unary\<close> with \<open>nested(Self::unary)\<close>
  inside.\<close>

fun pexpression :: "nat \<Rightarrow> expr parse"
and punary :: "nat \<Rightarrow> expr parse" where
  "pexpression 0 p = nesting_error p"
| "pexpression (Suc room) p = logical_or room (punary room) p"
| "punary 0 p = unary_with 0 nesting_error nesting_error p"
| "punary (Suc room) p = unary_with (Suc room) (punary room) (pexpression (Suc room)) p"

declare pexpression.simps [simp del] punary.simps [simp del]

lemma pexpression_eqs:
  "pexpression 0 = nesting_error"
  "pexpression (Suc room) = logical_or room (punary room)"
  "punary 0 = unary_with 0 nesting_error (pexpression 0)"
  "punary (Suc room) = unary_with (Suc room) (punary room) (pexpression (Suc room))"
proof -
  show "pexpression 0 = nesting_error" by (rule ext) (simp add: pexpression.simps)
  then show "punary 0 = unary_with 0 nesting_error (pexpression 0)"
    by (intro ext) (simp add: punary.simps)
  show "pexpression (Suc room) = logical_or room (punary room)"
    by (rule ext) (simp add: pexpression.simps)
  show "punary (Suc room) = unary_with (Suc room) (punary room) (pexpression (Suc room))"
    by (rule ext) (simp add: punary.simps)
qed

end
