(* ===== verification/Parser_Program.thy ===== *)
theory Parser_Program
  imports Parser_Expr
begin

text \<open>
  Parsing of statements, declarations and whole files, \<^verbatim>\<open>src/src/parser.rs\<close>.
\<close>

section \<open>Scopes of value bindings\<close>

text \<open>The innermost scope is the head.\<close>

definition push_scope :: "string list \<Rightarrow> unit parse" where
  "push_scope names p = Ok ((), p\<lparr>p_value_scopes := names # p_value_scopes p\<rparr>)"

definition pop_scope :: "unit parse" where
  "pop_scope p = Ok ((), p\<lparr>p_value_scopes := tl (p_value_scopes p)\<rparr>)"

definition bind_value :: "string \<Rightarrow> unit parse" where
  "bind_value name p =
     (case p_value_scopes p of
        [] \<Rightarrow> Err PfPanic
      | scope # scopes \<Rightarrow> Ok ((), p\<lparr>p_value_scopes := (name # scope) # scopes\<rparr>))"

section \<open>Statements\<close>

definition let_statement :: "nat \<Rightarrow> stmt parse" where
  "let_statement room =
     pbind (pexpect TkLet ''expected `let`'') (\<lambda>start.
     pbind (pidentifier ''expected a local variable name'') (\<lambda>(name, _).
     pbind (pexpect TkColon ''expected `:` after variable name'') (\<lambda>_.
     pbind (parse_value_type room) (\<lambda>ty.
     pbind (pexpect TkEqual ''expected `=` before initializer'') (\<lambda>_.
     pbind (pexpression room) (\<lambda>init.
     pbind optional_semicolon (\<lambda>semicolon.
     pbind (bind_value name) (\<lambda>_.
     pbind (pmerge (token_span start) (case semicolon of Some s \<Rightarrow> s | None \<Rightarrow> expr_span init)) (\<lambda>span.
       preturn (Stmt (StLet name ty init) span))))))))))"

definition assign_op_of :: "token_kind \<Rightarrow> assign_op option" where
  "assign_op_of kind =
     (case kind of
        TkEqual \<Rightarrow> Some AoSet
      | TkPlusEqual \<Rightarrow> Some AoAdd
      | TkMinusEqual \<Rightarrow> Some AoSubtract
      | TkStarEqual \<Rightarrow> Some AoMultiply
      | TkSlashEqual \<Rightarrow> Some AoDivide
      | TkPercentEqual \<Rightarrow> Some AoRemainder
      | _ \<Rightarrow> None)"

definition at_assignment_operator :: "bool parse" where
  "at_assignment_operator = pbind pcurrent (\<lambda>token. preturn (assign_op_of (token_kind token) \<noteq> None))"

definition assignment_statement :: "nat \<Rightarrow> expr \<Rightarrow> stmt parse" where
  "assignment_statement room target =
     pbind padvance (\<lambda>token.
       case assign_op_of (token_kind token) of
         None \<Rightarrow> pfail (diag ''expected an assignment operator'' (token_span token))
       | Some op \<Rightarrow>
           pbind (pexpression room) (\<lambda>v.
           pbind optional_semicolon (\<lambda>semicolon.
           pbind (pmerge (expr_span target) (case semicolon of Some s \<Rightarrow> s | None \<Rightarrow> expr_span v)) (\<lambda>span.
             preturn (Stmt (StAssign target op v) span)))))"

definition if_statement :: "nat \<Rightarrow> (block \<times> span) parse \<Rightarrow> stmt parse" where
  "if_statement room block =
     pbind (pexpect TkIf ''expected `if`'') (\<lambda>start.
     pbind (pexpression room) (\<lambda>condition.
     pbind block (\<lambda>(then_block, then_end).
     pbind (pif (ptake TkElse)
              (pbind block (\<lambda>(else_block, block_end). preturn (Some else_block, block_end)))
              (preturn (None, then_end))) (\<lambda>(else_block, end_span).
     pbind (pmerge (token_span start) end_span) (\<lambda>span.
       preturn (Stmt (StIf condition then_block else_block) span))))))"

definition while_statement :: "nat \<Rightarrow> (block \<times> span) parse \<Rightarrow> stmt parse" where
  "while_statement room block =
     pbind (pexpect TkWhile ''expected `while`'') (\<lambda>start.
     pbind (pexpression room) (\<lambda>condition.
     pbind block (\<lambda>(body, end_span).
     pbind (pmerge (token_span start) end_span) (\<lambda>span.
       preturn (Stmt (StWhile condition body) span)))))"

definition block_with_bindings :: "(block \<times> span) parse \<Rightarrow> string list \<Rightarrow> (block \<times> span) parse" where
  "block_with_bindings block names =
     pbind (push_scope names) (\<lambda>_. pbind block (\<lambda>r. pbind pop_scope (\<lambda>_. preturn r)))"

definition for_statement :: "nat \<Rightarrow> (block \<times> span) parse \<Rightarrow> stmt parse" where
  "for_statement room block =
     pbind (pexpect TkFor ''expected `for`'') (\<lambda>start.
     pbind (pidentifier ''expected a loop variable after `for`'') (\<lambda>(name, name_span).
     pbind (pexpect TkIn ''expected `in` after loop variable'') (\<lambda>_.
     pbind (pexpression room) (\<lambda>lower.
     pbind (pexpect TkDotDot ''expected `..` between range bounds'') (\<lambda>_.
     pbind (pexpression room) (\<lambda>upper.
     pbind (block_with_bindings block [name]) (\<lambda>(body, end_span).
     pbind (pmerge (token_span start) end_span) (\<lambda>span.
       preturn (Stmt (StFor name name_span lower upper body) span)))))))))"

definition return_statement :: "nat \<Rightarrow> stmt parse" where
  "return_statement room =
     pbind (pexpect TkReturn ''expected `return`'') (\<lambda>start.
     pbind (pif (pat TkRightBrace) (preturn None)
             (pif (pat TkSemicolon) (preturn None)
               (pbind (pexpression room) (\<lambda>e. preturn (Some e))))) (\<lambda>v.
     pbind optional_semicolon (\<lambda>semicolon.
     pbind (pmerge (token_span start)
              (case semicolon of Some s \<Rightarrow> s
               | None \<Rightarrow> (case v of Some e \<Rightarrow> expr_span e | None \<Rightarrow> token_span start))) (\<lambda>span.
       preturn (Stmt (StReturn v) span)))))"

definition expression_statement :: "nat \<Rightarrow> stmt parse" where
  "expression_statement room =
     pbind (pexpression room) (\<lambda>e.
       pif at_assignment_operator (assignment_statement room e)
         (pbind optional_semicolon (\<lambda>semicolon.
          pbind (pmerge (expr_span e) (case semicolon of Some s \<Rightarrow> s | None \<Rightarrow> expr_span e)) (\<lambda>span.
            preturn (Stmt (StExpr e) span)))))"

definition statement :: "nat \<Rightarrow> (block \<times> span) parse \<Rightarrow> stmt parse" where
  "statement room block =
     pif (pat TkLet) (let_statement room)
     (pif (pat TkIf) (if_statement room block)
     (pif (pat TkWhile) (while_statement room block)
     (pif (pat TkFor) (for_statement room block)
     (pif (pat TkReturn) (return_statement room)
       (expression_statement room)))))"

definition statements :: "stmt parse \<Rightarrow> block parse" where
  "statements stmt =
     ploop (\<lambda>stmts.
       pif (pat TkRightBrace) (preturn (Inr stmts))
       (pif (pat TkEof) (preturn (Inr stmts))
         (pbind stmt (\<lambda>s. preturn (Inl (stmts @ [s])))))) []"

definition block_contents :: "nat \<Rightarrow> (block \<times> span) parse \<Rightarrow> (block \<times> span) parse" where
  "block_contents room block =
     pbind (pexpect TkLeftBrace ''expected `{` to begin block'') (\<lambda>_.
     pbind (push_scope []) (\<lambda>_.
     pbind (statements (statement room block)) (\<lambda>stmts.
     pbind (pexpect TkRightBrace ''expected `}` to close block'') (\<lambda>closing.
     pbind pop_scope (\<lambda>_.
       preturn (stmts, token_span closing))))))"

fun pblock :: "nat \<Rightarrow> (block \<times> span) parse" where
  "pblock 0 p = nesting_error p"
| "pblock (Suc room) p = block_contents room (pblock room) p"

declare pblock.simps [simp del]

lemma pblock_eqs: "pblock 0 = nesting_error" "pblock (Suc room) = block_contents room (pblock room)"
  by (auto simp: pblock.simps fun_eq_iff)

section \<open>Declarations\<close>

definition top_block :: "string list \<Rightarrow> (block \<times> span) parse" where
  "top_block names = block_with_bindings (pblock MAX_NESTING) names"

definition parse_sound :: "sound_asset parse" where
  "parse_sound =
     pbind padvance (\<lambda>start.
     pbind (pidentifier ''expected a sound name'') (\<lambda>(name, _).
     pbind (pexpect TkEqual ''expected `=` before sound asset path'') (\<lambda>_.
     pbind padvance (\<lambda>path_token.
       case token_kind path_token of
         TkString path \<Rightarrow>
           pbind optional_semicolon (\<lambda>semicolon.
           pbind (pmerge (token_span start) (case semicolon of Some s \<Rightarrow> s | None \<Rightarrow> token_span path_token)) (\<lambda>span.
             preturn \<lparr>sound_name = name, sound_path = path, sound_handle = 0, sound_pcm = [], sound_span = span\<rparr>))
       | _ \<Rightarrow> pfail (diag ''expected a quoted WAV file path after `=`'' (token_span path_token))))))"

definition pat_word :: "string \<Rightarrow> bool parse" where
  "pat_word word = pbind pcurrent (\<lambda>token. preturn (token_kind token = TkIdentifier word))"

definition at_sound_declaration :: "bool parse" where
  "at_sound_declaration = pat_word ''sound''"

definition at_resolution :: "bool parse" where
  "at_resolution = pat_word ''resolution''"

definition err_dimension_literal :: "string \<Rightarrow> string" where
  "err_dimension_literal name =
     ''resolution '' @ name @ '' must be a positive integer literal between 1 and '' @ show_nat (unat MAX_DIMENSION)"

definition err_dimension_range :: "string \<Rightarrow> int \<Rightarrow> string" where
  "err_dimension_range name v =
     ''resolution '' @ name @ '' must be between 1 and '' @ show_nat (unat MAX_DIMENSION) @ '', found '' @ show_int v"

definition resolution_dimension :: "string \<Rightarrow> u16 parse" where
  "resolution_dimension name =
     pbind padvance (\<lambda>token.
       case token_kind token of
         TkInteger v \<Rightarrow>
           if 1 \<le> v \<and> v \<le> uint MAX_DIMENSION then preturn (word_of_int v)
           else pfail (diag (err_dimension_range name v) (token_span token))
       | _ \<Rightarrow> pfail (diag (err_dimension_literal name) (token_span token)))"

definition parse_resolution :: "resolution parse" where
  "parse_resolution =
     pbind padvance (\<lambda>start.
     pbind (pexpect TkLeftParen ''expected `(` after `resolution`'') (\<lambda>_.
     pbind (resolution_dimension ''width'') (\<lambda>width.
     pbind (pexpect TkComma ''expected `,` between resolution dimensions'') (\<lambda>_.
     pbind (resolution_dimension ''height'') (\<lambda>height.
     pbind (pexpect TkRightParen ''expected `)` after resolution dimensions'') (\<lambda>closing.
       case resolution_new width height of
         Inr r \<Rightarrow> preturn r
       | Inl msg \<Rightarrow>
           pbind (pmerge (token_span start) (token_span closing)) (\<lambda>span. pfail (diag msg span))))))))"

record import_decl =
  import_path :: string
  import_alias :: string
  import_span :: span

definition parse_import :: "import_decl parse" where
  "parse_import =
     pbind (pexpect TkImport ''expected `import`'') (\<lambda>start.
     pbind padvance (\<lambda>path_token.
       case token_kind path_token of
         TkString path \<Rightarrow>
           pbind (pexpect TkAs ''expected `as` after import path'') (\<lambda>_.
           pbind (pidentifier ''expected an import alias after `as`'') (\<lambda>(name, end_span).
           pbind (ptake TkSemicolon) (\<lambda>_.
           pbind (pmerge (token_span start) end_span) (\<lambda>span.
             preturn \<lparr>import_path = path, import_alias = name, import_span = span\<rparr>))))
       | _ \<Rightarrow> pfail (diag ''expected a quoted file path after `import`'' (token_span path_token))))"

definition struct_fields_loop :: "struct_field list parse" where
  "struct_fields_loop =
     ploop (\<lambda>fs.
       pif (pat TkRightBrace) (preturn (Inr fs))
       (pif (pat TkEof) (preturn (Inr fs))
         (pbind (pidentifier ''expected a field name'') (\<lambda>(name, name_span).
          pbind (pexpect TkColon ''expected `:` after field name'') (\<lambda>_.
          pbind (parse_value_type MAX_NESTING) (\<lambda>ty.
          pbind (ptake TkComma) (\<lambda>_.
            preturn (Inl (fs @ [\<lparr>field_name = name, field_ty = ty, field_span = name_span\<rparr>]))))))))) []"

definition parse_struct :: "struct_decl parse" where
  "parse_struct =
     pbind (pexpect TkStruct ''expected `struct`'') (\<lambda>start.
     pbind (pidentifier ''expected a struct name'') (\<lambda>(name, _).
     pbind (pexpect TkLeftBrace ''expected `{` after the struct name'') (\<lambda>_.
     pbind struct_fields_loop (\<lambda>fs.
     pbind (pexpect TkRightBrace ''expected `}` after struct fields'') (\<lambda>closing.
     pbind (pmerge (token_span start) (token_span closing)) (\<lambda>span.
       preturn \<lparr>struct_decl_name = name, struct_fields = fs, struct_span = span\<rparr>))))))"

text \<open>The common part of \<open>parse_constant\<close> and \<open>parse_global\<close>.\<close>

definition typed_initializer :: "string \<Rightarrow> string \<Rightarrow> string \<Rightarrow> (string \<times> value_type \<times> expr \<times> span) parse" where
  "typed_initializer name_msg colon_msg equal_msg =
     pbind (pidentifier name_msg) (\<lambda>(name, _).
     pbind (pexpect TkColon colon_msg) (\<lambda>_.
     pbind (parse_value_type MAX_NESTING) (\<lambda>ty.
     pbind (pexpect TkEqual equal_msg) (\<lambda>_.
     pbind (pexpression MAX_NESTING) (\<lambda>init.
     pbind optional_semicolon (\<lambda>semicolon.
       preturn (name, ty, init, case semicolon of Some s \<Rightarrow> s | None \<Rightarrow> expr_span init)))))))"

definition parse_constant :: "constant_decl parse" where
  "parse_constant =
     pbind (pexpect TkConst ''expected `const`'') (\<lambda>start.
     pbind (typed_initializer ''expected a constant name'' ''expected `:` after constant name''
              ''expected `=` before constant initializer'') (\<lambda>(name, ty, init, end_span).
     pbind (pmerge (token_span start) end_span) (\<lambda>span.
       preturn \<lparr>constant_name = name, constant_ty = ty, constant_init = init, constant_val = None,
                constant_span = span\<rparr>)))"

definition parse_global :: "global_decl parse" where
  "parse_global =
     pbind (pexpect TkLet ''expected `let`'') (\<lambda>start.
     pbind (typed_initializer ''expected a global variable name'' ''expected `:` after variable name''
              ''expected `=` before global initializer'') (\<lambda>(name, ty, init, end_span).
     pbind (pmerge (token_span start) end_span) (\<lambda>span.
       preturn \<lparr>global_name = name, global_ty = ty, global_init = init, global_val = None, global_span = span\<rparr>)))"

definition special_function ::
  "string \<Rightarrow> function_kind \<Rightarrow> param list \<Rightarrow> token \<Rightarrow> function_decl parse" where
  "special_function name kind params start =
     pbind (top_block (map param_name params)) (\<lambda>(body, end_span).
     pbind (pmerge (token_span start) end_span) (\<lambda>span.
       preturn \<lparr>function_name = name, function_kind = kind, function_params = params,
                function_return_type = RtVoid, function_body = body, function_span = span\<rparr>))"

definition parse_start :: "function_decl parse" where
  "parse_start = pbind (pexpect TkStart ''expected `start`'') (special_function ''start'' FkStart [])"

definition parse_draw :: "function_decl parse" where
  "parse_draw = pbind (pexpect TkDraw ''expected `draw`'') (special_function ''draw'' FkDraw [])"

definition parse_update :: "function_decl parse" where
  "parse_update =
     pbind (pexpect TkUpdate ''expected `update`'') (\<lambda>start.
     pbind (pexpect TkLeftParen ''expected `(` after `update`'') (\<lambda>_.
     pbind (pidentifier ''expected the frame-delta parameter name'') (\<lambda>(name, name_span).
     pbind (pexpect TkColon ''expected `:` after the frame-delta parameter name'') (\<lambda>_.
     pbind (parse_value_type MAX_NESTING) (\<lambda>ty.
     pbind (pexpect TkRightParen ''expected `)` after the frame-delta parameter'') (\<lambda>_.
       special_function ''update'' FkUpdate
         [\<lparr>param_name = name, param_ty = ty, param_span = name_span\<rparr>] start))))))"

definition parse_params :: "param list parse" where
  "parse_params =
     pif (pat TkRightParen) (preturn [])
       (ploop (\<lambda>params.
          pbind (pidentifier ''expected a parameter name'') (\<lambda>(name, span).
          pbind (pexpect TkColon ''expected `:` after parameter name'') (\<lambda>_.
          pbind (parse_value_type MAX_NESTING) (\<lambda>ty.
          pbind (ptake TkComma) (\<lambda>comma.
            let params = params @ [\<lparr>param_name = name, param_ty = ty, param_span = span\<rparr>]
            in preturn (if comma then Inl params else Inr params)))))) [])"

definition parse_named_function :: "function_decl parse" where
  "parse_named_function =
     pbind (pexpect TkFn ''expected `fn`'') (\<lambda>start.
     pbind (pidentifier ''expected a function name'') (\<lambda>(name, _).
     pbind (pexpect TkLeftParen ''expected `(` after function name'') (\<lambda>_.
     pbind parse_params (\<lambda>params.
     pbind (pexpect TkRightParen ''expected `)` after parameters'') (\<lambda>_.
     pbind (pexpect TkArrow ''expected `->` and a return type after parameters'') (\<lambda>_.
     pbind (parse_return_type MAX_NESTING) (\<lambda>return_type.
     pbind (top_block (map param_name params)) (\<lambda>(body, end_span).
     pbind (pmerge (token_span start) end_span) (\<lambda>span.
       preturn \<lparr>function_name = name, function_kind = FkNamed, function_params = params,
                function_return_type = return_type, function_body = body, function_span = span\<rparr>)))))))))"

section \<open>Files\<close>

fun struct_names_of :: "token list \<Rightarrow> string list" where
  "struct_names_of (a # b # tokens) =
     (case (token_kind a, token_kind b) of
        (TkStruct, TkIdentifier name) \<Rightarrow> name # struct_names_of (b # tokens)
      | _ \<Rightarrow> struct_names_of (b # tokens))"
| "struct_names_of _ = []"

definition declared_struct_names :: "token list \<Rightarrow> string list" where
  "declared_struct_names tokens = struct_names_of tokens"

definition parser_new :: "token list \<Rightarrow> parser" where
  "parser_new tokens =
     \<lparr>p_tokens = tokens, p_cursor = 0, p_struct_names = declared_struct_names tokens, p_value_scopes = []\<rparr>"

text \<open>The header: title, its span, and the resolution.\<close>

definition game_header :: "(string \<times> span \<times> resolution) parse" where
  "game_header =
     pbind (pexpect TkGame ''expected `game` at the start of the file'') (\<lambda>_.
     pbind padvance (\<lambda>title_token.
       case token_kind title_token of
         TkString title \<Rightarrow>
           pbind (pif at_resolution parse_resolution (preturn resolution_default)) (\<lambda>r.
           pbind (ptake TkSemicolon) (\<lambda>_.
             preturn (title, token_span title_token, r)))
       | _ \<Rightarrow> pfail (diag ''expected a quoted game title after `game`'' (token_span title_token))))"

definition file_header :: "bool \<Rightarrow> (string \<times> span \<times> resolution) parse" where
  "file_header root =
     (if root then game_header
      else pbind pcurrent (\<lambda>token. preturn ([], token_span token, resolution_default)))"

definition root_only :: "token_kind \<Rightarrow> bool" where
  "root_only kind \<longleftrightarrow> kind = TkGame \<or> kind = TkStart \<or> kind = TkUpdate \<or> kind = TkDraw"

definition msg_resolution_twice :: "bool \<Rightarrow> string" where
  "msg_resolution_twice root =
     (if root then ''resolution may be declared only once, immediately after the game title''
      else ''imported files cannot declare resolution; set it in the game header'')"

definition add_function :: "program \<Rightarrow> function_decl \<Rightarrow> program" where
  "add_function prog f = prog\<lparr>program_functions := program_functions prog @ [f]\<rparr>"

text \<open>One declaration, added to the program.\<close>

definition declaration_item :: "program \<Rightarrow> program parse" where
  "declaration_item prog =
     pif (pat TkImport) (pbind parse_import (\<lambda>_. preturn prog))
     (pif (pat TkStruct)
       (pbind parse_struct (\<lambda>d. preturn (prog\<lparr>program_structs := program_structs prog @ [d]\<rparr>)))
     (pif at_sound_declaration
       (pbind parse_sound (\<lambda>s. preturn (prog\<lparr>program_sounds := program_sounds prog @ [s]\<rparr>)))
     (pif (pat TkConst)
       (pbind parse_constant (\<lambda>c. preturn (prog\<lparr>program_constants := program_constants prog @ [c]\<rparr>)))
     (pif (pat TkLet)
       (pbind parse_global (\<lambda>g. preturn (prog\<lparr>program_globals := program_globals prog @ [g]\<rparr>)))
     (pif (pat TkStart) (pbind parse_start (\<lambda>f. preturn (add_function prog f)))
     (pif (pat TkUpdate) (pbind parse_update (\<lambda>f. preturn (add_function prog f)))
     (pif (pat TkDraw) (pbind parse_draw (\<lambda>f. preturn (add_function prog f)))
     (pif (pat TkFn) (pbind parse_named_function (\<lambda>f. preturn (add_function prog f)))
       (error_here ''expected a top-level `struct`, `sound`, `const`, `let`, `fn`, `start`, `update`, or `draw` declaration'')))))))))"

definition program_items :: "bool \<Rightarrow> program \<Rightarrow> program parse" where
  "program_items root =
     ploop (\<lambda>prog.
       pif (pat TkEof) (preturn (Inr prog))
       (pif at_resolution (error_here (msg_resolution_twice root))
       (pif (if root then preturn False else pbind pcurrent (\<lambda>token. preturn (root_only (token_kind token))))
         (error_here ''imported files cannot declare `game`, `start`, `update`, or `draw`'')
         (pbind (declaration_item prog) (\<lambda>prog. preturn (Inl prog))))))"

definition parser_run :: "bool \<Rightarrow> program parse" where
  "parser_run root =
     pbind (file_header root) (\<lambda>(title, title_span, r).
       program_items root
         \<lparr>program_resolution = r, program_title = title, program_title_span = title_span, program_structs = [],
          program_sounds = [], program_constants = [], program_globals = [], program_functions = []\<rparr>)"

text \<open>The results of the public functions: diagnostics or a value, and \<^const>\<open>None\<close> for a panic.\<close>

definition parse_result :: "(parse_failure, 'a \<times> parser) result \<Rightarrow> (diagnostic list, 'a) result option" where
  "parse_result r =
     (case r of
        Inr (a, _) \<Rightarrow> Some (Ok a)
      | Inl (PfError d) \<Rightarrow> Some (Err [d])
      | Inl PfPanic \<Rightarrow> None
      | Inl PfFuel \<Rightarrow> None)"

definition parse_file :: "token list \<Rightarrow> bool \<Rightarrow> string list \<Rightarrow> (diagnostic list, program) result option" where
  "parse_file tokens root imported_structs =
     (let p = parser_new tokens
      in parse_result (parser_run root (p\<lparr>p_struct_names := imported_structs @ p_struct_names p\<rparr>)))"

text \<open>The turns of \<open>import_headers\<close>, with the depth of braces and the imports found.\<close>

definition brace_depth :: "token_kind \<Rightarrow> nat \<Rightarrow> nat" where
  "brace_depth kind depth =
     (if kind = TkLeftBrace then depth + 1 else if kind = TkRightBrace then depth - 1 else depth)"

definition import_step :: "nat \<times> import_decl list \<Rightarrow> (nat \<times> import_decl list + import_decl list) parse" where
  "import_step st =
     (case st of (depth, imports) \<Rightarrow>
        pif (pat TkEof) (preturn (Inr imports))
        (pif (if depth = 0 then pat TkImport else preturn False)
          (pbind parse_import (\<lambda>i. preturn (Inl (depth, imports @ [i]))))
          (pbind padvance (\<lambda>token. preturn (Inl (brace_depth (token_kind token) depth, imports))))))"

definition import_headers :: "token list \<Rightarrow> (diagnostic list, import_decl list) result option" where
  "import_headers tokens = parse_result (ploop import_step (0, []) (parser_new tokens))"

definition parse :: "token list \<Rightarrow> (diagnostic list, program) result option" where
  "parse tokens =
     (case import_headers tokens of
        None \<Rightarrow> None
      | Some (Inl ds) \<Rightarrow> Some (Err ds)
      | Some (Inr (i # _)) \<Rightarrow>
          Some (Err [diag ''imports require a file path; use file-based analysis'' (import_span i)])
      | Some (Inr []) \<Rightarrow> parse_file tokens True [])"

end
