(* ===== verification/Modules_Resolve.thy ===== *)
theory Modules_Resolve
  imports Sema_Accepts Parser_Program
begin

text \<open>
  Name resolution of the modules of a program, \<^verbatim>\<open>src/src/modules/resolve.rs\<close>. The
  resolver rewrites the names of the tree in place and pushes diagnostics; an operation here gives the rewritten
  tree and the diagnostics it pushes, or \<^const>\<open>None\<close> for a panic. The scopes are those of the
  statement at hand, the innermost one apart, since statements are only visited below a pushed scope; a
  statement gives the scope it leaves.
\<close>

section \<open>Modules and namespaces\<close>

record source_module =
  md_program :: program
  md_imports :: "(import_decl \<times> nat) list"
  md_qualifier :: string
  md_directory :: string

record namespace =
  ns_declarations :: "(string, string) hash_map"
  ns_aliases :: "(string, nat) hash_map"

definition qualify :: "string \<Rightarrow> string \<Rightarrow> string" where
  "qualify qualifier name = (if qualifier = [] then name else qualifier @ ''::'' @ name)"

definition is_builtin :: "string \<Rightarrow> bool" where
  "is_builtin name \<longleftrightarrow> list_ex (\<lambda>f. bf_name f = name) FUNCTIONS \<or> is_predefined_constant name"

definition named_function_decls :: "program \<Rightarrow> function_decl list" where
  "named_function_decls p = filter (\<lambda>f. function_kind f = FkNamed) (program_functions p)"

definition declared_items :: "program \<Rightarrow> (string \<times> span) list" where
  "declared_items p =
     map (\<lambda>d. (struct_decl_name d, struct_span d)) (program_structs p)
     @ map (\<lambda>d. (sound_name d, sound_span d)) (program_sounds p)
     @ map (\<lambda>d. (constant_name d, constant_span d)) (program_constants p)
     @ map (\<lambda>d. (global_name d, global_span d)) (program_globals p)
     @ map (\<lambda>f. (function_name f, function_span f)) (named_function_decls p)"

definition declare_item ::
  "string \<Rightarrow> string \<times> span \<Rightarrow> (string, string) hash_map \<Rightarrow> (string, string) hash_map chk" where
  "declare_item qualifier item declarations =
     (case item of (name, span) \<Rightarrow>
        cbind (cwhen (hm_contains declarations name)
                (cerror (''declaration '' @ quoted name @ '' is declared more than once'') span)) (\<lambda>_.
        cbind (cwhen (is_builtin name)
                (cerror (''declaration '' @ quoted name @ '' conflicts with a predefined name'') span)) (\<lambda>_.
          cret (hm_insert name (qualify qualifier name) declarations))))"

definition declare_alias ::
  "(string, string) hash_map \<Rightarrow> import_decl \<times> nat \<Rightarrow> (string, nat) hash_map \<Rightarrow> (string, nat) hash_map chk" where
  "declare_alias declarations item aliases =
     (case item of (imported, target) \<Rightarrow>
        cbind (cwhen (hm_contains declarations (import_alias imported) \<or> is_builtin (import_alias imported))
                (cerror (''import alias '' @ quoted (import_alias imported) @ '' conflicts with an existing declaration'')
                   (import_span imported))) (\<lambda>_.
          cret (hm_insert (import_alias imported) target aliases)))"

definition module_namespace :: "source_module \<Rightarrow> namespace chk" where
  "module_namespace m =
     cbind (ceach (declare_item (md_qualifier m)) (declared_items (md_program m)) []) (\<lambda>declarations.
     cbind (ceach (declare_alias declarations) (md_imports m) []) (\<lambda>aliases.
       cret \<lparr>ns_declarations = declarations, ns_aliases = aliases\<rparr>))"

section \<open>Names\<close>

text \<open>\<open>split_once("::")\<close>.\<close>

fun split_colons :: "string \<Rightarrow> (string \<times> string) option" where
  "split_colons (a # b # s) =
     (if a = CHR '':'' \<and> b = CHR '':'' then Some ([], s)
      else map_option (\<lambda>(l, r). (a # l, r)) (split_colons (b # s)))"
| "split_colons _ = None"

definition in_scopes :: "string list list \<Rightarrow> string \<Rightarrow> bool" where
  "in_scopes scopes name \<longleftrightarrow> list_ex (\<lambda>scope. name \<in> set scope) scopes"

definition resolve_member :: "namespace list \<Rightarrow> namespace \<Rightarrow> string \<Rightarrow> span \<Rightarrow> string \<Rightarrow> string \<Rightarrow> string chk" where
  "resolve_member namespaces ns name span alias_name member =
     (case hm_get (ns_aliases ns) alias_name of
        None \<Rightarrow> cbind (cerror (''unknown import alias '' @ quoted alias_name) span) (\<lambda>_. cret name)
      | Some target \<Rightarrow>
          if target < length namespaces then
            (case hm_get (ns_declarations (namespaces ! target)) member of
               Some resolved \<Rightarrow> cret resolved
             | None \<Rightarrow>
                 cbind (cerror (''module '' @ quoted alias_name @ '' has no declaration '' @ quoted member) span)
                   (\<lambda>_. cret name))
          else None)"

text \<open>\<open>Resolver::name\<close> for a name that is not local.\<close>

definition resolve_global :: "namespace list \<Rightarrow> nat \<Rightarrow> string \<Rightarrow> span \<Rightarrow> string \<Rightarrow> string chk" where
  "resolve_global namespaces current name span description =
     (if current < length namespaces then
        (case split_colons name of
           Some (alias_name, member) \<Rightarrow>
             resolve_member namespaces (namespaces ! current) name span alias_name member
         | None \<Rightarrow>
             (case hm_get (ns_declarations (namespaces ! current)) name of
                Some resolved \<Rightarrow> cret resolved
              | None \<Rightarrow>
                  if is_builtin name then cret name
                  else cbind (cerror (''unknown '' @ description @ '' '' @ quoted name) span) (\<lambda>_. cret name)))
      else None)"

definition resolve_name ::
  "namespace list \<Rightarrow> nat \<Rightarrow> string list list \<Rightarrow> string \<Rightarrow> span \<Rightarrow> string \<Rightarrow> bool \<Rightarrow> string chk" where
  "resolve_name namespaces current scopes name span description is_local =
     (if is_local \<and> in_scopes scopes name then cret name
      else resolve_global namespaces current name span description)"

section \<open>Types, expressions and statements\<close>

fun resolve_ty :: "namespace list \<Rightarrow> nat \<Rightarrow> value_type \<Rightarrow> span \<Rightarrow> value_type chk" where
  "resolve_ty ns current (VtStruct name) span =
     cbind (resolve_name ns current [] name span ''struct type'' False) (\<lambda>name. cret (VtStruct name))"
| "resolve_ty ns current (VtArray element len) span =
     cbind (resolve_ty ns current element span) (\<lambda>element.
     cbind (case len of
              AlConstant name s \<Rightarrow>
                cbind (resolve_name ns current [] name s ''constant'' False) (\<lambda>name. cret (AlConstant name s))
            | _ \<Rightarrow> cret len) (\<lambda>len. cret (VtArray element len)))"
| "resolve_ty ns current ty span = cret ty"

fun resolve_expr :: "namespace list \<Rightarrow> nat \<Rightarrow> string list list \<Rightarrow> expr \<Rightarrow> expr chk"
and resolve_exprs :: "namespace list \<Rightarrow> nat \<Rightarrow> string list list \<Rightarrow> expr list \<Rightarrow> expr list chk"
and resolve_inits :: "namespace list \<Rightarrow> nat \<Rightarrow> string list list \<Rightarrow> field_initializer list \<Rightarrow> field_initializer list chk" where
  "resolve_expr ns i sc (Expr (ExVariable name) s) =
     cbind (resolve_name ns i sc name s ''variable'' True) (\<lambda>name. cret (Expr (ExVariable name) s))"
| "resolve_expr ns i sc (Expr (ExCall name args) s) =
     cbind (resolve_name ns i sc name s ''function'' False) (\<lambda>name.
     cbind (resolve_exprs ns i sc args) (\<lambda>args. cret (Expr (ExCall name args) s)))"
| "resolve_expr ns i sc (Expr (ExStructLiteral name inits) s) =
     cbind (resolve_name ns i sc name s ''struct type'' False) (\<lambda>name.
     cbind (resolve_inits ns i sc inits) (\<lambda>inits. cret (Expr (ExStructLiteral name inits) s)))"
| "resolve_expr ns i sc (Expr (ExArrayLiteral elements) s) =
     cbind (resolve_exprs ns i sc elements) (\<lambda>elements. cret (Expr (ExArrayLiteral elements) s))"
| "resolve_expr ns i sc (Expr (ExIndex base index) s) =
     cbind (resolve_expr ns i sc base) (\<lambda>base.
     cbind (resolve_expr ns i sc index) (\<lambda>index. cret (Expr (ExIndex base index) s)))"
| "resolve_expr ns i sc (Expr (ExField base name fs) s) =
     cbind (resolve_expr ns i sc base) (\<lambda>base. cret (Expr (ExField base name fs) s))"
| "resolve_expr ns i sc (Expr (ExUnary op operand) s) =
     cbind (resolve_expr ns i sc operand) (\<lambda>operand. cret (Expr (ExUnary op operand) s))"
| "resolve_expr ns i sc (Expr (ExBinary left op right) s) =
     cbind (resolve_expr ns i sc left) (\<lambda>left.
     cbind (resolve_expr ns i sc right) (\<lambda>right. cret (Expr (ExBinary left op right) s)))"
| "resolve_expr ns i sc (Expr (ExConversion target args) s) =
     cbind (resolve_ty ns i target s) (\<lambda>target.
     cbind (resolve_exprs ns i sc args) (\<lambda>args. cret (Expr (ExConversion target args) s)))"
| "resolve_expr ns i sc (Expr (ExI32 v) s) = cret (Expr (ExI32 v) s)"
| "resolve_expr ns i sc (Expr (ExF32 f) s) = cret (Expr (ExF32 f) s)"
| "resolve_expr ns i sc (Expr (ExBool b) s) = cret (Expr (ExBool b) s)"
| "resolve_exprs ns i sc [] = cret []"
| "resolve_exprs ns i sc (e # es) =
     cbind (resolve_expr ns i sc e) (\<lambda>e. cbind (resolve_exprs ns i sc es) (\<lambda>es. cret (e # es)))"
| "resolve_inits ns i sc [] = cret []"
| "resolve_inits ns i sc (FieldInitializer name e s # inits) =
     cbind (resolve_expr ns i sc e) (\<lambda>e.
     cbind (resolve_inits ns i sc inits) (\<lambda>inits. cret (FieldInitializer name e s # inits)))"

text \<open>The innermost scope is the head; \<open>block\<close> pushes an empty one.\<close>

fun resolve_stmt :: "namespace list \<Rightarrow> nat \<Rightarrow> string list list \<Rightarrow> string list \<Rightarrow> stmt \<Rightarrow> (stmt \<times> string list) chk"
and resolve_stmts :: "namespace list \<Rightarrow> nat \<Rightarrow> string list list \<Rightarrow> string list \<Rightarrow> stmt list \<Rightarrow> stmt list chk" where
  "resolve_stmt ns i outer scope (Stmt (StLet name ty init) s) =
     cbind (resolve_ty ns i ty s) (\<lambda>ty.
     cbind (resolve_expr ns i (scope # outer) init) (\<lambda>init.
       cret (Stmt (StLet name ty init) s, name # scope)))"
| "resolve_stmt ns i outer scope (Stmt (StAssign target op e) s) =
     cbind (resolve_expr ns i (scope # outer) target) (\<lambda>target.
     cbind (resolve_expr ns i (scope # outer) e) (\<lambda>e. cret (Stmt (StAssign target op e) s, scope)))"
| "resolve_stmt ns i outer scope (Stmt (StExpr e) s) =
     cbind (resolve_expr ns i (scope # outer) e) (\<lambda>e. cret (Stmt (StExpr e) s, scope))"
| "resolve_stmt ns i outer scope (Stmt (StIf c then_block else_block) s) =
     cbind (resolve_expr ns i (scope # outer) c) (\<lambda>c.
     cbind (resolve_stmts ns i (scope # outer) [] then_block) (\<lambda>then_block.
     cbind (case else_block of
              None \<Rightarrow> cret None
            | Some b \<Rightarrow> cbind (resolve_stmts ns i (scope # outer) [] b) (\<lambda>b. cret (Some b))) (\<lambda>else_block.
       cret (Stmt (StIf c then_block else_block) s, scope))))"
| "resolve_stmt ns i outer scope (Stmt (StWhile c body) s) =
     cbind (resolve_expr ns i (scope # outer) c) (\<lambda>c.
     cbind (resolve_stmts ns i (scope # outer) [] body) (\<lambda>body. cret (Stmt (StWhile c body) s, scope)))"
| "resolve_stmt ns i outer scope (Stmt (StFor name name_span lower upper body) s) =
     cbind (resolve_expr ns i (scope # outer) lower) (\<lambda>lower.
     cbind (resolve_expr ns i (scope # outer) upper) (\<lambda>upper.
     cbind (resolve_stmts ns i (scope # outer) [name] body) (\<lambda>body.
       cret (Stmt (StFor name name_span lower upper body) s, scope))))"
| "resolve_stmt ns i outer scope (Stmt (StReturn r) s) =
     cbind (case r of
              None \<Rightarrow> cret None
            | Some e \<Rightarrow> cbind (resolve_expr ns i (scope # outer) e) (\<lambda>e. cret (Some e))) (\<lambda>r.
       cret (Stmt (StReturn r) s, scope))"
| "resolve_stmts ns i outer scope [] = cret []"
| "resolve_stmts ns i outer scope (stmt # stmts) =
     cbind (resolve_stmt ns i outer scope stmt) (\<lambda>(stmt, scope).
     cbind (resolve_stmts ns i outer scope stmts) (\<lambda>stmts. cret (stmt # stmts)))"

section \<open>Declarations\<close>

text \<open>The values of an operation on a list.\<close>

fun cmap :: "('a \<Rightarrow> 'b chk) \<Rightarrow> 'a list \<Rightarrow> 'b list chk" where
  "cmap f [] = cret []"
| "cmap f (x # xs) = cbind (f x) (\<lambda>y. cbind (cmap f xs) (\<lambda>ys. cret (y # ys)))"

text \<open>\<open>namespaces[index].declarations[&name]\<close>, which panics on a name that is not declared.\<close>

definition own_name :: "namespace list \<Rightarrow> nat \<Rightarrow> string \<Rightarrow> string chk" where
  "own_name ns i name =
     (if i < length ns then map_option (\<lambda>r. (r, [])) (hm_get (ns_declarations (ns ! i)) name) else None)"

definition resolve_struct_names :: "namespace list \<Rightarrow> nat \<Rightarrow> struct_decl \<Rightarrow> struct_decl chk" where
  "resolve_struct_names ns i d =
     cbind (own_name ns i (struct_decl_name d)) (\<lambda>name.
     cbind (cmap (\<lambda>f. cbind (resolve_ty ns i (field_ty f) (field_span f)) (\<lambda>ty. cret (f\<lparr>field_ty := ty\<rparr>)))
             (struct_fields d)) (\<lambda>fs.
       cret (d\<lparr>struct_decl_name := name, struct_fields := fs\<rparr>)))"

definition resolve_sound :: "namespace list \<Rightarrow> nat \<Rightarrow> sound_asset \<Rightarrow> sound_asset chk" where
  "resolve_sound ns i d = cbind (own_name ns i (sound_name d)) (\<lambda>name. cret (d\<lparr>sound_name := name\<rparr>))"

definition resolve_constant :: "namespace list \<Rightarrow> nat \<Rightarrow> constant_decl \<Rightarrow> constant_decl chk" where
  "resolve_constant ns i d =
     cbind (own_name ns i (constant_name d)) (\<lambda>name.
     cbind (resolve_ty ns i (constant_ty d) (constant_span d)) (\<lambda>ty.
     cbind (resolve_expr ns i [] (constant_init d)) (\<lambda>init.
       cret (d\<lparr>constant_name := name, constant_ty := ty, constant_init := init\<rparr>))))"

definition resolve_global_names :: "namespace list \<Rightarrow> nat \<Rightarrow> global_decl \<Rightarrow> global_decl chk" where
  "resolve_global_names ns i d =
     cbind (own_name ns i (global_name d)) (\<lambda>name.
     cbind (resolve_ty ns i (global_ty d) (global_span d)) (\<lambda>ty.
     cbind (resolve_expr ns i [] (global_init d)) (\<lambda>init.
       cret (d\<lparr>global_name := name, global_ty := ty, global_init := init\<rparr>))))"

definition resolve_function_names :: "namespace list \<Rightarrow> nat \<Rightarrow> function_decl \<Rightarrow> function_decl chk" where
  "resolve_function_names ns i f =
     cbind (if function_kind f = FkNamed then own_name ns i (function_name f) else cret (function_name f)) (\<lambda>name.
     cbind (cmap (\<lambda>p. cbind (resolve_ty ns i (param_ty p) (param_span p)) (\<lambda>ty. cret (p\<lparr>param_ty := ty\<rparr>)))
             (function_params f)) (\<lambda>params.
     cbind (case function_return_type f of
              RtVoid \<Rightarrow> cret RtVoid
            | RtValue ty \<Rightarrow> cbind (resolve_ty ns i ty (function_span f)) (\<lambda>ty. cret (RtValue ty))) (\<lambda>rt.
     cbind (resolve_stmts ns i [] (map param_name (function_params f)) (function_body f)) (\<lambda>body.
       cret (f\<lparr>function_name := name, function_params := params, function_return_type := rt,
               function_body := body\<rparr>)))))"

definition resolve_module :: "namespace list \<Rightarrow> nat \<times> source_module \<Rightarrow> source_module chk" where
  "resolve_module ns item =
     (case item of (i, m) \<Rightarrow>
        let p = md_program m in
        cbind (cmap (resolve_struct_names ns i) (program_structs p)) (\<lambda>structs.
        cbind (cmap (resolve_sound ns i) (program_sounds p)) (\<lambda>sounds.
        cbind (cmap (resolve_constant ns i) (program_constants p)) (\<lambda>constants.
        cbind (cmap (resolve_global_names ns i) (program_globals p)) (\<lambda>globals.
        cbind (cmap (resolve_function_names ns i) (program_functions p)) (\<lambda>fns.
          cret (m\<lparr>md_program := p\<lparr>program_structs := structs, program_sounds := sounds, program_constants := constants,
                                   program_globals := globals, program_functions := fns\<rparr>\<rparr>)))))))"

definition resolve_all :: "source_module list \<Rightarrow> namespace list \<Rightarrow> source_module list chk" where
  "resolve_all modules ns = cmap (resolve_module ns) (zip [0..<length modules] modules)"

definition chk_result :: "'a chk \<Rightarrow> (diagnostic list, 'a) result option" where
  "chk_result m = map_option (\<lambda>(a, ds). if ds = [] then Ok a else Err ds) m"

definition resolve_modules :: "source_module list \<Rightarrow> (diagnostic list, source_module list) result option" where
  "resolve_modules modules =
     (if length modules = 1 \<and> md_imports (hd modules) = [] then Some (Ok modules)
      else case chk_result (cmap module_namespace modules) of
             None \<Rightarrow> None
           | Some (Inl ds) \<Rightarrow> Some (Err ds)
           | Some (Inr ns) \<Rightarrow> chk_result (resolve_all modules ns))"

end
