(* ===== verification/Modules.thy ===== *)
theory Modules
  imports Modules_Resolve Wav "HOL-Library.List_Lexorder" "HOL-Library.Char_ord"
begin

text \<open>
  The loader of a program of several files, \<^verbatim>\<open>src/src/modules.rs\<close>: the import graph is visited
  depth first, then every file is parsed, the names are resolved, the sounds are loaded and the modules are
  flattened into one program. An action transforms the loader and gives a value or diagnostics;
  \<^const>\<open>None\<close> is a panic or, for \<open>visit\<close>, fuel that ran out, which never happens.
\<close>

section \<open>Actions\<close>

type_synonym ('s, 'a) act = "'s \<Rightarrow> ((diagnostic list, 'a) result \<times> 's) option"

definition aret :: "'a \<Rightarrow> ('s, 'a) act" where
  "aret a s = Some (Ok a, s)"

definition afail :: "diagnostic list \<Rightarrow> ('s, 'a) act" where
  "afail ds s = Some (Err ds, s)"

definition apanic :: "('s, 'a) act" where
  "apanic s = None"

definition abind :: "('s, 'a) act \<Rightarrow> ('a \<Rightarrow> ('s, 'b) act) \<Rightarrow> ('s, 'b) act" where
  "abind f g s =
     (case f s of
        None \<Rightarrow> None
      | Some (Inl ds, s') \<Rightarrow> Some (Err ds, s')
      | Some (Inr a, s') \<Rightarrow> g a s')"

definition aget :: "('s \<Rightarrow> 'a) \<Rightarrow> ('s, 'a) act" where
  "aget f s = Some (Ok (f s), s)"

definition amodify :: "('s \<Rightarrow> 's) \<Rightarrow> ('s, unit) act" where
  "amodify f s = Some (Ok (), f s)"

definition aunwrap :: "'a option \<Rightarrow> ('s, 'a) act" where
  "aunwrap x = (case x of None \<Rightarrow> apanic | Some a \<Rightarrow> aret a)"

definition aresult :: "(diagnostic list, 'a) result \<Rightarrow> ('s, 'a) act" where
  "aresult r = (case r of Inl ds \<Rightarrow> afail ds | Inr a \<Rightarrow> aret a)"

text \<open>A library function that may panic.\<close>

definition acall :: "(diagnostic list, 'a) result option \<Rightarrow> ('s, 'a) act" where
  "acall r = (case r of None \<Rightarrow> apanic | Some r \<Rightarrow> aresult r)"

section \<open>The loader\<close>

definition MAX_IMPORT_DEPTH :: nat where
  "MAX_IMPORT_DEPTH = 128"

record loaded_module =
  lm_tokens :: "token list"
  lm_height :: nat
  lm_imports :: "(import_decl \<times> nat) list"
  lm_qualifier :: string
  lm_directory :: string

text \<open>\<open>active\<close> is in the order of the code, the file being visited last.\<close>

record loader =
  ld_sources :: source_map
  ld_identities :: "(string, nat) hash_map"
  ld_active :: "string list"
  ld_modules :: "loaded_module option list"
  ld_root_dir :: string

definition loader_new :: loader where
  "loader_new =
     \<lparr>ld_sources = source_map_empty, ld_identities = [], ld_active = [], ld_modules = [], ld_root_dir = []\<rparr>"

definition ld_record :: "string \<Rightarrow> (loader, unit) act" where
  "ld_record path = amodify (\<lambda>l. l\<lparr>ld_sources := record_dependency path (ld_sources l)\<rparr>)"

text \<open>\<open>self.modules[index].as_ref().unwrap()\<close>.\<close>

definition module_at :: "loader \<Rightarrow> nat \<Rightarrow> loaded_module option" where
  "module_at l i = (if i < length (ld_modules l) then ld_modules l ! i else None)"

definition unreadable_source :: "string \<Rightarrow> string \<Rightarrow> string" where
  "unreadable_source path e = ''could not read `'' @ path_display path @ ''`: '' @ e"

definition cycle_message :: "string list \<Rightarrow> string \<Rightarrow> string" where
  "cycle_message active canonical =
     ''import cycle: ''
     @ join '' -> '' (map path_display (dropWhile (\<lambda>p. p \<noteq> canonical) active @ [canonical]))"

definition depth_message :: string where
  "depth_message = ''import nesting exceeds the limit of '' @ show_nat MAX_IMPORT_DEPTH @ '' files''"

text \<open>The checks before a file is read: it may be an unfinished file, a finished one, or a new one.\<close>

definition locate_source ::
  "file_system \<Rightarrow> string \<Rightarrow> span \<Rightarrow> (loader, string \<times> nat option) act" where
  "locate_source fs path span =
     (if path_extension path \<noteq> Some ''spk'' then
        afail [diag ''Speck source files must use the `.spk` extension'' span]
      else
        case fs_canonicalize fs path of
          Inl e \<Rightarrow> afail [diag (unreadable_source path e) span]
        | Inr canonical \<Rightarrow>
            abind (ld_record canonical) (\<lambda>_ l.
              if canonical \<in> set (ld_active l) then
                afail [diag (cycle_message (ld_active l) canonical) span] l
              else
                abind (case hm_get (ld_identities l) canonical of
                         None \<Rightarrow> aret (None, 1)
                       | Some i \<Rightarrow>
                           abind (aunwrap (module_at l i)) (\<lambda>m. aret (Some i, lm_height m))) (\<lambda>(cached, height).
                  if MAX_IMPORT_DEPTH < length (ld_active l) + height then afail [diag depth_message span]
                  else aret (canonical, cached)) l))"

text \<open>Reading and lexing a new file, to its tokens, its qualifier and its imports.\<close>

definition module_qualifier :: "nat \<Rightarrow> string \<Rightarrow> string \<Rightarrow> span \<Rightarrow> (diagnostic list, string) result" where
  "module_qualifier index root_dir canonical span =
     (if index = 0 then Ok []
      else
        let q = (case strip_path_prefix root_dir canonical of Some q \<Rightarrow> q | None \<Rightarrow> canonical)
        in if utf8_valid q then Ok q else Err [diag ''module file paths must be valid UTF-8'' span])"

definition set_root_dir :: "string \<Rightarrow> (loader, unit) act" where
  "set_root_dir canonical =
     abind (aget (\<lambda>l. length (ld_modules l))) (\<lambda>index.
       if index = 0 then
         abind (aunwrap (path_parent canonical)) (\<lambda>dir. amodify (\<lambda>l. l\<lparr>ld_root_dir := dir\<rparr>))
       else aret ())"

definition add_source :: "string \<Rightarrow> string \<Rightarrow> (loader, nat) act" where
  "add_source path text l =
     (case source_add path text (ld_sources l) of (sid, sources) \<Rightarrow> Some (Ok sid, l\<lparr>ld_sources := sources\<rparr>))"

definition open_module ::
  "file_system \<Rightarrow> string \<Rightarrow> string \<Rightarrow> span \<Rightarrow> (loader, token list \<times> string \<times> import_decl list) act" where
  "open_module fs path canonical span =
     abind (aresult (map_error (\<lambda>e. [diag (unreadable_source path e) span]) (fs_read_to_string fs canonical))) (\<lambda>text.
     abind (set_root_dir canonical) (\<lambda>_.
     abind (aget (\<lambda>l. length (ld_modules l))) (\<lambda>index.
     abind (aget ld_root_dir) (\<lambda>root_dir.
     abind (aresult (module_qualifier index root_dir canonical span)) (\<lambda>qualifier.
     abind (add_source (if index = 0 then path else canonical) text) (\<lambda>sid.
     abind (acall (lex_in text sid)) (\<lambda>tokens.
     abind (acall (import_headers tokens)) (\<lambda>headers.
       aret (tokens, qualifier, headers)))))))))"

section \<open>The visit\<close>

fun visit_imports ::
  "(string \<Rightarrow> span option \<Rightarrow> (loader, nat) act) \<Rightarrow> string \<Rightarrow> string list \<Rightarrow> import_decl list \<Rightarrow>
   (loader, (import_decl \<times> nat) list) act" where
  "visit_imports visit canonical aliases [] = aret []"
| "visit_imports visit canonical aliases (imported # headers) =
     (if import_alias imported \<in> set aliases then
        afail [diag (''import alias '' @ quoted (import_alias imported) @ '' is declared more than once'') (import_span imported)]
      else if is_absolute (import_path imported) then
        afail [diag ''import paths must be relative to the importing file'' (import_span imported)]
      else
        abind (aunwrap (path_parent canonical)) (\<lambda>dir.
        abind (visit (path_join dir (import_path imported)) (Some (import_span imported))) (\<lambda>target.
        abind (visit_imports visit canonical (import_alias imported # aliases) headers) (\<lambda>imports.
          aret ((imported, target) # imports)))))"

text \<open>\<open>max().unwrap_or(0)\<close>.\<close>

definition max_or_zero :: "nat list \<Rightarrow> nat" where
  "max_or_zero ns = fold max ns 0"

definition import_heights :: "(import_decl \<times> nat) list \<Rightarrow> (loader, nat list) act" where
  "import_heights imports l =
     (if list_all (\<lambda>(i, t). module_at l t \<noteq> None) imports
      then Some (Ok (map (\<lambda>(i, t). lm_height (the (module_at l t))) imports), l) else None)"

definition enter_module :: "string \<Rightarrow> (loader, nat) act" where
  "enter_module canonical l =
     (let index = length (ld_modules l)
      in Some (Ok index, l\<lparr>ld_identities := hm_insert canonical index (ld_identities l),
                           ld_modules := ld_modules l @ [None], ld_active := ld_active l @ [canonical]\<rparr>))"

definition finish_module :: "nat \<Rightarrow> loaded_module \<Rightarrow> (loader, unit) act" where
  "finish_module index m =
     amodify (\<lambda>l. l\<lparr>ld_modules := (ld_modules l)[index := Some m], ld_active := butlast (ld_active l)\<rparr>)"

definition visit_module ::
  "file_system \<Rightarrow> (string \<Rightarrow> span option \<Rightarrow> (loader, nat) act) \<Rightarrow> string \<Rightarrow> string \<Rightarrow> span \<Rightarrow> (loader, nat) act" where
  "visit_module fs visit path canonical span =
     abind (open_module fs path canonical span) (\<lambda>(tokens, qualifier, headers).
     abind (enter_module canonical) (\<lambda>index.
     abind (visit_imports visit canonical [] headers) (\<lambda>imports.
     abind (import_heights imports) (\<lambda>heights.
     abind (aunwrap (path_parent canonical)) (\<lambda>directory.
     abind (finish_module index
              \<lparr>lm_tokens = tokens, lm_height = 1 + max_or_zero heights, lm_imports = imports,
               lm_qualifier = qualifier, lm_directory = directory\<rparr>) (\<lambda>_.
       aret index))))))"

definition visit_with ::
  "file_system \<Rightarrow> (string \<Rightarrow> span option \<Rightarrow> (loader, nat) act) \<Rightarrow> string \<Rightarrow> span option \<Rightarrow> (loader, nat) act" where
  "visit_with fs visit path at_span =
     (let span = (case at_span of Some s \<Rightarrow> s | None \<Rightarrow> span_default)
      in abind (ld_record path) (\<lambda>_.
         abind (locate_source fs path span) (\<lambda>(canonical, cached).
           case cached of
             Some index \<Rightarrow> aret index
           | None \<Rightarrow> visit_module fs visit path canonical span)))"

text \<open>The fuel is one more than the number of files that may still become active.\<close>

fun visit :: "file_system \<Rightarrow> nat \<Rightarrow> string \<Rightarrow> span option \<Rightarrow> (loader, nat) act" where
  "visit fs 0 path at_span = apanic"
| "visit fs (Suc room) path at_span = visit_with fs (visit fs room) path at_span"

definition visit_root :: "file_system \<Rightarrow> string \<Rightarrow> ((diagnostic list, nat) result \<times> loader) option" where
  "visit_root fs path = visit fs (MAX_IMPORT_DEPTH + 1) path None loader_new"

section \<open>Assembling the program\<close>

definition unwrap_all :: "'a option list \<Rightarrow> 'a list option" where
  "unwrap_all xs = (if list_all (\<lambda>x. x \<noteq> None) xs then Some (map the xs) else None)"

definition imported_structs :: "string list list \<Rightarrow> (import_decl \<times> nat) list \<Rightarrow> string list option" where
  "imported_structs struct_names imports =
     (if list_all (\<lambda>(i, t). t < length struct_names) imports
      then Some (concat (map (\<lambda>(i, t). map (\<lambda>n. import_alias i @ ''::'' @ n) (struct_names ! t)) imports))
      else None)"

text \<open>The files are parsed in order, up to the first error.\<close>

fun parse_modules ::
  "string list list \<Rightarrow> nat \<Rightarrow> loaded_module list \<Rightarrow> (diagnostic list, source_module list) result option" where
  "parse_modules struct_names index [] = Some (Ok [])"
| "parse_modules struct_names index (file # files) =
     (case imported_structs struct_names (lm_imports file) of
        None \<Rightarrow> None
      | Some names \<Rightarrow>
          (case parse_file (lm_tokens file) (index = 0) names of
             None \<Rightarrow> None
           | Some (Inl ds) \<Rightarrow> Some (Err ds)
           | Some (Inr prog) \<Rightarrow>
               (case parse_modules struct_names (index + 1) files of
                  None \<Rightarrow> None
                | Some (Inl ds) \<Rightarrow> Some (Err ds)
                | Some (Inr ms) \<Rightarrow>
                    Some (Ok (\<lparr>md_program = prog, md_imports = lm_imports file, md_qualifier = lm_qualifier file,
                               md_directory = lm_directory file\<rparr> # ms)))))"

definition sound_handles :: "source_module list \<Rightarrow> (string, int) hash_map option" where
  "sound_handles ms =
     (let names = sort (concat (map (\<lambda>m. map sound_name (program_sounds (md_program m))) ms))
      in if length names < 2 ^ 31 then Some (hm_collect (zip names (map int [1..<length names + 1]))) else None)"

text \<open>One sound: its handle, then its samples, or a diagnostic.\<close>

definition load_sound ::
  "file_system \<Rightarrow> (string, int) hash_map \<Rightarrow> string \<Rightarrow> sound_asset \<Rightarrow> source_map \<times> diagnostic list \<Rightarrow>
   (sound_asset \<times> source_map \<times> diagnostic list) option" where
  "load_sound fs handles directory sound st =
     (case hm_get handles (sound_name sound) of
        None \<Rightarrow> None
      | Some handle \<Rightarrow>
          (case st of (sources, ds) \<Rightarrow>
             let sound = sound\<lparr>sound_handle := handle\<rparr> in
             if is_absolute (sound_path sound) then
               Some (sound, sources, ds @ [diag ''sound asset paths must be relative to the declaring file'' (sound_span sound)])
             else
               (case load_asset fs (path_join directory (sound_path sound)) sources of
                  (Inr pcm, sources) \<Rightarrow> Some (sound\<lparr>sound_pcm := pcm\<rparr>, sources, ds)
                | (Inl msg, sources) \<Rightarrow> Some (sound, sources, ds @ [diag msg (sound_span sound)]))))"

text \<open>A loop over a list that rewrites it and carries a state.\<close>

fun traverse :: "('a \<Rightarrow> 's \<Rightarrow> ('a \<times> 's) option) \<Rightarrow> 'a list \<Rightarrow> 's \<Rightarrow> ('a list \<times> 's) option" where
  "traverse f [] s = Some ([], s)"
| "traverse f (x # xs) s =
     Option.bind (f x s) (\<lambda>(y, s). map_option (\<lambda>(ys, s). (y # ys, s)) (traverse f xs s))"

definition load_module_sounds ::
  "file_system \<Rightarrow> (string, int) hash_map \<Rightarrow> source_module \<Rightarrow> source_map \<times> diagnostic list \<Rightarrow>
   (source_module \<times> source_map \<times> diagnostic list) option" where
  "load_module_sounds fs handles m st =
     map_option (\<lambda>(sounds, st). (m\<lparr>md_program := (md_program m)\<lparr>program_sounds := sounds\<rparr>\<rparr>, st))
       (traverse (load_sound fs handles (md_directory m)) (program_sounds (md_program m)) st)"

definition sound_constant :: "sound_asset \<Rightarrow> constant_decl" where
  "sound_constant sound =
     \<lparr>constant_name = sound_name sound, constant_ty = VtI32,
      constant_init = Expr (ExI32 (sound_handle sound)) (sound_span sound), constant_val = None,
      constant_span = sound_span sound\<rparr>"

definition with_sound_constants :: "program \<Rightarrow> program" where
  "with_sound_constants p =
     p\<lparr>program_constants := program_constants p @ map sound_constant (program_sounds p)\<rparr>"

definition append_program :: "program \<Rightarrow> program \<Rightarrow> program" where
  "append_program root p =
     root\<lparr>program_structs := program_structs root @ program_structs p,
          program_sounds := program_sounds root @ program_sounds p,
          program_constants := program_constants root @ program_constants p,
          program_globals := program_globals root @ program_globals p,
          program_functions := program_functions root @ program_functions p\<rparr>"

definition flatten_modules :: "source_module list \<Rightarrow> program option" where
  "flatten_modules ms =
     (case map (\<lambda>m. with_sound_constants (md_program m)) ms of
        [] \<Rightarrow> None
      | root # ps \<Rightarrow> Some (foldl append_program root ps))"

text \<open>Everything after the visit; the map of sources grows by the sound assets.\<close>

definition load_sounds ::
  "file_system \<Rightarrow> source_module list \<Rightarrow> source_map \<Rightarrow> ((diagnostic list, program) result \<times> source_map) option" where
  "load_sounds fs ms sources =
     Option.bind (sound_handles ms) (\<lambda>handles.
     Option.bind (traverse (load_module_sounds fs handles) ms (sources, [])) (\<lambda>(ms, sources, ds).
       if ds \<noteq> [] then Some (Err ds, sources)
       else map_option (\<lambda>p. (Ok p, sources)) (flatten_modules ms)))"

definition assemble ::
  "file_system \<Rightarrow> loaded_module list \<Rightarrow> source_map \<Rightarrow> ((diagnostic list, program) result \<times> source_map) option" where
  "assemble fs files sources =
     (case parse_modules (map (declared_struct_names \<circ> lm_tokens) files) 0 files of
        None \<Rightarrow> None
      | Some (Inl ds) \<Rightarrow> Some (Err ds, sources)
      | Some (Inr ms) \<Rightarrow>
          (case resolve_modules ms of
             None \<Rightarrow> None
           | Some (Inl ds) \<Rightarrow> Some (Err ds, sources)
           | Some (Inr ms) \<Rightarrow> load_sounds fs ms sources))"

definition load_program :: "file_system \<Rightarrow> string \<Rightarrow> ((diagnostic list, program) result \<times> source_map) option" where
  "load_program fs path =
     (case visit_root fs path of
        None \<Rightarrow> None
      | Some (Inl ds, l) \<Rightarrow> Some (Err ds, ld_sources l)
      | Some (Inr _, l) \<Rightarrow>
          Option.bind (unwrap_all (ld_modules l)) (\<lambda>files. assemble fs files (ld_sources l)))"

end
