(* ===== verification/Parser_Rules.thy ===== *)
theory Parser_Rules
  imports Parser_Program
begin

text \<open>
  Weakest preconditions for parses. \<open>wp src m f P\<close>: run from any state inside a token list
  that ends with the end-of-file token and whose spans are all of source \<open>src\<close>, with
  \<open>m\<close> scopes open, \<open>f\<close> neither panics nor runs out of fuel, and when it succeeds
  \<open>P\<close> holds of its value, of the number of tokens consumed, and of the number of scopes then open.
\<close>

named_theorems wp_rules \<open>weakest preconditions of the operations of the parser\<close>

definition of_source :: "nat \<Rightarrow> span \<Rightarrow> bool" where
  "of_source src s \<longleftrightarrow> span_source s = src"

definition tokens_ok :: "nat \<Rightarrow> token list \<Rightarrow> bool" where
  "tokens_ok src tokens \<longleftrightarrow>
     tokens \<noteq> [] \<and> token_kind (last tokens) = TkEof \<and> (\<forall>t \<in> set tokens. of_source src (token_span t))"

definition p_ok :: "nat \<Rightarrow> nat \<Rightarrow> parser \<Rightarrow> bool" where
  "p_ok src m p \<longleftrightarrow>
     tokens_ok src (p_tokens p) \<and> p_cursor p < length (p_tokens p) \<and> length (p_value_scopes p) = m"

definition wp :: "nat \<Rightarrow> nat \<Rightarrow> 'a parse \<Rightarrow> ('a \<Rightarrow> nat \<Rightarrow> nat \<Rightarrow> bool) \<Rightarrow> bool" where
  "wp src m f P \<longleftrightarrow>
     (\<forall>p. p_ok src m p \<longrightarrow>
        (\<exists>d. f p = Err (PfError d)) \<or>
        (\<exists>a p' c m'. f p = Ok (a, p') \<and> p_ok src m' p' \<and> p_tokens p' = p_tokens p \<and> p_cursor p' = p_cursor p + c \<and>
           P a c m'))"

lemma wpI:
  "(\<And>p. p_ok src m p \<Longrightarrow>
     (\<exists>d. f p = Err (PfError d)) \<or>
     (\<exists>a p' c m'. f p = Ok (a, p') \<and> p_ok src m' p' \<and> p_tokens p' = p_tokens p \<and> p_cursor p' = p_cursor p + c \<and> P a c m')) \<Longrightarrow>
   wp src m f P"
  by (simp add: wp_def)

lemma wp_cases:
  assumes "wp src m f P" and "p_ok src m p"
  obtains (error) d where "f p = Err (PfError d)"
    | (ok) a p' c m' where "f p = Ok (a, p')" "p_ok src m' p'" "p_tokens p' = p_tokens p"
        "p_cursor p' = p_cursor p + c" "P a c m'"
  using assms unfolding wp_def by blast

lemma wp_mono:
  assumes "wp src m f P" and "\<And>a c m'. P a c m' \<Longrightarrow> Q a c m'"
  shows "wp src m f Q"
proof (rule wpI)
  fix p assume "p_ok src m p"
  from assms(1) this show "(\<exists>d. f p = Err (PfError d)) \<or>
      (\<exists>a p' c m'. f p = Ok (a, p') \<and> p_ok src m' p' \<and> p_tokens p' = p_tokens p \<and> p_cursor p' = p_cursor p + c \<and> Q a c m')"
    by (cases rule: wp_cases) (use assms(2) in blast)+
qed

section \<open>Rules\<close>

lemma wp_return [wp_rules]: "P a 0 m \<Longrightarrow> wp src m (preturn a) P"
  by (rule wpI) (auto simp: preturn_def)

lemma wp_fail [wp_rules]: "wp src m (pfail d) P"
  by (rule wpI) (auto simp: pfail_def)

lemma wp_bind [wp_rules]:
  assumes "wp src m f (\<lambda>a c m1. wp src m1 (g a) (\<lambda>b c' m2. P b (c + c') m2))"
  shows "wp src m (pbind f g) P"
proof (rule wpI)
  fix p assume p: "p_ok src m p"
  from assms this show "(\<exists>d. pbind f g p = Err (PfError d)) \<or>
      (\<exists>a p' c m'. pbind f g p = Ok (a, p') \<and> p_ok src m' p' \<and> p_tokens p' = p_tokens p \<and>
         p_cursor p' = p_cursor p + c \<and> P a c m')"
  proof (cases rule: wp_cases)
    case (ok a p1 c m1)
    from ok(5,2) show ?thesis
      by (cases rule: wp_cases) (use ok in \<open>auto simp: pbind_def add.assoc\<close>)
  qed (auto simp: pbind_def)
qed

lemma wp_pif [wp_rules]:
  "wp src m c (\<lambda>b k m1. (b \<longrightarrow> wp src m1 f (\<lambda>a k'. P a (k + k'))) \<and> (\<not> b \<longrightarrow> wp src m1 g (\<lambda>a k'. P a (k + k')))) \<Longrightarrow>
   wp src m (pif c f g) P"
  unfolding pif_def by (rule wp_bind, erule wp_mono) auto

lemma p_ok_token: "p_ok src m p \<Longrightarrow> of_source src (token_span (p_tokens p ! p_cursor p))"
  by (auto simp: p_ok_def tokens_ok_def)

lemma wp_current [wp_rules]:
  "(\<And>t. of_source src (token_span t) \<Longrightarrow> P t 0 m) \<Longrightarrow> wp src m pcurrent P"
  by (rule wpI) (auto simp: pcurrent_def p_ok_token, auto simp: p_ok_def)

text \<open>Past a token that is not the last there is another one.\<close>

lemma advance_inside:
  assumes "p_ok src m p" and "token_kind (p_tokens p ! p_cursor p) \<noteq> TkEof"
  shows "p_ok src m (p\<lparr>p_cursor := p_cursor p + 1\<rparr>)"
proof -
  have "p_cursor p \<noteq> length (p_tokens p) - 1"
    using assms by (auto simp: p_ok_def tokens_ok_def last_conv_nth)
  then show ?thesis using assms(1) by (auto simp: p_ok_def)
qed

lemma wp_advance_token:
  assumes "\<And>t. of_source src (token_span t) \<Longrightarrow> token_kind t \<noteq> TkEof \<Longrightarrow> P t 1 m"
    and "\<And>t. of_source src (token_span t) \<Longrightarrow> token_kind t = TkEof \<Longrightarrow> P t 0 m"
  shows "wp src m padvance P"
proof (rule wpI)
  fix p assume p: "p_ok src m p"
  then have "p_cursor p < length (p_tokens p)" by (simp add: p_ok_def)
  then show "(\<exists>d. padvance p = Err (PfError d)) \<or>
      (\<exists>a p' c m'. padvance p = Ok (a, p') \<and> p_ok src m' p' \<and> p_tokens p' = p_tokens p \<and>
         p_cursor p' = p_cursor p + c \<and> P a c m')"
    using p p_ok_token [OF p] advance_inside [OF p] assms
    by (cases "token_kind (p_tokens p ! p_cursor p) = TkEof") (auto simp: padvance_def pbind_def pcurrent_def)
qed

lemma wp_advance [wp_rules]:
  "(\<And>t c. of_source src (token_span t) \<Longrightarrow> P t c m) \<Longrightarrow> wp src m padvance P"
  by (rule wp_advance_token) simp_all

lemma wp_pat [wp_rules]: "(\<And>b. P b 0 m) \<Longrightarrow> wp src m (pat kind) P"
  unfolding pat_def by (intro wp_rules) simp

lemma wp_error_here [wp_rules]: "wp src m (error_here msg) P"
  unfolding error_here_def by (intro wp_rules)

lemma wp_nesting_error [wp_rules]: "wp src m nesting_error P"
  unfolding nesting_error_def by (intro wp_rules)

text \<open>Taking a token after a look at its kind.\<close>

definition pkind :: "(token_kind \<Rightarrow> bool) \<Rightarrow> bool parse" where
  "pkind Q = pbind pcurrent (\<lambda>token. preturn (Q (token_kind token)))"

lemma wp_take_kind:
  assumes "\<not> Q TkEof"
    and "\<And>t. Q (token_kind t) \<Longrightarrow> of_source src (token_span t) \<Longrightarrow> wp src m (h t) (\<lambda>a c. P a (1 + c))"
    and "wp src m g P"
  shows "wp src m (pif (pkind Q) (pbind padvance h) g) P"
proof (rule wpI)
  fix p assume p: "p_ok src m p"
  then have at: "p_cursor p < length (p_tokens p)" by (simp add: p_ok_def)
  let ?t = "p_tokens p ! p_cursor p" and ?p' = "p\<lparr>p_cursor := p_cursor p + 1\<rparr>"
  show "(\<exists>d. pif (pkind Q) (pbind padvance h) g p = Err (PfError d)) \<or>
      (\<exists>a p' c m'. pif (pkind Q) (pbind padvance h) g p = Ok (a, p') \<and> p_ok src m' p' \<and> p_tokens p' = p_tokens p \<and>
         p_cursor p' = p_cursor p + c \<and> P a c m')"
  proof (cases "Q (token_kind ?t)")
    case True
    with assms(1) have inside: "token_kind ?t \<noteq> TkEof" by auto
    have run: "pif (pkind Q) (pbind padvance h) g p = h ?t ?p'"
      using at True inside by (simp add: pif_def pbind_def pkind_def pcurrent_def preturn_def padvance_def)
    have "p_ok src m ?p'" by (rule advance_inside [OF p inside])
    from assms(2) [OF True p_ok_token [OF p]] this show ?thesis
      by (cases rule: wp_cases) (auto simp: run)
  next
    case False
    then have "pif (pkind Q) (pbind padvance h) g p = g p"
      using at by (simp add: pif_def pbind_def pkind_def pcurrent_def preturn_def)
    then show ?thesis using assms(3) p unfolding wp_def by simp
  qed
qed

lemma wp_take_token:
  assumes "kind \<noteq> TkEof"
    and "\<And>t. token_kind t = kind \<Longrightarrow> of_source src (token_span t) \<Longrightarrow> wp src m (h t) (\<lambda>a c. P a (1 + c))"
    and "wp src m g P"
  shows "wp src m (pif (pat kind) (pbind padvance h) g) P"
  using wp_take_kind [of "\<lambda>k. k = kind" src m h P g] assms by (simp add: pkind_def pat_def)

lemma pbind_return [simp]: "pbind f preturn = f"
  by (rule ext) (auto simp: pbind_def preturn_def rbind_def split: sum.split)

lemma pbind_assoc: "pbind (pbind f g) h = pbind f (\<lambda>a. pbind (g a) h)"
  by (rule ext) (auto simp: pbind_def rbind_def split: sum.split)

lemma wp_take_kind_bind:
  "\<not> Q TkEof \<Longrightarrow>
   (\<And>t. Q (token_kind t) \<Longrightarrow> of_source src (token_span t) \<Longrightarrow> wp src m (pbind (rest t) h) (\<lambda>a c. P a (1 + c))) \<Longrightarrow>
   wp src m g P \<Longrightarrow> wp src m (pif (pkind Q) (pbind (pbind padvance rest) h) g) P"
  unfolding pbind_assoc by (rule wp_take_kind)

lemma wp_pat_advance:
  assumes "kind \<noteq> TkEof"
    and "\<And>t. token_kind t = kind \<Longrightarrow> of_source src (token_span t) \<Longrightarrow> P t 1 m" and "wp src m g P"
  shows "wp src m (pif (pat kind) padvance g) P"
  using wp_take_token [of kind src m preturn P g] assms by (simp add: wp_return)

lemma wp_expect [wp_rules]:
  "kind \<noteq> TkEof \<Longrightarrow> (\<And>t. token_kind t = kind \<Longrightarrow> of_source src (token_span t) \<Longrightarrow> P t 1 m) \<Longrightarrow>
   wp src m (pexpect kind msg) P"
  unfolding pexpect_def by (intro wp_pat_advance wp_error_here)

lemma wp_take [wp_rules]: "kind \<noteq> TkEof \<Longrightarrow> P True 1 m \<Longrightarrow> P False 0 m \<Longrightarrow> wp src m (ptake kind) P"
  unfolding ptake_def by (intro wp_take_token wp_return) simp_all

lemma wp_identifier [wp_rules]:
  "(\<And>n s. of_source src s \<Longrightarrow> P (n, s) 1 m) \<Longrightarrow> wp src m (pidentifier msg) P"
  unfolding pidentifier_def
  by (rule wp_bind, rule wp_advance_token) (auto split: token_kind.splits intro!: wp_rules)

lemma wp_semicolon [wp_rules]:
  "(\<And>r c. (\<forall>s. r = Some s \<longrightarrow> of_source src s) \<Longrightarrow> P r c m) \<Longrightarrow> wp src m optional_semicolon P"
  unfolding optional_semicolon_def by (intro wp_take_token wp_return) simp_all

lemma wp_merge [wp_rules]:
  "of_source src a \<Longrightarrow> of_source src b \<Longrightarrow> (\<And>s. of_source src s \<Longrightarrow> P s 0 m) \<Longrightarrow> wp src m (pmerge a b) P"
  by (auto simp: pmerge_def span_merge_def of_source_def intro!: wp_rules)

lemma wp_qualified_name [wp_rules]:
  assumes "of_source src start" and "\<And>n s c. of_source src s \<Longrightarrow> P (n, s) c m"
  shows "wp src m (qualified_name name start) P"
  unfolding qualified_name_def using assms by (auto intro!: wp_rules)

lemma wp_checked [wp_rules]:
  "room \<le> MAX_NESTING \<Longrightarrow> (expr_depth e \<le> room \<Longrightarrow> P e 0 m) \<Longrightarrow> wp src m (pchecked room e) P"
  using check_expression_iff [of e "MAX_NESTING - room"]
  by (auto simp: pchecked_def split: sum.splits intro!: wp_rules)

lemma wp_push_scope [wp_rules]: "P () 0 (Suc m) \<Longrightarrow> wp src m (push_scope names) P"
  by (rule wpI) (auto simp: push_scope_def p_ok_def)

lemma wp_pop_scope [wp_rules]: "P () 0 (m - 1) \<Longrightarrow> wp src m pop_scope P"
  by (rule wpI) (auto simp: pop_scope_def p_ok_def)

lemma wp_bind_value [wp_rules]: "0 < m \<Longrightarrow> P () 0 m \<Longrightarrow> wp src m (bind_value n) P"
  by (rule wpI) (auto simp: bind_value_def p_ok_def split: list.splits)

lemma wp_loop_fuel:
  assumes body: "\<And>a. I a \<Longrightarrow> wp src m (body a) (\<lambda>r c m'. m' = m \<and> (case r of Inl a' \<Rightarrow> I a' \<and> 1 \<le> c | Inr b \<Rightarrow> Q b))"
  shows "I a \<Longrightarrow> p_ok src m p \<Longrightarrow> length (p_tokens p) - p_cursor p < n \<Longrightarrow>
    (\<exists>d. loop_fuel n body a p = Err (PfError d)) \<or>
    (\<exists>b p' c. loop_fuel n body a p = Ok (b, p') \<and> p_ok src m p' \<and> p_tokens p' = p_tokens p \<and>
       p_cursor p' = p_cursor p + c \<and> Q b)"
proof (induction n arbitrary: a p)
  case (Suc n)
  from body [OF Suc.prems(1)] Suc.prems(2) show ?case
  proof (cases rule: wp_cases)
    case (ok r p1 c m1)
    show ?thesis
    proof (cases r)
      case (Inl a1)
      have "length (p_tokens p1) - p_cursor p1 < n"
        using ok Inl Suc.prems(2,3) by (auto simp: p_ok_def)
      then have "(\<exists>d. loop_fuel n body a1 p1 = Err (PfError d)) \<or>
          (\<exists>b p' c. loop_fuel n body a1 p1 = Ok (b, p') \<and> p_ok src m p' \<and> p_tokens p' = p_tokens p1 \<and>
             p_cursor p' = p_cursor p1 + c \<and> Q b)"
        using ok Inl by (intro Suc.IH) auto
      then show ?thesis using ok Inl by (auto simp: add.assoc)
    next
      case (Inr b)
      then show ?thesis using ok by auto
    qed
  qed auto
qed simp

lemma wp_loop:
  assumes "I a"
    and "\<And>a. I a \<Longrightarrow> wp src m (body a) (\<lambda>r c m'. m' = m \<and> (case r of Inl a' \<Rightarrow> I a' \<and> 1 \<le> c | Inr b \<Rightarrow> Q b))"
    and "\<And>b c. Q b \<Longrightarrow> P b c m"
  shows "wp src m (ploop body a) P"
proof (rule wpI)
  fix p assume "p_ok src m p"
  then have "(\<exists>d. loop_fuel (Suc (length (p_tokens p) - p_cursor p)) body a p = Err (PfError d)) \<or>
      (\<exists>b p' c. loop_fuel (Suc (length (p_tokens p) - p_cursor p)) body a p = Ok (b, p') \<and> p_ok src m p' \<and>
         p_tokens p' = p_tokens p \<and> p_cursor p' = p_cursor p + c \<and> Q b)"
    by (intro wp_loop_fuel [where I = I, OF assms(2) assms(1)]) auto
  then show "(\<exists>d. ploop body a p = Err (PfError d)) \<or>
      (\<exists>b p' c m'. ploop body a p = Ok (b, p') \<and> p_ok src m' p' \<and> p_tokens p' = p_tokens p \<and>
         p_cursor p' = p_cursor p + c \<and> P b c m')"
    using assms(3) unfolding ploop_def by blast
qed

text \<open>A loop of which only termination is asked.\<close>

lemma wp_loop_any:
  assumes "\<And>a. wp src m (body a) (\<lambda>r c m'. m' = m \<and> (\<forall>a'. r = Inl a' \<longrightarrow> 1 \<le> c))"
    and "\<And>b c. P b c m"
  shows "wp src m (ploop body a) P"
proof (rule wp_loop [where I = "\<lambda>_. True" and Q = "\<lambda>_. True"])
  fix a
  from assms(1) [of a]
  show "wp src m (body a) (\<lambda>r c m'. m' = m \<and> (case r of Inl a' \<Rightarrow> True \<and> 1 \<le> c | Inr b \<Rightarrow> True))"
    by (rule wp_mono) (auto split: sum.split)
qed (simp_all add: assms(2))

end
