(* ===== verification/Parser_Correct.thy ===== *)
theory Parser_Correct
  imports Parser_Rules
begin

text \<open>
  What the parser promises. Run on the tokens of the lexer it never indexes past them, never joins spans of
  different sources and never pops an empty scope stack, every loop ends, and the trees it
  returns are at most \<^const>\<open>MAX_NESTING\<close> levels deep, which is what the recursive passes
  after it rely on.
\<close>

section \<open>Contracts\<close>

text \<open>A parse of expressions of fewer than \<open>d\<close> levels below the root, that consumes tokens.\<close>

definition good_expr :: "nat \<Rightarrow> nat \<Rightarrow> expr parse \<Rightarrow> bool" where
  "good_expr src d f \<longleftrightarrow>
     (\<forall>m. wp src m f (\<lambda>e c m'. m' = m \<and> 1 \<le> c \<and> of_source src (expr_span e) \<and> expr_depth e < d))"

lemma good_exprI:
  "(\<And>m. wp src m f (\<lambda>e c m'. m' = m \<and> 1 \<le> c \<and> of_source src (expr_span e) \<and> expr_depth e < d)) \<Longrightarrow>
   good_expr src d f"
  by (simp add: good_expr_def)

lemma wp_good_expr:
  assumes "good_expr src d f"
    and "\<And>e c. 1 \<le> c \<Longrightarrow> of_source src (expr_span e) \<Longrightarrow> expr_depth e < d \<Longrightarrow> P e c m"
  shows "wp src m f P"
  using assms(1) [unfolded good_expr_def, rule_format, of m] by (rule wp_mono) (use assms(2) in blast)

lemma good_expr_error: "good_expr src d nesting_error"
  by (rule good_exprI) (rule wp_rules)

lemma wp_binary:
  assumes "room \<le> MAX_NESTING" and "of_source src (expr_span l)" and "of_source src (expr_span r)"
    and "\<And>e. of_source src (expr_span e) \<Longrightarrow> expr_depth e < Suc room \<Longrightarrow> P e 0 m"
  shows "wp src m (pbinary room l op r) P"
  unfolding pbinary_def using assms by (auto intro!: wp_rules)

lemma wp_take_operator:
  "\<forall>(kind, op) \<in> set ops. kind \<noteq> TkEof \<Longrightarrow> P None 0 m \<Longrightarrow> (\<And>op. P (Some op) 1 m) \<Longrightarrow>
   wp src m (take_operator ops) P"
proof (induction ops)
  case (Cons x ops)
  then show ?case by (cases x) (auto intro!: wp_rules)
qed (auto intro: wp_rules)

lemma good_operator_chain:
  assumes good: "good_expr src (Suc room) f" and room: "room \<le> MAX_NESTING" and ops: "\<forall>(kind, op) \<in> set ops. kind \<noteq> TkEof"
  shows "good_expr src (Suc room) (operator_chain room ops f)"
proof (rule good_exprI)
  fix m
  have turn: "wp src m (pbind (take_operator ops) (\<lambda>op. case op of
         None \<Rightarrow> preturn (Inr left)
       | Some op \<Rightarrow> pbind f (\<lambda>right. pbind (pbinary room left op right) (\<lambda>e. preturn (Inl e)))))
      (\<lambda>r c m'. m' = m \<and> (case r of Inl e \<Rightarrow> (of_source src (expr_span e) \<and> expr_depth e < Suc room) \<and> 1 \<le> c
         | Inr e \<Rightarrow> of_source src (expr_span e) \<and> expr_depth e < Suc room))"
    if "of_source src (expr_span left) \<and> expr_depth left < Suc room" for left
    using that room ops by (auto intro!: wp_rules wp_take_operator wp_good_expr [OF good] wp_binary)
  show "wp src m (operator_chain room ops f)
     (\<lambda>e c m'. m' = m \<and> 1 \<le> c \<and> of_source src (expr_span e) \<and> expr_depth e < Suc room)"
    unfolding operator_chain_def
    by (rule wp_bind, rule wp_good_expr [OF good])
       (rule wp_loop [where I = "\<lambda>e. of_source src (expr_span e) \<and> expr_depth e < Suc room", OF _ turn], auto)
qed

lemma good_logical_or:
  assumes "good_expr src (Suc room) f" and "room \<le> MAX_NESTING"
  shows "good_expr src (Suc room) (logical_or room f)"
  unfolding logical_or_def logical_and_def equality_def comparison_def pterm_def factor_def
  by (intro good_operator_chain assms) auto

text \<open>Below, \<open>room\<close> levels are left and nested expressions are parsed by \<open>f\<close>.\<close>

lemma wp_expression_list:
  assumes "good_expr src d f" and "closing \<noteq> TkEof" and "\<And>es c. P es c m"
  shows "wp src m (expression_list f closing trailing) P"
  unfolding expression_list_def
  by (auto intro!: wp_rules wp_loop_any wp_good_expr [OF assms(1)] assms(3))

lemma wp_arguments:
  assumes "good_expr src d f" and "\<And>es s c. of_source src s \<Longrightarrow> P (es, s) c m"
  shows "wp src m (arguments f) P"
  unfolding arguments_def using assms(2) by (auto intro!: wp_rules wp_expression_list [OF assms(1)])

lemma wp_array_literal:
  assumes "good_expr src d f" and "room \<le> MAX_NESTING" and "of_source src start"
    and "\<And>e c. of_source src (expr_span e) \<Longrightarrow> expr_depth e \<le> room \<Longrightarrow> P e c m"
  shows "wp src m (array_literal room f start) P"
  unfolding array_literal_def using assms(2-) by (auto intro!: wp_rules wp_expression_list [OF assms(1)])

lemma wp_conversion:
  assumes "good_expr src d f" and "room \<le> MAX_NESTING" and "of_source src (token_span token)"
    and "\<And>e c. of_source src (expr_span e) \<Longrightarrow> expr_depth e \<le> room \<Longrightarrow> P e c m"
  shows "wp src m (conversion room f token) P"
  unfolding conversion_def Let_def using assms(2-) by (auto intro!: wp_rules wp_arguments [OF assms(1)])

lemma wp_field_initializers:
  assumes "good_expr src d f" and "\<And>fs c. P fs c m"
  shows "wp src m (field_initializers f) P"
  unfolding field_initializers_def
  by (rule wp_loop_any) (auto intro!: wp_rules wp_good_expr [OF assms(1)] assms(2))

lemma wp_looks_like_struct_literal:
  "(\<And>b. P b 0 m) \<Longrightarrow> wp src m (looks_like_struct_literal name) P"
  by (rule wpI) (auto simp: looks_like_struct_literal_def pbind_def pat_def pcurrent_def preturn_def, auto simp: p_ok_def)

lemma wp_struct_literal:
  assumes "good_expr src d f" and "room \<le> MAX_NESTING" and "of_source src start"
    and "\<And>e c. of_source src (expr_span e) \<Longrightarrow> expr_depth e \<le> room \<Longrightarrow> P e c m"
  shows "wp src m (struct_literal room f name start) P"
  unfolding struct_literal_def using assms(2-) by (auto intro!: wp_rules wp_field_initializers [OF assms(1)])

lemma wp_named_expression:
  assumes "good_expr src d f" and "room \<le> MAX_NESTING" and "of_source src start"
    and "\<And>e c. of_source src (expr_span e) \<Longrightarrow> expr_depth e \<le> room \<Longrightarrow> P e c m"
  shows "wp src m (named_expression room f name start) P"
  unfolding named_expression_def using assms(2-)
  by (auto intro!: wp_rules wp_looks_like_struct_literal wp_struct_literal [OF assms(1)] wp_arguments [OF assms(1)])

text \<open>A parenthesized expression keeps its tree, and so its depth.\<close>

lemma expr_depth_span [simp]: "expr_depth (Expr (expr_kind e) s) = expr_depth e"
  by (subst (1 2) expr_depth.simps) (simp add: expr_children_def)

lemma wp_parenthesized:
  assumes "good_expr src (Suc room) f" and "of_source src start"
    and "\<And>e c. of_source src (expr_span e) \<Longrightarrow> expr_depth e \<le> room \<Longrightarrow> P e c m"
  shows "wp src m (parenthesized f start) P"
  unfolding parenthesized_def using assms(2-) by (auto intro!: wp_rules wp_good_expr [OF assms(1)])

lemma good_primary:
  assumes "good_expr src (Suc room) f" and "room \<le> MAX_NESTING"
  shows "good_expr src (Suc room) (primary room f)"
proof (rule good_exprI)
  fix m :: nat
  let ?post = "\<lambda>e c m'. m' = m \<and> 1 \<le> c \<and> of_source src (expr_span e) \<and> expr_depth e < Suc room"
  show "wp src m (primary room f) ?post"
    unfolding primary_def
    by (rule wp_bind, rule wp_advance_token)
       (auto split!: token_kind.split intro!: wp_rules assms(2) wp_array_literal [OF assms(1)] wp_conversion [OF assms(1)]
          wp_named_expression [OF assms(1)] wp_parenthesized [OF assms(1)])
qed

lemma good_postfix:
  assumes good: "good_expr src (Suc room) f" and room: "room \<le> MAX_NESTING"
  shows "good_expr src (Suc room) (postfix room f)"
proof (rule good_exprI)
  fix m :: nat
  let ?I = "\<lambda>e. of_source src (expr_span e) \<and> expr_depth e \<le> room"
  show "wp src m (postfix room f) (\<lambda>e c m'. m' = m \<and> 1 \<le> c \<and> of_source src (expr_span e) \<and> expr_depth e < Suc room)"
    unfolding postfix_def
    apply (rule wp_bind, rule wp_good_expr [OF good_primary [OF good room]])
    apply (rule wp_loop [where I = ?I and Q = ?I])
      apply (auto simp: index_suffix_def field_suffix_def intro!: wp_rules wp_good_expr [OF good] room)
    done
qed

lemma good_unary_with:
  assumes operand: "good_expr src d g" and good: "good_expr src (Suc room) f" and room: "room \<le> MAX_NESTING"
  shows "good_expr src (Suc room) (unary_with room g f)"
proof (rule good_exprI)
  fix m :: nat
  show "wp src m (unary_with room g f) (\<lambda>e c m'. m' = m \<and> 1 \<le> c \<and> of_source src (expr_span e) \<and> expr_depth e < Suc room)"
    unfolding unary_with_def using room
    by (auto intro!: wp_rules wp_take_operator wp_good_expr [OF operand] wp_good_expr [OF good_postfix [OF good]])
qed

lemma good_expression_parsers:
  "n \<le> MAX_NESTING \<Longrightarrow> good_expr src n (pexpression n) \<and> good_expr src (Suc n) (punary n)"
proof (induction n)
  case 0
  show ?case
    unfolding pexpression_eqs by (intro conjI good_unary_with [of _ 0] good_expr_error) simp
next
  case (Suc n)
  have e: "good_expr src (Suc n) (pexpression (Suc n))"
    unfolding pexpression_eqs using Suc by (intro good_logical_or) auto
  have "good_expr src (Suc (Suc n)) f" if "good_expr src (Suc n) f" for f :: "expr parse"
    by (rule good_exprI) (rule wp_good_expr [OF that], simp)
  then have "good_expr src (Suc (Suc n)) (punary (Suc n))"
    unfolding pexpression_eqs(4) using Suc e by (intro good_unary_with [of _ "Suc n"]) auto
  with e show ?case by simp
qed

lemma wp_expression [wp_rules]:
  "n \<le> MAX_NESTING \<Longrightarrow>
   (\<And>e c. 1 \<le> c \<Longrightarrow> of_source src (expr_span e) \<Longrightarrow> expr_depth e < n \<Longrightarrow> P e c m) \<Longrightarrow> wp src m (pexpression n) P"
  by (rule wp_good_expr [OF good_expression_parsers [THEN conjunct1]])

section \<open>Types\<close>

fun type_height :: "value_type \<Rightarrow> nat" where
  "type_height (VtArray element len) = Suc (type_height element)"
| "type_height _ = 0"

lemma wp_array_length [wp_rules]: "(\<And>l c. P l c m) \<Longrightarrow> wp src m parse_array_length P"
  unfolding parse_array_length_def array_length_literal_def
  by (auto split!: token_kind.split intro!: wp_rules)

lemma wp_value_type [wp_rules]:
  "(\<And>ty c. type_height ty < n \<Longrightarrow> P ty c m) \<Longrightarrow> wp src m (parse_value_type n) P"
proof (induction n arbitrary: P)
  case 0
  show ?case unfolding parse_value_type_eqs by (rule wp_rules)
next
  case (Suc n)
  show ?case unfolding parse_value_type_eqs value_type_with_def array_type_def
    by (rule wp_bind, rule wp_advance_token) (auto split!: token_kind.split intro!: wp_rules Suc.IH Suc.prems)
qed

lemma wp_return_type [wp_rules]:
  "(\<And>rt c. (case rt of RtValue ty \<Rightarrow> type_height ty < n | RtVoid \<Rightarrow> True) \<Longrightarrow> P rt c m) \<Longrightarrow> wp src m (parse_return_type n) P"
  unfolding parse_return_type_def by (auto intro!: wp_rules)

section \<open>Statements\<close>

text \<open>A statement fits when its types, expressions and blocks nest less than the levels left.\<close>

fun stmt_fits :: "nat \<Rightarrow> stmt \<Rightarrow> bool" and kind_fits :: "nat \<Rightarrow> stmt_kind \<Rightarrow> bool" where
  "stmt_fits n (Stmt k s) = kind_fits n k"
| "kind_fits n (StLet name ty e) = (type_height ty < n \<and> expr_depth e < n)"
| "kind_fits n (StAssign t op e) = (expr_depth t < n \<and> expr_depth e < n)"
| "kind_fits n (StExpr e) = (expr_depth e < n)"
| "kind_fits n (StIf c a b) =
     (expr_depth c < n \<and> 0 < n \<and> list_all (stmt_fits (n - 1)) a \<and>
      (case b of None \<Rightarrow> True | Some b \<Rightarrow> list_all (stmt_fits (n - 1)) b))"
| "kind_fits n (StWhile c b) = (expr_depth c < n \<and> 0 < n \<and> list_all (stmt_fits (n - 1)) b)"
| "kind_fits n (StFor name s l u b) =
     (expr_depth l < n \<and> expr_depth u < n \<and> 0 < n \<and> list_all (stmt_fits (n - 1)) b)"
| "kind_fits n (StReturn e) = (case e of None \<Rightarrow> True | Some e \<Rightarrow> expr_depth e < n)"

definition block_fits :: "nat \<Rightarrow> block \<Rightarrow> bool" where
  "block_fits n b \<longleftrightarrow> 0 < n \<and> list_all (stmt_fits (n - 1)) b"

definition good_block :: "nat \<Rightarrow> nat \<Rightarrow> (block \<times> span) parse \<Rightarrow> bool" where
  "good_block src n f \<longleftrightarrow>
     (\<forall>m. wp src m f (\<lambda>(b, s) c m'. m' = m \<and> 1 \<le> c \<and> of_source src s \<and> block_fits n b))"

lemma wp_good_block:
  assumes "good_block src n f"
    and "\<And>b s c. 1 \<le> c \<Longrightarrow> of_source src s \<Longrightarrow> block_fits n b \<Longrightarrow> P (b, s) c m"
  shows "wp src m f P"
  using assms(1) [unfolded good_block_def, rule_format, of m] by (rule wp_mono) (use assms(2) in auto)

lemma wp_assign_operator:
  "(\<And>b. P b 0 m) \<Longrightarrow> wp src m at_assignment_operator P"
  unfolding at_assignment_operator_def by (auto intro!: wp_rules)

lemma wp_block_with_bindings:
  assumes "good_block src n f"
    and "\<And>b s c. 1 \<le> c \<Longrightarrow> of_source src s \<Longrightarrow> block_fits n b \<Longrightarrow> P (b, s) c m"
  shows "wp src m (block_with_bindings f names) P"
  unfolding block_with_bindings_def by (auto intro!: wp_rules wp_good_block [OF assms(1)] assms(2))

definition good_stmt :: "nat \<Rightarrow> nat \<Rightarrow> nat \<Rightarrow> stmt parse \<Rightarrow> bool" where
  "good_stmt src n m f \<longleftrightarrow> wp src m f (\<lambda>s c m'. m' = m \<and> 1 \<le> c \<and> stmt_fits n s)"

lemma wp_good_stmt:
  assumes "good_stmt src n m f" and "\<And>s c. 1 \<le> c \<Longrightarrow> stmt_fits n s \<Longrightarrow> P s c m"
  shows "wp src m f P"
  using assms(1) [unfolded good_stmt_def] by (rule wp_mono) (use assms(2) in blast)

lemma good_let: "n \<le> MAX_NESTING \<Longrightarrow> 0 < m \<Longrightarrow> good_stmt src n m (let_statement n)"
  unfolding good_stmt_def let_statement_def by (auto intro!: wp_rules split: option.split)

lemma wp_assignment:
  assumes "n \<le> MAX_NESTING" and "of_source src (expr_span t)" and "expr_depth t < n"
    and "\<And>s c. stmt_fits n s \<Longrightarrow> P s c m"
  shows "wp src m (assignment_statement n t) P"
  unfolding assignment_statement_def using assms
  by (intro wp_bind [OF wp_advance_token]) (auto intro!: wp_rules split!: option.split)

lemma good_return: "n \<le> MAX_NESTING \<Longrightarrow> good_stmt src n m (return_statement n)"
  unfolding good_stmt_def return_statement_def by (auto intro!: wp_rules split: option.split)

lemma good_expression_statement: "n \<le> MAX_NESTING \<Longrightarrow> good_stmt src n m (expression_statement n)"
  unfolding good_stmt_def expression_statement_def
  by (auto intro!: wp_rules wp_assign_operator wp_assignment split: option.split)

lemma good_if:
  assumes "n \<le> MAX_NESTING" and "good_block src n f"
  shows "good_stmt src n m (if_statement n f)"
  unfolding good_stmt_def if_statement_def using assms(1)
  by (auto intro!: wp_rules wp_good_block [OF assms(2)] simp: block_fits_def)

lemma good_while:
  assumes "n \<le> MAX_NESTING" and "good_block src n f"
  shows "good_stmt src n m (while_statement n f)"
  unfolding good_stmt_def while_statement_def using assms(1)
  by (auto intro!: wp_rules wp_good_block [OF assms(2)] simp: block_fits_def)

lemma good_for:
  assumes "n \<le> MAX_NESTING" and "good_block src n f"
  shows "good_stmt src n m (for_statement n f)"
  unfolding good_stmt_def for_statement_def using assms(1)
  by (auto intro!: wp_rules wp_block_with_bindings [OF assms(2)] simp: block_fits_def)

lemma good_statement:
  assumes "n \<le> MAX_NESTING" and "good_block src n f" and "0 < m"
  shows "good_stmt src n m (statement n f)"
  unfolding good_stmt_def statement_def
  by (auto intro!: wp_rules wp_good_stmt [OF good_let] wp_good_stmt [OF good_if] wp_good_stmt [OF good_while]
        wp_good_stmt [OF good_for] wp_good_stmt [OF good_return] wp_good_stmt [OF good_expression_statement] assms)

lemma wp_statements:
  assumes "good_stmt src n m f" and "\<And>b c. list_all (stmt_fits n) b \<Longrightarrow> P b c m"
  shows "wp src m (statements f) P"
  unfolding statements_def
  by (rule wp_loop [where I = "list_all (stmt_fits n)" and Q = "list_all (stmt_fits n)"])
     (auto intro!: wp_rules wp_good_stmt [OF assms(1)] assms(2))

lemma good_pblock: "n \<le> MAX_NESTING \<Longrightarrow> good_block src n (pblock n)"
proof (induction n)
  case 0
  show ?case unfolding pblock_eqs good_block_def by (auto intro: wp_rules)
next
  case (Suc n)
  then have "good_stmt src n (Suc m) (statement n (pblock n))" for m by (intro good_statement) auto
  then show ?case unfolding pblock_eqs good_block_def block_contents_def
    by (auto intro!: wp_rules wp_statements simp: block_fits_def)
qed

section \<open>Declarations\<close>

definition type_fits :: "value_type \<Rightarrow> bool" where
  "type_fits ty \<longleftrightarrow> type_height ty < MAX_NESTING"

definition expr_fits :: "expr \<Rightarrow> bool" where
  "expr_fits e \<longleftrightarrow> expr_depth e < MAX_NESTING"

definition return_fits :: "return_type \<Rightarrow> bool" where
  "return_fits rt \<longleftrightarrow> (case rt of RtValue ty \<Rightarrow> type_fits ty | RtVoid \<Rightarrow> True)"

definition function_fits :: "function_decl \<Rightarrow> bool" where
  "function_fits f \<longleftrightarrow>
     list_all (\<lambda>p. type_fits (param_ty p)) (function_params f) \<and>
     return_fits (function_return_type f) \<and>
     block_fits MAX_NESTING (function_body f)"

definition program_fits :: "program \<Rightarrow> bool" where
  "program_fits prog \<longleftrightarrow>
     resolution_valid (program_resolution prog) \<and>
     list_all (\<lambda>d. list_all (\<lambda>f. type_fits (field_ty f)) (struct_fields d)) (program_structs prog) \<and>
     list_all (\<lambda>c. type_fits (constant_ty c) \<and> expr_fits (constant_init c) \<and> constant_val c = None) (program_constants prog) \<and>
     list_all (\<lambda>g. type_fits (global_ty g) \<and> expr_fits (global_init g) \<and> global_val g = None) (program_globals prog) \<and>
     list_all function_fits (program_functions prog)"

lemma wp_type_fits [wp_rules]:
  "(\<And>ty c. type_fits ty \<Longrightarrow> P ty c m) \<Longrightarrow> wp src m (parse_value_type MAX_NESTING) P"
  by (rule wp_value_type) (simp add: type_fits_def)

lemma wp_return_fits [wp_rules]:
  "(\<And>rt c. return_fits rt \<Longrightarrow> P rt c m) \<Longrightarrow> wp src m (parse_return_type MAX_NESTING) P"
  by (rule wp_return_type) (simp add: return_fits_def type_fits_def split: return_type.splits)

lemma wp_expr_fits [wp_rules]:
  "(\<And>e c. 1 \<le> c \<Longrightarrow> of_source src (expr_span e) \<Longrightarrow> expr_fits e \<Longrightarrow> P e c m) \<Longrightarrow> wp src m (pexpression MAX_NESTING) P"
  by (rule wp_expression) (simp_all add: expr_fits_def)

lemma wp_top_block [wp_rules]:
  "(\<And>b s c. of_source src s \<Longrightarrow> block_fits MAX_NESTING b \<Longrightarrow> P (b, s) c m) \<Longrightarrow> wp src m (top_block names) P"
  unfolding top_block_def by (rule wp_block_with_bindings [OF good_pblock]) simp_all

lemma wp_sound:
  assumes "\<And>s c. 1 \<le> c \<Longrightarrow> P (h s) c m" and "wp src m g P"
  shows "wp src m (pif at_sound_declaration (pbind parse_sound (\<lambda>s. preturn (h s))) g) P"
proof -
  have kind: "at_sound_declaration = pkind (\<lambda>k. k = TkIdentifier ''sound'')"
    by (simp add: at_sound_declaration_def pat_word_def pkind_def)
  show ?thesis
    unfolding kind parse_sound_def using assms
    by (intro wp_take_kind_bind) (auto intro!: wp_rules split!: token_kind.split split: option.split)
qed

lemma wp_resolution_dimension [wp_rules]:
  "(\<And>d c. P d c m) \<Longrightarrow> wp src m (resolution_dimension name) P"
  unfolding resolution_dimension_def by (auto split!: token_kind.split intro!: wp_rules)

lemma wp_resolution [wp_rules]:
  assumes "\<And>r c. resolution_valid r \<Longrightarrow> P r c m"
  shows "wp src m parse_resolution P"
  unfolding parse_resolution_def using assms
  by (auto intro!: wp_rules split!: sum.split simp: resolution_new_Ok)

lemma wp_import [wp_rules]: "(\<And>i c. 1 \<le> c \<Longrightarrow> P i c m) \<Longrightarrow> wp src m parse_import P"
  unfolding parse_import_def by (auto intro!: wp_rules split!: token_kind.split)

lemma wp_struct_fields [wp_rules]:
  "(\<And>fs c. list_all (\<lambda>f. type_fits (field_ty f)) fs \<Longrightarrow> P fs c m) \<Longrightarrow> wp src m struct_fields_loop P"
  unfolding struct_fields_loop_def
  by (rule wp_loop [where I = "list_all (\<lambda>f. type_fits (field_ty f))" and Q = "list_all (\<lambda>f. type_fits (field_ty f))"])
     (auto intro!: wp_rules)

lemma wp_struct [wp_rules]:
  "(\<And>d c. 1 \<le> c \<Longrightarrow> list_all (\<lambda>f. type_fits (field_ty f)) (struct_fields d) \<Longrightarrow> P d c m) \<Longrightarrow> wp src m parse_struct P"
  unfolding parse_struct_def by (auto intro!: wp_rules)

lemma wp_typed_initializer [wp_rules]:
  "(\<And>name ty init s c. of_source src s \<Longrightarrow> type_fits ty \<Longrightarrow> expr_fits init \<Longrightarrow> P (name, ty, init, s) c m) \<Longrightarrow>
   wp src m (typed_initializer a b d) P"
  unfolding typed_initializer_def by (auto intro!: wp_rules split: option.split)

lemma wp_constant [wp_rules]:
  "(\<And>d c. 1 \<le> c \<Longrightarrow> type_fits (constant_ty d) \<Longrightarrow> expr_fits (constant_init d) \<Longrightarrow> constant_val d = None \<Longrightarrow> P d c m) \<Longrightarrow>
   wp src m parse_constant P"
  unfolding parse_constant_def by (auto intro!: wp_rules)

lemma wp_global [wp_rules]:
  "(\<And>d c. 1 \<le> c \<Longrightarrow> type_fits (global_ty d) \<Longrightarrow> expr_fits (global_init d) \<Longrightarrow> global_val d = None \<Longrightarrow> P d c m) \<Longrightarrow>
   wp src m parse_global P"
  unfolding parse_global_def by (auto intro!: wp_rules)

lemma wp_special_function:
  "of_source src (token_span start) \<Longrightarrow> list_all (\<lambda>p. type_fits (param_ty p)) params \<Longrightarrow>
   (\<And>f c. function_fits f \<Longrightarrow> P f c m) \<Longrightarrow> wp src m (special_function name kind params start) P"
  unfolding special_function_def by (auto intro!: wp_rules simp: function_fits_def return_fits_def)

lemma wp_special_functions [wp_rules]:
  assumes "\<And>f c. 1 \<le> c \<Longrightarrow> function_fits f \<Longrightarrow> P f c m"
  shows "wp src m parse_start P" and "wp src m parse_draw P" and "wp src m parse_update P"
  unfolding parse_start_def parse_draw_def parse_update_def using assms
  by (auto intro!: wp_rules wp_special_function)

lemma wp_params [wp_rules]:
  "(\<And>ps c. list_all (\<lambda>p. type_fits (param_ty p)) ps \<Longrightarrow> P ps c m) \<Longrightarrow> wp src m parse_params P"
  unfolding parse_params_def
  by (auto intro!: wp_rules
        wp_loop [where I = "list_all (\<lambda>p. type_fits (param_ty p))" and Q = "list_all (\<lambda>p. type_fits (param_ty p))"]
        simp: Let_def)

lemma wp_named_function [wp_rules]:
  "(\<And>f c. 1 \<le> c \<Longrightarrow> function_fits f \<Longrightarrow> P f c m) \<Longrightarrow> wp src m parse_named_function P"
  unfolding parse_named_function_def
  by (auto intro!: wp_rules simp: function_fits_def)

section \<open>Files\<close>

lemma program_fits_add:
  assumes "program_fits prog"
  shows "list_all (\<lambda>f. type_fits (field_ty f)) (struct_fields d) \<Longrightarrow>
           program_fits (prog\<lparr>program_structs := program_structs prog @ [d]\<rparr>)"
    and "program_fits (prog\<lparr>program_sounds := ss\<rparr>)"
    and "type_fits (constant_ty c) \<Longrightarrow> expr_fits (constant_init c) \<Longrightarrow> constant_val c = None \<Longrightarrow>
           program_fits (prog\<lparr>program_constants := program_constants prog @ [c]\<rparr>)"
    and "type_fits (global_ty g) \<Longrightarrow> expr_fits (global_init g) \<Longrightarrow> global_val g = None \<Longrightarrow>
           program_fits (prog\<lparr>program_globals := program_globals prog @ [g]\<rparr>)"
    and "function_fits f \<Longrightarrow> program_fits (add_function prog f)"
  using assms by (simp_all add: program_fits_def add_function_def)

lemma wp_declaration_item:
  assumes fits: "program_fits prog" and post: "\<And>prog c. program_fits prog \<Longrightarrow> 1 \<le> c \<Longrightarrow> P prog c m"
  shows "wp src m (declaration_item prog) P"
  unfolding declaration_item_def
  by (intro wp_sound wp_pif [OF wp_pat] conjI impI)
     (auto intro!: wp_rules post program_fits_add [OF fits] fits)

lemma wp_game_header [wp_rules]:
  "(\<And>t s r c. resolution_valid r \<Longrightarrow> P (t, s, r) c m) \<Longrightarrow> wp src m game_header P"
  unfolding game_header_def at_resolution_def pat_word_def
  by (auto simp: resolution_default_valid intro!: wp_rules split!: token_kind.split)

lemma wp_file_header [wp_rules]:
  "(\<And>t s r c. resolution_valid r \<Longrightarrow> P (t, s, r) c m) \<Longrightarrow> wp src m (file_header root) P"
  unfolding file_header_def by (auto simp: resolution_default_valid intro!: wp_rules)

lemma wp_program_items:
  assumes "program_fits prog" and "\<And>prog c. program_fits prog \<Longrightarrow> P prog c m"
  shows "wp src m (program_items root prog) P"
  unfolding program_items_def
  by (rule wp_loop [where I = program_fits and Q = program_fits])
     (auto intro!: wp_rules wp_declaration_item assms simp: at_resolution_def pat_word_def)

lemma wp_parser_run:
  "wp src m (parser_run root) (\<lambda>prog c m'. program_fits prog)"
  unfolding parser_run_def
  by (auto intro!: wp_rules wp_program_items simp: program_fits_def)

lemma wp_import_step:
  "wp src m (import_step st) (\<lambda>r c m'. m' = m \<and> (\<forall>a'. r = Inl a' \<longrightarrow> 1 \<le> c))" (is "wp src m _ ?post")
proof (rule wpI)
  fix p assume p: "p_ok src m p"
  then have at: "p_cursor p < length (p_tokens p)" by (simp add: p_ok_def)
  obtain depth found where st: "st = (depth, found)" by (cases st)
  let ?t = "p_tokens p ! p_cursor p"
  have imp: "wp src m (pbind parse_import (\<lambda>i. preturn (Inl (depth, found @ [i])))) ?post"
    by (auto intro!: wp_rules)
  show "(\<exists>d. import_step st p = Err (PfError d)) \<or>
      (\<exists>a p' c m'. import_step st p = Ok (a, p') \<and> p_ok src m' p' \<and> p_tokens p' = p_tokens p \<and>
         p_cursor p' = p_cursor p + c \<and> ?post a c m')"
  proof (cases "token_kind ?t = TkImport \<and> depth = 0")
    case True
    then have "import_step st p = pbind parse_import (\<lambda>i. preturn (Inl (depth, found @ [i]))) p"
      using at by (simp add: st import_step_def pif_def pbind_def pat_def pcurrent_def preturn_def)
    then show ?thesis using imp p unfolding wp_def by simp
  next
    case False
    then show ?thesis
      using at p advance_inside [OF p]
      by (cases "token_kind ?t = TkEof")
         (auto simp: st import_step_def pif_def pbind_def pat_def pcurrent_def preturn_def padvance_def)
  qed
qed

text \<open>What the public functions return on tokens of one source.\<close>

lemma p_ok_new: "tokens_ok src tokens \<Longrightarrow> p_ok src 0 (parser_new tokens)"
  by (simp add: p_ok_def parser_new_def tokens_ok_def)

lemma parse_file_fits:
  assumes "tokens_ok src tokens"
  shows "(\<exists>ds. parse_file tokens root names = Some (Err ds)) \<or>
    (\<exists>prog. parse_file tokens root names = Some (Ok prog) \<and> program_fits prog)"
proof -
  have "p_ok src 0 (parser_new tokens\<lparr>p_struct_names := names @ p_struct_names (parser_new tokens)\<rparr>)"
    using p_ok_new [OF assms] by (simp add: p_ok_def)
  from wp_parser_run [of src 0 root] this show ?thesis
    by (cases rule: wp_cases) (auto simp: parse_file_def parse_result_def Let_def)
qed

lemma import_headers_total:
  assumes "tokens_ok src tokens"
  shows "\<exists>r. import_headers tokens = Some r"
proof -
  have "wp src 0 (ploop import_step (0, [])) (\<lambda>_ _ _. True)"
    by (rule wp_loop_any [OF wp_import_step]) simp
  from this p_ok_new [OF assms] show ?thesis
    by (cases rule: wp_cases) (auto simp: import_headers_def parse_result_def)
qed

end
