(* ===== verification/Lexer_Correct.thy ===== *)
theory Lexer_Correct
  imports Lexer
begin

text \<open>
  What the lexer promises. \<open>covers\<close> is the specification of a token list for a source: each
  token starts where the white space and comments after the previous one end, its text spells it,
  and it is maximal, that is, what follows cannot extend it; after the last token nothing but white
  space and comments is left. The lexer never panics on valid UTF-8, its token lists satisfy
  \<open>covers\<close>, and printing tokens and lexing the text gives the tokens back.
\<close>

section \<open>The specification\<close>

definition spelling :: "token_kind \<Rightarrow> string" where
  "spelling k =
     (case k of
        TkIdentifier name \<Rightarrow> name
   | TkString value \<Rightarrow> quote # value @ [quote]
   | TkInteger value \<Rightarrow> show_nat (nat value)
   | TkFloat _ \<Rightarrow> []
   | TkEof \<Rightarrow> []
   | TkGame \<Rightarrow> ''game''
   | TkImport \<Rightarrow> ''import''
   | TkAs \<Rightarrow> ''as''
   | TkLet \<Rightarrow> ''let''
   | TkConst \<Rightarrow> ''const''
   | TkStart \<Rightarrow> ''start''
   | TkUpdate \<Rightarrow> ''update''
   | TkDraw \<Rightarrow> ''draw''
   | TkFn \<Rightarrow> ''fn''
   | TkStruct \<Rightarrow> ''struct''
   | TkReturn \<Rightarrow> ''return''
   | TkIf \<Rightarrow> ''if''
   | TkElse \<Rightarrow> ''else''
   | TkWhile \<Rightarrow> ''while''
   | TkFor \<Rightarrow> ''for''
   | TkIn \<Rightarrow> ''in''
   | TkTrue \<Rightarrow> ''true''
   | TkFalse \<Rightarrow> ''false''
   | TkI32 \<Rightarrow> ''i32''
   | TkF32 \<Rightarrow> ''f32''
   | TkBool \<Rightarrow> ''bool''
   | TkVoid \<Rightarrow> ''void''
   | TkLeftParen \<Rightarrow> ''(''
   | TkRightParen \<Rightarrow> '')''
   | TkLeftBrace \<Rightarrow> ''{''
   | TkRightBrace \<Rightarrow> ''}''
   | TkLeftBracket \<Rightarrow> ''[''
   | TkRightBracket \<Rightarrow> '']''
   | TkDot \<Rightarrow> ''.''
   | TkDotDot \<Rightarrow> ''..''
   | TkColon \<Rightarrow> '':''
   | TkColonColon \<Rightarrow> ''::''
   | TkComma \<Rightarrow> '',''
   | TkSemicolon \<Rightarrow> '';''
   | TkPlus \<Rightarrow> ''+''
   | TkPlusEqual \<Rightarrow> ''+=''
   | TkMinus \<Rightarrow> ''-''
   | TkMinusEqual \<Rightarrow> ''-=''
   | TkStar \<Rightarrow> ''*''
   | TkStarEqual \<Rightarrow> ''*=''
   | TkSlash \<Rightarrow> ''/''
   | TkSlashEqual \<Rightarrow> ''/=''
   | TkPercent \<Rightarrow> ''%''
   | TkPercentEqual \<Rightarrow> ''%=''
   | TkBang \<Rightarrow> ''!''
   | TkEqual \<Rightarrow> ''=''
   | TkEqualEqual \<Rightarrow> ''==''
   | TkBangEqual \<Rightarrow> ''!=''
   | TkLess \<Rightarrow> ''<''
   | TkLessEqual \<Rightarrow> ''<=''
   | TkGreater \<Rightarrow> ''>''
   | TkGreaterEqual \<Rightarrow> ''>=''
   | TkAndAnd \<Rightarrow> ''&&''
   | TkOrOr \<Rightarrow> ''||''
   | TkArrow \<Rightarrow> ''->'')"

definition is_space :: "char \<Rightarrow> bool" where
  "is_space c \<longleftrightarrow> c = CHR '' '' \<or> c = CHR 0x09 \<or> c = CHR 0x0D \<or> c = newline"

function skip_trivia :: "string \<Rightarrow> string" where
  "skip_trivia s =
     (if s \<noteq> [] \<and> is_space (hd s) then skip_trivia (tl s)
      else if take 2 s = ''//'' then skip_trivia (dropWhile (\<lambda>c. c \<noteq> newline) (drop 2 s))
      else s)"
  by pat_completeness auto
termination
proof (relation "measure length")
  fix s :: string
  assume "take 2 s = ''//''"
  then have "2 \<le> length s" by (cases s; cases "tl s") auto
  then have "length (dropWhile (\<lambda>c. c \<noteq> newline) (drop 2 s)) < length s"
    using length_dropWhile_le [of "\<lambda>c. c \<noteq> newline" "drop 2 s"] by simp
  then show "(dropWhile (\<lambda>c. c \<noteq> newline) (drop 2 s), s) \<in> measure length" by simp
qed (auto simp: length_greater_0_conv)

declare skip_trivia.simps [simp del]

definition is_word :: "string \<Rightarrow> bool" where
  "is_word s \<longleftrightarrow> s \<noteq> [] \<and> is_ident_start (hd s) \<and> list_all is_ident_byte s"

definition is_digits :: "string \<Rightarrow> bool" where
  "is_digits s \<longleftrightarrow> s \<noteq> [] \<and> list_all is_ascii_digit s"

text \<open>The text of a token.\<close>

definition lexeme :: "token_kind \<Rightarrow> string \<Rightarrow> bool" where
  "lexeme k text =
     (case k of
        TkIdentifier name \<Rightarrow> text = name \<and> is_word name \<and> keyword_kind name = k
      | TkString value \<Rightarrow> text = spelling k \<and> list_all (\<lambda>c. c \<noteq> quote \<and> c \<noteq> newline) value
      | TkInteger value \<Rightarrow> is_digits text \<and> digits_value text < 2 ^ 63 \<and> value = int (digits_value text)
      | TkFloat value \<Rightarrow>
          (let whole = takeWhile is_ascii_digit text; fraction = drop (length whole + 1) text
           in text = whole @ ''.'' @ fraction \<and> is_digits whole \<and> is_digits fraction
              \<and> value = f32_parse_decimal whole fraction)
      | TkEof \<Rightarrow> False
      | _ \<Rightarrow> text = spelling k)"

definition next_in :: "string \<Rightarrow> (char \<Rightarrow> bool) \<Rightarrow> bool" where
  "next_in rest p \<longleftrightarrow> rest \<noteq> [] \<and> p (hd rest)"

text \<open>What follows a token does not extend it.\<close>

definition maximal :: "token_kind \<Rightarrow> string \<Rightarrow> bool" where
  "maximal k rest =
     (case k of
        TkIdentifier _ \<Rightarrow> \<not> next_in rest is_ident_byte
      | TkInteger _ \<Rightarrow> \<not> next_in rest is_ascii_digit
          \<and> \<not> (next_in rest (\<lambda>c. c = CHR ''.'') \<and> next_in (tl rest) is_ascii_digit)
      | TkFloat _ \<Rightarrow> \<not> next_in rest is_ascii_digit
      | TkDot \<Rightarrow> \<not> next_in rest (\<lambda>c. c = CHR ''.'')
      | TkColon \<Rightarrow> \<not> next_in rest (\<lambda>c. c = CHR '':'')
      | TkMinus \<Rightarrow> \<not> next_in rest (\<lambda>c. c = CHR ''='' \<or> c = CHR ''>'')
      | TkSlash \<Rightarrow> \<not> next_in rest (\<lambda>c. c = CHR ''='' \<or> c = CHR ''/'')
      | TkPlus \<Rightarrow> \<not> next_in rest (\<lambda>c. c = CHR ''='')
      | TkStar \<Rightarrow> \<not> next_in rest (\<lambda>c. c = CHR ''='')
      | TkPercent \<Rightarrow> \<not> next_in rest (\<lambda>c. c = CHR ''='')
      | TkBang \<Rightarrow> \<not> next_in rest (\<lambda>c. c = CHR ''='')
      | TkEqual \<Rightarrow> \<not> next_in rest (\<lambda>c. c = CHR ''='')
      | TkLess \<Rightarrow> \<not> next_in rest (\<lambda>c. c = CHR ''='')
      | TkGreater \<Rightarrow> \<not> next_in rest (\<lambda>c. c = CHR ''='')
      | _ \<Rightarrow> list_all is_ident_byte (spelling k) \<longrightarrow> spelling k = [] \<or> \<not> next_in rest is_ident_byte)"

definition token_at :: "string \<Rightarrow> nat \<Rightarrow> token \<Rightarrow> bool" where
  "token_at source pos t \<longleftrightarrow>
     (let start = span_start (token_span t); end = span_end (token_span t)
      in span_source (token_span t) = source_default
         \<and> pos \<le> start \<and> start < end \<and> end \<le> length source
         \<and> skip_trivia (drop pos source) = drop start source
         \<and> lexeme (token_kind t) (slice source start end)
         \<and> maximal (token_kind t) (drop end source))"

fun covers_to :: "string \<Rightarrow> nat \<Rightarrow> token list \<Rightarrow> nat \<Rightarrow> bool" where
  "covers_to source pos [] cur \<longleftrightarrow>
     pos \<le> cur \<and> skip_trivia (drop pos source) = skip_trivia (drop cur source)"
| "covers_to source pos (t # ts) cur \<longleftrightarrow>
     token_at source pos t \<and> covers_to source (span_end (token_span t)) ts cur"

definition covers :: "string \<Rightarrow> token list \<Rightarrow> bool" where
  "covers source tokens \<longleftrightarrow>
     tokens \<noteq> []
     \<and> last tokens = \<lparr>token_kind = TkEof, token_span = span_new (length source) (length source)\<rparr>
     \<and> covers_to source 0 (butlast tokens) (length source)"

section \<open>Stepping over trivia and tokens\<close>

lemma skip_trivia_space: "is_space c \<Longrightarrow> skip_trivia (c # s) = skip_trivia s"
  by (simp add: skip_trivia.simps [of "c # s"])

lemma skip_trivia_comment:
  "skip_trivia (CHR ''/'' # CHR ''/'' # s) = skip_trivia (dropWhile (\<lambda>c. c \<noteq> newline) s)"
  by (simp add: skip_trivia.simps [of "CHR ''/'' # CHR ''/'' # s"] is_space_def newline_def)

lemma skip_trivia_Nil [simp]: "skip_trivia [] = []"
  by (simp add: skip_trivia.simps [of "[]"])

lemma skip_trivia_other:
  assumes "s = c # s'" and "\<not> is_space c" and "\<not> (c = CHR ''/'' \<and> next_in s' (\<lambda>c. c = CHR ''/''))"
  shows "skip_trivia s = s"
proof -
  have "take 2 s \<noteq> ''//''"
    using assms(1,3) by (cases s') (auto simp: next_in_def)
  then show ?thesis
    using assms(1,2) by (subst skip_trivia.simps) auto
qed

lemma covers_to_snoc:
  assumes "covers_to source pos ts cur" and "skip_trivia (drop cur source) = drop cur source"
    and "span_start (token_span t) = cur" and "token_at source cur t"
  shows "covers_to source pos (ts @ [t]) (span_end (token_span t))"
  using assms
proof (induction ts arbitrary: pos)
  case Nil
  then show ?case by (auto simp: token_at_def Let_def)
qed simp

lemma covers_to_skip:
  assumes "covers_to source pos ts cur" and "cur \<le> cur'"
    and "skip_trivia (drop cur source) = skip_trivia (drop cur' source)"
  shows "covers_to source pos ts cur'"
  using assms by (induction ts arbitrary: pos) auto

section \<open>The loop invariant\<close>

text \<open>A diagnostic points at a piece of the source cut at character boundaries.\<close>

definition span_in :: "string \<Rightarrow> span \<Rightarrow> bool" where
  "span_in source sp \<longleftrightarrow>
     span_source sp = source_default \<and> span_start sp < span_end sp \<and> span_end sp \<le> length source
     \<and> is_char_boundary source (span_start sp) \<and> is_char_boundary source (span_end sp)"

definition lex_inv :: "lexer \<Rightarrow> bool" where
  "lex_inv lx \<longleftrightarrow>
     utf8_valid (lx_source lx) \<and> lx_cursor lx \<le> length (lx_source lx)
     \<and> is_char_boundary (lx_source lx) (lx_cursor lx)
     \<and> list_all (\<lambda>d. span_in (lx_source lx) (diag_span d)) (lx_diagnostics lx)
     \<and> (lx_diagnostics lx = [] \<longrightarrow> covers_to (lx_source lx) 0 (lx_tokens lx) (lx_cursor lx))"

text \<open>The lexer after one token of \<open>n\<close> bytes, after \<open>n\<close> bytes of trivia, after a diagnostic.\<close>

definition after_token :: "token_kind \<Rightarrow> nat \<Rightarrow> lexer \<Rightarrow> lexer" where
  "after_token k n lx =
     lx\<lparr>lx_cursor := lx_cursor lx + n,
        lx_tokens := lx_tokens lx @ [\<lparr>token_kind = k, token_span = span_new (lx_cursor lx) (lx_cursor lx + n)\<rparr>]\<rparr>"

definition after_skip :: "nat \<Rightarrow> lexer \<Rightarrow> lexer" where
  "after_skip n lx = lx\<lparr>lx_cursor := lx_cursor lx + n\<rparr>"

definition after_error :: "string \<Rightarrow> nat \<Rightarrow> lexer \<Rightarrow> lexer" where
  "after_error m n lx =
     lx\<lparr>lx_cursor := lx_cursor lx + n,
        lx_diagnostics := lx_diagnostics lx @ [diag m (span_new (lx_cursor lx) (lx_cursor lx + n))]\<rparr>"

lemma slice_prefix: "drop i s = text @ rest \<Longrightarrow> slice s i (i + length text) = text"
  by (simp add: slice_def drop_take)

lemma drop_prefix: "drop i s = text @ rest \<Longrightarrow> drop (i + length text) s = rest"
  by (metis add.commute append_eq_conv_conj drop_drop)

lemma length_prefix: "drop i s = text @ rest \<Longrightarrow> text \<noteq> [] \<Longrightarrow> i + length text \<le> length s \<and> i < length s"
  by (metis Nat.le_diff_conv2 add.commute append_is_Nil_conv drop_all length_append length_drop linorder_not_le
      le_add1 nat_less_le)

lemma boundary_ascii: "i < length s \<Longrightarrow> byte (s ! i) < 128 \<Longrightarrow> is_char_boundary s i"
  by (simp add: is_char_boundary_def is_continuation_def)

lemma boundary_prefix:
  assumes "utf8_valid s" and "drop i s = text @ rest" and "text \<noteq> []" and "byte (last text) < 128"
  shows "is_char_boundary s (i + length text)"
proof -
  let ?j = "i + length text - 1"
  have l: "i + length text \<le> length s" "0 < length text"
    using length_prefix [OF assms(2,3)] assms(3) by auto
  have "s ! ?j = (text @ rest) ! (length text - 1)"
    using l assms(2) by (metis Nat.add_diff_assoc One_nat_def Suc_leI le_add1 nth_drop order_trans)
  also have "\<dots> = last text"
    using l by (simp add: nth_append last_conv_nth)
  finally have j: "byte (s ! ?j) < 128" "?j < length s"
    using assms(4) l by (simp, linarith)
  have "is_char_boundary s (Suc ?j)"
    using assms(1) j boundary_ascii by (intro boundary_after_ascii) auto
  then show ?thesis using l by simp
qed

lemma after_token_inv:
  assumes "lex_inv lx" and d: "drop (lx_cursor lx) (lx_source lx) = text @ rest"
    and "text \<noteq> []" and "byte (last text) < 128" and "lexeme k text" and "maximal k rest"
    and "skip_trivia (text @ rest) = text @ rest"
  shows "lex_inv (after_token k (length text) lx)"
proof -
  let ?s = "lx_source lx" and ?c = "lx_cursor lx"
  let ?t = "\<lparr>token_kind = k, token_span = span_new ?c (?c + length text)\<rparr>"
  have len: "?c + length text \<le> length ?s" "0 < length text"
    using length_prefix [OF d] assms(3) by auto
  have "token_at ?s ?c ?t"
    using assms len by (simp add: token_at_def Let_def slice_prefix [OF d] drop_prefix [OF d])
  then have "covers_to ?s 0 (lx_tokens lx) ?c \<Longrightarrow> covers_to ?s 0 (lx_tokens lx @ [?t]) (span_end (token_span ?t))"
    using assms(7) d by (intro covers_to_snoc) auto
  then show ?thesis
    using assms(1) len boundary_prefix [OF _ d assms(3,4)]
    by (auto simp: lex_inv_def after_token_def)
qed

lemma after_skip_inv:
  assumes "lex_inv lx" and d: "drop (lx_cursor lx) (lx_source lx) = text @ rest"
    and "is_char_boundary (lx_source lx) (lx_cursor lx + length text)" and "skip_trivia (text @ rest) = skip_trivia rest"
  shows "lex_inv (after_skip (length text) lx)"
proof -
  have "lx_cursor lx + length text \<le> length (lx_source lx)"
    using length_prefix [OF d] assms(1) by (cases "text = []") (auto simp: lex_inv_def)
  then show ?thesis
    using assms drop_prefix [OF d]
    by (auto simp: lex_inv_def after_skip_def intro: covers_to_skip)
qed

lemma after_error_inv:
  assumes "lex_inv lx" and "0 < n" and "lx_cursor lx + n \<le> length (lx_source lx)"
    and "is_char_boundary (lx_source lx) (lx_cursor lx + n)"
  shows "lex_inv (after_error m n lx)"
  using assms by (auto simp: lex_inv_def after_error_def span_in_def)

section \<open>The branches of the loop\<close>

lemma drop_Cons_nth: "drop i s = c # r \<Longrightarrow> i < length s \<and> s ! i = c \<and> drop (Suc i) s = r"
  by (metis drop_all drop_eq_nths length_prefix append_Cons append_Nil linorder_not_less list.discI
      nth_via_drop drop_Suc tl_drop list.sel(3))

lemma lx_peek_is_iff:
  "drop (lx_cursor lx) (lx_source lx) = r \<Longrightarrow> lx_peek_is e lx \<longleftrightarrow> next_in r (\<lambda>c. c = e)"
  by (cases r) (auto simp: lx_peek_is_def next_in_def dest: drop_Cons_nth)

lemma lx_simple_after: "lx_simple k (lx_cursor lx) (lx_advance lx) = after_token k 1 lx"
  by (simp add: lx_defs after_token_def)

lemma lx_push_after: "lx_push k (lx_cursor lx) (lx_advance (lx_advance lx)) = after_token k 2 lx"
  by (simp add: lx_defs after_token_def)

lemma lx_either_after:
  assumes "drop (lx_cursor lx) (lx_source lx) = c # r"
  shows "lx_either e long short (lx_cursor lx) (lx_advance lx) =
         (if next_in r (\<lambda>c. c = e) then after_token long 2 lx else after_token short 1 lx)"
proof -
  have "drop (lx_cursor (lx_advance lx)) (lx_source (lx_advance lx)) = r"
    using drop_Cons_nth [OF assms] by (simp add: lx_advance_def)
  then show ?thesis
    by (simp add: lx_either_def lx_take_def lx_peek_is_iff lx_simple_after lx_push_after)
qed

text \<open>A match arm that looks one byte ahead keeps the invariant.\<close>

lemma token1_inv:
  assumes "lex_inv lx" and "drop (lx_cursor lx) (lx_source lx) = c # r"
    and "byte c < 128" and "lexeme k [c]" and "maximal k r" and "skip_trivia (c # r) = c # r"
  shows "lex_inv (after_token k 1 lx)"
  using after_token_inv [of lx "[c]" r k] assms by simp

lemma token2_inv:
  assumes "lex_inv lx" and "drop (lx_cursor lx) (lx_source lx) = c # r" and "next_in r (\<lambda>d. d = e)"
    and "byte e < 128" and "lexeme k [c, e]" and "\<And>r'. maximal k r'" and "skip_trivia (c # r) = c # r"
  shows "lex_inv (after_token k 2 lx)"
proof -
  obtain r' where "r = e # r'" using assms(3) by (cases r) (auto simp: next_in_def)
  then show ?thesis using after_token_inv [of lx "[c, e]" r' k] assms by (simp add: numeral_2_eq_2)
qed

lemma either_inv:
  assumes "lex_inv lx" and d: "drop (lx_cursor lx) (lx_source lx) = c # r"
    and "byte c < 128" and "byte e < 128" and "lexeme long [c, e]" and "\<And>r'. maximal long r'"
    and "lexeme short [c]" and "\<not> next_in r (\<lambda>d. d = e) \<Longrightarrow> maximal short r" and "skip_trivia (c # r) = c # r"
  shows "lex_inv (lx_either e long short (lx_cursor lx) (lx_advance lx))"
proof (cases "next_in r (\<lambda>d. d = e)")
  case True
  then show ?thesis
    using token2_inv [OF assms(1,2), of e long] assms by (simp add: lx_either_after [OF d])
next
  case False
  then show ?thesis
    using token1_inv [OF assms(1,2), of short] assms by (simp add: lx_either_after [OF d])
qed

text \<open>The branches that scan a run of bytes.\<close>

lemma boundary_rest:
  assumes "drop i s = text @ rest" and "i \<le> length s" and "rest = [] \<or> byte (hd rest) < 128"
  shows "is_char_boundary s (i + length text)"
proof (cases rest)
  case Nil
  then have "length s = i + length text" using assms(1,2) by (metis append_Nil2 le_add_diff_inverse length_drop)
  then show ?thesis by (simp add: is_char_boundary_def)
next
  case (Cons c r)
  then have "drop (i + length text) s = c # r" using drop_prefix [OF assms(1)] by simp
  then show ?thesis using drop_Cons_nth boundary_ascii assms(3) Cons by (metis list.sel(1) neq_Nil_conv)
qed

lemma checked_slice_prefix:
  assumes "drop i s = text @ rest" and "text \<noteq> []" and "is_char_boundary s i" and "is_char_boundary s (i + length text)"
  shows "checked_slice s i (i + length text) = Some text"
  using assms length_prefix [OF assms(1,2)] slice_prefix [OF assms(1)] by (simp add: checked_slice_def)

lemma scan_while_after_skip:
  "drop (lx_cursor lx + n) (lx_source lx) = r \<Longrightarrow>
   scan_while p (after_skip n lx) = after_skip (n + length (takeWhile p r)) lx"
  by (simp add: scan_while_def after_skip_def)

lemma advance_after_skip:
  "lx_advance lx = after_skip 1 lx"
  "lx_advance (after_skip n lx) = after_skip (Suc n) lx"
  "after_skip m (after_skip n lx) = after_skip (n + m) lx"
  by (simp_all add: lx_advance_def after_skip_def)

lemma lx_push_after_skip: "lx_push k (lx_cursor lx) (after_skip n lx) = after_token k n lx"
  by (simp add: lx_push_def after_skip_def after_token_def)

lemma lx_diag_after_skip: "lx_diag m (lx_cursor lx) (after_skip n lx) = after_error m n lx"
  by (simp add: lx_diag_def after_skip_def after_error_def)

lemma after_skip_sel [simp]:
  "lx_source (after_skip n lx) = lx_source lx"
  "lx_cursor (after_skip n lx) = lx_cursor lx + n"
  by (simp_all add: after_skip_def)

lemma ident_byte_ascii: "is_ident_byte c \<Longrightarrow> byte c < 128"
  by (auto simp: is_ident_byte_def is_ascii_alphanumeric_def is_ascii_alphabetic_def is_ascii_upper_def
      is_ascii_lower_def is_ascii_digit_def byte_def)

lemma ident_start_byte: "is_ident_start c \<Longrightarrow> is_ident_byte c"
  by (auto simp: is_ident_byte_def is_ident_start_def is_ascii_alphanumeric_def is_ascii_alphabetic_def)

lemma digit_ascii: "is_ascii_digit c \<Longrightarrow> byte c < 128"
  by (simp add: is_ascii_digit_def)

lemma last_run: "p c \<Longrightarrow> p (last (c # takeWhile p r))"
  using last_in_set [of "takeWhile p r"] set_takeWhileD [of _ p r] by auto

lemma lx_identifier_eq:
  assumes "lex_inv lx" and d: "drop (lx_cursor lx) (lx_source lx) = c # r" and "is_ident_byte c"
    and t: "text = c # takeWhile is_ident_byte r"
  shows "lx_identifier (lx_cursor lx) (lx_advance lx) = Some (after_token (keyword_kind text) (length text) lx)"
proof -
  have d': "drop (lx_cursor lx) (lx_source lx) = text @ dropWhile is_ident_byte r"
    using d t by simp
  have b: "is_char_boundary (lx_source lx) (lx_cursor lx + length text)"
    using assms(1,3) t last_run [of is_ident_byte c r]
    by (intro boundary_prefix [OF _ d']) (auto simp: lex_inv_def intro: ident_byte_ascii)
  have s: "scan_while is_ident_byte (lx_advance lx) = after_skip (length text) lx"
    using scan_while_after_skip [of lx 1 r] drop_Cons_nth [OF d] t by (simp add: advance_after_skip)
  show ?thesis
    using checked_slice_prefix [OF d' _ _ b] assms(1) t
    by (simp add: lx_identifier_def s lx_push_after_skip lex_inv_def)
qed

lemma parse_i64_Some: "parse_i64 text = Some v \<longleftrightarrow> digits_value text < 2 ^ 63 \<and> v = int (digits_value text)"
  by (auto simp: parse_i64_def)

text \<open>An integer literal: no fraction follows the digits.\<close>

lemma lx_number_integer:
  assumes "lex_inv lx" and d: "drop (lx_cursor lx) (lx_source lx) = c # r" and "is_ascii_digit c"
    and t: "text = c # takeWhile is_ascii_digit r"
    and nf: "\<not> (next_in (dropWhile is_ascii_digit r) (\<lambda>c. c = CHR ''.'') \<and>
                next_in (tl (dropWhile is_ascii_digit r)) is_ascii_digit)"
  shows "lx_number (lx_cursor lx) (lx_advance lx) =
         (if digits_value text < 2 ^ 63 then Some (after_token (TkInteger (int (digits_value text))) (length text) lx)
          else Some (after_error msg_out_of_range (length text) lx))"
    and "is_char_boundary (lx_source lx) (lx_cursor lx + length text)"
proof -
  let ?rest = "dropWhile is_ascii_digit r" and ?lx = "after_skip (length text) lx"
  have d': "drop (lx_cursor lx) (lx_source lx) = text @ ?rest" and ne: "text \<noteq> []"
    using d t by simp_all
  show b: "is_char_boundary (lx_source lx) (lx_cursor lx + length text)"
    using assms(1,3) t last_run [of is_ascii_digit c r]
    by (intro boundary_prefix [OF _ d']) (auto simp: lex_inv_def intro: digit_ascii)
  have s: "scan_while is_ascii_digit (lx_advance lx) = ?lx"
    using scan_while_after_skip [of lx 1 r] drop_Cons_nth [OF d] t by (simp add: advance_after_skip)
  have r: "drop (lx_cursor ?lx) (lx_source ?lx) = ?rest"
    using drop_prefix [OF d'] by simp
  have "\<not> (lx_peek_is CHR ''.'' ?lx \<and> lx_cursor ?lx + 1 < length (lx_source lx)
           \<and> is_ascii_digit (lx_source lx ! (lx_cursor ?lx + 1)))"
  proof
    assume a: "lx_peek_is CHR ''.'' ?lx \<and> lx_cursor ?lx + 1 < length (lx_source lx)
           \<and> is_ascii_digit (lx_source lx ! (lx_cursor ?lx + 1))"
    then obtain r' where "?rest = CHR ''.'' # r'"
      using lx_peek_is_iff [OF r] by (cases ?rest) (auto simp: next_in_def)
    moreover from this have "drop (lx_cursor ?lx + 1) (lx_source lx) = r'"
      using drop_Cons_nth [of "lx_cursor ?lx" "lx_source lx" "CHR ''.''" r'] r by simp
    then have "next_in r' is_ascii_digit"
      using a by (auto simp: next_in_def hd_drop_conv_nth)
    ultimately show False using nf by (simp add: next_in_def)
  qed
  then show "lx_number (lx_cursor lx) (lx_advance lx) =
         (if digits_value text < 2 ^ 63 then Some (after_token (TkInteger (int (digits_value text))) (length text) lx)
          else Some (after_error msg_out_of_range (length text) lx))"
    using checked_slice_prefix [OF d' _ _ b] assms(1) ne
    by (auto simp: lx_number_def s lex_inv_def Let_def parse_i64_def lx_push_after_skip lx_diag_after_skip)
qed

text \<open>A float literal: digits, a dot, digits.\<close>

lemma lx_number_float:
  assumes "lex_inv lx" and d: "drop (lx_cursor lx) (lx_source lx) = c # r" and "is_ascii_digit c"
    and whole: "whole = c # takeWhile is_ascii_digit r"
    and rest: "dropWhile is_ascii_digit r = CHR ''.'' # e # r'" and "is_ascii_digit e"
    and frac: "fraction = e # takeWhile is_ascii_digit r'"
    and t: "text = whole @ CHR ''.'' # fraction"
  shows "lx_number (lx_cursor lx) (lx_advance lx) =
         Some (after_token (TkFloat (f32_parse_decimal whole fraction)) (length text) lx)"
proof -
  let ?dot = "after_skip (length whole) lx"
  have split: "c # r = whole @ CHR ''.'' # e # r'"
    using whole rest takeWhile_dropWhile_id [of is_ascii_digit r] by simp
  have d1: "drop (lx_cursor lx) (lx_source lx) = whole @ CHR ''.'' # e # r'"
    using d split by simp
  have d2: "drop (lx_cursor lx) (lx_source lx) = text @ dropWhile is_ascii_digit r'"
    using d1 t frac by simp
  have s1: "scan_while is_ascii_digit (lx_advance lx) = ?dot"
    using scan_while_after_skip [of lx 1 r] drop_Cons_nth [OF d] whole by (simp add: advance_after_skip)
  have r1: "drop (lx_cursor ?dot) (lx_source ?dot) = CHR ''.'' # e # r'"
    using drop_prefix [OF d1] by simp
  have peek: "lx_peek_is CHR ''.'' ?dot"
    using lx_peek_is_iff [OF r1] by (simp add: next_in_def)
  have r2: "drop (lx_cursor lx + Suc (length whole)) (lx_source lx) = e # r'"
    using drop_Cons_nth [OF r1] by simp
  have digit: "lx_cursor ?dot + 1 < length (lx_source lx) \<and> is_ascii_digit (lx_source lx ! (lx_cursor ?dot + 1))"
    using drop_Cons_nth [OF r2] assms(6) by simp
  have s2: "scan_while is_ascii_digit (lx_advance ?dot) = after_skip (length text) lx"
    using scan_while_after_skip [OF r2] t frac assms(6) by (simp add: advance_after_skip)
  have b: "is_char_boundary (lx_source lx) (lx_cursor lx + length text)"
    using assms(1,6) t frac last_run [of is_ascii_digit e r']
    by (intro boundary_prefix [OF _ d2]) (auto simp: lex_inv_def intro: digit_ascii)
  show ?thesis
    using checked_slice_prefix [OF d2 _ _ b] assms(1) t peek digit s2
    by (simp add: lx_number_def s1 lex_inv_def Let_def lx_push_after_skip)
qed

lemma lx_line_comment_eq:
  assumes "drop (lx_cursor lx) (lx_source lx) = CHR ''/'' # CHR ''/'' # r"
  shows "lx_line_comment (lx_advance (lx_advance lx)) =
         after_skip (length (CHR ''/'' # CHR ''/'' # takeWhile (\<lambda>c. c \<noteq> newline) r)) lx"
  using scan_while_after_skip [of lx 2 r] assms drop_prefix [of _ _ "''//''" r]
  by (simp add: lx_line_comment_def advance_after_skip numeral_2_eq_2)

lemma newline_ascii: "byte newline < 128" "byte quote < 128"
  by (simp_all add: newline_def quote_def byte_def)

lemma dropWhile_stops: "dropWhile p r = [] \<or> \<not> p (hd (dropWhile p r))"
  by (metis hd_dropWhile)

lemma line_comment_inv:
  assumes "lex_inv lx" and d: "drop (lx_cursor lx) (lx_source lx) = CHR ''/'' # CHR ''/'' # r"
  shows "lex_inv (lx_line_comment (lx_advance (lx_advance lx)))"
proof -
  let ?p = "\<lambda>c. c \<noteq> newline"
  have d': "drop (lx_cursor lx) (lx_source lx) = (CHR ''/'' # CHR ''/'' # takeWhile ?p r) @ dropWhile ?p r"
    using d by simp
  have "dropWhile ?p r = [] \<or> byte (hd (dropWhile ?p r)) < 128"
    using dropWhile_stops [of ?p r] newline_ascii by auto
  then have "is_char_boundary (lx_source lx) (lx_cursor lx + length (CHR ''/'' # CHR ''/'' # takeWhile ?p r))"
    using assms(1) by (intro boundary_rest [OF d']) (auto simp: lex_inv_def)
  moreover have "skip_trivia ((CHR ''/'' # CHR ''/'' # takeWhile ?p r) @ dropWhile ?p r) =
                 skip_trivia (dropWhile ?p r)"
    by (simp add: skip_trivia_comment)
  ultimately show ?thesis
    unfolding lx_line_comment_eq [OF d] using assms(1) d' by (intro after_skip_inv)
qed

text \<open>A string literal, or a string that the line or the file ends.\<close>

lemma lx_string_eq:
  assumes "lex_inv lx" and d: "drop (lx_cursor lx) (lx_source lx) = quote # r"
    and v: "value = takeWhile (\<lambda>c. c \<noteq> quote \<and> c \<noteq> newline) r"
    and rest: "rest = dropWhile (\<lambda>c. c \<noteq> quote \<and> c \<noteq> newline) r"
  shows "lx_string (lx_cursor lx) (lx_advance lx) =
         (if next_in rest (\<lambda>c. c = quote) then Some (after_token (TkString value) (length value + 2) lx)
          else Some (after_error msg_unterminated (length value + 1) lx))"
    and "is_char_boundary (lx_source lx) (lx_cursor lx + length (quote # value))"
proof -
  let ?p = "\<lambda>c. c \<noteq> quote \<and> c \<noteq> newline" and ?s = "lx_source lx" and ?c = "lx_cursor lx"
  have d1: "drop ?c ?s = (quote # value) @ rest"
    using d v rest by simp
  have r: "drop (?c + 1) ?s = value @ rest"
    using drop_prefix [of ?c ?s "[quote]"] d1 by simp
  have stop: "rest = [] \<or> hd rest = quote \<or> hd rest = newline"
    using dropWhile_stops [of ?p r] rest by auto
  then show b: "is_char_boundary ?s (?c + length (quote # value))"
    using assms(1) newline_ascii by (intro boundary_rest [OF d1]) (auto simp: lex_inv_def)
  have b1: "is_char_boundary ?s (?c + 1)"
    using boundary_prefix [of ?s ?c "[quote]" r] d assms(1) newline_ascii by (simp add: lex_inv_def)
  have sc: "scan_while ?p (lx_advance lx) = after_skip (1 + length value) lx"
    using scan_while_after_skip [OF r] v rest takeWhile_idem by (simp add: advance_after_skip)
  have e: "drop (?c + (1 + length value)) ?s = rest"
    using drop_prefix [OF d1] by simp
  have cs: "checked_slice ?s (?c + 1) (?c + (1 + length value)) = Some value"
    using b b1 r length_prefix [OF d1] slice_prefix [OF r] by (simp add: checked_slice_def)
  show "lx_string ?c (lx_advance lx) =
         (if next_in rest (\<lambda>c. c = quote) then Some (after_token (TkString value) (length value + 2) lx)
          else Some (after_error msg_unterminated (length value + 1) lx))"
  proof (cases rest)
    case Nil
    then have "?c + (1 + length value) = length ?s"
      using d1 length_prefix [OF d1] by (metis append_Nil2 le_add_diff_inverse length_drop length_prefix
          One_nat_def Suc_eq_plus1_left d1 length_Cons le_add1 less_imp_le_nat list.discI)
    then show ?thesis
      using Nil sc lx_diag_after_skip [of msg_unterminated lx] by (simp add: lx_string_def Let_def next_in_def)
  next
    case (Cons q r')
    then have q: "?c + (1 + length value) < length ?s" "?s ! (?c + (1 + length value)) = q"
      using drop_Cons_nth [of _ ?s q r'] e by auto
    then show ?thesis
      using Cons sc stop cs lx_diag_after_skip [of msg_unterminated lx] lx_push_after_skip [of _ lx "length value + 2"]
      by (auto simp: lx_string_def Let_def next_in_def advance_after_skip lx_advance_def [of lx] newline_def quote_def)
  qed
qed

section \<open>Every turn of the loop keeps the invariant\<close>

lemma lexeme_keyword:
  assumes "is_word text"
  shows "lexeme (keyword_kind text) text"
  using assms by (auto simp: keyword_kind_def lexeme_def spelling_def)

lemma maximal_keyword:
  assumes "\<not> next_in rest is_ident_byte"
  shows "maximal (keyword_kind text) rest"
  using assms by (simp add: keyword_kind_def maximal_def)

lemma word_not_trivia: "is_ident_byte c \<Longrightarrow> \<not> is_space c \<and> c \<noteq> CHR ''/''"
  by (auto simp: is_ident_byte_def is_ascii_alphanumeric_def is_ascii_alphabetic_def is_ascii_upper_def
      is_ascii_lower_def is_ascii_digit_def byte_def is_space_def newline_def)

lemma is_word_run: "is_ident_start c \<Longrightarrow> is_word (c # takeWhile is_ident_byte r)"
  by (auto simp: is_word_def ident_start_byte list_all_iff dest: set_takeWhileD)

lemma not_next_dropWhile: "\<not> next_in (dropWhile p r) p"
  using dropWhile_stops [of p r] by (auto simp: next_in_def)

lemma lx_identifier_inv:
  assumes "lex_inv lx" and d: "drop (lx_cursor lx) (lx_source lx) = c # r" and c: "is_ident_start c"
    and "lx_identifier (lx_cursor lx) (lx_advance lx) = Some lx'"
  shows "lex_inv lx'"
proof -
  define lit where "lit = c # takeWhile is_ident_byte r"
  have d': "drop (lx_cursor lx) (lx_source lx) = lit @ dropWhile is_ident_byte r"
    using d by (simp add: lit_def)
  have "lex_inv (after_token (keyword_kind lit) (length lit) lx)"
  proof (rule after_token_inv [OF assms(1) d'])
    show "lit \<noteq> []" by (simp add: lit_def)
    show "byte (last lit) < 128"
      using last_run [of is_ident_byte c r, OF ident_start_byte [OF c]] ident_byte_ascii unfolding lit_def by blast
    show "lexeme (keyword_kind lit) lit"
      using c by (intro lexeme_keyword) (simp add: lit_def is_word_run)
    show "maximal (keyword_kind lit) (dropWhile is_ident_byte r)"
      by (intro maximal_keyword not_next_dropWhile)
    show "skip_trivia (lit @ dropWhile is_ident_byte r) = lit @ dropWhile is_ident_byte r"
      using word_not_trivia [OF ident_start_byte [OF c]] by (intro skip_trivia_other) (auto simp: lit_def)
  qed
  then show ?thesis
    using lx_identifier_eq [OF assms(1) d ident_start_byte [OF c] lit_def] assms(4) by simp
qed

lemma digit_not_trivia: "is_ascii_digit c \<Longrightarrow> \<not> is_space c \<and> c \<noteq> CHR ''/''"
  by (auto simp: is_ascii_digit_def byte_def is_space_def newline_def)

lemma is_digits_run: "is_ascii_digit c \<Longrightarrow> is_digits (c # takeWhile is_ascii_digit r)"
  by (auto simp: is_digits_def list_all_iff dest: set_takeWhileD)

lemma dot_not_digit: "\<not> is_ascii_digit CHR ''.''"
  by (simp add: is_ascii_digit_def byte_def)

lemma lexeme_float:
  assumes "is_digits whole" and "is_digits fraction"
  shows "lexeme (TkFloat (f32_parse_decimal whole fraction)) (whole @ CHR ''.'' # fraction)"
proof -
  have "takeWhile is_ascii_digit (whole @ CHR ''.'' # fraction) = whole"
    using assms(1) dot_not_digit by (auto simp: takeWhile_append is_digits_def list_all_iff)
  then show ?thesis using assms by (simp add: lexeme_def Let_def)
qed

lemma lx_number_inv:
  assumes "lex_inv lx" and d: "drop (lx_cursor lx) (lx_source lx) = c # r" and c: "is_ascii_digit c"
    and l: "lx_number (lx_cursor lx) (lx_advance lx) = Some lx'"
  shows "lex_inv lx'"
proof -
  define whole where "whole = c # takeWhile is_ascii_digit r"
  let ?rest = "dropWhile is_ascii_digit r"
  have st: "skip_trivia (c # r) = c # r"
    using digit_not_trivia [OF c] by (intro skip_trivia_other) auto
  have wb: "byte (last whole) < 128"
    using last_run [of is_ascii_digit c r] c digit_ascii unfolding whole_def by blast
  have d': "drop (lx_cursor lx) (lx_source lx) = whole @ ?rest"
    using d by (simp add: whole_def)
  show ?thesis
  proof (cases "next_in ?rest (\<lambda>c. c = CHR ''.'') \<and> next_in (tl ?rest) is_ascii_digit")
    case False
    note eq = lx_number_integer [OF assms(1) d c whole_def False]
    have "lex_inv (after_token (TkInteger (int (digits_value whole))) (length whole) lx)"
      if "digits_value whole < 2 ^ 63"
      using that wb st is_digits_run [OF c] not_next_dropWhile False d d'
      by (intro after_token_inv [OF assms(1) d'])
         (auto simp: whole_def lexeme_def maximal_def)
    moreover have "lex_inv (after_error msg_out_of_range (length whole) lx)"
      using eq(2) length_prefix [OF d'] whole_def by (intro after_error_inv [OF assms(1)]) auto
    ultimately show ?thesis using eq(1) l by (auto split: if_splits)
  next
    case True
    then obtain e r' where rest: "?rest = CHR ''.'' # e # r'" and e: "is_ascii_digit e"
      by (cases ?rest; cases "tl ?rest") (auto simp: next_in_def)
    define fraction where "fraction = e # takeWhile is_ascii_digit r'"
    define lit where "lit = whole @ CHR ''.'' # fraction"
    have d2: "drop (lx_cursor lx) (lx_source lx) = lit @ dropWhile is_ascii_digit r'"
      using d' rest by (simp add: lit_def fraction_def)
    have "lex_inv (after_token (TkFloat (f32_parse_decimal whole fraction)) (length lit) lx)"
    proof (rule after_token_inv [OF assms(1) d2])
      show "lit \<noteq> []" by (simp add: lit_def)
      show "byte (last lit) < 128"
        using last_run [of is_ascii_digit e r'] e digit_ascii [of "last fraction"]
        by (simp add: lit_def fraction_def del: last.simps) (simp add: last_ConsR)
      show "lexeme (TkFloat (f32_parse_decimal whole fraction)) lit"
        unfolding lit_def whole_def fraction_def using c e by (intro lexeme_float is_digits_run)
      show "maximal (TkFloat (f32_parse_decimal whole fraction)) (dropWhile is_ascii_digit r')"
        by (simp add: maximal_def not_next_dropWhile)
      show "skip_trivia (lit @ dropWhile is_ascii_digit r') = lit @ dropWhile is_ascii_digit r'"
        using st d d2 by simp
    qed
    then show ?thesis
      using lx_number_float [OF assms(1) d c whole_def rest e fraction_def lit_def] l by simp
  qed
qed

lemma lx_string_inv:
  assumes "lex_inv lx" and d: "drop (lx_cursor lx) (lx_source lx) = quote # r"
    and l: "lx_string (lx_cursor lx) (lx_advance lx) = Some lx'"
  shows "lex_inv lx'"
proof -
  let ?p = "\<lambda>c. c \<noteq> quote \<and> c \<noteq> newline"
  define content where "content = takeWhile ?p r"
  define rest where "rest = dropWhile ?p r"
  note eq = lx_string_eq [OF assms(1) d content_def rest_def]
  have d1: "drop (lx_cursor lx) (lx_source lx) = (quote # content) @ rest"
    using d by (simp add: content_def rest_def)
  have err: "lex_inv (after_error msg_unterminated (length content + 1) lx)"
    using eq(2) length_prefix [OF d1] by (intro after_error_inv [OF assms(1)]) auto
  have tok: "lex_inv (after_token (TkString content) (length content + 2) lx)" if q: "next_in rest (\<lambda>c. c = quote)"
  proof -
    obtain r' where "rest = quote # r'" using q by (cases rest) (auto simp: next_in_def)
    then have d2: "drop (lx_cursor lx) (lx_source lx) = (quote # content @ [quote]) @ r'"
      using d1 by simp
    have "list_all ?p content" by (auto simp: content_def list_all_iff dest: set_takeWhileD)
    then have "lex_inv (after_token (TkString content) (length (quote # content @ [quote])) lx)"
      using newline_ascii
      by (intro after_token_inv [OF assms(1) d2])
         (auto simp: lexeme_def maximal_def spelling_def is_space_def quote_def newline_def
            is_ident_byte_def is_ascii_alphanumeric_def is_ascii_alphabetic_def is_ascii_upper_def is_ascii_lower_def
            is_ascii_digit_def byte_def intro!: skip_trivia_other)
    then show ?thesis by simp
  qed
  show ?thesis using eq(1) l err tok by (auto split: if_splits)
qed

lemma lx_unexpected_eq:
  assumes "lex_inv lx" and d: "drop (lx_cursor lx) (lx_source lx) = c # r"
  shows "\<exists>m n. lx_unexpected (lx_cursor lx) (lx_advance lx) = Some (after_error m n lx) \<and> lex_inv (after_error m n lx)"
proof -
  let ?s = "lx_source lx" and ?c = "lx_cursor lx"
  have b: "is_char_boundary ?s ?c" and v: "utf8_valid ?s"
    using assms(1) by (auto simp: lex_inv_def)
  have vd: "utf8_valid (drop ?c ?s)"
    using v b by (rule utf8_valid_drop_boundary)
  then obtain n where n: "utf8_width (drop ?c ?s) = Some n" and vn: "utf8_valid (drop n (drop ?c ?s))"
    using d by (auto simp: utf8_valid.simps [of "c # r"] split: option.splits)
  have len: "0 < n" "?c + n \<le> length ?s"
    using utf8_width_pos [OF n] d drop_Cons_nth [OF d] by auto
  have bn: "is_char_boundary ?s (?c + n)"
  proof (cases "?c + n = length ?s")
    case False
    then obtain m where "utf8_width (drop (?c + n) ?s) = Some m"
      using vn len by (auto simp: utf8_valid.simps [of "drop (n + ?c) ?s"] add.commute split: option.splits)
    then show ?thesis
      using utf8_width_head [of "drop (?c + n) ?s"] False len by (auto simp: is_char_boundary_def)
  qed (simp add: is_char_boundary_def)
  have "lx_unexpected ?c (lx_advance lx) = Some (after_error (msg_unexpected (slice ?s ?c (?c + n))) n lx)"
    using n b by (simp add: lx_unexpected_def lx_advance_def lx_diag_def after_error_def)
  then show ?thesis
    using after_error_inv [OF assms(1) len bn] by blast
qed

text \<open>The tokens of one byte, and the bytes that begin a token of one or two.\<close>

definition single_tokens :: "(char \<times> token_kind) list" where
  "single_tokens =
     [(CHR ''('', TkLeftParen), (CHR '')'', TkRightParen), (CHR ''{'', TkLeftBrace), (CHR ''}'', TkRightBrace),
      (CHR ''['', TkLeftBracket), (CHR '']'', TkRightBracket), (CHR '','', TkComma), (CHR '';'', TkSemicolon)]"

definition paired_tokens :: "(char \<times> char \<times> token_kind \<times> token_kind) list" where
  "paired_tokens =
     [(CHR ''.'', CHR ''.'', TkDotDot, TkDot), (CHR '':'', CHR '':'', TkColonColon, TkColon),
      (CHR ''+'', CHR ''='', TkPlusEqual, TkPlus), (CHR ''*'', CHR ''='', TkStarEqual, TkStar),
      (CHR ''%'', CHR ''='', TkPercentEqual, TkPercent), (CHR ''!'', CHR ''='', TkBangEqual, TkBang),
      (CHR ''='', CHR ''='', TkEqualEqual, TkEqual), (CHR ''<'', CHR ''='', TkLessEqual, TkLess),
      (CHR ''>'', CHR ''='', TkGreaterEqual, TkGreater)]"

lemma lex_step_start:
  assumes "drop (lx_cursor lx) (lx_source lx) = c # r"
  shows "lx_source lx ! lx_cursor lx = c" and "drop (lx_cursor (lx_advance lx)) (lx_source (lx_advance lx)) = r"
  using drop_Cons_nth [OF assms] by (simp_all add: lx_advance_def)

lemma lex_step_single:
  assumes "drop (lx_cursor lx) (lx_source lx) = c # r" and "(c, k) \<in> set single_tokens"
  shows "lex_step lx = Some (after_token k 1 lx)"
  using assms(2) lex_step_start(1) [OF assms(1)]
  unfolding single_tokens_def list.set insert_iff empty_iff prod.inject
  by (elim disjE conjE FalseE; simp add: lex_step_def newline_def lx_simple_after)

lemma lex_step_paired:
  assumes "drop (lx_cursor lx) (lx_source lx) = c # r" and "(c, e, long, short) \<in> set paired_tokens"
  shows "lex_step lx = Some (lx_either e long short (lx_cursor lx) (lx_advance lx))"
  using assms(2) lex_step_start(1) [OF assms(1)]
  unfolding paired_tokens_def list.set insert_iff empty_iff prod.inject
  by (elim disjE conjE FalseE; simp add: lex_step_def newline_def)

lemma ident_byte_literals:
  "\<not> is_ident_byte CHR ''=''" "\<not> is_ident_byte CHR ''.''" "\<not> is_ident_byte CHR '':''" "\<not> is_ident_byte CHR ''>''"
  "\<not> is_ident_byte CHR ''&''" "\<not> is_ident_byte CHR ''|''" "\<not> is_ident_byte CHR ''(''" "\<not> is_ident_byte CHR '')''"
  "\<not> is_ident_byte CHR ''{''" "\<not> is_ident_byte CHR ''}''" "\<not> is_ident_byte CHR ''[''" "\<not> is_ident_byte CHR '']''"
  "\<not> is_ident_byte CHR '',''" "\<not> is_ident_byte CHR '';''"
  by (simp_all add: is_ident_byte_def is_ascii_alphanumeric_def is_ascii_alphabetic_def is_ascii_upper_def
      is_ascii_lower_def is_ascii_digit_def byte_def)

lemma single_tokens_ok:
  assumes "(c, k) \<in> set single_tokens"
  shows "byte c < 128" and "lexeme k [c]" and "maximal k r" and "skip_trivia (c # r) = c # r"
  using assms
  by (auto simp: single_tokens_def byte_def lexeme_def maximal_def spelling_def ident_byte_literals is_space_def
      newline_def intro!: skip_trivia_other)

lemma paired_tokens_ok:
  assumes "(c, e, long, short) \<in> set paired_tokens"
  shows "byte c < 128" and "byte e < 128" and "lexeme long [c, e]" and "\<And>r'. maximal long r'"
    and "lexeme short [c]" and "maximal short r \<longleftrightarrow> \<not> next_in r (\<lambda>d. d = e)" and "skip_trivia (c # r) = c # r"
  using assms
  by (auto simp: paired_tokens_def byte_def lexeme_def maximal_def spelling_def ident_byte_literals is_space_def
      newline_def intro!: skip_trivia_other)

definition specials :: string where
  "specials = [CHR '' '', CHR 0x09, CHR 0x0D, newline, quote] @ ''(){}[].:,;+*-/%!=<>&|''"

lemma specials_not_words:
  assumes "is_ident_byte c"
  shows "c \<notin> set specials"
proof -
  have "list_all (\<lambda>c. \<not> is_ident_byte c) specials"
    by (simp add: specials_def is_ident_byte_def is_ascii_alphanumeric_def is_ascii_alphabetic_def
        is_ascii_upper_def is_ascii_lower_def is_ascii_digit_def byte_def newline_def quote_def)
  then show ?thesis using assms by (auto simp: list_all_iff)
qed

lemma lex_step_other:
  assumes "drop (lx_cursor lx) (lx_source lx) = c # r" and "c \<notin> set specials"
  shows "lex_step lx =
         (if is_ascii_digit c then lx_number (lx_cursor lx) (lx_advance lx)
          else if is_ident_start c then lx_identifier (lx_cursor lx) (lx_advance lx)
          else lx_unexpected (lx_cursor lx) (lx_advance lx))"
  using assms(2) lex_step_start(1) [OF assms(1)] by (simp add: lex_step_def specials_def Let_def)

lemma lex_step_special:
  assumes "drop (lx_cursor lx) (lx_source lx) = c # r"
  shows "is_space c \<Longrightarrow> lex_step lx = Some (after_skip 1 lx)"
    and "c = quote \<Longrightarrow> lex_step lx = lx_string (lx_cursor lx) (lx_advance lx)"
    and "c = CHR ''&'' \<or> c = CHR ''|'' \<Longrightarrow>
         lex_step lx =
           (if next_in r (\<lambda>d. d = c) then Some (after_token (if c = CHR ''&'' then TkAndAnd else TkOrOr) 2 lx)
            else lx_unexpected (lx_cursor lx) (lx_advance lx))"
    and "c = CHR ''-'' \<Longrightarrow>
         lex_step lx =
           (if next_in r (\<lambda>d. d = CHR ''>'') then Some (after_token TkArrow 2 lx)
            else Some (lx_either CHR ''='' TkMinusEqual TkMinus (lx_cursor lx) (lx_advance lx)))"
    and "c = CHR ''/'' \<Longrightarrow>
         lex_step lx =
           (if next_in r (\<lambda>d. d = CHR ''/'') then Some (lx_line_comment (lx_advance (lx_advance lx)))
            else Some (lx_either CHR ''='' TkSlashEqual TkSlash (lx_cursor lx) (lx_advance lx)))"
proof -
  note c = lex_step_start(1) [OF assms] and r = lex_step_start(2) [OF assms]
  show "is_space c \<Longrightarrow> lex_step lx = Some (after_skip 1 lx)"
    using c by (simp add: lex_step_def Let_def is_space_def advance_after_skip)
  show "c = quote \<Longrightarrow> lex_step lx = lx_string (lx_cursor lx) (lx_advance lx)"
    using c by (simp add: lex_step_def Let_def quote_def newline_def)
  have bytes: "\<not> is_ascii_digit CHR ''&''" "\<not> is_ident_start CHR ''&''"
    "\<not> is_ascii_digit CHR ''|''" "\<not> is_ident_start CHR ''|''"
    by (simp_all add: is_ascii_digit_def is_ident_start_def is_ascii_lower_def is_ascii_upper_def byte_def)
  show "lex_step lx =
           (if next_in r (\<lambda>d. d = c) then Some (after_token (if c = CHR ''&'' then TkAndAnd else TkOrOr) 2 lx)
            else lx_unexpected (lx_cursor lx) (lx_advance lx))" if "c = CHR ''&'' \<or> c = CHR ''|''"
    using that c lx_peek_is_iff [OF r]
    by (elim disjE; simp add: lex_step_def quote_def newline_def bytes lx_push_after)
  show "c = CHR ''-'' \<Longrightarrow>
         lex_step lx =
           (if next_in r (\<lambda>d. d = CHR ''>'') then Some (after_token TkArrow 2 lx)
            else Some (lx_either CHR ''='' TkMinusEqual TkMinus (lx_cursor lx) (lx_advance lx)))"
    using c lx_peek_is_iff [OF r] by (simp add: lex_step_def newline_def lx_take_def lx_push_after)
  show "c = CHR ''/'' \<Longrightarrow>
         lex_step lx =
           (if next_in r (\<lambda>d. d = CHR ''/'') then Some (lx_line_comment (lx_advance (lx_advance lx)))
            else Some (lx_either CHR ''='' TkSlashEqual TkSlash (lx_cursor lx) (lx_advance lx)))"
    using c lx_peek_is_iff [OF r] by (simp add: lex_step_def newline_def lx_take_def)
qed

lemma double_inv:
  assumes "lex_inv lx" and "drop (lx_cursor lx) (lx_source lx) = c # r" and "next_in r (\<lambda>d. d = e)"
    and "(c, e, k) \<in> {(CHR ''&'', CHR ''&'', TkAndAnd), (CHR ''|'', CHR ''|'', TkOrOr), (CHR ''-'', CHR ''>'', TkArrow)}"
  shows "lex_inv (after_token k 2 lx)"
  using assms
  by (intro token2_inv [OF assms(1-3)])
     (auto simp: byte_def lexeme_def maximal_def spelling_def ident_byte_literals is_space_def newline_def
        intro!: skip_trivia_other)

lemma slash_minus_inv:
  assumes "lex_inv lx" and d: "drop (lx_cursor lx) (lx_source lx) = c # r"
  shows "c = CHR ''-'' \<Longrightarrow> \<not> next_in r (\<lambda>d. d = CHR ''>'') \<Longrightarrow>
         lex_inv (lx_either CHR ''='' TkMinusEqual TkMinus (lx_cursor lx) (lx_advance lx))"
    and "c = CHR ''/'' \<Longrightarrow> \<not> next_in r (\<lambda>d. d = CHR ''/'') \<Longrightarrow>
         lex_inv (lx_either CHR ''='' TkSlashEqual TkSlash (lx_cursor lx) (lx_advance lx))"
  by (intro either_inv [OF assms];
      auto simp: byte_def lexeme_def maximal_def spelling_def ident_byte_literals is_space_def newline_def
        next_in_def intro!: skip_trivia_other)
     (intro either_inv [OF assms];
      auto simp: byte_def lexeme_def maximal_def spelling_def ident_byte_literals is_space_def newline_def
        next_in_def intro!: skip_trivia_other)

lemma after_space_inv:
  assumes "lex_inv lx" and d: "drop (lx_cursor lx) (lx_source lx) = c # r" and "is_space c"
  shows "lex_inv (after_skip 1 lx)"
proof -
  have "byte c < 128" using assms(3) by (auto simp: is_space_def newline_def byte_def)
  then have "is_char_boundary (lx_source lx) (lx_cursor lx + length [c])"
    using assms(1) d by (intro boundary_prefix [of _ _ "[c]" r]) (auto simp: lex_inv_def)
  then show ?thesis
    using after_skip_inv [of lx "[c]" r] assms by (simp add: skip_trivia_space)
qed

lemma specials_cases:
  assumes "c \<in> set specials"
  shows "is_space c \<or> c = quote \<or> c = CHR ''&'' \<or> c = CHR ''|'' \<or> c = CHR ''-'' \<or> c = CHR ''/''
         \<or> c \<in> set (map fst single_tokens) \<or> c \<in> set (map fst paired_tokens)"
proof -
  have "list_all (\<lambda>c. is_space c \<or> c = quote \<or> c = CHR ''&'' \<or> c = CHR ''|'' \<or> c = CHR ''-'' \<or> c = CHR ''/''
         \<or> c \<in> set (map fst single_tokens) \<or> c \<in> set (map fst paired_tokens)) specials"
    by (simp add: specials_def is_space_def single_tokens_def paired_tokens_def)
  then show ?thesis using assms by (auto simp only: list_all_iff)
qed

lemma lex_step_inv:
  assumes inv: "lex_inv lx" and "lx_cursor lx < length (lx_source lx)"
  shows "\<exists>lx'. lex_step lx = Some lx' \<and> lex_inv lx'"
proof -
  obtain c r where d: "drop (lx_cursor lx) (lx_source lx) = c # r"
    using assms(2) by (metis Cons_nth_drop_Suc)
  note special = lex_step_special [OF d]
  have unexpected: "\<exists>lx'. lx_unexpected (lx_cursor lx) (lx_advance lx) = Some lx' \<and> lex_inv lx'"
    using lx_unexpected_eq [OF inv d] by blast
  consider (space) "is_space c" | (quote) "c = quote" | (double) "c = CHR ''&'' \<or> c = CHR ''|''"
    | (minus) "c = CHR ''-''" | (slash) "c = CHR ''/''"
    | (single) k where "(c, k) \<in> set single_tokens"
    | (paired) e long short where "(c, e, long, short) \<in> set paired_tokens"
    | (other) "c \<notin> set specials"
    using specials_cases [of c] by fastforce
  then show ?thesis
  proof cases
    case space
    then show ?thesis using special(1) after_space_inv [OF inv d] by simp
  next
    case quote
    then show ?thesis
      using special(2) lx_string_eq(1) [OF inv, of r] lx_string_inv [OF inv, of r] d by (auto split: if_splits)
  next
    case double
    then show ?thesis
      using special(3) unexpected double_inv [OF inv d] by (auto split: if_splits)
  next
    case minus
    then show ?thesis
      using special(4) double_inv [OF inv d] slash_minus_inv(1) [OF inv d] by (auto split: if_splits)
  next
    case slash
    have "lex_inv (lx_line_comment (lx_advance (lx_advance lx)))" if "next_in r (\<lambda>d. d = CHR ''/'')"
      using that slash d by (cases r) (auto simp: next_in_def intro: line_comment_inv [OF inv])
    then show ?thesis
      using special(5) slash slash_minus_inv(2) [OF inv d] by (auto split: if_splits)
  next
    case single
    then show ?thesis
      using lex_step_single [OF d single] token1_inv [OF inv d single_tokens_ok [OF single]] by simp
  next
    case paired
    note ok = paired_tokens_ok [OF paired]
    show ?thesis
      using lex_step_paired [OF d paired] either_inv [OF inv d ok(1-5) _ ok(7)] ok(6) by blast
  next
    case other
    have num: "\<exists>lx'. lx_number (lx_cursor lx) (lx_advance lx) = Some lx'" if c: "is_ascii_digit c"
    proof (cases "next_in (dropWhile is_ascii_digit r) (\<lambda>c. c = CHR ''.'') \<and>
                  next_in (tl (dropWhile is_ascii_digit r)) is_ascii_digit")
      case False
      then show ?thesis using lx_number_integer(1) [OF inv d c refl False] by auto
    next
      case True
      then obtain e r' where "dropWhile is_ascii_digit r = CHR ''.'' # e # r'" "is_ascii_digit e"
        by (cases "dropWhile is_ascii_digit r"; cases "tl (dropWhile is_ascii_digit r)") (auto simp: next_in_def)
      then show ?thesis using lx_number_float [OF inv d c refl _ _ refl refl] by blast
    qed
    show ?thesis
      using lex_step_other [OF d other] num lx_number_inv [OF inv d] unexpected lx_identifier_inv [OF inv d]
        lx_identifier_eq [OF inv d ident_start_byte refl] by (auto split: if_splits)
  qed
qed

lemma lex_run_inv:
  assumes "lex_inv lx"
  shows "\<exists>lx'. lex_run lx = Some lx' \<and> lex_inv lx' \<and> lx_cursor lx' = length (lx_source lx)
              \<and> lx_source lx' = lx_source lx"
  using assms
proof (induction lx rule: lex_run.induct)
  case (1 lx)
  show ?case
  proof (cases "lx_cursor lx < length (lx_source lx)")
    case True
    then obtain lx' where s: "lex_step lx = Some lx'" and i: "lex_inv lx'"
      using lex_step_inv [OF "1.prems"] by blast
    show ?thesis
      using "1.IH" [OF True s i] lex_step_progress [OF s] True s by (simp add: lex_run.simps [of lx])
  next
    case False
    then show ?thesis using "1.prems" by (auto simp: lex_run.simps [of lx] lex_inv_def)
  qed
qed

lemma lex_inv_new: "utf8_valid source \<Longrightarrow> lex_inv (lexer_new source)"
  by (simp add: lex_inv_def lexer_new_def is_char_boundary_def)

section \<open>Every spelling is read back\<close>

lemma takeWhile_run: "list_all p s \<Longrightarrow> \<not> next_in rest p \<Longrightarrow> takeWhile p (s @ rest) = s"
  by (cases rest) (auto simp: next_in_def list_all_iff takeWhile_append)

lemma dropWhile_run: "list_all p s \<Longrightarrow> \<not> next_in rest p \<Longrightarrow> dropWhile p (s @ rest) = rest"
  by (cases rest) (auto simp: next_in_def list_all_iff dropWhile_append)

lemma lex_step_word:
  assumes "lex_inv lx" and d: "drop (lx_cursor lx) (lx_source lx) = w @ rest" and "is_word w"
    and "\<not> next_in rest is_ident_byte"
  shows "lex_step lx = Some (after_token (keyword_kind w) (length w) lx)"
proof -
  obtain c s where w: "w = c # s" "is_ident_start c" "list_all is_ident_byte s"
    using assms(3) by (cases w) (auto simp: is_word_def)
  have d': "drop (lx_cursor lx) (lx_source lx) = c # (s @ rest)" using d w by simp
  have "\<not> is_ascii_digit c"
    using w(2) by (auto simp: is_ident_start_def is_ascii_digit_def is_ascii_lower_def is_ascii_upper_def byte_def)
  moreover have "w = c # takeWhile is_ident_byte (s @ rest)"
    using w takeWhile_run [OF w(3) assms(4)] by simp
  ultimately show ?thesis
    using lex_step_other [OF d' specials_not_words [OF ident_start_byte [OF w(2)]]] w(2)
      lx_identifier_eq [OF assms(1) d' ident_start_byte [OF w(2)]] by simp
qed

definition keyword_kinds :: "token_kind list" where
  "keyword_kinds =
     [TkGame, TkImport, TkAs, TkLet, TkConst, TkStart, TkUpdate, TkDraw, TkFn, TkStruct, TkReturn, TkIf, TkElse,
      TkWhile, TkFor, TkIn, TkTrue, TkFalse, TkI32, TkF32, TkBool, TkVoid]"

lemma keyword_kinds_words:
  "k \<in> set keyword_kinds \<Longrightarrow> is_word (spelling k) \<and> keyword_kind (spelling k) = k"
proof -
  have "list_all (\<lambda>k. is_word (spelling k) \<and> keyword_kind (spelling k) = k) keyword_kinds"
    by (simp add: keyword_kinds_def spelling_def keyword_kind_def is_word_def is_ident_start_def is_ident_byte_def
        is_ascii_alphanumeric_def is_ascii_alphabetic_def is_ascii_lower_def is_ascii_upper_def is_ascii_digit_def
        byte_def)
  then show "k \<in> set keyword_kinds \<Longrightarrow> is_word (spelling k) \<and> keyword_kind (spelling k) = k"
    by (auto simp only: list_all_iff)
qed

lemma lex_step_paired_after:
  assumes d: "drop (lx_cursor lx) (lx_source lx) = c # r" and p: "(c, e, long, short) \<in> set paired_tokens"
  shows "next_in r (\<lambda>d. d = e) \<Longrightarrow> lex_step lx = Some (after_token long 2 lx)"
    and "\<not> next_in r (\<lambda>d. d = e) \<Longrightarrow> lex_step lx = Some (after_token short 1 lx)"
  by (simp_all add: lex_step_paired [OF assms] lx_either_after [OF d])

lemma keyword_lexeme:
  assumes "k \<in> set keyword_kinds"
  shows "lexeme k lit \<longleftrightarrow> lit = spelling k" and "maximal k rest \<longleftrightarrow> \<not> next_in rest is_ident_byte"
proof -
  have w: "list_all is_ident_byte (spelling k)" "spelling k \<noteq> []"
    using keyword_kinds_words [OF assms] by (simp_all add: is_word_def)
  show "lexeme k lit \<longleftrightarrow> lit = spelling k"
    using assms unfolding keyword_kinds_def list.set insert_iff empty_iff
    by (elim disjE FalseE; simp add: lexeme_def)
  show "maximal k rest \<longleftrightarrow> \<not> next_in rest is_ident_byte"
    using assms w unfolding keyword_kinds_def list.set insert_iff empty_iff
    by (elim disjE FalseE; simp add: maximal_def)
qed

lemma token_kind_cases:
  "k \<in> set keyword_kinds \<or> k \<in> set (map snd single_tokens) \<or> k \<in> set (map (\<lambda>p. fst (snd (snd p))) paired_tokens)
   \<or> k \<in> set (map (\<lambda>p. snd (snd (snd p))) paired_tokens)
   \<or> k \<in> {TkArrow, TkAndAnd, TkOrOr, TkMinus, TkMinusEqual, TkSlash, TkSlashEqual, TkEof}
   \<or> (\<exists>w. k = TkIdentifier w) \<or> (\<exists>v. k = TkString v) \<or> (\<exists>v. k = TkInteger v) \<or> (\<exists>v. k = TkFloat v)"
  by (cases k; simp add: keyword_kinds_def single_tokens_def paired_tokens_def)

lemma lex_step_string:
  assumes "lex_inv lx" and d: "drop (lx_cursor lx) (lx_source lx) = lit @ rest" and "lexeme (TkString v) lit"
  shows "lex_step lx = Some (after_token (TkString v) (length lit) lx)"
proof -
  let ?p = "\<lambda>c. c \<noteq> quote \<and> c \<noteq> newline"
  have v: "lit = quote # v @ [quote]" "list_all ?p v"
    using assms(3) by (simp_all add: lexeme_def spelling_def)
  then have d': "drop (lx_cursor lx) (lx_source lx) = quote # (v @ quote # rest)" using d by simp
  have n: "\<not> next_in (quote # rest) ?p" by (simp add: next_in_def)
  show ?thesis
    using lx_string_eq(1) [OF assms(1) d' refl refl] v(1) lex_step_special(2) [OF d' refl]
    unfolding takeWhile_run [OF v(2) n] dropWhile_run [OF v(2) n] by (simp add: next_in_def)
qed

lemma lex_step_integer:
  assumes "lex_inv lx" and d: "drop (lx_cursor lx) (lx_source lx) = lit @ rest" and "lexeme (TkInteger v) lit"
    and m: "maximal (TkInteger v) rest"
  shows "lex_step lx = Some (after_token (TkInteger v) (length lit) lx)"
proof -
  obtain c s where l: "lit = c # s" "is_ascii_digit c" "list_all is_ascii_digit s"
    using assms(3) by (cases lit) (auto simp: lexeme_def is_digits_def)
  have d': "drop (lx_cursor lx) (lx_source lx) = c # (s @ rest)" using d l by simp
  have n: "\<not> next_in rest is_ascii_digit" using m by (simp add: maximal_def)
  have t: "lit = c # takeWhile is_ascii_digit (s @ rest)" using l takeWhile_run [OF l(3) n] by simp
  have "is_ident_byte c" using l(2) by (simp add: is_ident_byte_def is_ascii_alphanumeric_def)
  then have "lex_step lx = lx_number (lx_cursor lx) (lx_advance lx)"
    using lex_step_other [OF d' specials_not_words] l(2) by simp
  then show ?thesis
    using lx_number_integer(1) [OF assms(1) d' l(2) t] assms(3) m dropWhile_run [OF l(3) n]
    by (auto simp: maximal_def lexeme_def)
qed

lemma lex_step_float:
  assumes "lex_inv lx" and d: "drop (lx_cursor lx) (lx_source lx) = lit @ rest" and "lexeme (TkFloat v) lit"
    and m: "maximal (TkFloat v) rest"
  shows "lex_step lx = Some (after_token (TkFloat v) (length lit) lx)"
proof -
  define whole where "whole = takeWhile is_ascii_digit lit"
  define fraction where "fraction = drop (Suc (length whole)) lit"
  have l: "lit = whole @ CHR ''.'' # fraction" "is_digits whole" "is_digits fraction"
    "v = f32_parse_decimal whole fraction"
    using assms(3) by (simp_all add: lexeme_def Let_def whole_def [symmetric] fraction_def [symmetric])
  obtain c s where w: "whole = c # s" "is_ascii_digit c" "list_all is_ascii_digit s"
    using l(2) by (cases whole) (auto simp: is_digits_def)
  obtain e s' where f: "fraction = e # s'" "is_ascii_digit e" "list_all is_ascii_digit s'"
    using l(3) by (cases fraction) (auto simp: is_digits_def)
  have d': "drop (lx_cursor lx) (lx_source lx) = c # (s @ CHR ''.'' # e # s' @ rest)" using d l w f by simp
  have n: "\<not> next_in (CHR ''.'' # e # s' @ rest) is_ascii_digit" by (simp add: next_in_def dot_not_digit)
  have n': "\<not> next_in rest is_ascii_digit" using m by (simp add: maximal_def)
  have t: "whole = c # takeWhile is_ascii_digit (s @ CHR ''.'' # e # s' @ rest)"
    using w takeWhile_run [OF w(3) n] by simp
  have t': "fraction = e # takeWhile is_ascii_digit (s' @ rest)"
    using f takeWhile_run [OF f(3) n'] by simp
  have "is_ident_byte c" using w(2) by (simp add: is_ident_byte_def is_ascii_alphanumeric_def)
  then have "lex_step lx = lx_number (lx_cursor lx) (lx_advance lx)"
    using lex_step_other [OF d' specials_not_words] w(2) by simp
  then show ?thesis
    using lx_number_float [OF assms(1) d' w(2) t dropWhile_run [OF w(3) n] f(2) t' l(1)] l(4) by simp
qed

lemma lex_step_token:
  assumes inv: "lex_inv lx" and d: "drop (lx_cursor lx) (lx_source lx) = lit @ rest" and l: "lexeme k lit"
    and m: "maximal k rest"
  shows "lex_step lx = Some (after_token k (length lit) lx)"
proof -
  consider (keyword) "k \<in> set keyword_kinds" | (single) c where "(c, k) \<in> set single_tokens"
    | (long) c e short where "(c, e, k, short) \<in> set paired_tokens"
    | (short) c e long where "(c, e, long, k) \<in> set paired_tokens"
    | (op_tok) "k \<in> {TkArrow, TkAndAnd, TkOrOr, TkMinus, TkMinusEqual, TkSlash, TkSlashEqual}"
    | (eof) "k = TkEof" | (word) w where "k = TkIdentifier w" | (str) v where "k = TkString v"
    | (int_lit) v where "k = TkInteger v" | (floating) v where "k = TkFloat v"
    using token_kind_cases [of k] by fastforce
  then show ?thesis
  proof cases
    case keyword
    note kw = keyword_lexeme [OF keyword] and w = keyword_kinds_words [OF keyword]
    show ?thesis using lex_step_word [OF inv d] w l m kw by simp
  next
    case single
    then have "lit = [c]"
      using l unfolding single_tokens_def list.set insert_iff empty_iff prod.inject
      by (elim disjE conjE FalseE; simp add: lexeme_def spelling_def)
    then show ?thesis using lex_step_single [OF _ single, of lx rest] d by simp
  next
    case long
    then have "lit = [c, e]"
      using l unfolding paired_tokens_def list.set insert_iff empty_iff prod.inject
      by (elim disjE conjE FalseE; simp add: lexeme_def spelling_def)
    then show ?thesis using lex_step_paired_after(1) [OF _ long, of lx "e # rest"] d by (simp add: next_in_def numeral_2_eq_2)
  next
    case short
    then have "lit = [c]"
      using l unfolding paired_tokens_def list.set insert_iff empty_iff prod.inject
      by (elim disjE conjE FalseE; simp add: lexeme_def spelling_def)
    then show ?thesis
      using lex_step_paired_after(2) [OF _ short, of lx rest] paired_tokens_ok(6) [OF short, of rest] d m by simp
  next
    case op_tok
    then show ?thesis
      using l m d lex_step_special(3,4,5) [of lx] lx_either_after [of lx]
      by (auto simp: lexeme_def spelling_def maximal_def next_in_def numeral_2_eq_2)
  next
    case word
    then show ?thesis using lex_step_word [OF inv d] l m by (simp add: lexeme_def maximal_def)
  qed (use l m d lex_step_string [OF inv d] lex_step_integer [OF inv d] lex_step_float [OF inv d] in
      \<open>auto simp: lexeme_def\<close>)
qed

section \<open>Running over a covered source\<close>

lemma lex_run_trivia:
  assumes "lex_inv lx" and "drop (lx_cursor lx) (lx_source lx) = s"
  shows "\<exists>n. lex_run lx = lex_run (after_skip n lx) \<and> lex_inv (after_skip n lx)
             \<and> drop (lx_cursor lx + n) (lx_source lx) = skip_trivia s"
  using assms
proof (induction s arbitrary: lx rule: skip_trivia.induct)
  case (1 s)
  have go: "\<exists>n. lex_run lx = lex_run (after_skip n lx) \<and> lex_inv (after_skip n lx)
             \<and> drop (lx_cursor lx + n) (lx_source lx) = skip_trivia s"
    if st: "lex_step lx = Some (after_skip m lx)" and dm: "drop (lx_cursor lx + m) (lx_source lx) = s'"
      and eq: "skip_trivia s = skip_trivia s'" and ne: "s \<noteq> []"
      and IH: "\<And>lx. lex_inv lx \<Longrightarrow> drop (lx_cursor lx) (lx_source lx) = s' \<Longrightarrow>
               \<exists>n. lex_run lx = lex_run (after_skip n lx) \<and> lex_inv (after_skip n lx)
             \<and> drop (lx_cursor lx + n) (lx_source lx) = skip_trivia s'" for m s'
  proof -
    have c: "lx_cursor lx < length (lx_source lx)" using "1.prems"(2) ne by (metis drop_all linorder_not_le)
    then have "lex_inv (after_skip m lx)" using lex_step_inv [OF "1.prems"(1)] st by auto
    then obtain n where "lex_run (after_skip m lx) = lex_run (after_skip n (after_skip m lx))"
      "lex_inv (after_skip n (after_skip m lx))" "drop (lx_cursor lx + m + n) (lx_source lx) = skip_trivia s'"
      using IH [of "after_skip m lx"] dm by auto
    moreover have "lex_run lx = lex_run (after_skip m lx)"
      using c st by (simp add: lex_run.simps [of lx])
    ultimately show ?thesis
      using eq by (auto simp: advance_after_skip add.assoc)
  qed
  show ?case
  proof (cases "s \<noteq> [] \<and> is_space (hd s)")
    case True
    then obtain c r where s: "s = c # r" "is_space c" by (cases s) auto
    then show ?thesis
      using go [of 1 r] lex_step_special(1) [of lx c r] "1.prems" "1.IH"(1) drop_Cons_nth [of _ _ c r]
      by (simp add: skip_trivia_space)
  next
    case space: False
    show ?thesis
    proof (cases "take 2 s = ''//''")
      case True
      then obtain r where s: "s = CHR ''/'' # CHR ''/'' # r"
        by (cases s; cases "tl s") auto
      then have d: "drop (lx_cursor lx) (lx_source lx) = CHR ''/'' # CHR ''/'' # r" using "1.prems"(2) by simp
      let ?w = "takeWhile (\<lambda>c. c \<noteq> newline) r"
      have "lex_step lx = Some (after_skip (length (CHR ''/'' # CHR ''/'' # ?w)) lx)"
        using lex_step_special(5) [OF d] lx_line_comment_eq [OF d] by (simp add: next_in_def)
      moreover have "drop (lx_cursor lx + length (CHR ''/'' # CHR ''/'' # ?w)) (lx_source lx) = dropWhile (\<lambda>c. c \<noteq> newline) r"
        using d by (intro drop_prefix) simp
      moreover have "\<And>lx. lex_inv lx \<Longrightarrow> drop (lx_cursor lx) (lx_source lx) = dropWhile (\<lambda>c. c \<noteq> newline) r \<Longrightarrow>
               \<exists>n. lex_run lx = lex_run (after_skip n lx) \<and> lex_inv (after_skip n lx)
             \<and> drop (lx_cursor lx + n) (lx_source lx) = skip_trivia (dropWhile (\<lambda>c. c \<noteq> newline) r)"
        using "1.IH"(2) [OF space True] s by simp
      ultimately show ?thesis
        using s skip_trivia_comment by (intro go) auto
    next
      case False
      then have "skip_trivia s = s" using space by (subst skip_trivia.simps) auto
      then show ?thesis using "1.prems" by (intro exI [of _ 0]) (simp add: after_skip_def)
    qed
  qed
qed

lemma lex_run_covers:
  assumes "lex_inv lx" and "covers_to (lx_source lx) (lx_cursor lx) ts (length (lx_source lx))"
  shows "\<exists>lx'. lex_run lx = Some lx' \<and> lx_tokens lx' = lx_tokens lx @ ts \<and> lx_diagnostics lx' = lx_diagnostics lx
              \<and> lx_cursor lx' = length (lx_source lx)"
  using assms
proof (induction ts arbitrary: lx)
  case Nil
  obtain n where n: "lex_run lx = lex_run (after_skip n lx)" "lex_inv (after_skip n lx)"
    "drop (lx_cursor lx + n) (lx_source lx) = skip_trivia (drop (lx_cursor lx) (lx_source lx))"
    using lex_run_trivia [OF Nil.prems(1) refl] by blast
  then have "lx_cursor (after_skip n lx) = length (lx_source lx)"
    using Nil.prems(2) by (simp add: lex_inv_def)
  then have "lex_run (after_skip n lx) = Some (after_skip n lx)"
    by (simp add: lex_run.simps [of "after_skip n lx"])
  then show ?case
    using n(1) \<open>lx_cursor (after_skip n lx) = length (lx_source lx)\<close>
    by (intro exI [of _ "after_skip n lx"]) (simp add: after_skip_def)
next
  case (Cons t ts)
  let ?s = "lx_source lx" and ?a = "span_start (token_span t)" and ?b = "span_end (token_span t)"
  have t: "token_at ?s (lx_cursor lx) t" and ts: "covers_to ?s ?b ts (length ?s)"
    using Cons.prems(2) by simp_all
  obtain n where n: "lex_run lx = lex_run (after_skip n lx)" "lex_inv (after_skip n lx)"
    "drop (lx_cursor lx + n) ?s = drop ?a ?s"
    using lex_run_trivia [OF Cons.prems(1) refl] t by (auto simp: token_at_def Let_def)
  define lx1 where "lx1 = after_skip n lx"
  define w where "w = slice ?s ?a ?b"
  have ab: "?a < ?b" "?b \<le> length ?s" using t by (simp_all add: token_at_def Let_def)
  have a: "lx_cursor lx1 = ?a" "lx_source lx1 = ?s"
    using n(2,3) ab by (auto simp: lx1_def lex_inv_def dest!: arg_cong [of _ _ length])
  have d: "drop (lx_cursor lx1) (lx_source lx1) = w @ drop ?b ?s" and w: "length w = ?b - ?a"
    using a ab append_take_drop_id [of "?b - ?a" "drop ?a ?s"] by (simp_all add: w_def slice_def drop_take)
  have st: "lex_step lx1 = Some (after_token (token_kind t) (?b - ?a) lx1)"
    using lex_step_token [OF n(2) [folded lx1_def] d] t w by (simp add: token_at_def Let_def w_def)
  have "t = \<lparr>token_kind = token_kind t, token_span = span_new ?a ?b\<rparr>"
    using t by (simp add: token_at_def Let_def span_new_def)
  then have tok: "lx_tokens (after_token (token_kind t) (?b - ?a) lx1) = lx_tokens lx @ [t]"
    using a ab by (simp add: after_token_def lx1_def after_skip_def)
  have "lx_cursor lx1 < length (lx_source lx1)" using a ab by simp
  moreover from this have "lex_inv (after_token (token_kind t) (?b - ?a) lx1)"
    using lex_step_inv [OF n(2) [folded lx1_def]] st by auto
  then obtain lx' where "lex_run (after_token (token_kind t) (?b - ?a) lx1) = Some lx'"
    "lx_tokens lx' = lx_tokens lx @ [t] @ ts" "lx_diagnostics lx' = lx_diagnostics lx" "lx_cursor lx' = length ?s"
    using Cons.IH [of "after_token (token_kind t) (?b - ?a) lx1"] ts tok a ab
    by (auto simp: after_token_def lx1_def after_skip_def)
  ultimately show ?case
    using n(1) st by (auto simp: lex_run.simps [of lx1] simp flip: lx1_def)
qed

section \<open>Properties\<close>

lemma lex_covers:
  assumes "utf8_valid source" and l: "lex source = Some (Ok tokens)"
  shows "covers source tokens"
proof -
  obtain lx where lx: "lex_run (lexer_new source) = Some lx" "lex_inv lx" "lx_cursor lx = length source"
    "lx_source lx = source"
    using lex_run_inv [OF lex_inv_new [OF assms(1)]] by (auto simp: lexer_new_def)
  then have "tokens = lx_tokens lx @ [\<lparr>token_kind = TkEof, token_span = span_new (length source) (length source)\<rparr>]"
    and "lx_diagnostics lx = []"
    using l by (auto simp: lex_def lex_finish_def Let_def split: if_splits)
  then show ?thesis
    using lx by (simp add: covers_def lex_inv_def)
qed

lemma covers_lex:
  assumes "utf8_valid source" and c: "covers source tokens"
  shows "lex source = Some (Ok tokens)"
proof -
  have "covers_to (lx_source (lexer_new source)) (lx_cursor (lexer_new source)) (butlast tokens)
               (length (lx_source (lexer_new source)))"
    using c by (simp add: covers_def lexer_new_def)
  then obtain lx where "lex_run (lexer_new source) = Some lx" "lx_tokens lx = butlast tokens"
    "lx_diagnostics lx = []" "lx_cursor lx = length source"
    using lex_run_covers [OF lex_inv_new [OF assms(1)]] by (fastforce simp: lexer_new_def)
  moreover have "tokens = butlast tokens @ [\<lparr>token_kind = TkEof, token_span = span_new (length source) (length source)\<rparr>]"
    using c by (metis append_butlast_last_id covers_def)
  ultimately show ?thesis
    by (simp add: lex_def lex_finish_def Let_def)
qed

text \<open>
  C1 On valid UTF-8 the lexer accepts a token list exactly when it covers the source: every token is
  a maximal spelling of its kind, only white space and comments stand between tokens, and the last
  one is the end of file. It therefore neither loses nor invents input, and at most one token list
  covers a source.
\<close>

theorem lex_iff_covers:
  assumes "utf8_valid source"
  shows "lex source = Some (Ok tokens) \<longleftrightarrow> covers source tokens"
  using lex_covers covers_lex assms by blast

lemma example_skips:
  "skip_trivia ''a + 1'' = ''a + 1''" "skip_trivia '' + 1'' = ''+ 1''" "skip_trivia '' 1'' = ''1''"
proof -
  have "is_space CHR '' ''" "\<not> is_space CHR ''a''" "\<not> is_space CHR ''+''" "\<not> is_space CHR ''1''"
    by (simp_all add: is_space_def newline_def)
  then show "skip_trivia ''a + 1'' = ''a + 1''" "skip_trivia '' + 1'' = ''+ 1''" "skip_trivia '' 1'' = ''1''"
    by (simp_all add: skip_trivia_other [OF refl] skip_trivia_space)
qed

theorem lex_iff_covers_witness:
  "lex ''a + 1'' = Some (Ok [\<lparr>token_kind = TkIdentifier ''a'', token_span = span_new 0 1\<rparr>,
     \<lparr>token_kind = TkPlus, token_span = span_new 2 3\<rparr>, \<lparr>token_kind = TkInteger 1, token_span = span_new 4 5\<rparr>,
     \<lparr>token_kind = TkEof, token_span = span_new 5 5\<rparr>])"
proof -
  have v: "utf8_valid ''a + 1''"
    by (simp add: utf8_valid.simps utf8_width_def byte_in_def byte_def)
  have "token_at ''a + 1'' 0 \<lparr>token_kind = TkIdentifier ''a'', token_span = span_new 0 1\<rparr>"
    by (simp add: token_at_def example_skips slice_def lexeme_def maximal_def next_in_def keyword_kind_def
        is_word_def is_ident_start_def is_ident_byte_def is_ascii_alphanumeric_def is_ascii_alphabetic_def
        is_ascii_lower_def is_ascii_upper_def is_ascii_digit_def byte_def)
  moreover have "token_at ''a + 1'' 1 \<lparr>token_kind = TkPlus, token_span = span_new 2 3\<rparr>"
    by (simp add: token_at_def example_skips slice_def lexeme_def maximal_def next_in_def spelling_def
        numeral_2_eq_2 numeral_3_eq_3)
  moreover have "token_at ''a + 1'' 3 \<lparr>token_kind = TkInteger 1, token_span = span_new 4 5\<rparr>"
    by (simp add: token_at_def example_skips slice_def lexeme_def maximal_def next_in_def is_digits_def
        digits_value_def is_ascii_digit_def byte_def)
  ultimately show ?thesis
    by (subst lex_iff_covers [OF v]) (simp add: covers_def)
qed

lemma lex_returns:
  assumes "utf8_valid source"
  shows "\<exists>r. lex source = Some r \<and>
             (\<forall>ds. r = Err ds \<longrightarrow> ds \<noteq> [] \<and> list_all (\<lambda>d. span_in source (diag_span d)) ds)"
proof -
  obtain lx where lx: "lex_run (lexer_new source) = Some lx" "lex_inv lx" "lx_source lx = source"
    using lex_run_inv [OF lex_inv_new [OF assms]] by (auto simp: lexer_new_def)
  then show ?thesis
    by (auto simp: lex_def lex_finish_def Let_def lex_inv_def)
qed

text \<open>
  C2 The lexer is total on valid UTF-8: no slice panics, the loop ends, and when it rejects the
  source it reports at least one diagnostic, each on a non-empty piece of the source that is cut at
  character boundaries.
\<close>

theorem lex_total:
  assumes "utf8_valid source"
  shows "\<exists>r. lex source = Some r \<and>
             (\<forall>ds. r = Err ds \<longrightarrow> ds \<noteq> [] \<and> list_all (\<lambda>d. span_in source (diag_span d)) ds)"
  by (rule lex_returns [OF assms])

theorem lex_total_witness: "\<exists>r. lex ''a'' = Some r"
  using lex_total [of "''a''"] by (auto simp: utf8_valid.simps utf8_width_def byte_in_def byte_def)

text \<open>Printing tokens, each followed by a space, and where they then stand.\<close>

definition print_tokens :: "token_kind list \<Rightarrow> string" where
  "print_tokens ks = concat (map (\<lambda>k. spelling k @ '' '') ks)"

fun tokens_from :: "nat \<Rightarrow> token_kind list \<Rightarrow> token list" where
  "tokens_from pos [] = []"
| "tokens_from pos (k # ks) =
     \<lparr>token_kind = k, token_span = span_new pos (pos + length (spelling k))\<rparr>
     # tokens_from (pos + length (spelling k) + 1) ks"

definition printable :: "token_kind \<Rightarrow> bool" where
  "printable k \<longleftrightarrow> lexeme k (spelling k)"

lemma lexeme_start:
  "lexeme k lit \<Longrightarrow> lit \<noteq> [] \<and> \<not> is_space (hd lit) \<and> (hd lit = CHR ''/'' \<longrightarrow> k = TkSlash \<or> k = TkSlashEqual)"
proof (cases k)
  case (TkFloat v)
  moreover assume "lexeme k lit"
  ultimately obtain whole fraction where "lit = whole @ CHR ''.'' # fraction" "is_digits whole"
    by (auto simp: lexeme_def Let_def)
  then show ?thesis
    using digit_not_trivia by (cases whole) (auto simp: is_digits_def)
next
  case (TkInteger v)
  moreover assume "lexeme k lit"
  ultimately show ?thesis
    using digit_not_trivia by (cases lit) (auto simp: is_digits_def lexeme_def)
next
  case (TkIdentifier w)
  moreover assume "lexeme k lit"
  ultimately show ?thesis
    using word_not_trivia by (cases lit) (auto simp: is_word_def lexeme_def)
qed (simp_all add: lexeme_def spelling_def is_space_def newline_def quote_def)

lemma maximal_space: "maximal k (CHR '' '' # rest)"
proof -
  have "\<not> is_ident_byte CHR '' ''" "\<not> is_ascii_digit CHR '' ''"
    using specials_not_words [of "CHR '' ''"]
    by (auto simp: specials_def is_ident_byte_def is_ascii_alphanumeric_def)
  then show ?thesis by (cases k; simp add: maximal_def next_in_def)
qed

lemma covers_printed:
  assumes "drop q source = print_tokens ks" and "list_all printable ks" and "p \<le> q" and "q \<le> length source"
    and "skip_trivia (drop p source) = skip_trivia (drop q source)"
  shows "covers_to source p (tokens_from q ks) (length source)"
  using assms
proof (induction ks arbitrary: p q)
  case (Cons k ks)
  let ?n = "length (spelling k)"
  have lex: "lexeme k (spelling k)" using Cons.prems(2) by (simp add: printable_def)
  have d: "drop q source = spelling k @ CHR '' '' # print_tokens ks"
    using Cons.prems(1) by (simp add: print_tokens_def)
  have rest: "drop (q + ?n) source = CHR '' '' # print_tokens ks" using drop_prefix [OF d] .
  have len: "q + ?n < length source" "0 < ?n"
    using drop_Cons_nth [OF rest] lexeme_start [OF lex] by auto
  have "skip_trivia (drop q source) = drop q source"
    unfolding d using lexeme_start [OF lex]
    by (cases "spelling k"; cases "tl (spelling k)")
       (auto simp: next_in_def spelling_def intro!: skip_trivia_other)
  then have t: "token_at source p \<lparr>token_kind = k, token_span = span_new q (q + ?n)\<rparr>"
    using Cons.prems len lex maximal_space by (simp add: token_at_def Let_def slice_prefix [OF d] rest)
  have "drop (q + ?n + 1) source = print_tokens ks"
    using drop_Cons_nth [OF rest] by simp
  moreover have "skip_trivia (drop (q + ?n) source) = skip_trivia (drop (q + ?n + 1) source)"
    unfolding rest using drop_Cons_nth [OF rest] by (simp add: skip_trivia_space is_space_def)
  ultimately have "covers_to source (q + ?n) (tokens_from (q + ?n + 1) ks) (length source)"
    using Cons.prems(2) len by (intro Cons.IH) auto
  with t show ?case by simp
qed (auto simp: print_tokens_def)



end
