(* ===== verification/Frontend.thy ===== *)
theory Frontend
  imports Parser_Correct Lexer_Correct
begin

text \<open>
  The lexer and the parser composed: the front end on the bytes of one source.
\<close>

definition parse_source :: "string \<Rightarrow> (diagnostic list, program) result option" where
  "parse_source source =
     (case lex source of
        None \<Rightarrow> None
      | Some (Inl ds) \<Rightarrow> Some (Err ds)
      | Some (Inr tokens) \<Rightarrow> parse tokens)"

lemma covers_to_source: "covers_to source pos ts cur \<Longrightarrow> t \<in> set ts \<Longrightarrow> span_source (token_span t) = source_default"
  by (induction source pos ts cur rule: covers_to.induct) (auto simp: token_at_def Let_def)

lemma lexed_tokens_ok:
  assumes "utf8_valid source" and "lex source = Some (Ok tokens)"
  shows "tokens_ok source_default tokens"
proof -
  have c: "covers source tokens" by (rule lex_covers [OF assms])
  have "of_source source_default (token_span t)" if "t \<in> set tokens" for t
  proof (cases "t \<in> set (butlast tokens)")
    case True
    then show ?thesis
      using c covers_to_source [of source 0 "butlast tokens"] by (auto simp: covers_def of_source_def)
  next
    case False
    then have "t = last tokens"
      using that by (cases tokens rule: rev_cases) auto
    then show ?thesis using c by (simp add: covers_def of_source_def)
  qed
  then show ?thesis using c by (simp add: tokens_ok_def covers_def)
qed

lemma parse_source_returns:
  assumes "utf8_valid source"
  shows "case parse_source source of
           None \<Rightarrow> False
         | Some (Inl ds) \<Rightarrow> ds \<noteq> []
         | Some (Inr prog) \<Rightarrow> program_fits prog"
proof (cases "\<exists>tokens. lex source = Some (Ok tokens)")
  case True
  then obtain tokens where l: "lex source = Some (Ok tokens)" by blast
  then have ok: "tokens_ok source_default tokens" by (rule lexed_tokens_ok [OF assms])
  obtain r where r: "import_headers tokens = Some r" using import_headers_total [OF ok] by blast
  then have "ds \<noteq> []" if "r = Err ds" for ds
    using that by (auto simp: import_headers_def parse_result_def split: sum.splits parse_failure.splits)
  moreover have "ds \<noteq> []" if "parse_file tokens True [] = Some (Err ds)" for ds
    using that by (auto simp: parse_file_def parse_result_def split: sum.splits parse_failure.splits)
  ultimately show ?thesis
    using l r parse_file_fits [OF ok, of True "[]"]
    by (auto simp: parse_source_def parse_def split: sum.split list.split)
next
  case False
  then obtain ds where "lex source = Some (Err ds)" "ds \<noteq> []"
    using lex_returns [OF assms] by (metis sum.exhaust)
  then show ?thesis by (simp add: parse_source_def)
qed

text \<open>
  C4 The front end is total on every valid UTF-8 source: no token is read past the end of the list, no
  spans of different sources are joined, no empty stack of scopes is bound into, and every loop ends. When
  it accepts, the program it returns has a valid resolution, constants and globals not yet evaluated, and nests
  types, blocks and expressions together less than \<^const>\<open>MAX_NESTING\<close> levels deep;
  when it rejects, it reports a diagnostic.
\<close>

theorem frontend_total:
  assumes "utf8_valid source"
  shows "case parse_source source of
           None \<Rightarrow> False
         | Some (Inl ds) \<Rightarrow> ds \<noteq> []
         | Some (Inr prog) \<Rightarrow> program_fits prog"
  by (rule parse_source_returns [OF assms])

theorem frontend_total_witness: "parse_source ''game a'' \<noteq> None"
  using frontend_total [of "''game a''"]
  by (auto simp: utf8_valid.simps utf8_width_def byte_in_def byte_def split: option.splits)

end
