(* ===== verification/Modules_Correct.thy ===== *)
theory Modules_Correct
  imports Modules Frontend
begin

text \<open>
  What the visit of the import graph promises: it never panics and never recurses deeper than its
  limit, and the graph it accepts is acyclic, of bounded height, with one module for each file and a qualifier of
  its own for each module.
\<close>

section \<open>Weakest preconditions of actions\<close>

named_theorems act_simps \<open>weakest preconditions of the actions of the loader\<close>

definition awp :: "('s, 'a) act \<Rightarrow> 's \<Rightarrow> ('a \<Rightarrow> 's \<Rightarrow> bool) \<Rightarrow> bool" where
  "awp f s Q \<longleftrightarrow>
     (case f s of None \<Rightarrow> False | Some (Inl ds, _) \<Rightarrow> ds \<noteq> [] | Some (Inr a, s') \<Rightarrow> Q a s')"

lemma awp_mono: "awp f s P \<Longrightarrow> (\<And>a s'. P a s' \<Longrightarrow> Q a s') \<Longrightarrow> awp f s Q"
  by (auto simp: awp_def split: option.splits sum.splits)

lemma awp_ret [act_simps]: "awp (aret a) s Q \<longleftrightarrow> Q a s"
  by (simp add: awp_def aret_def)

lemma awp_fail [act_simps]: "awp (afail ds) s Q \<longleftrightarrow> ds \<noteq> []"
  by (simp add: awp_def afail_def)

lemma awp_panic [act_simps]: "\<not> awp apanic s Q"
  by (simp add: awp_def apanic_def)

lemma awp_bind [act_simps]: "awp (abind f g) s Q \<longleftrightarrow> awp f s (\<lambda>a s'. awp (g a) s' Q)"
  by (auto simp: awp_def abind_def split: option.split sum.split)

lemma awp_get [act_simps]: "awp (aget f) s Q \<longleftrightarrow> Q (f s) s"
  by (simp add: awp_def aget_def)

lemma awp_modify [act_simps]: "awp (amodify f) s Q \<longleftrightarrow> Q () (f s)"
  by (simp add: awp_def amodify_def)

lemma awp_unwrap [act_simps]: "awp (aunwrap x) s Q \<longleftrightarrow> (\<exists>a. x = Some a \<and> Q a s)"
  by (simp add: aunwrap_def act_simps split: option.split)

lemma awp_result [act_simps]:
  "awp (aresult r) s Q \<longleftrightarrow> (case r of Inl ds \<Rightarrow> ds \<noteq> [] | Inr a \<Rightarrow> Q a s)"
  by (simp add: aresult_def act_simps split: sum.split)

lemma awp_call [act_simps]:
  "awp (acall r) s Q \<longleftrightarrow> (case r of None \<Rightarrow> False | Some (Inl ds) \<Rightarrow> ds \<noteq> [] | Some (Inr a) \<Rightarrow> Q a s)"
  by (simp add: acall_def act_simps split: option.split)

lemma awp_if [act_simps]: "awp (if b then f else g) s Q \<longleftrightarrow> (if b then awp f s Q else awp g s Q)"
  by simp

section \<open>The invariant of the loader\<close>

definition qualifier_of :: "string \<Rightarrow> nat \<Rightarrow> string \<Rightarrow> string" where
  "qualifier_of root_dir i canonical =
     (if i = 0 then [] else case strip_path_prefix root_dir canonical of Some q \<Rightarrow> q | None \<Rightarrow> canonical)"

text \<open>A finished module: its imports are finished modules of smaller height.\<close>

definition finished_ok :: "loader \<Rightarrow> loaded_module \<Rightarrow> bool" where
  "finished_ok l m \<longleftrightarrow>
     0 < lm_height m \<and> lm_height m \<le> MAX_IMPORT_DEPTH \<and> distinct (map (import_alias \<circ> fst) (lm_imports m)) \<and>
     (\<exists>src. tokens_ok src (lm_tokens m)) \<and>
     (\<forall>(imported, t) \<in> set (lm_imports m). \<exists>m'. module_at l t = Some m' \<and> lm_height m' < lm_height m)"

definition known_file :: "file_system \<Rightarrow> loader \<Rightarrow> string \<Rightarrow> nat \<Rightarrow> bool" where
  "known_file fs l canonical i \<longleftrightarrow>
     normal_path canonical \<and> (\<exists>text. fs_read_to_string fs canonical = Ok text) \<and>
     (ld_modules l ! i = None \<longleftrightarrow> canonical \<in> set (ld_active l)) \<and>
     (i = 0 \<longrightarrow> path_parent canonical = Some (ld_root_dir l)) \<and>
     (\<forall>m. ld_modules l ! i = Some m \<longrightarrow> lm_qualifier m = qualifier_of (ld_root_dir l) i canonical)"

definition loader_ok :: "file_system \<Rightarrow> loader \<Rightarrow> bool" where
  "loader_ok fs l \<longleftrightarrow>
     distinct (map fst (ld_identities l)) \<and> map snd (ld_identities l) = rev [0..<length (ld_modules l)] \<and>
     set (ld_active l) \<subseteq> fst ` set (ld_identities l) \<and>
     (\<forall>(canonical, i) \<in> set (ld_identities l). known_file fs l canonical i) \<and>
     (\<forall>i m. module_at l i = Some m \<longrightarrow> finished_ok l m)"

definition extends_loader :: "loader \<Rightarrow> loader \<Rightarrow> bool" where
  "extends_loader l l' \<longleftrightarrow>
     ld_active l' = ld_active l \<and>
     (\<exists>ms. ld_modules l' = ld_modules l @ ms) \<and> (\<exists>ks. ld_identities l' = ks @ ld_identities l) \<and>
     (ld_modules l \<noteq> [] \<longrightarrow> ld_root_dir l' = ld_root_dir l)"

lemma extends_refl [simp]: "extends_loader l l"
  by (simp add: extends_loader_def)

lemma extends_trans: "extends_loader l l' \<Longrightarrow> extends_loader l' l'' \<Longrightarrow> extends_loader l l''"
  by (auto simp: extends_loader_def)

lemma extends_module_at: "extends_loader l l' \<Longrightarrow> module_at l i = Some m \<Longrightarrow> module_at l' i = Some m"
  by (auto simp: extends_loader_def module_at_def nth_append split: if_splits)

text \<open>The map of sources plays no part in it.\<close>

lemma loader_ok_sources [simp]:
  "loader_ok fs (l\<lparr>ld_sources := s\<rparr>) = loader_ok fs l"
  "extends_loader (l\<lparr>ld_sources := s\<rparr>) l' = extends_loader l l'"
  "module_at (l\<lparr>ld_sources := s\<rparr>) i = module_at l i"
  by (simp_all add: loader_ok_def known_file_def finished_ok_def module_at_def extends_loader_def)

lemma loader_ok_range: "loader_ok fs l \<Longrightarrow> snd ` set (ld_identities l) = {0..<length (ld_modules l)}"
  by (simp add: loader_ok_def flip: set_map)

lemma loader_ok_identity:
  assumes "loader_ok fs l" and "(canonical, i) \<in> set (ld_identities l)"
  shows "i < length (ld_modules l)" and "known_file fs l canonical i"
    and "hm_get (ld_identities l) canonical = Some i"
proof -
  show "i < length (ld_modules l)" using assms(2) loader_ok_range [OF assms(1)] by force
  show "known_file fs l canonical i" using assms by (auto simp: loader_ok_def)
  show "hm_get (ld_identities l) canonical = Some i"
    using assms by (simp add: loader_ok_def hm_get_def)
qed

lemma loader_ok_index:
  assumes "loader_ok fs l" and "(c, i) \<in> set (ld_identities l)" and "(c', i) \<in> set (ld_identities l)"
  shows "c = c'"
proof -
  have "distinct (map snd (ld_identities l))" using assms(1) by (simp add: loader_ok_def)
  then show ?thesis using assms(2,3) by (force simp: distinct_map inj_on_def)
qed

lemma loader_ok_file:
  assumes "loader_ok fs l" and "i < length (ld_modules l)"
  obtains canonical where "(canonical, i) \<in> set (ld_identities l)"
proof -
  have "i \<in> snd ` set (ld_identities l)" using assms by (simp add: loader_ok_range)
  then show ?thesis using that by force
qed

lemma loader_ok_new: "loader_ok fs loader_new"
  by (simp add: loader_ok_def loader_new_def module_at_def)

section \<open>Locating and opening a file\<close>

lemma awp_locate:
  assumes "loader_ok fs l"
    and "\<And>s c. fs_canonicalize fs path = Ok c \<Longrightarrow> c \<notin> set (ld_active l) \<Longrightarrow> hm_get (ld_identities l) c = None \<Longrightarrow>
      length (ld_active l) < MAX_IMPORT_DEPTH \<Longrightarrow> Q (c, None) (l\<lparr>ld_sources := s\<rparr>)"
    and "\<And>s c i m. module_at l i = Some m \<Longrightarrow> length (ld_active l) + lm_height m \<le> MAX_IMPORT_DEPTH \<Longrightarrow>
      Q (c, Some i) (l\<lparr>ld_sources := s\<rparr>)"
  shows "awp (locate_source fs path span) l Q"
proof -
  have known: "\<exists>m. module_at l i = Some m"
    if "hm_get (ld_identities l) c = Some i" and "c \<notin> set (ld_active l)" for c i
  proof -
    have "(c, i) \<in> set (ld_identities l)" using that(1) by (simp add: hm_get_def map_of_SomeD)
    from loader_ok_identity [OF assms(1) this] that(2) show ?thesis
      by (auto simp: known_file_def module_at_def)
  qed
  have state: "l\<lparr>ld_sources := s\<rparr>\<lparr>ld_sources := s'\<rparr> = l\<lparr>ld_sources := s'\<rparr>" for s s' by simp
  have after: "awp (\<lambda>l.
              if c \<in> set (ld_active l) then
                afail [diag (cycle_message (ld_active l) c) span] l
              else
                abind (case hm_get (ld_identities l) c of
                         None \<Rightarrow> aret (None, 1)
                       | Some i \<Rightarrow>
                           abind (aunwrap (module_at l i)) (\<lambda>m. aret (Some i, lm_height m))) (\<lambda>(cached, height).
                  if MAX_IMPORT_DEPTH < length (ld_active l) + height then afail [diag depth_message span]
                  else aret (c, cached)) l) (l\<lparr>ld_sources := s\<rparr>) Q"
    if c: "fs_canonicalize fs path = Ok c" for c s
  proof (cases "c \<in> set (ld_active l)")
    case True
    then show ?thesis by (simp add: awp_def afail_def)
  next
    case False
    show ?thesis
    proof (cases "hm_get (ld_identities l) c")
      case None
      then show ?thesis using False assms(2) [OF c False None]
        by (simp add: awp_def abind_def aret_def afail_def)
    next
      case (Some i)
      then obtain m where "module_at l i = Some m" using known False by blast
      then show ?thesis using False Some assms(3)
        by (simp add: awp_def abind_def aret_def afail_def aunwrap_def)
    qed
  qed
  show ?thesis
    unfolding locate_source_def
    by (auto simp: act_simps ld_record_def after split: sum.split)
qed

lemma lex_in_tokens:
  assumes "utf8_valid text" and "lex_in text sid = Some r"
  shows "case r of Inl ds \<Rightarrow> ds \<noteq> [] | Inr tokens \<Rightarrow> tokens_ok sid tokens"
proof -
  obtain q where q: "lex text = Some q" using assms(2) by (auto simp: lex_in_def)
  show ?thesis
  proof (cases q)
    case (Inl ds)
    then show ?thesis using lex_returns [OF assms(1)] q assms(2) by (auto simp: lex_in_def)
  next
    case (Inr tokens)
    then have "tokens_ok source_default tokens" using lexed_tokens_ok [OF assms(1)] q by simp
    then show ?thesis using assms(2) q Inr
      by (auto simp: lex_in_def tokens_ok_def last_map of_source_def set_source_def)
  qed
qed

lemma import_headers_returns:
  assumes "tokens_ok src tokens"
  shows "case import_headers tokens of None \<Rightarrow> False | Some (Inl ds) \<Rightarrow> ds \<noteq> [] | Some (Inr _) \<Rightarrow> True"
  using import_headers_total [OF assms]
  by (auto simp: import_headers_def parse_result_def split: sum.splits parse_failure.splits)

lemma normal_path_parent:
  assumes "normal_path c" and "c \<noteq> ''/''"
  shows "\<exists>d. path_parent c = Some d"
  using assms by (auto simp: path_parent_def Let_def normal_path_def is_absolute_def)

text \<open>A file once opened: the loader but for its sources, and for the directory of the first file.\<close>

definition opened_loader :: "string \<Rightarrow> source_map \<Rightarrow> loader \<Rightarrow> loader" where
  "opened_loader canonical s l =
     l\<lparr>ld_sources := s, ld_root_dir := if ld_modules l = [] then the (path_parent canonical) else ld_root_dir l\<rparr>"

lemma awp_open_module:
  assumes sane: "file_system_sane fs" and c: "fs_canonicalize fs path = Ok c"
    and post: "\<And>s tokens headers src contents. tokens_ok src tokens \<Longrightarrow> fs_read_to_string fs c = Ok contents \<Longrightarrow>
      Q (tokens, qualifier_of (ld_root_dir (opened_loader c s l)) (length (ld_modules l)) c, headers) (opened_loader c s l)"
  shows "awp (open_module fs path c span) l Q"
proof (cases "fs_read_to_string fs c")
  case (Inl e)
  then show ?thesis by (simp add: open_module_def act_simps map_error_def)
next
  case (Inr content)
  have utf8: "utf8_valid content" and root: "c \<noteq> ''/''"
    using sane Inr by (auto simp: file_system_sane_def)
  have "normal_path c" using sane c by (auto simp: file_system_sane_def)
  from normal_path_parent [OF this root] obtain d where d: "path_parent c = Some d" ..
  have rest: "awp (abind (acall (lex_in content sid)) (\<lambda>tokens.
      abind (acall (import_headers tokens)) (\<lambda>headers. aret (tokens, q, headers)))) (opened_loader c s l) Q"
    if q: "q = qualifier_of (ld_root_dir (opened_loader c s l)) (length (ld_modules l)) c" for s sid q
  proof -
    obtain r where r: "lex_in content sid = Some r"
      using lex_returns [OF utf8] by (auto simp: lex_in_def)
    show ?thesis
    proof (cases r)
      case (Inl ds)
      then show ?thesis using lex_in_tokens [OF utf8 r] r by (simp add: act_simps)
    next
      case (Inr tokens)
      then have ok: "tokens_ok sid tokens" using lex_in_tokens [OF utf8 r] by simp
      show ?thesis
        using import_headers_returns [OF ok] post [OF ok \<open>fs_read_to_string fs c = Ok content\<close>] r Inr q
        by (auto simp: act_simps split: option.splits sum.splits)
    qed
  qed
  have sources: "awp (add_source p content) l' Q' \<longleftrightarrow>
      (\<forall>sid s. source_add p content (ld_sources l') = (sid, s) \<longrightarrow> Q' sid (l'\<lparr>ld_sources := s\<rparr>))" for p l' Q'
    by (auto simp: awp_def add_source_def split: prod.split)
  have upd: "l\<lparr>ld_root_dir := d, ld_sources := s\<rparr> = opened_loader c s l" if "ld_modules l = []" for s
    using that d by (simp add: opened_loader_def)
  have keep: "l\<lparr>ld_sources := s\<rparr> = opened_loader c s l" if "ld_modules l \<noteq> []" for s
    using that by (simp add: opened_loader_def)
  show ?thesis
  proof (cases "ld_modules l = []")
    case True
    then have q: "[] = qualifier_of (ld_root_dir (opened_loader c s l)) (length (ld_modules l)) c" for s
      by (simp add: qualifier_of_def)
    show ?thesis
      using True by (simp add: open_module_def act_simps map_error_def Inr set_root_dir_def module_qualifier_def sources d)
         (unfold upd [OF True], use rest [OF q, unfolded act_simps] in blast)
  next
    case False
    have "awp (add_source p content) l (\<lambda>sid l'. awp (abind (acall (lex_in content sid)) (\<lambda>tokens.
        abind (acall (import_headers tokens)) (\<lambda>headers. aret (tokens, q, headers)))) l' Q)"
      if "q = qualifier_of (ld_root_dir l) (length (ld_modules l)) c" for q p
      unfolding sources
    proof (intro allI impI)
      fix sid s
      show "awp (abind (acall (lex_in content sid)) (\<lambda>tokens.
          abind (acall (import_headers tokens)) (\<lambda>headers. aret (tokens, q, headers)))) (l\<lparr>ld_sources := s\<rparr>) Q"
        unfolding keep [OF False] by (rule rest) (use that False in \<open>simp add: opened_loader_def\<close>)
    qed
    note added = this [unfolded awp_bind awp_call awp_ret]
    show ?thesis
      using False
      by (cases "strip_path_prefix (ld_root_dir l) c")
         (simp_all add: open_module_def act_simps map_error_def Inr set_root_dir_def module_qualifier_def Let_def,
          auto intro!: added simp: qualifier_of_def)
  qed
qed

lemma loader_ok_no_modules: "loader_ok fs l \<Longrightarrow> ld_modules l = [] \<Longrightarrow> ld_identities l = [] \<and> ld_active l = []"
  by (auto simp: loader_ok_def)

lemma loader_ok_opened:
  assumes "loader_ok fs l"
  shows "loader_ok fs (opened_loader c s l)" and "extends_loader l (opened_loader c s l)"
proof -
  show "extends_loader l (opened_loader c s l)" by (simp add: extends_loader_def opened_loader_def)
  show "loader_ok fs (opened_loader c s l)"
  proof (cases "ld_modules l = []")
    case True
    then show ?thesis
      using loader_ok_no_modules [OF assms True] by (simp add: loader_ok_def opened_loader_def module_at_def)
  next
    case False
    then show ?thesis using assms by (simp add: opened_loader_def)
  qed
qed

section \<open>Entering and finishing a module\<close>

definition entered :: "string \<Rightarrow> loader \<Rightarrow> loader" where
  "entered c l =
     l\<lparr>ld_identities := hm_insert c (length (ld_modules l)) (ld_identities l), ld_modules := ld_modules l @ [None],
       ld_active := ld_active l @ [c]\<rparr>"

definition finished :: "nat \<Rightarrow> loaded_module \<Rightarrow> loader \<Rightarrow> loader" where
  "finished i m l = l\<lparr>ld_modules := (ld_modules l)[i := Some m], ld_active := butlast (ld_active l)\<rparr>"

lemma awp_enter [act_simps]: "awp (enter_module c) l Q \<longleftrightarrow> Q (length (ld_modules l)) (entered c l)"
  by (simp add: awp_def enter_module_def Let_def entered_def)

lemma awp_finish [act_simps]: "awp (finish_module i m) l Q \<longleftrightarrow> Q () (finished i m l)"
  by (simp add: finish_module_def act_simps finished_def)

lemma module_at_entered [simp]: "module_at (entered c l) i = module_at l i"
  by (auto simp: module_at_def entered_def nth_append)

lemma loader_ok_entered:
  assumes ok: "loader_ok fs l" and new: "hm_get (ld_identities l) c = None" "c \<notin> set (ld_active l)"
    and c: "normal_path c" "fs_read_to_string fs c = Ok contents"
    and root: "ld_modules l = [] \<Longrightarrow> path_parent c = Some (ld_root_dir l)"
  shows "loader_ok fs (entered c l)"
proof -
  have "c \<notin> fst ` set (ld_identities l)" using new(1) by (simp add: hm_get_def map_of_eq_None_iff)
  moreover have "known_file fs (entered c l) c (length (ld_modules l))"
    using c root by (simp add: known_file_def entered_def)
  moreover have "known_file fs (entered c l) c' i" if "(c', i) \<in> set (ld_identities l)" for c' i
  proof -
    have "c' \<noteq> c" using that \<open>c \<notin> fst ` set (ld_identities l)\<close> by force
    then show ?thesis
      using loader_ok_identity [OF ok that] by (simp add: known_file_def entered_def nth_append)
  qed
  moreover have "finished_ok (entered c l) m" if "module_at l i = Some m" for i m
    using ok that by (auto simp: loader_ok_def finished_ok_def)
  moreover have "ld_identities (entered c l) = (c, length (ld_modules l)) # ld_identities l"
      "ld_active (entered c l) = ld_active l @ [c]" "length (ld_modules (entered c l)) = Suc (length (ld_modules l))"
    by (simp_all add: entered_def hm_insert_def)
  ultimately show ?thesis
    using ok unfolding loader_ok_def module_at_entered by auto
qed

lemma max_or_zero_le: "max_or_zero ns \<le> b \<longleftrightarrow> (\<forall>n \<in> set ns. n \<le> b)"
proof -
  have "fold max ns a \<le> b \<longleftrightarrow> a \<le> b \<and> (\<forall>n \<in> set ns. n \<le> b)" for a
    by (induction ns arbitrary: a) auto
  then show ?thesis by (simp add: max_or_zero_def)
qed

text \<open>The imports of a module that is being visited, from a loader \<open>l\<close> in which it was entered.\<close>

definition imports_ok :: "nat \<Rightarrow> loader \<Rightarrow> (import_decl \<times> nat) list \<Rightarrow> bool" where
  "imports_ok depth l imports \<longleftrightarrow>
     distinct (map (import_alias \<circ> fst) imports) \<and>
     (\<forall>(imported, t) \<in> set imports. \<exists>m. module_at l t = Some m \<and> depth + lm_height m \<le> MAX_IMPORT_DEPTH)"

lemma imports_ok_extends: "imports_ok depth l imports \<Longrightarrow> extends_loader l l' \<Longrightarrow> imports_ok depth l' imports"
  unfolding imports_ok_def by (blast dest: extends_module_at)

lemma awp_import_heights:
  assumes "imports_ok depth l imports"
    and "\<And>hs. (\<forall>(imported, t) \<in> set imports. \<exists>m. module_at l t = Some m \<and> lm_height m \<le> max_or_zero hs) \<Longrightarrow>
      (\<forall>h \<in> set hs. depth + h \<le> MAX_IMPORT_DEPTH) \<Longrightarrow> Q hs l"
  shows "awp (import_heights imports) l Q"
proof -
  let ?hs = "map (\<lambda>(i, t). lm_height (the (module_at l t))) imports"
  have all: "\<exists>m. module_at l t = Some m \<and> depth + lm_height m \<le> MAX_IMPORT_DEPTH" if "(i, t) \<in> set imports" for i t
    using assms(1) that by (auto simp: imports_ok_def)
  have "n \<le> max_or_zero ?hs" if "n \<in> set ?hs" for n
    by (rule max_or_zero_le [THEN iffD1, OF order_refl, rule_format, OF that])
  then have "Q ?hs l"
    using all by (intro assms(2)) fastforce+
  then show ?thesis
    using all by (force simp: awp_def import_heights_def list_all_iff)
qed

lemma loader_ok_finished:
  assumes before: "loader_ok fs l" and entered: "loader_ok fs (entered c l)" and after: "loader_ok fs l'"
    and ext: "extends_loader (entered c l) l'" and imps: "imports_ok (length (ld_active l) + 1) l' (lm_imports m)"
    and heights: "\<forall>(imported, t) \<in> set (lm_imports m). \<exists>m'. module_at l' t = Some m' \<and> lm_height m' < lm_height m"
    and m: "0 < lm_height m \<and> lm_height m \<le> MAX_IMPORT_DEPTH" "tokens_ok src (lm_tokens m)"
      "lm_qualifier m = qualifier_of (ld_root_dir l) (length (ld_modules l)) c"
  defines "l3 \<equiv> finished (length (ld_modules l)) m l'"
  shows "loader_ok fs l3" and "extends_loader l l3" and "module_at l3 (length (ld_modules l)) = Some m"
proof -
  let ?n = "length (ld_modules l)"
  obtain ms ks where modules: "ld_modules l' = (ld_modules l @ [None]) @ ms" and ids: "ld_identities l' = ks @ (c, ?n) # ld_identities l"
    and active: "ld_active l' = ld_active l @ [c]" and root: "ld_root_dir l' = ld_root_dir l"
    using ext by (auto simp: extends_loader_def entered_def hm_insert_def)
  have n: "?n < length (ld_modules l')" "ld_modules l' ! ?n = None" by (simp_all add: modules nth_append)
  have l3: "ld_modules l3 = ld_modules l @ Some m # ms" "ld_active l3 = ld_active l" "ld_identities l3 = ld_identities l'"
    "ld_root_dir l3 = ld_root_dir l"
    by (simp_all add: l3_def finished_def modules active root list_update_append)
  show "module_at l3 ?n = Some m" by (simp add: module_at_def l3)
  show "extends_loader l l3" by (simp add: extends_loader_def l3 ids)
  have same: "module_at l3 i = module_at l' i" if "i \<noteq> ?n" for i
    using that by (auto simp: module_at_def l3 modules nth_append nth_Cons')
  have kept: "module_at l3 i = Some m'" if "module_at l' i = Some m'" for i m'
  proof -
    have "i \<noteq> ?n" using n that by (auto simp: module_at_def split: if_splits)
    then show ?thesis using same that by simp
  qed
  have in_ids: "(c, ?n) \<in> set (ld_identities l')" by (simp add: ids)
  have c: "c \<notin> set (ld_active l)"
  proof -
    have "fst ` set (ld_identities l) \<inter> {c} = {}"
      using entered by (auto simp: loader_ok_def entered_def hm_insert_def)
    then show ?thesis using before by (auto simp: loader_ok_def)
  qed
  have known: "known_file fs l3 c' i" if "(c', i) \<in> set (ld_identities l')" for c' i
  proof (cases "i = ?n")
    case True
    then have "c' = c" using loader_ok_index [OF after that] in_ids by auto
    then show ?thesis
      using True c loader_ok_identity(2) [OF after that] m(3) by (simp add: known_file_def l3 root)
  next
    case False
    then have "c' \<noteq> c"
      using loader_ok_identity(3) [OF after that] loader_ok_identity(3) [OF after in_ids] by auto
    moreover have "ld_modules l3 ! i = ld_modules l' ! i"
      using False by (auto simp: l3 modules nth_append nth_Cons')
    ultimately show ?thesis
      using loader_ok_identity(2) [OF after that] by (simp add: known_file_def l3 active root)
  qed
  have fin: "finished_ok l3 m'" if "module_at l3 i = Some m'" for i m'
  proof (cases "i = ?n")
    case True
    then have "m' = m" using that \<open>module_at l3 ?n = Some m\<close> by simp
    then show ?thesis
      using m imps heights kept by (fastforce simp: finished_ok_def imports_ok_def)
  next
    case False
    then have "finished_ok l' m'" using after that same by (auto simp: loader_ok_def)
    then show ?thesis using kept by (fastforce simp: finished_ok_def)
  qed
  have "length (ld_modules l3) = length (ld_modules l')" by (simp add: l3 modules)
  then show "loader_ok fs l3"
    using after known fin unfolding loader_ok_def l3(3) by (auto simp: l3 active)
qed

section \<open>The visit\<close>

definition visited :: "file_system \<Rightarrow> loader \<Rightarrow> nat \<Rightarrow> loader \<Rightarrow> bool" where
  "visited fs l i l' \<longleftrightarrow>
     loader_ok fs l' \<and> extends_loader l l' \<and>
     (\<exists>m. module_at l' i = Some m \<and> length (ld_active l) + lm_height m \<le> MAX_IMPORT_DEPTH) \<and>
     (ld_modules l = [] \<longrightarrow> i = 0)"

text \<open>A visit with fuel for every file that may become active below \<open>n\<close> active ones.\<close>

definition good_visit :: "file_system \<Rightarrow> (string \<Rightarrow> span option \<Rightarrow> (loader, nat) act) \<Rightarrow> nat \<Rightarrow> bool" where
  "good_visit fs f n \<longleftrightarrow>
     (\<forall>path sp l. loader_ok fs l \<longrightarrow> length (ld_active l) = n \<longrightarrow> awp (f path sp) l (visited fs l))"

lemma awp_visit_imports:
  assumes good: "good_visit fs f n" and dir: "path_parent c = Some dir"
  shows "loader_ok fs l \<Longrightarrow> length (ld_active l) = n \<Longrightarrow>
    awp (visit_imports f c als headers) l (\<lambda>imps l'. loader_ok fs l' \<and> extends_loader l l' \<and> imports_ok n l' imps \<and>
      set (map (import_alias \<circ> fst) imps) \<inter> set als = {})"
proof (induction headers arbitrary: als l)
  case Nil
  then show ?case by (simp add: act_simps imports_ok_def)
next
  case (Cons imported headers)
  let ?path = "path_join dir (import_path imported)" and ?sp = "Some (import_span imported)"
  have "awp (f ?path ?sp) l (visited fs l)"
    using good Cons.prems by (simp add: good_visit_def)
  then have "awp (f ?path ?sp) l (\<lambda>target l'. awp (visit_imports f c (import_alias imported # als) headers) l'
      (\<lambda>imps l''. awp (aret ((imported, target) # imps)) l'' (\<lambda>imps l'. loader_ok fs l' \<and> extends_loader l l' \<and> imports_ok n l' imps \<and>
      set (map (import_alias \<circ> fst) imps) \<inter> set als = {})))" if "import_alias imported \<notin> set als"
  proof (rule awp_mono)
    fix target l'
    assume v: "visited fs l target l'"
    then have l': "loader_ok fs l'" "length (ld_active l') = n" "extends_loader l l'"
      using Cons.prems by (auto simp: visited_def extends_loader_def)
    from Cons.IH [OF l'(1,2), of "import_alias imported # als"]
    show "awp (visit_imports f c (import_alias imported # als) headers) l'
      (\<lambda>imps l''. awp (aret ((imported, target) # imps)) l'' (\<lambda>imps l'. loader_ok fs l' \<and> extends_loader l l' \<and> imports_ok n l' imps \<and>
      set (map (import_alias \<circ> fst) imps) \<inter> set als = {}))"
    proof (rule awp_mono)
      fix imps l''
      assume h: "loader_ok fs l'' \<and> extends_loader l' l'' \<and> imports_ok n l'' imps \<and>
        set (map (import_alias \<circ> fst) imps) \<inter> set (import_alias imported # als) = {}"
      obtain m where "module_at l' target = Some m" "n + lm_height m \<le> MAX_IMPORT_DEPTH"
        using v Cons.prems by (auto simp: visited_def)
      then have "module_at l'' target = Some m" "n + lm_height m \<le> MAX_IMPORT_DEPTH"
        using h extends_module_at by auto
      then have "imports_ok n l'' ((imported, target) # imps)"
        using h by (auto simp: imports_ok_def)
      then show "awp (aret ((imported, target) # imps)) l'' (\<lambda>imps l'. loader_ok fs l' \<and> extends_loader l l' \<and> imports_ok n l' imps \<and>
          set (map (import_alias \<circ> fst) imps) \<inter> set als = {})"
        using h l'(3) that extends_trans by (auto simp: act_simps)
    qed
  qed
  then show ?case by (simp add: act_simps dir comp_def del: set_map)
qed

lemma awp_visit_module:
  assumes sane: "file_system_sane fs" and good: "good_visit fs f (Suc n)"
    and l: "loader_ok fs l" "length (ld_active l) = n" and n: "n < MAX_IMPORT_DEPTH"
    and c: "fs_canonicalize fs path = Ok c" "c \<notin> set (ld_active l)" "hm_get (ld_identities l) c = None"
  shows "awp (visit_module fs f path c span) l (visited fs l)"
  unfolding visit_module_def awp_bind
proof (rule awp_open_module [OF sane c(1)])
  fix s tokens headers src contents
  assume tokens: "tokens_ok src tokens" and contents: "fs_read_to_string fs c = Ok contents"
  let ?l1 = "opened_loader c s l"
  let ?l2 = "entered c ?l1"
  let ?n = "length (ld_modules ?l1)" and ?q = "qualifier_of (ld_root_dir ?l1) (length (ld_modules l)) c"
  have normal: "normal_path c" and root: "c \<noteq> ''/''"
    using sane c(1) contents by (auto simp: file_system_sane_def)
  obtain dir where dir: "path_parent c = Some dir" using normal_path_parent [OF normal root] ..
  have same: "ld_active ?l1 = ld_active l" "ld_modules ?l1 = ld_modules l" "ld_identities ?l1 = ld_identities l"
    by (simp_all add: opened_loader_def)
  have l1: "loader_ok fs ?l1" "extends_loader l ?l1" by (rule loader_ok_opened [OF l(1)])+
  have l2: "loader_ok fs ?l2"
    by (rule loader_ok_entered [OF l1(1) _ _ normal contents])
       (use c dir in \<open>simp_all add: same, simp add: opened_loader_def\<close>)
  have active2: "length (ld_active ?l2) = Suc n" using l(2) by (simp add: entered_def same)
  from awp_visit_imports [OF good dir l2 active2, of "[]" headers]
  have visits: "awp (visit_imports f c [] headers) ?l2 (\<lambda>imps l3. awp (import_heights imps) l3 (\<lambda>heights l4.
      visited fs l ?n (finished ?n \<lparr>lm_tokens = tokens, lm_height = 1 + max_or_zero heights, lm_imports = imps,
        lm_qualifier = ?q, lm_directory = dir\<rparr> l4)))"
  proof (rule awp_mono)
    fix imps l3
    assume h: "loader_ok fs l3 \<and> extends_loader ?l2 l3 \<and> imports_ok (Suc n) l3 imps \<and>
        set (map (import_alias \<circ> fst) imps) \<inter> set [] = {}"
    show "awp (import_heights imps) l3 (\<lambda>heights l4.
      visited fs l ?n (finished ?n \<lparr>lm_tokens = tokens, lm_height = 1 + max_or_zero heights, lm_imports = imps,
        lm_qualifier = ?q, lm_directory = dir\<rparr> l4))"
    proof (rule awp_import_heights)
      show "imports_ok (Suc n) l3 imps" using h by blast
      fix hs
      assume targets: "\<forall>(imported, t) \<in> set imps. \<exists>m. module_at l3 t = Some m \<and> lm_height m \<le> max_or_zero hs"
        and bounded: "\<forall>h \<in> set hs. Suc n + h \<le> MAX_IMPORT_DEPTH"
      let ?m = "\<lparr>lm_tokens = tokens, lm_height = 1 + max_or_zero hs, lm_imports = imps, lm_qualifier = ?q, lm_directory = dir\<rparr>"
      have "max_or_zero hs \<le> MAX_IMPORT_DEPTH - Suc n"
        using bounded n by (simp add: max_or_zero_le) fastforce
      then have height: "n + lm_height ?m \<le> MAX_IMPORT_DEPTH" using n by simp
      have h': "loader_ok fs l3" "extends_loader ?l2 l3" "imports_ok (length (ld_active ?l1) + 1) l3 (lm_imports ?m)"
        using h l(2) by (simp_all add: same)
      have low: "\<forall>(imported, t) \<in> set (lm_imports ?m). \<exists>m'. module_at l3 t = Some m' \<and> lm_height m' < lm_height ?m"
        using targets by fastforce
      have "loader_ok fs (finished ?n ?m l3)" "extends_loader ?l1 (finished ?n ?m l3)" "module_at (finished ?n ?m l3) ?n = Some ?m"
        by (rule loader_ok_finished [OF l1(1) l2 h'(1,2,3) low, of src]; use height tokens in \<open>simp add: same\<close>)+
      then show "visited fs l ?n (finished ?n ?m l3)"
        using height l(2) extends_trans [OF l1(2)] by (auto simp: visited_def same)
    qed
  qed
  show "awp (case (tokens, ?q, headers) of (tokens, qualifier, headers) \<Rightarrow>
        abind (enter_module c) (\<lambda>index.
        abind (visit_imports f c [] headers) (\<lambda>imports.
        abind (import_heights imports) (\<lambda>heights.
        abind (aunwrap (path_parent c)) (\<lambda>directory.
        abind (finish_module index \<lparr>lm_tokens = tokens, lm_height = 1 + max_or_zero heights, lm_imports = imports,
           lm_qualifier = qualifier, lm_directory = directory\<rparr>) (\<lambda>_. aret index)))))) ?l1 (visited fs l)"
    using visits by (simp add: act_simps dir)
qed

lemma good_visit_fuel:
  assumes "file_system_sane fs"
  shows "n \<le> MAX_IMPORT_DEPTH \<Longrightarrow> MAX_IMPORT_DEPTH < n + room \<Longrightarrow> good_visit fs (visit fs room) n"
proof (induction room arbitrary: n)
  case (Suc room)
  show ?case
    unfolding good_visit_def
  proof (intro allI impI)
    fix path sp l
    assume l: "loader_ok fs l" "length (ld_active l) = n"
    define l0 where "l0 = l\<lparr>ld_sources := record_dependency path (ld_sources l)\<rparr>"
    have l0: "loader_ok fs l0" "length (ld_active l0) = n" using l by (simp_all add: l0_def)
    have from_l0: "visited fs l = visited fs (l0\<lparr>ld_sources := s\<rparr>)" for s
      by (auto simp: visited_def l0_def fun_eq_iff extends_loader_def)
    let ?span = "case sp of Some s \<Rightarrow> s | None \<Rightarrow> span_default"
    let ?P = "\<lambda>(canonical, cached) l'. awp (case cached of
        Some index \<Rightarrow> aret index | None \<Rightarrow> visit_module fs (visit fs room) path canonical ?span) l' (visited fs l)"
    have "awp (locate_source fs path ?span) l0 ?P"
    proof (rule awp_locate [OF l0(1)])
      fix s c
      assume c: "fs_canonicalize fs path = Ok c" "c \<notin> set (ld_active l0)" "hm_get (ld_identities l0) c = None"
        "length (ld_active l0) < MAX_IMPORT_DEPTH"
      have "good_visit fs (visit fs room) (Suc n)"
        using Suc c(4) l0(2) by (intro Suc.IH) simp_all
      then have "awp (visit_module fs (visit fs room) path c ?span) (l0\<lparr>ld_sources := s\<rparr>) (visited fs (l0\<lparr>ld_sources := s\<rparr>))"
        by (rule awp_visit_module [OF assms]) (use c l0 in simp_all)
      then show "?P (c, None) (l0\<lparr>ld_sources := s\<rparr>)"
        using from_l0 by simp
    next
      fix s c i m
      assume m: "module_at l0 i = Some m" "length (ld_active l0) + lm_height m \<le> MAX_IMPORT_DEPTH"
      then have "ld_modules l0 \<noteq> []" by (auto simp: module_at_def)
      then have "visited fs l0 i (l0\<lparr>ld_sources := s\<rparr>)"
        using m l0 by (auto simp: visited_def extends_loader_def)
      then show "?P (c, Some i) (l0\<lparr>ld_sources := s\<rparr>)"
        using from_l0 [of "ld_sources l0"] by (simp add: act_simps)
    qed
    then show "awp (visit fs (Suc room) path sp) l (visited fs l)"
      by (simp add: visit_with_def Let_def act_simps ld_record_def l0_def split_def)
  qed
qed simp

section \<open>Qualifiers\<close>

lemma path_parts_append: "path_parts (a @ CHR ''/'' # b) = path_parts a @ path_parts b"
proof (induction a)
  case (Cons c a)
  moreover have "path_parts a \<noteq> []" by (cases a) (auto split: list.split)
  ultimately show ?case by (cases "path_parts a") auto
qed simp

lemma normal_suffix:
  assumes "normal_path (p @ CHR ''/'' # q)" and "p @ CHR ''/'' # q \<noteq> ''/''"
  shows "q \<noteq> []" and "\<not> is_absolute q"
proof -
  have "set (path_parts q) \<subseteq> set (path_parts (tl (p @ CHR ''/'' # q)))"
    by (cases p) (auto simp: path_parts_append)
  then have q: "[] \<notin> set (path_parts q)" using assms by (auto simp: normal_path_def)
  then show "q \<noteq> []" by auto
  then show "\<not> is_absolute q" using q by (cases q) (auto simp: is_absolute_def)
qed

lemma strip_path_prefix_Some:
  assumes "strip_path_prefix root c = Some q" and "c \<noteq> root"
  shows "c = (if root = ''/'' then [] else root) @ CHR ''/'' # q"
proof -
  define prefix where "prefix = (if root = ''/'' then root else root @ ''/'')"
  have "take (length prefix) c = prefix \<and> q = drop (length prefix) c"
    using assms by (simp add: strip_path_prefix_def Let_def flip: prefix_def split: if_splits)
  then have "c = prefix @ q" using append_take_drop_id [of "length prefix" c] by argo
  then show ?thesis by (simp add: prefix_def)
qed

text \<open>Under a directory that is not a file itself, different files have different qualifiers.\<close>

lemma qualifier_inject:
  assumes c: "normal_path c" "c \<noteq> ''/''" "c \<noteq> root" and d: "normal_path d" "d \<noteq> ''/''" "d \<noteq> root"
    and "i \<noteq> 0" and "j \<noteq> 0" and "qualifier_of root i c = qualifier_of root j d"
  shows "c = d"
proof -
  have rel: "\<not> is_absolute q" if "strip_path_prefix root x = Some q" "normal_path x" "x \<noteq> ''/''" "x \<noteq> root" for x q
    using normal_suffix(2) strip_path_prefix_Some that by metis
  have abs: "is_absolute c" "is_absolute d" using c d by (auto simp: normal_path_def)
  have q: "qualifier_of root i c = (case strip_path_prefix root c of Some q \<Rightarrow> q | None \<Rightarrow> c)"
    "qualifier_of root j d = (case strip_path_prefix root d of Some q \<Rightarrow> q | None \<Rightarrow> d)"
    using assms(7,8) by (simp_all add: qualifier_of_def)
  show ?thesis
  proof (cases "strip_path_prefix root c")
    case None
    then show ?thesis using assms(9) abs(1) rel [OF _ d] q by (cases "strip_path_prefix root d") auto
  next
    case (Some x)
    then have "strip_path_prefix root d = Some x"
      using assms(9) abs(2) rel [OF Some c] q by (cases "strip_path_prefix root d") auto
    from strip_path_prefix_Some [OF Some c(3)] strip_path_prefix_Some [OF this d(3)] show ?thesis by (rule trans [OF _ sym])
  qed
qed

lemma qualifier_nonempty:
  assumes "normal_path c" "c \<noteq> ''/''" "c \<noteq> root" and "i \<noteq> 0"
  shows "qualifier_of root i c \<noteq> []"
proof (cases "strip_path_prefix root c")
  case None
  then show ?thesis using assms by (simp add: qualifier_of_def normal_path_def is_absolute_def)
next
  case (Some q)
  from strip_path_prefix_Some [OF this assms(3)]
  have "c = (if root = ''/'' then [] else root) @ CHR ''/'' # q" .
  then have "q \<noteq> []" using normal_suffix(1) assms(1,2) by metis
  then show ?thesis using assms(4) Some by (simp add: qualifier_of_def)
qed

text \<open>The qualifiers of a finished load.\<close>

definition all_finished :: "loader \<Rightarrow> bool" where
  "all_finished l \<longleftrightarrow> (\<forall>i < length (ld_modules l). ld_modules l ! i \<noteq> None)"

lemma loaded_qualifiers:
  assumes sane: "file_system_sane fs" and ok: "loader_ok fs l" and all: "all_finished l"
  shows "distinct (map (lm_qualifier \<circ> the) (ld_modules l))"
proof -
  have at: "\<exists>c. normal_path c \<and> c \<noteq> ''/'' \<and> (\<exists>content. fs_read_to_string fs c = Ok content) \<and>
      lm_qualifier (the (ld_modules l ! i)) = qualifier_of (ld_root_dir l) i c \<and>
      (i = 0 \<longrightarrow> path_parent c = Some (ld_root_dir l)) \<and> (c, i) \<in> set (ld_identities l)"
    if i: "i < length (ld_modules l)" for i
  proof -
    obtain c where c: "(c, i) \<in> set (ld_identities l)" using loader_ok_file [OF ok i] .
    have known: "known_file fs l c i" by (rule loader_ok_identity(2) [OF ok c])
    then have "c \<noteq> ''/''" using sane by (auto simp: known_file_def file_system_sane_def)
    moreover obtain m where "ld_modules l ! i = Some m" using all i by (auto simp: all_finished_def)
    ultimately show ?thesis using known c by (auto simp: known_file_def)
  qed
  have root: "c \<noteq> ld_root_dir l" if i: "i < length (ld_modules l)" and c: "fs_read_to_string fs c = Ok content" for i c content
  proof
    assume "c = ld_root_dir l"
    moreover have "0 < length (ld_modules l)" using i by linarith
    from at [OF this] obtain d content' where "fs_read_to_string fs d = Ok content'" "path_parent d = Some (ld_root_dir l)"
      by blast
    ultimately show False using sane c by (auto simp: file_system_sane_def)
  qed
  have "lm_qualifier (the (ld_modules l ! i)) \<noteq> lm_qualifier (the (ld_modules l ! j))"
    if ij: "i < j" "j < length (ld_modules l)" for i j
  proof
    assume eq: "lm_qualifier (the (ld_modules l ! i)) = lm_qualifier (the (ld_modules l ! j))"
    have i: "i < length (ld_modules l)" using ij by simp
    obtain c content where c: "normal_path c" "c \<noteq> ''/''" "fs_read_to_string fs c = Ok content" "(c, i) \<in> set (ld_identities l)"
        "lm_qualifier (the (ld_modules l ! i)) = qualifier_of (ld_root_dir l) i c"
      using at [OF i] by blast
    obtain d content' where d: "normal_path d" "d \<noteq> ''/''" "fs_read_to_string fs d = Ok content'" "(d, j) \<in> set (ld_identities l)"
        "lm_qualifier (the (ld_modules l ! j)) = qualifier_of (ld_root_dir l) j d"
      using at [OF ij(2)] by blast
    have "c \<noteq> d"
      using loader_ok_identity(3) [OF ok c(4)] loader_ok_identity(3) [OF ok d(4)] ij by auto
    moreover have "qualifier_of (ld_root_dir l) j d \<noteq> []"
      using ij by (intro qualifier_nonempty d root [OF ij(2) d(3)]) simp
    ultimately show False
      using eq c d ij qualifier_inject [OF c(1,2) root [OF i c(3)] d(1,2) root [OF ij(2) d(3)], of i j]
      by (cases "i = 0") (auto simp: qualifier_of_def)
  qed
  then show ?thesis
    by (auto simp: distinct_conv_nth) (metis linorder_neqE_nat)
qed

section \<open>The graph\<close>

text \<open>An accepted import graph.\<close>

definition import_graph_ok :: "loaded_module list \<Rightarrow> bool" where
  "import_graph_ok files \<longleftrightarrow>
     files \<noteq> [] \<and> distinct (map lm_qualifier files) \<and>
     (\<forall>m \<in> set files. 0 < lm_height m \<and> lm_height m \<le> MAX_IMPORT_DEPTH \<and> distinct (map (import_alias \<circ> fst) (lm_imports m)) \<and>
        (\<exists>src. tokens_ok src (lm_tokens m)) \<and>
        (\<forall>(imported, t) \<in> set (lm_imports m). t < length files \<and> lm_height (files ! t) < lm_height m))"

lemma visit_root_graph:
  assumes sane: "file_system_sane fs"
  shows "case visit_root fs path of
           None \<Rightarrow> False
         | Some (Inl ds, l) \<Rightarrow> ds \<noteq> []
         | Some (Inr i, l) \<Rightarrow> i = 0 \<and> (\<exists>files. unwrap_all (ld_modules l) = Some files \<and> import_graph_ok files)"
proof -
  have "good_visit fs (visit fs (MAX_IMPORT_DEPTH + 1)) 0"
    by (rule good_visit_fuel [OF sane]) simp_all
  then have "awp (visit fs (MAX_IMPORT_DEPTH + 1) path None) loader_new (visited fs loader_new)"
    using loader_ok_new by (simp add: good_visit_def loader_new_def)
  moreover have "i = 0 \<and> (\<exists>files. unwrap_all (ld_modules l) = Some files \<and> import_graph_ok files)"
    if v: "visited fs loader_new i l" for i l
  proof -
    have ok: "loader_ok fs l" and active: "ld_active l = []" and i: "i = 0" and "\<exists>m. module_at l i = Some m"
      using v by (auto simp: visited_def loader_new_def extends_loader_def)
    then have nonempty: "ld_modules l \<noteq> []" by (auto simp: module_at_def)
    have all: "all_finished l"
      unfolding all_finished_def
    proof (intro allI impI)
      fix j assume "j < length (ld_modules l)"
      from loader_ok_file [OF ok this] obtain c where "(c, j) \<in> set (ld_identities l)" .
      from loader_ok_identity(2) [OF ok this] active show "ld_modules l ! j \<noteq> None" by (simp add: known_file_def)
    qed
    then have "\<forall>x \<in> set (ld_modules l). x \<noteq> None" by (auto simp: all_finished_def in_set_conv_nth)
    then have files: "unwrap_all (ld_modules l) = Some (map the (ld_modules l))" by (simp add: unwrap_all_def list_all_iff)
    have "finished_ok l m" if m: "m \<in> set (map the (ld_modules l))" for m
    proof -
      obtain x where "x \<in> set (ld_modules l)" "m = the x" using m by auto
      then obtain j where j: "j < length (ld_modules l)" "m = the (ld_modules l ! j)" by (auto simp: in_set_conv_nth)
      then have "module_at l j = Some m" using all by (auto simp: module_at_def all_finished_def)
      then show ?thesis using ok by (auto simp: loader_ok_def)
    qed
    moreover have "t < length (ld_modules l) \<and> map the (ld_modules l) ! t = m" if "module_at l t = Some m" for t m
      using that by (auto simp: module_at_def split: if_splits)
    ultimately have "import_graph_ok (map the (ld_modules l))"
      using nonempty loaded_qualifiers [OF sane ok all]
      by (fastforce simp: import_graph_ok_def finished_ok_def)
    then show ?thesis using i files by simp
  qed
  ultimately show ?thesis
    unfolding visit_root_def by (auto simp: awp_def split: option.splits sum.splits)
qed

text \<open>A chain of files, each importing the next.\<close>

fun import_chain :: "loaded_module list \<Rightarrow> nat list \<Rightarrow> bool" where
  "import_chain files [] = True"
| "import_chain files [i] = (i < length files)"
| "import_chain files (i # j # is) =
     (i < length files \<and> list_ex (\<lambda>(imported, t). t = j) (lm_imports (files ! i)) \<and> import_chain files (j # is))"

lemma import_chain_height:
  assumes "import_graph_ok files"
  shows "import_chain files (i # is) \<Longrightarrow> length (i # is) \<le> lm_height (files ! i)"
proof (induction "is" arbitrary: i)
  case Nil
  then show ?case using assms by (auto simp: import_graph_ok_def Suc_le_eq)
next
  case (Cons j "is")
  then have "files ! i \<in> set files" and "\<exists>imported. (imported, j) \<in> set (lm_imports (files ! i))"
    by (auto simp: list_ex_iff)
  then have "lm_height (files ! j) < lm_height (files ! i)"
    using assms unfolding import_graph_ok_def by blast
  moreover have "length (j # is) \<le> lm_height (files ! j)" using Cons.prems by (intro Cons.IH) simp
  ultimately show ?case by simp
qed

lemma import_chain_bound:
  assumes "import_graph_ok files" and "import_chain files is"
  shows "length is \<le> MAX_IMPORT_DEPTH"
proof (cases "is")
  case (Cons i js)
  then have "lm_height (files ! i) \<le> MAX_IMPORT_DEPTH"
    using assms by (cases js) (auto simp: import_graph_ok_def)
  then show ?thesis using import_chain_height [OF assms(1), of i js] assms(2) Cons by simp
qed simp

text \<open>
  C8 The loader accepts only import graphs without cycles: the visit of any file system never panics and
  never exhausts its fuel, it rejects with a diagnostic, and when it accepts, the entry file is module 0, every
  module is finished, imports point to loaded modules, no chain of imports, and so no cycle, is longer than
  \<^const>\<open>MAX_IMPORT_DEPTH\<close> files, and each file has a qualifier of its own.
\<close>

theorem import_graph_accepted:
  assumes "file_system_sane fs"
  shows "case visit_root fs path of
           None \<Rightarrow> False
         | Some (Inl ds, l) \<Rightarrow> ds \<noteq> []
         | Some (Inr i, l) \<Rightarrow>
             i = 0 \<and> (\<exists>files. unwrap_all (ld_modules l) = Some files \<and> import_graph_ok files \<and>
               (\<forall>is. import_chain files is \<longrightarrow> length is \<le> MAX_IMPORT_DEPTH))"
  using visit_root_graph [OF assms, of path] import_chain_bound
  by (auto split: option.splits sum.splits)

end
