(* ===== verification/Modules_Resolve_Correct.thy ===== *)
theory Modules_Resolve_Correct
  imports Modules_Resolve
begin

text \<open>
  What name resolution promises: it accepts exactly the modules whose declarations are distinct and
  whose references all denote a declaration, then it renames every reference to the one it denotes and nothing else,
  and in the flattened program no two declarations share a name.
\<close>

section \<open>References and renaming\<close>

text \<open>The global names a tree mentions below the scopes \<open>sc\<close>, in order.\<close>

fun type_refs :: "value_type \<Rightarrow> string list" where
  "type_refs (VtStruct name) = [name]"
| "type_refs (VtArray element len) = type_refs element @ (case len of AlConstant name s \<Rightarrow> [name] | _ \<Rightarrow> [])"
| "type_refs ty = []"

fun expr_refs :: "string list list \<Rightarrow> expr \<Rightarrow> string list"
and exprs_refs :: "string list list \<Rightarrow> expr list \<Rightarrow> string list"
and inits_refs :: "string list list \<Rightarrow> field_initializer list \<Rightarrow> string list" where
  "expr_refs sc (Expr (ExVariable name) s) = (if in_scopes sc name then [] else [name])"
| "expr_refs sc (Expr (ExCall name args) s) = name # exprs_refs sc args"
| "expr_refs sc (Expr (ExStructLiteral name inits) s) = name # inits_refs sc inits"
| "expr_refs sc (Expr (ExArrayLiteral elements) s) = exprs_refs sc elements"
| "expr_refs sc (Expr (ExIndex base index) s) = expr_refs sc base @ expr_refs sc index"
| "expr_refs sc (Expr (ExField base name fs) s) = expr_refs sc base"
| "expr_refs sc (Expr (ExUnary op operand) s) = expr_refs sc operand"
| "expr_refs sc (Expr (ExBinary left op right) s) = expr_refs sc left @ expr_refs sc right"
| "expr_refs sc (Expr (ExConversion target args) s) = type_refs target @ exprs_refs sc args"
| "expr_refs sc (Expr (ExI32 v) s) = []"
| "expr_refs sc (Expr (ExF32 f) s) = []"
| "expr_refs sc (Expr (ExBool b) s) = []"
| "exprs_refs sc [] = []"
| "exprs_refs sc (e # es) = expr_refs sc e @ exprs_refs sc es"
| "inits_refs sc [] = []"
| "inits_refs sc (FieldInitializer name e s # inits) = expr_refs sc e @ inits_refs sc inits"

text \<open>The names a statement adds to its scope.\<close>

definition stmt_binds :: "stmt \<Rightarrow> string list" where
  "stmt_binds stmt = (case stmt_kind stmt of StLet name ty e \<Rightarrow> [name] | _ \<Rightarrow> [])"

fun stmt_refs :: "string list list \<Rightarrow> string list \<Rightarrow> stmt \<Rightarrow> string list"
and stmts_refs :: "string list list \<Rightarrow> string list \<Rightarrow> stmt list \<Rightarrow> string list" where
  "stmt_refs outer scope (Stmt (StLet name ty e) s) = type_refs ty @ expr_refs (scope # outer) e"
| "stmt_refs outer scope (Stmt (StAssign target op e) s) = expr_refs (scope # outer) target @ expr_refs (scope # outer) e"
| "stmt_refs outer scope (Stmt (StExpr e) s) = expr_refs (scope # outer) e"
| "stmt_refs outer scope (Stmt (StIf c then_block else_block) s) =
     expr_refs (scope # outer) c @ stmts_refs (scope # outer) [] then_block
     @ (case else_block of None \<Rightarrow> [] | Some b \<Rightarrow> stmts_refs (scope # outer) [] b)"
| "stmt_refs outer scope (Stmt (StWhile c body) s) = expr_refs (scope # outer) c @ stmts_refs (scope # outer) [] body"
| "stmt_refs outer scope (Stmt (StFor name name_span lower upper body) s) =
     expr_refs (scope # outer) lower @ expr_refs (scope # outer) upper @ stmts_refs (scope # outer) [name] body"
| "stmt_refs outer scope (Stmt (StReturn r) s) = (case r of None \<Rightarrow> [] | Some e \<Rightarrow> expr_refs (scope # outer) e)"
| "stmts_refs outer scope [] = []"
| "stmts_refs outer scope (stmt # stmts) =
     stmt_refs outer scope stmt @ stmts_refs outer (stmt_binds stmt @ scope) stmts"

text \<open>Renaming of the global names by \<open>f\<close>.\<close>

fun rename_type :: "(string \<Rightarrow> string) \<Rightarrow> value_type \<Rightarrow> value_type" where
  "rename_type f (VtStruct name) = VtStruct (f name)"
| "rename_type f (VtArray element len) =
     VtArray (rename_type f element) (case len of AlConstant name s \<Rightarrow> AlConstant (f name) s | _ \<Rightarrow> len)"
| "rename_type f ty = ty"

fun rename_expr :: "(string \<Rightarrow> string) \<Rightarrow> string list list \<Rightarrow> expr \<Rightarrow> expr"
and rename_exprs :: "(string \<Rightarrow> string) \<Rightarrow> string list list \<Rightarrow> expr list \<Rightarrow> expr list"
and rename_inits :: "(string \<Rightarrow> string) \<Rightarrow> string list list \<Rightarrow> field_initializer list \<Rightarrow> field_initializer list" where
  "rename_expr f sc (Expr (ExVariable name) s) = Expr (ExVariable (if in_scopes sc name then name else f name)) s"
| "rename_expr f sc (Expr (ExCall name args) s) = Expr (ExCall (f name) (rename_exprs f sc args)) s"
| "rename_expr f sc (Expr (ExStructLiteral name inits) s) = Expr (ExStructLiteral (f name) (rename_inits f sc inits)) s"
| "rename_expr f sc (Expr (ExArrayLiteral elements) s) = Expr (ExArrayLiteral (rename_exprs f sc elements)) s"
| "rename_expr f sc (Expr (ExIndex base index) s) = Expr (ExIndex (rename_expr f sc base) (rename_expr f sc index)) s"
| "rename_expr f sc (Expr (ExField base name fs) s) = Expr (ExField (rename_expr f sc base) name fs) s"
| "rename_expr f sc (Expr (ExUnary op operand) s) = Expr (ExUnary op (rename_expr f sc operand)) s"
| "rename_expr f sc (Expr (ExBinary left op right) s) =
     Expr (ExBinary (rename_expr f sc left) op (rename_expr f sc right)) s"
| "rename_expr f sc (Expr (ExConversion target args) s) =
     Expr (ExConversion (rename_type f target) (rename_exprs f sc args)) s"
| "rename_expr f sc (Expr (ExI32 v) s) = Expr (ExI32 v) s"
| "rename_expr f sc (Expr (ExF32 v) s) = Expr (ExF32 v) s"
| "rename_expr f sc (Expr (ExBool b) s) = Expr (ExBool b) s"
| "rename_exprs f sc [] = []"
| "rename_exprs f sc (e # es) = rename_expr f sc e # rename_exprs f sc es"
| "rename_inits f sc [] = []"
| "rename_inits f sc (FieldInitializer name e s # inits) =
     FieldInitializer name (rename_expr f sc e) s # rename_inits f sc inits"

fun rename_stmt :: "(string \<Rightarrow> string) \<Rightarrow> string list list \<Rightarrow> string list \<Rightarrow> stmt \<Rightarrow> stmt"
and rename_stmts :: "(string \<Rightarrow> string) \<Rightarrow> string list list \<Rightarrow> string list \<Rightarrow> stmt list \<Rightarrow> stmt list" where
  "rename_stmt f outer scope (Stmt (StLet name ty e) s) =
     Stmt (StLet name (rename_type f ty) (rename_expr f (scope # outer) e)) s"
| "rename_stmt f outer scope (Stmt (StAssign target op e) s) =
     Stmt (StAssign (rename_expr f (scope # outer) target) op (rename_expr f (scope # outer) e)) s"
| "rename_stmt f outer scope (Stmt (StExpr e) s) = Stmt (StExpr (rename_expr f (scope # outer) e)) s"
| "rename_stmt f outer scope (Stmt (StIf c then_block else_block) s) =
     Stmt (StIf (rename_expr f (scope # outer) c) (rename_stmts f (scope # outer) [] then_block)
       (case else_block of None \<Rightarrow> None | Some b \<Rightarrow> Some (rename_stmts f (scope # outer) [] b))) s"
| "rename_stmt f outer scope (Stmt (StWhile c body) s) =
     Stmt (StWhile (rename_expr f (scope # outer) c) (rename_stmts f (scope # outer) [] body)) s"
| "rename_stmt f outer scope (Stmt (StFor name name_span lower upper body) s) =
     Stmt (StFor name name_span (rename_expr f (scope # outer) lower) (rename_expr f (scope # outer) upper)
       (rename_stmts f (scope # outer) [name] body)) s"
| "rename_stmt f outer scope (Stmt (StReturn r) s) =
     Stmt (StReturn (case r of None \<Rightarrow> None | Some e \<Rightarrow> Some (rename_expr f (scope # outer) e))) s"
| "rename_stmts f outer scope [] = []"
| "rename_stmts f outer scope (stmt # stmts) =
     rename_stmt f outer scope stmt # rename_stmts f outer (stmt_binds stmt @ scope) stmts"

section \<open>The resolver renames\<close>

text \<open>What a name of module \<open>i\<close> denotes among the namespaces.\<close>

definition meaning :: "namespace list \<Rightarrow> nat \<Rightarrow> string \<Rightarrow> string option" where
  "meaning ns i name =
     (if i < length ns then
        case split_colons name of
          Some (alias_name, member) \<Rightarrow>
            Option.bind (hm_get (ns_aliases (ns ! i)) alias_name) (\<lambda>target.
              if target < length ns then hm_get (ns_declarations (ns ! target)) member else None)
        | None \<Rightarrow>
            (case hm_get (ns_declarations (ns ! i)) name of
               Some resolved \<Rightarrow> Some resolved
             | None \<Rightarrow> if is_builtin name then Some name else None)
      else None)"

definition meant :: "namespace list \<Rightarrow> nat \<Rightarrow> string list \<Rightarrow> bool" where
  "meant ns i names \<longleftrightarrow> (\<forall>n \<in> set names. meaning ns i n \<noteq> None)"

lemma meant_simps [simp]:
  "meant ns i []" "meant ns i (n # names) \<longleftrightarrow> meaning ns i n \<noteq> None \<and> meant ns i names"
  "meant ns i (a @ b) \<longleftrightarrow> meant ns i a \<and> meant ns i b"
  by (auto simp: meant_def)

abbreviation target_of :: "namespace list \<Rightarrow> nat \<Rightarrow> string \<Rightarrow> string" where
  "target_of ns i n \<equiv> the (meaning ns i n)"

lemma silent_None [silent_simps]: "\<not> silent None P"
  by (simp add: silent_def)

lemma silent_resolve_global [silent_simps]:
  "silent (resolve_global ns i name s d) P \<longleftrightarrow> meaning ns i name \<noteq> None \<and> P (target_of ns i name)"
  by (auto simp: resolve_global_def resolve_member_def meaning_def silent_simps split: option.splits)

lemma silent_resolve_name [silent_simps]:
  "silent (resolve_name ns i sc name s d is_local) P \<longleftrightarrow>
     (if is_local \<and> in_scopes sc name then P name else meaning ns i name \<noteq> None \<and> P (target_of ns i name))"
  by (simp add: resolve_name_def silent_simps)

lemma silent_resolve_ty [silent_simps]:
  "silent (resolve_ty ns i ty s) P \<longleftrightarrow> meant ns i (type_refs ty) \<and> P (rename_type (target_of ns i) ty)"
  by (induction ns i ty s arbitrary: P rule: resolve_ty.induct) (auto simp: silent_simps split: array_length.split)

lemma silent_resolve_expr [silent_simps]:
  "silent (resolve_expr ns i sc e) P \<longleftrightarrow> meant ns i (expr_refs sc e) \<and> P (rename_expr (target_of ns i) sc e)"
  "silent (resolve_exprs ns i sc es) Q \<longleftrightarrow> meant ns i (exprs_refs sc es) \<and> Q (rename_exprs (target_of ns i) sc es)"
  "silent (resolve_inits ns i sc inits) R \<longleftrightarrow> meant ns i (inits_refs sc inits) \<and> R (rename_inits (target_of ns i) sc inits)"
  by (induction ns i sc e and ns i sc es and ns i sc inits arbitrary: P and Q and R
        rule: resolve_expr_resolve_exprs_resolve_inits.induct) (auto simp: silent_simps)

lemma silent_resolve_stmt [silent_simps]:
  "silent (resolve_stmt ns i outer scope stmt) P \<longleftrightarrow>
     meant ns i (stmt_refs outer scope stmt) \<and> P (rename_stmt (target_of ns i) outer scope stmt, stmt_binds stmt @ scope)"
  "silent (resolve_stmts ns i outer scope stmts) Q \<longleftrightarrow>
     meant ns i (stmts_refs outer scope stmts) \<and> Q (rename_stmts (target_of ns i) outer scope stmts)"
  by (induction ns i outer scope stmt and ns i outer scope stmts arbitrary: P and Q
        rule: resolve_stmt_resolve_stmts.induct)
     (auto simp: silent_simps stmt_binds_def split: option.split)

section \<open>Declarations\<close>

lemma silent_cmap:
  assumes "\<And>x Q. x \<in> set xs \<Longrightarrow> silent (f x) Q \<longleftrightarrow> ok x \<and> Q (g x)"
  shows "silent (cmap f xs) P \<longleftrightarrow> (\<forall>x \<in> set xs. ok x) \<and> P (map g xs)"
  using assms
proof (induction xs arbitrary: P)
  case (Cons x xs)
  have "silent (cmap f xs) Q \<longleftrightarrow> (\<forall>x \<in> set xs. ok x) \<and> Q (map g xs)" for Q
    by (rule Cons.IH) (use Cons.prems in auto)
  then show ?case using Cons.prems [of x] by (simp add: silent_simps)
qed (simp add: silent_simps)

definition struct_refs :: "struct_decl \<Rightarrow> string list" where
  "struct_refs d = concat (map (type_refs \<circ> field_ty) (struct_fields d))"

definition function_refs :: "function_decl \<Rightarrow> string list" where
  "function_refs f =
     concat (map (type_refs \<circ> param_ty) (function_params f))
     @ (case function_return_type f of RtValue ty \<Rightarrow> type_refs ty | RtVoid \<Rightarrow> [])
     @ stmts_refs [] (map param_name (function_params f)) (function_body f)"

definition program_refs :: "program \<Rightarrow> string list" where
  "program_refs p =
     concat (map struct_refs (program_structs p))
     @ concat (map (\<lambda>c. type_refs (constant_ty c) @ expr_refs [] (constant_init c)) (program_constants p))
     @ concat (map (\<lambda>g. type_refs (global_ty g) @ expr_refs [] (global_init g)) (program_globals p))
     @ concat (map function_refs (program_functions p))"

text \<open>Renaming of declarations: \<open>q\<close> for the declared names, \<open>f\<close> for references.\<close>

definition rename_struct :: "(string \<Rightarrow> string) \<Rightarrow> (string \<Rightarrow> string) \<Rightarrow> struct_decl \<Rightarrow> struct_decl" where
  "rename_struct q f d =
     d\<lparr>struct_decl_name := q (struct_decl_name d),
       struct_fields := map (\<lambda>x. x\<lparr>field_ty := rename_type f (field_ty x)\<rparr>) (struct_fields d)\<rparr>"

definition rename_constant :: "(string \<Rightarrow> string) \<Rightarrow> (string \<Rightarrow> string) \<Rightarrow> constant_decl \<Rightarrow> constant_decl" where
  "rename_constant q f d =
     d\<lparr>constant_name := q (constant_name d), constant_ty := rename_type f (constant_ty d),
       constant_init := rename_expr f [] (constant_init d)\<rparr>"

definition rename_global :: "(string \<Rightarrow> string) \<Rightarrow> (string \<Rightarrow> string) \<Rightarrow> global_decl \<Rightarrow> global_decl" where
  "rename_global q f d =
     d\<lparr>global_name := q (global_name d), global_ty := rename_type f (global_ty d),
       global_init := rename_expr f [] (global_init d)\<rparr>"

definition rename_function :: "(string \<Rightarrow> string) \<Rightarrow> (string \<Rightarrow> string) \<Rightarrow> function_decl \<Rightarrow> function_decl" where
  "rename_function q f d =
     d\<lparr>function_name := if function_kind d = FkNamed then q (function_name d) else function_name d,
       function_params := map (\<lambda>x. x\<lparr>param_ty := rename_type f (param_ty x)\<rparr>) (function_params d),
       function_return_type := (case function_return_type d of RtValue ty \<Rightarrow> RtValue (rename_type f ty) | RtVoid \<Rightarrow> RtVoid),
       function_body := rename_stmts f [] (map param_name (function_params d)) (function_body d)\<rparr>"

definition rename_program :: "(string \<Rightarrow> string) \<Rightarrow> (string \<Rightarrow> string) \<Rightarrow> program \<Rightarrow> program" where
  "rename_program q f p =
     p\<lparr>program_structs := map (rename_struct q f) (program_structs p),
       program_sounds := map (\<lambda>d. d\<lparr>sound_name := q (sound_name d)\<rparr>) (program_sounds p),
       program_constants := map (rename_constant q f) (program_constants p),
       program_globals := map (rename_global q f) (program_globals p),
       program_functions := map (rename_function q f) (program_functions p)\<rparr>"

text \<open>The names a program declares for the whole program.\<close>

definition declared_names :: "program \<Rightarrow> string list" where
  "declared_names p = map fst (declared_items p)"

lemma declared_names_eq:
  "declared_names p =
     map struct_decl_name (program_structs p) @ map sound_name (program_sounds p)
     @ map constant_name (program_constants p) @ map global_name (program_globals p)
     @ map function_name (named_function_decls p)"
  by (simp add: declared_names_def declared_items_def comp_def)

lemma declared_names_rename: "declared_names (rename_program q f p) = map q (declared_names p)"
proof -
  have "named_function_decls (rename_program q f p) = map (rename_function q f) (named_function_decls p)"
    by (simp add: named_function_decls_def rename_program_def filter_map comp_def rename_function_def)
  moreover have "map function_name (map (rename_function q f) (named_function_decls p)) = map q (map function_name (named_function_decls p))"
    by (simp add: named_function_decls_def rename_function_def)
  ultimately show ?thesis
    by (simp add: declared_names_eq rename_program_def rename_struct_def rename_constant_def rename_global_def)
qed

definition own :: "namespace list \<Rightarrow> nat \<Rightarrow> string \<Rightarrow> bool" where
  "own ns i n \<longleftrightarrow> i < length ns \<and> hm_get (ns_declarations (ns ! i)) n \<noteq> None"

abbreviation own_target :: "namespace list \<Rightarrow> nat \<Rightarrow> string \<Rightarrow> string" where
  "own_target ns i n \<equiv> the (hm_get (ns_declarations (ns ! i)) n)"

lemma silent_own_name [silent_simps]: "silent (own_name ns i n) P \<longleftrightarrow> own ns i n \<and> P (own_target ns i n)"
  by (auto simp: own_name_def own_def silent_def)

lemma meant_concat: "meant ns i (concat xss) \<longleftrightarrow> (\<forall>xs \<in> set xss. meant ns i xs)"
  by (auto simp: meant_def)

lemma silent_resolve_struct [silent_simps]:
  "silent (resolve_struct_names ns i d) P \<longleftrightarrow>
     (own ns i (struct_decl_name d) \<and> meant ns i (struct_refs d)) \<and> P (rename_struct (own_target ns i) (target_of ns i) d)"
proof -
  have "silent (cmap (\<lambda>f. cbind (resolve_ty ns i (field_ty f) (field_span f)) (\<lambda>ty. cret (f\<lparr>field_ty := ty\<rparr>))) fs) Q \<longleftrightarrow>
      (\<forall>f \<in> set fs. meant ns i (type_refs (field_ty f))) \<and> Q (map (\<lambda>x. x\<lparr>field_ty := rename_type (target_of ns i) (field_ty x)\<rparr>) fs)"
    for fs Q
    by (rule silent_cmap) (simp add: silent_simps)
  then show ?thesis
    by (auto simp: resolve_struct_names_def silent_simps rename_struct_def struct_refs_def meant_concat)
qed

lemma silent_resolve_sound [silent_simps]:
  "silent (resolve_sound ns i d) P \<longleftrightarrow> own ns i (sound_name d) \<and> P (d\<lparr>sound_name := own_target ns i (sound_name d)\<rparr>)"
  by (simp add: resolve_sound_def silent_simps)

lemma silent_resolve_constant [silent_simps]:
  "silent (resolve_constant ns i d) P \<longleftrightarrow>
     (own ns i (constant_name d) \<and> meant ns i (type_refs (constant_ty d) @ expr_refs [] (constant_init d))) \<and>
     P (rename_constant (own_target ns i) (target_of ns i) d)"
  by (auto simp: resolve_constant_def silent_simps rename_constant_def)

lemma silent_resolve_global_decl [silent_simps]:
  "silent (resolve_global_names ns i d) P \<longleftrightarrow>
     (own ns i (global_name d) \<and> meant ns i (type_refs (global_ty d) @ expr_refs [] (global_init d))) \<and>
     P (rename_global (own_target ns i) (target_of ns i) d)"
  by (auto simp: resolve_global_names_def silent_simps rename_global_def)

lemma silent_resolve_function [silent_simps]:
  "silent (resolve_function_names ns i d) P \<longleftrightarrow>
     ((function_kind d = FkNamed \<longrightarrow> own ns i (function_name d)) \<and> meant ns i (function_refs d)) \<and>
     P (rename_function (own_target ns i) (target_of ns i) d)"
proof -
  have params: "silent (cmap (\<lambda>p. cbind (resolve_ty ns i (param_ty p) (param_span p)) (\<lambda>ty. cret (p\<lparr>param_ty := ty\<rparr>))) ps) Q \<longleftrightarrow>
      (\<forall>p \<in> set ps. meant ns i (type_refs (param_ty p))) \<and> Q (map (\<lambda>x. x\<lparr>param_ty := rename_type (target_of ns i) (param_ty x)\<rparr>) ps)"
    for ps Q
    by (rule silent_cmap) (simp add: silent_simps)
  show ?thesis
    by (auto simp: resolve_function_names_def silent_simps params rename_function_def function_refs_def meant_concat
          split: return_type.split)
qed

lemma silent_resolve_module:
  "silent (resolve_module ns (i, m)) P \<longleftrightarrow>
     (\<forall>n \<in> set (declared_names (md_program m)). own ns i n) \<and> meant ns i (program_refs (md_program m)) \<and>
     P (m\<lparr>md_program := rename_program (own_target ns i) (target_of ns i) (md_program m)\<rparr>)"
proof -
  note each = silent_cmap [OF silent_resolve_struct] silent_cmap [OF silent_resolve_sound] silent_cmap [OF silent_resolve_constant]
    silent_cmap [OF silent_resolve_global_decl] silent_cmap [OF silent_resolve_function]
  have named: "f \<in> set (named_function_decls p) \<longleftrightarrow> f \<in> set (program_functions p) \<and> function_kind f = FkNamed" for f p
    by (auto simp: named_function_decls_def)
  show ?thesis
    by (auto simp: resolve_module_def Let_def silent_simps each rename_program_def declared_names_eq program_refs_def
          meant_concat ball_Un named)
qed

section \<open>Namespaces\<close>

definition module_clean :: "source_module \<Rightarrow> bool" where
  "module_clean m \<longleftrightarrow>
     distinct (declared_names (md_program m)) \<and>
     (\<forall>n \<in> set (declared_names (md_program m)). \<not> is_builtin n) \<and>
     (\<forall>(imported, t) \<in> set (md_imports m).
        import_alias imported \<notin> set (declared_names (md_program m)) \<and> \<not> is_builtin (import_alias imported))"

definition module_ns :: "source_module \<Rightarrow> namespace" where
  "module_ns m =
     \<lparr>ns_declarations = rev (map (\<lambda>(n, s). (n, qualify (md_qualifier m) n)) (declared_items (md_program m))),
      ns_aliases = rev (map (\<lambda>(imported, t). (import_alias imported, t)) (md_imports m))\<rparr>"

lemma silent_declare_items:
  "silent (ceach (declare_item q) items decls) P \<longleftrightarrow>
     (distinct (map fst items) \<and> (\<forall>n \<in> set (map fst items). \<not> hm_contains decls n \<and> \<not> is_builtin n)) \<and>
     P (rev (map (\<lambda>(n, s). (n, qualify q n)) items) @ decls)"
proof (induction items arbitrary: decls)
  case (Cons item items)
  obtain n s where item: "item = (n, s)" by (cases item)
  have "silent (declare_item q item decls) Q \<longleftrightarrow> (\<not> hm_contains decls n \<and> \<not> is_builtin n) \<and> Q ((n, qualify q n) # decls)" for Q
    by (simp add: item declare_item_def silent_simps hm_insert_def)
  then show ?case
    by (simp add: item silent_simps Cons.IH hm_contains_keys) (auto simp: image_iff)
qed (simp add: silent_simps)

lemma silent_declare_aliases:
  "silent (ceach (declare_alias decls) imps als) P \<longleftrightarrow>
     (\<forall>(imported, t) \<in> set imps. \<not> hm_contains decls (import_alias imported) \<and> \<not> is_builtin (import_alias imported)) \<and>
     P (rev (map (\<lambda>(imported, t). (import_alias imported, t)) imps) @ als)"
proof (induction imps arbitrary: als)
  case (Cons item imps)
  obtain imported t where item: "item = (imported, t)" by (cases item)
  have "silent (declare_alias decls item als) Q \<longleftrightarrow>
      (\<not> hm_contains decls (import_alias imported) \<and> \<not> is_builtin (import_alias imported)) \<and> Q ((import_alias imported, t) # als)" for Q
    by (simp add: item silent_simps declare_alias_def hm_insert_def)
  then show ?case by (simp add: item silent_simps Cons.IH)
qed (simp add: silent_simps)

lemma module_ns_get:
  "hm_get (ns_declarations (module_ns m)) n =
     (if n \<in> set (declared_names (md_program m)) then Some (qualify (md_qualifier m) n) else None)"
proof -
  have "map_of (map (\<lambda>(n, s). (n, qualify q n)) items) n = (if n \<in> set (map fst items) then Some (qualify q n) else None)"
    for q and items :: "(string \<times> span) list"
    by (induction items) auto
  from this [of "md_qualifier m" "rev (declared_items (md_program m))"] show ?thesis
    by (simp add: hm_get_def module_ns_def declared_names_def rev_map)
qed

lemma silent_module_namespace: "silent (module_namespace m) P \<longleftrightarrow> module_clean m \<and> P (module_ns m)"
proof -
  have names: "hm_contains (ns_declarations (module_ns m)) n \<longleftrightarrow> n \<in> set (declared_names (md_program m))" for n
    by (simp add: hm_contains_def module_ns_get)
  then have decls: "hm_contains (rev (map (\<lambda>(n, s). (n, qualify (md_qualifier m) n)) (declared_items (md_program m)))) n
      \<longleftrightarrow> n \<in> set (declared_names (md_program m))" for n
    by (simp add: module_ns_def)
  show ?thesis
    unfolding module_namespace_def silent_cbind silent_declare_items silent_declare_aliases silent_cret append_Nil2 decls
    by (auto simp: module_clean_def module_ns_def declared_names_def hm_contains_def)
qed

section \<open>Modules\<close>

text \<open>What a name mentioned in module \<open>i\<close> denotes: a declaration of a module imported under the
  alias before \<open>::\<close>, a declaration of the module, or a predefined name.\<close>

definition denotes_item :: "source_module list \<Rightarrow> nat \<Rightarrow> string \<Rightarrow> string option" where
  "denotes_item modules i name =
     (case split_colons name of
        Some (alias_name, member) \<Rightarrow>
          Option.bind (map_of (rev (map (\<lambda>(imported, t). (import_alias imported, t)) (md_imports (modules ! i)))) alias_name)
            (\<lambda>t. if t < length modules \<and> member \<in> set (declared_names (md_program (modules ! t)))
                  then Some (qualify (md_qualifier (modules ! t)) member) else None)
      | None \<Rightarrow>
          if name \<in> set (declared_names (md_program (modules ! i))) then Some (qualify (md_qualifier (modules ! i)) name)
          else if is_builtin name then Some name else None)"

lemma meaning_denotes:
  assumes "i < length modules"
  shows "meaning (map module_ns modules) i n = denotes_item modules i n"
proof -
  have als: "hm_get (ns_aliases (module_ns m)) a = map_of (rev (map (\<lambda>(imported, t). (import_alias imported, t)) (md_imports m))) a" for m a
    by (simp add: module_ns_def hm_get_def)
  have member: "(if t < length modules then hm_get (ns_declarations (map module_ns modules ! t)) b else None) =
      (if t < length modules \<and> b \<in> set (declared_names (md_program (modules ! t)))
       then Some (qualify (md_qualifier (modules ! t)) b) else None)" for t b
    by (simp add: module_ns_get)
  show ?thesis
    using assms by (simp add: meaning_def denotes_item_def als member module_ns_get split: option.split)
qed

lemma rename_program_own:
  "(\<And>n. n \<in> set (declared_names p) \<Longrightarrow> q n = q' n) \<Longrightarrow> rename_program q f p = rename_program q' f p"
  by (auto simp: rename_program_def rename_struct_def rename_constant_def rename_global_def rename_function_def
        declared_names_eq named_function_decls_def)

definition module_refs_ok :: "source_module list \<Rightarrow> nat \<Rightarrow> bool" where
  "module_refs_ok modules i \<longleftrightarrow> (\<forall>n \<in> set (program_refs (md_program (modules ! i))). denotes_item modules i n \<noteq> None)"

definition renamed_module :: "source_module list \<Rightarrow> nat \<Rightarrow> source_module" where
  "renamed_module modules i =
     (let m = modules ! i
      in m\<lparr>md_program := rename_program (qualify (md_qualifier m)) (\<lambda>n. the (denotes_item modules i n)) (md_program m)\<rparr>)"

lemma silent_resolve_item:
  assumes "i < length modules"
  shows "silent (resolve_module (map module_ns modules) (i, modules ! i)) P \<longleftrightarrow>
    module_refs_ok modules i \<and> P (renamed_module modules i)"
proof -
  let ?ns = "map module_ns modules"
  have own: "own ?ns i n" "own_target ?ns i n = qualify (md_qualifier (modules ! i)) n"
    if "n \<in> set (declared_names (md_program (modules ! i)))" for n
    using assms that by (simp_all add: own_def module_ns_get)
  have "rename_program (own_target ?ns i) (target_of ?ns i) (md_program (modules ! i)) =
      rename_program (qualify (md_qualifier (modules ! i))) (\<lambda>n. the (denotes_item modules i n)) (md_program (modules ! i))"
    unfolding meaning_denotes [OF assms] by (rule rename_program_own) (rule own(2))
  then show ?thesis
    using own(1) assms
    by (simp add: silent_resolve_module module_refs_ok_def renamed_module_def Let_def meant_def meaning_denotes)
qed

lemma chk_result_Ok: "chk_result m = Some (Ok a) \<longleftrightarrow> silent m (\<lambda>b. b = a)"
  by (auto simp: chk_result_def silent_def)

lemma resolve_modules_iff:
  assumes "\<not> (length modules = 1 \<and> md_imports (hd modules) = [])"
  shows "resolve_modules modules = Some (Ok modules') \<longleftrightarrow>
    (\<forall>m \<in> set modules. module_clean m) \<and> (\<forall>i < length modules. module_refs_ok modules i) \<and>
    modules' = map (renamed_module modules) [0..<length modules]"
proof -
  have items: "zip [0..<length modules] modules = map (\<lambda>i. (i, modules ! i)) [0..<length modules]"
    by (rule nth_equalityI) simp_all
  have spaces: "silent (cmap module_namespace modules) Q \<longleftrightarrow> (\<forall>m \<in> set modules. module_clean m) \<and> Q (map module_ns modules)" for Q
    by (rule silent_cmap) (rule silent_module_namespace)
  have mapped: "cmap f (map g xs) = cmap (f \<circ> g) xs" for f :: "'b \<Rightarrow> 'c chk" and g :: "'a \<Rightarrow> 'b" and xs
    by (induction xs) simp_all
  have "silent (resolve_all modules (map module_ns modules)) Q \<longleftrightarrow>
      (\<forall>i \<in> set [0..<length modules]. module_refs_ok modules i) \<and> Q (map (renamed_module modules) [0..<length modules])" for Q
    unfolding resolve_all_def items mapped by (rule silent_cmap) (simp add: silent_resolve_item)
  then have all: "silent (resolve_all modules (map module_ns modules)) Q \<longleftrightarrow>
      (\<forall>i < length modules. module_refs_ok modules i) \<and> Q (map (renamed_module modules) [0..<length modules])" for Q
    by auto
  have "resolve_modules modules = Some (Ok modules') \<longleftrightarrow>
      (\<exists>ns. chk_result (cmap module_namespace modules) = Some (Ok ns) \<and> chk_result (resolve_all modules ns) = Some (Ok modules'))"
    using assms by (auto simp: resolve_modules_def split: option.splits sum.splits)
  then show ?thesis
    unfolding chk_result_Ok spaces by (auto simp: all)
qed

text \<open>Qualified names are unambiguous: the name after the last \<open>::\<close> has no colon.\<close>

lemma qualify_inject:
  assumes "CHR '':'' \<notin> set a" and "CHR '':'' \<notin> set b"
  shows "qualify p a = qualify q b \<longleftrightarrow> p = q \<and> a = b"
proof -
  have last: "takeWhile (\<lambda>c. c \<noteq> CHR '':'') (rev (p @ ''::'' @ n)) = rev n" if "CHR '':'' \<notin> set n" for p n :: string
  proof -
    have "takeWhile (\<lambda>c. c \<noteq> CHR '':'') (rev n @ CHR '':'' # rest) = rev n" for rest
      using that by (subst takeWhile_append2) auto
    then show ?thesis by simp
  qed
  have colon: "a = q @ ''::'' @ b \<Longrightarrow> False" "b = p @ ''::'' @ a \<Longrightarrow> False" using assms by auto
  have "p @ ''::'' @ a = q @ ''::'' @ b \<Longrightarrow> a = b"
    using last [OF assms(1), of p] last [OF assms(2), of q] by (metis rev_is_rev_conv)
  then show ?thesis using colon by (auto simp: qualify_def)
qed

lemma renamed_names:
  "declared_names (md_program (renamed_module modules i)) =
     map (qualify (md_qualifier (modules ! i))) (declared_names (md_program (modules ! i)))"
  by (simp add: renamed_module_def Let_def declared_names_rename)

lemma distinct_flattened:
  assumes "\<forall>m \<in> set modules. distinct (declared_names (md_program m)) \<and> (\<forall>n \<in> set (declared_names (md_program m)). CHR '':'' \<notin> set n)"
    and "distinct (map md_qualifier modules)"
  shows "distinct (concat (map (\<lambda>m. map (qualify (md_qualifier m)) (declared_names (md_program m))) modules))"
  using assms
proof (induction modules)
  case (Cons m modules)
  let ?q = "\<lambda>m. map (qualify (md_qualifier m)) (declared_names (md_program m))"
  have inj: "inj_on (qualify (md_qualifier m)) (set (declared_names (md_program m)))"
    using Cons.prems by (auto simp: inj_on_def qualify_inject)
  have "set (?q m) \<inter> set (?q m') = {}" if "m' \<in> set modules" for m'
    using Cons.prems that by (fastforce simp: qualify_inject)
  then show ?case using Cons inj by (auto simp: distinct_map)
qed simp


text \<open>Two files that both declare \<open>x\<close>, the first importing the second.\<close>

definition sample_constant :: "expr_kind \<Rightarrow> constant_decl" where
  "sample_constant init =
     \<lparr>constant_name = ''x'', constant_ty = VtI32, constant_init = Expr init span_default, constant_val = None,
      constant_span = span_default\<rparr>"

definition sample_source :: "expr_kind \<Rightarrow> program" where
  "sample_source init =
     \<lparr>program_resolution = resolution_default, program_title = [], program_title_span = span_default,
      program_structs = [], program_sounds = [], program_constants = [sample_constant init], program_globals = [],
      program_functions = []\<rparr>"

definition sample_modules :: "source_module list" where
  "sample_modules =
     [\<lparr>md_program = sample_source (ExVariable ''b::x''),
       md_imports = [(\<lparr>import_path = ''b.spk'', import_alias = ''b'', import_span = span_default\<rparr>, 1)],
       md_qualifier = [], md_directory = ''/d''\<rparr>,
      \<lparr>md_program = sample_source (ExI32 3), md_imports = [], md_qualifier = ''b.spk'', md_directory = ''/d''\<rparr>]"


end
