(* ===== verification/Parser_Shape.thy ===== *)
theory Parser_Shape
  imports Parser_Program Sema_Correct
begin

text \<open>
  The shape of what the parser builds, which the analysis relies on: array lengths are literals or names of
  constants, and conversions have a numeric type. \<open>produces f P\<close>: every value that
  \<open>f\<close> returns, from whatever state, satisfies \<open>P\<close>.
\<close>

named_theorems shape_rules \<open>values of the operations of the parser\<close>

definition produces :: "'a parse \<Rightarrow> ('a \<Rightarrow> bool) \<Rightarrow> bool" where
  "produces f P \<longleftrightarrow> (\<forall>p a p'. f p = Ok (a, p') \<longrightarrow> P a)"

lemma producesD: "produces f P \<Longrightarrow> f p = Ok (a, p') \<Longrightarrow> P a"
  unfolding produces_def by blast

lemma produces_return [shape_rules]: "P a \<Longrightarrow> produces (preturn a) P"
  by (simp add: produces_def preturn_def)

lemma produces_fail [shape_rules]: "produces (pfail d) P"
  by (simp add: produces_def pfail_def)

lemma produces_any: "(\<And>a. P a) \<Longrightarrow> produces f P"
  by (simp add: produces_def)

lemma produces_mono: "produces f P \<Longrightarrow> (\<And>a. P a \<Longrightarrow> Q a) \<Longrightarrow> produces f Q"
  by (auto simp: produces_def)

lemma produces_bind [shape_rules]:
  assumes "produces f (\<lambda>a. produces (g a) P)"
  shows "produces (pbind f g) P"
  unfolding produces_def
proof (intro allI impI)
  fix p b p'
  assume "pbind f g p = Ok (b, p')"
  then obtain a p1 where f: "f p = Ok (a, p1)" and g: "g a p1 = Ok (b, p')"
    by (auto simp: pbind_def rbind_eq_Ok)
  show "P b" by (rule producesD [OF producesD [OF assms f] g])
qed

lemma produces_leaves [shape_rules]:
  "(\<And>a. P a) \<Longrightarrow> produces pcurrent P" "(\<And>a. P a) \<Longrightarrow> produces padvance P"
  "(\<And>b. Q b) \<Longrightarrow> produces (pat kind) Q" "(\<And>b. Q b) \<Longrightarrow> produces (ptake kind) Q"
  "(\<And>a. P a) \<Longrightarrow> produces (pexpect kind msg) P" "(\<And>i. R i) \<Longrightarrow> produces (pidentifier msg) R"
  "(\<And>i. R i) \<Longrightarrow> produces (qualified_name name s) R" "(\<And>o'. T o') \<Longrightarrow> produces (take_operator ops) T"
  "(\<And>b. Q b) \<Longrightarrow> produces (looks_like_struct_literal name) Q"
  "(\<And>u. U u) \<Longrightarrow> produces optional_semicolon U" "(\<And>s. V s) \<Longrightarrow> produces (pmerge s1 s2) V"
  "W () \<Longrightarrow> produces (push_scope names) W" "W () \<Longrightarrow> produces pop_scope W" "W () \<Longrightarrow> produces (bind_value name) W"
  "(\<And>b. Q b) \<Longrightarrow> produces at_assignment_operator Q" "(\<And>b. Q b) \<Longrightarrow> produces (pat_word name) Q"
  "(\<And>i. Y i) \<Longrightarrow> produces (file_header root) Y"
  by (simp_all add: produces_def)

lemma produces_pif [shape_rules]: "produces f P \<Longrightarrow> produces g P \<Longrightarrow> produces (pif c f g) P"
  unfolding pif_def by (rule produces_bind) (simp add: produces_any)

lemma produces_error_here [shape_rules]: "produces (error_here msg) P"
  unfolding error_here_def by (intro shape_rules)

lemma produces_nesting_error [shape_rules]: "produces nesting_error P"
  unfolding nesting_error_def by (intro shape_rules)

lemma produces_checked [shape_rules]: "P e \<Longrightarrow> produces (pchecked room e) P"
  by (auto simp: pchecked_def split: sum.split intro: shape_rules)

lemma loop_fuel_produces:
  assumes "\<And>a. I a \<Longrightarrow> produces (body a) (\<lambda>r. case r of Inl a' \<Rightarrow> I a' | Inr b \<Rightarrow> P b)"
  shows "I a \<Longrightarrow> loop_fuel n body a p = Ok (b, p') \<Longrightarrow> P b"
proof (induction n arbitrary: a p)
  case (Suc n)
  from Suc.prems(2) obtain r p1 where r: "body a p = Ok (r, p1)" by (auto split: sum.splits prod.splits)
  have I: "case r of Inl a' \<Rightarrow> I a' | Inr b \<Rightarrow> P b" by (rule producesD [OF assms [OF Suc.prems(1)] r])
  show ?case
    by (cases r) (use I r Suc.prems(2) Suc.IH in auto)
qed simp

lemma produces_loop:
  assumes "I a" and "\<And>a. I a \<Longrightarrow> produces (body a) (\<lambda>r. case r of Inl a' \<Rightarrow> I a' | Inr b \<Rightarrow> P b)"
  shows "produces (ploop body a) P"
  unfolding produces_def ploop_def
  using loop_fuel_produces [where I = I and P = P and body = body, OF assms(2) assms(1)] by blast

section \<open>Types and expressions\<close>

definition type_written :: "value_type \<Rightarrow> bool" where
  "type_written ty \<longleftrightarrow> list_all written_length (collect_lengths ty)"

lemma array_length_written: "produces parse_array_length written_length"
  unfolding parse_array_length_def array_length_literal_def
  by (auto split!: token_kind.split intro!: shape_rules simp: written_length_def)

lemma value_type_written [shape_rules]:
  assumes "\<And>ty. type_written ty \<Longrightarrow> P ty"
  shows "produces (parse_value_type n) P"
proof -
  have "produces (parse_value_type n) type_written"
  proof (induction n)
    case 0
    show ?case unfolding parse_value_type_eqs by (rule shape_rules)
  next
    case (Suc n)
    have "produces (array_type (parse_value_type n)) type_written"
      unfolding array_type_def
      by (auto simp: type_written_def intro!: shape_rules produces_mono [OF Suc] produces_mono [OF array_length_written])
    from this [unfolded type_written_def] show ?case unfolding parse_value_type_eqs value_type_with_def
      by (auto split!: token_kind.split intro!: shape_rules simp: type_written_def)
  qed
  then show ?thesis by (rule produces_mono) (rule assms)
qed

abbreviation plain_expr :: "expr parse \<Rightarrow> bool" where
  "plain_expr f \<equiv> produces f numeric_conversions"

lemma plain_operator_chain:
  assumes "plain_expr f"
  shows "plain_expr (operator_chain room ops f)"
  unfolding operator_chain_def
  by (rule produces_bind, rule produces_mono [OF assms], rule produces_loop [where I = numeric_conversions])
     (auto split!: option.split intro!: shape_rules produces_mono [OF assms] simp: pbinary_def)

text \<open>Below, nested expressions are parsed by \<open>f\<close>.\<close>

lemma plain_expression_list:
  assumes "plain_expr f" and "\<And>es. list_all numeric_conversions es \<Longrightarrow> P es"
  shows "produces (expression_list f closing trailing) P"
  unfolding expression_list_def
  by (auto intro!: shape_rules produces_mono [OF assms(1)] assms(2)
        produces_loop [where I = "list_all numeric_conversions"])

lemma plain_arguments:
  "plain_expr f \<Longrightarrow> (\<And>es s. list_all numeric_conversions es \<Longrightarrow> P (es, s)) \<Longrightarrow> produces (arguments f) P"
  unfolding arguments_def by (auto intro!: shape_rules plain_expression_list)

lemma plain_conversion: "plain_expr f \<Longrightarrow> plain_expr (conversion room f token)"
  unfolding conversion_def Let_def by (auto intro!: shape_rules plain_arguments)

lemma plain_field_initializers:
  assumes "plain_expr f" and "\<And>fs. list_all init_conversions fs \<Longrightarrow> P fs"
  shows "produces (field_initializers f) P"
  unfolding field_initializers_def
  by (auto intro!: shape_rules produces_mono [OF assms(1)] assms(2) produces_loop [where I = "list_all init_conversions"])

lemma plain_named_expression: "plain_expr f \<Longrightarrow> plain_expr (named_expression room f name start)"
  unfolding named_expression_def struct_literal_def
  by (auto intro!: shape_rules plain_arguments plain_field_initializers)

lemma kind_conversions_kind [simp]: "kind_conversions (expr_kind e) = numeric_conversions e"
  by (cases e) simp

lemma plain_primary:
  assumes "plain_expr f"
  shows "plain_expr (primary room f)"
  unfolding primary_def array_literal_def parenthesized_def
  by (rule produces_bind)
     (auto split!: token_kind.split intro!: shape_rules plain_expression_list [OF assms] plain_named_expression [OF assms]
        plain_conversion [OF assms] produces_mono [OF assms])

lemma plain_postfix:
  assumes "plain_expr f"
  shows "plain_expr (postfix room f)"
  unfolding postfix_def index_suffix_def field_suffix_def
  by (rule produces_bind, rule produces_mono [OF plain_primary [OF assms]], rule produces_loop [where I = numeric_conversions])
     (auto intro!: shape_rules produces_mono [OF assms])

lemma plain_unary_with:
  assumes "plain_expr g" and "plain_expr f"
  shows "plain_expr (unary_with room g f)"
  unfolding unary_with_def
  by (auto split!: option.split intro!: shape_rules produces_mono [OF assms(1)] plain_postfix [OF assms(2)])

lemma plain_logical_or: "plain_expr f \<Longrightarrow> plain_expr (logical_or room f)"
  unfolding logical_or_def logical_and_def equality_def comparison_def pterm_def factor_def
  by (intro plain_operator_chain)

lemma plain_parsers: "plain_expr (pexpression n) \<and> plain_expr (punary n)"
proof (induction n)
  case 0
  show ?case unfolding pexpression_eqs by (auto intro!: plain_unary_with shape_rules)
next
  case (Suc n)
  then have "plain_expr (pexpression (Suc n))" unfolding pexpression_eqs by (intro plain_logical_or) simp
  with Suc show ?case unfolding pexpression_eqs(4) by (intro conjI plain_unary_with) simp_all
qed

lemma expression_plain [shape_rules]:
  "(\<And>e. numeric_conversions e \<Longrightarrow> P e) \<Longrightarrow> produces (pexpression n) P"
  by (rule produces_mono [OF plain_parsers [THEN conjunct1]])

section \<open>Statements and declarations\<close>

definition stmt_shaped :: "stmt \<Rightarrow> bool" where
  "stmt_shaped stmt \<longleftrightarrow>
     (\<forall>e \<in> set (stmt_exprs stmt). numeric_conversions e) \<and> (\<forall>ty \<in> set (stmt_types stmt). type_written ty)"

definition block_shaped :: "block \<Rightarrow> bool" where
  "block_shaped body \<longleftrightarrow>
     (\<forall>e \<in> set (block_exprs body). numeric_conversions e) \<and> (\<forall>ty \<in> set (block_types body). type_written ty)"

lemma block_shaped_simps [simp]:
  "block_shaped []"
  "block_shaped (stmt # body) \<longleftrightarrow> stmt_shaped stmt \<and> block_shaped body"
  by (auto simp: block_shaped_def stmt_shaped_def)

lemma block_shaped_append [simp]: "block_shaped (a @ b) \<longleftrightarrow> block_shaped a \<and> block_shaped b"
  by (induction a) simp_all

lemma stmt_shaped_simps [simp]:
  "stmt_shaped (Stmt (StLet n ty e) s) \<longleftrightarrow> numeric_conversions e \<and> type_written ty"
  "stmt_shaped (Stmt (StAssign target op e) s) \<longleftrightarrow> numeric_conversions target \<and> numeric_conversions e"
  "stmt_shaped (Stmt (StExpr e) s) \<longleftrightarrow> numeric_conversions e"
  "stmt_shaped (Stmt (StIf e a b) s) \<longleftrightarrow>
     numeric_conversions e \<and> block_shaped a \<and> (case b of None \<Rightarrow> True | Some b \<Rightarrow> block_shaped b)"
  "stmt_shaped (Stmt (StWhile e a) s) \<longleftrightarrow> numeric_conversions e \<and> block_shaped a"
  "stmt_shaped (Stmt (StFor n ns lower upper a) s) \<longleftrightarrow>
     numeric_conversions lower \<and> numeric_conversions upper \<and> block_shaped a"
  "stmt_shaped (Stmt (StReturn r) s) \<longleftrightarrow> (case r of None \<Rightarrow> True | Some e \<Rightarrow> numeric_conversions e)"
  by (cases b; auto simp: stmt_shaped_def block_shaped_def split: option.split)+

abbreviation shaped_block :: "(block \<times> span) parse \<Rightarrow> bool" where
  "shaped_block f \<equiv> produces f (\<lambda>(b, s). block_shaped b)"

lemma shaped_block_with_bindings: "shaped_block f \<Longrightarrow> shaped_block (block_with_bindings f names)"
  unfolding block_with_bindings_def by (auto intro!: shape_rules elim: produces_mono)

lemma statement_shaped:
  assumes "shaped_block f"
  shows "produces (statement room f) stmt_shaped"
  unfolding statement_def let_statement_def if_statement_def while_statement_def for_statement_def
    return_statement_def expression_statement_def assignment_statement_def
  by (auto split!: option.split intro!: shape_rules produces_mono [OF assms]
        produces_mono [OF shaped_block_with_bindings [OF assms]])

lemma statements_shaped: "produces f stmt_shaped \<Longrightarrow> produces (statements f) block_shaped"
  unfolding statements_def
  by (auto intro!: shape_rules produces_loop [where I = block_shaped] elim: produces_mono)

lemma pblock_shaped: "shaped_block (pblock n)"
proof (induction n)
  case 0
  show ?case unfolding pblock_eqs by (rule shape_rules)
next
  case (Suc n)
  then show ?case unfolding pblock_eqs block_contents_def
    by (auto intro!: shape_rules produces_mono [OF statements_shaped [OF statement_shaped]])
qed

lemma top_block_shaped [shape_rules]:
  "(\<And>b s. block_shaped b \<Longrightarrow> P (b, s)) \<Longrightarrow> produces (top_block names) P"
  unfolding top_block_def by (rule produces_mono [OF shaped_block_with_bindings [OF pblock_shaped]]) auto

definition function_shaped :: "function_decl \<Rightarrow> bool" where
  "function_shaped f \<longleftrightarrow>
     (\<forall>ty \<in> set (function_types f). type_written ty) \<and> (\<forall>e \<in> set (block_exprs (function_body f)). numeric_conversions e)"

lemma function_shaped_iff:
  "function_shaped f \<longleftrightarrow>
     list_all (\<lambda>p. type_written (param_ty p)) (function_params f) \<and>
     (case function_return_type f of RtValue ty \<Rightarrow> type_written ty | RtVoid \<Rightarrow> True) \<and> block_shaped (function_body f)"
  by (auto simp: function_shaped_def function_types_def block_shaped_def list_all_iff split: return_type.splits)

lemma as_parsed_iff:
  "as_parsed p \<longleftrightarrow>
     list_all (\<lambda>d. list_all (\<lambda>f. type_written (field_ty f)) (struct_fields d)) (program_structs p) \<and>
     list_all (\<lambda>c. type_written (constant_ty c) \<and> numeric_conversions (constant_init c)) (program_constants p) \<and>
     list_all (\<lambda>g. type_written (global_ty g) \<and> numeric_conversions (global_init g)) (program_globals p) \<and>
     list_all function_shaped (program_functions p)"
proof -
  have "as_parsed p \<longleftrightarrow> (\<forall>ty \<in> set (program_types p). type_written ty) \<and> (\<forall>e \<in> set (program_exprs p). numeric_conversions e)"
    by (simp add: as_parsed_def conversions_ok_def type_written_def)
  then show ?thesis
    by (simp add: program_exprs_def program_types_def function_shaped_def list_all_iff ball_Un) blast
qed

lemma struct_shaped: "produces parse_struct (\<lambda>d. list_all (\<lambda>f. type_written (field_ty f)) (struct_fields d))"
proof -
  have "produces struct_fields_loop (list_all (\<lambda>f. type_written (field_ty f)))"
    unfolding struct_fields_loop_def
    by (auto intro!: shape_rules produces_loop [where I = "list_all (\<lambda>f. type_written (field_ty f))"])
  then show ?thesis unfolding parse_struct_def by (auto intro!: shape_rules elim: produces_mono)
qed

lemma typed_initializer_shaped [shape_rules]:
  "(\<And>name ty init s. type_written ty \<Longrightarrow> numeric_conversions init \<Longrightarrow> P (name, ty, init, s)) \<Longrightarrow>
   produces (typed_initializer m1 m2 m3) P"
  unfolding typed_initializer_def by (auto intro!: shape_rules)

lemma constant_shaped: "produces parse_constant (\<lambda>c. type_written (constant_ty c) \<and> numeric_conversions (constant_init c))"
  unfolding parse_constant_def by (auto intro!: shape_rules)

lemma global_shaped: "produces parse_global (\<lambda>g. type_written (global_ty g) \<and> numeric_conversions (global_init g))"
  unfolding parse_global_def by (auto intro!: shape_rules)

lemma special_function_shaped [shape_rules]:
  "list_all (\<lambda>p. type_written (param_ty p)) params \<Longrightarrow> produces (special_function name kind params start) function_shaped"
  unfolding special_function_def by (auto intro!: shape_rules simp: function_shaped_iff)

lemma special_functions_shaped:
  "produces parse_start function_shaped" "produces parse_draw function_shaped" "produces parse_update function_shaped"
  unfolding parse_start_def parse_draw_def parse_update_def by (auto intro!: shape_rules)

lemma params_shaped: "produces parse_params (list_all (\<lambda>p. type_written (param_ty p)))"
  unfolding parse_params_def
  by (auto intro!: shape_rules produces_loop [where I = "list_all (\<lambda>p. type_written (param_ty p))"] simp: Let_def)

lemma return_type_written:
  "produces (parse_return_type n) (\<lambda>t. case t of RtValue ty \<Rightarrow> type_written ty | RtVoid \<Rightarrow> True)"
  unfolding parse_return_type_def by (auto intro!: shape_rules)

lemma named_function_shaped: "produces parse_named_function function_shaped"
  unfolding parse_named_function_def
  by (auto intro!: shape_rules produces_mono [OF params_shaped] produces_mono [OF return_type_written]
        simp: function_shaped_iff)

lemma declaration_item_shaped:
  assumes "as_parsed prog"
  shows "produces (declaration_item prog) as_parsed"
  unfolding declaration_item_def
  using assms
  by (intro shape_rules produces_any [of _ parse_import] produces_any [of _ parse_sound] produces_mono [OF struct_shaped] produces_mono [OF constant_shaped] produces_mono [OF global_shaped]
        produces_mono [OF special_functions_shaped(1)] produces_mono [OF special_functions_shaped(2)]
        produces_mono [OF special_functions_shaped(3)] produces_mono [OF named_function_shaped])
     (simp_all add: as_parsed_iff add_function_def produces_any)

lemma parser_run_shaped: "produces (parser_run root) as_parsed"
proof -
  have "produces (program_items root prog) as_parsed" if "as_parsed prog" for prog
    unfolding program_items_def
    by (rule produces_loop [where I = as_parsed])
       (auto intro!: that shape_rules produces_mono [OF declaration_item_shaped])
  then show ?thesis unfolding parser_run_def by (auto intro!: shape_rules simp: as_parsed_iff)
qed

lemma parse_file_shaped: "parse_file tokens root names = Some (Ok prog) \<Longrightarrow> as_parsed prog"
  using parser_run_shaped [of root]
  by (auto simp: parse_file_def Let_def parse_result_def produces_def split: sum.splits parse_failure.splits)

end
