(* ===== verification/Codegen_Program.thy ===== *)
theory Codegen_Program
  imports Codegen_Statements
begin

text \<open>
  Emission of a checked program, \<open>emit_program\<close> of \<^verbatim>\<open>src/src/codegen/llvm.rs\<close>
  with the data of \<^verbatim>\<open>src/src/codegen/embedded_data.rs\<close>.
\<close>

section \<open>Embedded data\<close>

definition char_of_byte :: "8 word \<Rightarrow> char" where
  "char_of_byte b = char_of (unat b)"

definition byte_array_text :: "string \<Rightarrow> string" where
  "byte_array_text bytes = ''private unnamed_addr constant ['' @ show_nat (length bytes) @ '' x i8] '' @ llvm_byte_string bytes"

definition sound_asset_text :: "sound_asset \<Rightarrow> string" where
  "sound_asset_text sound =
     ''@spk_sound_asset_'' @ show_int (sound_handle sound) @ '' = ''
     @ byte_array_text (map char_of_byte (sound_pcm sound)) @ '', align 2'' @ [newline]"

definition sound_case_text :: "sound_asset \<Rightarrow> string" where
  "sound_case_text sound =
     ''    i32 '' @ show_int (sound_handle sound) @ '', label %sound_'' @ show_int (sound_handle sound) @ [newline]"

definition sound_block_text :: "sound_asset \<Rightarrow> string" where
  "sound_block_text sound =
     ''sound_'' @ show_int (sound_handle sound) @ '':'' @ [newline]
     @ ''  store ptr @spk_sound_asset_'' @ show_int (sound_handle sound) @ '', ptr %data'' @ [newline]
     @ ''  store i32 '' @ show_nat (length (sound_pcm sound) div 2) @ '', ptr %sample_count'' @ [newline]
     @ ''  ret i32 1'' @ [newline]"

definition missing_sound_text :: string where
  "missing_sound_text =
     ''  store ptr null, ptr %data'' @ [newline] @ ''  store i32 0, ptr %sample_count'' @ [newline] @ ''  ret i32 0''
     @ [newline] @ ''}'' @ [newline, newline]"

definition embedded_data :: "program \<Rightarrow> string" where
  "embedded_data p =
     (let sounds = sort_key sound_handle (program_sounds p) in
      ''@spk_storage_identity_data = '' @ byte_array_text (program_title p @ [CHR 0x00]) @ '', align 1'' @ [newline]
      @ concat (map sound_asset_text sounds)
      @ [newline] @ ''declare void @crumb_storage_init(ptr, i64)'' @ [newline, newline]
      @ ''define i32 @spk_sound_lookup(i32 %handle, ptr %data, ptr %sample_count) {'' @ [newline] @ ''entry:'' @ [newline]
      @ (if sounds = [] then missing_sound_text
         else
           ''  switch i32 %handle, label %missing ['' @ [newline] @ concat (map sound_case_text sounds) @ ''  ]'' @ [newline]
           @ concat (map sound_block_text sounds) @ ''missing:'' @ [newline] @ missing_sound_text))"

section \<open>Environments of a program\<close>

definition builtin_symbol_signature :: "builtin_function \<Rightarrow> symbol_signature" where
  "builtin_symbol_signature b =
     \<lparr>sym_params = bf_params b, sym_return = bf_return_type b, sym_symbol = bf_llvm_symbol b\<rparr>"

definition function_symbol_signature :: "function_decl \<Rightarrow> symbol_signature" where
  "function_symbol_signature f =
     \<lparr>sym_params = map param_ty (function_params f), sym_return = function_return_type f,
      sym_symbol = CHR ''@'' # symbol_name ''fn'' (function_name f)\<rparr>"

definition function_signatures :: "program \<Rightarrow> (string, symbol_signature) hash_map" where
  "function_signatures p =
     hm_collect (map (\<lambda>b. (bf_name b, builtin_symbol_signature b)) FUNCTIONS
       @ map (\<lambda>f. (function_name f, function_symbol_signature f))
           (filter (\<lambda>f. function_kind f = FkNamed) (program_functions p)))"

definition global_symbol :: "string \<Rightarrow> string" where
  "global_symbol n = CHR ''@'' # symbol_name ''global'' n"

definition constant_symbol :: "string \<Rightarrow> string" where
  "constant_symbol n = CHR ''@'' # symbol_name ''const'' n"

text \<open>The values of all the constants; a constant without one panics.\<close>

definition constant_entries :: "program \<Rightarrow> (string \<times> constant_value) list option" where
  "constant_entries p =
     all_some (map (\<lambda>c. map_option (\<lambda>v. (constant_name c, v)) (constant_val c)) (program_constants p))"

definition has_aggregate_value :: "constant_decl \<Rightarrow> bool" where
  "has_aggregate_value c = (case constant_val c of None \<Rightarrow> False | Some v \<Rightarrow> is_aggregate_constant v)"

definition aggregate_constants :: "program \<Rightarrow> constant_decl list" where
  "aggregate_constants p = filter has_aggregate_value (program_constants p)"

definition global_variables :: "program \<Rightarrow> (string, variable) hash_map" where
  "global_variables p =
     hm_collect (map (\<lambda>g. (global_name g, variable_at (global_ty g) (global_symbol (global_name g)))) (program_globals p)
       @ map (\<lambda>c. (constant_name c, variable_at (constant_ty c) (constant_symbol (constant_name c)))) (aggregate_constants p))"

definition function_env :: "program \<Rightarrow> runtime_diagnostics \<Rightarrow> (string \<times> constant_value) list \<Rightarrow> function_decl \<Rightarrow> gen_env" where
  "function_env p diagnostics entries f =
     \<lparr>ge_globals = global_variables p,
      ge_constants = hm_collect (builtin_constants (program_resolution p) @ entries),
      ge_structs = hm_collect (map (\<lambda>d. (struct_decl_name d, d)) (program_structs p)),
      ge_functions = function_signatures p, ge_diagnostics = diagnostics, ge_function = f\<rparr>"

section \<open>Declarations\<close>

definition builtin_declaration :: "builtin_function \<Rightarrow> string option" where
  "builtin_declaration b =
     Option.bind (llvm_return_type (bf_return_type b)) (\<lambda>rt.
     map_option (\<lambda>ps. ''declare '' @ rt @ '' '' @ bf_llvm_symbol b @ ''('' @ join '', '' ps @ '')'' @ [newline])
       (all_some (map llvm_value_type (bf_params b))))"

definition struct_declaration :: "struct_decl \<Rightarrow> string option" where
  "struct_declaration d =
     map_option (\<lambda>fs. CHR ''%'' # symbol_name ''struct'' (struct_decl_name d) @ '' = type { '' @ join '', '' fs @ '' }'' @ [newline])
       (all_some (map (llvm_value_type \<circ> field_ty) (struct_fields d)))"

definition data_declaration :: "string \<Rightarrow> string \<Rightarrow> value_type \<Rightarrow> constant_value \<Rightarrow> string option" where
  "data_declaration symbol keyword ty v =
     Option.bind (llvm_value_type ty) (\<lambda>t.
     map_option (\<lambda>c. symbol @ '' = internal '' @ keyword @ '' '' @ t @ '' '' @ c @ [newline]) (llvm_constant v))"

definition constant_declaration :: "constant_decl \<Rightarrow> string option" where
  "constant_declaration c =
     Option.bind (constant_val c) (data_declaration (constant_symbol (constant_name c)) ''constant'' (constant_ty c))"

definition global_declaration :: "global_decl \<Rightarrow> string option" where
  "global_declaration g =
     Option.bind (global_val g) (data_declaration (global_symbol (global_name g)) ''global'' (global_ty g))"

text \<open>A blank line after a group that is not empty.\<close>

definition blank_after :: "bool \<Rightarrow> string" where
  "blank_after b = (if b then [newline] else [])"

definition concat_some :: "string option list \<Rightarrow> string option" where
  "concat_some xs = map_option concat (all_some xs)"

section \<open>The program\<close>

definition title_comment :: "program \<Rightarrow> string" where
  "title_comment p =
     ''; Speck game: '' @ map (\<lambda>c. if c = CHR 0x0D \<or> c = newline then CHR '' '' else c) (program_title p) @ [newline]"

definition target_line :: "string option \<Rightarrow> string" where
  "target_line target =
     (case target of
        None \<Rightarrow> []
      | Some triple \<Rightarrow> ''target triple = '' @ [quote_byte] @ triple @ [quote_byte, newline])"

definition failure_declarations :: string where
  "failure_declarations =
     ''declare void @crumb_bounds_fail(i32, i32)'' @ [newline]
     @ ''declare void @crumb_division_fail(i32, i32)'' @ [newline]
     @ ''declare void @crumb_remainder_fail(i32, i32)'' @ [newline, newline]"

text \<open>A last blank line is dropped.\<close>

definition trim_blank_line :: "string \<Rightarrow> string" where
  "trim_blank_line s = (if 2 \<le> length s \<and> drop (length s - 2) s = [newline, newline] then butlast s else s)"

definition emit_program :: "program \<Rightarrow> string option \<Rightarrow> runtime_diagnostics \<Rightarrow> string option" where
  "emit_program p target diagnostics =
     Option.bind (constant_entries p) (\<lambda>entries.
     Option.bind (concat_some (map builtin_declaration FUNCTIONS)) (\<lambda>builtins_text.
     Option.bind (concat_some (map struct_declaration (program_structs p))) (\<lambda>structs_text.
     Option.bind (concat_some (map constant_declaration (aggregate_constants p))) (\<lambda>constants_text.
     Option.bind (concat_some (map global_declaration (program_globals p))) (\<lambda>globals_text.
     Option.bind (concat_some (map (\<lambda>f. map_option (\<lambda>s. s @ [newline])
         (emit_function (function_env p diagnostics entries f) (length (program_title p)))) (program_functions p)))
       (\<lambda>functions_text.
     Some (trim_blank_line
       (title_comment p
        @ ''source_filename = '' @ [quote_byte] @ ''speck'' @ [quote_byte, newline]
        @ target_line target @ [newline]
        @ embedded_data p
        @ builtins_text @ diagnostics_declarations diagnostics @ failure_declarations
        @ structs_text @ blank_after (program_structs p \<noteq> [])
        @ constants_text @ globals_text @ blank_after (program_globals p \<noteq> [] \<or> aggregate_constants p \<noteq> [])
        @ functions_text))))))))"

text \<open>\<open>emit_for_target\<close> and \<open>emit_for_development\<close>; \<open>emit\<close> is the former without a target.\<close>

definition emit_for_target :: "program \<Rightarrow> string option \<Rightarrow> string option" where
  "emit_for_target p target = emit_program p target RdPlain"

definition emit_for_development :: "program \<Rightarrow> source_map \<Rightarrow> string option \<Rightarrow> string option" where
  "emit_for_development p sources target = emit_program p target (RdLocated sources)"

end
