(* ===== verification/Codegen_Typed.thy ===== *)
theory Codegen_Typed
  imports Codegen_Program Sema_Correct
begin

text \<open>
  Code generation of an accepted program panics nowhere: every \<open>expect\<close> and \<open>unreachable!\<close> of
  \<^verbatim>\<open>src/src/codegen/llvm.rs\<close> that appeals to semantic checking is justified by the typing
  rules, and an emitted operand has the type that the rules give its expression.
\<close>

section \<open>Types with a text\<close>

definition has_text :: "value_type \<Rightarrow> bool" where
  "has_text ty \<longleftrightarrow> llvm_value_type ty \<noteq> None"

lemma has_text_simps [simp]:
  "has_text VtI32" "has_text VtF32" "has_text VtBool" "has_text (VtStruct n)"
  "has_text (VtArray element (AlResolved len)) \<longleftrightarrow> has_text element"
  by (simp_all add: has_text_def)

lemma has_text_Some: "has_text ty \<Longrightarrow> \<exists>t. llvm_value_type ty = Some t"
  by (simp add: has_text_def)

lemma has_text_lengths: "(\<forall>len \<in> set (collect_lengths ty). \<exists>k. len = AlResolved k) \<Longrightarrow> has_text ty"
  by (induction ty) auto

lemma has_text_numeric: "is_numeric ty \<Longrightarrow> has_text ty"
  by (auto simp: is_numeric_def)

section \<open>Emitters that return\<close>

text \<open>
  \<open>returns_in S m Q\<close>: in scopes \<open>S\<close>, after the first two lines of a function, \<open>m\<close> returns, and
  \<open>Q\<close> holds of the result and of the scopes it leaves.
\<close>

definition returns_in :: "(string, variable) hash_map list \<Rightarrow> 'a gen \<Rightarrow> ('a \<Rightarrow> (string, variable) hash_map list \<Rightarrow> bool) \<Rightarrow> bool" where
  "returns_in S m Q \<longleftrightarrow>
     (\<forall>em. em_scopes em = S \<longrightarrow> 2 \<le> length (em_lines em) \<longrightarrow>
        (\<exists>a em'. m em = Some (a, em') \<and> 2 \<le> length (em_lines em') \<and> Q a (em_scopes em')))"

abbreviation gives :: "(string, variable) hash_map list \<Rightarrow> 'a gen \<Rightarrow> ('a \<Rightarrow> bool) \<Rightarrow> bool" where
  "gives S m Q \<equiv> returns_in S m (\<lambda>a S'. S' = S \<and> Q a)"

lemma runs_gbind:
  assumes "returns_in S m P" and "\<And>a S'. P a S' \<Longrightarrow> returns_in S' (f a) Q"
  shows "returns_in S (gbind m f) Q"
  unfolding returns_in_def
proof (intro allI impI)
  fix em :: emitter
  assume "em_scopes em = S" "2 \<le> length (em_lines em)"
  then obtain a em' where m: "m em = Some (a, em')" and len: "2 \<le> length (em_lines em')" and P: "P a (em_scopes em')"
    using assms(1) by (auto simp: returns_in_def)
  show "\<exists>a em'. gbind m f em = Some (a, em') \<and> 2 \<le> length (em_lines em') \<and> Q a (em_scopes em')"
    using assms(2) [OF P] len by (auto simp: returns_in_def gbind_def m)
qed

lemma runs_weaken: "returns_in S m P \<Longrightarrow> (\<And>a S'. P a S' \<Longrightarrow> Q a S') \<Longrightarrow> returns_in S m Q"
  unfolding returns_in_def by blast

lemma runs_gret: "Q a S \<Longrightarrow> returns_in S (gret a) Q"
  by (simp add: returns_in_def gret_def)

lemma runs_gsome: "x = Some a \<Longrightarrow> Q a S \<Longrightarrow> returns_in S (gsome x) Q"
  by (simp add: returns_in_def gsome_def)

text \<open>A step that always returns and leaves the scopes alone, and the rest of the emitter.\<close>

definition steady :: "'a gen \<Rightarrow> bool" where
  "steady m \<longleftrightarrow> (\<forall>S. gives S m (\<lambda>_. True))"

lemma runs_steady: "steady m \<Longrightarrow> (\<And>a. Q a S) \<Longrightarrow> returns_in S m Q"
  unfolding steady_def by (blast intro: runs_weaken)

lemma runs_steps: "steady m \<Longrightarrow> (\<And>a. returns_in S (f a) Q) \<Longrightarrow> returns_in S (gbind m f) Q"
  by (rule runs_gbind [of S m "\<lambda>a S'. S' = S"]) (auto intro: runs_steady)

lemma runs_let: "x = Some a \<Longrightarrow> returns_in S (f a) Q \<Longrightarrow> returns_in S (gbind (gsome x) f) Q"
  by (simp add: returns_in_def gbind_def gsome_def)

lemma runs_text: "has_text ty \<Longrightarrow> (\<And>t. returns_in S (f t) Q) \<Longrightarrow> returns_in S (gbind (gsome (llvm_value_type ty)) f) Q"
  using has_text_Some runs_let by metis

lemma steadyI: "(\<And>S. gives S m (\<lambda>_. True)) \<Longrightarrow> steady m"
  by (simp add: steady_def)

lemma steady_gbind: "steady m \<Longrightarrow> (\<And>a. steady (f a)) \<Longrightarrow> steady (gbind m f)"
  by (rule steadyI, rule runs_steps) (simp_all add: steady_def)

named_theorems steady_intros \<open>emitters that always return\<close>

declare steady_gbind [steady_intros]

lemma steady_basic [steady_intros]:
  "steady (gret a)" "steady (assign_temp s)" "steady (instruction s)" "steady (label p)" "steady (terminate t)"
  "steady (place_label l)" "steady (entry_alloca ty)" "steady is_terminated" "steady current_block" "steady (store_into ty r p)"
  "steady (terminate_unless b t)" "steady (push_line ln)"
  by (auto simp: steady_def returns_in_def gret_def assign_temp_def gbind_def temp_def assign_to_def push_line_def instruction_def
      label_def terminate_def place_label_def entry_alloca_def is_terminated_def current_block_def store_into_def terminate_unless_def)

lemma steady_report [steady_intros]: "ge_diagnostics env = RdPlain \<Longrightarrow> steady (report_location env s)"
  by (simp add: steady_def returns_in_def report_location_def diagnostics_instruction_def gbind_def gsome_def gret_def)

lemma steady_bounds_check [steady_intros]: "ge_diagnostics env = RdPlain \<Longrightarrow> steady (bounds_check env index len s)"
  unfolding bounds_check_def by (intro steady_intros)

lemma steady_element_pointer [steady_intros]: "ge_diagnostics env = RdPlain \<Longrightarrow> steady (element_pointer env ty p len s index)"
  unfolding element_pointer_def by (intro steady_intros)

lemma steady_insert_into [steady_intros]: "steady (insert_into aty aggregate ty v i)"
  unfolding insert_into_def by (intro steady_intros)

section \<open>Operators\<close>

lemma runs_safe_float_to_int: "gives S (safe_float_to_int v) (\<lambda>r. op_ty r = RtValue VtI32)"
  unfolding safe_float_to_int_def
  by ((rule runs_steps, intro steady_intros)+, rule runs_gret) (simp add: operand_of_def)

lemma operand_of_simps [simp]: "op_ty (operand_of ty r) = RtValue ty" "op_repr (operand_of ty r) = r"
  by (simp_all add: operand_of_def)

lemma operand_value_type: "op_ty v = RtValue ty \<Longrightarrow> operand_value_type v = Some ty"
  by (simp add: operand_value_type_def return_value_type_def)

lemma runs_value_type:
  "op_ty v = RtValue ty \<Longrightarrow> returns_in S (f ty) Q \<Longrightarrow> returns_in S (gbind (gsome (operand_value_type v)) f) Q"
  by (simp add: operand_value_type gbind_gsome)

lemma runs_division:
  assumes "ge_diagnostics env = RdPlain" and "op = BoDivide \<or> op = BoRemainder"
  shows "gives S (checked_i32_division env l op r s) (\<lambda>v. op_ty v = RtValue VtI32)"
proof -
  obtain parts where "division_parts op = Some parts" using assms(2) by (auto simp: division_parts_def)
  moreover obtain mnemonic hook stage where "parts = (mnemonic, hook, stage)" by (cases parts)
  ultimately have parts: "division_parts op = Some (mnemonic, hook, stage)" by simp
  show ?thesis
    unfolding checked_i32_division_def
    by (rule runs_let [OF parts], unfold prod.case, (rule runs_steps, intro steady_intros assms(1))+, rule runs_gret) simp
qed

lemma binary_instruction_result:
  "binary_result op ty = Some result \<Longrightarrow> \<not> ((op = BoDivide \<or> op = BoRemainder) \<and> ty \<noteq> VtF32) \<Longrightarrow>
   op \<noteq> BoLogicalAnd \<Longrightarrow> op \<noteq> BoLogicalOr \<Longrightarrow> \<exists>mnemonic. binary_instruction (ty = VtF32) ty op = Some (mnemonic, result)"
  by (cases op) (auto simp: binary_result_def binary_instruction_def split: if_splits)

lemma runs_emit_binary:
  assumes "ge_diagnostics env = RdPlain" and "op_ty l = RtValue ty" and "has_text ty" and "binary_result op ty = Some result"
    and "op \<noteq> BoLogicalAnd" and "op \<noteq> BoLogicalOr"
  shows "gives S (emit_binary env l op r s) (\<lambda>v. op_ty v = RtValue result)"
proof (cases "(op = BoDivide \<or> op = BoRemainder) \<and> ty \<noteq> VtF32")
  case True
  then have "result = VtI32" using assms(4) by (auto simp: binary_result_def is_numeric_def split: if_splits)
  then show ?thesis
    using True runs_division [OF assms(1)] unfolding emit_binary_def by (auto intro!: runs_value_type [OF assms(2)])
next
  case False
  then obtain mnemonic where "binary_instruction (ty = VtF32) ty op = Some (mnemonic, result)"
    using binary_instruction_result assms by blast
  moreover have "gives S (gbind (assign_temp x) (\<lambda>t. gret (operand_of result t))) (\<lambda>v. op_ty v = RtValue result)" for x
    by (rule runs_steps, intro steady_intros, rule runs_gret) simp
  ultimately show ?thesis
    using False unfolding emit_binary_def
    by (auto intro!: runs_value_type [OF assms(2)] runs_let runs_text [OF assms(3)])
qed

lemma runs_logical_rest:
  assumes "gives T right (\<lambda>_. True)"
  shows "gives T (logical_rest l op right) (\<lambda>v. op_ty v = RtValue VtBool)"
proof -
  have tail: "gives T (gbind current_block (\<lambda>b. gbind (terminate m) (\<lambda>_. gbind (place_label n) (\<lambda>_.
      gbind (assign_temp (x b)) (\<lambda>t. gret (operand_of VtBool t)))))) (\<lambda>v. op_ty v = RtValue VtBool)" for m n x
    by ((rule runs_steps, intro steady_intros)+, rule runs_gret) simp
  show ?thesis
    unfolding logical_rest_def
    by ((rule runs_steps, intro steady_intros)+, rule runs_gbind [OF assms], clarify, rule tail)
qed

lemma runs_emit_unary:
  assumes "op_ty v = RtValue ty" and "(op = UoNegate \<and> is_numeric ty) \<or> (op = UoNot \<and> ty = VtBool)"
  shows "gives S (emit_unary op v) (\<lambda>r. op_ty r = RtValue ty)"
proof -
  have "gives S (gbind (assign_temp x) (\<lambda>t. gret (operand_of ty t))) (\<lambda>v. op_ty v = RtValue ty)" for x
    by (rule runs_steps, intro steady_intros, rule runs_gret) simp
  then show ?thesis
    using assms(2) unfolding emit_unary_def is_numeric_def
    by (elim disjE conjE) (simp_all add: operand_value_type [OF assms(1)] gbind_gsome)
qed

lemma runs_emit_conversion:
  assumes "op_ty v = RtValue ty" and "is_numeric ty" and "is_numeric target"
  shows "gives S (emit_conversion target v) (\<lambda>r. op_ty r = RtValue target)"
proof -
  have "gives S (gbind (assign_temp x) (\<lambda>t. gret (operand_of VtF32 t))) (\<lambda>v. op_ty v = RtValue VtF32)" for x
    by (rule runs_steps, intro steady_intros, rule runs_gret) simp
  then show ?thesis
    using assms(1) assms(2,3) [unfolded is_numeric_def] runs_safe_float_to_int unfolding emit_conversion_def
    by (auto intro!: runs_value_type [OF assms(1)] runs_gret)
qed

section \<open>Accesses\<close>

lemma runs_load_variable: "has_text (var_ty v) \<Longrightarrow> gives S (load_variable v) (\<lambda>r. op_ty r = RtValue (var_ty v))"
  unfolding load_variable_def by (rule runs_text, assumption, rule runs_steps, intro steady_intros, rule runs_gret) simp

lemma variable_at_simps [simp]: "var_ty (variable_at ty p) = ty" "var_pointer (variable_at ty p) = p"
  by (simp_all add: variable_at_def)

lemma find_enumerate:
  assumes "find P xs = Some x"
  shows "\<exists>i. find (\<lambda>(i, y). P y) (enumerate n xs) = Some (i, x)"
  using assms by (induction xs arbitrary: n) (auto split: if_splits)

lemma find_field_index: "find_field d n = Some f \<Longrightarrow> \<exists>i. find_field_index d n = Some (i, f)"
  using find_enumerate unfolding find_field_def find_field_index_def by fastforce

lemma struct_field_of:
  "hm_get (ge_structs env) name = Some d \<Longrightarrow> find_field d n = Some f \<Longrightarrow>
   \<exists>i. struct_field_of env (VtStruct name) n = Some (i, f)"
  using find_field_index by (simp add: struct_field_of_def)

lemma runs_field_pointer:
  assumes "hm_get (ge_structs env) name = Some d" and "find_field d n = Some f" and "var_ty v = VtStruct name"
  shows "gives S (field_pointer env v n) (\<lambda>r. \<exists>w. r = Some w \<and> var_ty w = field_ty f)"
proof -
  obtain i where "struct_field_of env (VtStruct name) n = Some (i, f)" using struct_field_of assms(1,2) by blast
  moreover have "gives S (gbind (assign_temp x) (\<lambda>p. gret (Some (variable_at (field_ty f) p)))) (\<lambda>r. \<exists>w. r = Some w \<and> var_ty w = field_ty f)" for x
    by (rule runs_steps, intro steady_intros, rule runs_gret) simp
  ultimately show ?thesis unfolding field_pointer_def by (simp add: assms(3) gbind_gsome)
qed

lemma runs_extract_field:
  assumes "hm_get (ge_structs env) name = Some d" and "find_field d n = Some f" and "op_ty v = RtValue (VtStruct name)"
  shows "gives S (extract_field env v n) (\<lambda>r. op_ty r = RtValue (field_ty f))"
proof -
  obtain i where "struct_field_of env (VtStruct name) n = Some (i, f)" using struct_field_of assms(1,2) by blast
  moreover have "gives S (gbind (assign_temp x) (\<lambda>t. gret (operand_of (field_ty f) t))) (\<lambda>r. op_ty r = RtValue (field_ty f))" for x
    by (rule runs_steps, intro steady_intros, rule runs_gret) simp
  ultimately show ?thesis unfolding extract_field_def by (simp add: operand_value_type [OF assms(3)] gbind_gsome)
qed

lemma runs_call_function:
  assumes "\<And>ty. sym_return sig = RtValue ty \<Longrightarrow> has_text ty"
  shows "gives S (call_function sig args) (\<lambda>r. op_ty r = sym_return sig)"
proof (cases "sym_return sig")
  case RtVoid
  then show ?thesis
    unfolding call_function_def if_P [OF RtVoid] by (intro runs_steps steady_intros runs_gret) simp
next
  case (RtValue ty)
  then obtain t where "llvm_return_type (sym_return sig) = Some t"
    using assms has_text_Some by (auto simp: llvm_return_type_def)
  then show ?thesis
    using RtValue unfolding call_function_def by (auto simp: gbind_gsome intro!: runs_steps steady_intros runs_gret)
qed

section \<open>The checker and the emitter\<close>

text \<open>
  \<open>serves ck env\<close>: the environment of an emitter has what the environment of the checker promises, and
  every type in it has a text.
\<close>

definition serves_variable :: "gen_env \<Rightarrow> string \<Rightarrow> binding \<Rightarrow> variable option \<Rightarrow> bool" where
  "serves_variable env n b found \<longleftrightarrow>
     (case found of
        Some v \<Rightarrow> var_ty v = bind_ty b
      | None \<Rightarrow> bind_mutability b = MuConstant \<and>
          (\<exists>c. hm_get (ge_constants env) n = Some c \<and> constant_value_ty c = bind_ty b \<and> llvm_constant c \<noteq> None))"

definition serves_name :: "gen_env \<Rightarrow> string \<Rightarrow> binding \<Rightarrow> bool" where
  "serves_name env n b \<longleftrightarrow> has_text (bind_ty b) \<and> serves_variable env n b (hm_get (ge_globals env) n)"

definition serves_function :: "gen_env \<Rightarrow> string \<Rightarrow> signature \<Rightarrow> bool" where
  "serves_function env n sig \<longleftrightarrow>
     (\<forall>ty \<in> set (sig_params sig). has_text ty) \<and> (\<forall>ty. sig_return sig = RtValue ty \<longrightarrow> has_text ty) \<and>
     (\<exists>g. hm_get (ge_functions env) n = Some g \<and> sym_params g = sig_params sig \<and> sym_return g = sig_return sig)"

definition serves :: "checker \<Rightarrow> gen_env \<Rightarrow> bool" where
  "serves ck env \<longleftrightarrow>
     ge_diagnostics env = RdPlain \<and> ge_structs env = ck_structs ck \<and>
     (\<forall>n d. hm_get (ck_structs ck) n = Some d \<longrightarrow> (\<forall>f \<in> set (struct_fields d). has_text (field_ty f))) \<and>
     (\<forall>n sig. hm_get (ck_functions ck) n = Some sig \<longrightarrow> serves_function env n sig) \<and>
     (\<forall>n b. checker_binding (ck\<lparr>ck_scopes := []\<rparr>) n = Some b \<longrightarrow> serves_name env n b)"

definition scope_agrees :: "(string, binding) hash_map \<Rightarrow> (string, variable) hash_map \<Rightarrow> bool" where
  "scope_agrees cs es \<longleftrightarrow>
     (\<forall>n. map_option bind_ty (hm_get cs n) = map_option var_ty (hm_get es n)) \<and>
     (\<forall>n b. hm_get cs n = Some b \<longrightarrow> has_text (bind_ty b))"

definition scopes_agree :: "checker \<Rightarrow> (string, variable) hash_map list \<Rightarrow> bool" where
  "scopes_agree ck S \<longleftrightarrow> list_all2 scope_agrees (ck_scopes ck) S"

lemma scopes_get_agrees:
  "list_all2 scope_agrees cs S \<Longrightarrow>
   map_option bind_ty (scopes_get cs n) = map_option var_ty (lookup_scopes S n) \<and>
   (\<forall>b. scopes_get cs n = Some b \<longrightarrow> has_text (bind_ty b))"
proof (induction rule: list_all2_induct)
  case (Cons c cs e S)
  then have "map_option bind_ty (hm_get c n) = map_option var_ty (hm_get e n)" "\<And>b. hm_get c n = Some b \<Longrightarrow> has_text (bind_ty b)"
    by (auto simp: scope_agrees_def)
  then show ?case using Cons.IH by (cases "hm_get c n"; cases "hm_get e n") auto
qed simp

lemma binding_served:
  assumes "serves ck env" and "scopes_agree ck S" and "checker_binding ck n = Some b"
  shows "has_text (bind_ty b) \<and> gives S (variable_of env n) (serves_variable env n b)"
proof -
  note local = scopes_get_agrees [OF assms(2) [unfolded scopes_agree_def], of n]
  show ?thesis
  proof (cases "scopes_get (ck_scopes ck) n")
    case None
    then have "checker_binding (ck\<lparr>ck_scopes := []\<rparr>) n = Some b" and "lookup_scopes S n = None"
      using assms(3) local by (simp_all add: checker_binding_def split: option.splits)
    then show ?thesis using assms(1) by (simp add: serves_def serves_name_def returns_in_def variable_of_def)
  next
    case (Some c)
    then obtain v where "c = b" "lookup_scopes S n = Some v" "var_ty v = bind_ty b"
      using assms(3) local by (cases "lookup_scopes S n") (auto simp: checker_binding_def)
    then show ?thesis using local Some by (simp add: returns_in_def variable_of_def serves_variable_def)
  qed
qed

text \<open>A typed expression has a type with a text.\<close>

lemma binary_result_text: "binary_result op ty = Some result \<Longrightarrow> has_text result"
  by (auto simp: binary_result_def is_numeric_def split: binary_op.splits if_splits)

lemma field_text: "serves ck env \<Longrightarrow> hm_get (ck_structs ck) name = Some d \<Longrightarrow> find_field d n = Some f \<Longrightarrow> has_text (field_ty f)"
  using find_field_in unfolding serves_def by blast

lemma typed_text:
  "typed ck e rt \<Longrightarrow> serves ck env \<longrightarrow> scopes_agree ck S \<longrightarrow> numeric_conversions e \<longrightarrow> (\<forall>ty. rt = RtValue ty \<longrightarrow> has_text ty)"
  "initializes ck e ty' \<Longrightarrow> True"
proof (induction rule: typed_initializes.inducts)
  case (typed_variable ck n b s)
  then show ?case using binding_served by simp
next
  case (typed_field ck base name d n f ns s)
  then show ?case using field_text by simp
next
  case (typed_call ck name sig args s)
  then show ?case by (auto simp: serves_def serves_function_def)
next
  case (typed_binary ck left ty right op result s)
  then show ?case using binary_result_text by simp
qed (simp_all add: has_text_numeric)

section \<open>Expressions\<close>

lemma runs_emit_variable:
  assumes "serves ck env" and "scopes_agree ck S" and "checker_binding ck n = Some b"
  shows "gives S (emit_expr env (Expr (ExVariable n) s)) (\<lambda>v. op_ty v = RtValue (bind_ty b))"
proof -
  note served = binding_served [OF assms]
  have "gives S (case r of Some v \<Rightarrow> load_variable v
      | None \<Rightarrow> gbind (gsome (hm_get (ge_constants env) n)) (\<lambda>c. gbind (gsome (llvm_constant c)) (\<lambda>t. gret (operand_of (constant_value_ty c) t))))
      (\<lambda>v. op_ty v = RtValue (bind_ty b))" if "serves_variable env n b r" for r
  proof (cases r)
    case None
    then show ?thesis using that by (auto simp: serves_variable_def gbind_gsome intro!: runs_gret)
  next
    case (Some v)
    then show ?thesis using that served runs_load_variable [of v] by (simp add: serves_variable_def)
  qed
  then show ?thesis using served by (auto intro!: runs_gbind [of _ "variable_of env n"])
qed

lemma runs_initializers:
  assumes "\<And>i. i \<in> set inits \<Longrightarrow> \<exists>f. find_field d (fi_name i) = Some f \<and> has_text (field_ty f) \<and>
           gives S (emit_expr_as env (field_ty f) (fi_value i)) (\<lambda>v. op_ty v = RtValue (field_ty f))"
  shows "gives S (emit_initializers env d aty aggregate inits) (\<lambda>_. True)"
  using assms
proof (induction inits arbitrary: aggregate)
  case (Cons i inits)
  obtain n e s where i: "i = FieldInitializer n e s" by (cases i)
  obtain f where f: "find_field d n = Some f" "has_text (field_ty f)"
    and e: "gives S (emit_expr_as env (field_ty f) e) (\<lambda>v. op_ty v = RtValue (field_ty f))"
    using Cons.prems [of i] by (auto simp: i)
  obtain k where k: "find_field_index d n = Some (k, f)" using find_field_index [OF f(1)] by blast
  have "gives S (emit_initializers env d aty t inits) (\<lambda>_. True)" for t using Cons by simp
  then have "gives S (gbind (insert_into aty aggregate ty v k) (\<lambda>t. emit_initializers env d aty t inits)) (\<lambda>_. True)" for ty v
    by (intro runs_steps steady_intros)
  then show ?case
    by (auto simp: i k gbind_gsome intro!: runs_gbind [OF e] runs_text [OF f(2)])
qed (simp add: runs_gret)

lemma runs_elements:
  assumes "\<And>e. e \<in> set es \<Longrightarrow> gives S (emit_expr_as env element e) (\<lambda>_. True)"
  shows "gives S (emit_elements env aty element ety i aggregate es) (\<lambda>_. True)"
  using assms
proof (induction es arbitrary: i aggregate)
  case (Cons e es)
  have "gives S (emit_elements env aty element ety j t es) (\<lambda>_. True)" for j t using Cons by simp
  then have "gives S (gbind (insert_into aty aggregate ety v i) (\<lambda>t. emit_elements env aty element ety (Suc i) t es)) (\<lambda>_. True)" for v
    by (intro runs_steps steady_intros)
  then show ?case using Cons.prems by (auto intro!: runs_gbind [of S "emit_expr_as env element e" "\<lambda>_ S'. S' = S"])
qed (simp add: runs_gret)

lemma runs_arguments:
  assumes "list_all2 (\<lambda>e ty. gives S (emit_expr_as env ty e) (\<lambda>v. op_ty v = RtValue ty)) es tys" and "\<forall>ty \<in> set tys. has_text ty"
  shows "gives S (emit_arguments env tys es) (\<lambda>_. True)"
  using assms
proof (induction rule: list_all2_induct)
  case (Cons e es ty tys)
  then obtain t where t: "llvm_value_type ty = Some t" using has_text_Some by fastforce
  have "gives S (emit_arguments env tys es) (\<lambda>_. True)" using Cons by simp
  then have "gives S (gbind (emit_arguments env tys es) (\<lambda>ts. gret (x # ts))) (\<lambda>_. True)" for x
    by (rule runs_gbind) (simp add: runs_gret)
  then show ?case
    using Cons.hyps(1) by (auto intro!: runs_gbind [of S "emit_expr_as env ty e"] runs_let simp: operand_value_type t gbind_gsome)
qed (simp add: runs_gret)

text \<open>\<open>address ty must r\<close>: an address that was found has type \<open>ty\<close>, and one was found if it must be.\<close>

definition address :: "value_type \<Rightarrow> bool \<Rightarrow> variable option \<Rightarrow> bool" where
  "address ty must r \<longleftrightarrow> (must \<longrightarrow> r \<noteq> None) \<and> (\<forall>v. r = Some v \<longrightarrow> var_ty v = ty)"

lemma address_simps [simp]: "address ty must None \<longleftrightarrow> \<not> must" "address ty must (Some v) \<longleftrightarrow> var_ty v = ty"
  by (simp_all add: address_def)

lemma runs_element:
  assumes "ge_diagnostics env = RdPlain" and "gives S (emit_expr env index) (\<lambda>_. True)"
    and "\<And>p. Q p S"
  shows "returns_in S (gbind (emit_expr env index) (\<lambda>i. element_pointer env aty pointer len s i)) Q"
  by (rule runs_gbind [OF assms(2)], clarify, rule runs_steady, intro steady_intros assms(1)) (rule assms(3))

lemma runs_index_lvalue:
  assumes "gives S (emit_lvalue env base) (address (VtArray element (AlResolved len)) must)"
    and "gives S (emit_expr env index) (\<lambda>_. True)" and "ge_diagnostics env = RdPlain" and "has_text element"
  shows "gives S (emit_lvalue env (Expr (ExIndex base index) s)) (address element must)"
proof -
  obtain aty where aty: "llvm_value_type (VtArray element (AlResolved len)) = Some aty"
    using has_text_Some assms(4) has_text_simps(5) by blast
  have found: "gives S (gbind (emit_expr env index) (\<lambda>i. gbind (element_pointer env aty pointer len s i) (\<lambda>p.
      gret (Some (variable_at element p))))) (address element must)" for pointer
    by (rule runs_gbind [OF assms(2)], clarify, intro runs_steps steady_intros assms(3) runs_gret) simp
  have "gives S (case r of None \<Rightarrow> gret None
      | Some base \<Rightarrow> (case resolved_array (var_ty base) of None \<Rightarrow> gret None
           | Some (element, len) \<Rightarrow> gbind (gsome (llvm_value_type (var_ty base))) (\<lambda>array_type.
                gbind (emit_expr env index) (\<lambda>i. gbind (element_pointer env array_type (var_pointer base) len s i) (\<lambda>pointer.
                  gret (Some (variable_at element pointer)))))))
      (address element must)" if "address (VtArray element (AlResolved len)) must r" for r
  proof (cases r)
    case None
    then show ?thesis using that by (simp add: runs_gret)
  next
    case (Some v)
    then have "var_ty v = VtArray element (AlResolved len)" using that by simp
    then show ?thesis by (simp only: Some option.case resolved_array_simps prod.case aty gbind_gsome) (rule found)
  qed
  then show ?thesis
    unfolding emit_lvalue.simps by (intro runs_gbind [OF assms(1)]) blast
qed

lemma runs_field_lvalue:
  assumes "gives S (emit_lvalue env base) (address (VtStruct name) must)"
    and "hm_get (ge_structs env) name = Some d" and "find_field d n = Some f"
  shows "gives S (emit_lvalue env (Expr (ExField base n ns) s)) (address (field_ty f) must)"
proof -
  have "gives S (case r of None \<Rightarrow> gret None | Some base \<Rightarrow> field_pointer env base n) (address (field_ty f) must)"
    if "address (VtStruct name) must r" for r
  proof (cases r)
    case None
    then show ?thesis using that by (simp add: runs_gret)
  next
    case (Some v)
    have "gives S (field_pointer env v n) (address (field_ty f) must)"
      by (rule runs_weaken [OF runs_field_pointer [OF assms(2,3)]]) (use that Some in auto)
    then show ?thesis using Some by simp
  qed
  then show ?thesis unfolding emit_lvalue.simps by (intro runs_gbind [OF assms(1)]) blast
qed

text \<open>An access loads through its address when it has one, and goes through the value otherwise.\<close>

lemma runs_index_expr:
  assumes "gives S (emit_lvalue env (Expr (ExIndex base index) s)) (address element False)"
    and "gives S (emit_expr env base) (\<lambda>v. op_ty v = RtValue (VtArray element (AlResolved len)))"
    and "gives S (emit_expr env index) (\<lambda>_. True)" and "ge_diagnostics env = RdPlain" and "has_text element"
  shows "gives S (emit_expr env (Expr (ExIndex base index) s)) (\<lambda>v. op_ty v = RtValue element)"
proof -
  let ?ty = "VtArray element (AlResolved len)"
  obtain aty where aty: "llvm_value_type ?ty = Some aty" using has_text_Some assms(5) has_text_simps(5) by blast
  have load: "gives S (load_variable v) (\<lambda>r. op_ty r = RtValue element)" if "var_ty v = element" for v
    using runs_load_variable [of v] that assms(5) by simp
  have tail: "gives S (gbind (emit_expr env index) (\<lambda>i. gbind (element_pointer env aty pointer len s i) (\<lambda>p.
      load_variable (variable_at element p)))) (\<lambda>v. op_ty v = RtValue element)" for pointer
    by (rule runs_gbind [OF assms(3)], clarify, rule runs_steps, intro steady_intros assms(4), rule load) simp
  have spill: "gives S (gbind (entry_alloca aty) (\<lambda>storage. gbind (store_into aty r storage) (\<lambda>_.
      gbind (emit_expr env index) (\<lambda>i. gbind (element_pointer env aty storage len s i) (\<lambda>p.
      load_variable (variable_at element p)))))) (\<lambda>v. op_ty v = RtValue element)" for r
    by (rule runs_steps, intro steady_intros, rule runs_steps, intro steady_intros, rule tail)
  have "gives S (gbind (emit_expr env base) (\<lambda>b. gbind (gsome (operand_value_type b)) (\<lambda>base_type.
           gbind (gsome (resolved_array base_type)) (\<lambda>(element, len).
           gbind (gsome (llvm_value_type base_type)) (\<lambda>array_type.
           gbind (entry_alloca array_type) (\<lambda>storage.
           gbind (store_into array_type (op_repr b) storage) (\<lambda>_.
           gbind (emit_expr env index) (\<lambda>i.
           gbind (element_pointer env array_type storage len s i) (\<lambda>pointer.
             load_variable (variable_at element pointer)))))))))) (\<lambda>v. op_ty v = RtValue element)"
    by (rule runs_gbind [OF assms(2)], clarify, rule runs_value_type, assumption)
      (simp add: gbind_gsome aty spill del: llvm_value_type.simps)
  then show ?thesis
    unfolding emit_expr.simps
    by (intro runs_gbind [OF assms(1)]) (auto intro: load split: option.split)
qed

lemma runs_field_expr:
  assumes "gives S (emit_lvalue env (Expr (ExField base n ns) s)) (address (field_ty f) False)"
    and "gives S (emit_expr env base) (\<lambda>v. op_ty v = RtValue (VtStruct name))"
    and "hm_get (ge_structs env) name = Some d" and "find_field d n = Some f" and "has_text (field_ty f)"
  shows "gives S (emit_expr env (Expr (ExField base n ns) s)) (\<lambda>v. op_ty v = RtValue (field_ty f))"
proof -
  have load: "gives S (load_variable v) (\<lambda>r. op_ty r = RtValue (field_ty f))" if "var_ty v = field_ty f" for v
    using runs_load_variable [of v] that assms(5) by simp
  have "gives S (gbind (emit_expr env base) (\<lambda>b. extract_field env b n)) (\<lambda>v. op_ty v = RtValue (field_ty f))"
    by (rule runs_gbind [OF assms(2)], clarify, rule runs_extract_field [OF assms(3,4)], assumption)
  then show ?thesis
    unfolding emit_expr.simps
    by (intro runs_gbind [OF assms(1)]) (auto intro: load split: option.split)
qed

text \<open>\<open>sound_at ck env S e\<close>: what the emission of an expression relies on.\<close>

definition sound_at :: "checker \<Rightarrow> gen_env \<Rightarrow> (string, variable) hash_map list \<Rightarrow> expr \<Rightarrow> bool" where
  "sound_at ck env S e \<longleftrightarrow> serves ck env \<and> scopes_agree ck S \<and> numeric_conversions e"

lemma sound_atD:
  "sound_at ck env S e \<Longrightarrow> ge_diagnostics env = RdPlain" "sound_at ck env S e \<Longrightarrow> ge_structs env = ck_structs ck"
  by (simp_all add: sound_at_def serves_def)

lemma sound_at_parts:
  "sound_at ck env S (Expr (ExIndex base index) s) \<longleftrightarrow> sound_at ck env S base \<and> sound_at ck env S index"
  "sound_at ck env S (Expr (ExField base n ns) s) \<longleftrightarrow> sound_at ck env S base"
  "sound_at ck env S (Expr (ExUnary op e) s) \<longleftrightarrow> sound_at ck env S e"
  "sound_at ck env S (Expr (ExBinary l bop r) s) \<longleftrightarrow> sound_at ck env S l \<and> sound_at ck env S r"
  "sound_at ck env S (Expr (ExConversion target [e]) s) \<longleftrightarrow> is_numeric target \<and> sound_at ck env S e"
  by (auto simp: sound_at_def)

lemma sound_at_members:
  "sound_at ck env S (Expr (ExCall name args) s) \<Longrightarrow> e \<in> set args \<Longrightarrow> sound_at ck env S e"
  "sound_at ck env S (Expr (ExArrayLiteral es) s) \<Longrightarrow> e \<in> set es \<Longrightarrow> sound_at ck env S e"
  by (simp_all add: sound_at_def list_all_iff)

lemma sound_at_initializer:
  "sound_at ck env S (Expr (ExStructLiteral name inits) s) \<Longrightarrow> i \<in> set inits \<Longrightarrow> sound_at ck env S (fi_value i)"
  by (cases i) (auto simp: sound_at_def list_all_iff)

lemma typed_has_text: "typed ck e (RtValue ty) \<Longrightarrow> sound_at ck env S e \<Longrightarrow> has_text ty"
  using typed_text(1) by (auto simp: sound_at_def)

definition emits :: "gen_env \<Rightarrow> (string, variable) hash_map list \<Rightarrow> expr \<Rightarrow> return_type \<Rightarrow> bool" where
  "emits env S e rt \<longleftrightarrow>
     (\<forall>ty. rt = RtValue ty \<longrightarrow> gives S (emit_lvalue env e) (address ty False)) \<and>
     gives S (emit_expr env e) (\<lambda>v. op_ty v = rt)"

lemma emitsD: "emits env S e rt \<Longrightarrow> gives S (emit_expr env e) (\<lambda>v. op_ty v = rt)"
  and emits_returns: "emits env S e rt \<Longrightarrow> gives S (emit_expr env e) (\<lambda>_. True)"
  by (auto simp: emits_def intro: runs_weaken)

text \<open>An expression that has no address.\<close>

lemma emits_value:
  assumes "emit_lvalue env e = gret None" and "gives S (emit_expr env e) (\<lambda>v. op_ty v = rt)"
  shows "emits env S e rt"
  using assms by (simp add: emits_def runs_gret)

lemma emit_expr_as_value: "\<not> is_array_literal e \<Longrightarrow> emit_expr_as env ty e = emit_expr env e"
  by (cases e; cases "expr_kind e") simp_all

lemma typed_emits:
  "typed ck e rt \<Longrightarrow> sound_at ck env S e \<longrightarrow> emits env S e rt"
  "initializes ck e ty \<Longrightarrow> sound_at ck env S e \<longrightarrow> has_text ty \<longrightarrow> gives S (emit_expr_as env ty e) (\<lambda>v. op_ty v = RtValue ty)"
proof (induction rule: typed_initializes.inducts)
  case (typed_variable ck n b s)
  show ?case
  proof
    assume ok: "sound_at ck env S (Expr (ExVariable n) s)"
    then have ok: "serves ck env" "scopes_agree ck S" by (simp_all add: sound_at_def)
    have "gives S (emit_lvalue env (Expr (ExVariable n) s)) (address (bind_ty b) False)"
      unfolding emit_lvalue.simps
      by (rule runs_weaken [OF conjunct2 [OF binding_served [OF ok typed_variable]]])
        (auto simp: address_def serves_variable_def)
    then show "emits env S (Expr (ExVariable n) s) (RtValue (bind_ty b))"
      using runs_emit_variable [OF ok typed_variable] unfolding emits_def by blast
  qed
next
  case (typed_struct ck name d inits s)
  show ?case
  proof
    assume ok: "sound_at ck env S (Expr (ExStructLiteral name inits) s)"
    have d: "hm_get (ge_structs env) name = Some d" using sound_atD(2) [OF ok] typed_struct(1) by simp
    have "serves ck env" using ok by (simp add: sound_at_def)
    then have "\<exists>f. find_field d (fi_name i) = Some f \<and> has_text (field_ty f) \<and>
        gives S (emit_expr_as env (field_ty f) (fi_value i)) (\<lambda>v. op_ty v = RtValue (field_ty f))" if "i \<in> set inits" for i
      using typed_struct(4) [OF that] sound_at_initializer [OF ok that] field_text typed_struct(1) by blast
    then have "gives S (emit_initializers env d aty aggregate inits) (\<lambda>_. True)" for aty aggregate
      by (rule runs_initializers)
    then have "gives S (gbind (emit_initializers env d aty aggregate inits) (\<lambda>aggregate. gret (operand_of (VtStruct name) aggregate)))
        (\<lambda>v. op_ty v = RtValue (VtStruct name))" for aty aggregate
      by (rule runs_gbind) (simp add: runs_gret)
    then show "emits env S (Expr (ExStructLiteral name inits) s) (RtValue (VtStruct name))"
      by (intro emits_value) (simp_all add: d gbind_gsome)
  qed
next
  case (typed_index ck base element len index s)
  show ?case
  proof
    assume ok: "sound_at ck env S (Expr (ExIndex base index) s)"
    then have parts: "sound_at ck env S base" "sound_at ck env S index" by (simp_all add: sound_at_parts)
    note base = typed_index.IH(1) [rule_format, OF parts(1)] and index = emits_returns [OF typed_index.IH(2) [rule_format, OF parts(2)]]
    have "has_text element" using typed_has_text [OF typed_index.hyps(1) parts(1)] by simp
    note rest = index sound_atD(1) [OF ok] this
    have lv: "gives S (emit_lvalue env (Expr (ExIndex base index) s)) (address element False)"
      using base unfolding emits_def by (intro runs_index_lvalue [OF _ rest]) blast
    then show "emits env S (Expr (ExIndex base index) s) (RtValue element)"
      using runs_index_expr [OF lv emitsD [OF base] rest] unfolding emits_def by blast
  qed
next
  case (typed_field ck base name d n f ns s)
  show ?case
  proof
    assume ok: "sound_at ck env S (Expr (ExField base n ns) s)"
    then have part: "sound_at ck env S base" by (simp add: sound_at_parts)
    note base = typed_field.IH [rule_format, OF part]
    have d: "hm_get (ge_structs env) name = Some d" using sound_atD(2) [OF ok] typed_field.hyps(2) by simp
    have lv: "gives S (emit_lvalue env (Expr (ExField base n ns) s)) (address (field_ty f) False)"
      using base unfolding emits_def by (intro runs_field_lvalue [OF _ d typed_field.hyps(3)]) blast
    have "has_text (field_ty f)" using field_text typed_field.hyps(2,3) ok by (auto simp: sound_at_def)
    from runs_field_expr [OF lv emitsD [OF base] d typed_field.hyps(3) this] lv
    show "emits env S (Expr (ExField base n ns) s) (RtValue (field_ty f))" unfolding emits_def by blast
  qed
next
  case (typed_negate ck operand ty s)
  show ?case
  proof
    assume "sound_at ck env S (Expr (ExUnary UoNegate operand) s)"
    then have "sound_at ck env S operand" by (simp add: sound_at_parts)
    note operand = emitsD [OF typed_negate.IH [rule_format, OF this]]
    have "gives S (gbind (emit_expr env operand) (emit_unary UoNegate)) (\<lambda>v. op_ty v = RtValue ty)"
      using typed_negate.hyps(2) by (intro runs_gbind [OF operand]) (auto intro: runs_emit_unary)
    then show "emits env S (Expr (ExUnary UoNegate operand) s) (RtValue ty)"
      using typed_negate.hyps(1) min_literal_untyped by (intro emits_value) auto
  qed
next
  case (typed_not ck operand s)
  show ?case
  proof
    assume "sound_at ck env S (Expr (ExUnary UoNot operand) s)"
    then have "sound_at ck env S operand" by (simp add: sound_at_parts)
    note operand = emitsD [OF typed_not.IH [rule_format, OF this]]
    have "gives S (gbind (emit_expr env operand) (emit_unary UoNot)) (\<lambda>v. op_ty v = RtValue VtBool)"
      by (intro runs_gbind [OF operand]) (auto intro: runs_emit_unary)
    then show "emits env S (Expr (ExUnary UoNot operand) s) (RtValue VtBool)" by (intro emits_value) auto
  qed
next
  case (typed_binary ck left ty right op result s)
  show ?case
  proof
    assume ok: "sound_at ck env S (Expr (ExBinary left op right) s)"
    then have parts: "sound_at ck env S left" "sound_at ck env S right" by (simp_all add: sound_at_parts)
    note l = emitsD [OF typed_binary.IH(1) [rule_format, OF parts(1)]]
      and r = emits_returns [OF typed_binary.IH(2) [rule_format, OF parts(2)]]
    have "gives S (if op = BoLogicalAnd \<or> op = BoLogicalOr then logical_rest v op (emit_expr env right)
        else gbind (emit_expr env right) (\<lambda>r. emit_binary env v op r s)) (\<lambda>v. op_ty v = RtValue result)" if "op_ty v = RtValue ty" for v
    proof (cases "op = BoLogicalAnd \<or> op = BoLogicalOr")
      case True
      then have "result = VtBool" using typed_binary.hyps(3) by (auto simp: binary_result_def split: if_splits)
      then show ?thesis using True runs_logical_rest [OF r] by simp
    next
      case False
      have "gives S (gbind (emit_expr env right) (\<lambda>r. emit_binary env v op r s)) (\<lambda>v. op_ty v = RtValue result)"
        by (rule runs_gbind [OF r], clarify, rule runs_emit_binary [OF sound_atD(1) [OF ok] that typed_has_text [OF typed_binary.hyps(1) parts(1)]
              typed_binary.hyps(3)]) (use False in auto)
      then show ?thesis using False by simp
    qed
    then show "emits env S (Expr (ExBinary left op right) s) (RtValue result)"
      by (intro emits_value) (auto intro!: runs_gbind [OF l])
  qed
next
  case (typed_call ck name sig args s)
  show ?case
  proof
    assume ok: "sound_at ck env S (Expr (ExCall name args) s)"
    then have "serves_function env name sig" using typed_call.hyps(1) by (simp add: sound_at_def serves_def)
    then obtain g where g: "hm_get (ge_functions env) name = Some g" "sym_params g = sig_params sig" "sym_return g = sig_return sig"
      and texts: "\<forall>ty \<in> set (sig_params sig). has_text ty" "\<And>ty. sig_return sig = RtValue ty \<Longrightarrow> has_text ty"
      by (auto simp: serves_function_def)
    have "list_all2 (\<lambda>e ty. gives S (emit_expr_as env ty e) (\<lambda>v. op_ty v = RtValue ty)) args (sig_params sig)"
      using typed_call.IH sound_at_members(1) [OF ok] texts(1)
      by (auto simp: list_all2_conv_all_nth)
    then have "gives S (emit_arguments env (sig_params sig) args) (\<lambda>_. True)" by (rule runs_arguments [OF _ texts(1)])
    moreover have "gives S (call_function g ts) (\<lambda>v. op_ty v = sig_return sig)" for ts
      using runs_call_function [of g] texts(2) g(3) by simp
    ultimately have "gives S (gbind (emit_arguments env (sig_params sig) args) (call_function g)) (\<lambda>v. op_ty v = sig_return sig)"
      by (elim runs_gbind) simp
    then show "emits env S (Expr (ExCall name args) s) (sig_return sig)"
      by (intro emits_value) (simp_all add: g gbind_gsome)
  qed
next
  case (typed_conversion ck arg source target s)
  show ?case
  proof
    assume "sound_at ck env S (Expr (ExConversion target [arg]) s)"
    then have parts: "is_numeric target" "sound_at ck env S arg" by (simp_all add: sound_at_parts)
    note arg = emitsD [OF typed_conversion.IH [rule_format, OF parts(2)]]
    have "gives S (gbind (emit_expr env arg) (emit_conversion target)) (\<lambda>v. op_ty v = RtValue target)"
      using typed_conversion.hyps(2) parts(1) by (intro runs_gbind [OF arg]) (auto intro: runs_emit_conversion)
    then show "emits env S (Expr (ExConversion target [arg]) s) (RtValue target)" by (intro emits_value) auto
  qed
next
  case (initializes_array es ck element s)
  show ?case
  proof (intro impI)
    assume ok: "sound_at ck env S (Expr (ExArrayLiteral es) s)" and "has_text (VtArray element (AlResolved (length es)))"
    then have printed: "has_text element" by simp
    then have "gives S (emit_elements env aty element ety i aggregate es) (\<lambda>_. True)" for aty ety i aggregate
      using initializes_array.IH sound_at_members(2) [OF ok] by (intro runs_elements) (auto intro: runs_weaken)
    then have "gives S (gbind (emit_elements env aty element ety i aggregate es) (\<lambda>aggregate. gret (operand_of ty aggregate)))
        (\<lambda>v. op_ty v = RtValue ty)" for aty ety i aggregate ty
      by (rule runs_gbind) (simp add: runs_gret)
    then show "gives S (emit_expr_as env (VtArray element (AlResolved (length es))) (Expr (ExArrayLiteral es) s))
        (\<lambda>v. op_ty v = RtValue (VtArray element (AlResolved (length es))))"
      using has_text_Some [OF printed] by (auto simp: gbind_gsome)
  qed
next
  case (initializes_value ck e ty)
  then show ?case
    using typed_not_literal emitsD by (metis emit_expr_as_value)
qed (auto intro!: emits_value runs_gret)

section \<open>Statements\<close>

lemma targets_emits:
  assumes "targets ck e lv"
  shows "sound_at ck env S e \<longrightarrow> lval_mutability lv \<noteq> MuConstant \<longrightarrow>
     has_text (lval_ty lv) \<and> gives S (emit_lvalue env e) (address (lval_ty lv) True)"
  using assms
proof (induction rule: targets.induct)
  case (target_variable ck n b s)
  show ?case
  proof (intro impI)
    assume "sound_at ck env S (Expr (ExVariable n) s)" and mut: "lval_mutability (lvalue_of n b) \<noteq> MuConstant"
    then have ok: "serves ck env" "scopes_agree ck S" by (simp_all add: sound_at_def)
    note served = binding_served [OF ok target_variable]
    have "gives S (variable_of env n) (address (bind_ty b) True)"
      by (rule runs_weaken [OF conjunct2 [OF served]]) (use mut in \<open>auto simp: address_def serves_variable_def lvalue_of_def split: option.splits\<close>)
    then show "has_text (lval_ty (lvalue_of n b)) \<and> gives S (emit_lvalue env (Expr (ExVariable n) s)) (address (lval_ty (lvalue_of n b)) True)"
      using served by (simp add: lvalue_of_def)
  qed
next
  case (target_index ck base root element len index s)
  show ?case
  proof (intro impI)
    assume ok: "sound_at ck env S (Expr (ExIndex base index) s)" and mut: "lval_mutability (root\<lparr>lval_ty := element\<rparr>) \<noteq> MuConstant"
    then have parts: "sound_at ck env S base" "sound_at ck env S index" by (simp_all add: sound_at_parts)
    note base = target_index.IH [rule_format, OF parts(1)]
    have printed: "has_text element" and lv: "gives S (emit_lvalue env base) (address (VtArray element (AlResolved len)) True)"
      using base mut target_index.hyps(2) by simp_all
    have "gives S (emit_expr env index) (\<lambda>_. True)"
      using typed_emits(1) [OF target_index.hyps(3)] parts(2) emits_returns by blast
    from runs_index_lvalue [OF lv this sound_atD(1) [OF ok] printed] printed
    show "has_text (lval_ty (root\<lparr>lval_ty := element\<rparr>)) \<and>
        gives S (emit_lvalue env (Expr (ExIndex base index) s)) (address (lval_ty (root\<lparr>lval_ty := element\<rparr>)) True)" by simp
  qed
next
  case (target_field ck base root name d n f ns s)
  show ?case
  proof (intro impI)
    assume ok: "sound_at ck env S (Expr (ExField base n ns) s)" and mut: "lval_mutability (root\<lparr>lval_ty := field_ty f\<rparr>) \<noteq> MuConstant"
    then have part: "sound_at ck env S base" by (simp add: sound_at_parts)
    have lv: "gives S (emit_lvalue env base) (address (VtStruct name) True)"
      using target_field.IH [rule_format, OF part] mut target_field.hyps(2) by simp
    have d: "hm_get (ge_structs env) name = Some d" using sound_atD(2) [OF ok] target_field.hyps(3) by simp
    have "has_text (field_ty f)" using field_text target_field.hyps(3,4) ok by (auto simp: sound_at_def)
    with runs_field_lvalue [OF lv d target_field.hyps(4)]
    show "has_text (lval_ty (root\<lparr>lval_ty := field_ty f\<rparr>)) \<and>
        gives S (emit_lvalue env (Expr (ExField base n ns) s)) (address (lval_ty (root\<lparr>lval_ty := field_ty f\<rparr>)) True)" by simp
  qed
qed

text \<open>Statements as the parser builds them and type resolution leaves them.\<close>

definition block_plain :: "stmt list \<Rightarrow> bool" where
  "block_plain stmts \<longleftrightarrow> (\<forall>ty \<in> set (block_types stmts). has_text ty) \<and> (\<forall>e \<in> set (block_exprs stmts). numeric_conversions e)"

text \<open>The scopes an emitted statement leaves are those of the checker, the outer ones untouched.\<close>

abbreviation leaves :: "checker \<Rightarrow> (string, variable) hash_map list \<Rightarrow> 'a gen \<Rightarrow> bool" where
  "leaves ck S m \<equiv> returns_in S m (\<lambda>_ S'. scopes_agree ck S' \<and> tl S' = tl S)"

lemma scopes_declared:
  assumes "scopes_agree ck S" and "has_text ty" and "ck_scopes ck \<noteq> []"
  shows "returns_in S (bind_variable n (variable_at ty p)) (\<lambda>_ S'. scopes_agree (declare_variable n ty ck) S' \<and> tl S' = tl S)"
proof -
  obtain c cs where c: "ck_scopes ck = c # cs" using assms(3) by (cases "ck_scopes ck") auto
  then obtain e es where S: "S = e # es" "scope_agrees c e" "list_all2 scope_agrees cs es"
    using assms(1) by (auto simp: scopes_agree_def list_all2_Cons1)
  have "scope_agrees (hm_insert n \<lparr>bind_ty = ty, bind_mutability = MuMutable\<rparr> c) (hm_insert n (variable_at ty p) e)"
    using S(2) assms(2) by (simp add: scope_agrees_def)
  then show ?thesis
    using S by (simp add: returns_in_def bind_variable_def scopes_agree_def declare_variable_def c)
qed

lemma runs_emit_let:
  assumes "sound_at ck env S init" and "initializes ck init ty" and "has_text ty" and "ck_scopes ck \<noteq> []"
  shows "leaves (declare_variable n ty ck) S (emit_let env n ty init)"
proof -
  have "scopes_agree ck S" using assms(1) by (simp add: sound_at_def)
  note bound = scopes_declared [OF this assms(3,4)]
  have rest: "leaves (declare_variable n ty ck) S (gbind (entry_alloca t) (\<lambda>pointer. gbind (store_into t r pointer) (\<lambda>_. bind_variable n (variable_at ty pointer))))" for t r
    by (rule runs_steps, intro steady_intros, rule runs_steps, intro steady_intros, rule bound)
  show ?thesis
    unfolding emit_let_def
    by (rule runs_gbind [OF typed_emits(2) [OF assms(2), rule_format, OF assms(1,3)]], clarify, rule runs_text [OF assms(3)], rule rest)
qed

lemma runs_emit_assign:
  assumes "sound_at ck env S target" and "sound_at ck env S e" and "targets ck target lv" and "lval_mutability lv = MuMutable"
    and "assigns ck op e (lval_ty lv)"
  shows "gives S (emit_assign env target op e) (\<lambda>_. True)"
proof -
  let ?ty = "lval_ty lv"
  have printed: "has_text ?ty" and target: "gives S (emit_lvalue env target) (address ?ty True)"
    using targets_emits [OF assms(3)] assms(1,4) by simp_all
  have "gives S (if op = AoSet then emit_expr_as env ?ty e
      else gbind (load_variable v) (\<lambda>left. gbind (emit_expr env e) (\<lambda>right.
              gbind (gsome (compound_op op)) (\<lambda>bop. emit_binary env left bop right s)))) (\<lambda>_. True)" if "var_ty v = ?ty" for v s
  proof (cases "op = AoSet")
    case True
    then have "initializes ck e ?ty" using assms(5) by (simp add: assigns_def)
    from typed_emits(2) [OF this, rule_format, OF assms(2) printed] show ?thesis using True by (auto intro: runs_weaken)
  next
    case False
    then have ty: "is_numeric ?ty" "op = AoRemainder \<longrightarrow> ?ty = VtI32" "typed ck e (RtValue ?ty)"
      using assms(5) by (simp_all add: assigns_def)
    obtain bop where bop: "compound_op op = Some bop" "binary_result bop ?ty = Some ?ty" "bop \<noteq> BoLogicalAnd" "bop \<noteq> BoLogicalOr"
      using False ty(1,2) by (cases op) (auto simp: compound_op_def binary_result_def)
    have "gives S (load_variable v) (\<lambda>l. op_ty l = RtValue ?ty)" using runs_load_variable [of v] that printed by simp
    moreover have "gives S (emit_expr env e) (\<lambda>_. True)" using typed_emits(1) [OF ty(3)] assms(2) emits_returns by blast
    moreover have "gives S (emit_binary env l bop r s) (\<lambda>_. True)" if "op_ty l = RtValue ?ty" for l r
      by (rule runs_weaken [OF runs_emit_binary [OF sound_atD(1) [OF assms(1)] that printed bop(2-4)]]) simp
    ultimately have "gives S (gbind (load_variable v) (\<lambda>left. gbind (emit_expr env e) (\<lambda>right. emit_binary env left bop right s))) (\<lambda>_. True)"
      by (elim runs_gbind) (auto elim: runs_gbind)
    then show ?thesis using False by (simp add: bop(1) gbind_gsome)
  qed
  note assigned = this
  show ?thesis
    unfolding emit_assign_def
  proof (rule runs_gbind [OF target], elim conjE)
    fix r S' assume "S' = S" "address ?ty True r"
    then obtain v where v: "r = Some v" "var_ty v = ?ty" by (auto simp: address_def)
    have store: "gives S (gbind (gsome (llvm_value_type ?ty)) (\<lambda>t. store_into t x y)) (\<lambda>_. True)" for x y
      by (rule runs_text [OF printed], rule runs_steady, intro steady_intros) simp
    show "returns_in S' (gbind (gsome r) (\<lambda>v. gbind (if op = AoSet then emit_expr_as env (var_ty v) e
        else gbind (load_variable v) (\<lambda>left. gbind (emit_expr env e) (\<lambda>right.
              gbind (gsome (compound_op op)) (\<lambda>bop. emit_binary env left bop right (expr_span target)))))
        (\<lambda>r. gbind (gsome (llvm_value_type (var_ty v))) (\<lambda>t. store_into t (op_repr r) (var_pointer v))))) (\<lambda>a S'. S' = S \<and> True)"
      unfolding v(1) gbind_gsome v(2) \<open>S' = S\<close>
      by (rule runs_gbind [OF assigned [OF v(2)]], clarify, rule store)
  qed
qed

text \<open>A nested block runs in a scope of its own, which is gone after it.\<close>

abbreviation block_runs :: "(string, variable) hash_map list \<Rightarrow> unit gen \<Rightarrow> bool" where
  "block_runs S m \<equiv> returns_in S m (\<lambda>_ S'. tl S' = tl S)"

lemma runs_in_new_scope:
  assumes "block_runs (scope # S) body"
  shows "gives S (in_new_scope scope body) (\<lambda>_. True)"
  unfolding returns_in_def
proof (intro allI impI)
  fix em :: emitter
  assume "em_scopes em = S" "2 \<le> length (em_lines em)"
  then have "em_scopes (em\<lparr>em_scopes := scope # em_scopes em\<rparr>) = scope # S" "2 \<le> length (em_lines (em\<lparr>em_scopes := scope # em_scopes em\<rparr>))"
    by simp_all
  then obtain em' where "body (em\<lparr>em_scopes := scope # em_scopes em\<rparr>) = Some ((), em')" "2 \<le> length (em_lines em')" "tl (em_scopes em') = S"
    using assms unfolding returns_in_def by (metis list.sel(3) unit.exhaust)
  then show "\<exists>a em'. in_new_scope scope body em = Some (a, em') \<and> 2 \<le> length (em_lines em') \<and> em_scopes em' = S \<and> True"
    by (simp add: in_new_scope_def gbind_def)
qed

lemma returns_in_gbind_any:
  "gives S m (\<lambda>_. True) \<Longrightarrow> (\<And>a. returns_in S (f a) Q) \<Longrightarrow> returns_in S (gbind m f) Q"
  by (erule runs_gbind) auto

lemma steady_advance_counter [steady_intros]: "steady (advance_counter p l)"
  unfolding advance_counter_def by (intro steady_intros)

lemma steady_if [steady_intros]: "steady m \<Longrightarrow> steady n \<Longrightarrow> steady (if b then m else n)"
  by simp

text \<open>A chain of steady steps around given expressions and blocks.\<close>

lemma runs_emit_if_only:
  assumes "gives S (emit_expr env c) (\<lambda>_. True)" and "block_runs ([] # S) a"
  shows "gives S (emit_if env c a None) (\<lambda>_. True)"
  unfolding emit_if_def option.case
  by (rule returns_in_gbind_any [OF assms(1)],
      (rule runs_steps, (intro steady_intros)[1] | rule returns_in_gbind_any [OF runs_in_new_scope [OF assms(2)]])+,
      rule runs_steady, intro steady_intros) simp

lemma runs_emit_if_else:
  assumes "gives S (emit_expr env c) (\<lambda>_. True)" and "block_runs ([] # S) a" and "block_runs ([] # S) b"
  shows "gives S (emit_if env c a (Some b)) (\<lambda>_. True)"
  unfolding emit_if_def option.case
  by (rule returns_in_gbind_any [OF assms(1)],
      (rule runs_steps, (intro steady_intros)[1] | rule returns_in_gbind_any [OF runs_in_new_scope [OF assms(2)]]
        returns_in_gbind_any [OF runs_in_new_scope [OF assms(3)]])+,
      rule runs_steady, intro steady_intros) simp

lemma runs_emit_while:
  assumes "gives S (emit_expr env c) (\<lambda>_. True)" and "block_runs ([] # S) body"
  shows "gives S (emit_while env c body) (\<lambda>_. True)"
  unfolding emit_while_def
  by ((rule runs_steps, (intro steady_intros)[1] | rule returns_in_gbind_any [OF assms(1)] returns_in_gbind_any [OF runs_in_new_scope [OF assms(2)]])+,
      rule runs_steady, intro steady_intros) simp

lemma runs_emit_for:
  assumes "gives S (emit_expr env l) (\<lambda>_. True)" and "gives S (emit_expr env u) (\<lambda>_. True)"
    and "\<And>pointer. block_runs ([(n, variable_at VtI32 pointer)] # S) body"
  shows "gives S (emit_for env n l u body) (\<lambda>_. True)"
  unfolding emit_for_def
  by (rule returns_in_gbind_any [OF assms(1)], rule returns_in_gbind_any [OF assms(2)],
      (rule runs_steps, (intro steady_intros)[1] | rule returns_in_gbind_any [OF runs_in_new_scope [OF assms(3)]])+,
      rule runs_steady, intro steady_intros) simp

lemma runs_emit_return:
  assumes "\<And>e ty. v = Some e \<Longrightarrow> function_return_type (ge_function env) = RtValue ty \<Longrightarrow>
      has_text ty \<and> gives S (emit_expr_as env ty e) (\<lambda>r. op_ty r = RtValue ty)"
    and "v \<noteq> None \<Longrightarrow> function_return_type (ge_function env) \<noteq> RtVoid"
  shows "gives S (emit_return env v) (\<lambda>_. True)"
proof (cases v)
  case None
  then show ?thesis by (simp add: emit_return_def runs_steady [OF steady_basic(5)])
next
  case (Some e)
  then obtain ty where ty: "function_return_type (ge_function env) = RtValue ty"
    using assms(2) by (cases "function_return_type (ge_function env)") auto
  then obtain t where t: "llvm_value_type ty = Some t" using assms(1) [OF Some ty] has_text_Some by blast
  have "gives S (gbind (gsome (Option.bind (operand_value_type r) llvm_value_type)) (\<lambda>t. terminate (TmReturn t (op_repr r)))) (\<lambda>_. True)"
    if "op_ty r = RtValue ty" for r
    by (simp add: operand_value_type [OF that] t gbind_gsome runs_steady [OF steady_basic(5)])
  then have "gives S (gbind (emit_expr_as env ty e) (\<lambda>v. gbind (gsome (Option.bind (operand_value_type v) llvm_value_type))
      (\<lambda>t. terminate (TmReturn t (op_repr v))))) (\<lambda>_. True)"
    using assms(1) [OF Some ty] by (auto elim: runs_gbind)
  then show ?thesis by (simp add: emit_return_def Some ty return_value_type_def gbind_gsome)
qed

text \<open>What a statement relies on.\<close>

definition stmt_at :: "checker \<Rightarrow> gen_env \<Rightarrow> (string, variable) hash_map list \<Rightarrow> bool" where
  "stmt_at ck env S \<longleftrightarrow>
     serves ck env \<and> scopes_agree ck S \<and> ck_scopes ck \<noteq> [] \<and>
     function_return_type (ge_function env) = ck_return_type ck \<and> (\<forall>ty. ck_return_type ck = RtValue ty \<longrightarrow> has_text ty)"

lemma stmt_at_expr: "stmt_at ck env S \<Longrightarrow> numeric_conversions e \<Longrightarrow> sound_at ck env S e"
  by (simp add: stmt_at_def sound_at_def)

lemma serves_scopes [simp]: "serves (ck\<lparr>ck_scopes := s\<rparr>) env \<longleftrightarrow> serves ck env"
  by (simp add: serves_def)

lemma stmt_at_enter:
  "stmt_at ck env S \<Longrightarrow> scope_agrees scope escope \<Longrightarrow> stmt_at (enter scope ck) env (escope # S)"
  by (simp add: stmt_at_def enter_def scopes_agree_def)

lemma scope_agrees_empty: "scope_agrees [] []"
  by (simp add: scope_agrees_def)

lemma scope_agrees_loop: "scope_agrees (loop_scope n) [(n, variable_at VtI32 p)]"
  by (simp add: scope_agrees_def loop_scope_def hm_get_def)

lemma stmt_at_declare:
  "stmt_at ck env S \<Longrightarrow> scopes_agree (declare_variable n ty ck) S' \<Longrightarrow> stmt_at (declare_variable n ty ck) env S'"
  by (simp add: stmt_at_def declare_variable_def)

lemma value_given: "typed ck e t \<Longrightarrow> stmt_at ck env S \<Longrightarrow> numeric_conversions e \<Longrightarrow> gives S (emit_expr env e) (\<lambda>_. True)"
  using typed_emits(1) emits_returns stmt_at_expr by blast

definition stmt_plain_types :: "stmt \<Rightarrow> bool" where
  "stmt_plain_types stmt \<longleftrightarrow> (\<forall>ty \<in> set (stmt_types stmt). has_text ty) \<and> (\<forall>e \<in> set (stmt_exprs stmt). numeric_conversions e)"

lemma plain_parts:
  "stmt_plain_types (Stmt (StIf c a None) s) \<Longrightarrow> block_plain a"
  "stmt_plain_types (Stmt (StIf c a (Some b)) s) \<Longrightarrow> block_plain a"
  "stmt_plain_types (Stmt (StIf c a (Some b)) s) \<Longrightarrow> block_plain b"
  "stmt_plain_types (Stmt (StWhile c b) s) \<Longrightarrow> block_plain b"
  "stmt_plain_types (Stmt (StFor n ns l u b) s) \<Longrightarrow> block_plain b"
  by (auto simp: stmt_plain_types_def block_plain_def)

lemma returns_in_unless_terminated:
  assumes "returns_in S m Q" and "\<And>a. Q a S"
  shows "returns_in S (unless_terminated m) Q"
proof -
  have "returns_in S (if t then gret () else m) Q" for t
    using assms by (simp add: runs_gret)
  then show ?thesis
    unfolding unless_terminated_def by (intro runs_steps steady_intros)
qed

lemma nothing_moved: "gives S m (\<lambda>_. True) \<Longrightarrow> stmt_at ck env S \<Longrightarrow> returns_in S m (\<lambda>_ S'. stmt_at ck env S' \<and> tl S' = tl S)"
  by (erule runs_weaken) simp

lemma stmt_emits:
  "stmt_ok ck stmt ck' \<Longrightarrow> \<forall>S. stmt_at ck env S \<longrightarrow> stmt_plain_types stmt \<longrightarrow>
     returns_in S (emit_statement env stmt) (\<lambda>_ S'. stmt_at ck' env S' \<and> tl S' = tl S)"
  "stmts_ok ck stmts ck' \<Longrightarrow> \<forall>S. stmt_at ck env S \<longrightarrow> block_plain stmts \<longrightarrow> block_runs S (emit_statements env stmts)"
proof (induction rule: stmt_ok_stmts_ok.inducts)
  case (ok_let ck n init ty s)
  show ?case
  proof (intro allI impI)
    fix S assume at: "stmt_at ck env S" and plain: "stmt_plain_types (Stmt (StLet n ty init) s)"
    then have "leaves (declare_variable n ty ck) S (emit_let env n ty init)"
      using ok_let by (intro runs_emit_let) (auto simp: stmt_at_def sound_at_def stmt_plain_types_def)
    then show "returns_in S (emit_statement env (Stmt (StLet n ty init) s)) (\<lambda>_ S'. stmt_at (declare_variable n ty ck) env S' \<and> tl S' = tl S)"
      using stmt_at_declare [OF at] by (auto elim: runs_weaken)
  qed
next
  case (ok_assign ck target lv op v s)
  show ?case
  proof (intro allI impI)
    fix S assume at: "stmt_at ck env S" and plain: "stmt_plain_types (Stmt (StAssign target op v) s)"
    then have "gives S (emit_assign env target op v) (\<lambda>_. True)"
      using ok_assign by (intro runs_emit_assign) (auto simp: stmt_at_def sound_at_def stmt_plain_types_def)
    then show "returns_in S (emit_statement env (Stmt (StAssign target op v) s)) (\<lambda>_ S'. stmt_at ck env S' \<and> tl S' = tl S)"
      using at by (auto elim: runs_weaken)
  qed
next
  case (ok_expr ck e t s)
  show ?case
  proof (intro allI impI, rule nothing_moved)
    fix S assume at: "stmt_at ck env S" and plain: "stmt_plain_types (Stmt (StExpr e) s)"
    have "gives S (gbind (emit_expr env e) (\<lambda>_. gret ())) (\<lambda>_. True)"
      using value_given [OF ok_expr at] plain by (intro returns_in_gbind_any runs_gret) (auto simp: stmt_plain_types_def)
    then show "gives S (emit_statement env (Stmt (StExpr e) s)) (\<lambda>_. True)" by simp
  qed
next
  case (ok_if ck c a ck1 s)
  show ?case
  proof (intro allI impI, rule nothing_moved)
    fix S assume at: "stmt_at ck env S" and plain: "stmt_plain_types (Stmt (StIf c a None) s)"
    have "block_runs ([] # S) (emit_statements env a)"
      using ok_if.IH stmt_at_enter [OF at scope_agrees_empty] plain_parts(1) [OF plain] by blast
    from runs_emit_if_only [OF value_given [OF ok_if.hyps(1) at] this] plain
    show "gives S (emit_statement env (Stmt (StIf c a None) s)) (\<lambda>_. True)" by (simp add: stmt_plain_types_def)
  qed
next
  case (ok_if_else ck c a ck1 b ck2 s)
  show ?case
  proof (intro allI impI, rule nothing_moved)
    fix S assume at: "stmt_at ck env S" and plain: "stmt_plain_types (Stmt (StIf c a (Some b)) s)"
    have "block_runs ([] # S) (emit_statements env a)" "block_runs ([] # S) (emit_statements env b)"
      using ok_if_else.IH stmt_at_enter [OF at scope_agrees_empty] plain_parts(2,3) [OF plain] by blast+
    from runs_emit_if_else [OF value_given [OF ok_if_else.hyps(1) at] this] plain
    show "gives S (emit_statement env (Stmt (StIf c a (Some b)) s)) (\<lambda>_. True)" by (simp add: stmt_plain_types_def)
  qed
next
  case (ok_while ck c b ck1 s)
  show ?case
  proof (intro allI impI, rule nothing_moved)
    fix S assume at: "stmt_at ck env S" and plain: "stmt_plain_types (Stmt (StWhile c b) s)"
    have "block_runs ([] # S) (emit_statements env b)"
      using ok_while.IH stmt_at_enter [OF at scope_agrees_empty] plain_parts(4) [OF plain] by blast
    from runs_emit_while [OF value_given [OF ok_while.hyps(1) at] this] plain
    show "gives S (emit_statement env (Stmt (StWhile c b) s)) (\<lambda>_. True)" by (simp add: stmt_plain_types_def)
  qed
next
  case (ok_for ck l u n b ck1 ns s)
  show ?case
  proof (intro allI impI, rule nothing_moved)
    fix S assume at: "stmt_at ck env S" and plain: "stmt_plain_types (Stmt (StFor n ns l u b) s)"
    have "block_runs ([(n, variable_at VtI32 pointer)] # S) (emit_statements env b)" for pointer
      using ok_for.IH stmt_at_enter [OF at scope_agrees_loop] plain_parts(5) [OF plain] by blast
    from runs_emit_for [OF value_given [OF ok_for.hyps(1) at] value_given [OF ok_for.hyps(2) at] this] plain
    show "gives S (emit_statement env (Stmt (StFor n ns l u b) s)) (\<lambda>_. True)" by (simp add: stmt_plain_types_def)
  qed
next
  case (ok_return_void ck s)
  show ?case
  proof (intro allI impI, rule nothing_moved)
    fix S assume "stmt_at ck env S"
    show "gives S (emit_statement env (Stmt (StReturn None) s)) (\<lambda>_. True)"
      unfolding emit_statement.simps by (rule runs_emit_return) simp_all
  qed
next
  case (ok_return_value ck ty e s)
  show ?case
  proof (intro allI impI, rule nothing_moved)
    fix S assume at: "stmt_at ck env S" and plain: "stmt_plain_types (Stmt (StReturn (Some e)) s)"
    have rt: "function_return_type (ge_function env) = RtValue ty" "has_text ty"
      using at ok_return_value.hyps(1) by (simp_all add: stmt_at_def)
    have "sound_at ck env S e" using stmt_at_expr [OF at] plain by (simp add: stmt_plain_types_def)
    then have "gives S (emit_expr_as env ty e) (\<lambda>r. op_ty r = RtValue ty)"
      using typed_emits(2) [OF ok_return_value.hyps(2)] rt(2) by blast
    then show "gives S (emit_statement env (Stmt (StReturn (Some e)) s)) (\<lambda>_. True)"
      unfolding emit_statement.simps by (intro runs_emit_return) (use rt in auto)
  qed
next
  case (ok_nil ck)
  show ?case by (simp add: runs_gret)
next
  case (ok_cons ck stmt ck1 stmts ck2)
  show ?case
  proof (intro allI impI)
    fix S assume at: "stmt_at ck env S" and plain: "block_plain (stmt # stmts)"
    have "stmt_plain_types stmt" "block_plain stmts" using plain by (auto simp: block_plain_def stmt_plain_types_def)
    then have stmt: "returns_in S (emit_statement env stmt) (\<lambda>_ S'. stmt_at ck1 env S' \<and> tl S' = tl S)"
      and stmts: "block_runs S' (emit_statements env stmts)" if "stmt_at ck1 env S'" for S'
      using ok_cons.IH at that by blast+
    have "block_runs S (gbind (emit_statement env stmt) (\<lambda>_. emit_statements env stmts))"
      using stmts ok_cons.IH(1) at \<open>stmt_plain_types stmt\<close>
      by (intro runs_gbind [of S "emit_statement env stmt" "\<lambda>_ S'. stmt_at ck1 env S' \<and> tl S' = tl S"]) fastforce+
    then show "block_runs S (emit_statements env (stmt # stmts))" by (simp add: returns_in_unless_terminated)
  qed
qed

end
