(* ===== verification/Codegen_Total.thy ===== *)
theory Codegen_Total
  imports Codegen_Typed
begin

text \<open>
  Whole functions and whole programs: the environment that code generation builds from an accepted program
  serves the environment the program was checked in, so that emission returns.
\<close>

section \<open>Functions\<close>

lemma all_some_returns: "all_some xs \<noteq> None \<longleftrightarrow> (\<forall>x \<in> set xs. x \<noteq> None)"
  by (induction xs) (auto simp: bind_eq_None_conv)

lemma runs_emit_params:
  "stmt_at ck env S \<Longrightarrow> \<forall>p \<in> set ps. has_text (param_ty p) \<Longrightarrow>
   returns_in S (emit_params i ps) (\<lambda>_ S'. stmt_at (declare_params ps ck) env S')"
proof (induction ps arbitrary: i ck S)
  case Nil
  then show ?case by (simp add: runs_gret)
next
  case (Cons p ps)
  obtain t where t: "llvm_value_type (param_ty p) = Some t" using Cons.prems(2) has_text_Some by fastforce
  have "returns_in S (bind_variable (param_name p) (variable_at (param_ty p) pointer))
      (\<lambda>_ S'. scopes_agree (declare_variable (param_name p) (param_ty p) ck) S' \<and> tl S' = tl S)" for pointer
    using Cons.prems by (intro scopes_declared) (simp_all add: stmt_at_def)
  then have rest: "returns_in S (gbind (bind_variable (param_name p) (variable_at (param_ty p) pointer)) (\<lambda>_. emit_params (Suc i) ps))
      (\<lambda>_ S'. stmt_at (declare_params (p # ps) ck) env S')" for pointer
  proof (rule runs_gbind, elim conjE)
    fix S' assume "scopes_agree (declare_variable (param_name p) (param_ty p) ck) S'"
    from Cons.IH [OF stmt_at_declare [OF Cons.prems(1) this]] Cons.prems(2)
    show "returns_in S' (emit_params (Suc i) ps) (\<lambda>_ S'. stmt_at (declare_params (p # ps) ck) env S')" by simp
  qed
  show ?case
    unfolding emit_params.simps t gbind_gsome
    by (rule runs_steps, intro steady_intros, rule runs_steps, intro steady_intros, rule rest)
qed

lemma function_header_returns:
  assumes "\<forall>p \<in> set (function_params f). has_text (param_ty p)"
    and "\<And>ty. function_return_type f = RtValue ty \<Longrightarrow> has_text ty"
  shows "function_header f \<noteq> None"
proof -
  have "param_ty p \<in> param_ty ` set (function_params f)" if "(i, p) \<in> set (enumerate 0 (function_params f))" for i p
    using that by (auto simp: in_set_enumerate_eq)
  then have "all_some (map (\<lambda>(i, p). map_option (\<lambda>t. t @ '' %arg'' @ show_nat i) (llvm_value_type (param_ty p)))
      (enumerate 0 (function_params f))) \<noteq> None"
    unfolding all_some_returns using assms(1) by (fastforce simp: has_text_def)
  moreover have "llvm_return_type (function_return_type f) \<noteq> None"
    using assms(2) by (auto simp: llvm_return_type_def has_text_def split: return_type.split)
  ultimately show ?thesis by (auto simp: function_header_def)
qed

lemma started_returns:
  assumes "returns_in [[]] rest (\<lambda>_ _. True)"
  shows "gbind (push_line a) (\<lambda>_. gbind (push_line b) (\<lambda>_. rest)) emitter_new \<noteq> None"
proof -
  have "em_scopes (emitter_new\<lparr>em_lines := [a, b]\<rparr>) = [[]]" "2 \<le> length (em_lines (emitter_new\<lparr>em_lines := [a, b]\<rparr>))"
    by (simp_all add: emitter_new_def)
  then obtain r where "rest (emitter_new\<lparr>em_lines := [a, b]\<rparr>) = Some r" using assms unfolding returns_in_def by blast
  then show ?thesis by (simp add: gbind_def push_line_def emitter_new_def)
qed

lemma emit_function_returns:
  assumes "serves ck env" and "ck_scopes ck = [[]]" and "ck_return_type ck = function_return_type f" and "ge_function env = f"
    and "function_ok ck f" and "\<forall>ty \<in> set (function_types f). has_text ty" and "\<forall>e \<in> set (block_exprs (function_body f)). numeric_conversions e"
  shows "emit_function env n \<noteq> None"
proof -
  have params: "\<forall>p \<in> set (function_params f). has_text (param_ty p)"
    and rt: "\<And>ty. function_return_type f = RtValue ty \<Longrightarrow> has_text ty"
    and plain: "block_plain (function_body f)"
    using assms(6,7) by (auto simp: function_types_def block_plain_def)
  have at: "stmt_at ck env [[]]"
    using assms rt by (simp add: stmt_at_def scopes_agree_def scope_agrees_empty)
  obtain ck' where ok: "stmts_ok (declare_params (function_params f) ck) (function_body f) ck'"
    using assms(5) by (auto simp: function_ok_def)
  obtain header where header: "function_header f = Some header" using function_header_returns [OF params rt] by blast
  have finish: "steady (gbind (finish_function f) (\<lambda>_. push_line LnClose))"
    unfolding finish_function_def by (intro steady_intros)
  have storage: "steady (storage_init f n)" unfolding storage_init_def by (intro steady_intros)
  have body: "returns_in S (gbind (emit_statements env (function_body f)) (\<lambda>_. gbind (finish_function f) (\<lambda>_. push_line LnClose))) (\<lambda>_ _. True)"
    if "stmt_at (declare_params (function_params f) ck) env S" for S
    using stmt_emits(2) [OF ok, rule_format, OF that plain] runs_steady [OF finish] by (rule runs_gbind) simp_all
  have "returns_in [[]] (gbind (emit_params 0 (function_params f)) (\<lambda>_. gbind (emit_statements env (function_body f)) (\<lambda>_.
      gbind (finish_function f) (\<lambda>_. push_line LnClose)))) (\<lambda>_ _. True)"
    using runs_emit_params [OF at params] body by (rule runs_gbind)
  then have run: "returns_in [[]] (gbind (storage_init f n) (\<lambda>_. gbind (emit_params 0 (function_params f)) (\<lambda>_.
      gbind (emit_statements env (function_body f)) (\<lambda>_. gbind (finish_function f) (\<lambda>_. push_line LnClose))))) (\<lambda>_ _. True)"
    by (intro runs_gbind [OF runs_steady [OF storage, of "\<lambda>_ S'. S' = [[]]"]]) simp_all
  have "emit_body env n emitter_new \<noteq> None"
    unfolding emit_body_def Let_def assms(4) header gbind_gsome by (rule started_returns [OF run])
  then show ?thesis by (auto simp: emit_function_def function_lines_def)
qed

section \<open>Constants\<close>

lemma llvm_constant_returns:
  assumes "\<And>n d f. hm_get structs n = Some d \<Longrightarrow> f \<in> set (struct_fields d) \<Longrightarrow> has_text (field_ty f)"
  shows "value_ok structs v \<Longrightarrow> has_text (constant_value_ty v) \<Longrightarrow> llvm_constant v \<noteq> None"
proof (induction v)
  case (CvStruct name fs)
  then obtain d where d: "hm_get structs name = Some d" "map (constant_value_ty \<circ> snd) fs = map field_ty (struct_fields d)"
    by auto
  have "llvm_constant w \<noteq> None \<and> llvm_value_type (constant_value_ty w) \<noteq> None" if w: "(n, w) \<in> set fs" for n w
  proof -
    have "constant_value_ty w \<in> set (map field_ty (struct_fields d))"
      unfolding d(2) [symmetric] using w by force
    then have "has_text (constant_value_ty w)" using assms [OF d(1)] by auto
    moreover have "value_ok structs w" using CvStruct.prems(1) w by (auto simp: list_all_iff)
    ultimately show ?thesis using CvStruct.IH [OF w, of w] by (simp add: has_text_def)
  qed
  then have "all_some (map (\<lambda>(n, v). Option.bind (llvm_value_type (constant_value_ty v)) (\<lambda>t.
      map_option (\<lambda>c. t @ '' '' @ c) (llvm_constant v))) fs) \<noteq> None"
    unfolding all_some_returns by fastforce
  then show ?case by simp
next
  case (CvArray element vs)
  have element: "has_text element" using CvArray.prems(2) by simp
  have "llvm_constant w \<noteq> None" if w: "w \<in> set vs" for w
  proof -
    have "constant_value_ty w = element" "value_ok structs w" using CvArray.prems(1) w by (auto simp: list_all_iff)
    then show ?thesis using CvArray.IH [OF w] element by simp
  qed
  then have "all_some (map (\<lambda>v. map_option (\<lambda>c. t @ '' '' @ c) (llvm_constant v)) vs) \<noteq> None" for t
    unfolding all_some_returns by fastforce
  then show ?case using has_text_Some [OF element] by auto
qed simp_all

section \<open>The environment of a program\<close>

text \<open>What code generation needs of a program, beyond \<^const>\<open>program_ok\<close>.\<close>

lemma program_has_text:
  assumes "program_ok p values" and "ty \<in> set (program_types p)"
  shows "has_text ty"
  using assms by (intro has_text_lengths) (fastforce simp: program_ok_def)

lemma declared_types:
  "d \<in> set (program_structs p) \<Longrightarrow> f \<in> set (struct_fields d) \<Longrightarrow> field_ty f \<in> set (program_types p)"
  "c \<in> set (program_constants p) \<Longrightarrow> constant_ty c \<in> set (program_types p)"
  "g \<in> set (program_globals p) \<Longrightarrow> global_ty g \<in> set (program_types p)"
  "fn \<in> set (program_functions p) \<Longrightarrow> ty \<in> set (function_types fn) \<Longrightarrow> ty \<in> set (program_types p)"
  by (auto simp: program_types_def)

text \<open>Two maps with the same keys.\<close>

lemma hm_collect_same_keys:
  "hm_get (hm_collect (map (\<lambda>x. (f x, g x)) xs)) n = Some v \<Longrightarrow>
   \<exists>x \<in> set xs. f x = n \<and> g x = v \<and> hm_get (hm_collect (map (\<lambda>x. (f x, h x)) xs)) n = Some (h x)"
proof (induction xs rule: rev_induct)
  case (snoc x xs)
  then show ?case by (auto simp: hm_get_def hm_collect_def split: if_splits)
qed (simp add: hm_collect_def)

lemma hm_collect_append: "hm_collect (xs @ ys) = hm_collect ys @ hm_collect xs"
  by (simp add: hm_collect_def)

lemma builtin_texts:
  assumes "b \<in> set FUNCTIONS"
  shows "\<forall>ty \<in> set (bf_params b). has_text ty" and "bf_return_type b = RtValue ty \<Longrightarrow> has_text ty"
proof -
  have all: "\<forall>b \<in> set FUNCTIONS. (\<forall>ty \<in> set (bf_params b). has_text ty) \<and> (\<forall>ty. bf_return_type b = RtValue ty \<longrightarrow> has_text ty)"
    by (simp add: FUNCTIONS_def builtin_def)
  then show "\<forall>ty \<in> set (bf_params b). has_text ty" and "bf_return_type b = RtValue ty \<Longrightarrow> has_text ty"
    using assms by auto
qed

lemma program_serves_functions:
  assumes "program_ok p values" and "hm_get (functions_of p) n = Some sig"
    and "ge_functions env = function_signatures p"
  shows "serves_function env n sig"
proof -
  let ?named = "named_functions (program_functions p)"
  have table: "function_signatures p = hm_collect (map (\<lambda>f. (function_name f, function_symbol_signature f)) ?named)
      @ hm_collect (map (\<lambda>b. (bf_name b, builtin_symbol_signature b)) FUNCTIONS)"
    by (simp add: function_signatures_def named_functions_def hm_collect_append)
  show ?thesis
  proof (cases "n \<in> function_name ` set ?named")
    case True
    then have "hm_get (hm_collect (map (\<lambda>f. (function_name f, signature_of f)) ?named)) n = Some sig"
      using assms(2) by (auto simp: functions_of_def hm_get_above image_image split: if_splits)
    from hm_collect_same_keys [OF this, of function_symbol_signature] obtain f where f: "f \<in> set ?named"
      "signature_of f = sig" "hm_get (function_signatures p) n = Some (function_symbol_signature f)"
      using True by (auto simp: table hm_get_above image_image)
    have "f \<in> set (program_functions p)" using f(1) by (simp add: named_functions_def)
    then have "has_text ty" if "ty \<in> set (function_types f)" for ty
      using program_has_text [OF assms(1) declared_types(4)] that by blast
    then show ?thesis
      using f(2,3) by (auto simp: serves_function_def assms(3) signature_of_def function_symbol_signature_def function_types_def)
  next
    case False
    then have "hm_get builtins n = Some sig"
      using assms(2) by (auto simp: functions_of_def hm_get_above image_image split: if_splits)
    from hm_collect_same_keys [OF this [unfolded builtins_def], of builtin_symbol_signature] obtain b where b: "b \<in> set FUNCTIONS"
      "\<lparr>sig_params = bf_params b, sig_return = bf_return_type b\<rparr> = sig"
      "hm_get (function_signatures p) n = Some (builtin_symbol_signature b)"
      using False by (auto simp: table hm_get_above image_image)
    then show ?thesis
      using builtin_texts [OF b(1)] by (auto simp: serves_function_def assms(3) builtin_symbol_signature_def)
  qed
qed

lemma constant_entries_exact:
  assumes "constant_entries p = Some entries"
  shows "entries = map (\<lambda>c. (constant_name c, the (constant_val c))) (program_constants p)"
proof -
  have "all_some (map (\<lambda>c. map_option (\<lambda>v. (constant_name c, v)) (constant_val c)) cs) = Some es \<Longrightarrow>
      es = map (\<lambda>c. (constant_name c, the (constant_val c))) cs" for cs es
    by (induction cs arbitrary: es) (auto simp: bind_eq_Some_conv)
  then show ?thesis using assms by (simp add: constant_entries_def)
qed

lemma program_binding:
  "checker_binding ((program_checker p values rt)\<lparr>ck_scopes := []\<rparr>) n = checker_binding (program_checker p values rt) n"
  by (simp add: program_checker_def env_checker_def checker_new_def checker_binding_def cong: option.case_cong)

lemma hm_collect_None: "hm_get (hm_collect (map (\<lambda>x. (f x, g x)) xs)) n = None \<longleftrightarrow> n \<notin> f ` set xs"
  by (auto simp: hm_get_def hm_collect_def map_of_eq_None_iff image_image)

lemma global_variables_above:
  "global_variables p =
     above (map (\<lambda>c. (constant_name c, variable_at (constant_ty c) (constant_symbol (constant_name c)))) (aggregate_constants p))
       (hm_collect (map (\<lambda>g. (global_name g, variable_at (global_ty g) (global_symbol (global_name g)))) (program_globals p)))"
  by (simp add: global_variables_def hm_collect_append)

lemma aggregate_names: "constant_name ` set (aggregate_constants p) \<subseteq> constant_name ` set (program_constants p)"
  by (auto simp: aggregate_constants_def)

lemma global_served:
  assumes "program_ok p values" and "hm_get (global_types_of p) n = Some ty"
  shows "has_text ty \<and> (\<exists>v. hm_get (global_variables p) n = Some v \<and> var_ty v = ty)"
proof -
  from hm_collect_same_keys [OF assms(2) [unfolded global_types_of_def], of "\<lambda>g. variable_at (global_ty g) (global_symbol (global_name g))"]
  obtain g where g: "g \<in> set (program_globals p)" "global_name g = n" "global_ty g = ty"
    and found: "hm_get (hm_collect (map (\<lambda>g. (global_name g, variable_at (global_ty g) (global_symbol (global_name g)))) (program_globals p))) n
        = Some (variable_at (global_ty g) (global_symbol (global_name g)))"
    by blast
  have "distinct (top_level p)" using assms(1) by (simp add: program_ok_def declarations_ok_def)
  then have "n \<notin> constant_name ` set (program_constants p)" using g by (auto simp: top_level_def)
  then have "n \<notin> constant_name ` set (aggregate_constants p)" using aggregate_names by blast
  then show ?thesis
    using found g program_has_text [OF assms(1) declared_types(3) [OF g(1)]] by (simp add: global_variables_above hm_get_above image_image)
qed

text \<open>A declared constant is a global of the module when it is an aggregate, and a literal otherwise.\<close>

lemma constant_served:
  assumes ok: "program_ok p values" and entries: "constant_entries p = Some entries"
    and c: "c \<in> set (program_constants p)" "constant_name c \<notin> global_name ` set (program_globals p)"
  shows "has_text (constant_ty c) \<and>
    (case hm_get (global_variables p) (constant_name c) of
       Some v \<Rightarrow> var_ty v = constant_ty c
     | None \<Rightarrow> \<exists>v. hm_get (hm_collect (builtin_constants r @ entries)) (constant_name c) = Some v
                   \<and> constant_value_ty v = constant_ty c \<and> llvm_constant v \<noteq> None)"
proof -
  obtain v where v: "constant_val c = Some v" "has_type (structs_of p) v (constant_ty c)"
    using ok c(1) unfolding program_ok_def by blast
  have "distinct (top_level p)" using ok by (simp add: program_ok_def declarations_ok_def)
  then have names: "distinct (map constant_name (program_constants p))" by (simp add: top_level_def)
  then have aggregate_names: "distinct (map constant_name (aggregate_constants p))"
    by (simp add: aggregate_constants_def distinct_map_filter)
  have printed: "has_text (constant_ty c)" by (rule program_has_text [OF ok declared_types(2) [OF c(1)]])
  have fields: "has_text (field_ty f)" if "hm_get (structs_of p) m = Some d" "f \<in> set (struct_fields d)" for m d f
    using that program_has_text [OF ok declared_types(1)] by (auto simp: structs_of_def dest!: hm_collect_value)
  have literal: "llvm_constant v \<noteq> None"
    using llvm_constant_returns [of "structs_of p" v] fields v(2) printed by (auto simp: has_type_def)
  have above: "hm_get (hm_collect (builtin_constants r @ entries)) (constant_name c) = Some v"
  proof -
    have "hm_get (hm_collect entries) (constant_name c) = Some v"
      unfolding constant_entries_exact [OF entries] using hm_get_collect [OF names, of "\<lambda>c. the (constant_val c)"] c(1) v(1) by force
    then show ?thesis using c(1) by (simp add: hm_collect_append hm_get_above constant_entries_exact [OF entries] image_image)
  qed
  show ?thesis
  proof (cases "is_aggregate_constant v")
    case True
    then have "c \<in> set (aggregate_constants p)" using c(1) v(1) by (simp add: aggregate_constants_def has_aggregate_value_def)
    then have "hm_get (global_variables p) (constant_name c) = Some (variable_at (constant_ty c) (constant_symbol (constant_name c)))"
      using hm_get_collect [OF aggregate_names, of "\<lambda>c. variable_at (constant_ty c) (constant_symbol (constant_name c))"]
      by (auto simp: global_variables_above hm_get_above image_image)
    then show ?thesis using printed by simp
  next
    case False
    have "constant_name c \<notin> constant_name ` set (aggregate_constants p)"
    proof
      assume "constant_name c \<in> constant_name ` set (aggregate_constants p)"
      then obtain d where "d \<in> set (aggregate_constants p)" "constant_name d = constant_name c" by force
      then have "d = c" using names c(1) by (auto simp: aggregate_constants_def distinct_map dest: inj_onD)
      then show False using \<open>d \<in> set (aggregate_constants p)\<close> False v(1) by (simp add: aggregate_constants_def has_aggregate_value_def)
    qed
    then have "hm_get (global_variables p) (constant_name c) = None"
      using c(2) by (simp add: global_variables_above hm_get_above hm_collect_None image_image)
    then show ?thesis using printed above literal v(2) by (auto simp: has_type_def)
  qed
qed

lemma program_serves_names:
  assumes ok: "program_ok p values" and entries: "constant_entries p = Some entries"
    and bound: "checker_binding (program_checker p values rt) n = Some b"
  shows "serves_name (function_env p diagnostics entries f) n b"
proof (cases "hm_get (global_types_of p) n")
  case (Some ty)
  then show ?thesis
    using global_served [OF ok Some] bound by (auto simp: program_checker_simps serves_name_def serves_variable_def function_env_def)
next
  case None
  then have b: "hm_get (constant_types_of p) n = Some (bind_ty b)" "bind_mutability b = MuConstant"
    using bound by (auto simp: program_checker_simps)
  have no_global: "n \<notin> global_name ` set (program_globals p)" using None by (simp add: global_types_of_def hm_collect_None)
  show ?thesis
  proof (cases "n \<in> constant_name ` set (program_constants p)")
    case True
    then obtain c where c: "c \<in> set (program_constants p)" "constant_name c = n" "constant_ty c = bind_ty b"
      using b(1) by (auto simp: constant_types_of_def hm_get_above image_image dest!: hm_collect_value)
    then show ?thesis
      using constant_served [OF ok entries c(1)] no_global b(2)
      by (auto simp: serves_name_def serves_variable_def function_env_def split: option.splits)
  next
    case False
    then have "hm_get (predefined_types (program_resolution p)) n = Some (bind_ty b)"
      using b(1) by (simp add: constant_types_of_def hm_get_above image_image)
    moreover have "predefined_types r = hm_collect (map (\<lambda>e. (fst e, constant_value_ty (snd e))) (builtin_constants r))" for r
      by (simp add: predefined_types_def case_prod_unfold)
    ultimately have "hm_get (hm_collect (map (\<lambda>e. (fst e, constant_value_ty (snd e))) (builtin_constants (program_resolution p)))) n = Some (bind_ty b)"
      by simp
    from hm_collect_same_keys [OF this, of snd] obtain e where e: "e \<in> set (builtin_constants (program_resolution p))" "fst e = n"
      "constant_value_ty (snd e) = bind_ty b"
      and found: "hm_get (hm_collect (map (\<lambda>e. (fst e, snd e)) (builtin_constants (program_resolution p)))) n = Some (snd e)" by blast
    obtain i where i: "snd e = CvI32 i" using builtin_constants_i32 [of "fst e" "snd e"] e(1) by auto
    have "n \<notin> constant_name ` set (aggregate_constants p)" using False aggregate_names by blast
    then have "hm_get (global_variables p) n = None"
      using no_global by (simp add: global_variables_above hm_get_above hm_collect_None image_image)
    moreover have "hm_get (hm_collect (builtin_constants (program_resolution p) @ entries)) n = Some (CvI32 i)"
      using False found i by (simp add: hm_collect_append hm_get_above constant_entries_exact [OF entries] image_image)
    ultimately show ?thesis
      using b(2) e(3) i by (auto simp: serves_name_def serves_variable_def function_env_def)
  qed
qed

lemma program_serves:
  assumes "program_ok p values" and "constant_entries p = Some entries"
  shows "serves (program_checker p values rt) (function_env p RdPlain entries f)"
proof -
  have structs: "ge_structs (function_env p RdPlain entries f) = structs_of p" by (simp add: function_env_def structs_of_def)
  have "has_text (field_ty fd)" if "hm_get (structs_of p) n = Some d" "fd \<in> set (struct_fields d)" for n d fd
    using that program_has_text [OF assms(1) declared_types(1)] by (auto simp: structs_of_def dest!: hm_collect_value)
  moreover have "serves_function (function_env p RdPlain entries f) n sig" if "hm_get (functions_of p) n = Some sig" for n sig
    using program_serves_functions [OF assms(1) that] by (simp add: function_env_def)
  moreover have "ge_diagnostics (function_env p RdPlain entries f) = RdPlain" by (simp add: function_env_def)
  ultimately show ?thesis
    using program_serves_names [OF assms] structs unfolding serves_def program_binding
    by (simp add: program_checker_simps)
qed

section \<open>The program\<close>

lemma concat_some_returns: "concat_some xs \<noteq> None \<longleftrightarrow> (\<forall>x \<in> set xs. x \<noteq> None)"
  using all_some_returns [of xs] by (simp add: concat_some_def)

lemma builtin_declaration_returns:
  assumes "b \<in> set FUNCTIONS"
  shows "builtin_declaration b \<noteq> None"
proof -
  have "all_some (map llvm_value_type (bf_params b)) \<noteq> None"
    unfolding all_some_returns using builtin_texts(1) [OF assms] by (auto simp: has_text_def)
  moreover have "llvm_return_type (bf_return_type b) \<noteq> None"
    using builtin_texts(2) [OF assms] by (auto simp: llvm_return_type_def has_text_def split: return_type.split)
  ultimately show ?thesis by (auto simp: builtin_declaration_def)
qed

lemma data_declaration_returns:
  assumes "program_ok p values" and "has_type (structs_of p) v ty" and "has_text ty"
  shows "data_declaration symbol keyword ty v \<noteq> None"
proof -
  have "has_text (field_ty f)" if "hm_get (structs_of p) m = Some d" "f \<in> set (struct_fields d)" for m d f
    using that program_has_text [OF assms(1) declared_types(1)] by (auto simp: structs_of_def dest!: hm_collect_value)
  then have "llvm_constant v \<noteq> None" using llvm_constant_returns [of "structs_of p" v] assms(2,3) by (auto simp: has_type_def)
  then show ?thesis using has_text_Some [OF assms(3)] by (auto simp: data_declaration_def)
qed

lemma emit_program_returns:
  assumes ok: "program_ok p values" and conv: "conversions_ok p"
  shows "emit_program p target RdPlain \<noteq> None"
proof -
  have vals: "\<exists>v. constant_val c = Some v \<and> has_type (structs_of p) v (constant_ty c)" if "c \<in> set (program_constants p)" for c
    using ok that unfolding program_ok_def by blast
  then obtain entries where entries: "constant_entries p = Some entries"
    using all_some_returns [of "map (\<lambda>c. map_option (\<lambda>v. (constant_name c, v)) (constant_val c)) (program_constants p)"]
    by (force simp: constant_entries_def)
  have "emit_function (function_env p RdPlain entries f) n \<noteq> None" if f: "f \<in> set (program_functions p)" for f n
  proof (rule emit_function_returns)
    show "serves (program_checker p values (function_return_type f)) (function_env p RdPlain entries f)"
      by (rule program_serves [OF ok entries])
    show "function_ok (program_checker p values (function_return_type f)) f" using ok f unfolding program_ok_def by blast
    show "\<forall>ty \<in> set (function_types f). has_text ty" using program_has_text [OF ok declared_types(4) [OF f]] by blast
    show "\<forall>e \<in> set (block_exprs (function_body f)). numeric_conversions e"
      using conv f by (auto simp: conversions_ok_def program_exprs_def)
  qed (simp_all add: program_checker_def env_checker_def checker_new_def function_env_def)
  then have bodies: "concat_some (map (\<lambda>f. map_option (\<lambda>s. s @ [newline])
      (emit_function (function_env p RdPlain entries f) (length (program_title p)))) (program_functions p)) \<noteq> None"
    unfolding concat_some_returns by fastforce
  have builtins: "concat_some (map builtin_declaration FUNCTIONS) \<noteq> None"
    unfolding concat_some_returns using builtin_declaration_returns by auto
  have "struct_declaration d \<noteq> None" if "d \<in> set (program_structs p)" for d
    using all_some_returns [of "map (llvm_value_type \<circ> field_ty) (struct_fields d)"] program_has_text [OF ok declared_types(1) [OF that]]
    by (auto simp: struct_declaration_def has_text_def)
  then have structs: "concat_some (map struct_declaration (program_structs p)) \<noteq> None"
    unfolding concat_some_returns by auto
  have "constant_declaration c \<noteq> None" if "c \<in> set (program_constants p)" for c
    using vals [OF that] data_declaration_returns [OF ok _ program_has_text [OF ok declared_types(2) [OF that]]]
    by (auto simp: constant_declaration_def)
  then have constants: "concat_some (map constant_declaration (aggregate_constants p)) \<noteq> None"
    unfolding concat_some_returns by (auto simp: aggregate_constants_def)
  have "global_declaration g \<noteq> None" if g: "g \<in> set (program_globals p)" for g
  proof -
    obtain v where "global_val g = Some v" "has_type (structs_of p) v (global_ty g)" using ok g unfolding program_ok_def by blast
    then show ?thesis
      using data_declaration_returns [OF ok _ program_has_text [OF ok declared_types(3) [OF g]]] by (simp add: global_declaration_def)
  qed
  then have globals: "concat_some (map global_declaration (program_globals p)) \<noteq> None"
    unfolding concat_some_returns by auto
  show ?thesis
    using builtins structs constants globals bodies by (auto simp: emit_program_def entries)
qed

text \<open>
  C39 Code generation never panics on an accepted program: whatever the checker accepts, emission for any target
  returns a module, so every \<open>expect\<close> and \<open>unreachable!\<close> of the code generator that appeals to
  semantic checking is justified.
\<close>

theorem accepted_program_emits:
  assumes "check_program p = Some (p', Ok ())" and "as_parsed p"
  shows "\<exists>module. emit_for_target p' target = Some module"
  using accepted_analysis [OF assms] emit_program_returns by (auto simp: emit_for_target_def)

theorem accepted_program_emits_witness: "\<exists>module. emit_for_target sample_program None = Some module"
  using accepted_program_emits [OF sample_accepted sample_as_parsed] .

end
