(* ===== verification/Compile.thy ===== *)
theory Compile
  imports Frontend Parser_Shape Sema_Total Codegen_Total
begin

text \<open>
  The library's pipeline on one source, \<^verbatim>\<open>src/src/checked.rs\<close> and
  \<^verbatim>\<open>src/src/lib.rs\<close>: lexer, parser, semantic analysis and emission composed.
  \<^const>\<open>None\<close> is a panic.
\<close>

section \<open>Checked programs\<close>

record checked_program =
  checked_ast :: program
  checked_sources :: source_map

record analysis_error =
  ae_sources :: source_map
  ae_diagnostics :: "diagnostic list"

definition validate_program :: "program \<Rightarrow> source_map \<Rightarrow> (analysis_error, checked_program) result option" where
  "validate_program ast sources =
     map_option (\<lambda>(ast', checked). case checked of
         Inr _ \<Rightarrow> Ok \<lparr>checked_ast = ast', checked_sources = sources\<rparr>
       | Inl ds \<Rightarrow> Err \<lparr>ae_sources = sources, ae_diagnostics = ds\<rparr>)
       (check_program ast)"

definition sound_needs_file :: "sound_asset \<Rightarrow> diagnostic" where
  "sound_needs_file sound =
     diag ''sound assets require file-based analysis so their paths can be resolved'' (sound_span sound)"

definition analyze :: "string \<Rightarrow> (diagnostic list, checked_program) result option" where
  "analyze source =
     (case parse_source source of
        None \<Rightarrow> None
      | Some (Inl ds) \<Rightarrow> Some (Err ds)
      | Some (Inr ast) \<Rightarrow>
          if program_sounds ast \<noteq> [] then Some (Err (map sound_needs_file (program_sounds ast)))
          else
            let (sid, sources) = source_add ''<source>'' source source_map_empty
            in map_option (map_sum ae_diagnostics (\<lambda>checked. checked)) (validate_program ast sources))"

section \<open>Compilation\<close>

definition compiled_with ::
  "('e, checked_program) result option \<Rightarrow> string option \<Rightarrow> ('e, string) result option" where
  "compiled_with analyzed target =
     (case analyzed of
        None \<Rightarrow> None
      | Some (Inl e) \<Rightarrow> Some (Err e)
      | Some (Inr checked) \<Rightarrow> map_option Ok (emit_for_target (checked_ast checked) target))"

definition compile_to_llvm :: "string \<Rightarrow> (diagnostic list, string) result option" where
  "compile_to_llvm source = compiled_with (analyze source) None"

definition compile_to_llvm_for_target :: "string \<Rightarrow> string \<Rightarrow> (diagnostic list, string) result option" where
  "compile_to_llvm_for_target source triple = compiled_with (analyze source) (Some triple)"

definition render_diagnostics :: "string \<Rightarrow> string \<Rightarrow> diagnostic list \<Rightarrow> string" where
  "render_diagnostics path source ds = join [newline] (map (render path source) ds)"

section \<open>Totality of the pipeline\<close>

lemma parse_source_as_parsed: "parse_source source = Some (Ok ast) \<Longrightarrow> as_parsed ast"
  by (auto simp: parse_source_def parse_def split: option.splits sum.splits list.splits dest: parse_file_shaped)

lemma validated_program_emits:
  assumes "validate_program ast sources = Some (Ok checked)" and "as_parsed ast"
  shows "\<exists>module. emit_for_target (checked_ast checked) target = Some module"
    and "\<exists>values. program_ok (checked_ast checked) values"
proof -
  have "check_program ast = Some (checked_ast checked, Ok ())"
    using assms(1) by (auto simp: validate_program_def split: sum.splits) (metis old.unit.exhaust sum.exhaust)
  from accepted_analysis [OF this assms(2)] obtain vals
    where ok: "program_ok (checked_ast checked) vals" "conversions_ok (checked_ast checked)" by blast
  from emit_program_returns [OF ok] show "\<exists>module. emit_for_target (checked_ast checked) target = Some module"
    by (simp add: emit_for_target_def)
  from ok(1) show "\<exists>values. program_ok (checked_ast checked) values" ..
qed

lemma validated_program_total:
  assumes "as_parsed ast"
  shows "\<exists>r. validate_program ast sources = Some r \<and> (case r of
      Inl e \<Rightarrow> ae_diagnostics e \<noteq> []
    | Inr checked \<Rightarrow> (\<exists>module. emit_for_target (checked_ast checked) target = Some module) \<and>
        (\<exists>values. program_ok (checked_ast checked) values))"
proof -
  obtain p' r where run: "check_program ast = Some (p', r)" and r: "r = Ok () \<or> (\<exists>ds. r = Err ds \<and> ds \<noteq> [])"
    using check_program_returns by blast
  show ?thesis
  proof (cases "r = Ok ()")
    case True
    then have "validate_program ast sources = Some (Ok \<lparr>checked_ast = p', checked_sources = sources\<rparr>)"
      using run by (simp add: validate_program_def)
    from validated_program_emits [OF this assms] this show ?thesis by auto
  next
    case False
    then show ?thesis using r run by (auto simp: validate_program_def)
  qed
qed

lemma analyzed_errors:
  assumes "analyze source = Some (Err ds)" and "\<And>ds. parse_source source = Some (Err ds) \<Longrightarrow> ds \<noteq> []"
  shows "ds \<noteq> []"
proof (cases "parse_source source")
  case (Some parsed)
  show ?thesis
  proof (cases parsed)
    case (Inr ast)
    obtain p' r where run: "check_program ast = Some (p', r)" and "r = Ok () \<or> (\<exists>ds. r = Err ds \<and> ds \<noteq> [])"
      using check_program_returns by blast
    then show ?thesis using assms(1) Some Inr
      by (auto simp: analyze_def validate_program_def source_add_def Let_def split: if_splits sum.splits)
  qed (use assms Some in \<open>auto simp: analyze_def\<close>)
qed (use assms in \<open>simp add: analyze_def\<close>)

lemma analyze_returns:
  assumes "parse_source source \<noteq> None"
  shows "analyze source \<noteq> None"
proof -
  obtain r where "parse_source source = Some r" using assms by blast
  moreover have "validate_program ast sources \<noteq> None" for ast sources
    using check_program_returns [of ast] by (auto simp: validate_program_def)
  ultimately show ?thesis by (auto simp: analyze_def source_add_def Let_def split: sum.split)
qed

lemma analyzed_program_emits:
  assumes "analyze source = Some (Ok checked)"
  shows "\<exists>module. emit_for_target (checked_ast checked) target = Some module"
    and "\<exists>values. program_ok (checked_ast checked) values"
proof -
  have ok: "r = Ok checked" if "map_sum ae_diagnostics (\<lambda>checked. checked) r = Ok checked" for r
    using that by (cases r) auto
  obtain ast sources where "parse_source source = Some (Ok ast)" "validate_program ast sources = Some (Ok checked)"
    using assms by (auto simp: analyze_def source_add_def Let_def split: option.splits sum.splits if_splits dest!: ok)
  then show "\<exists>module. emit_for_target (checked_ast checked) target = Some module"
    and "\<exists>values. program_ok (checked_ast checked) values"
    using validated_program_emits parse_source_as_parsed by blast+
qed

text \<open>
  Compilation of a source is total: on every valid UTF-8 text lexer, parser, checker and code generator together
  neither panic nor loop; a rejection carries a diagnostic, and a module is emitted only for an analyzed
  program that is well formed, and for every one of those.
\<close>

theorem compile_total:
  assumes "utf8_valid source"
  shows "case compile_to_llvm_for_target source triple of
           None \<Rightarrow> False
         | Some (Inl ds) \<Rightarrow> ds \<noteq> []
         | Some (Inr module) \<Rightarrow> \<exists>checked values. analyze source = Some (Ok checked) \<and> program_ok (checked_ast checked) values"
proof (cases "analyze source")
  case None
  have "parse_source source \<noteq> None" using parse_source_returns [OF assms] by (auto split: option.splits)
  then show ?thesis using None analyze_returns by simp
next
  case (Some analyzed)
  show ?thesis
  proof (cases analyzed)
    case (Inl ds)
    have parsed: "ds' \<noteq> []" if "parse_source source = Some (Err ds')" for ds'
      using parse_source_returns [OF assms] that by simp
    have "ds \<noteq> []" by (rule analyzed_errors [OF _ parsed]) (use Some Inl in simp)
    then show ?thesis using Some Inl by (simp add: compile_to_llvm_for_target_def compiled_with_def)
  next
    case (Inr checked)
    then obtain module vals where "emit_for_target (checked_ast checked) (Some triple) = Some module"
        and "program_ok (checked_ast checked) vals"
      using Some analyzed_program_emits by blast
    then show ?thesis using Some Inr by (auto simp: compile_to_llvm_for_target_def compiled_with_def)
  qed
qed

theorem compile_total_witness:
  "compile_to_llvm_for_target ''game a'' ''x86_64-unknown-linux-gnu'' \<noteq> None"
  using compile_total [of "''game a''" "''x86_64-unknown-linux-gnu''"]
  by (auto simp: utf8_valid.simps utf8_width_def byte_in_def byte_def split: option.splits)

end
