(* ===== verification/Modules_Total.thy ===== *)
theory Modules_Total
  imports Modules_Correct Modules_Resolve_Correct Compile
begin

text \<open>
  Compilation of a file and its imports, \<open>analyze_path\<close> of \<^verbatim>\<open>src/src/checked.rs\<close> and
  \<open>compile_path_to_llvm\<close> of \<^verbatim>\<open>src/src/lib.rs\<close>, and that it neither panics nor loops.
\<close>

definition analyze_path :: "file_system \<Rightarrow> string \<Rightarrow> (analysis_error, checked_program) result option" where
  "analyze_path fs path =
     (case load_program fs path of
        None \<Rightarrow> None
      | Some (Inl ds, sources) \<Rightarrow> Some (Err \<lparr>ae_sources = sources, ae_diagnostics = ds\<rparr>)
      | Some (Inr ast, sources) \<Rightarrow> validate_program ast sources)"

definition compile_path_to_llvm :: "file_system \<Rightarrow> string \<Rightarrow> (analysis_error, string) result option" where
  "compile_path_to_llvm fs path = compiled_with (analyze_path fs path) None"

definition compile_path_to_llvm_for_target ::
  "file_system \<Rightarrow> string \<Rightarrow> string \<Rightarrow> (analysis_error, string) result option" where
  "compile_path_to_llvm_for_target fs path triple = compiled_with (analyze_path fs path) (Some triple)"

section \<open>Parsing the modules\<close>

text \<open>A parsed module whose imports are among \<open>n\<close> modules.\<close>

definition parsed_module :: "nat \<Rightarrow> source_module \<Rightarrow> bool" where
  "parsed_module n m \<longleftrightarrow> as_parsed (md_program m) \<and> (\<forall>(imported, t) \<in> set (md_imports m). t < n)"

lemma parse_file_returns:
  assumes "tokens_ok src tokens"
  shows "case parse_file tokens root names of None \<Rightarrow> False | Some (Inl ds) \<Rightarrow> ds \<noteq> [] | Some (Inr prog) \<Rightarrow> as_parsed prog"
  using parse_file_fits [OF assms, of root names] parse_file_shaped [of tokens root names]
  by (auto simp: parse_file_def parse_result_def Let_def split: sum.splits parse_failure.splits)

lemma parse_modules_returns:
  assumes "\<forall>m \<in> set files. (\<exists>src. tokens_ok src (lm_tokens m)) \<and> (\<forall>(imported, t) \<in> set (lm_imports m). t < length struct_names)"
  shows "case parse_modules struct_names i files of None \<Rightarrow> False | Some (Inl ds) \<Rightarrow> ds \<noteq> []
    | Some (Inr ms) \<Rightarrow> length ms = length files \<and> (\<forall>m \<in> set ms. parsed_module (length struct_names) m)"
  using assms
proof (induction files arbitrary: i)
  case (Cons m ms)
  then obtain src where tokens: "tokens_ok src (lm_tokens m)" by auto
  have imps: "\<forall>(imported, t) \<in> set (lm_imports m). t < length struct_names" using Cons.prems by auto
  then obtain names where names: "imported_structs struct_names (lm_imports m) = Some names"
    by (auto simp: imported_structs_def list_all_iff)
  have rest: "case parse_modules struct_names (i + 1) ms of None \<Rightarrow> False | Some (Inl ds) \<Rightarrow> ds \<noteq> []
    | Some (Inr qs) \<Rightarrow> length qs = length ms \<and> (\<forall>m \<in> set qs. parsed_module (length struct_names) m)"
    using Cons.prems by (intro Cons.IH) auto
  show ?case
    using parse_file_returns [OF tokens, of "i = 0" names] rest imps
    by (auto simp: names parsed_module_def split: option.splits sum.splits)
qed simp

section \<open>Resolution returns\<close>

definition ns_ok :: "namespace list \<Rightarrow> nat \<Rightarrow> bool" where
  "ns_ok ns i \<longleftrightarrow> i < length ns \<and> (\<forall>a t. hm_get (ns_aliases (ns ! i)) a = Some t \<longrightarrow> t < length ns)"

lemma returns_resolve_name [simp]: "ns_ok ns i \<Longrightarrow> returns (resolve_name ns i sc name s d is_local)"
  by (auto simp: resolve_name_def resolve_global_def resolve_member_def ns_ok_def split: option.split)

lemma returns_resolve_ty [simp]: "ns_ok ns i \<Longrightarrow> returns (resolve_ty ns i ty s)"
  by (induction ns i ty s rule: resolve_ty.induct) (auto split: array_length.split)

lemma returns_resolve_expr [simp]:
  "ns_ok ns i \<Longrightarrow> returns (resolve_expr ns i sc e)"
  "ns_ok ns i \<Longrightarrow> returns (resolve_exprs ns i sc es)"
  "ns_ok ns i \<Longrightarrow> returns (resolve_inits ns i sc inits)"
  by (induction ns i sc e and ns i sc es and ns i sc inits rule: resolve_expr_resolve_exprs_resolve_inits.induct) auto

lemma returns_resolve_stmt [simp]:
  "ns_ok ns i \<Longrightarrow> returns (resolve_stmt ns i outer scope stmt)"
  "ns_ok ns i \<Longrightarrow> returns (resolve_stmts ns i outer scope stmts)"
  by (induction ns i outer scope stmt and ns i outer scope stmts rule: resolve_stmt_resolve_stmts.induct)
     (auto split: option.split)

lemma returns_cmap: "(\<And>x. x \<in> set xs \<Longrightarrow> returns (f x)) \<Longrightarrow> returns (cmap f xs)"
  by (induction xs) auto

lemma returns_own_name: "own ns i n \<Longrightarrow> returns (own_name ns i n)"
  by (auto simp: own_def own_name_def returns_def)

lemma returns_resolve_declarations:
  assumes "ns_ok ns i"
  shows "own ns i (struct_decl_name d) \<Longrightarrow> returns (resolve_struct_names ns i d)"
    and "own ns i (sound_name s) \<Longrightarrow> returns (resolve_sound ns i s)"
    and "own ns i (constant_name c) \<Longrightarrow> returns (resolve_constant ns i c)"
    and "own ns i (global_name g) \<Longrightarrow> returns (resolve_global_names ns i g)"
    and "(function_kind f = FkNamed \<longrightarrow> own ns i (function_name f)) \<Longrightarrow> returns (resolve_function_names ns i f)"
  using assms
  by (auto simp: resolve_struct_names_def resolve_sound_def resolve_constant_def resolve_global_names_def resolve_function_names_def
        returns_own_name intro!: returns_cmap split: return_type.split)

lemma returns_resolve_module:
  assumes "ns_ok ns i" and "\<forall>n \<in> set (declared_names (md_program m)). own ns i n"
  shows "returns (resolve_module ns (i, m))"
  using assms
  by (auto simp: resolve_module_def Let_def declared_names_eq named_function_decls_def
        intro!: returns_cmap returns_resolve_declarations)

lemma returns_module_namespace: "returns (module_namespace m)"
  unfolding module_namespace_def
  by (auto simp: declare_item_def declare_alias_def intro!: returns_ceach split: prod.split)

lemma chk_result_returns: "returns m \<Longrightarrow> \<exists>r. chk_result m = Some r \<and> (\<forall>ds. r = Err ds \<longrightarrow> ds \<noteq> [])"
  by (cases m) (auto simp: returns_def chk_result_def split: if_splits)

lemma module_ns_ok:
  assumes "\<forall>m \<in> set modules. parsed_module (length modules) m" and "i < length modules"
  shows "ns_ok (map module_ns modules) i"
proof -
  have "parsed_module (length modules) (modules ! i)" using assms by simp
  then have "t < length modules" if "hm_get (ns_aliases (module_ns (modules ! i))) a = Some t" for a t
    using that by (auto simp: hm_get_def module_ns_def parsed_module_def dest!: map_of_SomeD)
  then show ?thesis using assms(2) by (simp add: ns_ok_def)
qed

lemma resolve_modules_returns:
  assumes "\<forall>m \<in> set modules. parsed_module (length modules) m"
  shows "\<exists>r. resolve_modules modules = Some r \<and> (\<forall>ds. r = Err ds \<longrightarrow> ds \<noteq> [])"
proof (cases "length modules = 1 \<and> md_imports (hd modules) = []")
  case False
  obtain r where r: "chk_result (cmap module_namespace modules) = Some r" "\<forall>ds. r = Err ds \<longrightarrow> ds \<noteq> []"
    using chk_result_returns [OF returns_cmap [of modules module_namespace, OF returns_module_namespace]] by blast
  show ?thesis
  proof (cases r)
    case (Inr ns)
    have "silent (cmap module_namespace modules) (\<lambda>b. b = ns)" using r(1) Inr by (simp add: chk_result_Ok)
    then have ns: "ns = map module_ns modules"
      using silent_cmap [of modules module_namespace module_clean module_ns "\<lambda>b. b = ns", OF silent_module_namespace] by simp
    have "returns (resolve_module ns (i, modules ! i))" if "i < length modules" for i
      unfolding ns using that
      by (intro returns_resolve_module module_ns_ok [OF assms]) (simp_all add: own_def module_ns_get)
    then have "returns (resolve_all modules ns)"
      unfolding resolve_all_def by (intro returns_cmap) (auto simp: in_set_zip)
    from chk_result_returns [OF this] show ?thesis using r Inr False by (simp add: resolve_modules_def)
  qed (use r False in \<open>simp add: resolve_modules_def\<close>)
qed (simp add: resolve_modules_def)

section \<open>Renaming keeps the shape of the parser\<close>

lemma type_written_rename [simp]: "type_written (rename_type f ty) \<longleftrightarrow> type_written ty"
proof -
  have "list_all written_length (collect_lengths (rename_type f ty)) \<longleftrightarrow> list_all written_length (collect_lengths ty)"
    by (induction ty) (auto simp: written_length_def split: array_length.split)
  then show ?thesis by (simp add: type_written_def)
qed

lemma is_numeric_rename [simp]: "is_numeric (rename_type f ty) = is_numeric ty"
  by (cases ty) simp_all

lemma conversions_rename [simp]:
  "numeric_conversions (rename_expr f sc e) = numeric_conversions e"
  "list_all numeric_conversions (rename_exprs f sc es) = list_all numeric_conversions es"
  "list_all init_conversions (rename_inits f sc inits) = list_all init_conversions inits"
  by (induction f sc e and f sc es and f sc inits rule: rename_expr_rename_exprs_rename_inits.induct) simp_all

lemma shaped_rename [simp]:
  "stmt_shaped (rename_stmt f outer scope stmt) = stmt_shaped stmt"
  "block_shaped (rename_stmts f outer scope stmts) = block_shaped stmts"
  by (induction f outer scope stmt and f outer scope stmts rule: rename_stmt_rename_stmts.induct)
     (auto split: option.split)

lemma as_parsed_rename [simp]: "as_parsed (rename_program q f p) = as_parsed p"
proof -
  have "function_shaped (rename_function q f d) = function_shaped d" for d
    by (auto simp: function_shaped_iff rename_function_def list_all_iff split: return_type.split)
  then show ?thesis
    by (simp add: as_parsed_iff rename_program_def rename_struct_def rename_constant_def rename_global_def list.pred_map comp_def)
qed

lemma as_parsed_renamed_module:
  "i < length modules \<Longrightarrow> \<forall>m \<in> set modules. as_parsed (md_program m) \<Longrightarrow> as_parsed (md_program (renamed_module modules i))"
  by (simp add: renamed_module_def Let_def)

lemma resolve_modules_as_parsed:
  assumes "resolve_modules modules = Some (Ok modules')" and "\<forall>m \<in> set modules. as_parsed (md_program m)"
  shows "length modules' = length modules" and "\<forall>m \<in> set modules'. as_parsed (md_program m)"
proof -
  have "length modules' = length modules \<and> (\<forall>m \<in> set modules'. as_parsed (md_program m))"
  proof (cases "length modules = 1 \<and> md_imports (hd modules) = []")
    case True
    then show ?thesis using assms by (simp add: resolve_modules_def)
  next
    case False
    then have "modules' = map (renamed_module modules) [0..<length modules]"
      using resolve_modules_iff assms(1) by blast
    then show ?thesis using assms(2) as_parsed_renamed_module by auto
  qed
  then show "length modules' = length modules" "\<forall>m \<in> set modules'. as_parsed (md_program m)" by blast+
qed

section \<open>Sounds\<close>

lemma traverse_returns:
  assumes "\<And>x s. x \<in> set xs \<Longrightarrow> \<exists>y s'. f x s = Some (y, s') \<and> P y"
  shows "\<exists>ys s'. traverse f xs s = Some (ys, s') \<and> length ys = length xs \<and> (\<forall>y \<in> set ys. P y)"
  using assms
proof (induction xs arbitrary: s)
  case (Cons x xs)
  obtain y s1 where "f x s = Some (y, s1)" "P y" using Cons.prems [of x s] by auto
  moreover obtain ys s2 where "traverse f xs s1 = Some (ys, s2)" "length ys = length xs" "\<forall>y \<in> set ys. P y"
    using Cons.IH [of s1] Cons.prems by auto
  ultimately show ?case by simp
qed simp

definition sound_total :: "source_module list \<Rightarrow> nat" where
  "sound_total ms = length (concat (map (\<lambda>m. program_sounds (md_program m)) ms))"

lemma sound_handles_cover:
  assumes "sound_handles ms = Some handles" and "m \<in> set ms" and "sound \<in> set (program_sounds (md_program m))"
  shows "hm_get handles (sound_name sound) \<noteq> None"
proof -
  let ?names = "sort (concat (map (\<lambda>m. map sound_name (program_sounds (md_program m))) ms))"
  have "length ?names = length (map int [1..<length ?names + 1])"
    by (simp only: length_map length_upt add_diff_cancel_right')
  moreover have "handles = hm_collect (zip ?names (map int [1..<length ?names + 1]))"
    using assms(1) by (simp add: sound_handles_def Let_def split: if_splits)
  moreover have "sound_name sound \<in> set ?names" using assms(2,3) by auto
  ultimately show ?thesis
    by (simp only: hm_get_def hm_collect_def map_of_eq_None_iff set_rev map_fst_zip flip: set_map) simp
qed

lemma sound_handles_None: "sound_handles ms = None \<longleftrightarrow> 2 ^ 31 \<le> sound_total ms"
proof -
  have "length (concat (map (\<lambda>m. map sound_name (program_sounds (md_program m))) ms)) = sound_total ms"
    by (simp add: sound_total_def length_concat comp_def)
  then show ?thesis by (simp add: sound_handles_def Let_def not_less)
qed

lemma as_parsed_sounds [simp]: "as_parsed (p\<lparr>program_sounds := ss\<rparr>) = as_parsed p"
  by (simp add: as_parsed_iff)

lemma as_parsed_with_sound_constants [simp]: "as_parsed (with_sound_constants p) = as_parsed p"
  by (auto simp: as_parsed_iff with_sound_constants_def sound_constant_def type_written_def list_all_iff)

lemma as_parsed_append: "as_parsed p \<Longrightarrow> as_parsed q \<Longrightarrow> as_parsed (append_program p q)"
  by (simp add: as_parsed_iff append_program_def)

lemma flatten_modules_as_parsed:
  assumes "ms \<noteq> []" and "\<forall>m \<in> set ms. as_parsed (md_program m)"
  shows "\<exists>p. flatten_modules ms = Some p \<and> as_parsed p"
proof -
  have "as_parsed (foldl append_program root ps)" if "as_parsed root" "\<forall>p \<in> set ps. as_parsed p" for root ps
    using that by (induction ps arbitrary: root) (auto intro: as_parsed_append)
  then show ?thesis using assms by (cases ms) (auto simp: flatten_modules_def)
qed

lemma load_sounds_returns:
  assumes "ms \<noteq> []" and "\<forall>m \<in> set ms. as_parsed (md_program m)"
  shows "case load_sounds fs ms sources of None \<Rightarrow> 2 ^ 31 \<le> sound_total ms | Some (Inl ds, _) \<Rightarrow> ds \<noteq> []
    | Some (Inr p, _) \<Rightarrow> as_parsed p"
proof (cases "sound_handles ms")
  case None
  then have "2 ^ 31 \<le> sound_total ms" by (simp only: sound_handles_None)
  then show ?thesis using None by (simp add: load_sounds_def)
next
  case (Some handles)
  have "\<exists>m' st'. load_module_sounds fs handles m st = Some (m', st') \<and> as_parsed (md_program m')"
    if m: "m \<in> set ms" for m st
  proof -
    have "\<exists>y st'. load_sound fs handles (md_directory m) sound st = Some (y, st') \<and> True"
      if sound: "sound \<in> set (program_sounds (md_program m))" for sound st
      using sound_handles_cover [OF Some m sound] by (auto simp: load_sound_def Let_def split: prod.split sum.split)
    from traverse_returns [of "program_sounds (md_program m)" "load_sound fs handles (md_directory m)", OF this] obtain ss st' where
      "traverse (load_sound fs handles (md_directory m)) (program_sounds (md_program m)) st = Some (ss, st')" by blast
    then show ?thesis using assms(2) m by (simp add: load_module_sounds_def)
  qed
  from traverse_returns [of ms "load_module_sounds fs handles" "\<lambda>m. as_parsed (md_program m)" "(sources, [])"] this
  obtain ys st where "traverse (load_module_sounds fs handles) ms (sources, []) = Some (ys, st) \<and> length ys = length ms \<and>
      (\<forall>y \<in> set ys. as_parsed (md_program y))" by blast
  then obtain ms' s' ds where t: "traverse (load_module_sounds fs handles) ms (sources, []) = Some (ms', s', ds)"
      and ms': "length ms' = length ms" "\<forall>m \<in> set ms'. as_parsed (md_program m)"
    by (cases st) auto
  have "ms' \<noteq> []" using ms'(1) assms(1) by auto
  from flatten_modules_as_parsed [OF this ms'(2)] show ?thesis
    using t by (auto simp: load_sounds_def Some)
qed

section \<open>The whole pipeline\<close>

text \<open>The modules of a program, resolved.\<close>

definition resolved_program :: "file_system \<Rightarrow> string \<Rightarrow> source_module list \<Rightarrow> bool" where
  "resolved_program fs path ms \<longleftrightarrow>
     (\<exists>i l files parsed. visit_root fs path = Some (Ok i, l) \<and> unwrap_all (ld_modules l) = Some files \<and>
        parse_modules (map (declared_struct_names \<circ> lm_tokens) files) 0 files = Some (Ok parsed) \<and>
        resolve_modules parsed = Some (Ok ms))"

lemma load_program_returns:
  assumes "file_system_sane fs"
  shows "case load_program fs path of None \<Rightarrow> \<exists>ms. resolved_program fs path ms \<and> 2 ^ 31 \<le> sound_total ms
    | Some (Inl ds, _) \<Rightarrow> ds \<noteq> [] | Some (Inr p, _) \<Rightarrow> as_parsed p"
proof -
  obtain r l where root: "visit_root fs path = Some (r, l)"
    using visit_root_graph [OF assms, of path] by (auto split: option.splits)
  show ?thesis
  proof (cases r)
    case (Inl ds)
    then show ?thesis using visit_root_graph [OF assms, of path] root by (simp add: load_program_def)
  next
    case (Inr i)
    then obtain files where files: "unwrap_all (ld_modules l) = Some files" "import_graph_ok files"
      using visit_root_graph [OF assms, of path] root by auto
    let ?names = "map (declared_struct_names \<circ> lm_tokens) files"
    have "\<forall>m \<in> set files. (\<exists>src. tokens_ok src (lm_tokens m)) \<and> (\<forall>(imported, t) \<in> set (lm_imports m). t < length ?names)"
      using files(2) by (fastforce simp: import_graph_ok_def)
    from parse_modules_returns [OF this, of 0, unfolded length_map] obtain q where q: "parse_modules ?names 0 files = Some q"
      and parsed: "case q of Inl ds \<Rightarrow> ds \<noteq> [] | Inr ms \<Rightarrow> length ms = length files \<and> (\<forall>m \<in> set ms. parsed_module (length files) m)"
      by (auto split: option.splits)
    show ?thesis
    proof (cases q)
      case (Inl ds)
      then show ?thesis using parsed q files(1) root Inr by (simp add: load_program_def assemble_def)
    next
      case (Inr ms)
      then have ms: "length ms = length files" "\<forall>m \<in> set ms. parsed_module (length ms) m" using parsed by auto
      obtain w where w: "resolve_modules ms = Some w" "\<forall>ds. w = Err ds \<longrightarrow> ds \<noteq> []"
        using resolve_modules_returns [OF ms(2)] by blast
      show ?thesis
      proof (cases w)
        case (Inl ds)
        then show ?thesis using w q Inr \<open>r = Inr i\<close> files(1) root by (simp add: load_program_def assemble_def)
      next
        case (Inr ms')
        have resolved: "resolve_modules ms = Some (Ok ms')" using w(1) Inr by simp
        have "\<forall>m \<in> set ms. as_parsed (md_program m)" using ms(2) by (auto simp: parsed_module_def)
        note shaped = resolve_modules_as_parsed [OF resolved this]
        have "files \<noteq> []" using files(2) by (simp add: import_graph_ok_def)
        then have "ms' \<noteq> []" using shaped(1) ms(1) by auto
        from load_sounds_returns [OF this shaped(2), of fs "ld_sources l"]
        have load: "case load_sounds fs ms' (ld_sources l) of None \<Rightarrow> 2 ^ 31 \<le> sound_total ms' | Some (Inl ds, _) \<Rightarrow> ds \<noteq> []
          | Some (Inr p, _) \<Rightarrow> as_parsed p" .
        have "resolved_program fs path ms'"
          using root \<open>r = Inr i\<close> files(1) q \<open>q = Inr ms\<close> resolved unfolding resolved_program_def by blast
        moreover have "load_program fs path = load_sounds fs ms' (ld_sources l)"
          using root \<open>r = Inr i\<close> files(1) q \<open>q = Inr ms\<close> resolved by (simp add: load_program_def assemble_def)
        ultimately show ?thesis using load by (auto split: option.splits)
      qed
    qed
  qed
qed

text \<open>
  C5 Compilation of a file with its imports and sounds is total on every sane file system: visit, parser,
  name resolution, asset loader, checker and code generator together neither panic nor loop, short of a program
  with 2^31 sounds, whose handles do not fit; a rejection carries a diagnostic, and a module is
  emitted for every program that is accepted, which is well formed.
\<close>

theorem compile_path_total:
  assumes "file_system_sane fs"
  shows "case compile_path_to_llvm_for_target fs path triple of
           None \<Rightarrow> \<exists>ms. resolved_program fs path ms \<and> 2 ^ 31 \<le> sound_total ms
         | Some (Inl e) \<Rightarrow> ae_diagnostics e \<noteq> []
         | Some (Inr module) \<Rightarrow> \<exists>checked values. analyze_path fs path = Some (Ok checked) \<and> program_ok (checked_ast checked) values"
proof (cases "load_program fs path")
  case None
  then show ?thesis
    using load_program_returns [OF assms, of path]
    by (simp add: compile_path_to_llvm_for_target_def compiled_with_def analyze_path_def)
next
  case (Some loaded)
  obtain r sources where loaded: "loaded = (r, sources)" by (cases loaded)
  show ?thesis
  proof (cases r)
    case (Inl ds)
    then show ?thesis
      using load_program_returns [OF assms, of path] Some loaded
      by (simp add: compile_path_to_llvm_for_target_def compiled_with_def analyze_path_def)
  next
    case (Inr ast)
    then have parsed: "as_parsed ast" using load_program_returns [OF assms, of path] Some loaded by simp
    have path: "analyze_path fs path = validate_program ast sources"
      using Some loaded Inr by (simp add: analyze_path_def)
    obtain v where v: "validate_program ast sources = Some v" and ok: "case v of Inl e \<Rightarrow> ae_diagnostics e \<noteq> []
      | Inr checked \<Rightarrow> (\<exists>module. emit_for_target (checked_ast checked) (Some triple) = Some module) \<and>
          (\<exists>values. program_ok (checked_ast checked) values)"
      using validated_program_total [OF parsed] by blast
    show ?thesis
      using ok by (cases v) (auto simp: compile_path_to_llvm_for_target_def compiled_with_def path v)
  qed
qed

end
