(* ===== verification/Watch.thy ===== *)
theory Watch
  imports Session Modules_Total "HOL-Library.AList"
begin

text \<open>
  The watcher, \<^verbatim>\<open>src/src/dev/watch.rs\<close>: it polls the files of the last analysis and restarts the
  game on stable edits. What the file system shows and what the operating system answers at a turn of the loop is
  a record of that turn; other threads change the frames and the controls between the turns. Times are in
  milliseconds.
\<close>

section \<open>Stamps\<close>

record metadata_stamp =
  ms_length :: "64 word"
  ms_modified :: "(string, int) result"
  ms_is_file :: bool
  ms_is_directory :: bool
  ms_device :: "64 word"
  ms_inode :: "64 word"
  ms_mode :: "32 word"
  ms_changed_seconds :: "64 word"
  ms_changed_nanoseconds :: "64 word"

datatype observation =
    Contents "(string, string) result"
  | Metadata "(string, metadata_stamp) result"

record stamp =
  st_target :: "string option"
  st_observation :: observation

text \<open>The disk at one look: the canonical path, the bytes, and the metadata of a path, an error being its kind.\<close>

record disk =
  dk_canonicalize :: "string \<Rightarrow> string option"
  dk_read :: "string \<Rightarrow> (string, string) result"
  dk_metadata :: "string \<Rightarrow> (string, metadata_stamp) result"

definition stamp_contents :: "disk \<Rightarrow> string \<Rightarrow> stamp" where
  "stamp_contents d path = \<lparr>st_target = dk_canonicalize d path, st_observation = Contents (dk_read d path)\<rparr>"

definition stamp_metadata :: "disk \<Rightarrow> string \<Rightarrow> stamp" where
  "stamp_metadata d path = \<lparr>st_target = dk_canonicalize d path, st_observation = Metadata (dk_metadata d path)\<rparr>"

definition stamp_refresh :: "disk \<Rightarrow> string \<Rightarrow> stamp \<Rightarrow> stamp" where
  "stamp_refresh d path st =
     (case st_observation st of Contents _ \<Rightarrow> stamp_contents d path | Metadata _ \<Rightarrow> stamp_metadata d path)"

definition observed_contents :: "stamp \<Rightarrow> (string, string) result option" where
  "observed_contents st = (case st_observation st of Contents c \<Rightarrow> Some c | Metadata _ \<Rightarrow> None)"

section \<open>Snapshots\<close>

text \<open>A map from paths to stamps; nothing depends on the order of its entries.\<close>

type_synonym snapshot = "(string \<times> stamp) list"

definition current :: "disk \<Rightarrow> snapshot \<Rightarrow> snapshot" where
  "current d previous = map (\<lambda>(path, st). (path, stamp_refresh d path st)) previous"

definition is_source_path :: "source_map \<Rightarrow> string \<Rightarrow> bool" where
  "is_source_path sources path \<longleftrightarrow> path \<in> set (map sf_path (sm_files sources))"

definition dependency_stamp :: "disk \<Rightarrow> source_map \<Rightarrow> string \<Rightarrow> stamp" where
  "dependency_stamp d sources path =
     (if is_source_path sources path then stamp_contents d path else stamp_metadata d path)"

text \<open>The text an analysis used for a file is what its stamp observed.\<close>

definition observed_text :: "snapshot \<Rightarrow> source_file \<Rightarrow> bool" where
  "observed_text seen f \<longleftrightarrow> Option.bind (map_of seen (sf_path f)) observed_contents = Some (Ok (sf_text f))"

definition after_analysis :: "disk \<Rightarrow> source_map \<Rightarrow> snapshot \<Rightarrow> bool \<Rightarrow> snapshot \<times> bool" where
  "after_analysis d sources before_it success =
     (let start = (if success then [] else current d before_it);
          seen = fold (\<lambda>path. AList.update path (dependency_stamp d sources path)) (sm_dependencies sources) start
      in (seen,
          (\<exists>(path, st) \<in> set seen. map_of before_it path \<noteq> Some st)
          \<or> (\<exists>f \<in> set (sm_files sources). \<not> observed_text seen f)))"

section \<open>The loop\<close>

definition POLL :: nat where
  "POLL = 100"

definition QUIET :: nat where
  "QUIET = 200"

record watch_state =
  ws_session :: session
  ws_snapshot :: snapshot
  ws_rebuild :: bool
  ws_changed_at :: "nat option"

text \<open>
  The answers met in one turn, in the order the turn asks: what other threads did since the last one; whether it
  is cancelled and what the server reports; the rebuild, with the disk before the analysis, the file system the
  analysis reads, the disk after it, the build of a module at a resolution, the disk after the build; the game;
  and the disk and the clock at the end.
\<close>

record turn =
  tn_frames :: "frame_state \<Rightarrow> frame_state"
  tn_controls :: "input_control \<Rightarrow> input_control"
  tn_cancelled :: bool
  tn_fatal :: "string option"
  tn_stop_rebuild :: stop_env
  tn_disk_before :: disk
  tn_files :: file_system
  tn_disk_analyzed :: disk
  tn_build :: "string \<Rightarrow> resolution \<Rightarrow> (string, string) result"
  tn_disk_built :: disk
  tn_cancelled_built :: bool
  tn_launch :: launch_env
  tn_poll :: poll_env
  tn_stop_exit :: stop_env
  tn_disk_end :: disk
  tn_stop_edit :: stop_env
  tn_changed_time :: nat
  tn_check_time :: nat

datatype flow = Proceed | Continue | Break | Raise string

definition ws_update_session :: "(session \<Rightarrow> session) \<Rightarrow> watch_state \<Rightarrow> watch_state" where
  "ws_update_session f ws = ws\<lparr>ws_session := f (ws_session ws)\<rparr>"

definition interfere :: "turn \<Rightarrow> session \<Rightarrow> session" where
  "interfere t sn = sn\<lparr>sn_frames := tn_frames t (sn_frames sn), sn_controls := tn_controls t (sn_controls sn)\<rparr>"

definition stop_for_edit :: "stop_env \<Rightarrow> session \<Rightarrow> session" where
  "stop_for_edit env sn = snd (stop_game env sn)"

definition begin_rebuild :: "turn \<Rightarrow> watch_state \<Rightarrow> watch_state" where
  "begin_rebuild t ws =
     (ws_update_session (\<lambda>sn. set_viewer VsBuilding (stop_for_edit (tn_stop_rebuild t) sn)) ws)
       \<lparr>ws_rebuild := False, ws_changed_at := None\<rparr>"

definition launch_built :: "turn \<Rightarrow> (string, string) result \<Rightarrow> watch_state \<Rightarrow> watch_state \<times> flow" where
  "launch_built t built ws =
     (case built of
        Inr executable \<Rightarrow>
          (case launch (tn_launch t) executable (ws_session ws) of
             Inl e \<Rightarrow> (ws, Raise e)
           | Inr sn \<Rightarrow> (ws\<lparr>ws_session := sn\<rparr>, Proceed))
      | Inl e \<Rightarrow> (ws_update_session (set_viewer VsBuildFailed) ws, Proceed))"

definition rebuild_checked :: "string \<Rightarrow> turn \<Rightarrow> snapshot \<Rightarrow> checked_program \<Rightarrow> watch_state \<Rightarrow> (watch_state \<times> flow) option" where
  "rebuild_checked triple t before_it checked ws =
     (let (seen, changed) = after_analysis (tn_disk_analyzed t) (checked_sources checked) before_it True;
          ws = ws\<lparr>ws_snapshot := seen\<rparr>
      in if changed then Some (ws\<lparr>ws_rebuild := True\<rparr>, Continue)
         else case emit_for_development (checked_ast checked) (checked_sources checked) (Some triple) of
                None \<Rightarrow> None
              | Some llvm \<Rightarrow>
                  let built = tn_build t llvm (program_resolution (checked_ast checked))
                  in if current (tn_disk_built t) seen \<noteq> seen then Some (ws\<lparr>ws_rebuild := True\<rparr>, Continue)
                     else if tn_cancelled_built t then Some (ws, Break)
                     else Some (launch_built t built ws))"

definition rebuild_rejected :: "turn \<Rightarrow> snapshot \<Rightarrow> analysis_error \<Rightarrow> watch_state \<Rightarrow> watch_state \<times> flow" where
  "rebuild_rejected t before_it error ws =
     (let (seen, changed) = after_analysis (tn_disk_analyzed t) (ae_sources error) before_it False
      in (ws_update_session (set_viewer VsBuildFailed) (ws\<lparr>ws_snapshot := seen, ws_rebuild := changed\<rparr>), Proceed))"

definition rebuild_phase :: "string \<Rightarrow> string \<Rightarrow> turn \<Rightarrow> watch_state \<Rightarrow> (watch_state \<times> flow) option" where
  "rebuild_phase path triple t ws =
     (if \<not> ws_rebuild ws then Some (ws, Proceed)
      else let ws = begin_rebuild t ws; before_it = current (tn_disk_before t) (ws_snapshot ws)
           in case analyze_path (tn_files t) path of
                None \<Rightarrow> None
              | Some (Inr checked) \<Rightarrow> rebuild_checked triple t before_it checked ws
              | Some (Inl error) \<Rightarrow> Some (rebuild_rejected t before_it error ws))"

definition poll_phase :: "turn \<Rightarrow> watch_state \<Rightarrow> watch_state" where
  "poll_phase t ws =
     (if sn_game (ws_session ws) = None then ws
      else case poll_game (tn_poll t) (ws_session ws) of
             Inr None \<Rightarrow> ws
           | _ \<Rightarrow> ws_update_session (\<lambda>sn. set_viewer VsWatching (stop_for_edit (tn_stop_exit t) sn)) ws)"

definition observe_phase :: "turn \<Rightarrow> watch_state \<Rightarrow> watch_state" where
  "observe_phase t ws =
     (let seen = current (tn_disk_end t) (ws_snapshot ws)
      in if seen = ws_snapshot ws then ws
         else (ws_update_session (\<lambda>sn. set_viewer VsBuilding (stop_for_edit (tn_stop_edit t) sn)) ws)
                \<lparr>ws_snapshot := seen, ws_changed_at := Some (tn_changed_time t)\<rparr>)"

definition debounce :: "turn \<Rightarrow> watch_state \<Rightarrow> watch_state" where
  "debounce t ws =
     (case ws_changed_at ws of
        Some time \<Rightarrow> if QUIET \<le> tn_check_time t - time then ws\<lparr>ws_rebuild := True\<rparr> else ws
      | None \<Rightarrow> ws)"

text \<open>One turn of the loop; it goes on, ends, or fails. None is a panic of the emission.\<close>

definition watch_turn :: "string \<Rightarrow> string \<Rightarrow> turn \<Rightarrow> watch_state \<Rightarrow> (watch_state \<times> flow) option" where
  "watch_turn path triple t ws =
     (let ws = ws_update_session (interfere t) ws
      in if tn_cancelled t then Some (ws, Break)
         else case tn_fatal t of
                Some e \<Rightarrow> Some (ws, Raise e)
              | None \<Rightarrow>
                  (case rebuild_phase path triple t ws of
                     Some (ws, Proceed) \<Rightarrow> Some (debounce t (observe_phase t (poll_phase t ws)), Continue)
                   | other \<Rightarrow> other))"

fun watch_turns :: "string \<Rightarrow> string \<Rightarrow> turn list \<Rightarrow> watch_state \<Rightarrow> (watch_state \<times> flow) option" where
  "watch_turns path triple [] ws = Some (ws, Continue)"
| "watch_turns path triple (t # ts) ws =
     (case watch_turn path triple t ws of
        Some (ws, Continue) \<Rightarrow> watch_turns path triple ts ws
      | other \<Rightarrow> other)"

definition watch_start :: "disk \<Rightarrow> string \<Rightarrow> session \<Rightarrow> watch_state" where
  "watch_start d path sn =
     \<lparr>ws_session = sn, ws_snapshot = [(path, stamp_contents d path)], ws_rebuild = True, ws_changed_at = None\<rparr>"

text \<open>The result of \<open>run\<close>; none while the turns given have not ended it.\<close>

definition watch_run ::
  "string \<Rightarrow> string \<Rightarrow> (string, session) result \<Rightarrow> disk \<Rightarrow> turn list \<Rightarrow> string option \<Rightarrow> stop_env \<Rightarrow>
   (string, unit) result option option" where
  "watch_run path triple started d turns fatal final =
     (case started of
        Inl e \<Rightarrow> Some (Some (Err e))
      | Inr sn \<Rightarrow>
          map_option (\<lambda>(ws, ended).
            (case ended of
               Raise e \<Rightarrow> Some (Err e)
             | Break \<Rightarrow> Some (case fatal of Some e \<Rightarrow> Err e | None \<Rightarrow> fst (stop_game final (ws_session ws)))
             | _ \<Rightarrow> None))
          (watch_turns path triple turns (watch_start d path sn)))"

end
