(* ===== verification/Modules_Closure.thy ===== *)
theory Modules_Closure
  imports Modules_Total
begin

text \<open>
  The dependencies that the loader records are all that an analysis reads: whatever else changes on the file
  system, the analysis of the same path has the same outcome. This is what the watcher of the development session
  relies on when it polls these paths and no others.
\<close>

section \<open>Actions that only read what they record\<close>

definition agree_on :: "string set \<Rightarrow> file_system \<Rightarrow> file_system \<Rightarrow> bool" where
  "agree_on ps fs fs' \<longleftrightarrow>
     (\<forall>p \<in> ps. fs_canonicalize fs p = fs_canonicalize fs' p \<and> fs_read_to_string fs p = fs_read_to_string fs' p \<and>
        fs_metadata fs p = fs_metadata fs' p \<and> fs_open fs p = fs_open fs' p)"

definition deps_of :: "source_map \<Rightarrow> string set" where
  "deps_of m = set (sm_dependencies m)"

text \<open>Every file of the map is among the dependencies.\<close>

definition files_recorded :: "source_map \<Rightarrow> bool" where
  "files_recorded m \<longleftrightarrow> (\<forall>f \<in> set (sm_files m). sf_path f \<in> deps_of m)"

definition grows :: "source_map \<Rightarrow> source_map \<Rightarrow> bool" where
  "grows m m' \<longleftrightarrow> deps_of m \<subseteq> deps_of m' \<and> (files_recorded m \<longrightarrow> files_recorded m')"

lemma grows_refl [simp]: "grows m m"
  by (simp add: grows_def)

lemma grows_trans: "grows a b \<Longrightarrow> grows b c \<Longrightarrow> grows a c"
  by (auto simp: grows_def)

lemma agree_on_mono: "agree_on ps fs fs' \<Longrightarrow> qs \<subseteq> ps \<Longrightarrow> agree_on qs fs fs'"
  by (auto simp: agree_on_def)

lemma deps_of_record [simp]: "deps_of (record_dependency p m) = insert p (deps_of m)"
  by (auto simp: deps_of_def record_dependency_def)

lemma grows_record [simp]: "grows m (record_dependency p m)"
proof -
  have "sm_files (record_dependency p m) = sm_files m" by (simp add: record_dependency_def)
  then show ?thesis by (auto simp: grows_def files_recorded_def)
qed

text \<open>
  Where \<open>P\<close> is recorded, the action reads only what is recorded when it returns, and records \<open>Q\<close>.
\<close>

definition tracks :: "string set \<Rightarrow> (file_system \<Rightarrow> (loader, 'a) act) \<Rightarrow> ('a \<Rightarrow> string set) \<Rightarrow> bool" where
  "tracks P f Q \<longleftrightarrow>
     (\<forall>fs l r l'. P \<subseteq> deps_of (ld_sources l) \<longrightarrow> f fs l = Some (r, l') \<longrightarrow>
        grows (ld_sources l) (ld_sources l') \<and> (\<forall>a. r = Ok a \<longrightarrow> Q a \<subseteq> deps_of (ld_sources l')) \<and>
        (\<forall>fs'. agree_on (deps_of (ld_sources l')) fs fs' \<longrightarrow> f fs' l = Some (r, l')))"

lemma tracks_bind:
  assumes f: "tracks P f Q" and g: "\<And>a. tracks (P \<union> Q a) (g a) R"
  shows "tracks P (\<lambda>fs. abind (f fs) (\<lambda>a. g a fs)) R"
  unfolding tracks_def
proof (intro allI impI)
  fix fs l r l'
  assume P: "P \<subseteq> deps_of (ld_sources l)" and run: "abind (f fs) (\<lambda>a. g a fs) l = Some (r, l')"
  obtain r1 l1 where first: "f fs l = Some (r1, l1)" using run by (auto simp: abind_def split: option.splits)
  have first_ok: "grows (ld_sources l) (ld_sources l1)" "\<And>a. r1 = Ok a \<Longrightarrow> Q a \<subseteq> deps_of (ld_sources l1)"
    "\<And>fs'. agree_on (deps_of (ld_sources l1)) fs fs' \<Longrightarrow> f fs' l = Some (r1, l1)"
    using f P first unfolding tracks_def by blast+
  show "grows (ld_sources l) (ld_sources l') \<and> (\<forall>a. r = Ok a \<longrightarrow> R a \<subseteq> deps_of (ld_sources l')) \<and>
      (\<forall>fs'. agree_on (deps_of (ld_sources l')) fs fs' \<longrightarrow> abind (f fs') (\<lambda>a. g a fs') l = Some (r, l'))"
  proof (cases r1)
    case (Inl ds)
    then show ?thesis using run first first_ok by (auto simp: abind_def)
  next
    case (Inr a)
    then have second: "g a fs l1 = Some (r, l')" using run first by (simp add: abind_def)
    have "P \<union> Q a \<subseteq> deps_of (ld_sources l1)" using P first_ok(1,2) Inr by (auto simp: grows_def)
    then have second_ok: "grows (ld_sources l1) (ld_sources l')" "\<forall>a. r = Ok a \<longrightarrow> R a \<subseteq> deps_of (ld_sources l')"
      "\<And>fs'. agree_on (deps_of (ld_sources l')) fs fs' \<Longrightarrow> g a fs' l1 = Some (r, l')"
      using g [of a] second unfolding tracks_def by blast+
    moreover have "f fs' l = Some (Ok a, l1)" if "agree_on (deps_of (ld_sources l')) fs fs'" for fs'
      using first_ok(3) Inr agree_on_mono [OF that] second_ok(1) by (auto simp: grows_def)
    ultimately show ?thesis using grows_trans [OF first_ok(1)] by (auto simp: abind_def)
  qed
qed

lemma tracks_bind_pair:
  assumes "tracks P f (\<lambda>(c, _). Q c)" and "\<And>c x. tracks (P \<union> Q c) (g c x) R"
  shows "tracks P (\<lambda>fs. abind (f fs) (\<lambda>(c, x). g c x fs)) R"
  using tracks_bind [OF assms(1), of "\<lambda>p. g (fst p) (snd p)" R] assms(2) by (simp add: case_prod_unfold)

text \<open>An action that leaves the sources alone and does not look at the file system.\<close>

definition pure_act :: "(loader, 'a) act \<Rightarrow> bool" where
  "pure_act f \<longleftrightarrow> (\<forall>l r l'. f l = Some (r, l') \<longrightarrow> ld_sources l' = ld_sources l)"

lemma tracks_pure: "pure_act f \<Longrightarrow> tracks P (\<lambda>fs. f) (\<lambda>_. {})"
  by (auto simp: tracks_def pure_act_def)

lemma tracks_then:
  assumes "tracks P f (\<lambda>_. {})" and "\<And>a. tracks P (g a) R"
  shows "tracks P (\<lambda>fs. abind (f fs) (\<lambda>a. g a fs)) R"
  using tracks_bind [OF assms(1), of g R] assms(2) by simp

text \<open>Looking at the file system where it is recorded.\<close>

lemma tracks_view:
  assumes "\<And>x. tracks P (\<lambda>fs. h x) Q" and "p \<in> P" and "\<And>fs fs'. agree_on {p} fs fs' \<Longrightarrow> view fs = view fs'"
  shows "tracks P (\<lambda>fs. h (view fs)) Q"
  unfolding tracks_def
proof (intro allI impI)
  fix fs l r l'
  assume P: "P \<subseteq> deps_of (ld_sources l)" and run: "h (view fs) l = Some (r, l')"
  have ok: "grows (ld_sources l) (ld_sources l')" "\<forall>a. r = Ok a \<longrightarrow> Q a \<subseteq> deps_of (ld_sources l')"
    using assms(1) [of "view fs"] P run unfolding tracks_def by blast+
  moreover have "h (view fs') l = Some (r, l')" if "agree_on (deps_of (ld_sources l')) fs fs'" for fs'
  proof -
    have "{p} \<subseteq> deps_of (ld_sources l')" using assms(2) P ok(1) by (auto simp: grows_def)
    then show ?thesis using assms(3) [OF agree_on_mono [OF that]] run by simp
  qed
  ultimately show "grows (ld_sources l) (ld_sources l') \<and> (\<forall>a. r = Ok a \<longrightarrow> Q a \<subseteq> deps_of (ld_sources l')) \<and>
      (\<forall>fs'. agree_on (deps_of (ld_sources l')) fs fs' \<longrightarrow> h (view fs') l = Some (r, l'))" by blast
qed

lemma pure_acts [simp]:
  "pure_act (aret a)" "pure_act (afail ds)" "pure_act apanic" "pure_act (aget h)" "pure_act (aunwrap x)"
  "pure_act (aresult q)" "pure_act (acall c)" "pure_act (set_root_dir canonical)" "pure_act (import_heights imports)"
  "pure_act (enter_module canonical)" "pure_act (finish_module i m)"
  by (auto simp: pure_act_def aret_def afail_def apanic_def aget_def aunwrap_def aresult_def acall_def set_root_dir_def
      abind_def amodify_def import_heights_def enter_module_def finish_module_def Let_def split: option.splits sum.splits if_splits)

lemmas tracks_pures [intro] = pure_acts [THEN tracks_pure]

lemma tracks_if: "(b \<Longrightarrow> tracks P f Q) \<Longrightarrow> (\<not> b \<Longrightarrow> tracks P g Q) \<Longrightarrow> tracks P (\<lambda>fs. if b then f fs else g fs) Q"
  by (cases b) simp_all

section \<open>The visit\<close>

lemma tracks_record: "tracks P (\<lambda>fs. ld_record path) (\<lambda>_. {path})"
  by (auto simp: tracks_def ld_record_def amodify_def)

definition locate_at :: "string \<Rightarrow> span \<Rightarrow> (string, string) result \<Rightarrow> (loader, string \<times> nat option) act" where
  "locate_at path span found = locate_source \<lparr>fs_canonicalize = (\<lambda>_. found), fs_read_to_string = (\<lambda>_. Err []),
     fs_metadata = (\<lambda>_. Err []), fs_open = (\<lambda>_. Err [])\<rparr> path span"

lemma locate_source_at: "locate_source fs path span = locate_at path span (fs_canonicalize fs path)"
  by (simp add: locate_source_def locate_at_def)

lemma tracks_locate_at: "tracks P (\<lambda>fs. locate_at path span found) (\<lambda>(canonical, _). {canonical})"
  unfolding tracks_def locate_at_def locate_source_def
  by (auto simp: ld_record_def abind_def aret_def afail_def aunwrap_def apanic_def amodify_def
      split: option.splits sum.splits if_splits)

lemma tracks_locate: "path \<in> P \<Longrightarrow> tracks P (\<lambda>fs. locate_source fs path span) (\<lambda>(canonical, _). {canonical})"
  unfolding locate_source_at by (rule tracks_view [OF tracks_locate_at]) (auto simp: agree_on_def)

lemma tracks_read:
  "canonical \<in> P \<Longrightarrow> tracks P (\<lambda>fs. aresult (map_error h (fs_read_to_string fs canonical))) (\<lambda>_. {})"
  by (rule tracks_view [where h = "\<lambda>x. aresult (map_error h x)"]) (auto simp: agree_on_def)

lemma tracks_add: "p \<in> P \<Longrightarrow> tracks P (\<lambda>fs. add_source p text) (\<lambda>_. {})"
  by (auto simp: tracks_def add_source_def source_add_def grows_def deps_of_def files_recorded_def)

lemma tracks_open: "path \<in> P \<Longrightarrow> canonical \<in> P \<Longrightarrow> tracks P (\<lambda>fs. open_module fs path canonical span) (\<lambda>_. {})"
  unfolding open_module_def by (intro tracks_then tracks_read tracks_add tracks_pures) simp_all

lemma tracks_imports:
  assumes "\<And>path at_span. tracks P (\<lambda>fs. v fs path at_span) (\<lambda>_. {})"
  shows "tracks P (\<lambda>fs. visit_imports (v fs) canonical aliases headers) (\<lambda>_. {})"
  by (induction headers arbitrary: aliases) (auto intro!: tracks_then tracks_if assms)

lemma tracks_visit_module:
  assumes "\<And>path at_span. tracks P (\<lambda>fs. v fs path at_span) (\<lambda>_. {})" and "path \<in> P" and "canonical \<in> P"
  shows "tracks P (\<lambda>fs. visit_module fs (v fs) path canonical span) (\<lambda>_. {})"
  unfolding visit_module_def
  by (intro tracks_then tracks_open assms(2,3)) (auto split: prod.split intro!: tracks_then tracks_imports assms(1))

lemma tracks_visit: "tracks P (\<lambda>fs. visit fs room path at_span) (\<lambda>_. {})"
proof (induction room arbitrary: P path at_span)
  case 0
  then show ?case by auto
next
  case (Suc room)
  have found: "tracks (P \<union> {path} \<union> {c}) (\<lambda>fs. case cached of Some i \<Rightarrow> aret i | None \<Rightarrow> visit_module fs (visit fs room) path c span) (\<lambda>_. {})"
    for c cached span
    by (cases cached) (auto intro!: tracks_visit_module Suc)
  show ?case
    unfolding visit.simps visit_with_def Let_def
    by (rule tracks_bind [OF tracks_record], rule tracks_bind_pair [OF tracks_locate], simp, rule found)
qed

section \<open>The sounds\<close>

lemma read_asset_agrees: "agree_on ps fs fs' \<Longrightarrow> c \<in> ps \<Longrightarrow> read_asset fs' path c = read_asset fs path c"
proof -
  assume "agree_on ps fs fs'" and "c \<in> ps"
  then have "fs_metadata fs' c = fs_metadata fs c" "fs_open fs' c = fs_open fs c" by (simp_all add: agree_on_def)
  then show ?thesis by (simp only: read_asset_def)
qed

lemma load_asset_tracks:
  assumes "load_asset fs path m = (r, m')"
  shows "grows m m' \<and> (\<forall>fs'. agree_on (deps_of m') fs fs' \<longrightarrow> load_asset fs' path m = (r, m'))"
proof -
  have path: "fs_canonicalize fs' path = fs_canonicalize fs path" if "agree_on (deps_of m') fs fs'" for fs'
  proof -
    have "path \<in> deps_of m'" using assms by (auto simp: load_asset_def Let_def split: sum.splits)
    then show ?thesis using that by (simp add: agree_on_def)
  qed
  show ?thesis
  proof (cases "fs_canonicalize fs path")
    case (Inl e)
    then have "r = Err (unreadable_asset path e)" "m' = record_dependency path m" using assms by (simp_all add: load_asset_def Let_def)
    then show ?thesis using path Inl by (simp add: load_asset_def Let_def)
  next
    case (Inr c)
    then have m': "r = read_asset fs path c" "m' = record_dependency c (record_dependency path m)"
      using assms by (simp_all add: load_asset_def Let_def)
    have "load_asset fs' path m = (r, m')" if "agree_on (deps_of m') fs fs'" for fs'
      using path [OF that] read_asset_agrees [OF that, of c path] Inr m' by (simp add: load_asset_def Let_def)
    then show ?thesis using m' grows_trans [OF grows_record grows_record] by simp
  qed
qed

text \<open>The same for the loops over the sounds, whose state is the sources and the diagnostics.\<close>

definition tracks_state ::
  "(file_system \<Rightarrow> 'a \<Rightarrow> source_map \<times> diagnostic list \<Rightarrow> ('b \<times> source_map \<times> diagnostic list) option) \<Rightarrow> bool" where
  "tracks_state f \<longleftrightarrow>
     (\<forall>fs x m ds y m' ds'. f fs x (m, ds) = Some (y, m', ds') \<longrightarrow>
        grows m m' \<and> (\<forall>fs'. agree_on (deps_of m') fs fs' \<longrightarrow> f fs' x (m, ds) = Some (y, m', ds')))"

lemma tracks_stateD:
  assumes "tracks_state f" and "f fs x (m, ds) = Some (y, m', ds')"
  shows "grows m m'" and "agree_on (deps_of m') fs fs' \<Longrightarrow> f fs' x (m, ds) = Some (y, m', ds')"
  using assms unfolding tracks_state_def by blast+

lemma tracks_load_sound: "tracks_state (\<lambda>fs. load_sound fs handles directory)"
  unfolding tracks_state_def
proof (intro allI impI)
  fix fs and sound :: sound_asset and m ds y m' ds'
  assume run: "load_sound fs handles directory sound (m, ds) = Some (y, m', ds')"
  let ?path = "path_join directory (sound_path sound)"
  obtain r a where asset: "load_asset fs ?path m = (r, a)" by (cases "load_asset fs ?path m")
  note ok = load_asset_tracks [OF asset]
  show "grows m m' \<and> (\<forall>fs'. agree_on (deps_of m') fs fs' \<longrightarrow> load_sound fs' handles directory sound (m, ds) = Some (y, m', ds'))"
  proof (cases "is_absolute (sound_path sound)")
    case True
    then show ?thesis using run by (auto simp: load_sound_def Let_def split: option.splits)
  next
    case False
    then have "m' = a" using run asset by (auto simp: load_sound_def Let_def split: option.splits sum.splits)
    then show ?thesis using run ok asset False by (auto simp: load_sound_def Let_def split: option.splits)
  qed
qed

lemma tracks_traverse:
  assumes "tracks_state f"
  shows "tracks_state (\<lambda>fs. traverse (f fs))"
proof -
  have "grows m m' \<and> (\<forall>fs'. agree_on (deps_of m') fs fs' \<longrightarrow> traverse (f fs') xs (m, ds) = Some (ys, m', ds'))"
    if "traverse (f fs) xs (m, ds) = Some (ys, m', ds')" for fs xs m ds ys m' ds'
    using that
  proof (induction xs arbitrary: m ds ys)
    case (Cons x xs)
    obtain y m1 ds1 where first: "f fs x (m, ds) = Some (y, m1, ds1)"
      using Cons.prems by (cases "f fs x (m, ds)") auto
    then obtain zs where run: "traverse (f fs) xs (m1, ds1) = Some (zs, m', ds')" "ys = y # zs"
      using Cons.prems by auto
    have rest: "grows m1 m'" "\<And>fs'. agree_on (deps_of m') fs fs' \<Longrightarrow> traverse (f fs') xs (m1, ds1) = Some (zs, m', ds')"
      using Cons.IH [OF run(1)] by blast+
    note step = tracks_stateD [OF assms first]
    have "traverse (f fs') (x # xs) (m, ds) = Some (ys, m', ds')" if "agree_on (deps_of m') fs fs'" for fs'
    proof -
      have "agree_on (deps_of m1) fs fs'" using agree_on_mono [OF that] rest(1) by (simp add: grows_def)
      then show ?thesis using step(2) rest(2) [OF that] run(2) by simp
    qed
    then show ?case using grows_trans [OF step(1) rest(1)] by blast
  qed simp
  then show ?thesis unfolding tracks_state_def by blast
qed

lemma tracks_module_sounds: "tracks_state (\<lambda>fs. load_module_sounds fs handles)"
  unfolding tracks_state_def
proof (intro allI impI)
  fix fs x m ds y m' ds'
  assume run: "load_module_sounds fs handles x (m, ds) = Some (y, m', ds')"
  then obtain sounds where sounds: "traverse (load_sound fs handles (md_directory x)) (program_sounds (md_program x)) (m, ds) = Some (sounds, m', ds')"
    "y = x\<lparr>md_program := (md_program x)\<lparr>program_sounds := sounds\<rparr>\<rparr>"
    by (auto simp: load_module_sounds_def)
  note ok = tracks_stateD [OF tracks_traverse [OF tracks_load_sound] sounds(1)]
  have "load_module_sounds fs' handles x (m, ds) = Some (y, m', ds')" if "agree_on (deps_of m') fs fs'" for fs'
    using ok(2) [OF that] sounds(2) by (simp add: load_module_sounds_def)
  then show "grows m m' \<and> (\<forall>fs'. agree_on (deps_of m') fs fs' \<longrightarrow> load_module_sounds fs' handles x (m, ds) = Some (y, m', ds'))"
    using ok(1) by blast
qed

lemma load_sounds_tracks:
  assumes "load_sounds fs ms m = Some (r, m')"
  shows "grows m m' \<and> (\<forall>fs'. agree_on (deps_of m') fs fs' \<longrightarrow> load_sounds fs' ms m = Some (r, m'))"
proof -
  obtain handles ms' ds where h: "sound_handles ms = Some handles"
    and run: "traverse (load_module_sounds fs handles) ms (m, []) = Some (ms', m', ds)"
    using assms by (auto simp: load_sounds_def bind_eq_Some_conv split: if_splits)
  note ok = tracks_stateD [OF tracks_traverse [OF tracks_module_sounds] run]
  show ?thesis using assms ok h run by (auto simp: load_sounds_def)
qed

section \<open>The whole analysis\<close>

lemma assemble_tracks:
  assumes "assemble fs files m = Some (r, m')"
  shows "grows m m' \<and> (\<forall>fs'. agree_on (deps_of m') fs fs' \<longrightarrow> assemble fs' files m = Some (r, m'))"
proof (cases "\<exists>parsed ms. parse_modules (map (declared_struct_names \<circ> lm_tokens) files) 0 files = Some (Ok parsed) \<and> resolve_modules parsed = Some (Ok ms)")
  case True
  then obtain ms where same: "assemble fs' files m = load_sounds fs' ms m" for fs' by (auto simp: assemble_def)
  show ?thesis using load_sounds_tracks [of fs ms m r m'] assms by (simp add: same)
next
  case False
  then show ?thesis using assms by (auto simp: assemble_def split: option.splits sum.splits)
qed

lemma load_program_tracks:
  assumes "load_program fs path = Some (r, m)"
  shows "files_recorded m \<and> (\<forall>fs'. agree_on (deps_of m) fs fs' \<longrightarrow> load_program fs' path = Some (r, m))"
proof -
  obtain q l where root: "visit_root fs path = Some (q, l)"
    using assms by (auto simp: load_program_def split: option.splits)
  have "tracks {} (\<lambda>fs. visit fs (MAX_IMPORT_DEPTH + 1) path None) (\<lambda>_. {})" by (rule tracks_visit)
  then have visit: "grows (ld_sources loader_new) (ld_sources l)"
    "\<And>fs'. agree_on (deps_of (ld_sources l)) fs fs' \<Longrightarrow> visit_root fs' path = Some (q, l)"
    using root unfolding tracks_def visit_root_def by (metis empty_subsetI)+
  have "files_recorded (ld_sources loader_new)" by (simp add: files_recorded_def loader_new_def source_map_empty_def)
  then have recorded: "files_recorded (ld_sources l)" using visit(1) by (simp add: grows_def)
  show ?thesis
  proof (cases q)
    case (Inl ds)
    then show ?thesis using assms root visit(2) recorded by (simp add: load_program_def)
  next
    case (Inr i)
    then obtain files where files: "unwrap_all (ld_modules l) = Some files" and run: "assemble fs files (ld_sources l) = Some (r, m)"
      using assms root by (auto simp: load_program_def bind_eq_Some_conv)
    note ok = assemble_tracks [OF run]
    have "load_program fs' path = Some (r, m)" if "agree_on (deps_of m) fs fs'" for fs'
      using visit(2) [OF agree_on_mono [OF that]] ok that files Inr by (auto simp: load_program_def grows_def)
    then show ?thesis using ok recorded by (simp add: grows_def)
  qed
qed

definition analysis_sources :: "(analysis_error, checked_program) result \<Rightarrow> source_map" where
  "analysis_sources r = (case r of Inl e \<Rightarrow> ae_sources e | Inr checked \<Rightarrow> checked_sources checked)"

lemma validate_program_sources:
  assumes "validate_program ast m = Some r"
  shows "analysis_sources r = m"
proof -
  obtain ast' c where c: "check_program ast = Some (ast', c)" using assms by (auto simp: validate_program_def)
  show ?thesis using assms by (cases c) (auto simp: validate_program_def analysis_sources_def c)
qed

lemma analyze_path_tracks:
  assumes "analyze_path fs path = Some r"
  shows "files_recorded (analysis_sources r)"
    and "agree_on (deps_of (analysis_sources r)) fs fs' \<Longrightarrow> analyze_path fs' path = Some r"
proof -
  obtain q m where load: "load_program fs path = Some (q, m)"
    using assms by (auto simp: analyze_path_def split: option.splits)
  moreover have "analysis_sources r = m"
  proof (cases q)
    case (Inl ds)
    then show ?thesis using assms load by (auto simp: analyze_path_def analysis_sources_def)
  next
    case (Inr ast)
    then show ?thesis using assms load validate_program_sources by (simp add: analyze_path_def)
  qed
  ultimately show "files_recorded (analysis_sources r)"
    and "agree_on (deps_of (analysis_sources r)) fs fs' \<Longrightarrow> analyze_path fs' path = Some r"
    using load_program_tracks [OF load] assms by (auto simp: analyze_path_def)
qed

text \<open>
  C10 The recorded dependencies determine an analysis: when the file system changes anywhere else, the analysis of
  the same path gives the same program, diagnostics and dependencies, and every file that was read is
  among them.
\<close>

theorem analysis_reads_its_dependencies:
  assumes "analyze_path fs path = Some r" and "agree_on (deps_of (analysis_sources r)) fs fs'"
  shows "analyze_path fs' path = Some r \<and> files_recorded (analysis_sources r)"
  using analyze_path_tracks [OF assms(1)] assms(2) by blast

text \<open>A game of its entry points only, in one file.\<close>

definition game_source :: string where
  "game_source = ''game '' @ [CHR 0x22] @ ''A'' @ [CHR 0x22] @ '' start{}update(dt:f32){}draw{}''"

definition game_span :: "nat \<Rightarrow> nat \<Rightarrow> span" where
  "game_span a b = \<lparr>span_source = 0, span_start = a, span_end = b\<rparr>"

definition game_tokens :: "token list" where
  "game_tokens = map (\<lambda>(k, a, b). \<lparr>token_kind = k, token_span = game_span a b\<rparr>)
    [(TkGame, 0, 4), (TkString ''A'', 5, 8), (TkStart, 9, 14), (TkLeftBrace, 14, 15), (TkRightBrace, 15, 16),
     (TkUpdate, 16, 22), (TkLeftParen, 22, 23), (TkIdentifier ''dt'', 23, 25), (TkColon, 25, 26), (TkF32, 26, 29),
     (TkRightParen, 29, 30), (TkLeftBrace, 30, 31), (TkRightBrace, 31, 32), (TkDraw, 32, 36), (TkLeftBrace, 36, 37),
     (TkRightBrace, 37, 38), (TkEof, 38, 38)]"

definition game_program :: program where
  "game_program =
     bare_program ''A'' (game_span 5 8) (game_span 9 16) (game_span 16 32) (game_span 23 25) (game_span 32 38)"

definition game_files :: file_system where
  "game_files =
     \<lparr>fs_canonicalize = (\<lambda>p. if p = ''/g.spk'' then Ok p else Err ''not found''),
      fs_read_to_string = (\<lambda>c. if c = ''/g.spk'' then Ok game_source else Err ''not found''),
      fs_metadata = (\<lambda>_. Err ''not found''), fs_open = (\<lambda>_. Err ''not found'')\<rparr>"

lemma game_files_sane: "file_system_sane game_files"
  by (auto simp: file_system_sane_def game_files_def game_source_def normal_path_def is_absolute_def path_parent_def Let_def
        utf8_valid.simps utf8_width_def byte_in_def byte_def split: if_splits)

definition game_sources :: source_map where
  "game_sources = snd (source_add ''/g.spk'' game_source (record_dependency ''/g.spk'' source_map_empty))"

definition game_checked :: checked_program where
  "game_checked = \<lparr>checked_ast = game_program, checked_sources = game_sources\<rparr>"

lemma game_lexed: "lex_in game_source 0 = Some (Ok game_tokens)"
  by code_simp

lemma game_headers: "import_headers game_tokens = Some (Ok [])"
  by code_simp

lemma game_parsed: "parse_file game_tokens True [] = Some (Ok game_program)"
  by code_simp

lemma depth_positive: "\<not> MAX_IMPORT_DEPTH < Suc 0"
  by (simp add: MAX_IMPORT_DEPTH_def)

lemma game_visited:
  "visit_root game_files ''/g.spk'' = Some (Ok 0,
     \<lparr>ld_sources = game_sources, ld_identities = [(''/g.spk'', 0)], ld_active = [],
      ld_modules = [Some \<lparr>lm_tokens = game_tokens, lm_height = 1, lm_imports = [], lm_qualifier = [], lm_directory = ''/''\<rparr>],
      ld_root_dir = ''/''\<rparr>)"
  using depth_positive
  by (simp add: visit_root_def visit_with_def record_dependency_def source_map_empty_def ld_record_def amodify_def abind_def loader_new_def
      locate_source_def game_files_def path_extension_def path_file_name_def Let_def hm_get_def aret_def
      visit_module_def open_module_def aresult_def map_error_def set_root_dir_def aget_def path_parent_def aunwrap_def
      module_qualifier_def add_source_def acall_def game_lexed game_headers source_add_def enter_module_def hm_insert_def
      import_heights_def max_or_zero_def finish_module_def game_sources_def)

theorem import_graph_accepted_witness:
  "\<exists>files l. visit_root game_files ''/g.spk'' = Some (Ok 0, l) \<and> unwrap_all (ld_modules l) = Some files \<and>
     import_graph_ok files \<and> length files = 1"
  using import_graph_accepted [OF game_files_sane, of "''/g.spk''"] by (auto simp: game_visited unwrap_all_def)

lemma game_loaded: "load_program game_files ''/g.spk'' = Some (Ok game_program, game_sources)"
proof -
  have "program_sounds game_program = []" "program_constants game_program = []"
    by (simp_all add: game_program_def bare_program_def)
  then show ?thesis
    by (simp add: load_program_def game_visited unwrap_all_def assemble_def imported_structs_def game_parsed resolve_modules_def
        load_sounds_def sound_handles_def hm_collect_def load_module_sounds_def flatten_modules_def with_sound_constants_def)
qed

lemma game_analyzed: "analyze_path game_files ''/g.spk'' = Some (Ok game_checked)"
  by (simp add: analyze_path_def game_loaded validate_program_def game_program_def bare_accepted game_checked_def)

lemma game_compiled: "\<exists>module. compile_path_to_llvm_for_target game_files ''/g.spk'' triple = Some (Ok module)"
proof -
  have "as_parsed game_program"
    using load_program_returns [OF game_files_sane, of "''/g.spk''"] by (simp add: game_loaded)
  moreover have "validate_program game_program game_sources = Some (Ok game_checked)"
    using game_analyzed by (simp add: analyze_path_def game_loaded)
  ultimately show ?thesis
    using validated_program_total [of game_program game_sources "Some triple"] game_analyzed
    by (auto simp: compile_path_to_llvm_for_target_def compiled_with_def)
qed

theorem compile_path_total_witness:
  "\<exists>module values. compile_path_to_llvm_for_target game_files ''/g.spk'' ''x86_64-unknown-linux-gnu'' = Some (Ok module) \<and>
     program_ok game_program values"
proof -
  obtain module where "compile_path_to_llvm_for_target game_files ''/g.spk'' ''x86_64-unknown-linux-gnu'' = Some (Ok module)"
    using game_compiled by blast
  then show ?thesis
    using compile_path_total [OF game_files_sane, of "''/g.spk''" "''x86_64-unknown-linux-gnu''"] game_analyzed
    by (auto simp: game_checked_def)
qed

theorem analysis_reads_its_dependencies_witness:
  "analyze_path (game_files\<lparr>fs_read_to_string := (\<lambda>c. if c = ''/g.spk'' then Ok game_source else Ok ''changed'')\<rparr>) ''/g.spk'' =
     Some (Ok game_checked)"
proof -
  let ?fs' = "game_files\<lparr>fs_read_to_string := (\<lambda>c. if c = ''/g.spk'' then Ok game_source else Ok ''changed'')\<rparr>"
  have "deps_of (analysis_sources (Ok game_checked)) = {''/g.spk''}"
    by (simp add: analysis_sources_def game_checked_def game_sources_def source_add_def record_dependency_def
        source_map_empty_def deps_of_def)
  then have "agree_on (deps_of (analysis_sources (Ok game_checked))) game_files ?fs'"
    by (simp add: agree_on_def game_files_def)
  from analysis_reads_its_dependencies [OF game_analyzed this] show ?thesis by blast
qed

end
