(* ===== verification/Watch_Correct.thy ===== *)
theory Watch_Correct
  imports Watch Modules_Closure
begin

text \<open>
  What the watcher promises: the game that runs was built from what the disk still shows at every look, and an
  edit that comes to rest is built and runs.
\<close>

section \<open>Snapshots of an analysis\<close>

lemma map_of_updates:
  "map_of (fold (\<lambda>p. AList.update p (g p)) ps al) q = (if q \<in> set ps then Some (g q) else map_of al q)"
  by (induction ps arbitrary: al) (auto simp: update_conv)

lemma distinct_updates:
  "distinct (map fst al) \<Longrightarrow> distinct (map fst (fold (\<lambda>p. AList.update p (g p)) ps al))"
  by (induction ps arbitrary: al) (auto simp: distinct_update)

definition closure_snapshot :: "disk \<Rightarrow> source_map \<Rightarrow> snapshot" where
  "closure_snapshot d sources = fst (after_analysis d sources [] True)"

lemma after_analysis_accepted: "fst (after_analysis d sources before_it True) = closure_snapshot d sources"
  by (simp add: closure_snapshot_def after_analysis_def Let_def)

lemma map_of_closure:
  "map_of (closure_snapshot d sources) p = (if p \<in> deps_of sources then Some (dependency_stamp d sources p) else None)"
  by (simp add: closure_snapshot_def after_analysis_def Let_def map_of_updates deps_of_def)

lemma closure_entries:
  "(p, st) \<in> set (closure_snapshot d sources) \<longleftrightarrow> p \<in> deps_of sources \<and> st = dependency_stamp d sources p"
proof -
  have "distinct (map fst (closure_snapshot d sources))"
    by (simp add: closure_snapshot_def after_analysis_def Let_def distinct_updates)
  from map_of_eq_Some_iff [OF this, of p st] show ?thesis by (auto simp: map_of_closure split: if_splits)
qed

lemma refresh_dependency [simp]: "stamp_refresh d' p (dependency_stamp d sources p) = dependency_stamp d' sources p"
  by (simp add: stamp_refresh_def dependency_stamp_def stamp_contents_def stamp_metadata_def)

text \<open>Two looks at the disk that show the same of what an analysis read.\<close>

definition same_closure :: "source_map \<Rightarrow> disk \<Rightarrow> disk \<Rightarrow> bool" where
  "same_closure sources d d' \<longleftrightarrow> (\<forall>p \<in> deps_of sources. dependency_stamp d sources p = dependency_stamp d' sources p)"

lemma current_fixed: "current d snap = snap \<longleftrightarrow> (\<forall>(p, st) \<in> set snap. stamp_refresh d p st = st)"
  by (induction snap) (auto simp: current_def)

lemma current_closure: "current d' (closure_snapshot d sources) = closure_snapshot d sources \<longleftrightarrow> same_closure sources d' d"
  by (simp add: current_fixed same_closure_def Ball_def split_paired_All closure_entries)

lemma refresh_kind: "stamp_refresh d p st = dependency_stamp d' sources p \<Longrightarrow> stamp_refresh d p st = dependency_stamp d sources p"
  by (auto simp: stamp_refresh_def dependency_stamp_def stamp_contents_def stamp_metadata_def split: observation.splits if_splits)

lemma unchanged_same_closure:
  assumes "\<not> snd (after_analysis d' sources (current d snap) True)"
  shows "same_closure sources d d'"
  unfolding same_closure_def
proof
  fix p assume p: "p \<in> deps_of sources"
  then have "(p, dependency_stamp d' sources p) \<in> set (closure_snapshot d' sources)" by (simp add: closure_entries)
  then have "map_of (current d snap) p = Some (dependency_stamp d' sources p)"
    using assms by (auto simp: after_analysis_def Let_def closure_snapshot_def)
  then obtain st where "stamp_refresh d p st = dependency_stamp d' sources p"
    by (auto simp: current_def dest!: map_of_SomeD)
  then show "dependency_stamp d sources p = dependency_stamp d' sources p" using refresh_kind by metis
qed

text \<open>The disk shows the texts that an analysis used.\<close>

definition shows_texts :: "disk \<Rightarrow> source_map \<Rightarrow> bool" where
  "shows_texts d sources \<longleftrightarrow>
     (\<forall>f \<in> set (sm_files sources). sf_path f \<in> deps_of sources \<and> dk_read d (sf_path f) = Ok (sf_text f))"

lemma dependency_stamp_source:
  "f \<in> set (sm_files sources) \<Longrightarrow> dependency_stamp d sources (sf_path f) = stamp_contents d (sf_path f)"
  by (simp add: dependency_stamp_def is_source_path_def)

lemma observed_text_closure:
  "f \<in> set (sm_files sources) \<Longrightarrow>
   observed_text (closure_snapshot d sources) f \<longleftrightarrow> sf_path f \<in> deps_of sources \<and> dk_read d (sf_path f) = Ok (sf_text f)"
  by (simp add: observed_text_def map_of_closure dependency_stamp_source observed_contents_def stamp_contents_def)

lemma unchanged_shows_texts:
  "\<not> snd (after_analysis d sources before_it True) \<Longrightarrow> shows_texts d sources"
  by (auto simp: shows_texts_def after_analysis_def Let_def simp flip: observed_text_closure
      intro: iffD1 [OF observed_text_closure])
    (auto simp: closure_snapshot_def after_analysis_def Let_def simp flip: observed_text_closure)

lemma same_closure_shows_texts: "same_closure sources d d' \<Longrightarrow> shows_texts d' sources \<Longrightarrow> shows_texts d sources"
  unfolding shows_texts_def same_closure_def
  by (metis dependency_stamp_source observation.inject(1) stamp.select_convs(2) stamp_contents_def)

lemma same_closure_sym: "same_closure sources d d' \<Longrightarrow> same_closure sources d' d"
  by (simp add: same_closure_def)

lemma same_closure_trans: "same_closure sources d d' \<Longrightarrow> same_closure sources d' d'' \<Longrightarrow> same_closure sources d d''"
  by (simp add: same_closure_def)

lemma unchanged_closure:
  "shows_texts d sources \<Longrightarrow> \<not> snd (after_analysis d sources (closure_snapshot d sources) True)"
proof -
  assume texts: "shows_texts d sources"
  have "map_of (closure_snapshot d sources) p = Some st" if "(p, st) \<in> set (closure_snapshot d sources)" for p st
    using that by (simp add: closure_entries map_of_closure)
  moreover have "observed_text (closure_snapshot d sources) f" if "f \<in> set (sm_files sources)" for f
    using texts that by (simp add: observed_text_closure shows_texts_def)
  ultimately show ?thesis by (auto simp: after_analysis_def Let_def closure_snapshot_def)
qed

section \<open>The running game\<close>

text \<open>The build that a turn makes of the program it analyzed.\<close>

definition built_by :: "string \<Rightarrow> string \<Rightarrow> turn \<Rightarrow> checked_program \<Rightarrow> string \<Rightarrow> bool" where
  "built_by path triple t checked executable \<longleftrightarrow>
     analyze_path (tn_files t) path = Some (Ok checked) \<and>
     (\<exists>llvm. emit_for_development (checked_ast checked) (checked_sources checked) (Some triple) = Some llvm \<and>
        tn_build t llvm (program_resolution (checked_ast checked)) = Ok executable)"

definition fresh_at :: "string \<Rightarrow> string \<Rightarrow> turn \<Rightarrow> string \<Rightarrow> checked_program \<Rightarrow> snapshot \<Rightarrow> bool" where
  "fresh_at path triple t executable checked snap \<longleftrightarrow>
     (let sources = checked_sources checked; d = tn_disk_analyzed t
      in built_by path triple t checked executable \<and> shows_texts d sources \<and> snap = closure_snapshot d sources \<and>
         same_closure sources (tn_disk_before t) d \<and> same_closure sources (tn_disk_built t) d)"

lemma watch_state_simps [simp]:
  "ws_session (ws_update_session f ws) = f (ws_session ws)" "ws_snapshot (ws_update_session f ws) = ws_snapshot ws"
  "ws_rebuild (ws_update_session f ws) = ws_rebuild ws" "ws_changed_at (ws_update_session f ws) = ws_changed_at ws"
  "sn_game (interfere t sn) = sn_game sn" "sn_game (set_viewer status sn) = sn_game sn"
  "sn_game (stop_for_edit env sn) = None"
  by (simp_all add: ws_update_session_def interfere_def set_viewer_def stop_for_edit_def)

lemma launch_game: "launch env executable sn = Ok sn' \<Longrightarrow> sn_game sn' = Some executable"
  by (auto simp: launch_def rbind_def split: sum.splits)

lemma rebuild_checked_game:
  assumes "rebuild_checked triple t (current (tn_disk_before t) snap) checked ws = Some (ws', fl)"
    and "analyze_path (tn_files t) path = Some (Ok checked)" and "sn_game (ws_session ws) = None"
    and "sn_game (ws_session ws') = Some executable"
  shows "fl = Proceed \<and> fresh_at path triple t executable checked (ws_snapshot ws')"
proof -
  let ?after = "after_analysis (tn_disk_analyzed t) (checked_sources checked) (current (tn_disk_before t) snap) True"
  obtain seen changed where after: "?after = (seen, changed)" by (cases ?after)
  have seen: "seen = closure_snapshot (tn_disk_analyzed t) (checked_sources checked)"
    using after_analysis_accepted [of "tn_disk_analyzed t" "checked_sources checked" "current (tn_disk_before t) snap"] after by simp
  obtain llvm where run: "\<not> changed" "emit_for_development (checked_ast checked) (checked_sources checked) (Some triple) = Some llvm"
    "current (tn_disk_built t) seen = seen"
    "(ws', fl) = launch_built t (tn_build t llvm (program_resolution (checked_ast checked))) (ws\<lparr>ws_snapshot := seen\<rparr>)"
    using assms(1,3,4) after by (auto simp: rebuild_checked_def Let_def split: option.splits if_splits)
  then obtain sn where "tn_build t llvm (program_resolution (checked_ast checked)) = Ok executable" "fl = Proceed" "ws_snapshot ws' = seen"
    using assms(3,4) by (auto simp: launch_built_def split: sum.splits dest: launch_game)
  then show ?thesis
    using run assms(2) seen after unchanged_same_closure [of "tn_disk_analyzed t" "checked_sources checked" "tn_disk_before t" snap]
      unchanged_shows_texts [of "tn_disk_analyzed t" "checked_sources checked" "current (tn_disk_before t) snap"]
    by (auto simp: fresh_at_def built_by_def Let_def current_closure)
qed

lemma rebuild_phase_game:
  assumes "rebuild_phase path triple t ws = Some (ws', fl)" and "sn_game (ws_session ws') = Some executable"
  shows "fl = Proceed \<and> (ws' = ws \<or> (\<exists>checked. fresh_at path triple t executable checked (ws_snapshot ws')))"
proof (cases "ws_rebuild ws")
  case False
  then show ?thesis using assms by (simp add: rebuild_phase_def)
next
  case True
  have stopped: "sn_game (ws_session (begin_rebuild t ws)) = None" by (simp add: begin_rebuild_def)
  show ?thesis
  proof (cases "\<exists>checked. analyze_path (tn_files t) path = Some (Ok checked)")
    case True
    then obtain checked where "analyze_path (tn_files t) path = Some (Ok checked)" by blast
    moreover from this have "rebuild_checked triple t (current (tn_disk_before t) (ws_snapshot (begin_rebuild t ws))) checked (begin_rebuild t ws) = Some (ws', fl)"
      using assms(1) \<open>ws_rebuild ws\<close> by (simp add: rebuild_phase_def Let_def)
    ultimately show ?thesis using rebuild_checked_game stopped assms(2) by blast
  next
    case False
    then have "sn_game (ws_session ws') = None"
      using assms(1) True stopped
      by (auto simp: rebuild_phase_def rebuild_rejected_def Let_def split: option.splits sum.splits prod.splits)
    then show ?thesis using assms(2) by simp
  qed
qed

lemma poll_phase_game:
  "sn_game (ws_session (poll_phase t ws)) = Some e \<Longrightarrow> poll_phase t ws = ws"
  by (auto simp: poll_phase_def split: sum.splits option.splits if_splits)

lemma observe_phase_game:
  "sn_game (ws_session (observe_phase t ws)) = Some e \<Longrightarrow>
   observe_phase t ws = ws \<and> current (tn_disk_end t) (ws_snapshot ws) = ws_snapshot ws"
  by (auto simp: observe_phase_def Let_def split: if_splits)

lemma debounce_keeps [simp]:
  "ws_session (debounce t ws) = ws_session ws" "ws_snapshot (debounce t ws) = ws_snapshot ws"
  "ws_changed_at (debounce t ws) = ws_changed_at ws"
  by (auto simp: debounce_def split: option.splits)

text \<open>A game that runs after a turn ran before it, or was built in it; either way the last look changed nothing.\<close>

lemma watch_turn_game:
  assumes run: "watch_turn path triple t ws = Some (ws', Continue)" and game: "sn_game (ws_session ws') = Some executable"
  shows "current (tn_disk_end t) (ws_snapshot ws') = ws_snapshot ws' \<and>
    (sn_game (ws_session ws) = Some executable \<and> ws_snapshot ws' = ws_snapshot ws \<or>
     (\<exists>checked. fresh_at path triple t executable checked (ws_snapshot ws')))"
proof -
  let ?start = "ws_update_session (interfere t) ws"
  obtain ws1 fl where rebuild: "rebuild_phase path triple t ?start = Some (ws1, fl)"
    using run by (auto simp: watch_turn_def Let_def split: if_splits option.splits)
  have "fl = Proceed"
  proof (rule ccontr)
    assume "fl \<noteq> Proceed"
    then have "ws' = ws1" using run rebuild by (cases fl) (auto simp: watch_turn_def Let_def split: if_splits option.splits)
    then show False using rebuild_phase_game [OF rebuild] game \<open>fl \<noteq> Proceed\<close> by simp
  qed
  then have ws': "ws' = debounce t (observe_phase t (poll_phase t ws1))"
    using run rebuild by (auto simp: watch_turn_def Let_def split: if_splits option.splits)
  have observed: "observe_phase t (poll_phase t ws1) = poll_phase t ws1"
      "current (tn_disk_end t) (ws_snapshot (poll_phase t ws1)) = ws_snapshot (poll_phase t ws1)"
    using observe_phase_game [of t "poll_phase t ws1" executable] game ws' by simp_all
  then have polled: "poll_phase t ws1 = ws1" using poll_phase_game [of t ws1 executable] game ws' by simp
  have "sn_game (ws_session ws1) = Some executable" "ws_snapshot ws' = ws_snapshot ws1"
    using game ws' observed polled by simp_all
  then show ?thesis using rebuild_phase_game [OF rebuild] observed polled by auto
qed

lemma watch_turns_snoc:
  "watch_turns path triple (ts @ [t]) ws = Some (ws', Continue) \<longleftrightarrow>
   (\<exists>ws1. watch_turns path triple ts ws = Some (ws1, Continue) \<and> watch_turn path triple t ws1 = Some (ws', Continue))"
  by (induction ts arbitrary: ws) (auto split: option.splits prod.splits flow.splits)

text \<open>The looks at the disk from the turn that built the game to the last one.\<close>

definition looks_since :: "nat \<Rightarrow> turn list \<Rightarrow> disk list" where
  "looks_since j ts = tn_disk_before (ts ! j) # tn_disk_analyzed (ts ! j) # tn_disk_built (ts ! j) # map tn_disk_end (drop j ts)"

lemma running_game_fresh:
  assumes "watch_turns path triple ts ws0 = Some (ws, Continue)" and "sn_game (ws_session ws0) = None"
    and "sn_game (ws_session ws) = Some executable"
  shows "\<exists>j checked. j < length ts \<and> fresh_at path triple (ts ! j) executable checked (ws_snapshot ws) \<and>
    (\<forall>d \<in> set (map tn_disk_end (drop j ts)). current d (ws_snapshot ws) = ws_snapshot ws)"
  using assms
proof (induction ts arbitrary: ws rule: rev_induct)
  case (snoc t ts)
  then obtain ws1 where run: "watch_turns path triple ts ws0 = Some (ws1, Continue)" "watch_turn path triple t ws1 = Some (ws, Continue)"
    by (auto simp: watch_turns_snoc)
  note last = watch_turn_game [OF run(2) snoc.prems(3)]
  show ?case
  proof (cases "\<exists>checked. fresh_at path triple t executable checked (ws_snapshot ws)")
    case True
    then show ?thesis using last by (intro exI [of _ "length ts"]) auto
  next
    case False
    then have "sn_game (ws_session ws1) = Some executable" "ws_snapshot ws = ws_snapshot ws1" using last by auto
    then obtain j checked where "j < length ts" "fresh_at path triple (ts ! j) executable checked (ws_snapshot ws)"
      "\<forall>d \<in> set (map tn_disk_end (drop j ts)). current d (ws_snapshot ws) = ws_snapshot ws"
      using snoc.IH [OF run(1) snoc.prems(2)] by auto
    then show ?thesis using last by (intro exI [of _ j] exI [of _ checked]) (auto simp: nth_append)
  qed
qed simp

text \<open>
  C6 The running game is never stale: it is the build of a program that some turn analyzed, and the disk has
  shown the very texts of that program and the same stamps of all its dependencies at every look since, before the
  analysis, after it, after the build and at the end of each turn up to the last.
\<close>

theorem running_game_is_current:
  assumes "watch_turns path triple ts (watch_start d0 path sn) = Some (ws, Continue)" and "sn_game sn = None"
    and "sn_game (ws_session ws) = Some executable"
  shows "\<exists>j checked. j < length ts \<and> built_by path triple (ts ! j) checked executable \<and>
    (\<forall>d \<in> set (looks_since j ts). shows_texts d (checked_sources checked) \<and>
       same_closure (checked_sources checked) d (tn_disk_analyzed (ts ! j)))"
proof -
  have "sn_game (ws_session (watch_start d0 path sn)) = None" using assms(2) by (simp add: watch_start_def)
  from running_game_fresh [OF assms(1) this assms(3)] obtain j checked
    where j: "j < length ts" "fresh_at path triple (ts ! j) executable checked (ws_snapshot ws)"
      "\<forall>d \<in> set (map tn_disk_end (drop j ts)). current d (ws_snapshot ws) = ws_snapshot ws" by blast
  let ?d = "tn_disk_analyzed (ts ! j)" and ?sources = "checked_sources checked"
  have fresh: "built_by path triple (ts ! j) checked executable" "shows_texts ?d ?sources" "ws_snapshot ws = closure_snapshot ?d ?sources"
    "same_closure ?sources (tn_disk_before (ts ! j)) ?d" "same_closure ?sources (tn_disk_built (ts ! j)) ?d"
    using j(2) by (simp_all add: fresh_at_def Let_def)
  have "same_closure ?sources ?d ?d" by (simp add: same_closure_def)
  then have "same_closure ?sources d ?d" if "d \<in> set (looks_since j ts)" for d
    using that fresh j(3) by (auto simp: looks_since_def current_closure)
  then show ?thesis using j(1) fresh(1,2) same_closure_shows_texts by blast
qed

section \<open>An edit is built and runs\<close>

text \<open>
  A turn in which nothing goes wrong: every look shows the same disk, the analysis accepts, the build gives an
  executable, and the game starts and is still running at the end.
\<close>

definition quiet_turn :: "string \<Rightarrow> string \<Rightarrow> disk \<Rightarrow> checked_program \<Rightarrow> string \<Rightarrow> turn \<Rightarrow> bool" where
  "quiet_turn path triple d checked executable t \<longleftrightarrow>
     \<not> tn_cancelled t \<and> tn_fatal t = None \<and> tn_disk_before t = d \<and> tn_disk_analyzed t = d \<and> tn_disk_built t = d \<and>
     tn_disk_end t = d \<and> built_by path triple t checked executable \<and> \<not> tn_cancelled_built t \<and>
     le_bound (tn_launch t) = Ok () \<and> (\<exists>port. le_port (tn_launch t) = Ok port) \<and> le_spawned (tn_launch t) = Ok () \<and>
     pe_fatal (tn_poll t) = None \<and> pe_wait (tn_poll t) = Ok None"

definition running :: "disk \<Rightarrow> source_map \<Rightarrow> string \<Rightarrow> watch_state \<Rightarrow> bool" where
  "running d sources executable ws \<longleftrightarrow>
     sn_game (ws_session ws) = Some executable \<and> ws_snapshot ws = closure_snapshot d sources \<and>
     \<not> ws_rebuild ws \<and> ws_changed_at ws = None"

lemma same_closure_refl [simp]: "same_closure sources d d"
  by (simp add: same_closure_def)

lemma launch_ok:
  "le_bound env = Ok () \<Longrightarrow> le_port env = Ok port \<Longrightarrow> le_spawned env = Ok () \<Longrightarrow>
   \<exists>sn'. launch env executable sn = Ok sn' \<and> sn_game sn' = Some executable"
  by (simp add: launch_def rbind_def map_err_def)

lemma poll_quiet: "pe_fatal (tn_poll t) = None \<Longrightarrow> pe_wait (tn_poll t) = Ok None \<Longrightarrow> poll_phase t ws = ws"
  by (simp add: poll_phase_def poll_game_def map_err_def)

lemma observe_quiet: "current (tn_disk_end t) (ws_snapshot ws) = ws_snapshot ws \<Longrightarrow> observe_phase t ws = ws"
  by (simp add: observe_phase_def Let_def)

text \<open>A turn without a rebuild only looks at the clock.\<close>

lemma turn_without_rebuild:
  assumes "quiet_turn path triple d checked executable t" and "\<not> ws_rebuild ws" and "current d (ws_snapshot ws) = ws_snapshot ws"
  shows "watch_turn path triple t ws = Some (debounce t (ws_update_session (interfere t) ws), Continue)"
proof -
  let ?ws = "ws_update_session (interfere t) ws"
  have "rebuild_phase path triple t ?ws = Some (?ws, Proceed)" using assms(2) by (simp add: rebuild_phase_def)
  moreover have "poll_phase t ?ws = ?ws" using assms(1) by (simp add: quiet_turn_def poll_quiet)
  moreover have "observe_phase t ?ws = ?ws" using assms(1,3) by (simp add: quiet_turn_def observe_quiet)
  ultimately show ?thesis using assms(1) by (simp add: watch_turn_def quiet_turn_def Let_def)
qed

lemma running_stays:
  assumes "\<forall>t \<in> set ts. quiet_turn path triple d checked executable t" and "running d (checked_sources checked) executable ws"
  shows "\<exists>ws'. watch_turns path triple ts ws = Some (ws', Continue) \<and> running d (checked_sources checked) executable ws'"
  using assms
proof (induction ts arbitrary: ws)
  case (Cons t ts)
  let ?ws = "ws_update_session (interfere t) ws"
  have "watch_turn path triple t ws = Some (debounce t ?ws, Continue)"
    using Cons.prems turn_without_rebuild [of path triple d checked executable t ws] by (simp add: running_def current_closure)
  moreover have "debounce t ?ws = ?ws" using Cons.prems(2) by (simp add: debounce_def running_def)
  moreover have "running d (checked_sources checked) executable ?ws" using Cons.prems(2) by (simp add: running_def)
  ultimately show ?case using Cons by simp
qed simp

text \<open>
  The first rebuild may discover dependencies, which are watched from then on; the next one finds them unchanged.
\<close>

lemma turn_with_rebuild:
  assumes quiet: "quiet_turn path triple d checked executable t" and texts: "shows_texts d (checked_sources checked)"
    and rebuild: "ws_rebuild ws" and steady: "current d (ws_snapshot ws) = ws_snapshot ws"
  shows "\<exists>ws'. watch_turn path triple t ws = Some (ws', Continue) \<and>
    (running d (checked_sources checked) executable ws' \<or>
     ws_snapshot ws \<noteq> closure_snapshot d (checked_sources checked) \<and> ws_rebuild ws' \<and>
       ws_snapshot ws' = closure_snapshot d (checked_sources checked))"
proof -
  let ?sources = "checked_sources checked" and ?ws = "begin_rebuild t (ws_update_session (interfere t) ws)"
  let ?after = "after_analysis d ?sources (ws_snapshot ws) True"
  obtain seen changed where after: "?after = (seen, changed)" by (cases ?after)
  have seen: "seen = closure_snapshot d ?sources" using after_analysis_accepted [of d ?sources "ws_snapshot ws"] after by simp
  have begun: "ws_snapshot ?ws = ws_snapshot ws" "\<not> ws_rebuild ?ws" "ws_changed_at ?ws = None" by (simp_all add: begin_rebuild_def)
  obtain llvm where built: "analyze_path (tn_files t) path = Some (Ok checked)"
    "emit_for_development (checked_ast checked) ?sources (Some triple) = Some llvm"
    "tn_build t llvm (program_resolution (checked_ast checked)) = Ok executable"
    using quiet by (auto simp: quiet_turn_def built_by_def)
  have phase: "rebuild_phase path triple t (ws_update_session (interfere t) ws) = rebuild_checked triple t (ws_snapshot ws) checked ?ws"
    using quiet rebuild steady built(1) begun by (simp add: rebuild_phase_def quiet_turn_def Let_def)
  show ?thesis
  proof (cases changed)
    case True
    have "ws_snapshot ws \<noteq> closure_snapshot d ?sources" using unchanged_closure [OF texts] after True by auto
    moreover have "watch_turn path triple t ws = Some (?ws\<lparr>ws_snapshot := seen, ws_rebuild := True\<rparr>, Continue)"
      using quiet phase after True by (simp add: watch_turn_def quiet_turn_def rebuild_checked_def Let_def)
    ultimately show ?thesis using seen by simp
  next
    case False
    obtain sn where sn: "launch (tn_launch t) executable (ws_session ?ws) = Ok sn" "sn_game sn = Some executable"
      using quiet launch_ok unfolding quiet_turn_def by blast
    let ?run = "?ws\<lparr>ws_snapshot := seen, ws_session := sn\<rparr>"
    have fixed: "current d seen = seen" by (simp add: seen current_closure)
    have "rebuild_checked triple t (ws_snapshot ws) checked ?ws = Some (?run, Proceed)"
      using quiet after False built sn(1) fixed by (simp add: rebuild_checked_def launch_built_def quiet_turn_def Let_def)
    moreover have "poll_phase t ?run = ?run" using quiet by (simp add: quiet_turn_def poll_quiet)
    moreover have "observe_phase t ?run = ?run" using quiet fixed by (simp add: quiet_turn_def observe_quiet)
    moreover have "debounce t ?run = ?run" using begun by (simp add: debounce_def)
    ultimately have "watch_turn path triple t ws = Some (?run, Continue)"
      using quiet phase by (simp add: watch_turn_def quiet_turn_def Let_def)
    moreover have "running d ?sources executable ?run" using begun sn(2) seen by (simp add: running_def)
    ultimately show ?thesis by blast
  qed
qed

lemma rebuild_launches:
  assumes "\<forall>t \<in> set ts. quiet_turn path triple d checked executable t" and "shows_texts d (checked_sources checked)"
    and "ws_rebuild ws" and "current d (ws_snapshot ws) = ws_snapshot ws" and "2 \<le> length ts"
  shows "\<exists>ws'. watch_turns path triple ts ws = Some (ws', Continue) \<and> running d (checked_sources checked) executable ws'"
proof -
  obtain t u us where ts: "ts = t # u # us" using assms(5) by (cases ts; cases "tl ts") auto
  let ?snap = "closure_snapshot d (checked_sources checked)"
  obtain ws1 where first: "watch_turn path triple t ws = Some (ws1, Continue)"
    "running d (checked_sources checked) executable ws1 \<or> ws_rebuild ws1 \<and> ws_snapshot ws1 = ?snap"
    using turn_with_rebuild [of path triple d checked executable t ws] assms ts by auto
  show ?thesis
  proof (cases "running d (checked_sources checked) executable ws1")
    case True
    then show ?thesis using running_stays [of "u # us" path triple d checked executable ws1] assms(1) first(1) ts by simp
  next
    case False
    then have "ws_rebuild ws1" "ws_snapshot ws1 = ?snap" using first(2) by auto
    then obtain ws2 where "watch_turn path triple u ws1 = Some (ws2, Continue)" "running d (checked_sources checked) executable ws2"
      using turn_with_rebuild [of path triple d checked executable u ws1] assms(1,2) ts by (auto simp: current_closure)
    then show ?thesis using running_stays [of us path triple d checked executable ws2] assms(1) first(1) ts by auto
  qed
qed

text \<open>
  An edit seen at time \<open>since\<close> is built once a turn sees it at rest for \<^const>\<open>QUIET\<close>; two turns
  more are enough.
\<close>

lemma edit_launches:
  assumes "\<forall>t \<in> set ts. quiet_turn path triple d checked executable t" and "shows_texts d (checked_sources checked)"
    and "ws_changed_at ws = Some since" and "current d (ws_snapshot ws) = ws_snapshot ws"
    and "i + 2 < length ts" and "since + QUIET \<le> tn_check_time (ts ! i)"
  shows "\<exists>ws'. watch_turns path triple ts ws = Some (ws', Continue) \<and> running d (checked_sources checked) executable ws'"
  using assms
proof (induction i arbitrary: ts ws)
  case (0 ts ws)
  then show ?case
  proof (cases "ws_rebuild ws")
    case False
    obtain t us where ts: "ts = t # us" using 0 by (cases ts) auto
    let ?ws = "debounce t (ws_update_session (interfere t) ws)"
    have turn: "watch_turn path triple t ws = Some (?ws, Continue)"
      using turn_without_rebuild [of path triple d checked executable t ws] 0 False ts by simp
    moreover have "QUIET \<le> tn_check_time t - since" using 0 ts by simp
    then have "ws_rebuild ?ws" using 0 by (simp add: debounce_def)
    ultimately show ?thesis using rebuild_launches [of us path triple d checked executable ?ws] 0 ts by simp
  qed (use rebuild_launches in auto)
next
  case (Suc i ts ws)
  show ?case
  proof (cases "ws_rebuild ws")
    case False
    obtain t us where ts: "ts = t # us" using Suc.prems by (cases ts) auto
    let ?ws = "debounce t (ws_update_session (interfere t) ws)"
    have turn: "watch_turn path triple t ws = Some (?ws, Continue)"
      using turn_without_rebuild [of path triple d checked executable t ws] Suc.prems False ts by simp
    then show ?thesis using Suc.IH [of us ?ws] Suc.prems ts by simp
  qed (use rebuild_launches [of ts] Suc.prems in auto)
qed

text \<open>A rebuild is due now, or will be once the edit has rested, with the turns left that it takes.\<close>

definition rebuild_due :: "watch_state \<Rightarrow> turn list \<Rightarrow> bool" where
  "rebuild_due ws ts \<longleftrightarrow>
     ws_rebuild ws \<and> 2 \<le> length ts \<or>
     (\<exists>since i. ws_changed_at ws = Some since \<and> i + 2 < length ts \<and> since + QUIET \<le> tn_check_time (ts ! i))"

text \<open>
  C7 An edit that comes to rest runs: when the watcher starts or has seen an edit, and from then on the disk
  rests, the analysis accepts the texts the disk shows, the build succeeds and the game starts, the loop goes on
  without an end and runs that build within two turns after the quiet time has passed.
\<close>

theorem resting_edit_runs:
  assumes "\<forall>t \<in> set ts. quiet_turn path triple d checked executable t"
    and "\<forall>f \<in> set (sm_files (checked_sources checked)). dk_read d (sf_path f) = Ok (sf_text f)"
    and "current d (ws_snapshot ws) = ws_snapshot ws" and "rebuild_due ws ts"
  shows "\<exists>ws'. watch_turns path triple ts ws = Some (ws', Continue) \<and> sn_game (ws_session ws') = Some executable"
proof -
  obtain t where "t \<in> set ts" using assms(4) by (cases ts) (auto simp: rebuild_due_def)
  then have "analyze_path (tn_files t) path = Some (Ok checked)" using assms(1) by (auto simp: quiet_turn_def built_by_def)
  then have "files_recorded (checked_sources checked)" using analyze_path_tracks(1) by (fastforce simp: analysis_sources_def)
  then have texts: "shows_texts d (checked_sources checked)" using assms(2) by (simp add: shows_texts_def files_recorded_def)
  show ?thesis
    using rebuild_launches [OF assms(1) texts _ assms(3)] edit_launches [OF assms(1) texts _ assms(3)] assms(4)
    unfolding rebuild_due_def running_def by blast
qed

section \<open>A session where nothing goes wrong\<close>

lemma empty_bodies_emit:
  assumes "emit_program p target RdPlain \<noteq> None" and "\<forall>f \<in> set (program_functions p). function_body f = []"
  shows "emit_program p target diagnostics \<noteq> None"
proof -
  have "emit_function (function_env p diagnostics entries f) n = emit_function (function_env p RdPlain entries f) n"
    if "f \<in> set (program_functions p)" for entries f n
    using assms(2) that by (simp add: emit_function_def function_lines_def emit_body_def function_env_def Let_def)
  then have same: "concat_some (map (\<lambda>f. map_option (\<lambda>s. s @ [newline]) (emit_function (function_env p diagnostics entries f) n)) (program_functions p)) =
      concat_some (map (\<lambda>f. map_option (\<lambda>s. s @ [newline]) (emit_function (function_env p RdPlain entries f) n)) (program_functions p))" for entries n
    by (intro arg_cong [where f = concat_some] map_cong refl) simp
  show ?thesis using assms(1) unfolding emit_program_def same by (auto simp: bind_eq_Some_conv)
qed

lemma game_emitted: "\<exists>llvm. emit_for_development game_program game_sources (Some triple) = Some llvm"
proof -
  have "as_parsed game_program"
    by (simp add: as_parsed_def conversions_ok_def program_exprs_def game_program_def bare_defs program_types_def function_types_def)
  then obtain vals where "program_ok game_program vals" "conversions_ok game_program"
    using accepted_analysis bare_accepted unfolding game_program_def by blast
  then have "emit_program game_program (Some triple) RdPlain \<noteq> None" by (rule emit_program_returns)
  then have "emit_program game_program (Some triple) (RdLocated game_sources) \<noteq> None"
    by (rule empty_bodies_emit) (simp add: game_program_def bare_defs)
  then show ?thesis by (auto simp: emit_for_development_def)
qed

definition game_disk :: disk where
  "game_disk = \<lparr>dk_canonicalize = Some, dk_read = (\<lambda>_. Ok game_source), dk_metadata = (\<lambda>_. Err ''not found'')\<rparr>"

definition quiet_stop :: stop_env where
  "quiet_stop = \<lparr>se_exited = Ok True, se_signal = Ok (), se_gone = Ok True, se_look = (\<lambda>_. Ok True), se_late = (\<lambda>_. 0),
     se_joined = True, se_fatal = None\<rparr>"

definition game_turn :: "nat \<Rightarrow> turn" where
  "game_turn time =
     \<lparr>tn_frames = (\<lambda>f. f), tn_controls = (\<lambda>c. c), tn_cancelled = False, tn_fatal = None, tn_stop_rebuild = quiet_stop,
      tn_disk_before = game_disk, tn_files = game_files, tn_disk_analyzed = game_disk, tn_build = (\<lambda>llvm r. Ok ''/build/g_dev''),
      tn_disk_built = game_disk, tn_cancelled_built = False,
      tn_launch = \<lparr>le_bound = Ok (), le_port = Ok 4000, le_spawned = Ok ()\<rparr>,
      tn_poll = \<lparr>pe_fatal = None, pe_wait = Ok None\<rparr>, tn_stop_exit = quiet_stop, tn_disk_end = game_disk,
      tn_stop_edit = quiet_stop, tn_changed_time = time, tn_check_time = time\<rparr>"

definition game_session :: session where
  "game_session = \<lparr>sn_frames = frame_state_default, sn_controls = input_control_default, sn_game = None\<rparr>"

lemma game_quiet: "quiet_turn ''/g.spk'' ''t'' game_disk game_checked ''/build/g_dev'' (game_turn time)"
proof -
  have "built_by ''/g.spk'' ''t'' (game_turn time) game_checked ''/build/g_dev''"
    using game_emitted [of "''t''"] by (simp add: built_by_def game_turn_def game_analyzed) (simp add: game_checked_def)
  then show ?thesis by (simp add: quiet_turn_def game_turn_def)
qed

lemma game_shown: "\<forall>f \<in> set (sm_files (checked_sources game_checked)). dk_read game_disk (sf_path f) = Ok (sf_text f)"
  by (simp add: game_checked_def game_sources_def source_add_def record_dependency_def source_map_empty_def game_disk_def)

lemma game_steady: "current game_disk (ws_snapshot (watch_start game_disk ''/g.spk'' game_session)) =
    ws_snapshot (watch_start game_disk ''/g.spk'' game_session)"
  by (simp add: watch_start_def current_def stamp_refresh_def stamp_contents_def)

lemma game_turns_quiet: "\<forall>t \<in> set (map game_turn ks). quiet_turn ''/g.spk'' ''t'' game_disk game_checked ''/build/g_dev'' t"
  using game_quiet by auto

theorem running_game_is_current_witness:
  "\<exists>ws. watch_turns ''/g.spk'' ''t'' (map game_turn [0, 100]) (watch_start game_disk ''/g.spk'' game_session) = Some (ws, Continue) \<and>
     (\<exists>j checked. j < length (map game_turn [0, 100]) \<and> built_by ''/g.spk'' ''t'' (map game_turn [0, 100] ! j) checked ''/build/g_dev'' \<and>
        (\<forall>d \<in> set (looks_since j (map game_turn [0, 100])). shows_texts d (checked_sources checked)))"
proof -
  let ?start = "watch_start game_disk ''/g.spk'' game_session"
  have "shows_texts game_disk (checked_sources game_checked)"
    using game_shown by (simp add: shows_texts_def game_checked_def game_sources_def source_add_def record_dependency_def
        source_map_empty_def deps_of_def)
  moreover have "ws_rebuild ?start" by (simp add: watch_start_def)
  ultimately obtain ws where run: "watch_turns ''/g.spk'' ''t'' (map game_turn [0, 100]) ?start = Some (ws, Continue)"
    and game: "sn_game (ws_session ws) = Some ''/build/g_dev''"
    using rebuild_launches [OF game_turns_quiet _ _ game_steady, of "[0, 100]"] by (auto simp: running_def)
  have "sn_game game_session = None" by (simp add: game_session_def)
  from running_game_is_current [OF run this game] show ?thesis using run by blast
qed

theorem resting_edit_runs_witness:
  "\<exists>ws. watch_turns ''/g.spk'' ''t'' (map game_turn [100, 200, 300, 400])
       (watch_start game_disk ''/g.spk'' game_session\<lparr>ws_rebuild := False, ws_changed_at := Some 0\<rparr>) = Some (ws, Continue) \<and>
     sn_game (ws_session ws) = Some ''/build/g_dev''"
proof (rule resting_edit_runs [OF game_turns_quiet game_shown])
  let ?ws = "watch_start game_disk ''/g.spk'' game_session\<lparr>ws_rebuild := False, ws_changed_at := Some 0\<rparr>"
  show "current game_disk (ws_snapshot ?ws) = ws_snapshot ?ws" using game_steady by simp
  show "rebuild_due ?ws (map game_turn [100, 200, 300, 400])"
    by (simp add: rebuild_due_def QUIET_def) (rule exI [of _ 1], simp add: game_turn_def)
qed

end
