(* ===== verification/Toolchain.thy ===== *)
theory Toolchain
  imports Session Wav Viewer_Http Resolution Source_Text
begin

text \<open>
  The native toolchain, \<^verbatim>\<open>src/src/toolchain.rs\<close>,
  \<^verbatim>\<open>src/src/toolchain/process.rs\<close> and
  \<^verbatim>\<open>src/src/runtime_sources.rs\<close>: which commands a build runs, in which order, and what it makes of
  their results. The operating system is a parameter whose answers may depend on everything done before; what was
  done is the list of effects that the operations carry along.
\<close>

section \<open>The host\<close>

record command_result =
  cr_status :: exit_status
  cr_stdout :: string
  cr_stderr :: string

datatype effect =
    EfRun string "string list" bool
  | EfCreateDirAll string bool
  | EfCreateDir string bool
  | EfWrite string string bool
  | EfRemoveDir string

text \<open>What a pipe's reader thread ends with.\<close>

datatype captured = CapPanicked | CapRead "(string, string) result"

text \<open>A command under the cancellation flag: what the flag and \<open>try_wait\<close> say at each look.\<close>

record watched_command =
  wc_cancelled :: bool
  wc_spawned :: "(string, unit) result"
  wc_looks :: "(bool \<times> (string, exit_status option) result) list"
  wc_stdout :: captured
  wc_stderr :: captured

record host =
  ho_current_dir :: "(string, string) result"
  ho_path :: "string option"
  ho_process_id :: nat
  ho_next_id :: u64
  ho_runtime_file :: "string \<Rightarrow> string"
  ho_is_file :: "effect list \<Rightarrow> string \<Rightarrow> bool"
  ho_exists :: "effect list \<Rightarrow> string \<Rightarrow> bool"
  ho_len :: "effect list \<Rightarrow> string \<Rightarrow> (string, u64) result"
  ho_create_dir_all :: "effect list \<Rightarrow> string \<Rightarrow> (string, unit) result"
  ho_create_dir :: "effect list \<Rightarrow> string \<Rightarrow> (bool \<times> string, unit) result"
  ho_write :: "effect list \<Rightarrow> string \<Rightarrow> (string, unit) result"
  ho_command :: "effect list \<Rightarrow> string \<Rightarrow> string list \<Rightarrow> (string, command_result) result"
  ho_watched :: "effect list \<Rightarrow> string \<Rightarrow> string list \<Rightarrow> watched_command"

text \<open>An operation that fails with a message; None has panicked or not returned.\<close>

type_synonym 'a host_task = "effect list \<Rightarrow> ((string, 'a) result \<times> effect list) option"

definition tret :: "'a \<Rightarrow> 'a host_task" where
  "tret a h = Some (Ok a, h)"

definition tresult :: "(string, 'a) result \<Rightarrow> 'a host_task" where
  "tresult r h = Some (r, h)"

definition tbind :: "'a host_task \<Rightarrow> ('a \<Rightarrow> 'b host_task) \<Rightarrow> 'b host_task" where
  "tbind f g h =
     (case f h of None \<Rightarrow> None | Some (Inl e, h) \<Rightarrow> Some (Err e, h) | Some (Inr a, h) \<Rightarrow> g a h)"

definition succeeded :: "(string, command_result) result \<Rightarrow> bool" where
  "succeeded r = (case r of Inl _ \<Rightarrow> False | Inr out \<Rightarrow> es_success (cr_status out))"

text \<open>An effect that may fail, noted with whether it did.\<close>

definition attempt :: "(effect list \<Rightarrow> (string, unit) result) \<Rightarrow> (bool \<Rightarrow> effect) \<Rightarrow> unit host_task" where
  "attempt ask note h = (let r = ask h in Some (r, h @ [note (r = Ok ())]))"

section \<open>Hosts and presenters\<close>

datatype host_target = LinuxX86_64 | MacOsArm64

definition from_os_arch :: "string \<Rightarrow> string \<Rightarrow> (string, host_target) result" where
  "from_os_arch os arch =
     (if os = ''linux'' \<and> arch = ''x86_64'' then Ok LinuxX86_64
      else if os = ''macos'' \<and> arch = ''aarch64'' then Ok MacOsArm64
      else Err (''unsupported host platform `'' @ os @ ''/'' @ arch
        @ ''`; Speck host-native builds currently support Linux x86-64 and macOS ARM64, and do not cross-compile''))"

definition target_description :: "host_target \<Rightarrow> string" where
  "target_description target = (case target of LinuxX86_64 \<Rightarrow> ''Linux x86-64'' | MacOsArm64 \<Rightarrow> ''macOS ARM64'')"

definition fallback_llvm_triple :: "host_target \<Rightarrow> string" where
  "fallback_llvm_triple target =
     (case target of LinuxX86_64 \<Rightarrow> ''x86_64-unknown-linux-gnu'' | MacOsArm64 \<Rightarrow> ''arm64-apple-darwin'')"

definition string_starts_with :: "string \<Rightarrow> string \<Rightarrow> bool" where
  "string_starts_with prefix s \<longleftrightarrow> take (length prefix) s = prefix"

definition string_contains :: "string \<Rightarrow> string \<Rightarrow> bool" where
  "string_contains needle s \<longleftrightarrow> list_ex (\<lambda>i. string_starts_with needle (drop i s)) [0..<length s + 1]"

definition accepts_llvm_triple :: "host_target \<Rightarrow> string \<Rightarrow> bool" where
  "accepts_llvm_triple target triple \<longleftrightarrow>
     (let triple = map to_ascii_lower triple in
      case target of
        LinuxX86_64 \<Rightarrow> string_starts_with ''x86_64-'' triple \<and> string_contains ''linux'' triple
      | MacOsArm64 \<Rightarrow>
          (string_starts_with ''arm64-'' triple \<or> string_starts_with ''aarch64-'' triple)
          \<and> string_contains ''apple'' triple
          \<and> (string_contains ''darwin'' triple \<or> string_contains ''macos'' triple))"

definition object_extension :: "host_target \<Rightarrow> string" where
  "object_extension target = ''o''"

definition executable_extension :: "host_target \<Rightarrow> string" where
  "executable_extension target = []"

definition runtime_platform_sources :: "host_target \<Rightarrow> string list" where
  "runtime_platform_sources target = [''platform/posix_main.c'']"

definition c_compile_args :: "host_target \<Rightarrow> string list" where
  "c_compile_args target =
     (case target of
        LinuxX86_64 \<Rightarrow> [''-ffunction-sections'', ''-fdata-sections'', ''-fno-asynchronous-unwind-tables'']
      | MacOsArm64 \<Rightarrow> [''-fno-asynchronous-unwind-tables''])"

definition target_link_args :: "host_target \<Rightarrow> string list" where
  "target_link_args target =
     (case target of
        LinuxX86_64 \<Rightarrow> [''-fuse-ld=lld'', ''-Wl,--gc-sections,--strip-all'', ''-Wl,--as-needed'', ''-lm'']
      | MacOsArm64 \<Rightarrow> [''-Wl,-dead_strip,-S,-x''])"

definition missing_clang_help :: "host_target \<Rightarrow> string" where
  "missing_clang_help target =
     (case target of
        LinuxX86_64 \<Rightarrow> ''install Clang and ensure `clang` is on PATH''
      | MacOsArm64 \<Rightarrow> ''install Apple'' @ [CHR 0x27] @ ''s Command Line Tools with `xcode-select --install`, or put Clang on PATH'')"

definition install_command_line_tools :: string where
  "install_command_line_tools = ''install Apple'' @ [CHR 0x27] @ ''s Command Line Tools with `xcode-select --install`''"

definition missing_linker_help :: "host_target \<Rightarrow> string" where
  "missing_linker_help target =
     (case target of
        LinuxX86_64 \<Rightarrow> ''install LLD and ensure `ld.lld` is on PATH''
      | MacOsArm64 \<Rightarrow> install_command_line_tools)"

record build_environment =
  be_target :: host_target
  be_clang :: string
  be_linker :: string
  be_llvm_as :: "string option"
  be_sdk_path :: "string option"
  be_llvm_target_triple :: string
  be_cancellable :: bool

definition with_cancellation :: "build_environment \<Rightarrow> build_environment" where
  "with_cancellation env = env\<lparr>be_cancellable := True\<rparr>"

definition target_args :: "build_environment \<Rightarrow> string list" where
  "target_args env =
     (''--target='' @ be_llvm_target_triple env)
     # (case be_sdk_path env of None \<Rightarrow> [] | Some sdk_path \<Rightarrow> [''-isysroot'', sdk_path])"

datatype llvm_validation = LvLlvmAs string | LvClangDirect string

definition validation_text :: "llvm_validation \<Rightarrow> string" where
  "validation_text v =
     (case v of
        LvLlvmAs path \<Rightarrow> ''llvm-as ('' @ path_display path @ '')''
      | LvClangDirect reason \<Rightarrow> ''Clang direct ('' @ reason @ '')'')"

record build_artifacts =
  ba_executable :: string
  ba_llvm_ir :: string
  ba_llvm_bitcode :: string
  ba_size :: u64
  ba_llvm_validation :: llvm_validation

datatype presenter = PrPpm | PrDevelopmentStream | PrCocoa

definition presenter_name :: "presenter \<Rightarrow> string" where
  "presenter_name p = (case p of PrPpm \<Rightarrow> ''ppm'' | PrDevelopmentStream \<Rightarrow> ''stream'' | PrCocoa \<Rightarrow> ''cocoa'')"

definition presenter_source :: "presenter \<Rightarrow> string" where
  "presenter_source p =
     (case p of PrPpm \<Rightarrow> ''present_ppm.c'' | PrDevelopmentStream \<Rightarrow> ''present_stream.c'' | PrCocoa \<Rightarrow> ''present_cocoa.m'')"

definition audio_sources :: "presenter \<Rightarrow> string list" where
  "audio_sources p = (case p of PrCocoa \<Rightarrow> [''audio.c'', ''audio_macos.c''] | _ \<Rightarrow> [''audio_null.c''])"

definition output_suffix :: "presenter \<Rightarrow> string" where
  "output_suffix p = (case p of PrPpm \<Rightarrow> [] | PrDevelopmentStream \<Rightarrow> ''_dev'' | PrCocoa \<Rightarrow> ''_native'')"

definition compile_definitions :: "presenter \<Rightarrow> string list" where
  "compile_definitions p =
     (case p of
        PrPpm \<Rightarrow> []
      | PrDevelopmentStream \<Rightarrow> [''-DCRUMB_DEVELOPMENT=1'', ''-DCRUMB_PACED=1'']
      | PrCocoa \<Rightarrow> [''-DCRUMB_COCOA=1'', ''-DCRUMB_PACED=1''])"

definition source_compile_args :: "presenter \<Rightarrow> string list" where
  "source_compile_args p = (case p of PrCocoa \<Rightarrow> [''-x'', ''objective-c''] | _ \<Rightarrow> [])"

definition presenter_link_args :: "presenter \<Rightarrow> string list" where
  "presenter_link_args p =
     (case p of
        PrCocoa \<Rightarrow> [''-framework'', ''AppKit'', ''-framework'', ''CoreGraphics'', ''-framework'', ''AudioToolbox'']
      | _ \<Rightarrow> [])"

definition native_for_target :: "host_target \<Rightarrow> (string, presenter) result" where
  "native_for_target target =
     (case target of
        MacOsArm64 \<Rightarrow> Ok PrCocoa
      | LinuxX86_64 \<Rightarrow> Err (''native Cocoa presentation requires macOS ARM64; detected '' @ target_description target
          @ ''. Use `speck build` for deterministic PPM output or `speck dev` for browser presentation on this host''))"

section \<open>Running commands\<close>

definition display_command :: "string \<Rightarrow> string list \<Rightarrow> string" where
  "display_command program args = join '' '' (map path_display (program # args))"

definition command_failure :: "string \<Rightarrow> string list \<Rightarrow> command_result \<Rightarrow> string" where
  "command_failure program args out =
     ''toolchain command failed ('' @ display_command program args @ '')'' @ [newline]
     @ ''status: '' @ es_text (cr_status out) @ [newline]
     @ ''stdout:'' @ [newline] @ trim_end (path_display (cr_stdout out)) @ [newline]
     @ ''stderr:'' @ [newline] @ trim_end (path_display (cr_stderr out))"

definition command_output :: "host \<Rightarrow> string \<Rightarrow> string list \<Rightarrow> command_result host_task" where
  "command_output host program args h =
     (let r = map_error (\<lambda>e. ''could not run required tool `'' @ path_display program @ ''`: '' @ e @ [newline]
                  @ ''command: '' @ display_command program args @ [newline]
                  @ ''resolution: ensure the tool exists and is executable'')
                (ho_command host h program args)
      in Some (r, h @ [EfRun program args (succeeded r)]))"

text \<open>The looks at a running command until it ends or is cancelled; None while it runs.\<close>

definition cancelled_text :: string where
  "cancelled_text = ''development build cancelled''"

fun await_command :: "(bool \<times> (string, exit_status option) result) list \<Rightarrow> (string, exit_status) result option" where
  "await_command [] = None"
| "await_command ((cancelled, waited) # looks) =
     (if cancelled then Some (Err cancelled_text)
      else case waited of
             Inr (Some status) \<Rightarrow> Some (Ok status)
           | Inr None \<Rightarrow> await_command looks
           | Inl e \<Rightarrow> Some (Err (''could not inspect native build command: '' @ e)))"

definition captured_text :: "string \<Rightarrow> captured \<Rightarrow> (string, string) result" where
  "captured_text pipe c =
     (case c of
        CapPanicked \<Rightarrow> Err (''native build '' @ pipe @ '' reader panicked'')
      | CapRead r \<Rightarrow> map_error (\<lambda>e. ''could not read native build '' @ pipe @ '': '' @ e) r)"

text \<open>The pipes are read to their ends before the result of the command counts.\<close>

definition process_output :: "string \<Rightarrow> watched_command \<Rightarrow> (string, command_result) result option" where
  "process_output program w =
     (if wc_cancelled w then Some (Err cancelled_text)
      else case wc_spawned w of
             Inl e \<Rightarrow> Some (Err (''could not run required tool `'' @ path_display program @ ''`: '' @ e))
           | Inr _ \<Rightarrow>
               map_option (\<lambda>ended.
                 rbind (captured_text ''stdout'' (wc_stdout w)) (\<lambda>stdout.
                 rbind (captured_text ''stderr'' (wc_stderr w)) (\<lambda>stderr.
                 rbind ended (\<lambda>status. Ok \<lparr>cr_status = status, cr_stdout = stdout, cr_stderr = stderr\<rparr>))))
                 (await_command (wc_looks w)))"

definition env_command_output :: "host \<Rightarrow> build_environment \<Rightarrow> string \<Rightarrow> string list \<Rightarrow> command_result host_task" where
  "env_command_output host env program args h =
     (if be_cancellable env then
        map_option (\<lambda>r. (r, h @ [EfRun program args (succeeded r)])) (process_output program (ho_watched host h program args))
      else command_output host program args h)"

definition run_tool :: "host \<Rightarrow> build_environment \<Rightarrow> string \<Rightarrow> string list \<Rightarrow> unit host_task" where
  "run_tool host env program args =
     tbind (env_command_output host env program args) (\<lambda>out.
       tresult (if es_success (cr_status out) then Ok () else Err (command_failure program args out)))"

section \<open>Validating and compiling the module\<close>

definition combine_failures :: "string option \<Rightarrow> string \<Rightarrow> string" where
  "combine_failures earlier clang_failure =
     (case earlier of
        Some first_failure \<Rightarrow>
          ''standalone LLVM validation was unusable, and Clang'' @ [CHR 0x27] @ ''s direct fallback also failed'' @ [newline, newline]
          @ ''first failure:'' @ [newline] @ first_failure @ [newline, newline]
          @ ''fallback failure:'' @ [newline] @ clang_failure
      | None \<Rightarrow> clang_failure)"

definition or_combined :: "string option \<Rightarrow> unit host_task \<Rightarrow> unit host_task" where
  "or_combined earlier f h = map_option (\<lambda>(r, h). (map_error (combine_failures earlier) r, h)) (f h)"

definition clang_direct_fallback ::
  "host \<Rightarrow> build_environment \<Rightarrow> string \<Rightarrow> string \<Rightarrow> string \<Rightarrow> string \<Rightarrow> string option \<Rightarrow> llvm_validation host_task" where
  "clang_direct_fallback host env llvm_path bitcode_path object_path reason earlier =
     tbind (or_combined earlier (run_tool host env (be_clang env)
              (target_args env @ [''-x'', ''ir'', ''-c'', ''-emit-llvm'', llvm_path, ''-o'', bitcode_path]))) (\<lambda>_.
     tbind (or_combined earlier (run_tool host env (be_clang env)
              (target_args env @ [''-x'', ''ir'', ''-O2'', ''-c'', llvm_path, ''-o'', object_path]))) (\<lambda>_.
       tret (LvClangDirect reason)))"

definition validate_and_compile_ir ::
  "host \<Rightarrow> build_environment \<Rightarrow> string \<Rightarrow> string \<Rightarrow> string \<Rightarrow> llvm_validation host_task" where
  "validate_and_compile_ir host env llvm_path bitcode_path object_path =
     (case be_llvm_as env of
        Some llvm_as \<Rightarrow>
          let assemble_args = [llvm_path, ''-o'', bitcode_path];
              compile_args = target_args env @ [''-O2'', ''-c'', bitcode_path, ''-o'', object_path]
          in tbind (env_command_output host env llvm_as assemble_args) (\<lambda>assemble.
             if es_success (cr_status assemble) then
               tbind (env_command_output host env (be_clang env) compile_args) (\<lambda>compile.
                 if es_success (cr_status compile) then tret (LvLlvmAs llvm_as)
                 else clang_direct_fallback host env llvm_path bitcode_path object_path
                        (path_display llvm_as @ '' produced bitcode incompatible with the selected Clang'')
                        (Some (command_failure (be_clang env) compile_args compile)))
             else clang_direct_fallback host env llvm_path bitcode_path object_path
                    (path_display llvm_as @ '' could not validate this IR'')
                    (Some (command_failure llvm_as assemble_args assemble)))
      | None \<Rightarrow>
          clang_direct_fallback host env llvm_path bitcode_path object_path ''standalone llvm-as was not found'' None)"

section \<open>The runtime\<close>

definition RUNTIME_FILES :: "string list" where
  "RUNTIME_FILES =
     [''crumb.c'', ''crumb.h'', ''keys.def'', ''crumb_internal.h'', ''audio.c'', ''audio_internal.h'', ''audio_macos.c'',
      ''audio_null.c'', ''input.c'', ''storage.c'', ''storage.h'', ''framebuffer.c'', ''present_ppm.c'',
      ''present_stream.c'', ''present_cocoa.m'', ''platform/posix_main.c'']"

definition source_directory :: "host \<Rightarrow> string \<Rightarrow> u64 \<Rightarrow> string" where
  "source_directory host build_dir n =
     path_join build_dir (''.crumb-sources-'' @ show_nat (ho_process_id host) @ ''-'' @ show_nat (unat n))"

text \<open>Names are tried until one is not taken; the counter wraps around.\<close>

partial_function (option) make_source_directory :: "host \<Rightarrow> string \<Rightarrow> u64 \<Rightarrow> effect list \<Rightarrow> ((string, string) result \<times> effect list) option" where
  "make_source_directory host build_dir n h =
     (let directory = source_directory host build_dir n
      in case ho_create_dir host h directory of
           Inr _ \<Rightarrow> Some (Ok directory, h @ [EfCreateDir directory True])
         | Inl (exists_already, e) \<Rightarrow>
             if exists_already then make_source_directory host build_dir (n + 1) (h @ [EfCreateDir directory False])
             else Some (Err (''could not create runtime source directory: '' @ e), h @ [EfCreateDir directory False]))"

definition write_runtime_file :: "host \<Rightarrow> string \<Rightarrow> string \<Rightarrow> unit host_task" where
  "write_runtime_file host directory name h =
     (let path = path_join directory name; failed = map_error (\<lambda>e. ''could not materialize runtime source `'' @ name @ ''`: '' @ e)
      in case path_parent path of
           None \<Rightarrow> None
         | Some parent \<Rightarrow>
             tbind (attempt (\<lambda>h. failed (ho_create_dir_all host h parent)) (EfCreateDirAll parent)) (\<lambda>_.
               attempt (\<lambda>h. failed (ho_write host h path)) (EfWrite path (ho_runtime_file host name))) h)"

fun for_each_task :: "('a \<Rightarrow> 'b host_task) \<Rightarrow> 'a list \<Rightarrow> 'b list host_task" where
  "for_each_task f [] = tret []"
| "for_each_task f (x # xs) = tbind (f x) (\<lambda>y. tbind (for_each_task f xs) (\<lambda>ys. tret (y # ys)))"

text \<open>Dropping the sources removes their directory, however the work with them ends.\<close>

definition with_runtime_sources :: "host \<Rightarrow> string \<Rightarrow> (string \<Rightarrow> 'a host_task) \<Rightarrow> 'a host_task" where
  "with_runtime_sources host build_dir work =
     tbind (make_source_directory host build_dir (ho_next_id host)) (\<lambda>directory h.
       map_option (\<lambda>(r, h). (r, h @ [EfRemoveDir directory]))
         (tbind (for_each_task (write_runtime_file host directory) RUNTIME_FILES) (\<lambda>_. work directory) h))"

definition runtime_sources :: "build_environment \<Rightarrow> presenter \<Rightarrow> string list" where
  "runtime_sources env p =
     [''crumb.c'', ''input.c'', ''storage.c'', ''framebuffer.c'', presenter_source p]
     @ audio_sources p @ runtime_platform_sources (be_target env)"

function trim_end_matches :: "string \<Rightarrow> string \<Rightarrow> string" where
  "trim_end_matches suffix s =
     (if suffix \<noteq> [] \<and> length suffix \<le> length s \<and> drop (length s - length suffix) s = suffix
      then trim_end_matches suffix (take (length s - length suffix) s) else s)"
  by pat_completeness auto
termination
proof (relation "measure (length \<circ> snd)", goal_cases)
  case (2 suffix s)
  then have "0 < length suffix" "length suffix \<le> length s" by auto
  then have "length s - length suffix < length s" by linarith
  then show ?case by simp
qed simp

declare trim_end_matches.simps [simp del]

definition runtime_object :: "build_environment \<Rightarrow> string \<Rightarrow> presenter \<Rightarrow> string \<Rightarrow> string" where
  "runtime_object env build_dir p source_name =
     (let stem = map (\<lambda>c. if c = CHR ''/'' \<or> c = CHR 0x5C then CHR ''_'' else c)
                   (trim_end_matches ''.m'' (trim_end_matches ''.c'' source_name))
      in path_join build_dir
           (''crumb_'' @ presenter_name p @ ''_'' @ stem @ ''.'' @ object_extension (be_target env)))"

definition runtime_args :: "build_environment \<Rightarrow> string \<Rightarrow> presenter \<Rightarrow> resolution \<Rightarrow> string \<Rightarrow> string \<Rightarrow> string \<Rightarrow> string list" where
  "runtime_args env crumb_dir p res source_name source object =
     target_args env @ [''-std=c11'', ''-Os'', ''-I'', crumb_dir] @ c_compile_args (be_target env) @ compile_definitions p
     @ [''-DCRUMB_FRAMEBUFFER_WIDTH='' @ show_nat (unat (res_width res)),
        ''-DCRUMB_FRAMEBUFFER_HEIGHT='' @ show_nat (unat (res_height res))]
     @ (if source_name = presenter_source p then source_compile_args p else [])
     @ [''-c'', source, ''-o'', object]"

definition compile_runtime_source ::
  "host \<Rightarrow> build_environment \<Rightarrow> string \<Rightarrow> presenter \<Rightarrow> resolution \<Rightarrow> string \<Rightarrow> string \<Rightarrow> string host_task" where
  "compile_runtime_source host env build_dir p res crumb_dir source_name =
     (let object = runtime_object env build_dir p source_name
      in tbind (run_tool host env (be_clang env)
                 (runtime_args env crumb_dir p res source_name (path_join crumb_dir source_name) object)) (\<lambda>_.
           tret object))"

definition compile_runtime :: "host \<Rightarrow> build_environment \<Rightarrow> string \<Rightarrow> presenter \<Rightarrow> resolution \<Rightarrow> string list host_task" where
  "compile_runtime host env build_dir p res =
     with_runtime_sources host build_dir (\<lambda>crumb_dir.
       for_each_task (compile_runtime_source host env build_dir p res crumb_dir) (runtime_sources env p))"

section \<open>A build\<close>

definition link_executable_args :: "build_environment \<Rightarrow> string \<Rightarrow> string list \<Rightarrow> string \<Rightarrow> presenter \<Rightarrow> string list" where
  "link_executable_args env game_object runtime_objects executable p =
     target_args env @ [game_object] @ runtime_objects @ target_link_args (be_target env) @ presenter_link_args p
     @ [''-o'', executable]"

definition link_executable :: "host \<Rightarrow> build_environment \<Rightarrow> string \<Rightarrow> string list \<Rightarrow> string \<Rightarrow> presenter \<Rightarrow> unit host_task" where
  "link_executable host env game_object runtime_objects executable p =
     run_tool host env (be_clang env) (link_executable_args env game_object runtime_objects executable p)"

definition path_file_stem :: "string \<Rightarrow> string option" where
  "path_file_stem path =
     map_option (\<lambda>name.
       let after = rev (takeWhile (\<lambda>c. c \<noteq> CHR ''.'') (rev name)); stem = take (length name - length after - 1) name
       in if CHR ''.'' \<in> set name \<and> stem \<noteq> [] then stem else name)
     (path_file_name path)"

text \<open>One character for each character of the stem; \<open>stem\<close> is UTF-8.\<close>

definition artifact_name :: "string \<Rightarrow> (string, string) result" where
  "artifact_name source_path =
     (case path_file_stem source_path of
        None \<Rightarrow> Err ''source file must have a valid UTF-8 file name''
      | Some stem \<Rightarrow>
          if \<not> utf8_valid stem then Err ''source file must have a valid UTF-8 file name''
          else
            let name = map (\<lambda>c. if is_ascii_alphanumeric c \<or> c = CHR ''_'' \<or> c = CHR ''-'' then c else CHR ''_'')
                         (filter (\<lambda>c. \<not> (128 \<le> byte c \<and> byte c < 192)) stem)
            in if name = [] then Err ''source file name does not contain a usable executable name'' else Ok name)"

definition executable_path :: "string \<Rightarrow> string \<Rightarrow> host_target \<Rightarrow> string" where
  "executable_path build_dir name target =
     (let extension = executable_extension target
      in path_join build_dir (if extension = [] then name else name @ ''.'' @ extension))"

definition module_path :: "string \<Rightarrow> string \<Rightarrow> string" where
  "module_path build_dir output_name = path_join build_dir (output_name @ ''.ll'')"

definition bitcode_path :: "string \<Rightarrow> string \<Rightarrow> string" where
  "bitcode_path build_dir output_name = path_join build_dir (output_name @ ''.bc'')"

definition object_path :: "string \<Rightarrow> string \<Rightarrow> host_target \<Rightarrow> string" where
  "object_path build_dir output_name target = path_join build_dir (output_name @ ''.'' @ object_extension target)"

definition build_directory :: "host \<Rightarrow> (string, string) result" where
  "build_directory host =
     map_sum (\<lambda>e. ''could not find current directory: '' @ e) (\<lambda>current_dir. path_join current_dir ''build'') (ho_current_dir host)"

definition create_build_dir :: "host \<Rightarrow> string \<Rightarrow> unit host_task" where
  "create_build_dir host build_dir =
     attempt (\<lambda>h. map_error (\<lambda>e. ''could not create `'' @ path_display build_dir @ ''`: '' @ e) (ho_create_dir_all host h build_dir))
       (EfCreateDirAll build_dir)"

definition write_module :: "host \<Rightarrow> string \<Rightarrow> string \<Rightarrow> unit host_task" where
  "write_module host path llvm_ir =
     attempt (\<lambda>h. map_error (\<lambda>e. ''could not write `'' @ path_display path @ ''`: '' @ e) (ho_write host h path))
       (EfWrite path llvm_ir)"

definition inspect_output :: "host \<Rightarrow> string \<Rightarrow> u64 host_task" where
  "inspect_output host executable h =
     tresult (map_error (\<lambda>e. ''could not inspect output `'' @ path_display executable @ ''`: '' @ e) (ho_len host h executable)) h"

definition output_name :: "string \<Rightarrow> presenter \<Rightarrow> (string, string) result" where
  "output_name source_path p = map_sum (\<lambda>e. e) (\<lambda>name. name @ output_suffix p) (artifact_name source_path)"

definition build_with_presenter ::
  "host \<Rightarrow> string \<Rightarrow> string \<Rightarrow> build_environment \<Rightarrow> presenter \<Rightarrow> resolution \<Rightarrow> build_artifacts host_task" where
  "build_with_presenter host source_path llvm_ir env p res =
     tbind (tresult (output_name source_path p)) (\<lambda>name.
     tbind (tresult (build_directory host)) (\<lambda>build_dir.
     tbind (create_build_dir host build_dir) (\<lambda>_.
     let llvm_path = module_path build_dir name;
         bitcode = bitcode_path build_dir name;
         object = object_path build_dir name (be_target env);
         executable = executable_path build_dir name (be_target env)
     in
     tbind (write_module host llvm_path llvm_ir) (\<lambda>_.
     tbind (validate_and_compile_ir host env llvm_path bitcode object) (\<lambda>validation.
     tbind (compile_runtime host env build_dir p res) (\<lambda>crumb_objects.
     tbind (link_executable host env object crumb_objects executable p) (\<lambda>_.
     tbind (inspect_output host executable) (\<lambda>bytes.
       tret \<lparr>ba_executable = executable, ba_llvm_ir = llvm_path, ba_llvm_bitcode = bitcode, ba_size = bytes,
             ba_llvm_validation = validation\<rparr>))))))))"

definition build_ppm :: "host \<Rightarrow> string \<Rightarrow> string \<Rightarrow> build_environment \<Rightarrow> resolution \<Rightarrow> build_artifacts host_task" where
  "build_ppm host source_path llvm_ir env res = build_with_presenter host source_path llvm_ir env PrPpm res"

definition build_for_development :: "host \<Rightarrow> string \<Rightarrow> string \<Rightarrow> build_environment \<Rightarrow> resolution \<Rightarrow> build_artifacts host_task" where
  "build_for_development host source_path llvm_ir env res =
     build_with_presenter host source_path llvm_ir env PrDevelopmentStream res"

definition build_for_native :: "host \<Rightarrow> string \<Rightarrow> string \<Rightarrow> build_environment \<Rightarrow> resolution \<Rightarrow> build_artifacts host_task" where
  "build_for_native host source_path llvm_ir env res =
     tbind (tresult (native_for_target (be_target env))) (\<lambda>p. build_with_presenter host source_path llvm_ir env p res)"

section \<open>Discovery\<close>

text \<open>A search: what it found, the candidates checked so far, and the effects so far.\<close>

type_synonym 'a search = "string list \<Rightarrow> effect list \<Rightarrow> 'a \<times> string list \<times> effect list"

definition sbind :: "'a search \<Rightarrow> ('a \<Rightarrow> 'b search) \<Rightarrow> 'b search" where
  "sbind f g checked h = (case f checked h of (a, checked, h) \<Rightarrow> g a checked h)"

definition sret :: "'a \<Rightarrow> 'a search" where
  "sret a checked h = (a, checked, h)"

definition scheck :: "string \<Rightarrow> unit search" where
  "scheck candidate checked h = ((), checked @ [candidate], h)"

definition or_else :: "'a option search \<Rightarrow> 'a option search \<Rightarrow> 'a option search" where
  "or_else f g = sbind f (\<lambda>found. case found of Some a \<Rightarrow> sret (Some a) | None \<Rightarrow> g)"

fun find_in :: "host \<Rightarrow> string \<Rightarrow> string list \<Rightarrow> string option search" where
  "find_in host name [] = sret None"
| "find_in host name (directory # directories) =
     (let candidate = path_join directory name
      in sbind (scheck (path_display candidate)) (\<lambda>_ checked h.
           if ho_is_file host h candidate then (Some candidate, checked, h)
           else find_in host name directories checked h))"

fun split_paths :: "string \<Rightarrow> string list" where
  "split_paths [] = [[]]"
| "split_paths (c # s) =
     (if c = CHR '':'' then [] # split_paths s
      else case split_paths s of [] \<Rightarrow> [[c]] | part # parts \<Rightarrow> (c # part) # parts)"

definition find_on_path :: "host \<Rightarrow> string \<Rightarrow> string option search" where
  "find_on_path host name =
     (case ho_path host of
        None \<Rightarrow> sbind (scheck (''PATH lookup for `'' @ name @ ''` (PATH is unset)'')) (\<lambda>_. sret None)
      | Some path \<Rightarrow> find_in host name (split_paths path))"

definition probe_command_path :: "host \<Rightarrow> string \<Rightarrow> string list \<Rightarrow> string option search" where
  "probe_command_path host program args checked h =
     (let command = program @ '' '' @ join '' '' args; r = ho_command host h program args; h' = h @ [EfRun program args (succeeded r)]
      in case r of
           Inl e \<Rightarrow> (None, checked @ [command @ '' (could not start: '' @ e @ '')''], h')
         | Inr out \<Rightarrow>
             if es_success (cr_status out) then
               let found = trim (path_display (cr_stdout out))
               in (if ho_exists host h' found then Some found else None, checked @ [command @ '' -> '' @ found], h')
             else (None, checked @ [command @ '' (failed: '' @ trim (path_display (cr_stderr out)) @ '')''], h'))"

definition homebrew_llvm_tool :: "host \<Rightarrow> string \<Rightarrow> string option search" where
  "homebrew_llvm_tool host name =
     sbind (probe_command_path host ''brew'' [''--prefix'', ''llvm'']) (\<lambda>found.
       case found of
         None \<Rightarrow> sret None
       | Some prefix \<Rightarrow>
           let candidate = path_join (path_join prefix ''bin'') name
           in sbind (scheck (path_display candidate)) (\<lambda>_ checked h.
                (if ho_is_file host h candidate then Some candidate else None, checked, h)))"

definition missing_tool :: "string \<Rightarrow> string list \<Rightarrow> string \<Rightarrow> string" where
  "missing_tool tool checked resolution =
     ''required tool not found: '' @ tool @ [newline] @ ''candidates checked:'' @ [newline] @ ''  - ''
     @ join (newline # ''  - '') checked @ [newline] @ ''resolution: '' @ resolution"

definition required :: "string \<Rightarrow> string \<Rightarrow> string option search \<Rightarrow> string host_task" where
  "required tool resolution f h =
     (case f [] h of (found, checked, h) \<Rightarrow>
        Some (case found of Some path \<Rightarrow> Ok path | None \<Rightarrow> Err (missing_tool tool checked resolution), h))"

definition only_on_mac :: "host_target \<Rightarrow> 'a option search \<Rightarrow> 'a option search" where
  "only_on_mac target f = (if target = MacOsArm64 then f else sret None)"

definition discover_clang :: "host \<Rightarrow> host_target \<Rightarrow> string host_task" where
  "discover_clang host target =
     required ''Clang'' (missing_clang_help target)
       (or_else (only_on_mac target (probe_command_path host ''xcrun'' [''--find'', ''clang'']))
       (or_else (find_on_path host ''clang'')
         (only_on_mac target (homebrew_llvm_tool host ''clang''))))"

definition discover_linker :: "host \<Rightarrow> host_target \<Rightarrow> string host_task" where
  "discover_linker host target =
     required ''native linker'' (missing_linker_help target)
       (case target of
          LinuxX86_64 \<Rightarrow> find_on_path host ''ld.lld''
        | MacOsArm64 \<Rightarrow> or_else (probe_command_path host ''xcrun'' [''--find'', ''ld'']) (find_on_path host ''ld''))"

definition discover_sdk :: "host \<Rightarrow> host_target \<Rightarrow> string option host_task" where
  "discover_sdk host target =
     (case target of
        LinuxX86_64 \<Rightarrow> tret None
      | MacOsArm64 \<Rightarrow>
          tbind (required ''macOS SDK'' install_command_line_tools (probe_command_path host ''xcrun'' [''--show-sdk-path'']))
            (\<lambda>path. tret (Some path)))"

definition discover_llvm_as :: "host \<Rightarrow> host_target \<Rightarrow> string option host_task" where
  "discover_llvm_as host target h =
     (case or_else (find_on_path host ''llvm-as'')
             (or_else (only_on_mac target (probe_command_path host ''xcrun'' [''--find'', ''llvm-as'']))
               (only_on_mac target (homebrew_llvm_tool host ''llvm-as''))) [] h of
        (found, _, h) \<Rightarrow> Some (Ok found, h))"

definition discover_llvm_triple :: "host \<Rightarrow> host_target \<Rightarrow> string \<Rightarrow> string host_task" where
  "discover_llvm_triple host target clang =
     tbind (command_output host clang [''-dumpmachine'']) (\<lambda>out.
       tresult
         (if \<not> es_success (cr_status out) then Err (command_failure clang [''-dumpmachine''] out)
          else
            let triple = trim (path_display (cr_stdout out))
            in if triple = [] then Ok (fallback_llvm_triple target)
               else if \<not> accepts_llvm_triple target triple then
                 Err (''selected Clang `'' @ path_display clang @ ''` reported target `'' @ triple
                   @ ''`, which does not match the detected host '' @ target_description target
                   @ ''; check which Clang is selected or rebuild Speck on a supported native host'')
               else Ok triple))"

definition discover_environment :: "host \<Rightarrow> host_target \<Rightarrow> build_environment host_task" where
  "discover_environment host target =
     tbind (discover_clang host target) (\<lambda>clang.
     tbind (discover_linker host target) (\<lambda>linker.
     tbind (discover_sdk host target) (\<lambda>sdk_path.
     tbind (discover_llvm_as host target) (\<lambda>llvm_as.
     tbind (discover_llvm_triple host target clang) (\<lambda>triple.
       tret \<lparr>be_target = target, be_clang = clang, be_linker = linker, be_llvm_as = llvm_as, be_sdk_path = sdk_path,
             be_llvm_target_triple = triple, be_cancellable = False\<rparr>)))))"

end
