(* ===== verification/Toolchain_Correct.thy ===== *)
theory Toolchain_Correct
  imports Toolchain
begin

text \<open>
  What a build that reports success has done: every command it depends on ran and succeeded, in an order in which each
  reads what an earlier one wrote, and the last one linked the executable.
\<close>

section \<open>Tasks that succeed\<close>

named_theorems task_simps \<open>what the tasks have done when they succeed\<close>

lemma tbind_ok [task_simps]:
  "tbind f g h = Some (Ok b, h2) \<longleftrightarrow> (\<exists>a h1. f h = Some (Ok a, h1) \<and> g a h1 = Some (Ok b, h2))"
  by (auto simp: tbind_def split: option.splits sum.splits)

lemma tret_ok [task_simps]: "tret a h = Some (Ok b, h2) \<longleftrightarrow> b = a \<and> h2 = h"
  by (auto simp: tret_def)

lemma tresult_ok [task_simps]: "tresult r h = Some (Ok b, h2) \<longleftrightarrow> r = Ok b \<and> h2 = h"
  by (auto simp: tresult_def)

lemma map_error_ok [task_simps]: "map_error f r = Ok a \<longleftrightarrow> r = Ok a"
  by (cases r) (auto simp: map_error_def)

lemma attempt_ok: "attempt ask note h = Some (Ok b, h2) \<Longrightarrow> h2 = h @ [note True]"
  by (auto simp: attempt_def Let_def)

lemma env_command_output_ok:
  "env_command_output host env program args h = Some (Ok out, h2) \<Longrightarrow>
   h2 = h @ [EfRun program args (es_success (cr_status out))]"
  by (auto simp: env_command_output_def command_output_def succeeded_def Let_def split: if_splits)

lemma run_tool_ok: "run_tool host env program args h = Some (Ok u, h2) \<Longrightarrow> h2 = h @ [EfRun program args True]"
  by (auto simp: run_tool_def task_simps split: if_splits dest: env_command_output_ok)

lemma or_combined_ok:
  assumes "or_combined earlier f h = Some (Ok u, h2)"
  shows "f h = Some (Ok u, h2)"
proof -
  obtain r where r: "f h = Some (r, h2)" "map_error (combine_failures earlier) r = Ok u"
    using assms by (auto simp: or_combined_def)
  then show ?thesis by (cases r) (simp_all add: map_error_def)
qed

lemma for_each_ok:
  assumes "\<And>x y h h2. f x h = Some (Ok y, h2) \<Longrightarrow> \<exists>more. h2 = h @ more \<and> P x y more"
    and "for_each_task f xs h = Some (Ok ys, h2)"
  shows "\<exists>more. h2 = h @ more \<and> list_all2 (\<lambda>x y. \<exists>part. P x y part \<and> set part \<subseteq> set more) xs ys"
  using assms(2)
proof (induction xs arbitrary: h ys)
  case (Cons x xs)
  then obtain y h1 zs where run: "f x h = Some (Ok y, h1)" "for_each_task f xs h1 = Some (Ok zs, h2)" and ys: "ys = y # zs"
    by (auto simp: task_simps)
  obtain one where one: "h1 = h @ one" "P x y one" using assms(1) [OF run(1)] by blast
  obtain more where more: "h2 = h1 @ more" "list_all2 (\<lambda>x y. \<exists>part. P x y part \<and> set part \<subseteq> set more) xs zs"
    using Cons.IH [OF run(2)] by blast
  have "list_all2 (\<lambda>x y. \<exists>part. P x y part \<and> set part \<subseteq> set (one @ more)) xs zs"
    using more(2) by (rule list_all2_mono) auto
  then show ?case using one more(1) ys by (intro exI [of _ "one @ more"]) auto
qed (simp add: task_simps)

section \<open>The parts of a build\<close>

text \<open>The module was compiled to an object, directly or through bitcode.\<close>

definition compiled_from :: "build_environment \<Rightarrow> effect list \<Rightarrow> string \<Rightarrow> string \<Rightarrow> string \<Rightarrow> llvm_validation \<Rightarrow> bool" where
  "compiled_from env h llvm_path bitcode object validation \<longleftrightarrow>
     (case validation of
        LvClangDirect _ \<Rightarrow>
          EfRun (be_clang env) (target_args env @ [''-x'', ''ir'', ''-O2'', ''-c'', llvm_path, ''-o'', object]) True \<in> set h
      | LvLlvmAs llvm_as \<Rightarrow>
          (\<exists>first rest. h = first @ rest \<and> EfRun llvm_as [llvm_path, ''-o'', bitcode] True \<in> set first \<and>
             EfRun (be_clang env) (target_args env @ [''-O2'', ''-c'', bitcode, ''-o'', object]) True \<in> set rest))"

lemma clang_direct_ok:
  assumes "clang_direct_fallback host env llvm_path bitcode object reason earlier h = Some (Ok v, h2)"
  shows "\<exists>more. h2 = h @ more \<and> v = LvClangDirect reason \<and> compiled_from env more llvm_path bitcode object v"
  using assms
  by (auto simp: clang_direct_fallback_def task_simps compiled_from_def dest!: or_combined_ok run_tool_ok)

lemma compiled_from_more:
  assumes "compiled_from env h l b obj v"
  shows "compiled_from env (e # h) l b obj v"
proof (cases v)
  case (LvLlvmAs llvm_as)
  then obtain first rest where "h = first @ rest" "EfRun llvm_as [l, ''-o'', b] True \<in> set first"
    "EfRun (be_clang env) (target_args env @ [''-O2'', ''-c'', b, ''-o'', obj]) True \<in> set rest"
    using assms by (auto simp: compiled_from_def)
  then have "e # h = (e # first) @ rest" "EfRun llvm_as [l, ''-o'', b] True \<in> set (e # first)" by simp_all
  then show ?thesis
    using \<open>EfRun (be_clang env) _ True \<in> set rest\<close> unfolding LvLlvmAs compiled_from_def llvm_validation.case by blast
qed (use assms in \<open>simp add: compiled_from_def\<close>)

lemma validate_ok:
  assumes "validate_and_compile_ir host env llvm_path bitcode object h = Some (Ok v, h2)"
  shows "\<exists>more. h2 = h @ more \<and> compiled_from env more llvm_path bitcode object v"
proof (cases "be_llvm_as env")
  case None
  then show ?thesis using assms clang_direct_ok by (fastforce simp: validate_and_compile_ir_def)
next
  case (Some llvm_as)
  let ?assemble = "[llvm_path, ''-o'', bitcode]"
  let ?compile = "target_args env @ [''-O2'', ''-c'', bitcode, ''-o'', object]"
  obtain assembled h1 where assemble: "env_command_output host env llvm_as ?assemble h = Some (Ok assembled, h1)"
    using assms Some by (auto simp: validate_and_compile_ir_def task_simps Let_def)
  note h1 = env_command_output_ok [OF assemble]
  show ?thesis
  proof (cases "es_success (cr_status assembled)")
    case False
    then have "clang_direct_fallback host env llvm_path bitcode object
        (path_display llvm_as @ '' could not validate this IR'') (Some (command_failure llvm_as ?assemble assembled)) h1 = Some (Ok v, h2)"
      using assms Some assemble by (auto simp: validate_and_compile_ir_def task_simps Let_def)
    then obtain more where "h2 = h1 @ more" "compiled_from env more llvm_path bitcode object v"
      using clang_direct_ok by blast
    then show ?thesis using compiled_from_more h1 by simp
  next
    case True
    then obtain compiled h3 where compile: "env_command_output host env (be_clang env) ?compile h1 = Some (Ok compiled, h3)"
      and rest: "(if es_success (cr_status compiled) then tret (LvLlvmAs llvm_as)
        else clang_direct_fallback host env llvm_path bitcode object
          (path_display llvm_as @ '' produced bitcode incompatible with the selected Clang'')
          (Some (command_failure (be_clang env) ?compile compiled))) h3 = Some (Ok v, h2)"
      using assms Some assemble by (auto simp: validate_and_compile_ir_def task_simps Let_def)
    note h3 = env_command_output_ok [OF compile]
    show ?thesis
    proof (cases "es_success (cr_status compiled)")
      case True
      show ?thesis
      proof -
        have "v = LvLlvmAs llvm_as" "h2 = h @ [EfRun llvm_as ?assemble True] @ [EfRun (be_clang env) ?compile True]"
          using rest h1 h3 True \<open>es_success (cr_status assembled)\<close> by (simp_all add: task_simps)
        moreover from this(1) have "compiled_from env ([EfRun llvm_as ?assemble True] @ [EfRun (be_clang env) ?compile True])
            llvm_path bitcode object v"
          unfolding compiled_from_def llvm_validation.case
          by (simp only: llvm_validation.case) (intro exI conjI, rule refl, simp_all)
        ultimately show ?thesis by blast
      qed
    next
      case False
      then have "clang_direct_fallback host env llvm_path bitcode object
          (path_display llvm_as @ '' produced bitcode incompatible with the selected Clang'')
          (Some (command_failure (be_clang env) ?compile compiled)) h3 = Some (Ok v, h2)"
        using rest by simp
      then obtain more where more: "h2 = h3 @ more" "compiled_from env more llvm_path bitcode object v"
        using clang_direct_ok by blast
      show ?thesis using compiled_from_more [OF compiled_from_more [OF more(2)]] more(1) h1 h3 by simp
    qed
  qed
qed

lemma make_source_directory_ok:
  assumes "make_source_directory host build_dir n h = Some z"
  shows "\<exists>more. snd z = h @ more"
proof (rule make_source_directory.raw_induct [OF _ assms, of "\<lambda>host build_dir n h z. \<exists>more. snd z = h @ more"])
  fix make and host :: host and build_dir :: string and n :: u64 and h z
  assume step: "\<And>host build_dir n h z. make host build_dir n h = Some z \<Longrightarrow> \<exists>more. snd z = h @ more"
    and run: "(let directory = source_directory host build_dir n
      in case ho_create_dir host h directory of
           Inl (exists_already, e) \<Rightarrow>
             if exists_already then make host build_dir (n + 1) (h @ [EfCreateDir directory False])
             else Some (Err (''could not create runtime source directory: '' @ e), h @ [EfCreateDir directory False])
         | Inr _ \<Rightarrow> Some (Ok directory, h @ [EfCreateDir directory True])) = Some z"
  show "\<exists>more. snd z = h @ more"
    using run by (auto simp: Let_def split: sum.splits if_splits dest!: step)
qed

lemma list_all2_some: "list_all2 P xs ys \<Longrightarrow> x \<in> set xs \<Longrightarrow> \<exists>y. P x y"
  by (induction rule: list_all2_induct) auto

lemma write_runtime_file_ok:
  assumes "write_runtime_file host directory name h = Some (Ok u, h2)"
  shows "\<exists>more. h2 = h @ more \<and> EfWrite (path_join directory name) (ho_runtime_file host name) True \<in> set more"
  using assms by (auto simp: write_runtime_file_def Let_def task_simps split: option.splits dest!: attempt_ok)

text \<open>An object of the runtime: compiled from a source written before, at the resolution of the game.\<close>

definition runtime_object_made :: "host \<Rightarrow> build_environment \<Rightarrow> presenter \<Rightarrow> resolution \<Rightarrow> effect list \<Rightarrow> string \<Rightarrow> string \<Rightarrow> bool" where
  "runtime_object_made host env p res h source_name object \<longleftrightarrow>
     (\<exists>first rest crumb_dir. h = first @ rest \<and>
        (\<forall>name \<in> set RUNTIME_FILES. EfWrite (path_join crumb_dir name) (ho_runtime_file host name) True \<in> set first) \<and>
        EfRun (be_clang env) (runtime_args env crumb_dir p res source_name (path_join crumb_dir source_name) object) True \<in> set rest)"

lemma compile_runtime_ok:
  assumes "compile_runtime host env build_dir p res h = Some (Ok objects, h2)"
  shows "\<exists>more. h2 = h @ more \<and> list_all2 (runtime_object_made host env p res more) (runtime_sources env p) objects"
proof -
  obtain crumb_dir h1 h3 h4 us where made: "make_source_directory host build_dir (ho_next_id host) h = Some (Ok crumb_dir, h1)"
    and written: "for_each_task (write_runtime_file host crumb_dir) RUNTIME_FILES h1 = Some (Ok us, h3)"
    and compiled: "for_each_task (compile_runtime_source host env build_dir p res crumb_dir) (runtime_sources env p) h3 = Some (Ok objects, h4)"
    and h2: "h2 = h4 @ [EfRemoveDir crumb_dir]"
    using assms by (auto simp: compile_runtime_def with_runtime_sources_def task_simps)
  obtain first where first: "h1 = h @ first" using make_source_directory_ok [OF made] by auto
  have "\<exists>more. h3 = h1 @ more \<and> list_all2 (\<lambda>name y. \<exists>part. EfWrite (path_join crumb_dir name) (ho_runtime_file host name) True \<in> set part \<and>
      set part \<subseteq> set more) RUNTIME_FILES us"
    using written by (rule for_each_ok [rotated]) (rule write_runtime_file_ok)
  then obtain writes where h3: "h3 = h1 @ writes"
    and all: "list_all2 (\<lambda>name y. \<exists>part. EfWrite (path_join crumb_dir name) (ho_runtime_file host name) True \<in> set part \<and>
      set part \<subseteq> set writes) RUNTIME_FILES us" by (elim exE conjE) rule
  have writes: "h3 = h1 @ writes"
    "\<forall>name \<in> set RUNTIME_FILES. EfWrite (path_join crumb_dir name) (ho_runtime_file host name) True \<in> set writes"
    using h3 list_all2_some [OF all] by auto
  let ?run = "\<lambda>source_name object. EfRun (be_clang env) (runtime_args env crumb_dir p res source_name (path_join crumb_dir source_name) object) True"
  have "\<exists>more. h4 = h3 @ more \<and> list_all2 (\<lambda>n obj. \<exists>part. ?run n obj \<in> set part \<and> set part \<subseteq> set more) (runtime_sources env p) objects"
    using compiled
    by (rule for_each_ok [rotated]) (auto simp: compile_runtime_source_def Let_def task_simps dest!: run_tool_ok)
  then obtain runs where runs: "h4 = h3 @ runs"
    "list_all2 (\<lambda>n obj. \<exists>part. ?run n obj \<in> set part \<and> set part \<subseteq> set runs) (runtime_sources env p) objects"
    by (elim exE conjE) rule
  have "list_all2 (runtime_object_made host env p res (first @ writes @ runs @ [EfRemoveDir crumb_dir])) (runtime_sources env p) objects"
    using runs(2)
  proof (rule list_all2_mono)
    fix n obj
    assume "\<exists>part. ?run n obj \<in> set part \<and> set part \<subseteq> set runs"
    then have "?run n obj \<in> set runs" by auto
    then show "runtime_object_made host env p res (first @ writes @ runs @ [EfRemoveDir crumb_dir]) n obj"
      using writes(2) unfolding runtime_object_made_def
      by (intro exI [of _ "first @ writes"] exI [of _ "runs @ [EfRemoveDir crumb_dir]"] exI [of _ crumb_dir]) auto
  qed
  then show ?thesis using first writes(1) runs(1) h2 by auto
qed

section \<open>A build\<close>

text \<open>
  C12 A build that reports success is complete: the module was written, and only after that compiled, to an object,
  directly or through bitcode; after that every source of the runtime for the presenter was written and compiled at the resolution
  of the game; and the last command linked exactly these objects to the executable, all of them with success.
\<close>

theorem successful_build_is_complete:
  assumes "build_with_presenter host source_path llvm env p res h = Some (Ok artifacts, h')"
  shows "\<exists>before_it mid1 mid2 game objects.
    h' = before_it @ [EfWrite (ba_llvm_ir artifacts) llvm True] @ mid1 @ mid2
      @ [EfRun (be_clang env) (link_executable_args env game objects (ba_executable artifacts) p) True] \<and>
    compiled_from env mid1 (ba_llvm_ir artifacts) (ba_llvm_bitcode artifacts) game (ba_llvm_validation artifacts) \<and>
    list_all2 (runtime_object_made host env p res mid2) (runtime_sources env p) objects"
proof -
  obtain name build_dir where name: "output_name source_path p = Ok name" "build_directory host = Ok build_dir"
    using assms by (auto simp: build_with_presenter_def task_simps)
  let ?llvm_path = "module_path build_dir name" and ?bitcode = "bitcode_path build_dir name"
    and ?object = "object_path build_dir name (be_target env)" and ?executable = "executable_path build_dir name (be_target env)"
  obtain h1 h2 h3 h4 h5 validation objects where "create_build_dir host build_dir h = Some (Ok (), h1)"
    and written: "write_module host ?llvm_path llvm h1 = Some (Ok (), h2)"
    and validated: "validate_and_compile_ir host env ?llvm_path ?bitcode ?object h2 = Some (Ok validation, h3)"
    and compiled: "compile_runtime host env build_dir p res h3 = Some (Ok objects, h4)"
    and linked: "link_executable host env ?object objects ?executable p h4 = Some (Ok (), h5)"
    and artifacts: "h' = h5" "ba_executable artifacts = ?executable" "ba_llvm_ir artifacts = ?llvm_path"
      "ba_llvm_bitcode artifacts = ?bitcode" "ba_llvm_validation artifacts = validation"
    using assms by (auto simp: build_with_presenter_def task_simps Let_def name inspect_output_def)
  obtain mid1 where mid1: "h3 = h2 @ mid1" "compiled_from env mid1 ?llvm_path ?bitcode ?object validation"
    using validate_ok [OF validated] by blast
  obtain mid2 where mid2: "h4 = h3 @ mid2" "list_all2 (runtime_object_made host env p res mid2) (runtime_sources env p) objects"
    using compile_runtime_ok [OF compiled] by blast
  have "h5 = h4 @ [EfRun (be_clang env) (link_executable_args env ?object objects ?executable p) True]"
    using run_tool_ok [OF linked [unfolded link_executable_def]] .
  then have "h' = h1 @ [EfWrite ?llvm_path llvm True] @ mid1 @ mid2
      @ [EfRun (be_clang env) (link_executable_args env ?object objects ?executable p) True]"
    using attempt_ok [OF written [unfolded write_module_def]] mid1(1) mid2(1) artifacts(1) by simp
  then show ?thesis
    unfolding artifacts(2-5) using mid1(2) mid2(2)
    by (intro exI [of _ h1] exI [of _ mid1] exI [of _ mid2] exI [of _ ?object] exI [of _ objects]) simp
qed

text \<open>A host on which every command succeeds.\<close>

definition sample_host :: host where
  "sample_host =
     \<lparr>ho_current_dir = Ok ''/w'', ho_path = Some ''/bin'', ho_process_id = 7, ho_next_id = 0, ho_runtime_file = (\<lambda>_. []),
      ho_is_file = (\<lambda>_ _. True), ho_exists = (\<lambda>_ _. True), ho_len = (\<lambda>_ _. Ok 4096), ho_create_dir_all = (\<lambda>_ _. Ok ()),
      ho_create_dir = (\<lambda>_ _. Ok ()), ho_write = (\<lambda>_ _. Ok ()),
      ho_command = (\<lambda>_ _ _. Ok \<lparr>cr_status = \<lparr>es_success = True, es_text = []\<rparr>, cr_stdout = [], cr_stderr = []\<rparr>),
      ho_watched = (\<lambda>_ _ _. \<lparr>wc_cancelled = True, wc_spawned = Ok (), wc_looks = [], wc_stdout = CapPanicked, wc_stderr = CapPanicked\<rparr>)\<rparr>"

definition sample_environment :: build_environment where
  "sample_environment =
     \<lparr>be_target = LinuxX86_64, be_clang = ''/bin/clang'', be_linker = ''/bin/ld.lld'', be_llvm_as = None, be_sdk_path = None,
      be_llvm_target_triple = ''x86_64-pc-linux-gnu'', be_cancellable = False\<rparr>"

lemma sample_run: "run_tool sample_host sample_environment program args h = Some (Ok (), h @ [EfRun program args True])"
  by (simp add: run_tool_def env_command_output_def command_output_def sample_host_def sample_environment_def tbind_def tresult_def
      map_error_def succeeded_def)

lemma for_each_returns:
  "(\<And>x h. x \<in> set xs \<Longrightarrow> \<exists>y h2. f x h = Some (Ok y, h2)) \<Longrightarrow> \<exists>ys h2. for_each_task f xs h = Some (Ok ys, h2)"
  by (induction xs arbitrary: h) (fastforce simp: task_simps)+

lemma sample_writes:
  assumes "name \<in> set RUNTIME_FILES"
  shows "\<exists>h2. write_runtime_file sample_host (''/w'' @ d) name h = Some (Ok (), h2)"
proof -
  have "name \<noteq> []" "\<not> is_absolute name" using assms by (auto simp: RUNTIME_FILES_def is_absolute_def)
  then have "path_join (''/w'' @ d) name \<noteq> []" "path_join (''/w'' @ d) name \<noteq> ''/''" by (auto simp: path_join_def)
  then obtain parent where "path_parent (path_join (''/w'' @ d) name) = Some parent"
    by (fastforce simp: path_parent_def Let_def)
  then show ?thesis
    by (simp add: write_runtime_file_def Let_def tbind_def attempt_def map_error_def sample_host_def)
qed

lemma sample_directory:
  "\<exists>d h2. make_source_directory sample_host ''/w/build'' n h = Some (Ok (''/w'' @ d), h2)"
proof -
  have "source_directory sample_host ''/w/build'' n = ''/w'' @ (''/build/.crumb-sources-'' @ show_nat 7 @ ''-'' @ show_nat (unat n))"
    by (simp add: source_directory_def path_join_def is_absolute_def sample_host_def)
  moreover have "ho_create_dir sample_host h directory = Ok ()" for directory by (simp add: sample_host_def)
  ultimately show ?thesis by (subst make_source_directory.simps) (simp add: Let_def)
qed

lemma sample_runtime: "\<exists>objects h2. compile_runtime sample_host sample_environment ''/w/build'' p res h = Some (Ok objects, h2)"
proof -
  obtain d h1 where directory: "make_source_directory sample_host ''/w/build'' (ho_next_id sample_host) h = Some (Ok (''/w'' @ d), h1)"
    using sample_directory by blast
  obtain us h2 where "for_each_task (write_runtime_file sample_host (''/w'' @ d)) RUNTIME_FILES h1 = Some (Ok us, h2)"
    using for_each_returns [of RUNTIME_FILES "write_runtime_file sample_host (''/w'' @ d)" h1] sample_writes by blast
  moreover have "\<exists>y h2. compile_runtime_source sample_host sample_environment ''/w/build'' p res (''/w'' @ d) name h = Some (Ok y, h2)" for name h
    using sample_run by (simp add: compile_runtime_source_def Let_def task_simps)
  then obtain objects h3 where "for_each_task (compile_runtime_source sample_host sample_environment ''/w/build'' p res (''/w'' @ d))
      (runtime_sources sample_environment p) h2 = Some (Ok objects, h3)"
    using for_each_returns [of "runtime_sources sample_environment p"
        "compile_runtime_source sample_host sample_environment ''/w/build'' p res (''/w'' @ d)" h2] by auto
  ultimately show ?thesis using directory by (simp add: compile_runtime_def with_runtime_sources_def tbind_def)
qed

lemma sample_build:
  "\<exists>artifacts h. build_with_presenter sample_host ''game.spk'' llvm sample_environment PrPpm res [] = Some (Ok artifacts, h)"
proof -
  have name: "output_name ''game.spk'' PrPpm = Ok ''game''" by code_simp
  have dir: "build_directory sample_host = Ok ''/w/build''"
    by (simp add: build_directory_def sample_host_def path_join_def is_absolute_def)
  have tasks: "create_build_dir sample_host d h = Some (Ok (), h @ [EfCreateDirAll d True])"
    "write_module sample_host l t h = Some (Ok (), h @ [EfWrite l t True])" "inspect_output sample_host e h = Some (Ok 4096, h)" for d h l t e
    by (simp_all add: create_build_dir_def write_module_def inspect_output_def attempt_def tresult_def map_error_def sample_host_def)
  have validated: "\<exists>v h2. validate_and_compile_ir sample_host sample_environment l b obj h = Some (Ok v, h2)" for l b obj h
  proof -
    have "be_llvm_as sample_environment = None" by (simp add: sample_environment_def)
    then show ?thesis
      by (simp add: validate_and_compile_ir_def clang_direct_fallback_def task_simps or_combined_def sample_run)
  qed
  have linked: "link_executable sample_host sample_environment g objects e p h =
      Some (Ok (), h @ [EfRun (be_clang sample_environment) (link_executable_args sample_environment g objects e p) True])" for g objects e p h
    by (simp add: link_executable_def sample_run)
  show ?thesis
  proof -
    let ?object = "object_path ''/w/build'' ''game'' (be_target sample_environment)"
    obtain v h2 where v: "validate_and_compile_ir sample_host sample_environment (module_path ''/w/build'' ''game'')
        (bitcode_path ''/w/build'' ''game'') ?object
        ([] @ [EfCreateDirAll ''/w/build'' True] @ [EfWrite (module_path ''/w/build'' ''game'') llvm True]) = Some (Ok v, h2)"
      using validated by blast
    obtain objects h3 where "compile_runtime sample_host sample_environment ''/w/build'' PrPpm res h2 = Some (Ok objects, h3)"
      using sample_runtime by blast
    then show ?thesis
      using v unfolding build_with_presenter_def Let_def name dir by (simp add: task_simps tasks linked)
  qed
qed

theorem successful_build_is_complete_witness:
  "\<exists>artifacts h before_it mid1 mid2 game objects.
    build_with_presenter sample_host ''game.spk'' ''; llvm'' sample_environment PrPpm resolution_default [] = Some (Ok artifacts, h) \<and>
    h = before_it @ [EfWrite (ba_llvm_ir artifacts) ''; llvm'' True] @ mid1 @ mid2
      @ [EfRun (be_clang sample_environment) (link_executable_args sample_environment game objects (ba_executable artifacts) PrPpm) True]"
proof -
  obtain artifacts h where run: "build_with_presenter sample_host ''game.spk'' ''; llvm'' sample_environment PrPpm resolution_default [] = Some (Ok artifacts, h)"
    using sample_build by blast
  from successful_build_is_complete [OF run] run show ?thesis by blast
qed

text \<open>
  The names of the objects can clash: the object of a game \<open>crumb_ppm_crumb.spk\<close> is overwritten by that of the
  runtime's \<open>crumb.c\<close> before the two are linked.
\<close>

lemma game_object_clashes:
  "output_name ''crumb_ppm_crumb.spk'' PrPpm = Ok ''crumb_ppm_crumb'' \<and>
   object_path build_dir ''crumb_ppm_crumb'' (be_target env) = runtime_object env build_dir PrPpm ''crumb.c''"
proof
  show "output_name ''crumb_ppm_crumb.spk'' PrPpm = Ok ''crumb_ppm_crumb''" by code_simp
  have "trim_end_matches ''.m'' (trim_end_matches ''.c'' ''crumb.c'') = ''crumb''" by code_simp
  then show "object_path build_dir ''crumb_ppm_crumb'' (be_target env) = runtime_object env build_dir PrPpm ''crumb.c''"
    by (simp add: object_path_def runtime_object_def presenter_name_def object_extension_def)
qed

end
