(* ===== verification/Cli.thy ===== *)
theory Cli
  imports Toolchain Watch
begin

text \<open>
  The command line, \<^verbatim>\<open>src/src/cli.rs\<close>: its options, the dispatch, and the commands composed from
  the analysis, the code generator, the toolchain and the development session. What is printed on success is left
  out, and so are the panics of printing; None is a panic or a wait that has not ended.
\<close>

section \<open>Options\<close>

definition frame_limit_value :: "string \<Rightarrow> (string, 32 word) result" where
  "frame_limit_value value =
     (case parse_unsigned (2 ^ 32) (path_display value) of
        None \<Rightarrow> Err (''invalid `--frames` value `'' @ path_display value @ ''`'')
      | Some n \<Rightarrow> if n = 0 then Err ''`--frames` must be greater than zero'' else Ok (of_nat n))"

text \<open>An argument that no option takes: an unknown option, the source, or one source too many.\<close>

definition source_argument :: "string \<Rightarrow> string \<Rightarrow> string option \<Rightarrow> string \<Rightarrow> (string, string option) result" where
  "source_argument unknown too_many source argument =
     (let shown = path_display argument in
      if shown \<noteq> [] \<and> hd shown = CHR ''-'' then Err (unknown @ '' `'' @ shown @ ''`'')
      else case source of None \<Rightarrow> Ok (Some argument) | Some _ \<Rightarrow> Err too_many)"

fun native_args_loop :: "string list \<Rightarrow> 32 word option \<Rightarrow> string option \<Rightarrow> (string, string option \<times> 32 word option) result" where
  "native_args_loop [] limit source = Ok (source, limit)"
| "native_args_loop (argument # args) limit source =
     (if path_display argument = ''--frames'' then
        (case args of
           [] \<Rightarrow> Err ''`--frames` requires a positive integer''
         | value # rest \<Rightarrow> rbind (frame_limit_value value) (\<lambda>n. native_args_loop rest (Some n) source))
      else rbind (source_argument ''unknown native-run option'' ''native run accepts exactly one `.spk` source file'' source argument)
             (\<lambda>source. native_args_loop args limit source))"

definition parse_native_args :: "string list \<Rightarrow> (string, string \<times> 32 word option) result" where
  "parse_native_args args =
     rbind (native_args_loop args None None) (\<lambda>(source, limit).
       case source of Some path \<Rightarrow> Ok (path, limit) | None \<Rightarrow> Err ''expected `speck run <game.spk>`'')"

text \<open>The parser of IP addresses is the standard library's.\<close>

fun dev_args_loop ::
  "(string \<Rightarrow> ip_addr option) \<Rightarrow> string list \<Rightarrow> dev_options \<Rightarrow> string option \<Rightarrow> (string, string option \<times> dev_options) result" where
  "dev_args_loop parse_ip [] options source = Ok (source, options)"
| "dev_args_loop parse_ip (argument # args) options source =
     (let shown = path_display argument in
      if shown = ''--watch'' then dev_args_loop parse_ip args (options\<lparr>opt_watch := True\<rparr>) source
      else if shown = ''--bind'' then
        (case args of
           [] \<Rightarrow> Err ''`--bind` requires an IP address''
         | value # rest \<Rightarrow>
             (case parse_ip (path_display value) of
                None \<Rightarrow> Err (''invalid `--bind` IP address `'' @ path_display value @ ''`'')
              | Some ip \<Rightarrow> dev_args_loop parse_ip rest (options\<lparr>opt_bind := ip\<rparr>) source))
      else if shown = ''--port'' then
        (case args of
           [] \<Rightarrow> Err ''`--port` requires a number from 0 to 65535''
         | value # rest \<Rightarrow>
             (case parse_unsigned (2 ^ 16) (path_display value) of
                None \<Rightarrow> Err (''invalid `--port` value `'' @ path_display value @ ''`'')
              | Some n \<Rightarrow> dev_args_loop parse_ip rest (options\<lparr>opt_port := of_nat n, opt_port_explicit := True\<rparr>) source))
      else if shown = ''--frames'' then
        (case args of
           [] \<Rightarrow> Err ''`--frames` requires a positive integer''
         | value # rest \<Rightarrow>
             rbind (frame_limit_value value) (\<lambda>n. dev_args_loop parse_ip rest (options\<lparr>opt_frame_limit := Some n\<rparr>) source))
      else rbind (source_argument ''unknown development option'' ''development mode accepts exactly one `.spk` source file'' source argument)
             (\<lambda>source. dev_args_loop parse_ip args options source))"

definition parse_dev_args :: "(string \<Rightarrow> ip_addr option) \<Rightarrow> string list \<Rightarrow> (string, string \<times> dev_options) result" where
  "parse_dev_args parse_ip args =
     rbind (dev_args_loop parse_ip args dev_options_default None) (\<lambda>(source, options).
       case source of Some path \<Rightarrow> Ok (path, options) | None \<Rightarrow> Err ''expected `speck dev <game.spk>`'')"

section \<open>Commands\<close>

text \<open>
  What the process is run on: the file system of the analysis, the host of the toolchain with the names that the compiler
  was built for, and the answers that a development session or a native game will meet.
\<close>

record native_look =
  nl_interrupted :: bool
  nl_forwarded :: "(string, unit) result"
  nl_waited :: "(string, exit_status option) result"
  nl_late :: bool

record cli_env =
  ce_files :: file_system
  ce_host :: host
  ce_os :: string
  ce_arch :: string
  ce_parse_ip :: "string \<Rightarrow> ip_addr option"
  ce_handler :: "(string, unit) result"
  ce_native_spawned :: "(string, unit) result"
  ce_native_looks :: "native_look list"
  ce_native_interrupted :: bool
  ce_session :: "(string, session) result"
  ce_cancelled :: bool
  ce_launch :: launch_env
  ce_run_turns :: "run_turn list"
  ce_final :: stop_env
  ce_interrupted :: bool
  ce_disk :: disk
  ce_watch_turns :: "turn list"
  ce_watch_fatal :: "string option"

datatype exit_code = ExSuccess | ExFailure | ExUsage

definition exit_of :: "(string, 'a) result \<Rightarrow> exit_code" where
  "exit_of r = (case r of Inl _ \<Rightarrow> ExFailure | Inr _ \<Rightarrow> ExSuccess)"

definition read_program :: "cli_env \<Rightarrow> string \<Rightarrow> (exit_code, checked_program) result option" where
  "read_program env path =
     (if path_extension path \<noteq> Some ''spk'' then Some (Err ExUsage)
      else map_option (map_sum (\<lambda>_. ExFailure) (\<lambda>checked. checked)) (analyze_path (ce_files env) path))"

definition cli_check :: "cli_env \<Rightarrow> string \<Rightarrow> exit_code option" where
  "cli_check env path = map_option (\<lambda>r. case r of Inl status \<Rightarrow> status | Inr _ \<Rightarrow> ExSuccess) (read_program env path)"

definition display_path :: "cli_env \<Rightarrow> string \<Rightarrow> string" where
  "display_path env path =
     (let dir = (case ho_current_dir (ce_host env) of Inl _ \<Rightarrow> [] | Inr dir \<Rightarrow> dir)
      in case strip_path_prefix dir path of Some rest \<Rightarrow> rest | None \<Rightarrow> path)"

text \<open>\<open>HostTarget::detect\<close>, then \<open>BuildEnvironment::discover\<close>.\<close>

definition discovered :: "cli_env \<Rightarrow> build_environment host_task" where
  "discovered env = tbind (tresult (from_os_arch (ce_os env) (ce_arch env))) (discover_environment (ce_host env))"

text \<open>An analysis accepted with its module emitted, then a task; failures of the task print and exit.\<close>

definition with_program :: "cli_env \<Rightarrow> string \<Rightarrow> (checked_program \<Rightarrow> exit_code option) \<Rightarrow> exit_code option" where
  "with_program env path work =
     (case read_program env path of None \<Rightarrow> None | Some (Inl status) \<Rightarrow> Some status | Some (Inr checked) \<Rightarrow> work checked)"

definition cli_build :: "cli_env \<Rightarrow> string \<Rightarrow> exit_code option" where
  "cli_build env path =
     with_program env path (\<lambda>checked.
       map_option (exit_of \<circ> fst)
         (tbind (discovered env) (\<lambda>be h.
            case emit_for_target (checked_ast checked) (Some (be_llvm_target_triple be)) of
              None \<Rightarrow> None
            | Some llvm \<Rightarrow> build_ppm (ce_host env) path llvm be (program_resolution (checked_ast checked)) h) []))"

text \<open>The looks at a native game: an interrupt is forwarded once and starts the two seconds.\<close>

fun await_native :: "bool \<Rightarrow> native_look list \<Rightarrow> (string, exit_status) result option" where
  "await_native forwarded [] = None"
| "await_native forwarded (look # looks) =
     (case (if nl_interrupted look \<and> \<not> forwarded then nl_forwarded look else Ok ()) of
        Inl e \<Rightarrow> Some (Err e)
      | Inr _ \<Rightarrow>
          let forwarded = (forwarded \<or> nl_interrupted look) in
          (case nl_waited look of
             Inl e \<Rightarrow> Some (Err (''could not inspect native game: '' @ e))
           | Inr (Some status) \<Rightarrow> Some (Ok status)
           | Inr None \<Rightarrow>
               if forwarded \<and> nl_late look then Some (Err ''native game did not stop within two seconds of Ctrl-C'')
               else await_native forwarded looks))"

definition launch_native :: "cli_env \<Rightarrow> string \<Rightarrow> (string, bool) result option" where
  "launch_native env executable =
     (case ce_handler env of
        Inl e \<Rightarrow> Some (Err (''could not install Ctrl-C handler: '' @ e))
      | Inr _ \<Rightarrow>
          (case ce_native_spawned env of
             Inl e \<Rightarrow> Some (Err (''could not launch native game `'' @ path_display executable @ ''`: '' @ e))
           | Inr _ \<Rightarrow>
               map_option (\<lambda>ended. rbind ended (\<lambda>status.
                 if es_success status then Ok (ce_native_interrupted env)
                 else Err (''native game exited with '' @ es_text status))) (await_native False (ce_native_looks env))))"

definition needs_mac :: "host_target \<Rightarrow> (string, host_target) result" where
  "needs_mac target = map_sum (\<lambda>e. e) (\<lambda>_. target) (native_for_target target)"

definition cli_native :: "cli_env \<Rightarrow> string list \<Rightarrow> exit_code option" where
  "cli_native env args =
     (case parse_native_args args of
        Inl _ \<Rightarrow> Some ExUsage
      | Inr (path, limit) \<Rightarrow>
          with_program env path (\<lambda>checked.
            case tbind (tresult (rbind (from_os_arch (ce_os env) (ce_arch env)) needs_mac)) (\<lambda>target.
                 tbind (discover_environment (ce_host env) target) (\<lambda>be h.
                   case emit_for_development (checked_ast checked) (checked_sources checked) (Some (be_llvm_target_triple be)) of
                     None \<Rightarrow> None
                   | Some llvm \<Rightarrow> build_for_native (ce_host env) path llvm be (program_resolution (checked_ast checked)) h)) [] of
              None \<Rightarrow> None
            | Some (Inl _, _) \<Rightarrow> Some ExFailure
            | Some (Inr artifacts, _) \<Rightarrow> map_option exit_of (launch_native env (ba_executable artifacts))))"

text \<open>Development without \<open>--watch\<close>: the build happens in the session, under its cancellation.\<close>

definition cli_dev_run :: "cli_env \<Rightarrow> string \<Rightarrow> checked_program \<Rightarrow> build_environment \<Rightarrow> effect list \<Rightarrow> exit_code option" where
  "cli_dev_run env path checked be h =
     (case emit_for_development (checked_ast checked) (checked_sources checked) (Some (be_llvm_target_triple be)) of
        None \<Rightarrow> None
      | Some llvm \<Rightarrow>
          (case ce_session env of
             Inl _ \<Rightarrow> Some ExFailure
           | Inr _ \<Rightarrow>
               (case build_for_development (ce_host env) path llvm (with_cancellation be) (program_resolution (checked_ast checked)) h of
                  None \<Rightarrow> None
                | Some (built, _) \<Rightarrow>
                    map_option exit_of
                      (dev_run (ce_session env) (map_sum (\<lambda>e. e) ba_executable built) (ce_cancelled env) (ce_launch env)
                         (ce_run_turns env) (ce_final env) (ce_interrupted env)))))"

definition cli_watch :: "cli_env \<Rightarrow> string \<Rightarrow> build_environment \<Rightarrow> exit_code option" where
  "cli_watch env path be =
     (case watch_run path (be_llvm_target_triple be) (ce_session env) (ce_disk env) (ce_watch_turns env) (ce_watch_fatal env) (ce_final env) of
        None \<Rightarrow> None
      | Some None \<Rightarrow> None
      | Some (Some r) \<Rightarrow> Some (exit_of r))"

definition cli_development :: "cli_env \<Rightarrow> string list \<Rightarrow> exit_code option" where
  "cli_development env args =
     (case parse_dev_args (ce_parse_ip env) args of
        Inl _ \<Rightarrow> Some ExUsage
      | Inr (path, options) \<Rightarrow>
          if opt_watch options then
            if path_extension path \<noteq> Some ''spk'' then Some ExUsage
            else (case discovered env [] of
                    None \<Rightarrow> None
                  | Some (Inl _, _) \<Rightarrow> Some ExFailure
                  | Some (Inr be, h) \<Rightarrow> cli_watch env path be)
          else
            with_program env path (\<lambda>checked.
              case discovered env [] of
                None \<Rightarrow> None
              | Some (Inl _, _) \<Rightarrow> Some ExFailure
              | Some (Inr be, h) \<Rightarrow> cli_dev_run env path checked be h))"

section \<open>Dispatch\<close>

definition cli_run :: "cli_env \<Rightarrow> string list \<Rightarrow> exit_code option" where
  "cli_run env args =
     (case args of
        [_] \<Rightarrow> Some ExUsage
      | _ # command # rest \<Rightarrow>
          if command = ''check'' \<and> length rest = 1 then cli_check env (hd rest)
          else if command = ''build'' \<and> length rest = 1 then cli_build env (hd rest)
          else if command = ''dev'' then cli_development env rest
          else if command = ''run'' then cli_native env rest
          else if rest = [] \<and> (command = ''--help'' \<or> command = ''-h'') then Some ExSuccess
          else Some ExUsage
      | [] \<Rightarrow> Some ExUsage)"

section \<open>Options are read back\<close>

lemma parse_unsigned_show_nat: "n < bound \<Longrightarrow> parse_unsigned bound (show_nat n) = Some n"
proof -
  assume n: "n < bound"
  have "list_all is_ascii_digit (show_nat n)" using show_nat_digits by (simp add: list_all_iff)
  moreover have "show_nat n \<noteq> []" by (subst show_nat.simps) simp
  moreover from this have "hd (show_nat n) \<noteq> CHR ''+''"
    using show_nat_digits [of n] by (cases "show_nat n") (auto simp: is_ascii_digit_def byte_def)
  then have "(case show_nat n of CHR ''+'' # r \<Rightarrow> r | _ \<Rightarrow> show_nat n) = show_nat n"
    by (auto split: list.split char.split bool.split)
  ultimately show ?thesis using n by (simp add: parse_unsigned_def digits_value_show_nat)
qed

lemma path_display_ascii: "\<forall>c \<in> set s. byte c < 128 \<Longrightarrow> path_display s = s"
proof (induction s)
  case (Cons c s)
  then have "utf8_width (c # s) = Some 1" by (simp add: utf8_width_def byte_in_def)
  then show ?case using Cons by (subst path_display.simps) simp
qed (simp add: path_display.simps)

lemma path_display_digits [simp]: "path_display (show_nat n) = show_nat n"
  using show_nat_digits [of n] by (intro path_display_ascii) (auto simp: is_ascii_digit_def)

text \<open>The arguments that select some options and a source.\<close>

definition dev_args :: "dev_options \<Rightarrow> string \<Rightarrow> string list" where
  "dev_args options path =
     (if opt_watch options then [''--watch''] else []) @ [''--bind'', ip_text (opt_bind options)]
     @ (if opt_port_explicit options then [''--port'', show_nat (unat (opt_port options))] else [])
     @ (case opt_frame_limit options of None \<Rightarrow> [] | Some n \<Rightarrow> [''--frames'', show_nat (unat n)]) @ [path]"

lemma option_names [simp]:
  "path_display ''--watch'' = ''--watch''" "path_display ''--bind'' = ''--bind''"
  "path_display ''--port'' = ''--port''" "path_display ''--frames'' = ''--frames''"
  by (rule path_display_ascii; simp add: byte_def)+

lemma frame_limit_show: "n \<noteq> 0 \<Longrightarrow> frame_limit_value (show_nat (unat n)) = Ok n"
proof -
  assume n: "n \<noteq> 0"
  have "unat n < 2 ^ 32" using unsigned_less [where 'a = nat, of n] by simp
  then have "parse_unsigned (2 ^ 32) (show_nat (unat n)) = Some (unat n)" by (rule parse_unsigned_show_nat)
  then show ?thesis using n by (simp add: frame_limit_value_def unat_eq_zero)
qed

lemma dev_args_read_back:
  assumes ip: "parse_ip (ip_text (opt_bind options)) = Some (opt_bind options)" "\<forall>c \<in> set (ip_text (opt_bind options)). byte c < 128"
    and port: "opt_port_explicit options \<or> opt_port options = 8787" and limit: "opt_frame_limit options \<noteq> Some 0"
    and path: "path_display path = [] \<or> hd (path_display path) \<noteq> CHR ''-''"
  shows "parse_dev_args parse_ip (dev_args options path) = Ok (path, options)"
proof -
  have source: "dev_args_loop parse_ip [path] options None = Ok (Some path, options)" for options
    using path by (auto simp: source_argument_def Let_def)
  have "parse_unsigned (2 ^ 16) (show_nat (unat (opt_port options))) = Some (unat (opt_port options))"
    using unsigned_less [of "opt_port options"] by (intro parse_unsigned_show_nat) simp
  then show ?thesis
    using ip path_display_ascii [OF ip(2)] port limit source
    by (cases options) (auto simp: parse_dev_args_def dev_args_def dev_options_default_def frame_limit_show
        simp del: dev_args_loop.simps simp add: dev_args_loop.simps(2) [of parse_ip "''--watch''"]
        dev_args_loop.simps(2) [of parse_ip "''--bind''"] dev_args_loop.simps(2) [of parse_ip "''--port''"]
        dev_args_loop.simps(2) [of parse_ip "''--frames''"] split: option.split)
qed

end
