(* ===== verification/Spec2Isabelle.thy ===== *)
theory Spec2Isabelle
  imports Listener Viewer_Http Sema_Correct Codegen_Blocks Wav_Correct Watch_Correct Toolchain_Correct Cli
begin

text \<open>
  A verification library for the Speck compiler (the Rust crate under \<^verbatim>\<open>src/src\<close>) and its development
  server. File names below are relative to \<^verbatim>\<open>src/src\<close>, unless they start with \<^verbatim>\<open>runtime\<close>, \<^verbatim>\<open>build.rs\<close>,
  \<^verbatim>\<open>tests\<close> or \<^verbatim>\<open>editors\<close>.

  \<^bold>\<open>The program.\<close> A Speck source is lexed and parsed, its imports are loaded and their names resolved into one
  program, the program is checked and its constants are evaluated, LLVM text is emitted, and the toolchain turns the
  text and the C runtime into an executable. \<open>speck dev\<close> runs the executable as a child that streams frames to a
  local web page and takes keys from it; \<open>speck dev --watch\<close> also rebuilds and restarts it when a file it was
  made from changes.

  \<^bold>\<open>Conventions.\<close> A function of the code is a definition of the same name, up to clashes. \<open>Result\<close> is a sum with
  the error on the left (\<open>Ok\<close>, \<open>Err\<close>). A panic is \<open>None\<close> around the result, so a theorem that says a value
  is returned also says that no index, slice, \<open>unwrap\<close>, \<open>expect\<close>, assertion or checked addition of the code
  panics. Text is the list of its UTF-8 bytes; \<open>usize\<close> is a natural number, except where the code checks its
  overflow (\<open>Wav\<close>); all other machine integers keep their width. \<open>f32\<close> is its 32 bits, with operations that round
  the exact result. Hash maps are association lists with the newest entry first, in an order that is never observed.
  The model runs on a Unix host.

  \<^bold>\<open>Shared theories.\<close> \<open>Speck_Prelude\<close>: results, maps, decimal text, UTF-8 and \<open>traverse\<close>. \<open>Transition_System\<close>:
  reachability and the locales \<open>invariant_system\<close> and \<open>monotone_system\<close>, interpreted on the server (\<open>dev\<close>).
  \<open>Paths\<close>: \<open>std::path\<close> on bytes, and the file system as a parameter. \<open>F32\<close>: binary32.

  \<^bold>\<open>Source text and front end.\<close>
  \<^item> \<open>Source_Text\<close> (\<^verbatim>\<open>diagnostic.rs\<close>, \<^verbatim>\<open>source.rs\<close>): spans, diagnostics, their rendering, the source map. Rendering
    slices at character boundaries only, and agrees with the run-time locations on lines and columns.
  \<^item> \<open>Lexer\<close>, \<open>Lexer_Correct\<close> (\<^verbatim>\<open>lexer.rs\<close>): \<open>covers\<close> is the abstract specification of a token list; lexing is
    total, accepts exactly the sources it covers, and reads printed tokens back.
  \<^item> \<open>Ast\<close>, \<open>Resolution\<close>, \<open>Builtins\<close>, \<open>Keyboard\<close> (\<^verbatim>\<open>ast.rs\<close>, \<^verbatim>\<open>resolution.rs\<close>, \<^verbatim>\<open>builtins.rs\<close>, \<^verbatim>\<open>keyboard.rs\<close>):
    the trees and the tables.
  \<^item> \<open>Parser_State\<close>, \<open>Parser_Expr\<close>, \<open>Parser_Program\<close> (\<^verbatim>\<open>parser.rs\<close>, \<^verbatim>\<open>parser/expression.rs\<close>, \<^verbatim>\<open>parser/limits.rs\<close>):
    the recursive descent. \<open>Parser_Rules\<close> is a calculus of weakest preconditions for it, \<open>Parser_Correct\<close> uses it to
    show that the parser returns and that its trees are at most \<open>MAX_NESTING\<close> deep, \<open>Parser_Shape\<close> what the later
    passes assume of its trees. \<open>Frontend\<close> composes lexer and parser.

  \<^bold>\<open>Modules.\<close>
  \<^item> \<open>Modules\<close> (\<^verbatim>\<open>modules.rs\<close>) visits the import graph depth first, over a \<open>loader\<close> whose actions are state
    transformers; \<open>Modules_Correct\<close>: accepted graphs are acyclic, of bounded height, with one module per file.
  \<^item> \<open>Modules_Resolve\<close> (\<^verbatim>\<open>modules/resolve.rs\<close>) rewrites names; \<open>Modules_Resolve_Correct\<close>: it accepts exactly when
    every reference denotes a declaration, and then renames it to that one, without a clash in the flattened program.
  \<^item> \<open>Modules_Total\<close> (\<^verbatim>\<open>checked.rs\<close>, \<^verbatim>\<open>lib.rs\<close>): compilation of a path neither panics nor loops.
    \<open>Modules_Closure\<close>: an analysis depends only on the files it records, which is what the watcher polls.
  \<^item> \<open>Wav\<close>, \<open>Wav_Correct\<close> (\<^verbatim>\<open>audio_assets.rs\<close>): sound files are accepted exactly when the grammar of the supported
    RIFF/WAVE subset derives them.

  \<^bold>\<open>Semantic analysis.\<close>
  \<^item> \<open>Constant_Ops\<close>, \<open>Constant_Machine\<close>, \<open>Constant_Eval\<close> (\<^verbatim>\<open>sema/constants.rs\<close>, \<^verbatim>\<open>sema/constants/evaluation.rs\<close>): the
    stack machine that can be suspended at a name, and its equivalence with the recursive evaluation.
  \<^item> \<open>Constant_Scheduler\<close> (\<^verbatim>\<open>sema/constants/dependencies.rs\<close>): the scheduler of suspended initializers.
    \<open>Constant_Scheduler_Correct\<close> states its contract as the locale \<open>declaration_scheduler\<close> and shows, inside it, that
    requests return and compute the least solution of the declarations (\<open>denotes\<close>). The contract is discharged for
    constants in \<open>Constant_Evaluator\<close> (\<open>declared_constants\<close>, with the locale \<open>cache_view\<close> between machine and
    cache) and for array lengths in \<open>Type_Resolution\<close> (\<open>length_constants\<close>).
  \<^item> \<open>Type_Resolution\<close>, \<open>Program_Types\<close>, \<open>Program_Types_Correct\<close> (\<^verbatim>\<open>sema/type_resolution.rs\<close>): array lengths.
  \<^item> \<open>Struct_Graph\<close>, \<open>Struct_Graph_Correct\<close>, \<open>Struct_Types_Correct\<close> (\<^verbatim>\<open>sema/struct_graph.rs\<close>): recursive structs.
  \<^item> \<open>Checker\<close>, \<open>Checker_Statements\<close>, \<open>Sema\<close> (\<^verbatim>\<open>sema.rs\<close>): the checker and the passes. \<open>Typing\<close>,
    \<open>Typing_Statements\<close>: the type system as inductive rules, the specification of the checker; \<open>Typing_Correct\<close>,
    \<open>Checker_Correct\<close>: the checker accepts exactly what the rules type. \<open>Sema_Total\<close>: analysis returns.
    \<open>Sema_Accepts\<close>, \<open>Sema_Correct\<close>: \<open>program_ok\<close>, what holds of every accepted program.

  \<^bold>\<open>Code generation.\<close>
  \<^item> \<open>Llvm_Text\<close>, \<open>Codegen\<close>, \<open>Codegen_Expr\<close>, \<open>Codegen_Statements\<close>, \<open>Codegen_Program\<close> (\<^verbatim>\<open>codegen/llvm.rs\<close>,
    \<^verbatim>\<open>codegen/embedded_data.rs\<close>, \<^verbatim>\<open>codegen/runtime_diagnostics.rs\<close>): the emitter, a state of lines, temporaries,
    labels and scopes.
  \<^item> \<open>Codegen_Typed\<close>, \<open>Codegen_Total\<close>: every \<open>expect\<close> and \<open>unreachable!\<close> that appeals to the checker is justified by
    the typing rules, so emission of an accepted program returns. \<open>Codegen_Blocks\<close>: functions are well formed basic
    blocks. \<open>Compile\<close> (\<^verbatim>\<open>checked.rs\<close>, \<^verbatim>\<open>lib.rs\<close>) composes the pipeline on one text.

  \<^bold>\<open>Development server and command line.\<close>
  \<^item> \<open>Protocol\<close> (\<^verbatim>\<open>dev/protocol.rs\<close>): frames, controls and browser messages, with round trips under every chunking of
    the stream.
  \<^item> \<open>Server\<close>, \<open>Viewer_Http\<close>, \<open>Listener\<close> (\<^verbatim>\<open>dev/server.rs\<close>): the frame store, the input lease, the HTTP requests,
    and the threads. \<open>dev_step\<close> interleaves the atomic operations of all threads; invariants hold of every
    reachable state.
  \<^item> \<open>Session\<close>, \<open>Watch\<close>, \<open>Watch_Correct\<close> (\<^verbatim>\<open>dev/session.rs\<close>, \<^verbatim>\<open>dev/mod.rs\<close>, \<^verbatim>\<open>dev/watch.rs\<close>): the child process and
    the polling loop, one \<open>turn\<close> at a time. The running game is current (safety) and an edit at rest gets to run
    (liveness).
  \<^item> \<open>Toolchain\<close>, \<open>Toolchain_Correct\<close> (\<^verbatim>\<open>toolchain.rs\<close>, \<^verbatim>\<open>toolchain/process.rs\<close>, \<^verbatim>\<open>runtime_sources.rs\<close>): the commands of
    a build, in order, with the list of everything done; what a successful build has done.
  \<^item> \<open>Cli\<close> (\<^verbatim>\<open>cli.rs\<close>): options, dispatch and commands, down to the exit code.

  \<^bold>\<open>Bounds and fuel.\<close> Recursion of the parser descends on the nesting levels left, \<open>MAX_NESTING\<close> at the start; its
  loops take as many turns as tokens are left and one more, each turn consumes a token, and \<open>frontend_total\<close>
  shows that they end in a result. The visit of imports takes \<open>MAX_IMPORT_DEPTH + 1\<close> levels, one for each file that may be active
  and one for the refusal; \<open>import_graph_accepted\<close> shows that it never runs out. The scheduler's loop is a
  \<open>partial_function\<close>, and \<open>constant_request_total\<close> shows that it returns. The searches of structs, the readers
  and the scans of sound files are total functions with measures. Loops that wait for the outside (accept loops, the
  watchdog, the watcher, waiting for a child) run on the list of what they meet, and give \<open>None\<close> while it has not ended them;
  stopping a game looks at most \<open>STOP_DEADLINE\<close> divided by its polling interval many times.

  \<^bold>\<open>Parameters.\<close> The file system (\<open>file_system\<close>; what theorems assume of it is \<open>file_system_sane\<close>: canonical paths are absolute
  and normal, text is UTF-8, a file is no directory), the answers of sockets and of the operating system, the clock,
  the programs the toolchain runs, the parser of IP addresses, and the bytes of the viewer page.

  \<^bold>\<open>Not modelled.\<close> \<^verbatim>\<open>main.rs\<close> only calls \<open>cli::run\<close>. The foreign calls of \<open>kill\<close> and the signal handlers are
  parameters of the session. \<^verbatim>\<open>build.rs\<close> runs before compilation; \<open>Keyboard\<close> states its checks on the catalogue and
  the table it writes. What a successful command prints, and panics of printing, are left out. The meaning of the
  emitted LLVM text is not defined here: the theorems on it state that it is returned and well formed as blocks.
  The C runtime, the viewer page, the editor support, the examples and the tests are not Rust code of the program.
\<close>

end
